(* ===== verification/Prelude.thy ===== *)
theory Prelude
  imports Complex_Main "HOL-Library.AList"
begin

text \<open>
  What the component theories share: the Python values they work on and the generic lemmas
  about them.

  \<^item> A Python \<open>str\<close> is a \<^typ>\<open>string\<close>; one \<^typ>\<open>char\<close> stands for one code point, so the
    alphabet is the first 256 code points, and lengths and slices count code points as Python
    does. A code point beyond that range in a literal of the source (the em dash) is
    represented by one character outside ASCII.
  \<^item> A Python \<open>float\<close> is an exact rational: rounding is not modelled.
  \<^item> A \<open>dict\<close> whose order or size matters is an association list with distinct keys, written
    with \<^const>\<open>AList.update\<close> (which keeps the position of a key that is already there and
    appends a new one, as Python's \<open>d[k] = v\<close> does).
  \<^item> A value read from the YAML configuration or from JSON is a \<open>pyval\<close>, because the code
    tests its run-time type.
\<close>

type_synonym str = string
type_synonym seconds = rat
type_synonym ('k, 'v) dict = "('k \<times> 'v) list"

named_theorems dict_simps \<open>rewrite rules for Python dictionaries as association lists\<close>
named_theorems window_simps \<open>rewrite rules for sliding windows of time stamps\<close>
named_theorems str_defs \<open>definitions of the string operations\<close>

section \<open>Python values\<close>

datatype pyval =
    PNone
  | PBool bool
  | PInt int
  | PFloat rat
  | PStr str
  | PList "pyval list"
  | PDict "(str \<times> pyval) list"

definition is_literal_true :: "pyval \<Rightarrow> bool" where
  "is_literal_true v = (v = PBool True)"

fun py_truthy :: "pyval \<Rightarrow> bool" where
  "py_truthy PNone = False"
| "py_truthy (PBool b) = b"
| "py_truthy (PInt i) = (i \<noteq> 0)"
| "py_truthy (PFloat r) = (r \<noteq> 0)"
| "py_truthy (PStr s) = (s \<noteq> [])"
| "py_truthy (PList xs) = (xs \<noteq> [])"
| "py_truthy (PDict d) = (d \<noteq> [])"

text \<open>\<open>d.get(k, default)\<close> on a dictionary.\<close>

definition dget :: "('k, 'v) dict \<Rightarrow> 'k \<Rightarrow> 'v \<Rightarrow> 'v" where
  "dget d k v = (case map_of d k of None \<Rightarrow> v | Some x \<Rightarrow> x)"

text \<open>A value that may be absent, with a default.\<close>

definition oget :: "'a option \<Rightarrow> 'a \<Rightarrow> 'a" where
  "oget x d = (case x of None \<Rightarrow> d | Some v \<Rightarrow> v)"

section \<open>Python strings\<close>

definition code :: "char \<Rightarrow> nat" where
  [str_defs]: "code c = of_char c"

text \<open>\<open>str.isspace\<close> and \<open>str.lower\<close> on the first 256 code points.\<close>

definition py_isspace :: "char \<Rightarrow> bool" where
  [str_defs]: "py_isspace c = (let n = code c in
     9 \<le> n \<and> n \<le> 13 \<or> 28 \<le> n \<and> n \<le> 32 \<or> n = 133 \<or> n = 160)"

definition py_lower_char :: "char \<Rightarrow> char" where
  [str_defs]: "py_lower_char c = (let n = code c in
     if 65 \<le> n \<and> n \<le> 90 \<or> 192 \<le> n \<and> n \<le> 222 \<and> n \<noteq> 215 then char_of (n + 32) else c)"

definition py_lower :: "str \<Rightarrow> str" where
  [str_defs]: "py_lower s = map py_lower_char s"

definition py_lstrip :: "str \<Rightarrow> str" where
  [str_defs]: "py_lstrip s = dropWhile py_isspace s"

definition py_strip :: "str \<Rightarrow> str" where
  [str_defs]: "py_strip s = rev (py_lstrip (rev (py_lstrip s)))"

definition py_startswith :: "str \<Rightarrow> str \<Rightarrow> bool" where
  [str_defs]: "py_startswith s p = (take (length p) s = p)"

fun py_join :: "str \<Rightarrow> str list \<Rightarrow> str" where
  "py_join sep [] = []"
| "py_join sep [x] = x"
| "py_join sep (x # y # xs) = x @ sep @ py_join sep (y # xs)"

lemma py_startswith_length: "py_startswith s p \<Longrightarrow> length p \<le> length s"
  by (metis py_startswith_def length_take min.cobounded1)

lemma py_startswith_append [simp]: "py_startswith (p @ s) p"
  by (simp add: py_startswith_def)

lemma py_join_snoc:
  "py_join sep (xs @ [x]) = (if xs = [] then x else py_join sep xs @ sep @ x)"
  by (induction sep xs rule: py_join.induct) auto

lemma py_strip_empty [simp]: "py_strip [] = []"
  by (simp add: str_defs)

lemma dropWhile_fixed: "dropWhile P (dropWhile P xs) = dropWhile P xs"
  by (induction xs) auto

section \<open>Association lists\<close>

lemma dget_update [dict_simps]:
  "dget (AList.update k v d) k' x = (if k' = k then v else dget d k' x)"
  by (simp add: dget_def update_conv')

lemma dget_Nil [dict_simps, simp]: "dget [] k x = x"
  by (simp add: dget_def)

lemma dget_filter_keys:
  "dget (filter (\<lambda>(k, _). P k) d) k x = (if P k then dget d k x else x)"
  by (induction d) (auto simp: dget_def split: option.splits)

lemma map_of_filter_keys:
  "map_of (filter (\<lambda>(k, _). P k) d) k = (if P k then map_of d k else None)"
  by (induction d) auto

lemma map_of_filter_pair:
  "distinct (map fst d) \<Longrightarrow>
   map_of (filter (\<lambda>(k, v). P k v) d) k =
     (case map_of d k of None \<Rightarrow> None | Some v \<Rightarrow> if P k v then Some v else None)"
  by (induction d) (force split: option.splits)+

lemma map_of_map_values:
  "map_of (map (\<lambda>(k, v). (k, f v)) d) k = map_option f (map_of d k)"
  by (induction d) auto

lemma dom_map_of_update: "dom (map_of (AList.update k v d)) = insert k (dom (map_of d))"
  by (simp add: update_conv')

lemma in_keys_iff: "k \<in> fst ` set d \<longleftrightarrow> map_of d k \<noteq> None"
  by (metis map_of_eq_None_iff)

section \<open>Lists\<close>

lemma count_map_update:
  "length (filter P (map f xs)) = length (filter (\<lambda>x. P (f x)) xs)"
  by (simp add: filter_map comp_def)

lemma length_filter_mono:
  "(\<And>x. x \<in> set xs \<Longrightarrow> P x \<Longrightarrow> Q x) \<Longrightarrow> length (filter P xs) \<le> length (filter Q xs)"
proof (induction xs)
  case (Cons a xs)
  then have "length (filter P xs) \<le> length (filter Q xs)" by simp
  with Cons.prems show ?case by auto
qed simp

lemma length_filter_zero_iff: "length (filter P xs) = 0 \<longleftrightarrow> (\<forall>x \<in> set xs. \<not> P x)"
  by (simp add: filter_empty_conv)

lemma find_append: "find P (xs @ ys) = (case find P xs of None \<Rightarrow> find P ys | Some x \<Rightarrow> Some x)"
  by (induction xs) auto

lemma filter_same: "(\<And>x. x \<in> set xs \<Longrightarrow> P x) \<Longrightarrow> filter P xs = xs"
  by (simp add: filter_id_conv)

text \<open>
  \<open>sorted(xs, key=f, reverse=True)\<close>: descending by the key, equal keys in the order of the
  input (Python's reverse sort stays stable).
\<close>

definition sorted_desc :: "('a \<Rightarrow> 'b::{linorder,uminus}) \<Rightarrow> 'a list \<Rightarrow> 'a list" where
  "sorted_desc f xs = sort_key (\<lambda>x. - f x) xs"

lemma set_sorted_desc [simp]: "set (sorted_desc f xs) = set xs"
  by (simp add: sorted_desc_def)

lemma length_sorted_desc [simp]: "length (sorted_desc f xs) = length xs"
  by (simp add: sorted_desc_def)

lemma mset_sorted_desc: "distinct (sorted_desc f xs) = distinct xs"
  by (simp add: sorted_desc_def)

lemma sorted_desc_ordered:
  fixes f :: "'a \<Rightarrow> rat"
  shows "sorted_wrt (\<lambda>a b. f b \<le> f a) (sorted_desc f xs)"
  using sorted_sort_key [of "\<lambda>x. - f x" xs]
  by (simp add: sorted_desc_def sorted_map)

section \<open>Exceptions\<close>

text \<open>Sequencing of computations that may raise: \<^term>\<open>Inl e\<close> is the exception \<open>e\<close>.\<close>

definition ebind :: "'e + 'a \<Rightarrow> ('a \<Rightarrow> 'e + 'b) \<Rightarrow> 'e + 'b" where
  "ebind r f = (case r of Inl e \<Rightarrow> Inl e | Inr x \<Rightarrow> f x)"

lemma ebind_simps [simp]: "ebind (Inl e) f = Inl e" "ebind (Inr x) f = f x"
  by (simp_all add: ebind_def)

lemma ebind_Inr_iff: "ebind r f = Inr y \<longleftrightarrow> (\<exists>x. r = Inr x \<and> f x = Inr y)"
  by (cases r) auto

definition ensure :: "bool \<Rightarrow> 'e \<Rightarrow> 'e + unit" where
  "ensure b e = (if b then Inr () else Inl e)"

lemma ensure_Inr_iff [simp]: "ensure b e = Inr u \<longleftrightarrow> b"
  by (simp add: ensure_def)

definition of_option :: "'e \<Rightarrow> 'a option \<Rightarrow> 'e + 'a" where
  "of_option e v = (case v of None \<Rightarrow> Inl e | Some x \<Rightarrow> Inr x)"

lemma of_option_Inr_iff [simp]: "of_option e v = Inr x \<longleftrightarrow> v = Some x"
  by (cases v) (auto simp: of_option_def)

section \<open>SQL tables\<close>

text \<open>\<open>UPDATE rows SET f WHERE P\<close> and its \<open>rowcount\<close>.\<close>

definition update_where :: "('r \<Rightarrow> bool) \<Rightarrow> ('r \<Rightarrow> 'r) \<Rightarrow> 'r list \<Rightarrow> 'r list" where
  "update_where P f rows = map (\<lambda>r. if P r then f r else r) rows"

definition rowcount :: "('r \<Rightarrow> bool) \<Rightarrow> 'r list \<Rightarrow> nat" where
  "rowcount P rows = length (filter P rows)"

text \<open>\<open>ORDER BY id DESC LIMIT n OFFSET k\<close>; a negative limit is none, a negative offset is zero.\<close>

definition sql_page :: "('r \<Rightarrow> int) \<Rightarrow> int \<Rightarrow> int \<Rightarrow> 'r list \<Rightarrow> 'r list" where
  "sql_page key n k rows = (let page = drop (nat k) (sort_key (\<lambda>r. - key r) rows) in
     if n < 0 then page else take (nat n) page)"

text \<open>The next \<open>INTEGER PRIMARY KEY\<close>: one more than the largest in the table.\<close>

definition next_id :: "('r \<Rightarrow> int) \<Rightarrow> 'r list \<Rightarrow> int" where
  "next_id key rows = foldr (\<lambda>r m. max (key r) m) rows 0 + 1"

lemma next_id_fresh: "r \<in> set rows \<Longrightarrow> key r < next_id key rows"
  by (induction rows) (auto simp: next_id_def)

lemma next_id_pos: "0 < next_id key rows"
proof -
  have "0 \<le> foldr (\<lambda>r m. max (key r) m) rows 0" by (induction rows) auto
  then show ?thesis by (simp add: next_id_def)
qed

lemma set_update_where: "x \<in> set (update_where P f rows) \<longleftrightarrow> (\<exists>r \<in> set rows. x = (if P r then f r else r))"
  by (auto simp: update_where_def)

lemma map_update_where: "(\<And>r. g (f r) = g r) \<Longrightarrow> map g (update_where P f rows) = map g rows"
  by (simp add: update_where_def)

lemma rowcount_zero: "rowcount P rows = 0 \<longleftrightarrow> (\<forall>r \<in> set rows. \<not> P r)"
  by (simp add: rowcount_def filter_empty_conv)

lemma distinct_key_count: "distinct (map f xs) \<Longrightarrow> length (filter (\<lambda>x. f x = c) xs) \<le> 1"
proof (induction xs)
  case (Cons x xs)
  have "f x = c \<Longrightarrow> filter (\<lambda>y. f y = c) xs = []"
    using Cons.prems by (auto simp: filter_empty_conv image_iff)
  with Cons show ?case by auto
qed simp

end
