(* ===== verification/Effect.thy ===== *)
theory Effect
  imports Prelude
begin

text \<open>
  Statements that read and write a state and may raise: an action takes the state and returns
  an exception (\<^term>\<open>Inl e\<close>) or a value together with the state it leaves. The state written
  before an exception stays written, as in Python. The handlers of the gateway and the
  operations of the Telegram channel are actions.

  The locale \<open>frame\<close> is the contract of a relation between the states before and after an
  action that composes: a reflexive and transitive relation kept by every statement of a
  program is kept by the program. The components interpret it on the relations they need.
\<close>

section \<open>Actions\<close>

type_synonym ('e, 's, 'a) action = "'s \<Rightarrow> ('e + 'a) \<times> 's"

named_theorems handler_simps \<open>rewrite rules for actions\<close>

definition hret :: "'a \<Rightarrow> ('e, 's, 'a) action" where
  [handler_simps]: "hret x s = (Inr x, s)"

definition hraise :: "'e \<Rightarrow> ('e, 's, 'a) action" where
  [handler_simps]: "hraise e s = (Inl e, s)"

definition hbind :: "('e, 's, 'a) action \<Rightarrow> ('a \<Rightarrow> ('e, 's, 'b) action) \<Rightarrow> ('e, 's, 'b) action" where
  "hbind f g s = (case f s of (Inl e, s') \<Rightarrow> (Inl e, s') | (Inr x, s') \<Rightarrow> g x s')"

definition hensure :: "bool \<Rightarrow> 'e \<Rightarrow> ('e, 's, unit) action" where
  [handler_simps]: "hensure b e = (if b then hret () else hraise e)"

lemma hbind_simps [simp]:
  "f s = (Inl e, s') \<Longrightarrow> hbind f g s = (Inl e, s')"
  "f s = (Inr x, s') \<Longrightarrow> hbind f g s = g x s'"
  by (simp_all add: hbind_def)

lemma hbind_Inr_iff:
  "hbind f g s = (Inr y, t) \<longleftrightarrow> (\<exists>x s'. f s = (Inr x, s') \<and> g x s' = (Inr y, t))"
  by (auto simp: hbind_def split: prod.splits sum.splits)

lemma hbind_cases [consumes 1, case_names raises returns]:
  assumes "hbind f g s = (r, t)"
  obtains e where "f s = (Inl e, t)" and "r = Inl e"
  | x u where "f s = (Inr x, u)" and "g x u = (r, t)"
  using assms by (auto simp: hbind_def split: prod.splits sum.splits)

lemma hensure_Inr_iff [simp]: "hensure b e s = (Inr u, t) \<longleftrightarrow> b \<and> t = s"
  by (auto simp: handler_simps)

lemma hret_Inr_iff [simp]: "hret x s = (Inr y, t) \<longleftrightarrow> y = x \<and> t = s"
  by (auto simp: handler_simps)

lemma hraise_not_Inr [simp]: "hraise e s \<noteq> (Inr y, t)"
  by (simp add: handler_simps)

lemma hbind_assoc: "hbind (hbind f g) h = hbind f (\<lambda>x. hbind (g x) h)"
  by (rule ext) (simp add: hbind_def split: prod.split sum.split)

text \<open>Reading and writing the state, raising a result, and the loops and clauses of the language.\<close>

definition hget :: "('s \<Rightarrow> 'a) \<Rightarrow> ('e, 's, 'a) action" where
  [handler_simps]: "hget f s = (Inr (f s), s)"

definition hmodify :: "('s \<Rightarrow> 's) \<Rightarrow> ('e, 's, unit) action" where
  [handler_simps]: "hmodify f s = (Inr (), f s)"

definition hlift :: "'e + 'a \<Rightarrow> ('e, 's, 'a) action" where
  [handler_simps]: "hlift r s = (r, s)"

text \<open>\<open>try: f except: h\<close>, where \<open>h\<close> re-raises what it does not handle, and \<open>try: f finally: c\<close>.\<close>

definition hcatch :: "('e, 's, 'a) action \<Rightarrow> ('e \<Rightarrow> ('e, 's, 'a) action) \<Rightarrow> ('e, 's, 'a) action" where
  "hcatch f h s = (case f s of (Inl e, s') \<Rightarrow> h e s' | (Inr x, s') \<Rightarrow> (Inr x, s'))"

definition hfinally :: "('e, 's, 'a) action \<Rightarrow> ('e, 's, unit) action \<Rightarrow> ('e, 's, 'a) action" where
  "hfinally f c s = (case f s of (r, s') \<Rightarrow> (case c s' of (Inl e, t) \<Rightarrow> (Inl e, t) | (Inr _, t) \<Rightarrow> (r, t)))"

section \<open>Frames\<close>

definition keeps :: "('s \<Rightarrow> 's \<Rightarrow> bool) \<Rightarrow> ('e, 's, 'a) action \<Rightarrow> bool" where
  "keeps R f \<longleftrightarrow> (\<forall>s. R s (snd (f s)))"

lemma keepsD: "keeps R f \<Longrightarrow> f s = (r, t) \<Longrightarrow> R s t"
  unfolding keeps_def by (metis snd_conv)

lemma keepsI: "(\<And>s r t. f s = (r, t) \<Longrightarrow> R s t) \<Longrightarrow> keeps R f"
  unfolding keeps_def by (metis prod.collapse)

lemma keeps_mono: "keeps R f \<Longrightarrow> (\<And>s t. R s t \<Longrightarrow> S s t) \<Longrightarrow> keeps S f"
  by (simp add: keeps_def)

locale frame =
  fixes R :: "'s \<Rightarrow> 's \<Rightarrow> bool"
  assumes R_refl: "R s s"
    and R_trans: "R s t \<Longrightarrow> R t u \<Longrightarrow> R s u"
begin

lemma keeps_ret: "keeps R (hret x)" and keeps_raise: "keeps R (hraise e)"
  and keeps_get: "keeps R (hget g)" and keeps_ensure: "keeps R (hensure b e)"
  and keeps_lift: "keeps R (hlift r)"
  by (simp_all add: keeps_def handler_simps R_refl)

lemma keeps_modify: "(\<And>s. R s (f s)) \<Longrightarrow> keeps R (hmodify f)"
  by (simp add: keeps_def handler_simps)

lemma keeps_bind:
  assumes "keeps R f" and "\<And>x. keeps R (g x)"
  shows "keeps R (hbind f g)"
proof (rule keepsI)
  fix s r t assume "hbind f g s = (r, t)"
  then show "R s t"
    using keepsD [OF assms(1)] keepsD [OF assms(2)] R_trans
    by (fastforce simp: hbind_def split: prod.splits sum.splits)
qed

lemma keeps_bind_result:
  assumes "keeps R f" and "\<And>x s t. f s = (Inr x, t) \<Longrightarrow> keeps R (g x)"
  shows "keeps R (hbind f g)"
proof (rule keepsI)
  fix s r t assume "hbind f g s = (r, t)"
  then show "R s t"
  proof (cases rule: hbind_cases)
    case (raises e)
    then show ?thesis using keepsD [OF assms(1)] by blast
  next
    case (returns x u)
    then show ?thesis using keepsD [OF assms(1) returns(1)] keepsD [OF assms(2) [OF returns(1)]] R_trans by blast
  qed
qed

lemma keeps_catch:
  assumes "keeps R f" and "\<And>e. keeps R (h e)"
  shows "keeps R (hcatch f h)"
proof (rule keepsI)
  fix s r t assume "hcatch f h s = (r, t)"
  then show "R s t"
    using keepsD [OF assms(1)] keepsD [OF assms(2)] R_trans
    by (fastforce simp: hcatch_def split: prod.splits sum.splits)
qed

lemma keeps_finally:
  assumes "keeps R f" and "keeps R c"
  shows "keeps R (hfinally f c)"
proof (rule keepsI)
  fix s r t assume "hfinally f c s = (r, t)"
  then show "R s t"
    using keepsD [OF assms(1)] keepsD [OF assms(2)] R_trans
    by (fastforce simp: hfinally_def split: prod.splits sum.splits)
qed

lemmas keeps_basic = keeps_ret keeps_raise keeps_get keeps_ensure keeps_lift
lemmas keeps_rules = keeps_basic keeps_bind keeps_catch keeps_finally

end

end
