(* ===== verification/Py_Codec.thy ===== *)
theory Py_Codec
  imports Prelude
begin

text \<open>
  The text codecs of Python's standard library that the records of \<open>utils/authn.py\<close> are built
  with: decimal integers (\<open>str(n)\<close>, \<open>int(s)\<close>), \<open>str.split\<close> on one character, and base64
  (\<open>base64.b64encode\<close>, \<open>base64.b64decode(..., validate=True)\<close>). A byte string is a list of
  characters. Each encoder is shown to be inverted by its decoder.
\<close>

named_theorems codec_simps \<open>round trips and alphabets of the codecs\<close>

section \<open>Decimal integers\<close>

definition digit :: "nat \<Rightarrow> char" where
  "digit d = char_of (48 + d)"

fun nat_str :: "nat \<Rightarrow> str" where
  "nat_str n = (if n < 10 then [digit n] else nat_str (n div 10) @ [digit (n mod 10)])"

declare nat_str.simps [simp del]

definition int_str :: "int \<Rightarrow> str" where
  "int_str i = (if i < 0 then CHR ''-'' # nat_str (nat (- i)) else nat_str (nat i))"

definition is_digit :: "char \<Rightarrow> bool" where
  "is_digit c = (48 \<le> code c \<and> code c \<le> 57)"

text \<open>Digits with single underscores between them, as \<open>int\<close> accepts them.\<close>

fun parse_digits :: "bool \<Rightarrow> nat \<Rightarrow> str \<Rightarrow> nat option" where
  "parse_digits prev acc [] = (if prev then Some acc else None)"
| "parse_digits prev acc (c # cs) =
     (if is_digit c then parse_digits True (acc * 10 + (code c - 48)) cs
      else if c = CHR ''_'' \<and> prev then parse_digits False acc cs
      else None)"

text \<open>\<open>int(s)\<close>; \<open>None\<close> is \<open>ValueError\<close>, also raised for more than 4300 digits.\<close>

definition py_int :: "str \<Rightarrow> int option" where
  "py_int s = (if 4300 < length (filter is_digit s) then None else case py_strip s of
      [] \<Rightarrow> None
    | c # cs \<Rightarrow> if c = CHR ''-'' then map_option (\<lambda>n. - int n) (parse_digits False 0 cs)
                else if c = CHR ''+'' then map_option int (parse_digits False 0 cs)
                else map_option int (parse_digits False 0 (c # cs)))"

lemma code_digit: "d < 10 \<Longrightarrow> code (digit d) = 48 + d"
  by (simp add: code_def digit_def of_char_of)

lemma is_digit_digit: "d < 10 \<Longrightarrow> is_digit (digit d)"
  by (simp add: is_digit_def code_digit)

lemma nat_str_digits: "c \<in> set (nat_str n) \<Longrightarrow> is_digit c"
  by (induction n rule: nat_str.induct) (subst (asm) (2) nat_str.simps, auto simp: is_digit_digit split: if_splits)

lemma parse_digits_append:
  "\<forall>c \<in> set xs. is_digit c \<Longrightarrow> xs \<noteq> [] \<Longrightarrow>
   parse_digits p acc (xs @ ys) = parse_digits True (foldl (\<lambda>a c. a * 10 + (code c - 48)) acc xs) ys"
proof (induction xs arbitrary: p acc)
  case (Cons x xs)
  let ?acc = "acc * 10 + (code x - 48)"
  show ?case
  proof (cases "xs = []")
    case False
    with Cons.IH [of True ?acc] Cons.prems show ?thesis by (simp only: append_Cons parse_digits.simps) simp
  qed (use Cons.prems in simp)
qed simp

lemma foldl_nat_str: "foldl (\<lambda>a c. a * 10 + (code c - 48)) 0 (nat_str n) = n"
proof (induction n rule: nat_str.induct)
  case (1 n)
  then show ?case by (subst nat_str.simps) (auto simp: code_digit)
qed

lemma nat_str_not_Nil: "nat_str n \<noteq> []"
  by (subst nat_str.simps) simp

lemma parse_nat_str: "parse_digits p 0 (nat_str n) = Some n"
  using parse_digits_append [of "nat_str n" p 0 "[]"] nat_str_digits nat_str_not_Nil
  by (simp add: foldl_nat_str)

lemma digit_not_space: "is_digit c \<Longrightarrow> \<not> py_isspace c"
  by (auto simp: is_digit_def py_isspace_def Let_def)

lemma dropWhile_none: "\<forall>x \<in> set xs. \<not> P x \<Longrightarrow> dropWhile P xs = xs"
  by (cases xs) auto

lemma py_strip_id:
  assumes "\<forall>c \<in> set s. \<not> py_isspace c"
  shows "py_strip s = s"
  using assms by (simp add: py_strip_def py_lstrip_def dropWhile_none)

lemma sign_not_digit: "\<not> is_digit CHR ''-''" "\<not> is_digit CHR ''+''"
  by (simp_all add: is_digit_def code_def)

lemma py_int_nat_str:
  assumes short: "length (nat_str n) \<le> 4300"
  shows "py_int (nat_str n) = Some (int n)"
proof -
  obtain c cs where eq: "nat_str n = c # cs" using nat_str_not_Nil by (cases "nat_str n") auto
  have "is_digit c" using nat_str_digits [of c n] eq by simp
  then have "c \<noteq> CHR ''-''" "c \<noteq> CHR ''+''" using sign_not_digit by auto
  moreover have "py_strip (nat_str n) = nat_str n"
    using py_strip_id nat_str_digits digit_not_space by blast
  moreover have "length (filter is_digit (nat_str n)) \<le> 4300"
    using short le_trans [OF length_filter_le [of is_digit "nat_str n"]] by blast
  ultimately show ?thesis
    using parse_nat_str [of False n] by (simp add: py_int_def eq)
qed

section \<open>Splitting at a separator\<close>

fun py_split :: "char \<Rightarrow> str \<Rightarrow> str list" where
  "py_split c [] = [[]]"
| "py_split c (x # xs) =
     (if x = c then [] # py_split c xs
      else case py_split c xs of [] \<Rightarrow> [[x]] | y # ys \<Rightarrow> (x # y) # ys)"

lemma py_split_free: "c \<notin> set s \<Longrightarrow> py_split c s = [s]"
  by (induction s) auto

lemma py_split_append: "c \<notin> set s \<Longrightarrow> py_split c (s @ c # rest) = s # py_split c rest"
  by (induction s) auto

lemma py_split_join [codec_simps]:
  "xs \<noteq> [] \<Longrightarrow> \<forall>s \<in> set xs. c \<notin> set s \<Longrightarrow> py_split c (py_join [c] xs) = xs"
  by (induction "[c]" xs rule: py_join.induct) (auto simp: py_split_free py_split_append)

section \<open>UTF-8\<close>

text \<open>\<open>s.encode("utf-8")\<close> on the first 256 code points.\<close>

fun utf8 :: "str \<Rightarrow> str" where
  "utf8 [] = []"
| "utf8 (c # cs) = (if code c < 128 then c # utf8 cs
     else char_of (192 + code c div 64) # char_of (128 + code c mod 64) # utf8 cs)"

lemma code_less: "code c < 256"
  by (simp add: code_def)

lemma char_of_code: "char_of (code c) = c"
  by (simp add: code_def)

lemma code_inject: "code a = code b \<Longrightarrow> a = b"
  by (metis char_of_code)

lemma code_char_of: "n < 256 \<Longrightarrow> code (char_of n) = n"
  by (simp add: code_def of_char_of)

lemma utf8_lead: "code (char_of (192 + code c div 64)) = 192 + code c div 64"
proof (rule code_char_of)
  have "code c div 64 < 4" using code_less [of c] by (simp add: less_mult_imp_div_less)
  then show "192 + code c div 64 < 256" by simp
qed

lemma utf8_trail: "code (char_of (128 + code c mod 64)) = 128 + code c mod 64"
  by (rule code_char_of) (simp add: less_imp_le trans_less_add1)

lemma utf8_pair_inject:
  assumes "char_of (192 + code c div 64) = (char_of (192 + code d div 64) :: char)"
    and "char_of (128 + code c mod 64) = (char_of (128 + code d mod 64) :: char)"
  shows "c = d"
proof -
  have "192 + code c div 64 = 192 + code d div 64" using assms(1) utf8_lead by metis
  moreover have "128 + code c mod 64 = 128 + code d mod 64" using assms(2) utf8_trail by metis
  ultimately have "code c div 64 * 64 + code c mod 64 = code d div 64 * 64 + code d mod 64" by simp
  then show ?thesis by (simp add: code_inject)
qed

lemma utf8_lead_big: "code x < 128 \<Longrightarrow> x \<noteq> char_of (192 + code y div 64)"
  using utf8_lead [of y] by auto

lemma utf8_inject: "utf8 s = utf8 t \<Longrightarrow> s = t"
proof (induction s arbitrary: t rule: utf8.induct)
  case 1
  then show ?case by (cases t) (auto split: if_splits)
next
  case (2 c cs)
  then obtain d ds where t: "t = d # ds" by (cases t) (auto split: if_splits)
  show ?case
  proof (cases "code c < 128")
    case True
    with 2(3) t utf8_lead_big [of c d] have "c = d" "utf8 cs = utf8 ds" by (simp_all split: if_splits)
    with 2(1) [OF True] t show ?thesis by simp
  next
    case False
    with 2(3) t utf8_lead_big [of d c] utf8_pair_inject [of c d] have "c = d" "utf8 cs = utf8 ds"
      by (auto split: if_splits)
    with 2(2) [OF False] t show ?thesis by simp
  qed
qed

section \<open>Base64\<close>

definition b64_char :: "nat \<Rightarrow> char" where
  "b64_char n = char_of (if n < 26 then 65 + n else if n < 52 then 71 + n
     else if n < 62 then n - 4 else if n = 62 then 43 else 47)"

definition b64_value :: "char \<Rightarrow> nat option" where
  "b64_value ch = (let n = code ch in
     if 65 \<le> n \<and> n \<le> 90 then Some (n - 65)
     else if 97 \<le> n \<and> n \<le> 122 then Some (n - 71)
     else if 48 \<le> n \<and> n \<le> 57 then Some (n + 4)
     else if n = 43 then Some 62 else if n = 47 then Some 63 else None)"

fun b64encode :: "str \<Rightarrow> str" where
  "b64encode [] = []"
| "b64encode [a] = [b64_char (code a div 4), b64_char (code a mod 4 * 16), CHR ''='', CHR ''='']"
| "b64encode [a, b] = [b64_char (code a div 4), b64_char (code a mod 4 * 16 + code b div 16),
     b64_char (code b mod 16 * 4), CHR ''='']"
| "b64encode (a # b # c # r) = b64_char (code a div 4) # b64_char (code a mod 4 * 16 + code b div 16) #
     b64_char (code b mod 16 * 4 + code c div 64) # b64_char (code c mod 64) # b64encode r"

text \<open>
  Strict decoding: groups of four characters of the alphabet, padding only in the last group
  (its unused low bits are ignored); anything else raises.
\<close>

definition b64_quad :: "char \<Rightarrow> char \<Rightarrow> char \<Rightarrow> char \<Rightarrow> bool \<Rightarrow> str option" where
  "b64_quad w x y z final =
     (case (b64_value w, b64_value x) of
        (Some p, Some q) \<Rightarrow>
          (if final \<and> y = CHR ''='' \<and> z = CHR ''='' then Some [char_of (p * 4 + q div 16)]
           else case b64_value y of None \<Rightarrow> None
           | Some u \<Rightarrow>
              if final \<and> z = CHR ''='' then Some [char_of (p * 4 + q div 16), char_of (q mod 16 * 16 + u div 4)]
              else (case b64_value z of None \<Rightarrow> None
                | Some v \<Rightarrow> Some [char_of (p * 4 + q div 16), char_of (q mod 16 * 16 + u div 4),
                                  char_of (u mod 4 * 64 + v)]))
      | _ \<Rightarrow> None)"

fun b64decode :: "str \<Rightarrow> str option" where
  "b64decode [] = Some []"
| "b64decode (w # x # y # z # r) =
     (case b64_quad w x y z (r = []) of None \<Rightarrow> None
      | Some bs \<Rightarrow> map_option (\<lambda>rest. bs @ rest) (b64decode r))"
| "b64decode _ = None"

lemma b64_value_char [codec_simps]: "n < 64 \<Longrightarrow> b64_value (b64_char n) = Some n"
  by (auto simp: b64_value_def b64_char_def code_def Let_def of_char_of)

lemma b64_value_pad [codec_simps]: "b64_value CHR ''='' = None"
  by (simp add: b64_value_def code_def)

lemma b64_char_not_pad: "n < 64 \<Longrightarrow> b64_char n \<noteq> CHR ''=''"
  using b64_value_char b64_value_pad by (metis option.distinct(1))

lemma split_group:
  fixes x y m :: nat
  assumes "y < m"
  shows "(x * m + y) div m = x" "(x * m + y) mod m = y"
  using assms by simp_all

lemma b64_bits:
  fixes a b c :: nat
  assumes "a < 256" and "b < 256" and "c < 256"
  shows "a div 4 < 64" "a mod 4 * 16 + b div 16 < 64" "b mod 16 * 4 + c div 64 < 64" "c mod 64 < 64"
    "a div 4 * 4 + (a mod 4 * 16 + b div 16) div 16 = a"
    "(a mod 4 * 16 + b div 16) mod 16 * 16 + (b mod 16 * 4 + c div 64) div 4 = b"
    "(b mod 16 * 4 + c div 64) mod 4 * 64 + c mod 64 = c"
proof -
  have d: "b div 16 < 16" "c div 64 < 4" "a div 4 < 64" using assms by (simp_all add: less_mult_imp_div_less)
  have m: "a mod 4 < 4" "b mod 16 < 16" by simp_all
  show "a div 4 < 64" "c mod 64 < 64" using d by simp_all
  show "a mod 4 * 16 + b div 16 < 64" "b mod 16 * 4 + c div 64 < 64" using d m by linarith+
  show "a div 4 * 4 + (a mod 4 * 16 + b div 16) div 16 = a"
    "(a mod 4 * 16 + b div 16) mod 16 * 16 + (b mod 16 * 4 + c div 64) div 4 = b"
    "(b mod 16 * 4 + c div 64) mod 4 * 64 + c mod 64 = c"
    by (simp_all only: split_group [OF d(1)] split_group [OF d(2)] div_mult_mod_eq)
qed

lemma b64_quad_full:
  assumes "a < 256" and "b < 256" and "c < 256"
  shows "b64_quad (b64_char (a div 4)) (b64_char (a mod 4 * 16 + b div 16))
     (b64_char (b mod 16 * 4 + c div 64)) (b64_char (c mod 64)) f = Some [char_of a, char_of b, char_of c]"
  unfolding b64_quad_def using b64_bits [OF assms] by (simp add: codec_simps b64_char_not_pad)

lemma b64_quad_two:
  assumes "a < 256" and "b < 256"
  shows "b64_quad (b64_char (a div 4)) (b64_char (a mod 4 * 16 + b div 16))
     (b64_char (b mod 16 * 4)) CHR ''='' True = Some [char_of a, char_of b]"
  unfolding b64_quad_def using b64_bits [OF assms, of 0] by (simp add: codec_simps b64_char_not_pad)

lemma b64_quad_one:
  assumes "a < 256"
  shows "b64_quad (b64_char (a div 4)) (b64_char (a mod 4 * 16)) CHR ''='' CHR ''='' True = Some [char_of a]"
  unfolding b64_quad_def using b64_bits [OF assms, of 0 0] by (simp add: codec_simps)

lemma b64_round_trip [codec_simps]: "b64decode (b64encode s) = Some s"
  by (induction s rule: b64encode.induct)
     (simp_all add: b64_quad_one b64_quad_two b64_quad_full code_less char_of_code)

lemma b64_alphabet: "ch \<in> set (b64encode s) \<Longrightarrow> ch = CHR ''='' \<or> b64_value ch \<noteq> None"
proof (induction s rule: b64encode.induct)
  case (2 a)
  with b64_bits [OF code_less [of a], of 0 0] show ?case by (auto simp: codec_simps)
next
  case (3 a b)
  with b64_bits [OF code_less [of a] code_less [of b], of 0] show ?case by (auto simp: codec_simps)
next
  case (4 a b c r)
  with b64_bits [OF code_less [of a] code_less [of b] code_less [of c]] show ?case
    by (auto simp: codec_simps)
qed simp

section \<open>Conversions of configuration values\<close>

text \<open>\<open>v.get(key)\<close>; \<open>None\<close> is \<open>AttributeError\<close> on a value that is not a mapping.\<close>

definition py_get :: "pyval \<Rightarrow> str \<Rightarrow> pyval option" where
  "py_get v key = (case v of PDict d \<Rightarrow> Some (dget d key PNone) | _ \<Rightarrow> None)"

definition or_empty :: "pyval \<Rightarrow> pyval" where
  "or_empty v = (if py_truthy v then v else PDict [])"

text \<open>\<open>int(v)\<close>; \<open>None\<close> is \<open>TypeError\<close> or \<open>ValueError\<close>.\<close>

definition py_to_int :: "pyval \<Rightarrow> int option" where
  "py_to_int v = (case v of PInt i \<Rightarrow> Some i | PBool b \<Rightarrow> Some (if b then 1 else 0)
     | PFloat r \<Rightarrow> Some (if r < 0 then - \<lfloor>- r\<rfloor> else \<lfloor>r\<rfloor>) | PStr s \<Rightarrow> py_int s | _ \<Rightarrow> None)"

text \<open>Iteration over a value; \<open>None\<close> is \<open>TypeError\<close>. A string gives its characters, a mapping its keys.\<close>

definition py_iter :: "pyval \<Rightarrow> pyval list option" where
  "py_iter v = (case v of PList xs \<Rightarrow> Some xs | PStr s \<Rightarrow> Some (map (\<lambda>c. PStr [c]) s)
     | PDict d \<Rightarrow> Some (map (\<lambda>kv. PStr (fst kv)) d) | _ \<Rightarrow> None)"

text \<open>The value of a number (booleans are numbers); \<open>None\<close> is the \<open>TypeError\<close> of a comparison.\<close>

definition py_num :: "pyval \<Rightarrow> rat option" where
  "py_num v = (case v of PInt i \<Rightarrow> Some (of_int i) | PFloat r \<Rightarrow> Some r | PBool b \<Rightarrow> Some (if b then 1 else 0) | _ \<Rightarrow> None)"

text \<open>\<open>str(v)\<close>, with the rendering of values that are not strings as an argument.\<close>

definition to_str :: "(pyval \<Rightarrow> str) \<Rightarrow> pyval \<Rightarrow> str" where
  "to_str py_str v = (case v of PStr s \<Rightarrow> s | _ \<Rightarrow> py_str v)"

text \<open>The order of strings: by code points, a prefix first.\<close>

fun str_less :: "str \<Rightarrow> str \<Rightarrow> bool" where
  "str_less s [] = False"
| "str_less [] (d # ds) = True"
| "str_less (c # cs) (d # ds) = (code c < code d \<or> (c = d \<and> str_less cs ds))"

lemma str_less_irrefl [simp]: "\<not> str_less s s"
  by (induction s) (auto simp: code_def)

lemma str_less_trans: "str_less a b \<Longrightarrow> str_less b c \<Longrightarrow> str_less a c"
proof (induction a b arbitrary: c rule: str_less.induct)
  case (2 d ds)
  then show ?case by (cases c) auto
next
  case (3 x xs y ys)
  then show ?case by (cases c) auto
qed simp

lemma str_less_linear: "str_less a b \<or> a = b \<or> str_less b a"
proof (induction a b rule: str_less.induct)
  case (1 s)
  then show ?case by (cases s) auto
next
  case (3 c cs d ds)
  then show ?case using linorder_neqE_nat [of "code c" "code d"] by (auto simp: code_def)
qed simp

end
