(* ===== verification/Endpoint_Trust.thy ===== *)
theory Endpoint_Trust
  imports Py_Codec
begin

text \<open>
  Model of \<open>utils/endpoint_trust.py\<close>: the destination allowlist of the generation clients, on top
  of the part of \<open>urllib.parse.urlparse\<close> that determines \<open>.hostname\<close>. Whether the text between
  the brackets of an authority is a valid IP literal is decided by the \<open>ipaddress\<close> module: a
  function argument \<open>ip_ok\<close>.
\<close>

section \<open>The host of a URL\<close>

fun cut :: "char \<Rightarrow> str \<Rightarrow> str \<times> str option" where
  "cut c [] = ([], None)"
| "cut c (x # xs) = (if x = c then ([], Some xs) else case cut c xs of (a, b) \<Rightarrow> (x # a, b))"

text \<open>\<open>s.partition(c)\<close> is \<open>cut\<close>; the last component of \<open>s.rpartition(c)\<close> is what follows the last \<open>c\<close>.\<close>

definition after_last :: "char \<Rightarrow> str \<Rightarrow> str" where
  "after_last c s = rev (takeWhile (\<lambda>x. x \<noteq> c) (rev s))"

definition is_alpha :: "char \<Rightarrow> bool" where
  "is_alpha c = (65 \<le> code c \<and> code c \<le> 90 \<or> 97 \<le> code c \<and> code c \<le> 122)"

definition scheme_char :: "char \<Rightarrow> bool" where
  "scheme_char c = (is_alpha c \<or> is_digit c \<or> c \<in> set ''+-.'')"

definition url_clean :: "str \<Rightarrow> str" where
  "url_clean url = filter (\<lambda>c. c \<notin> {CHR 0x09, CHR 0x0A, CHR 0x0D}) (dropWhile (\<lambda>c. code c \<le> 32) url)"

definition strip_scheme :: "str \<Rightarrow> str" where
  "strip_scheme url = (case cut (CHR '':'') url of
     (sch, Some rest) \<Rightarrow> if sch \<noteq> [] \<and> is_alpha (hd sch) \<and> list_all scheme_char sch then rest else url
   | _ \<Rightarrow> url)"

definition netloc_of :: "str \<Rightarrow> str" where
  "netloc_of url = (let rest = strip_scheme (url_clean url) in
     if take 2 rest = ''//'' then takeWhile (\<lambda>c. c \<notin> {CHR ''/'', CHR ''?'', CHR ''#''}) (drop 2 rest) else [])"

definition brackets_ok :: "(str \<Rightarrow> bool) \<Rightarrow> str \<Rightarrow> bool" where
  "brackets_ok ip_ok netloc =
     (if (CHR ''['' \<in> set netloc) \<noteq> (CHR '']'' \<in> set netloc) then False
      else if CHR ''['' \<in> set netloc then ip_ok netloc else True)"

definition host_part :: "str \<Rightarrow> str" where
  "host_part netloc = (let hostinfo = after_last (CHR ''@'') netloc in
     case cut (CHR ''['') hostinfo of
       (_, Some bracketed) \<Rightarrow> fst (cut (CHR '']'') bracketed)
     | (_, None) \<Rightarrow> fst (cut (CHR '':'') hostinfo))"

text \<open>\<open>urlparse(url).hostname\<close>; \<open>None\<close> is \<open>ValueError\<close>, an absent host is the empty string.\<close>

definition url_hostname :: "(str \<Rightarrow> bool) \<Rightarrow> str \<Rightarrow> str option" where
  "url_hostname ip_ok url = (let netloc = netloc_of url in
     if \<not> brackets_ok ip_ok netloc then None
     else let host = host_part netloc in
       (case cut (CHR ''%'') host of
          (h, None) \<Rightarrow> Some (py_lower h)
        | (h, Some zone) \<Rightarrow> Some (py_lower h @ CHR ''%'' # zone)))"

section \<open>Destinations\<close>

datatype trust_error =
    MalformedUrl
  | NotLoopback str
  | NotTrustedLocal
  | NotConfirmed
  | UnknownProvider str
  | NotAllowlisted str str

definition LOOPBACK :: "str list" where
  "LOOPBACK = [''127.0.0.1'', ''::1'', ''localhost'']"

definition ONLINE_HOSTS :: "(str \<times> str list) list" where
  "ONLINE_HOSTS = [(''grok'', [''api.x.ai'']), (''claude'', [''api.anthropic.com''])]"

definition DEFAULT_URLS :: "(str \<times> str) list" where
  "DEFAULT_URLS = [(''grok'', ''https://api.x.ai/v1''), (''claude'', ''https://api.anthropic.com/v1'')]"

definition hostname_of :: "(str \<Rightarrow> bool) \<Rightarrow> str \<Rightarrow> trust_error + str" where
  "hostname_of ip_ok url =
     (case url_hostname ip_ok url of None \<Rightarrow> Inl MalformedUrl
      | Some h \<Rightarrow> let host = py_lower h in
          Inr (if host \<noteq> [] \<and> hd host = CHR ''['' \<and> last host = CHR '']'' then butlast (tl host) else host))"

definition assert_loopback :: "(str \<Rightarrow> bool) \<Rightarrow> str \<Rightarrow> trust_error + unit" where
  "assert_loopback ip_ok base_url =
     (case hostname_of ip_ok base_url of Inl e \<Rightarrow> Inl e
      | Inr host \<Rightarrow> if host \<in> set LOOPBACK then Inr () else Inl (NotLoopback host))"

definition assert_local_destination :: "(str \<Rightarrow> bool) \<Rightarrow> str \<Rightarrow> pyval \<Rightarrow> trust_error + unit" where
  "assert_local_destination ip_ok base_url trusted_hosts =
     (case hostname_of ip_ok base_url of Inl e \<Rightarrow> Inl e
      | Inr host \<Rightarrow>
          if host \<in> set LOOPBACK then Inr ()
          else if (case trusted_hosts of PList items \<Rightarrow> host \<noteq> [] \<and>
                     list_ex (\<lambda>item. case item of PStr s \<Rightarrow> host = py_lower s | _ \<Rightarrow> False) items
                   | _ \<Rightarrow> False) then Inr ()
          else Inl NotTrustedLocal)"

definition assert_online_destination :: "(str \<Rightarrow> bool) \<Rightarrow> str \<Rightarrow> str \<Rightarrow> bool option \<Rightarrow> trust_error + unit" where
  "assert_online_destination ip_ok provider base_url confirmed =
     (if confirmed = Some False then Inl NotConfirmed
      else case map_of ONLINE_HOSTS provider of
        None \<Rightarrow> Inl (UnknownProvider provider)
      | Some allowed \<Rightarrow>
          if allowed = [] then Inl (UnknownProvider provider)
          else (case hostname_of ip_ok (if base_url \<noteq> [] then base_url else dget DEFAULT_URLS provider []) of
             Inl e \<Rightarrow> Inl e
           | Inr host \<Rightarrow> if host \<in> set allowed then Inr () else Inl (NotAllowlisted provider host)))"

section \<open>The authority decides\<close>

lemma cut_no: "c \<notin> set s \<Longrightarrow> cut c s = (s, None)"
  by (induction s) auto

lemma cut_append: "c \<notin> set s \<Longrightarrow> cut c (s @ c # t) = (s, Some t)"
  by (induction s) auto

lemma after_last_append: "c \<notin> set t \<Longrightarrow> after_last c (s @ c # t) = t"
  by (simp add: after_last_def takeWhile_append)

lemma takeWhile_append_stop:
  "list_all P xs \<Longrightarrow> \<not> P y \<Longrightarrow> takeWhile P (xs @ y # ys) = xs"
  by (induction xs) auto

definition user_info_char :: "char \<Rightarrow> bool" where
  "user_info_char c = (32 < code c \<and> c \<notin> set ''/?#[]'')"

definition host_char :: "char \<Rightarrow> bool" where
  "host_char c = (is_digit c \<or> 97 \<le> code c \<and> code c \<le> 122 \<or> c = CHR ''-'' \<or> c = CHR ''.'')"

lemma not_host_char: "\<not> host_char CHR ''@''" "\<not> host_char CHR '':''" "\<not> host_char CHR ''[''" "\<not> host_char CHR ''%''"
  by (simp_all add: host_char_def is_digit_def code_def)

lemma host_char_lower: "host_char c \<Longrightarrow> py_lower_char c = c"
  by (auto simp: host_char_def is_digit_def py_lower_char_def code_def Let_def)

lemma host_char_user: "host_char c \<Longrightarrow> user_info_char c"
  by (auto simp: host_char_def is_digit_def code_def user_info_char_def)

lemma host_free: "list_all host_char host \<Longrightarrow> \<not> host_char c \<Longrightarrow> c \<notin> set host"
  by (auto simp: list_all_iff)

lemma not_user_info: "\<not> user_info_char CHR 0x09" "\<not> user_info_char CHR 0x0A" "\<not> user_info_char CHR 0x0D"
  by (simp_all add: user_info_char_def code_def)

lemma user_info_kept: "user_info_char c \<Longrightarrow> c \<notin> {CHR 0x09, CHR 0x0A, CHR 0x0D}"
  using not_user_info by blast

lemma user_info_clean:
  assumes "list_all user_info_char s"
  shows "filter (\<lambda>c. c \<notin> {CHR 0x09, CHR 0x0A, CHR 0x0D}) s = s"
proof (rule filter_same)
  fix c assume "c \<in> set s"
  with assms have "user_info_char c" by (simp add: list_all_iff)
  then show "c \<notin> {CHR 0x09, CHR 0x0A, CHR 0x0D}" by (rule user_info_kept)
qed

lemma netloc_https:
  assumes "list_all user_info_char auth"
  shows "netloc_of (''https://'' @ auth @ CHR ''/'' # path) = auth"
proof -
  let ?clean = "filter (\<lambda>c. c \<notin> {CHR 0x09, CHR 0x0A, CHR 0x0D})"
  have "url_clean (''https://'' @ auth @ CHR ''/'' # path) = ''https://'' @ auth @ CHR ''/'' # ?clean path"
    using user_info_clean [OF assms] by (simp add: url_clean_def code_def)
  moreover have "strip_scheme (''https://'' @ auth @ CHR ''/'' # ?clean path) = ''//'' @ auth @ CHR ''/'' # ?clean path"
    by (simp add: strip_scheme_def is_alpha_def scheme_char_def code_def)
  moreover have "takeWhile (\<lambda>c. c \<notin> {CHR ''/'', CHR ''?'', CHR ''#''}) (auth @ CHR ''/'' # ?clean path) = auth"
    using assms by (intro takeWhile_append_stop) (auto simp: list_all_iff user_info_char_def)
  ultimately show ?thesis by (simp add: netloc_of_def Let_def)
qed

lemma host_part_user:
  assumes "list_all host_char host"
  shows "host_part (ui @ CHR ''@'' # host) = host"
proof -
  have "after_last (CHR ''@'') (ui @ CHR ''@'' # host) = host"
    using host_free [OF assms not_host_char(1)] by (rule after_last_append)
  moreover have "cut (CHR ''['') host = (host, None)" "cut (CHR '':'') host = (host, None)"
    using host_free [OF assms] not_host_char by (blast intro: cut_no)+
  ultimately show ?thesis by (simp add: host_part_def Let_def)
qed

lemma hostname_user:
  assumes "list_all user_info_char ui" and "list_all host_char host" and "host \<noteq> []"
  shows "hostname_of ip_ok (''https://'' @ ui @ CHR ''@'' # host @ CHR ''/'' # path) = Inr host"
proof -
  let ?auth = "ui @ CHR ''@'' # host"
  have auth: "list_all user_info_char ?auth"
    using assms host_char_user by (auto simp: list_all_iff) (simp add: user_info_char_def code_def)
  have "netloc_of (''https://'' @ ?auth @ CHR ''/'' # path) = ?auth" by (rule netloc_https [OF auth])
  then have n: "netloc_of (''https://'' @ ui @ CHR ''@'' # host @ CHR ''/'' # path) = ?auth" by simp
  have "CHR ''['' \<notin> set ?auth" "CHR '']'' \<notin> set ?auth"
    using auth by (auto simp: list_all_iff user_info_char_def)
  then have "brackets_ok ip_ok ?auth" by (simp add: brackets_ok_def)
  moreover have "cut (CHR ''%'') host = (host, None)"
    using host_free [OF assms(2) not_host_char(4)] by (rule cut_no)
  moreover have "map py_lower_char host = host"
    using assms(2) host_char_lower by (auto simp: list_all_iff intro!: map_idI)
  moreover have "hd host \<noteq> CHR ''[''" using assms(2,3) not_host_char(3) by (cases host) auto
  ultimately show ?thesis unfolding hostname_of_def url_hostname_def Let_def n
    using host_part_user [OF assms(2), of ui] by (simp add: py_lower_def)
qed

text \<open>
  C29: the allowlist is applied to the real destination. For a URL with credentials in front of
  the host, the check passes exactly when the request is not explicitly unconfirmed and the host
  after the \<open>@\<close> is allowlisted for the provider: text in the user part that looks like an
  allowlisted host never decides.
\<close>

theorem online_destination_is_the_host:
  assumes "list_all user_info_char ui" and "list_all host_char host" and "host \<noteq> []"
  shows "assert_online_destination ip_ok provider (''https://'' @ ui @ CHR ''@'' # host @ CHR ''/'' # path) confirmed = Inr () \<longleftrightarrow>
    confirmed \<noteq> Some False \<and> (\<exists>allowed. map_of ONLINE_HOSTS provider = Some allowed \<and> host \<in> set allowed)"
  using hostname_user [OF assms, of ip_ok path]
  by (auto simp: assert_online_destination_def split: option.splits)

theorem online_destination_is_the_host_witness:
  "assert_online_destination (\<lambda>_. False) ''grok'' (''https://'' @ ''api.x.ai'' @ CHR ''@'' # ''evil.example'' @ CHR ''/'' # ''v1'') (Some True) \<noteq> Inr ()"
proof -
  have "list_all user_info_char ''api.x.ai''" "list_all host_char ''evil.example''" by code_simp+
  then show ?thesis
    using online_destination_is_the_host [of "''api.x.ai''" "''evil.example''" "\<lambda>_. False" "''grok''" "''v1''" "Some True"]
    by (simp add: ONLINE_HOSTS_def)
qed

lemma online_ok_host:
  assumes "assert_online_destination ip_ok provider base_url confirmed = Inr ()"
  shows "confirmed \<noteq> Some False \<and> (\<exists>host allowed.
    hostname_of ip_ok (if base_url \<noteq> [] then base_url else dget DEFAULT_URLS provider []) = Inr host \<and>
    map_of ONLINE_HOSTS provider = Some allowed \<and> host \<in> set allowed)"
  using assms by (auto simp: assert_online_destination_def split: option.splits sum.splits if_splits)

end
