(* ===== verification/Http.thy ===== *)
theory Http
  imports Effect Endpoint_Trust "HOL-Library.Sublist"
begin

text \<open>
  Requests of the HTTP gateway and what \<open>gate.py\<close> and \<open>gate_auth.py\<close> decide from one alone: the
  same-origin rule (in both modules), the allow-list of hosts, forwarding headers and loopback
  peers. Request parsing belongs to Starlette, so a request is the record of the attributes the
  code reads: headers with lower-case names, the peer address, host, port and scheme of the
  request's own URL, the bearer credentials and the session cookie. The predicate \<open>is_loopback\<close>
  of \<open>ipaddress.ip_address\<close> is the argument \<open>loopback_ip\<close>, with \<open>None\<close> for \<open>ValueError\<close>.
\<close>

section \<open>Requests and handlers\<close>

record http_request =
  rq_headers :: "(str, str) dict"
  rq_client :: "str option"
  rq_hostname :: "str option"
  rq_port :: "int option"
  rq_scheme :: str
  rq_path :: str
  rq_credentials :: "str option"
  rq_session_cookie :: "str option"

text \<open>An exception of a handler: an \<open>HTTPException\<close> with status and detail, or one that nothing catches.\<close>

datatype http_error = HTTPException int pyval | Unhandled

type_synonym ('s, 'a) handler = "(http_error, 's, 'a) action"

section \<open>Origins\<close>

text \<open>\<open>urlparse(url).scheme\<close>, and \<open>.port\<close>: \<open>None\<close> is \<open>ValueError\<close>, \<open>Some None\<close> an absent port.\<close>

definition url_scheme :: "str \<Rightarrow> str" where
  "url_scheme url = (case cut (CHR '':'') (url_clean url) of
     (sch, Some _) \<Rightarrow> if sch \<noteq> [] \<and> is_alpha (hd sch) \<and> list_all scheme_char sch then py_lower sch else []
   | _ \<Rightarrow> [])"

definition port_part :: "str \<Rightarrow> str" where
  "port_part netloc = (let hostinfo = after_last (CHR ''@'') netloc;
     after_host = (case cut (CHR ''['') hostinfo of
         (_, Some bracketed) \<Rightarrow> oget (snd (cut (CHR '']'') bracketed)) []
       | (_, None) \<Rightarrow> hostinfo) in
     oget (snd (cut (CHR '':'') after_host)) [])"

definition url_port :: "str \<Rightarrow> int option option" where
  "url_port url = (let p = port_part (netloc_of url) in
     if p = [] then Some None
     else if \<not> list_all is_digit p then None
     else case py_int p of None \<Rightarrow> None | Some n \<Rightarrow> if n \<le> 65535 then Some (Some n) else None)"

definition py_endswith :: "str \<Rightarrow> str \<Rightarrow> bool" where
  "py_endswith s t = suffix t s"

definition host_matches_allow_list :: "str list \<Rightarrow> str \<Rightarrow> bool" where
  "host_matches_allow_list allowed hostname =
     list_ex (\<lambda>pattern. pattern \<noteq> ''*'' \<and>
       (hostname = pattern \<or> py_startswith pattern ''*.'' \<and> py_endswith hostname (tl pattern))) allowed"

text \<open>The conjunction both modules build from the parsed \<open>Origin\<close> and the request's own URL.\<close>

definition same_origin :: "str list \<Rightarrow> http_request \<Rightarrow> str \<Rightarrow> int option \<Rightarrow> str \<Rightarrow> bool" where
  "same_origin allowed rq hostname port scheme =
     (hostname \<noteq> [] \<and> Some hostname = rq_hostname rq \<and> host_matches_allow_list allowed hostname \<and>
      port = rq_port rq \<and> scheme = rq_scheme rq)"

text \<open>The part of \<open>_looks_cross_site\<close> after the fetch metadata: the \<open>Origin\<close> header.\<close>

definition origin_differs :: "(str \<Rightarrow> bool) \<Rightarrow> str list \<Rightarrow> http_request \<Rightarrow> bool" where
  "origin_differs ip_ok allowed rq =
     (case map_of (rq_headers rq) ''origin'' of None \<Rightarrow> False
      | Some origin \<Rightarrow>
     (case url_hostname ip_ok origin of None \<Rightarrow> True
      | Some hostname \<Rightarrow>
     (case url_port origin of None \<Rightarrow> True
      | Some port \<Rightarrow> \<not> same_origin allowed rq hostname port (url_scheme origin))))"

definition looks_cross_site :: "(str \<Rightarrow> bool) \<Rightarrow> str list \<Rightarrow> http_request \<Rightarrow> bool" where
  "looks_cross_site ip_ok allowed rq =
     (case map_of (rq_headers rq) ''sec-fetch-site'' of
        Some site \<Rightarrow> site \<notin> {''same-origin'', ''none''} \<or> origin_differs ip_ok allowed rq
      | None \<Rightarrow> origin_differs ip_ok allowed rq)"

text \<open>The body of an error of \<open>gate_auth.py\<close>.\<close>

definition auth_detail :: "str \<Rightarrow> str \<Rightarrow> (str \<times> pyval) list \<Rightarrow> pyval" where
  "auth_detail ecode message details =
     PDict [(''code'', PStr ecode), (''message'', PStr message), (''details'', PDict details)]"

definition cross_site_blocked :: http_error where
  "cross_site_blocked = HTTPException 403 (auth_detail ''CROSS_SITE_BLOCKED'' ''Cross-site request rejected'' [])"

definition cross_origin_blocked :: "(str \<times> pyval) list \<Rightarrow> http_error" where
  "cross_origin_blocked details = HTTPException 403 (auth_detail ''CROSS_ORIGIN_BLOCKED'' ''Cross-origin request rejected'' details)"

definition enforce_same_origin :: "(str \<Rightarrow> bool) \<Rightarrow> str list \<Rightarrow> http_request \<Rightarrow> http_error + unit" where
  "enforce_same_origin ip_ok allowed rq =
     ebind (ensure (case map_of (rq_headers rq) ''sec-fetch-site'' of Some site \<Rightarrow> site \<in> {''same-origin'', ''none''} | None \<Rightarrow> True)
              cross_site_blocked) (\<lambda>_.
     case map_of (rq_headers rq) ''origin'' of None \<Rightarrow> Inr ()
     | Some origin \<Rightarrow>
         ebind (of_option (cross_origin_blocked []) (url_hostname ip_ok origin)) (\<lambda>hostname.
         ebind (of_option (cross_origin_blocked []) (url_port origin)) (\<lambda>port.
           ensure (same_origin allowed rq hostname port (url_scheme origin))
             (cross_origin_blocked [(''origin_host'', if hostname = [] then PNone else PStr hostname)]))))"

section \<open>Peers\<close>

definition FORWARDING_HEADERS :: "str list" where
  "FORWARDING_HEADERS = [''x-forwarded-for'', ''x-forwarded-host'', ''x-forwarded-proto'', ''x-real-ip'', ''forwarded'']"

definition looks_proxied :: "http_request \<Rightarrow> bool" where
  "looks_proxied rq = list_ex (\<lambda>header. map_of (rq_headers rq) header \<noteq> None) FORWARDING_HEADERS"

definition is_loopback_host :: "(str \<Rightarrow> bool option) \<Rightarrow> str \<Rightarrow> bool" where
  "is_loopback_host loopback_ip host =
     (if host = [] then False else if host = ''localhost'' then True
      else case loopback_ip host of Some b \<Rightarrow> b | None \<Rightarrow> False)"

definition is_loopback_peer :: "(str \<Rightarrow> bool option) \<Rightarrow> http_request \<Rightarrow> bool" where
  "is_loopback_peer loopback_ip rq =
     (case rq_client rq of None \<Rightarrow> False | Some host \<Rightarrow> is_loopback_host loopback_ip host)"

text \<open>\<open>_client_is_loopback\<close> of \<open>gate_auth.py\<close>.\<close>

definition client_is_loopback :: "(str \<Rightarrow> bool option) \<Rightarrow> http_request \<Rightarrow> bool" where
  "client_is_loopback loopback_ip rq =
     (let host = oget (rq_client rq) [] in
      host \<in> set LOOPBACK \<or> (case loopback_ip host of Some b \<Rightarrow> b | None \<Rightarrow> False))"

section \<open>What the same-origin rule accepts\<close>

lemma origin_differs_iff:
  "\<not> origin_differs ip_ok allowed rq \<longleftrightarrow>
     (\<forall>origin. map_of (rq_headers rq) ''origin'' = Some origin \<longrightarrow>
        (\<exists>hostname port. url_hostname ip_ok origin = Some hostname \<and> url_port origin = Some port \<and>
           same_origin allowed rq hostname port (url_scheme origin)))"
  by (auto simp: origin_differs_def split: option.splits)

lemma enforce_same_origin_iff: "enforce_same_origin ip_ok allowed rq = Inr () \<longleftrightarrow> \<not> looks_cross_site ip_ok allowed rq"
  by (auto simp: enforce_same_origin_def looks_cross_site_def origin_differs_def ebind_Inr_iff split: option.splits)

lemma allow_list_star: "host_matches_allow_list (filter (\<lambda>p. p \<noteq> ''*'') allowed) h = host_matches_allow_list allowed h"
  by (auto simp: host_matches_allow_list_def list_ex_iff)

text \<open>
  The \<open>Origin\<close> a browser sends: scheme and host, and the port unless it is the default of the
  scheme. Parsing it gives the three parts back.
\<close>

definition origin_text :: "str \<Rightarrow> str \<Rightarrow> nat option \<Rightarrow> str" where
  "origin_text scheme host port = scheme @ ''://'' @ host @ (case port of None \<Rightarrow> [] | Some p \<Rightarrow> CHR '':'' # nat_str p)"

definition browser_origin :: "str \<Rightarrow> str \<Rightarrow> nat option \<Rightarrow> bool" where
  "browser_origin scheme host port \<longleftrightarrow>
     (scheme = ''http'' \<or> scheme = ''https'') \<and> host \<noteq> [] \<and> list_all host_char host \<and> (\<forall>p. port = Some p \<longrightarrow> p \<le> 65535)"

lemma nat_str_host: "list_all host_char (nat_str n)"
  using nat_str_digits by (auto simp: list_all_iff host_char_def)

lemma authority_user: "list_all host_char host \<Longrightarrow>
    list_all user_info_char (host @ (case port of None \<Rightarrow> [] | Some p \<Rightarrow> CHR '':'' # nat_str p))"
  using nat_str_host host_char_user by (auto simp: list_all_iff user_info_char_def code_def split: option.split)

lemma origin_split:
  assumes "scheme = ''http'' \<or> scheme = ''https''" and "list_all user_info_char auth"
  shows "netloc_of (scheme @ ''://'' @ auth) = auth" "url_scheme (scheme @ ''://'' @ auth) = scheme"
proof -
  have clean: "url_clean (scheme @ ''://'' @ auth) = scheme @ ''://'' @ auth"
    using assms(1) user_info_clean [OF assms(2)] by (auto simp: url_clean_def code_def)
  have "strip_scheme (scheme @ ''://'' @ auth) = ''//'' @ auth"
    using assms(1) by (auto simp: strip_scheme_def is_alpha_def scheme_char_def code_def)
  moreover have "takeWhile (\<lambda>c. c \<notin> {CHR ''/'', CHR ''?'', CHR ''#''}) auth = auth"
    using assms(2) by (intro takeWhile_eq_all_conv [THEN iffD2]) (auto simp: list_all_iff user_info_char_def)
  ultimately show "netloc_of (scheme @ ''://'' @ auth) = auth" using clean by (simp add: netloc_of_def Let_def)
  show "url_scheme (scheme @ ''://'' @ auth) = scheme"
    using assms(1) clean by (auto simp: url_scheme_def is_alpha_def scheme_char_def py_lower_def py_lower_char_def code_def)
qed

lemma authority_parts:
  fixes port :: "nat option"
  assumes "list_all host_char host"
  defines "auth \<equiv> host @ (case port of None \<Rightarrow> [] | Some p \<Rightarrow> CHR '':'' # nat_str p)"
  shows "host_part auth = host" "port_part auth = (case port of None \<Rightarrow> [] | Some p \<Rightarrow> nat_str p)"
proof -
  have no: "CHR ''@'' \<notin> set auth" "CHR ''['' \<notin> set auth"
    using host_free [OF assms(1)] host_free [OF nat_str_host] not_host_char by (auto simp: auth_def split: option.split)
  have "takeWhile (\<lambda>x. x \<noteq> CHR ''@'') (rev auth) = rev auth"
    using no(1) by (auto simp: takeWhile_eq_all_conv)
  then have "after_last (CHR ''@'') auth = auth" by (simp only: after_last_def rev_rev_ident)
  moreover have "cut (CHR ''['') auth = (auth, None)" by (rule cut_no [OF no(2)])
  moreover have "cut (CHR '':'') auth = (host, map_option nat_str port)"
    using host_free [OF assms(1) not_host_char(2)] by (auto simp: auth_def cut_no cut_append split: option.split)
  ultimately show "host_part auth = host" "port_part auth = (case port of None \<Rightarrow> [] | Some p \<Rightarrow> nat_str p)"
    by (auto simp: host_part_def port_part_def oget_def split: option.split)
qed

lemma short_port: "p \<le> 65535 \<Longrightarrow> length (nat_str p) \<le> 4300"
proof -
  have step: "n < 10 ^ Suc k \<Longrightarrow> length (nat_str n) \<le> Suc k" for n k
  proof (induction k arbitrary: n)
    case 0
    then show ?case by (simp add: nat_str.simps [of n])
  next
    case (Suc k)
    then have "n div 10 < 10 ^ Suc k" by (simp add: less_mult_imp_div_less)
    from Suc.IH [OF this] show ?case by (simp add: nat_str.simps [of n])
  qed
  assume "p \<le> 65535"
  then show ?thesis using step [of p 4] by simp
qed

lemma origin_round_trip:
  assumes "browser_origin scheme host port"
  shows "url_scheme (origin_text scheme host port) = scheme \<and> url_hostname ip_ok (origin_text scheme host port) = Some host \<and>
    url_port (origin_text scheme host port) = Some (map_option int port)"
proof -
  let ?auth = "host @ (case port of None \<Rightarrow> [] | Some p \<Rightarrow> CHR '':'' # nat_str p)"
  have host: "list_all host_char host" and sch: "scheme = ''http'' \<or> scheme = ''https''"
    using assms by (auto simp: browser_origin_def)
  have user: "list_all user_info_char ?auth" by (rule authority_user [OF host])
  note split = origin_split [OF sch user] and parts = authority_parts [OF host, of port]
  have "CHR ''['' \<notin> set ?auth" "CHR '']'' \<notin> set ?auth" using user by (auto simp: list_all_iff user_info_char_def)
  then have "brackets_ok ip_ok ?auth" by (simp only: brackets_ok_def) simp
  moreover have "cut (CHR ''%'') host = (host, None)" using host_free [OF host not_host_char(4)] by (rule cut_no)
  moreover have "map py_lower_char host = host" using host host_char_lower by (auto simp: list_all_iff intro!: map_idI)
  ultimately have "url_hostname ip_ok (scheme @ ''://'' @ ?auth) = Some host"
    by (simp only: url_hostname_def Let_def split parts) (simp add: py_lower_def)
  moreover have "url_port (scheme @ ''://'' @ ?auth) = Some (map_option int port)"
    using assms py_int_nat_str short_port nat_str_digits nat_str_not_Nil
    by (simp only: url_port_def Let_def split parts) (auto simp: browser_origin_def list_all_iff split: option.split)
  ultimately show ?thesis using split by (simp add: origin_text_def)
qed

text \<open>
  C9: the same-origin rule. For a request with the \<open>Origin\<close> header of a browser and no fetch
  metadata against it, the check passes exactly when scheme, host and port of the page are those
  of the request itself and the host is allow-listed by an entry other than the bare wildcard: a
  page on the same host at another port, or on another allow-listed machine, is cross-site.
  \<open>gate_auth.py\<close> and \<open>gate.py\<close> decide alike on every request whatsoever.
\<close>

theorem same_origin_exact:
  assumes "browser_origin scheme host port"
    and "map_of (rq_headers rq) ''origin'' = Some (origin_text scheme host port)"
    and "map_of (rq_headers rq) ''sec-fetch-site'' \<in> {None, Some ''same-origin'', Some ''none''}"
  shows "(\<not> looks_cross_site ip_ok allowed rq \<longleftrightarrow>
      scheme = rq_scheme rq \<and> rq_hostname rq = Some host \<and> map_option int port = rq_port rq \<and>
      (\<exists>pattern \<in> set allowed. pattern \<noteq> ''*'' \<and>
        (host = pattern \<or> (\<exists>dom. pattern = ''*.'' @ dom \<and> suffix (CHR ''.'' # dom) host)))) \<and>
    (enforce_same_origin ip_ok allowed rq' = Inr () \<longleftrightarrow> \<not> looks_cross_site ip_ok allowed rq')"
proof -
  have wild: "py_startswith pattern ''*.'' \<and> py_endswith host (tl pattern) \<longleftrightarrow>
      (\<exists>dom. pattern = ''*.'' @ dom \<and> suffix (CHR ''.'' # dom) host)" for pattern
    by (cases pattern rule: remdups_adj.cases) (auto simp: py_startswith_def py_endswith_def)
  have "\<not> looks_cross_site ip_ok allowed rq \<longleftrightarrow> same_origin allowed rq host (map_option int port) scheme"
    using assms(2,3) origin_round_trip [OF assms(1), of ip_ok] by (auto simp: looks_cross_site_def origin_differs_def)
  also have "\<dots> \<longleftrightarrow> scheme = rq_scheme rq \<and> rq_hostname rq = Some host \<and> map_option int port = rq_port rq \<and>
      host_matches_allow_list allowed host"
    using assms(1) by (auto simp: same_origin_def browser_origin_def)
  finally show ?thesis
    by (simp add: enforce_same_origin_iff host_matches_allow_list_def list_ex_iff wild)
qed

definition demo_request :: "(str, str) dict \<Rightarrow> http_request" where
  "demo_request headers = \<lparr>rq_headers = headers, rq_client = Some ''127.0.0.1'', rq_hostname = Some ''localhost'',
     rq_port = Some 8787, rq_scheme = ''http'', rq_path = ''/query'', rq_credentials = None, rq_session_cookie = None\<rparr>"

theorem same_origin_exact_witness:
  "\<not> looks_cross_site (\<lambda>_. False) [''localhost''] (demo_request [(''origin'', origin_text ''http'' ''localhost'' (Some 8787))]) \<and>
   looks_cross_site (\<lambda>_. False) [''localhost''] (demo_request [(''origin'', origin_text ''http'' ''localhost'' (Some 9999))])"
proof -
  have "browser_origin ''http'' ''localhost'' (Some p)" if "p \<le> 65535" for p
    using that by (simp add: browser_origin_def host_char_def is_digit_def code_def)
  note ok = this
  show ?thesis
    using same_origin_exact [OF ok [of 8787], of "demo_request [(''origin'', origin_text ''http'' ''localhost'' (Some 8787))]"
        "\<lambda>_. False" "[''localhost'']"]
      same_origin_exact [OF ok [of 9999], of "demo_request [(''origin'', origin_text ''http'' ''localhost'' (Some 9999))]"
        "\<lambda>_. False" "[''localhost'']"]
    by (simp add: demo_request_def)
qed

end
