(* ===== verification/Telegram_Config.thy ===== *)
theory Telegram_Config
  imports Http
begin

text \<open>
  The Telegram channel's configuration, \<open>telegram/config.py\<close>: the validators, the
  \<open>__post_init__\<close> of the four dataclasses, the loader of the \<open>telegram:\<close> block and the token
  look-ups. The loader works on the YAML value of the configuration file
  (\<open>None\<close> when \<open>_get_config\<close> raises). A \<open>TelegramConfigError\<close> carries the field its message
  names. Environment variables are a function, \<open>expand\<close> is \<open>expanduser\<close> after \<open>expandvars\<close>
  (it depends on the account and the environment), and \<open>ip_ok\<close> is the check of a bracketed host
  inside \<open>urlparse\<close>.
\<close>

section \<open>Data\<close>

datatype tg_config_error = TelegramConfigError str

record tg_config =
  tc_enabled :: bool
  tc_mode :: str
  tc_bot_token_env :: str
  tc_allowed_chat_ids :: "str list"
  tc_api_base :: str
  tc_poll_timeout_sec :: int
  tc_max_message_chars :: int
  tc_allow_hybrid_confirm :: bool
  tc_hybrid_confirm_ttl_sec :: int
  tc_max_ops :: int
  tc_window_seconds :: int
  tc_base_url :: str
  tc_api_key_env :: str
  tc_timeout_sec :: int
  tc_media_enabled :: bool
  tc_fsconnect_root :: str
  tc_max_download_bytes :: int
  tc_runtime_bot_token :: str

definition MAX_MESSAGE_CHARS :: int where "MAX_MESSAGE_CHARS = 4096"
definition MAX_HYBRID_CONFIRM_TTL_SEC :: int where "MAX_HYBRID_CONFIRM_TTL_SEC = 300"
definition MAX_TELEGRAM_CLOUD_DOWNLOAD_BYTES :: int where
  "MAX_TELEGRAM_CLOUD_DOWNLOAD_BYTES = 20 * 1024 * 1024"
definition MIN_CHAT_ID :: int where "MIN_CHAT_ID = - (2 ^ 63)"
definition MAX_CHAT_ID :: int where "MAX_CHAT_ID = 2 ^ 63 - 1"
definition VALID_MODES :: "str list" where "VALID_MODES = [''notify'', ''chat'']"

definition SHELL_METACHARS :: "char list" where
  "SHELL_METACHARS = '';|&$`<>(){}!*?'' @ [CHR 0x22, CHR 0x27, CHR 0x5C, CHR 0x0A, CHR 0x0D, CHR 0x09, CHR 0x20]"

section \<open>Validators\<close>

definition validate_bool :: "pyval \<Rightarrow> str \<Rightarrow> tg_config_error + bool" where
  "validate_bool v field_name =
     (case v of PBool b \<Rightarrow> Inr b | _ \<Rightarrow> Inl (TelegramConfigError field_name))"

definition validate_positive_int :: "pyval \<Rightarrow> str \<Rightarrow> bool \<Rightarrow> tg_config_error + int" where
  "validate_positive_int v field_name allow_zero =
     (case v of
        PInt i \<Rightarrow> if allow_zero then (if i < 0 then Inl (TelegramConfigError field_name) else Inr i)
                  else (if i \<le> 0 then Inl (TelegramConfigError field_name) else Inr i)
      | _ \<Rightarrow> Inl (TelegramConfigError field_name))"

text \<open>A pattern ending in \<open>$\<close> also matches before one final line feed.\<close>

definition re_dollar :: "(str \<Rightarrow> bool) \<Rightarrow> str \<Rightarrow> bool" where
  "re_dollar whole s = (whole s \<or> s \<noteq> [] \<and> last s = CHR 0x0A \<and> whole (butlast s))"

definition env_name_chars :: "str \<Rightarrow> bool" where
  "env_name_chars s = (case s of [] \<Rightarrow> False
     | c # cs \<Rightarrow> 65 \<le> code c \<and> code c \<le> 90 \<and>
         list_all (\<lambda>d. 65 \<le> code d \<and> code d \<le> 90 \<or> is_digit d \<or> d = CHR ''_'') cs)"

definition validate_env_name :: "pyval \<Rightarrow> str \<Rightarrow> tg_config_error + str" where
  "validate_env_name v field_name =
     (case v of PStr s \<Rightarrow> if re_dollar env_name_chars s then Inr s else Inl (TelegramConfigError field_name)
      | _ \<Rightarrow> Inl (TelegramConfigError field_name))"

text \<open>The rest of \<open>urlparse\<close>: credentials, query and fragment.\<close>

definition url_credentials :: "str \<Rightarrow> bool" where
  "url_credentials url = (CHR ''@'' \<in> set (netloc_of url))"

definition url_rest :: "str \<Rightarrow> str" where
  "url_rest url = (let rest = strip_scheme (url_clean url) in
     if take 2 rest = ''//'' then drop (2 + length (netloc_of url)) rest else rest)"

definition url_fragment :: "str \<Rightarrow> str" where
  "url_fragment url = oget (snd (cut (CHR ''#'') (url_rest url))) []"

definition url_query :: "str \<Rightarrow> str" where
  "url_query url = oget (snd (cut (CHR ''?'') (fst (cut (CHR ''#'') (url_rest url))))) []"

definition rstrip_slash :: "str \<Rightarrow> str" where
  "rstrip_slash s = rev (dropWhile (\<lambda>c. c = CHR ''/'') (rev s))"

definition validate_loopback_url :: "(str \<Rightarrow> bool) \<Rightarrow> pyval \<Rightarrow> str \<Rightarrow> tg_config_error + str" where
  "validate_loopback_url ip_ok v field_name = (let err = TelegramConfigError field_name in
     case v of PStr url \<Rightarrow>
       ebind (ensure (py_strip url \<noteq> []) err) (\<lambda>_.
       ebind (ensure (\<not> list_ex (\<lambda>c. c \<in> set SHELL_METACHARS) url) err) (\<lambda>_.
       ebind (of_option err (url_hostname ip_ok url)) (\<lambda>hostname.
       ebind (of_option err (url_port url)) (\<lambda>_.
       ebind (ensure (url_scheme url \<in> {''http'', ''https''}) err) (\<lambda>_.
       ebind (ensure (\<not> url_credentials url) err) (\<lambda>_.
       ebind (ensure (url_query url = [] \<and> url_fragment url = []) err) (\<lambda>_.
       ebind (ensure (py_lower hostname \<in> set LOOPBACK) err) (\<lambda>_.
       Inr (rstrip_slash url)))))))))
     | _ \<Rightarrow> Inl err)"

section \<open>Chat ids\<close>

text \<open>\<open>^-?\d{1,20}$\<close> on a stripped string.\<close>

definition chat_id_re :: "str \<Rightarrow> bool" where
  "chat_id_re s = (let ds = (if s \<noteq> [] \<and> hd s = CHR ''-'' then tl s else s) in
     1 \<le> length ds \<and> length ds \<le> 20 \<and> list_all is_digit ds)"

text \<open>The validation \<open>config\<close> and \<open>state\<close> share: an integer or string, its decimal form, the 64-bit range.\<close>

definition canonical_id :: "pyval \<Rightarrow> str option" where
  "canonical_id v =
     (case (case v of PInt i \<Rightarrow> Some (int_str i) | PStr s \<Rightarrow> Some s | _ \<Rightarrow> None) of
        None \<Rightarrow> None
      | Some text \<Rightarrow> let s = py_strip text in
          if \<not> chat_id_re s then None
          else case py_int s of None \<Rightarrow> None
            | Some i \<Rightarrow> if MIN_CHAT_ID \<le> i \<and> i \<le> MAX_CHAT_ID then Some (int_str i) else None)"

fun normalize_ids :: "pyval list \<Rightarrow> tg_config_error + str list" where
  "normalize_ids [] = Inr []"
| "normalize_ids (raw # rest) =
     ebind (of_option (TelegramConfigError ''telegram.allowed_chat_ids'') (canonical_id raw)) (\<lambda>cid.
     ebind (normalize_ids rest) (\<lambda>cids. Inr (cid # cids)))"

fun dedupe :: "str list \<Rightarrow> str list \<Rightarrow> str list" where
  "dedupe seen [] = []"
| "dedupe seen (c # cs) = (if c \<in> set seen then dedupe seen cs else c # dedupe (c # seen) cs)"

definition validate_allowed_chat_ids :: "pyval \<Rightarrow> tg_config_error + str list" where
  "validate_allowed_chat_ids v =
     (case v of PList raws \<Rightarrow> ebind (normalize_ids raws) (\<lambda>ids. Inr (dedupe [] ids))
      | _ \<Rightarrow> Inl (TelegramConfigError ''telegram.allowed_chat_ids''))"

section \<open>Sections of the block\<close>

definition unknown_keys :: "(str \<times> pyval) list \<Rightarrow> str list \<Rightarrow> str list" where
  "unknown_keys d known = filter (\<lambda>k. k \<notin> set known) (map fst d)"

definition rate_limit_config :: "pyval \<Rightarrow> tg_config_error + int \<times> int" where
  "rate_limit_config v = (case v of PDict d \<Rightarrow>
       ebind (validate_positive_int (dget d ''max_ops'' (PInt 20)) ''telegram.rate_limit.max_ops'' False) (\<lambda>m.
       ebind (validate_positive_int (dget d ''window_seconds'' (PInt 60)) ''telegram.rate_limit.window_seconds'' False) (\<lambda>w.
       ebind (ensure (unknown_keys d [''max_ops'', ''window_seconds''] = []) (TelegramConfigError ''telegram.rate_limit'')) (\<lambda>_.
       Inr (m, w))))
     | _ \<Rightarrow> Inl (TelegramConfigError ''telegram.rate_limit''))"

definition query_config :: "(str \<Rightarrow> bool) \<Rightarrow> pyval \<Rightarrow> tg_config_error + str \<times> str \<times> int" where
  "query_config ip_ok v = (case v of PDict d \<Rightarrow>
       ebind (validate_loopback_url ip_ok (dget d ''base_url'' (PStr ''http://127.0.0.1:8787'')) ''telegram.query.base_url'') (\<lambda>url.
       ebind (validate_env_name (dget d ''api_key_env'' (PStr ''CYCLAW_API_KEY'')) ''telegram.query.api_key_env'') (\<lambda>env.
       ebind (validate_positive_int (dget d ''timeout_sec'' (PInt 790)) ''telegram.query.timeout_sec'' False) (\<lambda>t.
       ebind (ensure (unknown_keys d [''base_url'', ''api_key_env'', ''timeout_sec''] = []) (TelegramConfigError ''telegram.query'')) (\<lambda>_.
       Inr (url, env, t)))))
     | _ \<Rightarrow> Inl (TelegramConfigError ''telegram.query''))"

definition media_config :: "(str \<Rightarrow> str) \<Rightarrow> pyval \<Rightarrow> tg_config_error + bool \<times> str \<times> int" where
  "media_config expand v = (case v of PDict d \<Rightarrow>
       ebind (validate_bool (dget d ''enabled'' (PBool False)) ''telegram.media.enabled'') (\<lambda>on.
       ebind (validate_positive_int (dget d ''max_download_bytes'' (PInt (10 * 1024 * 1024))) ''telegram.media.max_download_bytes'' False) (\<lambda>cap.
       ebind (ensure (cap \<le> MAX_TELEGRAM_CLOUD_DOWNLOAD_BYTES) (TelegramConfigError ''telegram.media.max_download_bytes'')) (\<lambda>_.
       let err = TelegramConfigError ''telegram.media.fsconnect_root'' in
       ebind (case dget d ''fsconnect_root'' (PStr []) of PStr s \<Rightarrow> Inr s | _ \<Rightarrow> Inl err) (\<lambda>raw_root.
       ebind (ensure (CHR 0x00 \<notin> set raw_root) err) (\<lambda>_.
       let base = py_strip raw_root in
       ebind (ensure (on \<longrightarrow> base \<noteq> []) err) (\<lambda>_.
       ebind (ensure (on \<longrightarrow> py_startswith (expand base) ''/'') err) (\<lambda>_.
       ebind (ensure (unknown_keys d [''enabled'', ''fsconnect_root'', ''max_download_bytes''] = []) (TelegramConfigError ''telegram.media'')) (\<lambda>_.
       Inr (on, base, cap)))))))))
     | _ \<Rightarrow> Inl (TelegramConfigError ''telegram.media''))"

definition validate_api_base :: "(str \<Rightarrow> bool) \<Rightarrow> pyval \<Rightarrow> tg_config_error + str" where
  "validate_api_base ip_ok v = (let err = TelegramConfigError ''telegram.api_base'' in
     case v of PStr url \<Rightarrow>
       ebind (ensure (\<not> list_ex (\<lambda>c. c \<in> set SHELL_METACHARS) url) err) (\<lambda>_.
       ebind (of_option err (url_hostname ip_ok url)) (\<lambda>hostname.
       ebind (of_option err (url_port url)) (\<lambda>_.
       ebind (ensure (url_scheme url = ''https'' \<and> hostname \<noteq> []) err) (\<lambda>_.
       ebind (ensure (\<not> url_credentials url) err) (\<lambda>_.
       ebind (ensure (url_query url = [] \<and> url_fragment url = []) err) (\<lambda>_.
       Inr (rstrip_slash url)))))))
     | _ \<Rightarrow> Inl err)"

definition KNOWN_KEYS :: "str list" where
  "KNOWN_KEYS = [''enabled'', ''mode'', ''bot_token_env'', ''allowed_chat_ids'', ''api_base'',
     ''poll_timeout_sec'', ''max_message_chars'', ''allow_hybrid_confirm'', ''hybrid_confirm_ttl_sec'',
     ''rate_limit'', ''query'', ''media'']"

text \<open>\<open>TelegramConfig.__post_init__\<close>, on the values the loader passes.\<close>

definition post_init :: "(str \<Rightarrow> bool) \<Rightarrow> (str \<times> pyval) list \<Rightarrow> int \<times> int \<Rightarrow> str \<times> str \<times> int
    \<Rightarrow> bool \<times> str \<times> int \<Rightarrow> tg_config_error + tg_config" where
  "post_init ip_ok d rl q media =
     ebind (validate_bool (dget d ''enabled'' (PBool False)) ''telegram.enabled'') (\<lambda>on.
     ebind (validate_bool (dget d ''allow_hybrid_confirm'' (PBool False)) ''telegram.allow_hybrid_confirm'') (\<lambda>hybrid.
     ebind (validate_positive_int (dget d ''hybrid_confirm_ttl_sec'' (PInt 120)) ''telegram.hybrid_confirm_ttl_sec'' False) (\<lambda>ttl.
     ebind (ensure (ttl \<le> MAX_HYBRID_CONFIRM_TTL_SEC) (TelegramConfigError ''telegram.hybrid_confirm_ttl_sec'')) (\<lambda>_.
     ebind (case dget d ''mode'' (PStr ''notify'') of
              PStr m \<Rightarrow> if m \<in> set VALID_MODES then Inr m else Inl (TelegramConfigError ''telegram.mode'')
            | _ \<Rightarrow> Inl (TelegramConfigError ''telegram.mode'')) (\<lambda>mode.
     ebind (validate_env_name (dget d ''bot_token_env'' (PStr ''TELEGRAM_BOT_TOKEN'')) ''telegram.bot_token_env'') (\<lambda>tok.
     ebind (validate_positive_int (dget d ''poll_timeout_sec'' (PInt 30)) ''telegram.poll_timeout_sec'' False) (\<lambda>poll.
     ebind (validate_positive_int (dget d ''max_message_chars'' (PInt 4000)) ''telegram.max_message_chars'' False) (\<lambda>chars.
     ebind (ensure (chars \<le> MAX_MESSAGE_CHARS) (TelegramConfigError ''telegram.max_message_chars'')) (\<lambda>_.
     ebind (validate_api_base ip_ok (dget d ''api_base'' (PStr ''https://api.telegram.org''))) (\<lambda>api.
     ebind (validate_allowed_chat_ids (dget d ''allowed_chat_ids'' (PList []))) (\<lambda>ids.
     ebind (ensure (on \<longrightarrow> ids \<noteq> []) (TelegramConfigError ''telegram.enabled'')) (\<lambda>_.
     Inr \<lparr>tc_enabled = on, tc_mode = mode, tc_bot_token_env = tok, tc_allowed_chat_ids = ids, tc_api_base = api,
       tc_poll_timeout_sec = poll, tc_max_message_chars = chars, tc_allow_hybrid_confirm = hybrid,
       tc_hybrid_confirm_ttl_sec = ttl, tc_max_ops = fst rl, tc_window_seconds = snd rl, tc_base_url = fst q,
       tc_api_key_env = fst (snd q), tc_timeout_sec = snd (snd q), tc_media_enabled = fst media,
       tc_fsconnect_root = fst (snd media), tc_max_download_bytes = snd (snd media),
       tc_runtime_bot_token = []\<rparr>))))))))))))"

definition config_of_block :: "(str \<Rightarrow> bool) \<Rightarrow> (str \<Rightarrow> str) \<Rightarrow> (str \<times> pyval) list \<Rightarrow> tg_config_error + tg_config" where
  "config_of_block ip_ok expand d =
     ebind (ensure (unknown_keys d KNOWN_KEYS = []) (TelegramConfigError ''telegram'')) (\<lambda>_.
     ebind (rate_limit_config (dget d ''rate_limit'' (PDict []))) (\<lambda>rl.
     ebind (query_config ip_ok (dget d ''query'' (PDict []))) (\<lambda>q.
     ebind (media_config expand (dget d ''media'' (PDict []))) (\<lambda>media.
     post_init ip_ok d rl q media))))"

definition load_telegram_config :: "(str \<Rightarrow> bool) \<Rightarrow> (str \<Rightarrow> str) \<Rightarrow> pyval option \<Rightarrow> tg_config_error + tg_config" where
  "load_telegram_config ip_ok expand raw =
     (case raw of None \<Rightarrow> Inl (TelegramConfigError ''config'')
      | Some v \<Rightarrow> (case v of PDict d \<Rightarrow> (case map_of d ''telegram'' of
            None \<Rightarrow> config_of_block ip_ok expand []
          | Some (PDict block) \<Rightarrow> config_of_block ip_ok expand block
          | Some _ \<Rightarrow> Inl (TelegramConfigError ''telegram''))
        | _ \<Rightarrow> Inl (TelegramConfigError ''config root'')))"

section \<open>Methods\<close>

text \<open>\<open>str(chat_id)\<close>: \<open>py_str\<close> renders the values that are neither integers nor strings.\<close>

definition str_of :: "(pyval \<Rightarrow> str) \<Rightarrow> pyval \<Rightarrow> str" where
  "str_of py_str v = (case v of PStr s \<Rightarrow> s | PInt i \<Rightarrow> int_str i | _ \<Rightarrow> py_str v)"

definition is_chat_allowed :: "(pyval \<Rightarrow> str) \<Rightarrow> tg_config \<Rightarrow> pyval \<Rightarrow> bool" where
  "is_chat_allowed py_str cfg chat_id = (py_strip (str_of py_str chat_id) \<in> set (tc_allowed_chat_ids cfg))"

definition set_runtime_bot_token :: "str \<Rightarrow> tg_config \<Rightarrow> tg_config_error + tg_config" where
  "set_runtime_bot_token token cfg = (let normalized = py_strip token in
     if normalized = [] then Inl (TelegramConfigError ''Prompted bot token'')
     else Inr (cfg\<lparr>tc_runtime_bot_token := normalized\<rparr>))"

definition resolve_bot_token :: "(str \<Rightarrow> str) \<Rightarrow> tg_config \<Rightarrow> tg_config_error + str" where
  "resolve_bot_token environ cfg =
     (let token = (if tc_runtime_bot_token cfg \<noteq> [] then tc_runtime_bot_token cfg
                   else py_strip (environ (tc_bot_token_env cfg)))
      in if token = [] then Inl (TelegramConfigError (tc_bot_token_env cfg)) else Inr token)"

definition resolve_api_key :: "(str \<Rightarrow> str) \<Rightarrow> tg_config \<Rightarrow> str option" where
  "resolve_api_key environ cfg = (let key = py_strip (environ (tc_api_key_env cfg)) in
     if key = [] then None else Some key)"

section \<open>Facts\<close>

lemma nat_str_length: "n < 10 ^ k \<Longrightarrow> 0 < k \<Longrightarrow> length (nat_str n) \<le> k"
proof (induction n arbitrary: k rule: nat_str.induct)
  case (1 n)
  show ?case
  proof (cases "n < 10")
    case True
    with 1 show ?thesis by (subst nat_str.simps) simp
  next
    case False
    then have k: "1 < k" using 1(2) by (cases "k = 1") (use 1(3) in auto)
    have "n div 10 < 10 ^ (k - 1)"
      using 1(2) k by (metis One_nat_def Suc_pred less_mult_imp_div_less less_trans mult.commute power_Suc zero_less_one)
    with 1(1) False k have "length (nat_str (n div 10)) \<le> k - 1" by simp
    with False k show ?thesis by (subst nat_str.simps) simp
  qed
qed

lemma py_int_int_str:
  assumes "\<bar>i\<bar> < 10 ^ 20"
  shows "py_int (int_str i) = Some i"
proof -
  have "nat \<bar>i\<bar> < 10 ^ 20" using assms by (simp add: nat_less_iff)
  from nat_str_length [OF this] have short: "length (nat_str (nat \<bar>i\<bar>)) \<le> 4300" by simp
  show ?thesis
  proof (cases "i < 0")
    case False
    with short py_int_nat_str [OF short] show ?thesis by (simp add: int_str_def)
  next
    case True
    let ?n = "nat_str (nat (- i))"
    have "\<forall>c \<in> set (CHR ''-'' # ?n). \<not> py_isspace c"
      using nat_str_digits digit_not_space by (auto simp: py_isspace_def code_def)
    then have "py_strip (CHR ''-'' # ?n) = CHR ''-'' # ?n" by (rule py_strip_id)
    moreover have "length (filter is_digit ?n) \<le> 4300"
      using short True le_trans [OF length_filter_le [of is_digit ?n]] by simp
    ultimately show ?thesis
      using True parse_nat_str [of False "nat (- i)"] sign_not_digit by (simp add: int_str_def py_int_def)
  qed
qed

lemma canonical_id_range:
  "canonical_id v = Some c \<Longrightarrow> \<exists>i. MIN_CHAT_ID \<le> i \<and> i \<le> MAX_CHAT_ID \<and> c = int_str i"
  by (auto simp: canonical_id_def Let_def split: option.splits if_splits)

lemma normalize_ids_canonical:
  "normalize_ids raws = Inr ids \<Longrightarrow> c \<in> set ids \<Longrightarrow> \<exists>v \<in> set raws. canonical_id v = Some c"
  by (induction raws arbitrary: ids) (auto simp: ebind_Inr_iff)

lemma dedupe_set: "set (dedupe seen cs) = set cs - set seen"
  by (induction seen cs rule: dedupe.induct) auto

lemma dedupe_distinct: "distinct (dedupe seen cs)"
  by (induction seen cs rule: dedupe.induct) (auto simp: dedupe_set)

lemma validate_allowed_chat_ids_sound:
  assumes "validate_allowed_chat_ids v = Inr ids"
  shows "distinct ids \<and> (\<forall>c \<in> set ids. \<exists>i. MIN_CHAT_ID \<le> i \<and> i \<le> MAX_CHAT_ID \<and> c = int_str i)"
proof -
  from assms obtain raws norm where "normalize_ids raws = Inr norm" and "ids = dedupe [] norm"
    by (auto simp: validate_allowed_chat_ids_def ebind_Inr_iff split: pyval.splits)
  then show ?thesis
    using normalize_ids_canonical canonical_id_range by (simp add: dedupe_distinct dedupe_set) blast
qed

lemma validate_positive_int_sound:
  "validate_positive_int v n False = Inr i \<Longrightarrow> v = PInt i \<and> 0 < i"
  by (auto simp: validate_positive_int_def split: pyval.splits if_splits)

text \<open>
  Appending a path to a base URL that was stripped of its final slashes keeps the host: the
  destination of \<open>f"{base_url}/query"\<close> is the host the validator saw.
\<close>

lemma cut_inside:
  "c \<in> set xs \<Longrightarrow> cut c (xs @ ys) = (fst (cut c xs), map_option (\<lambda>r. r @ ys) (snd (cut c xs)))"
  by (induction xs) (auto split: prod.splits)

lemma cut_Some: "c \<in> set xs \<longleftrightarrow> snd (cut c xs) \<noteq> None"
  by (induction xs) (auto split: prod.splits)

lemma cut_Some_suffix: "snd (cut c xs) = Some r \<Longrightarrow> \<exists>p. xs = p @ c # r"
proof (induction xs)
  case (Cons x xs)
  show ?case
  proof (cases "x = c")
    case True
    with Cons.prems show ?thesis by (intro exI [of _ "[]"]) simp
  next
    case False
    with Cons obtain p where "xs = p @ c # r" by (auto split: prod.splits)
    with False show ?thesis by (intro exI [of _ "x # p"]) simp
  qed
qed simp

lemma rstrip_slash_split: "\<exists>n. url = rstrip_slash url @ replicate n (CHR ''/'')"
proof -
  let ?P = "\<lambda>c. c = CHR ''/''"
  have "takeWhile ?P (rev url) = replicate (length (takeWhile ?P (rev url))) (CHR ''/'')"
    by (rule replicate_eqI) (auto dest: set_takeWhileD)
  moreover have "url = rev (dropWhile ?P (rev url)) @ rev (takeWhile ?P (rev url))"
    by (metis rev_append rev_rev_ident takeWhile_dropWhile_id)
  ultimately show ?thesis unfolding rstrip_slash_def by (metis rev_replicate)
qed

lemma rstrip_slash_last: "rstrip_slash url \<noteq> [] \<Longrightarrow> last (rstrip_slash url) \<noteq> CHR ''/''"
  using hd_dropWhile [of "\<lambda>c. c = CHR ''/''" "rev url"] by (simp add: rstrip_slash_def last_rev)

lemma url_clean_append:
  assumes "\<forall>c \<in> set b. c \<notin> {CHR 0x09, CHR 0x0A, CHR 0x0D}" and "\<exists>c \<in> set b. \<not> code c \<le> 32"
  shows "url_clean (b @ ys) =
    dropWhile (\<lambda>c. code c \<le> 32) b @ filter (\<lambda>c. c \<notin> {CHR 0x09, CHR 0x0A, CHR 0x0D}) ys"
proof -
  obtain x where "x \<in> set b" "\<not> code x \<le> 32" using assms(2) by auto
  then have "dropWhile (\<lambda>c. code c \<le> 32) (b @ ys) = dropWhile (\<lambda>c. code c \<le> 32) b @ ys"
    by (rule dropWhile_append1)
  moreover have "filter (\<lambda>c. c \<notin> {CHR 0x09, CHR 0x0A, CHR 0x0D}) (dropWhile (\<lambda>c. code c \<le> 32) b)
      = dropWhile (\<lambda>c. code c \<le> 32) b"
    using assms(1) by (intro filter_same) (auto dest: set_dropWhileD)
  ultimately show ?thesis by (simp add: url_clean_def)
qed

lemma strip_scheme_append:
  assumes "snd (cut (CHR '':'') b) = Some r"
    and "fst (cut (CHR '':'') b) \<noteq> [] \<and> is_alpha (hd (fst (cut (CHR '':'') b))) \<and>
      list_all scheme_char (fst (cut (CHR '':'') b))"
  shows "strip_scheme (b @ ys) = r @ ys"
  using assms cut_inside [of "CHR '':''" b ys] cut_Some [of "CHR '':''" b]
  by (simp add: strip_scheme_def split: prod.splits)

lemma base_not_blank:
  assumes "url_scheme (b @ replicate n (CHR ''/'')) \<noteq> []"
  shows "\<exists>c \<in> set b. \<not> code c \<le> 32"
proof (rule ccontr)
  let ?sl = "replicate n (CHR ''/'')"
  assume "\<not> ?thesis"
  then have "dropWhile (\<lambda>c. code c \<le> 32) (b @ ?sl) = dropWhile (\<lambda>c. code c \<le> 32) ?sl"
    by (intro dropWhile_append2) auto
  also have "\<dots> = ?sl" by (cases n) (simp_all add: code_def)
  finally have "url_clean (b @ ?sl) = ?sl" by (auto simp: url_clean_def intro: filter_same)
  moreover have "snd (cut (CHR '':'') ?sl) = None" using cut_Some [of "CHR '':''" ?sl] by auto
  ultimately have "url_scheme (b @ ?sl) = []" by (auto simp: url_scheme_def split: prod.splits option.splits)
  with assms show False by simp
qed

lemma base_after_scheme:
  assumes no_tab: "\<forall>c \<in> set b. c \<notin> {CHR 0x09, CHR 0x0A, CHR 0x0D}"
    and sch: "url_scheme (b @ replicate n (CHR ''/'')) \<noteq> []"
  shows "\<exists>r q. b = q @ CHR '':'' # r \<and>
    (\<forall>ys. strip_scheme (url_clean (b @ ys)) = r @ filter (\<lambda>c. c \<notin> {CHR 0x09, CHR 0x0A, CHR 0x0D}) ys)"
proof -
  let ?sl = "replicate n (CHR ''/'')" and ?d = "dropWhile (\<lambda>c. code c \<le> 32) b"
  note clean = url_clean_append [OF no_tab base_not_blank [OF sch]]
  have "filter (\<lambda>c. c \<notin> {CHR 0x09, CHR 0x0A, CHR 0x0D}) ?sl = ?sl" by (auto intro: filter_same)
  with clean [of ?sl] have cu: "url_clean (b @ ?sl) = ?d @ ?sl" by metis
  from sch have "CHR '':'' \<in> set (?d @ ?sl)"
    using cut_Some [of "CHR '':''" "?d @ ?sl"] by (auto simp: url_scheme_def cu split: prod.splits option.splits)
  then have colon: "CHR '':'' \<in> set ?d" by auto
  then obtain r where r: "snd (cut (CHR '':'') ?d) = Some r" using cut_Some by fastforce
  have "fst (cut (CHR '':'') ?d) \<noteq> [] \<and> is_alpha (hd (fst (cut (CHR '':'') ?d))) \<and>
      list_all scheme_char (fst (cut (CHR '':'') ?d))"
    using sch cut_inside [OF colon, of ?sl] r
    by (auto simp: url_scheme_def cu split: prod.splits option.splits if_splits)
  note strip = strip_scheme_append [OF r this]
  obtain q where "?d = q @ CHR '':'' # r" using cut_Some_suffix [OF r] by blast
  then have "b = (takeWhile (\<lambda>c. code c \<le> 32) b @ q) @ CHR '':'' # r"
    by (metis append.assoc takeWhile_dropWhile_id)
  moreover have "strip_scheme (url_clean (b @ ys)) = r @ filter (\<lambda>c. c \<notin> {CHR 0x09, CHR 0x0A, CHR 0x0D}) ys" for ys
    by (simp only: clean strip)
  ultimately show ?thesis by blast
qed

lemma takeWhile_stop:
  assumes "\<not> P x"
  shows "takeWhile P (xs @ replicate n x) = takeWhile P (xs @ x # ys)"
proof (cases "\<exists>z \<in> set xs. \<not> P z")
  case True
  then obtain z where z: "z \<in> set xs" "\<not> P z" by blast
  show ?thesis using takeWhile_append1 [of z xs P] z by simp
next
  case False
  with assms show ?thesis by (cases n) (simp_all add: takeWhile_append2)
qed

lemma netloc_keeps_host:
  assumes no_tab: "\<forall>c \<in> set url. c \<notin> {CHR 0x09, CHR 0x0A, CHR 0x0D}"
    and net: "netloc_of url \<noteq> []" and sch: "url_scheme url \<noteq> []"
  shows "netloc_of (rstrip_slash url @ CHR ''/'' # p) = netloc_of url"
proof -
  let ?b = "rstrip_slash url" and ?P = "\<lambda>c. c \<notin> {CHR ''/'', CHR ''?'', CHR ''#''}"
  obtain n where url: "url = ?b @ replicate n (CHR ''/'')" (is "_ = _ @ ?sl") using rstrip_slash_split by blast
  have "\<forall>c \<in> set ?b. c \<notin> {CHR 0x09, CHR 0x0A, CHR 0x0D}" using no_tab url by (metis Un_iff set_append)
  then obtain r q where b: "?b = q @ CHR '':'' # r" and strip: "\<And>ys. strip_scheme (url_clean (?b @ ys)) =
      r @ filter (\<lambda>c. c \<notin> {CHR 0x09, CHR 0x0A, CHR 0x0D}) ys"
    using base_after_scheme [of ?b n] sch url by metis
  have last: "r \<noteq> [] \<Longrightarrow> last r \<noteq> CHR ''/''" using b rstrip_slash_last [of url] by auto
  have "filter (\<lambda>c. c \<notin> {CHR 0x09, CHR 0x0A, CHR 0x0D}) ?sl = ?sl" by (auto intro: filter_same)
  with strip [of ?sl] url have su: "strip_scheme (url_clean url) = r @ ?sl" by metis
  have net': "take 2 (r @ ?sl) = ''//''" "takeWhile ?P (drop 2 (r @ ?sl)) \<noteq> []"
    using net by (auto simp: netloc_of_def su Let_def split: if_splits)
  have "2 \<le> length r"
  proof (cases r rule: remdups_adj.cases)
    case 1
    with net'(2) show ?thesis by (cases "n - 2") simp_all
  next
    case (2 x)
    with net'(1) last show ?thesis by (simp add: numeral_2_eq_2)
  qed simp
  then show ?thesis
    using net'(1) takeWhile_stop [of ?P "CHR ''/''" "drop 2 r" n] by (simp add: netloc_of_def su strip Let_def)
qed

lemma url_hostname_path:
  assumes "validate_loopback_url ip_ok v n = Inr base"
  shows "\<exists>host. url_hostname ip_ok (base @ CHR ''/'' # p) = Some host \<and> py_lower host \<in> set LOOPBACK"
proof -
  from assms obtain url host where v: "v = PStr url" "base = rstrip_slash url"
    and meta: "\<not> list_ex (\<lambda>c. c \<in> set SHELL_METACHARS) url"
    and host: "url_hostname ip_ok url = Some host" "py_lower host \<in> set LOOPBACK"
    and sch: "url_scheme url \<in> {''http'', ''https''}"
    by (auto simp: validate_loopback_url_def Let_def ebind_Inr_iff split: pyval.splits)
  have "\<forall>c \<in> set url. c \<notin> {CHR 0x09, CHR 0x0A, CHR 0x0D}"
    using meta by (auto simp: list_ex_iff SHELL_METACHARS_def)
  moreover have "netloc_of url \<noteq> []"
  proof
    assume "netloc_of url = []"
    with host(1) have "host = []"
      by (simp add: url_hostname_def brackets_ok_def host_part_def after_last_def py_lower_def split: if_splits)
    with host(2) show False by (simp add: LOOPBACK_def py_lower_def)
  qed
  moreover have "url_scheme url \<noteq> []" using sch by auto
  ultimately have "netloc_of (base @ CHR ''/'' # p) = netloc_of url"
    unfolding v(2) by (rule netloc_keeps_host)
  with host show ?thesis by (simp add: url_hostname_def)
qed

lemma post_init_sound:
  assumes "post_init ip_ok d rl q media = Inr cfg"
  shows "(tc_enabled cfg \<longrightarrow> tc_allowed_chat_ids cfg \<noteq> []) \<and> distinct (tc_allowed_chat_ids cfg) \<and>
    (\<forall>c \<in> set (tc_allowed_chat_ids cfg). \<exists>i. MIN_CHAT_ID \<le> i \<and> i \<le> MAX_CHAT_ID \<and> c = int_str i) \<and>
    0 < tc_max_message_chars cfg \<and> tc_max_message_chars cfg \<le> MAX_MESSAGE_CHARS \<and>
    0 < tc_hybrid_confirm_ttl_sec cfg \<and> tc_hybrid_confirm_ttl_sec cfg \<le> MAX_HYBRID_CONFIRM_TTL_SEC \<and>
    tc_max_ops cfg = fst rl \<and> tc_window_seconds cfg = snd rl \<and> tc_base_url cfg = fst q \<and>
    tc_max_download_bytes cfg = snd (snd media)"
  using assms validate_positive_int_sound validate_allowed_chat_ids_sound
  unfolding post_init_def ebind_Inr_iff ensure_Inr_iff by fastforce

lemmas config_limits = MAX_TELEGRAM_CLOUD_DOWNLOAD_BYTES_def MAX_MESSAGE_CHARS_def
  MAX_HYBRID_CONFIRM_TTL_SEC_def LOOPBACK_def MIN_CHAT_ID_def MAX_CHAT_ID_def

text \<open>A minimal block: one chat, given twice.\<close>

definition demo_config :: "tg_config" where
  "demo_config = \<lparr>tc_enabled = True, tc_mode = ''notify'', tc_bot_token_env = ''TELEGRAM_BOT_TOKEN'',
     tc_allowed_chat_ids = [''42''], tc_api_base = ''https://api.telegram.org'', tc_poll_timeout_sec = 30,
     tc_max_message_chars = 4000, tc_allow_hybrid_confirm = False, tc_hybrid_confirm_ttl_sec = 120,
     tc_max_ops = 20, tc_window_seconds = 60, tc_base_url = ''http://127.0.0.1:8787'',
     tc_api_key_env = ''CYCLAW_API_KEY'', tc_timeout_sec = 790, tc_media_enabled = False,
     tc_fsconnect_root = [], tc_max_download_bytes = 10485760, tc_runtime_bot_token = []\<rparr>"

definition demo_raw :: pyval where
  "demo_raw = PDict [(''telegram'', PDict [(''enabled'', PBool True), (''allowed_chat_ids'', PList [PInt 42, PStr ''042''])])]"

section \<open>Properties\<close>

text \<open>
  A configuration that loads is fail-closed. An enabled channel has a non-empty allow-list;
  its entries are distinct decimal forms of signed 64-bit integers; the message size, the
  lifetime of a consent and the download cap are within their ceilings; the rate-limit knobs are
  positive; and whatever path is appended to the query base URL, the request goes to a loopback
  host.
\<close>

theorem telegram_config_fail_closed:
  assumes "load_telegram_config ip_ok expand raw = Inr cfg"
  shows "(tc_enabled cfg \<longrightarrow> tc_allowed_chat_ids cfg \<noteq> []) \<and> distinct (tc_allowed_chat_ids cfg) \<and>
    (\<forall>c \<in> set (tc_allowed_chat_ids cfg). \<exists>i. - (2 ^ 63) \<le> i \<and> i \<le> 2 ^ 63 - 1 \<and> c = int_str i) \<and>
    0 < tc_max_message_chars cfg \<and> tc_max_message_chars cfg \<le> 4096 \<and>
    0 < tc_hybrid_confirm_ttl_sec cfg \<and> tc_hybrid_confirm_ttl_sec cfg \<le> 300 \<and>
    0 < tc_max_download_bytes cfg \<and> tc_max_download_bytes cfg \<le> 20 * 1024 * 1024 \<and>
    0 < tc_max_ops cfg \<and> 0 < tc_window_seconds cfg \<and>
    (\<exists>host. url_hostname ip_ok (tc_base_url cfg @ CHR ''/'' # p) = Some host \<and>
       py_lower host \<in> {''127.0.0.1'', ''::1'', ''localhost''})"
proof -
  from assms obtain d where "config_of_block ip_ok expand d = Inr cfg"
    by (auto simp: load_telegram_config_def split: option.splits pyval.splits)
  then obtain rl q media where rl: "rate_limit_config (dget d ''rate_limit'' (PDict [])) = Inr rl"
    and q: "query_config ip_ok (dget d ''query'' (PDict [])) = Inr q"
    and media: "media_config expand (dget d ''media'' (PDict [])) = Inr media"
    and init: "post_init ip_ok d rl q media = Inr cfg"
    by (auto simp: config_of_block_def ebind_Inr_iff)
  have "0 < fst rl \<and> 0 < snd rl"
    using rl by (auto simp: rate_limit_config_def ebind_Inr_iff dest: validate_positive_int_sound split: pyval.splits)
  moreover have "\<exists>v n. validate_loopback_url ip_ok v n = Inr (fst q)"
    using q by (auto simp: query_config_def ebind_Inr_iff split: pyval.splits) (rule exI, rule exI, assumption)
  moreover have "0 < snd (snd media) \<and> snd (snd media) \<le> MAX_TELEGRAM_CLOUD_DOWNLOAD_BYTES"
    using media by (auto simp: media_config_def Let_def ebind_Inr_iff dest: validate_positive_int_sound split: pyval.splits)
  moreover have "\<exists>host. url_hostname ip_ok (fst q @ CHR ''/'' # p) = Some host \<and> py_lower host \<in> set LOOPBACK"
    using calculation(2) url_hostname_path by blast
  ultimately show ?thesis
    using post_init_sound [OF init] by (simp add: config_limits)
qed

theorem telegram_config_fail_closed_witness:
  "load_telegram_config (\<lambda>_. True) (\<lambda>s. s) (Some demo_raw) = Inr demo_config \<and>
   (\<exists>host. url_hostname (\<lambda>_. True) (tc_base_url demo_config @ ''/query'') = Some host \<and>
      py_lower host \<in> {''127.0.0.1'', ''::1'', ''localhost''})"
proof -
  have "load_telegram_config (\<lambda>_. True) (\<lambda>s. s) (Some demo_raw) = Inr demo_config" by code_simp
  from this telegram_config_fail_closed [OF this, of "''query''"] show ?thesis by simp
qed

end
