(* ===== verification/Window_Contract.thy ===== *)
theory Window_Contract
  imports Prelude
begin

text \<open>
  The contract of a sliding-window rate limiter, as its clients use it: an operation that
  admits or refuses one request of a key at a time, and a view of the time stamps the limiter
  holds for each key. Two components provide it: the gateway's per-IP limiter
  (\<open>utils/ratelimit.py\<close>, theory \<open>Ratelimit\<close>) and the Telegram channel's limiter
  (\<open>telegram/ratelimit.py\<close>, theory \<open>Telegram_Limiter\<close>).

  The client's lemma, proved once from the contract: over any sequence of requests served in
  the order of their clock readings, no half-open window of the configured width contains more
  than the configured number of admitted requests of one key.
\<close>

section \<open>Time stamps inside a window\<close>

definition recent :: "seconds \<Rightarrow> seconds \<Rightarrow> seconds list \<Rightarrow> seconds list" where
  "recent w now ts = filter (\<lambda>t. now - t < w) ts"

lemma recent_append [window_simps]: "recent w now (xs @ ys) = recent w now xs @ recent w now ys"
  by (simp add: recent_def)

lemma recent_Nil [window_simps, simp]: "recent w now [] = []"
  by (simp add: recent_def)

lemma recent_now [window_simps]: "0 < w \<Longrightarrow> recent w now [now] = [now]"
  by (simp add: recent_def)

lemma recent_recent [window_simps]:
  "now \<le> now' \<Longrightarrow> recent w now' (recent w now ts) = recent w now' ts"
  by (auto simp: recent_def intro!: filter_cong)

lemma recent_idem [window_simps, simp]: "recent w now (recent w now ts) = recent w now ts"
  by (simp add: recent_def)

lemma recent_eq_later:
  assumes "recent w now xs = recent w now ys" and "now \<le> now'"
  shows "recent w now' xs = recent w now' ys"
  using assms recent_recent by metis

lemma recent_stale: "recent w now ts = [] \<longleftrightarrow> (\<forall>t \<in> set ts. w \<le> now - t)"
  by (auto simp: recent_def filter_empty_conv)

lemma length_recent_le: "length (recent w now ts) \<le> length ts"
  by (simp add: recent_def)

section \<open>Serving a sequence of requests\<close>

fun serve :: "(seconds \<Rightarrow> 'k \<Rightarrow> 's \<Rightarrow> bool \<times> 's) \<Rightarrow> (seconds \<times> 'k) list \<Rightarrow> 's \<Rightarrow> bool list \<times> 's" where
  "serve f [] s = ([], s)"
| "serve f ((t, k) # rs) s =
     (let (b, s') = f t k s; (bs, s'') = serve f rs s' in (b # bs, s''))"

text \<open>The time stamps at which requests of one key were admitted, in the order served.\<close>

fun admitted :: "'k \<Rightarrow> (seconds \<times> 'k) list \<Rightarrow> bool list \<Rightarrow> seconds list" where
  "admitted k ((t, k') # rs) (b # bs) = (if b \<and> k' = k then [t] else []) @ admitted k rs bs"
| "admitted k _ _ = []"

definition in_window :: "seconds \<Rightarrow> seconds \<Rightarrow> seconds list \<Rightarrow> seconds list" where
  "in_window w x ts = filter (\<lambda>t. x - w < t \<and> t \<le> x) ts"

lemma in_window_append: "in_window w x (xs @ ys) = in_window w x xs @ in_window w x ys"
  by (simp add: in_window_def)

lemma serve_Cons [simp]:
  "fst (serve f ((t, k) # rs) s) = fst (f t k s) # fst (serve f rs (snd (f t k s)))"
  "snd (serve f ((t, k) # rs) s) = snd (serve f rs (snd (f t k s)))"
  by (auto simp: Let_def split: prod.splits)

declare serve.simps(2) [simp del]

lemma length_serve: "length (fst (serve f rs s)) = length rs"
  by (induction rs arbitrary: s) auto

section \<open>The contract\<close>

locale sliding_window =
  fixes limit :: "'s \<Rightarrow> nat"
    and width :: "'s \<Rightarrow> seconds"
    and hits :: "'s \<Rightarrow> 'k \<Rightarrow> seconds list"
    and admit :: "seconds \<Rightarrow> 'k \<Rightarrow> 's \<Rightarrow> bool \<times> 's"
    and ok :: "seconds \<Rightarrow> 's \<Rightarrow> bool"
  assumes ok_width: "ok now s \<Longrightarrow> 0 < width s"
    and admit_ok: "ok now s \<Longrightarrow> now \<le> t \<Longrightarrow> ok t (snd (admit t k s))"
    and admit_limit: "limit (snd (admit t k s)) = limit s"
    and admit_width: "width (snd (admit t k s)) = width s"
    and accept_room: "ok now s \<Longrightarrow> now \<le> t \<Longrightarrow> fst (admit t k s) \<Longrightarrow>
          length (recent (width s) t (hits s k)) < limit s"
    and accept_hits: "ok now s \<Longrightarrow> now \<le> t \<Longrightarrow> fst (admit t k s) \<Longrightarrow>
          recent (width s) t (hits (snd (admit t k s)) k) = recent (width s) t (hits s k) @ [t]"
    and refuse_hits: "ok now s \<Longrightarrow> now \<le> t \<Longrightarrow> \<not> fst (admit t k s) \<Longrightarrow>
          recent (width s) t (hits (snd (admit t k s)) k) = recent (width s) t (hits s k)"
    and other_hits: "ok now s \<Longrightarrow> now \<le> t \<Longrightarrow> k' \<noteq> k \<Longrightarrow>
          recent (width s) t (hits (snd (admit t k s)) k') = recent (width s) t (hits s k')"
begin

text \<open>
  \<open>acc\<close> are the admissions so far: the limiter agrees with them on every window that is still
  open, they are in the past, and no window holds more than the limit.
\<close>

definition tracks :: "seconds \<Rightarrow> 's \<Rightarrow> 'k \<Rightarrow> seconds list \<Rightarrow> bool" where
  "tracks now s k acc \<longleftrightarrow>
     recent (width s) now (hits s k) = recent (width s) now acc \<and>
     (\<forall>t \<in> set acc. t \<le> now) \<and>
     (\<forall>x. length (in_window (width s) x acc) \<le> limit s)"

lemma window_after_admit:
  assumes past: "\<forall>t \<in> set acc. t \<le> now"
    and room: "length (recent w now acc) < n"
    and bound: "\<forall>x. length (in_window w x acc) \<le> n"
  shows "length (in_window w x (acc @ [now])) \<le> n"
proof (cases "now \<le> x \<and> x - w < now")
  case True
  have "length (in_window w x acc) \<le> length (recent w now acc)"
    unfolding in_window_def recent_def using True by (intro length_filter_mono) auto
  with room show ?thesis by (simp add: in_window_def)
next
  case False
  then have "in_window w x [now] = []" by (auto simp: in_window_def)
  with bound show ?thesis by (simp add: in_window_append)
qed

lemma tracks_step:
  assumes ok: "ok now s" and le: "now \<le> t" and tr: "tracks now s k acc"
  shows "tracks t (snd (admit t k' s)) k (acc @ (if fst (admit t k' s) \<and> k' = k then [t] else []))"
proof -
  let ?s = "snd (admit t k' s)"
  have now: "recent (width s) t (hits s k) = recent (width s) t acc"
    using tr le recent_eq_later unfolding tracks_def by blast
  have past: "\<forall>u \<in> set acc. u \<le> t" using tr le unfolding tracks_def by force
  have bound: "\<forall>x. length (in_window (width s) x acc) \<le> limit s" using tr unfolding tracks_def by simp
  show ?thesis
  proof (cases "fst (admit t k' s) \<and> k' = k")
    case True
    then have [simp]: "k' = k" and acc: "fst (admit t k s)" by auto
    have room: "length (recent (width s) t acc) < limit s"
      using accept_room [OF ok le acc] now by simp
    have "recent (width s) t (hits ?s k) = recent (width s) t acc @ [t]"
      using accept_hits [OF ok le acc] now by simp
    with acc show ?thesis
      using window_after_admit [OF past room bound] past ok_width [OF ok]
      by (simp add: tracks_def admit_limit admit_width window_simps)
  next
    case False
    then have "recent (width s) t (hits ?s k) = recent (width s) t (hits s k)"
      using refuse_hits [OF ok le] other_hits [OF ok le] by metis
    with False show ?thesis
      using now past bound by (auto simp: tracks_def admit_limit admit_width)
  qed
qed

lemma serve_tracks:
  assumes "ok now s" and "sorted (now # map fst rs)" and "tracks now s k acc"
  shows "\<exists>t. tracks t (snd (serve admit rs s)) k (acc @ admitted k rs (fst (serve admit rs s)))"
  using assms
proof (induction rs arbitrary: now s acc)
  case Nil
  then show ?case by auto
next
  case (Cons r rs)
  obtain t k' where r: "r = (t, k')" by force
  let ?s = "snd (admit t k' s)"
  let ?acc = "acc @ (if fst (admit t k' s) \<and> k' = k then [t] else [])"
  have le: "now \<le> t" and srt: "sorted (t # map fst rs)" using Cons.prems(2) r by auto
  have "ok t ?s" using admit_ok [OF Cons.prems(1) le] .
  moreover have "tracks t ?s k ?acc" using tracks_step [OF Cons.prems(1) le Cons.prems(3)] .
  ultimately obtain u where "tracks u (snd (serve admit rs ?s)) k
      (?acc @ admitted k rs (fst (serve admit rs ?s)))"
    using Cons.IH srt by blast
  then show ?case by (auto simp: r)
qed

lemma serve_limit: "limit (snd (serve admit rs s)) = limit s"
  by (induction rs arbitrary: s) (auto simp: admit_limit)

lemma serve_width: "width (snd (serve admit rs s)) = width s"
  by (induction rs arbitrary: s) (auto simp: admit_width)

theorem served_within_limit:
  assumes "ok now s" and "sorted (now # map fst rs)" and "hits s k = []"
  shows "length (in_window (width s) x (admitted k rs (fst (serve admit rs s)))) \<le> limit s"
proof -
  have "tracks now s k []" using assms(3) by (simp add: tracks_def in_window_def)
  from serve_tracks [OF assms(1,2) this] obtain t where
    "tracks t (snd (serve admit rs s)) k (admitted k rs (fst (serve admit rs s)))" by auto
  then show ?thesis by (simp add: tracks_def serve_limit serve_width)
qed

end

end
