(* ===== verification/Telegram_Limiter.thy ===== *)
theory Telegram_Limiter
  imports Window_Contract
begin

text \<open>
  The Telegram channel's limiter, \<open>telegram/ratelimit.py\<close>: a sliding window of events per key
  plus capacity held by reservations that are charged one slot at a time.

  Every public call samples the monotonic clock inside the lock, so a call is one step and its
  clock reading is an argument. A call returns its result or exception together with the
  mutated limiter; a \<open>RateLimitReservation\<close> is a value of its own, updated by \<open>consume\<close> and
  \<open>close\<close>. Costs are integers (the \<open>bool\<close> and type tests of \<open>_validate_cost\<close> are the typing of
  the model). The module-level registry of limiters (\<open>get_limiter\<close>) is a dictionary from the
  two knobs to a limiter.
\<close>

section \<open>State and operations\<close>

record tg_limiter =
  tg_max_ops :: int
  tg_window :: int
  tg_events :: "(str, seconds list) dict"
  tg_reserved :: "(str, int) dict"

record reservation =
  res_key :: str
  res_remaining :: int

datatype tg_error =
    TgValueError str
  | RefusedCapacity str int int int
  | RefusedRate str int int "seconds option"
  | TgRuntimeError str

definition SlidingWindowLimiter :: "int \<Rightarrow> int \<Rightarrow> tg_error + tg_limiter" where
  "SlidingWindowLimiter max_ops window_seconds =
     (if max_ops \<le> 0 \<or> window_seconds \<le> 0
      then Inl (TgValueError ''max_ops and window_seconds must be > 0'')
      else Inr \<lparr>tg_max_ops = max_ops, tg_window = window_seconds, tg_events = [], tg_reserved = []\<rparr>)"

definition validate_cost :: "int \<Rightarrow> tg_error option" where
  "validate_cost cost = (if cost \<le> 0 then Some (TgValueError ''cost must be a positive integer'') else None)"

fun prune :: "seconds \<Rightarrow> seconds \<Rightarrow> seconds list \<Rightarrow> seconds list" where
  "prune w now [] = []"
| "prune w now (t # q) = (if t \<le> now - w then prune w now q else t # q)"

abbreviation held :: "tg_limiter \<Rightarrow> str \<Rightarrow> int" where
  "held l key \<equiv> dget (tg_reserved l) key 0"

abbreviation queue :: "tg_limiter \<Rightarrow> str \<Rightarrow> seconds list" where
  "queue l key \<equiv> dget (tg_events l) key []"

definition ensure_capacity :: "tg_limiter \<Rightarrow> str \<Rightarrow> seconds list \<Rightarrow> int \<Rightarrow> seconds \<Rightarrow> tg_error option" where
  "ensure_capacity l key q cost now =
     (if tg_max_ops l < cost then Some (RefusedCapacity key cost (tg_max_ops l) (tg_window l))
      else let total = int (length q) + held l key + cost in
        if total \<le> tg_max_ops l then None
        else let needed = total - tg_max_ops l;
                 retry = (if q \<noteq> [] \<and> needed \<le> int (length q)
                   then Some (min (of_int (tg_window l))
                          (max 0 (q ! nat (needed - 1) + of_int (tg_window l) - now)))
                   else None)
             in Some (RefusedRate key (tg_max_ops l) (tg_window l) retry))"

definition check :: "seconds \<Rightarrow> str \<Rightarrow> int \<Rightarrow> tg_limiter \<Rightarrow> (tg_error + unit) \<times> tg_limiter" where
  "check now key cost l =
     (case validate_cost cost of Some e \<Rightarrow> (Inl e, l)
      | None \<Rightarrow>
        let q = prune (of_int (tg_window l)) now (queue l key);
            l' = l\<lparr>tg_events := AList.update key q (tg_events l)\<rparr>
        in case ensure_capacity l' key q cost now of
             Some e \<Rightarrow> (Inl e, l')
           | None \<Rightarrow> (Inr (), l'\<lparr>tg_events := AList.update key (q @ replicate (nat cost) now) (tg_events l')\<rparr>))"

definition reserve_up_to :: "seconds \<Rightarrow> str \<Rightarrow> int \<Rightarrow> int \<Rightarrow> tg_limiter
    \<Rightarrow> (tg_error + (reservation \<times> int)) \<times> tg_limiter" where
  "reserve_up_to now key minimum maximum l =
     (case validate_cost minimum of Some e \<Rightarrow> (Inl e, l)
      | None \<Rightarrow> (case validate_cost maximum of Some e \<Rightarrow> (Inl e, l)
      | None \<Rightarrow>
        if maximum < minimum then (Inl (TgValueError ''minimum reservation cannot exceed maximum''), l)
        else let q = prune (of_int (tg_window l)) now (queue l key);
                 l' = l\<lparr>tg_events := AList.update key q (tg_events l)\<rparr>
             in case ensure_capacity l' key q minimum now of
                  Some e \<Rightarrow> (Inl e, l')
                | None \<Rightarrow>
                    let available = tg_max_ops l - int (length q) - held l' key;
                        granted = min maximum available
                    in (Inr (\<lparr>res_key = key, res_remaining = granted\<rparr>, granted),
                        l'\<lparr>tg_reserved := AList.update key (held l' key + granted) (tg_reserved l')\<rparr>)))"

definition reserve :: "seconds \<Rightarrow> str \<Rightarrow> int \<Rightarrow> tg_limiter \<Rightarrow> (tg_error + reservation) \<times> tg_limiter" where
  "reserve now key cost l =
     (case reserve_up_to now key cost cost l of
        (Inl e, l') \<Rightarrow> (Inl e, l') | (Inr (res, _), l') \<Rightarrow> (Inr res, l'))"

definition consume_reserved :: "seconds \<Rightarrow> str \<Rightarrow> tg_limiter \<Rightarrow> (tg_error + unit) \<times> tg_limiter" where
  "consume_reserved now key l =
     (if held l key \<le> 0 then (Inl (TgRuntimeError ''rate-limit reservation is not active''), l)
      else let r = (if held l key = 1 then AList.delete key (tg_reserved l)
                    else AList.update key (held l key - 1) (tg_reserved l));
               q = prune (of_int (tg_window l)) now (queue l key)
           in (Inr (), l\<lparr>tg_reserved := r, tg_events := AList.update key (q @ [now]) (tg_events l)\<rparr>))"

definition release_reserved :: "str \<Rightarrow> int \<Rightarrow> tg_limiter \<Rightarrow> (tg_error + unit) \<times> tg_limiter" where
  "release_reserved key cost l =
     (if held l key < cost
      then (Inl (TgRuntimeError ''cannot release more rate-limit capacity than held''), l)
      else let remaining = held l key - cost in
        (Inr (), l\<lparr>tg_reserved := (if remaining \<noteq> 0 then AList.update key remaining (tg_reserved l)
                                  else AList.delete key (tg_reserved l))\<rparr>))"

definition consume :: "seconds \<Rightarrow> reservation \<Rightarrow> tg_limiter \<Rightarrow> (tg_error + unit) \<times> reservation \<times> tg_limiter" where
  "consume now res l =
     (if res_remaining res \<le> 0 then (Inl (TgRuntimeError ''rate-limit reservation exhausted''), res, l)
      else case consume_reserved now (res_key res) l of
             (Inl e, l') \<Rightarrow> (Inl e, res, l')
           | (Inr _, l') \<Rightarrow> (Inr (), res\<lparr>res_remaining := res_remaining res - 1\<rparr>, l'))"

definition close :: "reservation \<Rightarrow> tg_limiter \<Rightarrow> (tg_error + unit) \<times> reservation \<times> tg_limiter" where
  "close res l =
     (if res_remaining res > 0
      then case release_reserved (res_key res) (res_remaining res) l of
             (Inl e, l') \<Rightarrow> (Inl e, res, l')
           | (Inr _, l') \<Rightarrow> (Inr (), res\<lparr>res_remaining := 0\<rparr>, l')
      else (Inr (), res, l))"

definition get_limiter :: "int \<Rightarrow> int \<Rightarrow> (int \<times> int, tg_limiter) dict
    \<Rightarrow> (tg_error + tg_limiter) \<times> (int \<times> int, tg_limiter) dict" where
  "get_limiter max_ops window_seconds reg =
     (case map_of reg (max_ops, window_seconds) of
        Some l \<Rightarrow> (Inr l, reg)
      | None \<Rightarrow> (case SlidingWindowLimiter max_ops window_seconds of
            Inl e \<Rightarrow> (Inl e, reg)
          | Inr l \<Rightarrow> (Inr l, AList.update (max_ops, window_seconds) l reg)))"

section \<open>Invariant\<close>

text \<open>
  Queues are in clock order and in the past, held capacity is positive where recorded, and
  events plus held capacity never exceed the limit.
\<close>

definition tg_wf :: "seconds \<Rightarrow> tg_limiter \<Rightarrow> bool" where
  "tg_wf now l \<longleftrightarrow> 0 < tg_max_ops l \<and> 0 < tg_window l \<and>
     (\<forall>key. sorted (queue l key) \<and> (\<forall>t \<in> set (queue l key). t \<le> now) \<and> 0 \<le> held l key \<and>
            int (length (queue l key)) + held l key \<le> tg_max_ops l)"

lemma prune_recent: "sorted q \<Longrightarrow> prune w now q = recent w now q"
proof (induction q)
  case (Cons t q)
  show ?case
  proof (cases "t \<le> now - w")
    case True
    with Cons show ?thesis by (simp add: recent_def)
  next
    case False
    with Cons.prems have "\<forall>u \<in> set (t # q). now - u < w" by auto
    then show ?thesis using False by (simp add: recent_def)
  qed
qed simp

lemma length_prune: "length (prune w now q) \<le> length q"
  by (induction q) auto

lemma set_prune: "set (prune w now q) \<subseteq> set q"
  by (induction q) auto

lemma sorted_prune: "sorted q \<Longrightarrow> sorted (prune w now q)"
  by (induction q) auto

lemma dget_delete: "dget (AList.delete k d) k' x = (if k' = k then x else dget d k' x)"
  by (simp add: dget_def delete_conv')

lemma ensure_capacity_None:
  "ensure_capacity l key q cost now = None \<longleftrightarrow>
     cost \<le> tg_max_ops l \<and> int (length q) + held l key + cost \<le> tg_max_ops l"
  by (auto simp: ensure_capacity_def Let_def)

lemma ensure_capacity_Some:
  "ensure_capacity l key q cost now = Some e \<Longrightarrow>
     tg_max_ops l < cost \<or> tg_max_ops l < int (length q) + held l key + cost"
  using ensure_capacity_None [of l key q cost now] by auto

lemmas tg_op_defs = check_def reserve_up_to_def consume_reserved_def release_reserved_def
  validate_cost_def Let_def

lemma tg_wf_queue:
  assumes "tg_wf now l" and "now \<le> t"
  shows "sorted (prune w t (queue l key))" and "\<forall>u \<in> set (prune w t (queue l key)). u \<le> t"
    and "int (length (prune w t (queue l key))) + held l key \<le> tg_max_ops l"
proof -
  have q: "sorted (queue l key)" "\<forall>u \<in> set (queue l key). u \<le> now"
    "int (length (queue l key)) + held l key \<le> tg_max_ops l"
    using assms(1) by (auto simp: tg_wf_def)
  from q(1) show "sorted (prune w t (queue l key))" by (rule sorted_prune)
  from q(2) assms(2) show "\<forall>u \<in> set (prune w t (queue l key)). u \<le> t"
    using set_prune [of w t "queue l key"] by force
  from q(3) show "int (length (prune w t (queue l key))) + held l key \<le> tg_max_ops l"
    using length_prune [of w t "queue l key"] by linarith
qed

lemma tg_wf_later: "tg_wf now l \<Longrightarrow> now \<le> t \<Longrightarrow> tg_wf t l"
  unfolding tg_wf_def by fastforce

text \<open>Replacing one key's queue and held capacity by ones that fit keeps the invariant.\<close>

lemma tg_wf_update:
  assumes "tg_wf now l" and "now \<le> t"
    and "sorted q" and "\<forall>u \<in> set q. u \<le> t" and "0 \<le> h" and "int (length q) + h \<le> tg_max_ops l"
    and ev: "\<And>k. queue l' k = (if k = key then q else queue l k)"
    and re: "\<And>k. held l' k = (if k = key then h else held l k)"
    and "tg_max_ops l' = tg_max_ops l" and "tg_window l' = tg_window l"
  shows "tg_wf t l'"
  using tg_wf_later [OF assms(1,2)] assms(3-6,9,10) unfolding tg_wf_def by (simp add: ev re)

lemma check_wf:
  assumes "tg_wf now l" and "now \<le> t"
  shows "tg_wf t (snd (check t key cost l))"
proof -
  let ?q = "prune (of_int (tg_window l)) t (queue l key)"
  let ?q' = "if fst (check t key cost l) = Inr () then ?q @ replicate (nat cost) t
     else if cost \<le> 0 then queue l key else ?q"
  note q = tg_wf_queue [OF assms, of "of_int (tg_window l)" key]
  have "sorted ?q' \<and> (\<forall>u \<in> set ?q'. u \<le> t) \<and> int (length ?q') + held l key \<le> tg_max_ops l"
    using q tg_wf_later [OF assms]
    by (auto simp: tg_op_defs ensure_capacity_None sorted_append tg_wf_def split: option.splits)
  then show ?thesis
    using assms(1)
    by (intro tg_wf_update [OF assms, where q = ?q' and h = "held l key" and key = key])
       (auto simp: tg_op_defs dict_simps tg_wf_def split: option.splits)
qed


lemma reserve_up_to_wf:
  assumes "tg_wf now l" and "now \<le> t"
  shows "tg_wf t (snd (reserve_up_to t key mn mx l))"
proof -
  let ?q = "prune (of_int (tg_window l)) t (queue l key)"
  let ?bad = "mn \<le> 0 \<or> mx \<le> 0 \<or> mx < mn"
  let ?q' = "if ?bad then queue l key else ?q"
  let ?h' = "case fst (reserve_up_to t key mn mx l) of Inl _ \<Rightarrow> held l key | Inr (_, g) \<Rightarrow> held l key + g"
  note q = tg_wf_queue [OF assms, of "of_int (tg_window l)" key]
  have h: "0 \<le> held l key" using assms(1) by (simp add: tg_wf_def)
  have "sorted ?q' \<and> (\<forall>u \<in> set ?q'. u \<le> t)" "0 \<le> ?h'" "int (length ?q') + ?h' \<le> tg_max_ops l"
    using q tg_wf_later [OF assms] h
    by (auto simp: tg_op_defs ensure_capacity_None tg_wf_def split: option.splits)
  then show ?thesis
    by (intro tg_wf_update [OF assms, where q = ?q' and h = ?h' and key = key])
       (auto simp: tg_op_defs dict_simps split: option.splits)
qed

lemma consume_reserved_wf:
  assumes "tg_wf now l" and "now \<le> t"
  shows "tg_wf t (snd (consume_reserved t key l))"
proof (cases "held l key \<le> 0")
  case True
  then show ?thesis using tg_wf_later [OF assms] by (simp add: tg_op_defs)
next
  case False
  let ?q = "prune (of_int (tg_window l)) t (queue l key) @ [t]"
  note q = tg_wf_queue [OF assms, of "of_int (tg_window l)" key]
  show ?thesis
    using q False
    by (intro tg_wf_update [OF assms, where q = ?q and h = "held l key - 1" and key = key])
       (auto simp: tg_op_defs dict_simps dget_delete sorted_append)
qed

lemma release_reserved_wf:
  assumes "tg_wf now l" and "0 \<le> cost"
  shows "tg_wf now (snd (release_reserved key cost l))"
proof (cases "held l key < cost")
  case True
  then show ?thesis using assms(1) by (simp add: tg_op_defs)
next
  case False
  have "sorted (queue l key)" "\<forall>u \<in> set (queue l key). u \<le> now" "int (length (queue l key)) + held l key \<le> tg_max_ops l"
    using assms(1) by (simp_all add: tg_wf_def)
  with assms(2) False show ?thesis
    by (intro tg_wf_update [OF assms(1) order_refl, where q = "queue l key" and h = "held l key - cost" and key = key])
       (auto simp: tg_op_defs dict_simps dget_delete)
qed

lemma SlidingWindowLimiter_wf: "SlidingWindowLimiter m w = Inr l \<Longrightarrow> tg_wf now l"
  by (auto simp: SlidingWindowLimiter_def tg_wf_def split: if_splits)

section \<open>The Telegram limiter meets the window contract\<close>

definition tg_admit :: "seconds \<Rightarrow> str \<Rightarrow> tg_limiter \<Rightarrow> bool \<times> tg_limiter" where
  "tg_admit now key l = (case check now key 1 l of (r, l') \<Rightarrow> (r = Inr (), l'))"

lemma tg_admit_fst:
  assumes "tg_wf now l" and "now \<le> t"
  shows "fst (tg_admit t key l) \<longleftrightarrow>
    int (length (recent (of_int (tg_window l)) t (queue l key))) + held l key + 1 \<le> tg_max_ops l"
proof -
  have "sorted (queue l key)" using assms(1) by (simp add: tg_wf_def)
  moreover have "0 \<le> held l key" using assms(1) by (simp add: tg_wf_def)
  ultimately show ?thesis
    by (auto simp: tg_admit_def tg_op_defs prune_recent ensure_capacity_None
        split: option.splits dest!: ensure_capacity_Some)
qed

lemma tg_admit_queue:
  assumes "tg_wf now l" and "now \<le> t"
  shows "queue (snd (tg_admit t key l)) key' =
     (if key' = key then recent (of_int (tg_window l)) t (queue l key) @ (if fst (tg_admit t key l) then [t] else [])
      else queue l key')"
proof -
  have "sorted (queue l key)" using assms(1) by (simp add: tg_wf_def)
  then show ?thesis
    by (auto simp: tg_admit_def tg_op_defs prune_recent dict_simps split: option.splits)
qed

lemma tg_admit_frame:
  "tg_max_ops (snd (tg_admit t key l)) = tg_max_ops l" "tg_window (snd (tg_admit t key l)) = tg_window l"
  by (auto simp: tg_admit_def tg_op_defs split: option.splits)

interpretation tg: sliding_window
  "\<lambda>l. nat (tg_max_ops l)" "\<lambda>l. of_int (tg_window l)" queue tg_admit tg_wf
proof unfold_locales
  fix l :: tg_limiter and now t key
  assume wf: "tg_wf now l"
  then show "0 < (of_int (tg_window l) :: rat)" by (simp add: tg_wf_def)
  assume le: "now \<le> t"
  have w: "0 < (of_int (tg_window l) :: rat)" and h: "0 \<le> held l key" using wf by (simp_all add: tg_wf_def)
  show "tg_wf t (snd (tg_admit t key l))"
    using check_wf [OF wf le, of key 1] by (auto simp: tg_admit_def split: prod.splits)
  show "fst (tg_admit t key l) \<Longrightarrow> length (recent (of_int (tg_window l)) t (queue l key)) < nat (tg_max_ops l)"
    using tg_admit_fst [OF wf le, of key] h by linarith
  show "fst (tg_admit t key l) \<Longrightarrow> recent (of_int (tg_window l)) t (queue (snd (tg_admit t key l)) key) =
      recent (of_int (tg_window l)) t (queue l key) @ [t]"
    using w by (simp add: tg_admit_queue [OF wf le] window_simps)
  show "\<not> fst (tg_admit t key l) \<Longrightarrow> recent (of_int (tg_window l)) t (queue (snd (tg_admit t key l)) key) =
      recent (of_int (tg_window l)) t (queue l key)"
    by (simp add: tg_admit_queue [OF wf le])
  show "key' \<noteq> key \<Longrightarrow> recent (of_int (tg_window l)) t (queue (snd (tg_admit t key l)) key') =
      recent (of_int (tg_window l)) t (queue l key')" for key'
    by (simp add: tg_admit_queue [OF wf le])
qed (simp_all add: tg_admit_frame)


section \<open>Reservations as a state machine\<close>

text \<open>
  A limiter in use: the clock, the limiter, and the reservations handed out so far. A step is
  one call on the limiter or on one of the reservations, at a time not before the last one.
\<close>

record tg_world =
  tw_lim :: tg_limiter
  tw_now :: seconds
  tw_res :: "reservation list"

inductive tg_step :: "tg_world \<Rightarrow> tg_world \<Rightarrow> bool" where
  step_check: "tw_now w \<le> t \<Longrightarrow>
     tg_step w (w\<lparr>tw_lim := snd (check t key cost (tw_lim w)), tw_now := t\<rparr>)"
| step_reserve: "tw_now w \<le> t \<Longrightarrow> reserve_up_to t key mn mx (tw_lim w) = (Inr (res, n), l) \<Longrightarrow>
     tg_step w (w\<lparr>tw_lim := l, tw_now := t, tw_res := tw_res w @ [res]\<rparr>)"
| step_refuse: "tw_now w \<le> t \<Longrightarrow> reserve_up_to t key mn mx (tw_lim w) = (Inl e, l) \<Longrightarrow>
     tg_step w (w\<lparr>tw_lim := l, tw_now := t\<rparr>)"
| step_consume: "tw_now w \<le> t \<Longrightarrow> i < length (tw_res w) \<Longrightarrow> consume t (tw_res w ! i) (tw_lim w) = (r, res, l) \<Longrightarrow>
     tg_step w (w\<lparr>tw_lim := l, tw_now := t, tw_res := (tw_res w)[i := res]\<rparr>)"
| step_close: "i < length (tw_res w) \<Longrightarrow> close (tw_res w ! i) (tw_lim w) = (r, res, l) \<Longrightarrow>
     tg_step w (w\<lparr>tw_lim := l, tw_res := (tw_res w)[i := res]\<rparr>)"

inductive tg_reachable :: "tg_world \<Rightarrow> bool" where
  start: "SlidingWindowLimiter m win = Inr l \<Longrightarrow> tg_reachable \<lparr>tw_lim = l, tw_now = now, tw_res = []\<rparr>"
| step: "tg_reachable w \<Longrightarrow> tg_step w w' \<Longrightarrow> tg_reachable w'"

fun outstanding :: "reservation list \<Rightarrow> str \<Rightarrow> int" where
  "outstanding [] key = 0"
| "outstanding (r # rs) key = (if res_key r = key then res_remaining r else 0) + outstanding rs key"

definition tg_inv :: "tg_world \<Rightarrow> bool" where
  "tg_inv w \<longleftrightarrow> tg_wf (tw_now w) (tw_lim w) \<and> (\<forall>r \<in> set (tw_res w). 0 \<le> res_remaining r) \<and>
     (\<forall>key. held (tw_lim w) key = outstanding (tw_res w) key)"

lemma outstanding_snoc:
  "outstanding (rs @ [r]) key = outstanding rs key + (if res_key r = key then res_remaining r else 0)"
  by (induction rs) auto

lemma outstanding_update:
  "i < length rs \<Longrightarrow> outstanding (rs[i := r]) key = outstanding rs key +
     (if res_key r = key then res_remaining r else 0) -
     (if res_key (rs ! i) = key then res_remaining (rs ! i) else 0)"
  by (induction rs arbitrary: i) (auto split: nat.splits)

lemma outstanding_nonneg: "\<forall>r \<in> set rs. 0 \<le> res_remaining r \<Longrightarrow> 0 \<le> outstanding rs key"
  by (induction rs) auto

lemma outstanding_ge:
  "i < length rs \<Longrightarrow> \<forall>r \<in> set rs. 0 \<le> res_remaining r \<Longrightarrow>
   res_remaining (rs ! i) \<le> outstanding rs (res_key (rs ! i))"
proof (induction rs arbitrary: i)
  case (Cons r rs)
  have "0 \<le> outstanding rs (res_key r)" using Cons.prems outstanding_nonneg by simp
  with Cons show ?case by (cases i) (auto simp: add_increasing)
qed simp

text \<open>What the calls do to the held capacity.\<close>

lemma check_held: "held (snd (check t key cost l)) k = held l k"
  by (auto simp: tg_op_defs split: option.splits)

lemma reserve_up_to_held:
  assumes "reserve_up_to t key mn mx l = (r, l')"
  shows "held l' k = held l k + (case r of Inl _ \<Rightarrow> 0 | Inr (res, n) \<Rightarrow> if res_key res = k then res_remaining res else 0)"
  using assms by (auto simp: tg_op_defs dict_simps split: option.splits if_splits)

lemma reserve_up_to_granted:
  assumes "reserve_up_to t key mn mx l = (Inr (res, n), l')"
  shows "res_key res = key" and "res_remaining res = n" and "mn \<le> n" and "n \<le> mx" and "0 < n"
    and "n \<le> tg_max_ops l - int (length (prune (of_int (tg_window l)) t (queue l key))) - held l key"
  using assms by (auto simp: tg_op_defs ensure_capacity_None split: option.splits if_splits)

lemma consume_ok:
  assumes "0 < res_remaining res" and "res_remaining res \<le> held l (res_key res)"
  shows "\<exists>l'. consume t res l = (Inr (), res\<lparr>res_remaining := res_remaining res - 1\<rparr>, l') \<and>
    l' = snd (consume_reserved t (res_key res) l) \<and>
    (\<forall>k. held l' k = held l k - (if k = res_key res then 1 else 0))"
  using assms by (auto simp: consume_def tg_op_defs dict_simps dget_delete)

lemma close_ok:
  assumes "0 \<le> res_remaining res" and "res_remaining res \<le> held l (res_key res)"
  shows "\<exists>l'. close res l = (Inr (), res\<lparr>res_remaining := 0\<rparr>, l') \<and>
    (l' = l \<or> l' = snd (release_reserved (res_key res) (res_remaining res) l)) \<and>
    (\<forall>k. held l' k = held l k - (if k = res_key res then res_remaining res else 0))"
  using assms by (auto simp: close_def tg_op_defs dict_simps dget_delete)

lemma tg_inv_res:
  assumes "tg_inv w" and "i < length (tw_res w)"
  shows "0 \<le> res_remaining (tw_res w ! i)"
    and "res_remaining (tw_res w ! i) \<le> held (tw_lim w) (res_key (tw_res w ! i))"
  using assms outstanding_ge [OF assms(2)] by (auto simp: tg_inv_def)

lemma tg_step_consume_inv:
  assumes inv: "tg_inv w" and le: "tw_now w \<le> t" and i: "i < length (tw_res w)"
    and c: "consume t (tw_res w ! i) (tw_lim w) = (r, res, l)"
  shows "tg_inv (w\<lparr>tw_lim := l, tw_now := t, tw_res := (tw_res w)[i := res]\<rparr>)"
proof (cases "0 < res_remaining (tw_res w ! i)")
  case True
  with consume_ok [OF True tg_inv_res(2) [OF inv i], of t] c
  have "res = (tw_res w ! i)\<lparr>res_remaining := res_remaining (tw_res w ! i) - 1\<rparr>"
    and "l = snd (consume_reserved t (res_key (tw_res w ! i)) (tw_lim w))"
    and "\<And>k. held l k = held (tw_lim w) k - (if k = res_key (tw_res w ! i) then 1 else 0)"
    by auto
  moreover have "tg_wf t l" using calculation(2) consume_reserved_wf [OF _ le] inv by (simp add: tg_inv_def)
  ultimately show ?thesis
    using inv i True set_update_subset_insert [of "tw_res w" i res]
    by (auto simp: tg_inv_def outstanding_update)
next
  case False
  with c have "res = tw_res w ! i" "l = tw_lim w" by (auto simp: consume_def)
  then show ?thesis using inv i tg_wf_later [OF _ le] by (simp add: tg_inv_def)
qed

lemma tg_step_close_inv:
  assumes inv: "tg_inv w" and i: "i < length (tw_res w)"
    and c: "close (tw_res w ! i) (tw_lim w) = (r, res, l)"
  shows "tg_inv (w\<lparr>tw_lim := l, tw_res := (tw_res w)[i := res]\<rparr>)"
proof -
  note res = tg_inv_res [OF inv i]
  from close_ok [OF res] c
  have "res = (tw_res w ! i)\<lparr>res_remaining := 0\<rparr>"
    and "l = tw_lim w \<or> l = snd (release_reserved (res_key (tw_res w ! i)) (res_remaining (tw_res w ! i)) (tw_lim w))"
    and "\<And>k. held l k = held (tw_lim w) k - (if k = res_key (tw_res w ! i) then res_remaining (tw_res w ! i) else 0)"
    by auto
  moreover have "tg_wf (tw_now w) l" using calculation(2) release_reserved_wf [OF _ res(1)] inv by (auto simp: tg_inv_def)
  ultimately show ?thesis
    using inv i set_update_subset_insert [of "tw_res w" i res]
    by (auto simp: tg_inv_def outstanding_update)
qed

lemma tg_step_inv: "tg_step w w' \<Longrightarrow> tg_inv w \<Longrightarrow> tg_inv w'"
proof (induction rule: tg_step.induct)
  case (step_check w t key cost)
  then show ?case
    using check_wf [of "tw_now w" "tw_lim w" t key cost] by (simp add: tg_inv_def check_held)
next
  case (step_reserve w t key mn mx res n l)
  then show ?case
    using reserve_up_to_wf [of "tw_now w" "tw_lim w" t key mn mx] reserve_up_to_held [OF step_reserve(2)]
      reserve_up_to_granted [OF step_reserve(2)]
    by (auto simp: tg_inv_def outstanding_snoc)
next
  case (step_refuse w t key mn mx e l)
  then show ?case
    using reserve_up_to_wf [of "tw_now w" "tw_lim w" t key mn mx] reserve_up_to_held [OF step_refuse(2)]
    by (simp add: tg_inv_def)
qed (simp_all add: tg_step_consume_inv tg_step_close_inv)

lemma tg_reachable_inv: "tg_reachable w \<Longrightarrow> tg_inv w"
proof (induction rule: tg_reachable.induct)
  case (start m win l now)
  then have "tg_reserved l = []" by (auto simp: SlidingWindowLimiter_def split: if_splits)
  with SlidingWindowLimiter_wf [OF start] show ?case by (simp add: tg_inv_def)
qed (rule tg_step_inv)


lemma ensure_capacity_retry:
  assumes "ensure_capacity l key q cost now = Some (RefusedRate k m win (Some r))" and "0 < tg_window l"
    and "sorted q"
  shows "0 \<le> r \<and> r \<le> of_int (tg_window l) \<and>
    (let needed = nat (int (length q) + held l key + cost - tg_max_ops l) in
     needed \<le> length q \<and> (\<forall>i < needed. q ! i + of_int (tg_window l) - now \<le> r \<or> r = of_int (tg_window l)))"
proof -
  let ?n = "int (length q) + held l key + cost - tg_max_ops l"
  have n: "0 < ?n" "?n \<le> int (length q)" and r: "r = min (of_int (tg_window l)) (max 0 (q ! nat (?n - 1) + of_int (tg_window l) - now))"
    using assms(1) by (auto simp: ensure_capacity_def Let_def split: if_splits)
  have "q ! i \<le> q ! nat (?n - 1)" if "i < nat ?n" for i
    using that n assms(3) by (intro sorted_nth_mono) linarith+
  then have "q ! i + of_int (tg_window l) - now \<le> r \<or> r = of_int (tg_window l)" if "i < nat ?n" for i
    using that r by (fastforce simp: min_def max_def)
  with n r assms(2) show ?thesis by (auto simp: Let_def)
qed

section \<open>Properties\<close>

text \<open>
  Over any sequence of single-cost checks served in clock order, no window of the
  configured width contains more than \<open>max_ops\<close> admitted operations of one key, also while
  capacity is held by reservations.
\<close>

theorem telegram_window_limit:
  assumes "tg_wf now l" and "sorted (now # map fst rs)" and "queue l key = []"
  shows "length (in_window (of_int (tg_window l)) x (admitted key rs (fst (serve tg_admit rs l))))
    \<le> nat (tg_max_ops l)"
  using tg.served_within_limit [OF assms] .

theorem telegram_window_limit_witness:
  "length (in_window 60 2 (admitted ''k'' [(1, ''k''), (2, ''k'')] (fst (serve tg_admit [(1, ''k''), (2, ''k'')]
     \<lparr>tg_max_ops = 1, tg_window = 60, tg_events = [], tg_reserved = []\<rparr>)))) \<le> 1"
  using telegram_window_limit [of 0 "\<lparr>tg_max_ops = 1, tg_window = 60, tg_events = [], tg_reserved = []\<rparr>"
      "[(1, ''k''), (2, ''k'')]" "''k''" 2]
  by (simp add: tg_wf_def)

text \<open>
  In every reachable state of a limiter and the reservations handed out from it, the
  capacity held for a key is exactly the sum of what its reservations have left, and events
  plus held capacity stay within \<open>max_ops\<close>. Hence a reservation with slots left can always be
  consumed and every reservation can be closed: neither call ever raises.
\<close>

theorem telegram_reservations_never_fail:
  assumes "tg_reachable w" and "i < length (tw_res w)"
  shows "(\<forall>key. held (tw_lim w) key = outstanding (tw_res w) key \<and>
            int (length (queue (tw_lim w) key)) + held (tw_lim w) key \<le> tg_max_ops (tw_lim w)) \<and>
    (0 < res_remaining (tw_res w ! i) \<longrightarrow> fst (consume t (tw_res w ! i) (tw_lim w)) = Inr ()) \<and>
    fst (close (tw_res w ! i) (tw_lim w)) = Inr ()"
proof -
  have inv: "tg_inv w" by (rule tg_reachable_inv [OF assms(1)])
  note res = tg_inv_res [OF this assms(2)]
  have "0 < res_remaining (tw_res w ! i) \<longrightarrow> fst (consume t (tw_res w ! i) (tw_lim w)) = Inr ()"
    using consume_ok [OF _ res(2), of t] by auto
  moreover have "fst (close (tw_res w ! i) (tw_lim w)) = Inr ()" using close_ok [OF res] by auto
  ultimately show ?thesis using inv unfolding tg_inv_def tg_wf_def by metis
qed

theorem telegram_reservations_never_fail_witness:
  "\<exists>w. tg_reachable w \<and> length (tw_res w) = 1 \<and> fst (consume 3 (tw_res w ! 0) (tw_lim w)) = Inr ()"
proof -
  let ?l = "\<lparr>tg_max_ops = 5, tg_window = 60, tg_events = [], tg_reserved = []\<rparr>"
  let ?w0 = "\<lparr>tw_lim = ?l, tw_now = 1, tw_res = []\<rparr>"
  let ?l1 = "snd (reserve_up_to 2 ''k'' 1 3 ?l)" and ?r = "\<lparr>res_key = ''k'', res_remaining = 3\<rparr>"
  have eq: "reserve_up_to 2 ''k'' 1 3 ?l = (Inr (?r, 3), ?l1)"
    by (simp add: tg_op_defs ensure_capacity_def)
  have "tg_reachable ?w0" by (rule tg_reachable.start [of 5 60]) (simp add: SlidingWindowLimiter_def)
  moreover have "tg_step ?w0 (?w0\<lparr>tw_lim := ?l1, tw_now := 2, tw_res := tw_res ?w0 @ [?r]\<rparr>)"
    by (rule tg_step.step_reserve [where key = "''k''" and mn = 1 and mx = 3 and n = 3]) (use eq in simp_all)
  ultimately have re: "tg_reachable (?w0\<lparr>tw_lim := ?l1, tw_now := 2, tw_res := tw_res ?w0 @ [?r]\<rparr>)"
    by (rule tg_reachable.step)
  from telegram_reservations_never_fail [OF re, of 0 3] show ?thesis
    by (intro exI [of _ "?w0\<lparr>tw_lim := ?l1, tw_now := 2, tw_res := tw_res ?w0 @ [?r]\<rparr>"]) (use re in simp)
qed

text \<open>
  C40: \<open>reserve_up_to\<close> grants the most it may. On success the grant lies between the requested
  bounds and is the smaller of the maximum and the free capacity; it is refused with a rate
  error exactly when the free capacity is below the minimum (for a minimum within the limit).
\<close>

theorem reserve_up_to_maximal:
  assumes "tg_wf now l" and "now \<le> t" and "0 < mn" and "mn \<le> mx" and "mn \<le> tg_max_ops l"
  shows "let free = tg_max_ops l - int (length (recent (of_int (tg_window l)) t (queue l key))) - held l key in
    (case fst (reserve_up_to t key mn mx l) of
       Inr (res, n) \<Rightarrow> mn \<le> free \<and> n = min mx free \<and> res = \<lparr>res_key = key, res_remaining = n\<rparr>
     | Inl e \<Rightarrow> free < mn \<and> (\<exists>r. e = RefusedRate key (tg_max_ops l) (tg_window l) r))"
proof -
  have "sorted (queue l key)" using assms(1) by (simp add: tg_wf_def)
  then show ?thesis
    using assms(3-5)
    by (auto simp: tg_op_defs prune_recent ensure_capacity_def split: option.splits sum.splits if_splits)
qed

theorem reserve_up_to_maximal_witness:
  "fst (reserve_up_to 2 ''k'' 1 9 \<lparr>tg_max_ops = 5, tg_window = 60, tg_events = [(''k'', [1])], tg_reserved = []\<rparr>)
     = Inr (\<lparr>res_key = ''k'', res_remaining = 4\<rparr>, 4)"
proof -
  let ?l = "\<lparr>tg_max_ops = 5, tg_window = 60, tg_events = [(''k'', [1])], tg_reserved = []\<rparr>"
  have wf: "tg_wf 1 ?l" by (simp add: tg_wf_def dget_def)
  from reserve_up_to_maximal [OF wf, of 2 1 9 "''k''"]
  have "case fst (reserve_up_to 2 ''k'' 1 9 ?l) of
      Inr (res, n) \<Rightarrow> n = 4 \<and> res = \<lparr>res_key = ''k'', res_remaining = n\<rparr> | Inl e \<Rightarrow> False"
    by (auto simp: dget_def recent_def Let_def split: sum.splits prod.splits)
  then show ?thesis by (auto split: sum.splits)
qed

end
