(* ===== verification/Telegram_State.thy ===== *)
theory Telegram_State
  imports Telegram_Config Telegram_Limiter
begin

text \<open>
  The process of the Telegram channel and the files it keeps (\<open>telegram/state.py\<close>).

  The state \<open>channel\<close> holds the monotonic clock, the registry of limiters, the flood-control
  deadlines, the state files, and what the outside world will answer: \<open>ch_disk\<close> says for each
  coming disk operation whether it raises \<open>OSError\<close> (none, once the list is used up), \<open>ch_net\<close>
  the replies to the coming requests. The theorems quantify over both, so every behaviour of
  disk and network is covered. \<open>ch_log\<close> records the audit events, the requests sent and the
  sleeps, in order. Audit fields that are functions of the others or of the clock (latency,
  token fingerprint, lengths of logged texts) are not repeated.

  A session or offset file is written by a temporary file and \<open>os.replace\<close>: it is either the
  old or the new one, so a write is one step. The per-session lock makes each of \<open>grant\<close> and
  \<open>claim\<close> one step; taking it may raise, releasing it does not.
\<close>

section \<open>The process\<close>

datatype tg_exc =
    Refused str "seconds option"
  | RuntimeErr "bool option" bool "seconds option"
  | ConfigErr tg_config_error
  | OSErr
  | PyExc str

datatype state_file = Undecodable | Json pyval

datatype reply =
    NetError str seconds
  | Reply int "pyval option" "str option" "str list" seconds

datatype event =
    TgHybridRefused str str
  | TgHybridGranted str str int int
  | TgHybridConsumed str "int option" str
  | TgHybridStateError str "int option"
  | TgUndelivered str "int option" str
  | TgInbound str "int option" str nat
  | TgInboundRefused str "int option"
  | TgMediaInbound str int str bool
  | TgMediaRefused str int str str
  | TgMediaStageRequested str int str int
  | TgMediaStaged str int str str nat
  | TgOutbound bool str nat "int option" str
  | TgQuery bool int str bool "str option"
  | TgQueryError str str
  | TgOffsetPersistFailed int
  | WireSend pyval str
  | WireQuery str bool "str option"
  | WireUpdates "int option"
  | WireHealth
  | WireGetFile str
  | WireDownload str
  | WireWrite str str str
  | Slept seconds

record channel =
  ch_clock :: seconds
  ch_limiters :: "(int \<times> int, tg_limiter) dict"
  ch_res :: reservation
  ch_retry :: "(str, seconds) dict"
  ch_files :: "(str, state_file) dict"
  ch_disk :: "bool list"
  ch_net :: "reply list"
  ch_log :: "event list"

text \<open>What the process reads from its surroundings: the wall clock at a monotonic time, the environment, \<open>str\<close> of values that are neither strings nor integers, the HMAC of the token, \<open>hash_query\<close>, the resolved form of a path (its parts), the configuration file, and the resolved repository and corpus directories.\<close>

record tg_env =
  te_wall :: "seconds \<Rightarrow> seconds"
  te_environ :: "str \<Rightarrow> str"
  te_str :: "pyval \<Rightarrow> str"
  te_pseudonym :: "str \<Rightarrow> str"
  te_hash :: "str \<Rightarrow> str"
  te_resolve :: "str \<Rightarrow> str list option"
  te_config :: "pyval option"
  te_repo :: "str list"
  te_corpus :: "str list"

type_synonym 'a tg = "(tg_exc, channel, 'a) action"

definition emit :: "event \<Rightarrow> unit tg" where
  "emit e = hmodify (\<lambda>s. s\<lparr>ch_log := ch_log s @ [e]\<rparr>)"

definition sleep :: "seconds \<Rightarrow> unit tg" where
  "sleep d = hmodify (\<lambda>s. s\<lparr>ch_clock := ch_clock s + max 0 d, ch_log := ch_log s @ [Slept d]\<rparr>)"

lemma hbind_emit: "hbind (emit e) g s = g () (s\<lparr>ch_log := ch_log s @ [e]\<rparr>)"
  by (simp add: hbind_def emit_def handler_simps)

text \<open>One disk operation: whether it raises \<open>OSError\<close>.\<close>

definition disk :: "bool tg" where
  "disk s = (Inr (case ch_disk s of [] \<Rightarrow> False | b # _ \<Rightarrow> b), s\<lparr>ch_disk := tl (ch_disk s)\<rparr>)"

section \<open>Consents\<close>

definition ONLINE_PROVIDERS :: "str list" where "ONLINE_PROVIDERS = [''grok'', ''claude'']"

definition session_path :: "str \<Rightarrow> str" where
  "session_path cid = ''session_'' @ cid @ ''.json''"

definition OFFSET_PATH :: str where "OFFSET_PATH = ''offset.json''"

definition canonical_chat_id :: "pyval \<Rightarrow> str tg" where
  "canonical_chat_id chat_id = hlift (of_option (PyExc ''ValueError'') (canonical_id chat_id))"

text \<open>\<open>int(x)\<close> of a float: towards zero.\<close>

definition truncate :: "seconds \<Rightarrow> int" where
  "truncate r = (if r < 0 then - \<lfloor>- r\<rfloor> else \<lfloor>r\<rfloor>)"

definition state_unavailable :: tg_exc where
  "state_unavailable = RuntimeErr (Some True) False None"

definition load_hybrid_session :: "state_file option \<Rightarrow> (int \<times> str) option" where
  "load_hybrid_session f = (case f of
     Some (Json (PDict d)) \<Rightarrow>
       (case (dget d ''confirm_until'' PNone, dget d ''provider'' PNone) of
          (PInt until, PStr provider) \<Rightarrow>
            if 0 \<le> until \<and> provider \<in> set ONLINE_PROVIDERS then Some (until, provider) else None
        | _ \<Rightarrow> None)
   | _ \<Rightarrow> None)"

definition save_file :: "str \<Rightarrow> pyval \<Rightarrow> unit tg" where
  "save_file path v = hmodify (\<lambda>s. s\<lparr>ch_files := AList.update path (Json v) (ch_files s)\<rparr>)"

definition delete_file :: "str \<Rightarrow> unit tg" where
  "delete_file path = hmodify (\<lambda>s. s\<lparr>ch_files := AList.delete path (ch_files s)\<rparr>)"

definition session_value :: "int \<Rightarrow> str \<Rightarrow> pyval" where
  "session_value until provider = PDict [(''confirm_until'', PInt until), (''provider'', PStr provider)]"

definition grant_hybrid_confirm :: "tg_env \<Rightarrow> pyval \<Rightarrow> str \<Rightarrow> int \<Rightarrow> int tg" where
  "grant_hybrid_confirm env chat_id provider ttl_sec =
     hbind (hensure (provider \<in> set ONLINE_PROVIDERS) (PyExc ''ValueError'')) (\<lambda>_.
     hbind (hensure (0 < ttl_sec) (PyExc ''ValueError'')) (\<lambda>_.
     hbind (canonical_chat_id chat_id) (\<lambda>cid.
     hbind (hget (\<lambda>s. truncate (te_wall env (ch_clock s) + of_int ttl_sec))) (\<lambda>until.
     hbind disk (\<lambda>lock_fails.
     hbind (hensure (\<not> lock_fails) state_unavailable) (\<lambda>_.
     hbind disk (\<lambda>write_fails.
     hbind (hensure (\<not> write_fails) state_unavailable) (\<lambda>_.
     hbind (save_file (session_path cid) (session_value until provider)) (\<lambda>_.
     hret until)))))))))"

definition claim_hybrid_confirm :: "tg_env \<Rightarrow> pyval \<Rightarrow> str option tg" where
  "claim_hybrid_confirm env chat_id =
     hbind (canonical_chat_id chat_id) (\<lambda>cid.
     hbind (hget (\<lambda>s. te_wall env (ch_clock s))) (\<lambda>current.
     hbind disk (\<lambda>lock_fails.
     hbind (hensure (\<not> lock_fails) state_unavailable) (\<lambda>_.
     hbind disk (\<lambda>read_fails.
     hbind (hget (\<lambda>s. if read_fails then None else load_hybrid_session (map_of (ch_files s) (session_path cid)))) (\<lambda>session.
     case session of None \<Rightarrow> hret None
     | Some (until, provider) \<Rightarrow>
         hbind disk (\<lambda>unlink_fails.
         hbind (hensure (\<not> unlink_fails) state_unavailable) (\<lambda>_.
         hbind (delete_file (session_path cid)) (\<lambda>_.
         hret (if of_int until \<le> current then None else Some provider))))))))))"

section \<open>The poll offset\<close>

definition load_offset :: "int option tg" where
  "load_offset =
     hbind disk (\<lambda>read_fails.
     hget (\<lambda>s. if read_fails then None else (case map_of (ch_files s) OFFSET_PATH of
         Some (Json (PDict d)) \<Rightarrow> (case dget d ''offset'' PNone of PInt off \<Rightarrow> if 0 \<le> off then Some off else None | _ \<Rightarrow> None)
       | _ \<Rightarrow> None)))"

definition save_offset :: "int \<Rightarrow> unit tg" where
  "save_offset offset =
     hbind (hensure (0 \<le> offset) (PyExc ''ValueError'')) (\<lambda>_.
     hbind disk (\<lambda>write_fails.
     hbind (hensure (\<not> write_fails) OSErr) (\<lambda>_.
     save_file OFFSET_PATH (PDict [(''offset'', PInt offset)]))))"

end
