(* ===== verification/Telegram_Client.thy ===== *)
theory Telegram_Client
  imports Telegram_State
begin

text \<open>
  The HTTP clients of the Telegram channel, \<open>telegram/client.py\<close>: splitting a text into
  messages, flood control, \<open>sendMessage\<close>, \<open>getUpdates\<close>, \<open>getFile\<close>, the bounded download, the
  \<open>/health\<close> look-up and the \<open>POST /query\<close> over loopback. A request is logged and answered by the
  next reply of the state; its latency moves the clock. The URL, the HTTP pools and the
  timeouts, which only configure \<open>httpx\<close>, are not modelled; exception messages are not either.
\<close>

section \<open>Splitting a text\<close>

definition rfind :: "str \<Rightarrow> str \<Rightarrow> int" where
  "rfind s sub = (case filter (\<lambda>i. take (length sub) (drop i s) = sub) [0..<length s + 1 - length sub] of
     [] \<Rightarrow> -1 | is \<Rightarrow> int (last is))"

definition split_at :: "int \<Rightarrow> str \<Rightarrow> int" where
  "split_at max_chars remaining =
     (let window = take (nat max_chars) remaining;
          a = rfind window [CHR 0x0A, CHR 0x0A];
          b = (if a < max_chars div 4 then rfind window [CHR 0x0A] else a);
          c = (if b < max_chars div 4 then max_chars else b)
      in if take (nat c) remaining = [] then max_chars else c)"

lemma split_at_pos: "0 < max_chars \<Longrightarrow> remaining \<noteq> [] \<Longrightarrow> 0 < split_at max_chars remaining"
  unfolding split_at_def Let_def by (auto split: if_splits)

function chunk_loop :: "int \<Rightarrow> str \<Rightarrow> str list" where
  "chunk_loop max_chars remaining =
     (if max_chars \<le> 0 \<or> remaining = [] then []
      else if int (length remaining) \<le> max_chars then [remaining]
      else let k = nat (split_at max_chars remaining)
           in take k remaining # chunk_loop max_chars (drop k remaining))"
  by pat_completeness auto
termination
  by (relation "measure (\<lambda>(_, remaining). length remaining)") (auto dest: split_at_pos simp: not_le)

declare chunk_loop.simps [simp del]

text \<open>\<open>None\<close> is the \<open>ValueError\<close> of a limit that is not positive.\<close>

definition chunk_text :: "str \<Rightarrow> int \<Rightarrow> str list option" where
  "chunk_text text max_chars =
     (if py_strip text = [] then Some []
      else if max_chars \<le> 0 then None
      else if int (length text) \<le> max_chars then Some [text]
      else Some (chunk_loop max_chars text))"

section \<open>Requests and flood control\<close>

definition request :: "event \<Rightarrow> reply tg" where
  "request e s =
     (let r = (case ch_net s of [] \<Rightarrow> NetError ''ReadTimeout'' 0 | r # _ \<Rightarrow> r);
          d = (case r of NetError _ d \<Rightarrow> d | Reply _ _ _ _ d \<Rightarrow> d)
      in (Inr r, s\<lparr>ch_net := tl (ch_net s), ch_clock := ch_clock s + max 0 d, ch_log := ch_log s @ [e]\<rparr>))"

definition RETRY_AFTER_CAP :: seconds where "RETRY_AFTER_CAP = 60"
definition RETRY_AFTER_MAX :: seconds where "RETRY_AFTER_MAX = 86400"
definition MAX_RETRIES :: nat where "MAX_RETRIES = 1"

text \<open>A number that is not a boolean, not negative and representable as a float.\<close>

definition retry_after_value :: "(str \<times> pyval) list \<Rightarrow> seconds option" where
  "retry_after_value data = (case dget data ''parameters'' PNone of
     PDict parameters \<Rightarrow> (case dget parameters ''retry_after'' PNone of
         PInt i \<Rightarrow> if i < 0 \<or> 2 ^ 1024 - 2 ^ 970 \<le> i then None else Some (of_int i)
       | PFloat r \<Rightarrow> if r < 0 then None else Some r
       | _ \<Rightarrow> None)
   | _ \<Rightarrow> None)"

definition handle_retry_after :: "tg_env \<Rightarrow> (str \<times> pyval) list \<Rightarrow> str \<Rightarrow> nat \<Rightarrow> nat \<Rightarrow> (bool \<times> seconds option) tg" where
  "handle_retry_after env data token attempt max_retries =
     (case retry_after_value data of None \<Rightarrow> hret (False, None)
      | Some delay \<Rightarrow>
        hbind (hensure (delay \<le> RETRY_AFTER_MAX) (RuntimeErr (Some False) True None)) (\<lambda>_.
        hbind (hget (\<lambda>s. ch_clock s + delay)) (\<lambda>deadline.
        let key = te_pseudonym env token in
        hbind (hmodify (\<lambda>s. s\<lparr>ch_retry := AList.update key (max (dget (ch_retry s) key 0) deadline) (ch_retry s)\<rparr>)) (\<lambda>_.
        if max_retries \<le> attempt \<or> RETRY_AFTER_CAP < delay then hret (False, Some delay)
        else hbind (sleep delay) (\<lambda>_.
          hbind (hmodify (\<lambda>s. if dget (ch_retry s) key 0 \<le> deadline
                               then s\<lparr>ch_retry := AList.delete key (ch_retry s)\<rparr> else s)) (\<lambda>_.
          hret (True, Some delay)))))))"

definition raise_during_retry_cooldown :: "tg_env \<Rightarrow> str \<Rightarrow> unit tg" where
  "raise_during_retry_cooldown env token =
     (let key = te_pseudonym env token in
      hbind (hget ch_clock) (\<lambda>now.
      hbind (hget (\<lambda>s. dget (ch_retry s) key 0)) (\<lambda>deadline.
      if deadline \<le> now then hmodify (\<lambda>s. s\<lparr>ch_retry := AList.delete key (ch_retry s)\<rparr>)
      else hraise (RuntimeErr (Some True) False (Some (of_int (max 1 \<lceil>deadline - now\<rceil>)))))))"

definition http_status_is_retryable :: "int \<Rightarrow> bool" where
  "http_status_is_retryable status = (status \<in> {408, 409, 425, 429} \<or> 500 \<le> status)"

definition bot_api_response_is_retryable :: "int \<Rightarrow> bool" where
  "bot_api_response_is_retryable status = (200 \<le> status \<and> status < 300 \<or> http_status_is_retryable status)"

definition bot_api_response_is_fatal :: "int \<Rightarrow> bool" where
  "bot_api_response_is_fatal status = (status \<in> {401, 404} \<or> 300 \<le> status \<and> status < 400)"

section \<open>Sending\<close>

text \<open>The limiter of the configured knobs; its refusals are \<open>TelegramRefused\<close>.\<close>

definition limiter_exc :: "tg_error \<Rightarrow> tg_exc" where
  "limiter_exc e = (case e of
     TgValueError _ \<Rightarrow> PyExc ''ValueError''
   | RefusedCapacity _ _ _ _ \<Rightarrow> Refused ''rate_limit_capacity'' None
   | RefusedRate _ _ _ retry \<Rightarrow> Refused ''rate_limit'' retry
   | TgRuntimeError _ \<Rightarrow> PyExc ''RuntimeError'')"

definition on_limiter :: "tg_config \<Rightarrow> (seconds \<Rightarrow> tg_limiter \<Rightarrow> (tg_error + 'a) \<times> tg_limiter) \<Rightarrow> 'a tg" where
  "on_limiter cfg f s =
     (case get_limiter (tc_max_ops cfg) (tc_window_seconds cfg) (ch_limiters s) of
        (Inl e, reg) \<Rightarrow> (Inl (limiter_exc e), s\<lparr>ch_limiters := reg\<rparr>)
      | (Inr l, reg) \<Rightarrow> (case f (ch_clock s) l of
            (Inl e, l') \<Rightarrow> (Inl (limiter_exc e),
              s\<lparr>ch_limiters := AList.update (tc_max_ops cfg, tc_window_seconds cfg) l' reg\<rparr>)
          | (Inr x, l') \<Rightarrow> (Inr x,
              s\<lparr>ch_limiters := AList.update (tc_max_ops cfg, tc_window_seconds cfg) l' reg\<rparr>)))"

definition OUTBOUND :: str where "OUTBOUND = ''tg:outbound''"

text \<open>\<open>reservation.consume()\<close> and \<open>reservation.close()\<close> on the reservation of the send in progress.\<close>

definition consume_slot :: "tg_config \<Rightarrow> unit tg" where
  "consume_slot cfg =
     hbind (hget ch_res) (\<lambda>res.
     hbind (on_limiter cfg (\<lambda>now l. case consume now res l of (r, res', l') \<Rightarrow> (map_sum id (\<lambda>_. res') r, l'))) (\<lambda>res'.
     hmodify (\<lambda>s. s\<lparr>ch_res := res'\<rparr>)))"

definition close_reservation :: "tg_config \<Rightarrow> unit tg" where
  "close_reservation cfg =
     hbind (hget ch_res) (\<lambda>res.
     hbind (on_limiter cfg (\<lambda>_ l. case close res l of (r, res', l') \<Rightarrow> (map_sum id (\<lambda>_. res') r, l'))) (\<lambda>res'.
     hmodify (\<lambda>s. s\<lparr>ch_res := res'\<rparr>)))"

text \<open>\<open>str.isdigit\<close>: the decimal digits and the superscripts of the first 256 code points.\<close>

definition py_isdigit :: "str \<Rightarrow> bool" where
  "py_isdigit s = (s \<noteq> [] \<and> list_all (\<lambda>c. is_digit c \<or> code c \<in> {178, 179, 185}) s)"

definition payload_chat_id :: "tg_env \<Rightarrow> pyval \<Rightarrow> pyval tg" where
  "payload_chat_id env chat_id =
     (let s = str_of (te_str env) chat_id in
      if py_isdigit (dropWhile (\<lambda>c. c = CHR ''-'') s)
      then (case py_int s of None \<Rightarrow> hraise (PyExc ''ValueError'') | Some i \<Rightarrow> hret (PInt i))
      else hret chat_id)"

definition response_failed :: "int \<Rightarrow> seconds option \<Rightarrow> tg_exc" where
  "response_failed status retry_after =
     RuntimeErr (Some (bot_api_response_is_retryable status)) (bot_api_response_is_fatal status) retry_after"

definition sent_ok :: "int \<Rightarrow> (str \<times> pyval) list \<Rightarrow> bool" where
  "sent_ok status data = (dget data ''ok'' PNone = PBool True \<and> status = 200 \<and>
     (case dget data ''result'' PNone of
        PDict result \<Rightarrow> (case dget result ''message_id'' PNone of PInt _ \<Rightarrow> True | _ \<Rightarrow> False)
      | _ \<Rightarrow> False))"

text \<open>The body of the loop of \<open>_send_one\<close> after the request; \<open>again\<close> is the next attempt (\<open>continue\<close>).\<close>

definition send_response :: "tg_env \<Rightarrow> pyval \<Rightarrow> str \<Rightarrow> str \<Rightarrow> nat \<Rightarrow> nat \<Rightarrow> (pyval \<times> nat) tg \<Rightarrow> reply \<Rightarrow> (pyval \<times> nat) tg" where
  "send_response env chat_id body tok max_retries attempt again resp =
     (let audit = (\<lambda>ok status err. emit (TgOutbound ok (str_of (te_str env) chat_id) (length body) status err)) in
     case resp of
       NetError kind _ \<Rightarrow> hbind (audit False None kind) (\<lambda>_. hraise (RuntimeErr (Some True) False None))
     | Reply status None _ _ _ \<Rightarrow> hbind (audit False (Some status) ''non_json'') (\<lambda>_. hraise (response_failed status None))
     | Reply status (Some (PDict data)) _ _ _ \<Rightarrow>
         hbind (audit (sent_ok status data) (Some status) []) (\<lambda>_.
         if sent_ok status data then hret (PDict data, Suc attempt)
         else if status = 429 then
           hbind (handle_retry_after env data tok attempt max_retries) (\<lambda>(retry, retry_after).
           if retry then again else hraise (response_failed status retry_after))
         else hraise (response_failed status None))
     | Reply status (Some _) _ _ _ \<Rightarrow>
         hbind (audit False (Some status) ''non_object_json'') (\<lambda>_. hraise (response_failed status None)))"

text \<open>The loop of \<open>_send_one\<close>: attempt number and how many attempts are left.\<close>

fun send_attempts :: "tg_env \<Rightarrow> tg_config \<Rightarrow> pyval \<Rightarrow> str \<Rightarrow> str \<Rightarrow> nat \<Rightarrow> nat \<Rightarrow> nat \<Rightarrow> (pyval \<times> nat) tg" where
  "send_attempts env cfg chat_id body tok max_retries attempt 0 = hraise (RuntimeErr (Some True) False None)"
| "send_attempts env cfg chat_id body tok max_retries attempt (Suc left) =
     hbind (payload_chat_id env chat_id) (\<lambda>payload.
     hbind (raise_during_retry_cooldown env tok) (\<lambda>_.
     hbind (consume_slot cfg) (\<lambda>_.
     hbind (request (WireSend payload body))
       (send_response env chat_id body tok max_retries attempt
         (send_attempts env cfg chat_id body tok max_retries (Suc attempt) left)))))"

definition send_one :: "tg_env \<Rightarrow> tg_config \<Rightarrow> pyval \<Rightarrow> str \<Rightarrow> str \<Rightarrow> nat \<Rightarrow> (pyval \<times> nat) tg" where
  "send_one env cfg chat_id body tok max_retries =
     send_attempts env cfg chat_id body tok max_retries 0 (Suc max_retries)"

fun send_pieces :: "tg_env \<Rightarrow> tg_config \<Rightarrow> pyval \<Rightarrow> str \<Rightarrow> int \<Rightarrow> pyval \<Rightarrow> str list \<Rightarrow> pyval tg" where
  "send_pieces env cfg chat_id tok retry_slots sent [] = hret sent"
| "send_pieces env cfg chat_id tok retry_slots sent (piece # pieces) =
     hbind (send_one env cfg chat_id piece tok (if 0 < retry_slots then MAX_RETRIES else 0)) (\<lambda>(sent', attempts).
     send_pieces env cfg chat_id tok (retry_slots - (int attempts - 1)) sent' pieces)"

definition config_exc :: "tg_config_error + 'a \<Rightarrow> tg_exc + 'a" where
  "config_exc r = map_sum ConfigErr id r"

definition reserve_outbound :: "tg_config \<Rightarrow> int \<Rightarrow> int tg" where
  "reserve_outbound cfg n =
     (let retry_slots = min (n * int MAX_RETRIES) (max 0 (tc_max_ops cfg - n)) in
      hbind (on_limiter cfg (\<lambda>now l. reserve_up_to now OUTBOUND n (n + retry_slots) l)) (\<lambda>(res, granted).
      hbind (hmodify (\<lambda>s. s\<lparr>ch_res := res\<rparr>)) (\<lambda>_. hret (granted - n))))"

definition send_message :: "tg_env \<Rightarrow> tg_config \<Rightarrow> pyval \<Rightarrow> str \<Rightarrow> pyval tg" where
  "send_message env cfg chat_id text =
     hbind (hensure (is_chat_allowed (te_str env) cfg chat_id) (Refused ''allowlist'' None)) (\<lambda>_.
     hbind (hlift (of_option (PyExc ''ValueError'') (chunk_text text (tc_max_message_chars cfg)))) (\<lambda>pieces.
     hbind (hensure (pieces \<noteq> []) (Refused ''empty_text'' None)) (\<lambda>_.
     hbind (hlift (config_exc (resolve_bot_token (te_environ env) cfg))) (\<lambda>tok.
     hbind (raise_during_retry_cooldown env tok) (\<lambda>_.
     hbind (reserve_outbound cfg (int (length pieces))) (\<lambda>retry_slots.
     hfinally (send_pieces env cfg chat_id tok retry_slots (PDict []) pieces) (close_reservation cfg)))))))"

section \<open>Health and updates\<close>

definition fetch_loopback_health :: "tg_env \<Rightarrow> str tg" where
  "fetch_loopback_health env =
     hbind (request WireHealth) (\<lambda>resp.
     hret (case resp of
       NetError kind _ \<Rightarrow> ''health unreachable: '' @ kind
     | Reply status None _ _ _ \<Rightarrow> ''health HTTP '' @ int_str status @ '' (non-JSON)''
     | Reply status (Some (PDict data)) _ _ _ \<Rightarrow>
         ''status='' @ str_of (te_str env) (dget data ''status'' (PStr ''?'')) @
         '' mode='' @ str_of (te_str env) (dget data ''mode'' (PStr ''?'')) @
         '' index_ready='' @ str_of (te_str env) (dget data ''index_ready'' PNone) @
         '' graph_ready='' @ str_of (te_str env) (dget data ''graph_ready'' PNone) @
         '' http='' @ int_str status
     | Reply status (Some _) _ _ _ \<Rightarrow> ''health HTTP '' @ int_str status))"

text \<open>A failed \<open>getUpdates\<close>: its details have no \<open>fatal\<close> key.\<close>

definition updates_failed :: "int \<Rightarrow> seconds option \<Rightarrow> tg_exc" where
  "updates_failed status retry_after =
     RuntimeErr (Some (bot_api_response_is_retryable status)) False retry_after"

fun get_updates_attempts :: "tg_env \<Rightarrow> str \<Rightarrow> int option \<Rightarrow> nat \<Rightarrow> nat \<Rightarrow> pyval list tg" where
  "get_updates_attempts env tok offset attempt 0 = hraise (RuntimeErr (Some True) False None)"
| "get_updates_attempts env tok offset attempt (Suc left) =
     hbind (raise_during_retry_cooldown env tok) (\<lambda>_.
     hbind (request (WireUpdates offset)) (\<lambda>resp.
     case resp of
       NetError kind _ \<Rightarrow> hraise (RuntimeErr (Some True) False None)
     | Reply status (Some (PDict data)) _ _ _ \<Rightarrow>
         if dget data ''ok'' PNone = PBool True \<and> status = 200
         then (case dget data ''result'' PNone of PList updates \<Rightarrow> hret updates
               | _ \<Rightarrow> hraise (RuntimeErr (Some True) False None))
         else if status = 429 then
           hbind (handle_retry_after env data tok attempt MAX_RETRIES) (\<lambda>(again, retry_after).
           if again then get_updates_attempts env tok offset (Suc attempt) left
           else hraise (updates_failed status retry_after))
         else hraise (updates_failed status None)
     | Reply status _ _ _ _ \<Rightarrow> hraise (updates_failed status None)))"

definition get_updates :: "tg_env \<Rightarrow> tg_config \<Rightarrow> int option \<Rightarrow> pyval list tg" where
  "get_updates env cfg offset =
     hbind (hlift (config_exc (resolve_bot_token (te_environ env) cfg))) (\<lambda>tok.
     get_updates_attempts env tok offset 0 (Suc MAX_RETRIES))"

section \<open>Files\<close>

fun get_file_attempts :: "tg_env \<Rightarrow> str \<Rightarrow> str \<Rightarrow> nat \<Rightarrow> nat \<Rightarrow> (str \<times> pyval) list tg" where
  "get_file_attempts env tok file_id attempt 0 = hraise (RuntimeErr (Some True) False None)"
| "get_file_attempts env tok file_id attempt (Suc left) =
     hbind (raise_during_retry_cooldown env tok) (\<lambda>_.
     hbind (request (WireGetFile file_id)) (\<lambda>resp.
     case resp of
       NetError kind _ \<Rightarrow> hraise (RuntimeErr (Some True) False None)
     | Reply status (Some (PDict data)) _ _ _ \<Rightarrow>
         (case (dget data ''ok'' PNone = PBool True \<and> status = 200, dget data ''result'' PNone) of
            (True, PDict result) \<Rightarrow>
              (case dget result ''file_path'' PNone of
                 PStr path \<Rightarrow> if py_strip path \<noteq> [] then hret result else hraise (RuntimeErr (Some True) False None)
               | _ \<Rightarrow> hraise (RuntimeErr (Some True) False None))
          | _ \<Rightarrow>
              if status = 429 then
                hbind (handle_retry_after env data tok attempt MAX_RETRIES) (\<lambda>(again, retry_after).
                if again then get_file_attempts env tok file_id (Suc attempt) left
                else hraise (response_failed status retry_after))
              else hraise (response_failed status None))
     | Reply status _ _ _ _ \<Rightarrow> hraise (response_failed status None)))"

definition get_file :: "tg_env \<Rightarrow> tg_config \<Rightarrow> str \<Rightarrow> (str \<times> pyval) list tg" where
  "get_file env cfg file_id =
     hbind (hensure (py_strip file_id \<noteq> []) (Refused ''file_id'' None)) (\<lambda>_.
     hbind (hlift (config_exc (resolve_bot_token (te_environ env) cfg))) (\<lambda>tok.
     get_file_attempts env tok file_id 0 (Suc MAX_RETRIES)))"

text \<open>The body of the stream, chunk by chunk; \<open>None\<close> once the total exceeds the cap.\<close>

fun read_stream :: "int \<Rightarrow> str \<Rightarrow> str list \<Rightarrow> str option" where
  "read_stream max_bytes got [] = Some got"
| "read_stream max_bytes got (chunk # chunks) =
     (if max_bytes < int (length got + length chunk) then None else read_stream max_bytes (got @ chunk) chunks)"

fun download_attempts :: "tg_env \<Rightarrow> str \<Rightarrow> str \<Rightarrow> int \<Rightarrow> nat \<Rightarrow> nat \<Rightarrow> str tg" where
  "download_attempts env tok path max_bytes attempt 0 = hraise (RuntimeErr (Some True) False None)"
| "download_attempts env tok path max_bytes attempt (Suc left) =
     hbind (raise_during_retry_cooldown env tok) (\<lambda>_.
     hbind (request (WireDownload path)) (\<lambda>resp.
     case resp of
       NetError kind _ \<Rightarrow> hraise (RuntimeErr (Some True) False None)
     | Reply status body content_length chunks _ \<Rightarrow>
         if status = 429 then
           hbind (handle_retry_after env (case body of Some (PDict data) \<Rightarrow> data | _ \<Rightarrow> []) tok attempt MAX_RETRIES)
             (\<lambda>(again, retry_after).
           if again then download_attempts env tok path max_bytes (Suc attempt) left
           else hraise (RuntimeErr (Some True) False retry_after))
         else if status \<noteq> 200 then
           hraise (RuntimeErr (Some (http_status_is_retryable status)) (bot_api_response_is_fatal status) None)
         else if (case content_length of None \<Rightarrow> False
                  | Some n \<Rightarrow> (case py_int n of None \<Rightarrow> False | Some declared \<Rightarrow> max_bytes < declared))
         then hraise (Refused ''max_download_bytes'' None)
         else (case read_stream max_bytes [] chunks of None \<Rightarrow> hraise (Refused ''max_download_bytes'' None)
               | Some content \<Rightarrow> hret content)))"

definition download_file :: "tg_env \<Rightarrow> tg_config \<Rightarrow> str \<Rightarrow> int \<Rightarrow> str tg" where
  "download_file env cfg file_path max_bytes =
     hbind (hensure (0 < max_bytes) (PyExc ''ValueError'')) (\<lambda>_.
     hbind (hensure (py_strip file_path \<noteq> []) (Refused ''file_path'' None)) (\<lambda>_.
     hbind (hlift (config_exc (resolve_bot_token (te_environ env) cfg))) (\<lambda>tok.
     hbind (raise_during_retry_cooldown env tok) (\<lambda>_.
     let raw_path = dropWhile (\<lambda>c. c = CHR ''/'') (py_strip file_path) in
     hbind (hensure (raw_path \<noteq> [] \<and> list_all (\<lambda>part. part \<notin> {[], ''.'', ''..''}) (py_split (CHR ''/'') raw_path))
       (Refused ''file_path'' None)) (\<lambda>_.
     download_attempts env tok raw_path max_bytes 0 (Suc MAX_RETRIES))))))"

section \<open>The query\<close>

definition query_failed :: "int \<Rightarrow> tg_exc" where
  "query_failed status = RuntimeErr (Some (http_status_is_retryable status))
     (status \<in> {401, 403, 404} \<or> 200 \<le> status \<and> status < 400) None"

text \<open>What \<open>post_query\<close> does with the reply.\<close>

definition post_query_response :: "tg_env \<Rightarrow> str \<Rightarrow> bool \<Rightarrow> str option \<Rightarrow> reply \<Rightarrow> (str \<times> pyval) list tg" where
  "post_query_response env text user_confirmed_online online_provider resp =
     (case resp of
        NetError kind _ \<Rightarrow> hbind (emit (TgQueryError (te_hash env text) kind)) (\<lambda>_.
          hraise (RuntimeErr (Some True) False None))
      | Reply status body _ _ _ \<Rightarrow>
          let is_dict = (case body of Some (PDict _) \<Rightarrow> True | _ \<Rightarrow> False) in
          hbind (emit (TgQuery (status = 200 \<and> is_dict) status (te_hash env text) user_confirmed_online online_provider)) (\<lambda>_.
          if status \<noteq> 200 then hraise (query_failed status)
          else (case body of Some (PDict data) \<Rightarrow> hret data
                | _ \<Rightarrow> hraise (RuntimeErr (Some True) False None))))"

definition post_query :: "tg_env \<Rightarrow> tg_config \<Rightarrow> str \<Rightarrow> bool \<Rightarrow> str option \<Rightarrow> (str \<times> pyval) list tg" where
  "post_query env cfg query user_confirmed_online online_provider =
     (let text = py_strip query in
      hbind (hensure (text \<noteq> []) (Refused ''empty_query'' None)) (\<lambda>_.
      hbind (hensure (int (length text) \<le> tc_max_message_chars cfg) (Refused ''max_message_chars'' None)) (\<lambda>_.
      hbind (hensure (online_provider \<in> {None, Some ''grok'', Some ''claude''}) (Refused ''online_provider'' None)) (\<lambda>_.
      hbind (hensure (online_provider = None \<or> user_confirmed_online) (Refused ''hybrid_confirm'' None)) (\<lambda>_.
      hbind (request (WireQuery text user_confirmed_online online_provider))
        (post_query_response env text user_confirmed_online online_provider))))))"

end
