(* ===== verification/Telegram_Media.thy ===== *)
theory Telegram_Media
  imports Telegram_Client
begin

text \<open>
  Staging of attachments, \<open>telegram/media.py\<close>: the caption that confirms a save, the choice of
  the attachment, the gates on the \<open>fsconnect\<close> configuration, and the bounded download handed
  to the \<open>fsconnect\<close> command line. The subprocess is one request of the channel: its exit code
  and its JSON output are the reply (\<open>NetError\<close> is a time-out or a process that did not start).
  Resolved paths are the lists of their parts, from \<open>te_resolve\<close>. The read roots, a set in the
  code, are checked in the order of the configuration.
\<close>

section \<open>Captions and attachments\<close>

text \<open>\<open>s.split(maxsplit=n)\<close> on white space: at most \<open>n\<close> words and the rest of the string.\<close>

fun split_ws :: "nat \<Rightarrow> str \<Rightarrow> str list" where
  "split_ws 0 s = (let t = py_lstrip s in if t = [] then [] else [t])"
| "split_ws (Suc n) s = (let t = py_lstrip s in
     if t = [] then [] else takeWhile (\<lambda>c. \<not> py_isspace c) t # split_ws n (dropWhile (\<lambda>c. \<not> py_isspace c) t))"

definition save_confirmation :: "pyval \<Rightarrow> str option" where
  "save_confirmation caption = (case caption of
     PStr text \<Rightarrow> (case split_ws 2 (py_strip text) of
         [command, confirm_flag, reason] \<Rightarrow>
           if \<not> py_startswith (py_lower command) ''/save'' then None
           else if py_lower command \<noteq> ''/save'' \<and> \<not> py_startswith (py_lower command) ''/save@'' then None
           else if confirm_flag \<noteq> ''--confirm'' \<or> py_strip reason = [] then None
           else Some (py_strip reason)
       | _ \<Rightarrow> None)
   | _ \<Rightarrow> None)"

record attachment =
  at_kind :: str
  at_file_id :: str
  at_declared_size :: "int option"

definition optional_file_size :: "pyval \<Rightarrow> int option" where
  "optional_file_size v = (case v of PInt i \<Rightarrow> if i < 0 then None else Some i | _ \<Rightarrow> None)"

definition usable_file_id :: "pyval \<Rightarrow> str option" where
  "usable_file_id v = (case v of PStr s \<Rightarrow> if py_strip s = [] then None else Some s | _ \<Rightarrow> None)"

text \<open>The candidate tuples of the photos with their index, and \<open>max\<close> over them: the largest size, then the last.\<close>

fun photo_candidates :: "nat \<Rightarrow> pyval list \<Rightarrow> (int \<times> nat \<times> str \<times> int option) list" where
  "photo_candidates i [] = []"
| "photo_candidates i (photo # photos) = (case photo of
     PDict d \<Rightarrow> (case usable_file_id (dget d ''file_id'' PNone) of
         None \<Rightarrow> photo_candidates (Suc i) photos
       | Some file_id \<Rightarrow> let file_size = optional_file_size (dget d ''file_size'' PNone) in
           (oget file_size (-1), i, file_id, file_size) # photo_candidates (Suc i) photos)
   | _ \<Rightarrow> photo_candidates (Suc i) photos)"

fun largest :: "(int \<times> nat \<times> 'a) \<Rightarrow> (int \<times> nat \<times> 'a) list \<Rightarrow> (int \<times> nat \<times> 'a)" where
  "largest m [] = m"
| "largest m (c # cs) =
     largest (if fst m < fst c \<or> fst m = fst c \<and> fst (snd m) < fst (snd c) then c else m) cs"

definition attachment_from_message :: "(str \<times> pyval) list \<Rightarrow> attachment option" where
  "attachment_from_message message =
     (case (case dget message ''document'' PNone of
              PDict d \<Rightarrow> (case usable_file_id (dget d ''file_id'' PNone) of
                  None \<Rightarrow> None
                | Some file_id \<Rightarrow> Some \<lparr>at_kind = ''document'', at_file_id = file_id,
                    at_declared_size = optional_file_size (dget d ''file_size'' PNone)\<rparr>)
            | _ \<Rightarrow> None) of
        Some a \<Rightarrow> Some a
      | None \<Rightarrow> (case dget message ''photo'' PNone of
          PList photos \<Rightarrow> (case photo_candidates 0 photos of
              [] \<Rightarrow> None
            | c # cs \<Rightarrow> (case largest c cs of (_, _, file_id, file_size) \<Rightarrow>
                Some \<lparr>at_kind = ''photo'', at_file_id = file_id, at_declared_size = file_size\<rparr>))
        | _ \<Rightarrow> None))"

section \<open>The fsconnect gates\<close>

definition configured_writable_roots :: "(str \<times> pyval) list \<Rightarrow> str list" where
  "configured_writable_roots fsconnect = (case dget fsconnect ''writable_roots'' PNone of
     PList entries \<Rightarrow> concat (map (\<lambda>entry. case entry of
         PStr s \<Rightarrow> if py_strip s \<noteq> [] then [py_strip s] else []
       | PDict d \<Rightarrow> (case dget d ''path'' PNone of PStr s \<Rightarrow> if py_strip s \<noteq> [] then [py_strip s] else [] | _ \<Rightarrow> [])
       | _ \<Rightarrow> []) entries)
   | _ \<Rightarrow> [])"

fun read_root_entries :: "pyval list \<Rightarrow> tg_exc + str list" where
  "read_root_entries [] = Inr []"
| "read_root_entries (entry # entries) = (case entry of
     PStr s \<Rightarrow> if py_strip s = [] then Inl (Refused ''fsconnect_allowed_roots'' None)
               else ebind (read_root_entries entries) (\<lambda>roots. Inr (py_strip s # roots))
   | _ \<Rightarrow> Inl (Refused ''fsconnect_allowed_roots'' None))"

definition configured_read_roots :: "(str \<times> pyval) list \<Rightarrow> tg_exc + str list" where
  "configured_read_roots fsconnect = (case dget fsconnect ''allowed_roots'' (PList []) of
     PList entries \<Rightarrow> read_root_entries entries
   | _ \<Rightarrow> Inl (Refused ''fsconnect_allowed_roots'' None))"

definition resolved_root :: "tg_env \<Rightarrow> str \<Rightarrow> tg_exc + str list" where
  "resolved_root env path = of_option (Refused ''fsconnect_root'' None) (te_resolve env path)"

definition paths_overlap :: "str list \<Rightarrow> str list \<Rightarrow> bool" where
  "paths_overlap left right = (left = right \<or> strict_prefix left right \<or> strict_prefix right left)"

fun no_overlap :: "tg_env \<Rightarrow> str list \<Rightarrow> str list \<Rightarrow> tg_exc + unit" where
  "no_overlap env media_root [] = Inr ()"
| "no_overlap env media_root (read_root # read_roots) =
     ebind (resolved_root env read_root) (\<lambda>resolved.
     ebind (ensure (\<not> paths_overlap media_root resolved) (Refused ''fsconnect_root_overlap'' None)) (\<lambda>_.
     no_overlap env media_root read_roots))"

definition SAFETY_GATES :: "str list" where
  "SAFETY_GATES = [''enabled'', ''writes_enabled'', ''strict_roots'', ''scan_content'', ''block_on_injection_flags'']"

definition safety_gate :: "(str \<times> pyval) list \<Rightarrow> tg_exc + unit" where
  "safety_gate fsconnect = (case find (\<lambda>key. dget fsconnect key PNone \<noteq> PBool True) SAFETY_GATES of
     None \<Rightarrow> Inr () | Some key \<Rightarrow> Inl (Refused (''fsconnect_'' @ key) None))"

definition media_cap :: "tg_env \<Rightarrow> tg_config \<Rightarrow> tg_exc + int" where
  "media_cap env cfg =
     (case te_config env of None \<Rightarrow> Inl (RuntimeErr (Some False) False None)
      | Some root_cfg \<Rightarrow>
     ebind (case root_cfg of PDict d \<Rightarrow> (case dget d ''fsconnect'' PNone of PDict fs \<Rightarrow> Inr fs
              | _ \<Rightarrow> Inl (Refused ''fsconnect_config'' None))
            | _ \<Rightarrow> Inl (Refused ''fsconnect_config'' None)) (\<lambda>fsconnect.
     ebind (safety_gate fsconnect) (\<lambda>_.
     ebind (ensure (tc_fsconnect_root cfg \<in> set (configured_writable_roots fsconnect)) (Refused ''fsconnect_root'' None)) (\<lambda>_.
     ebind (resolved_root env (tc_fsconnect_root cfg)) (\<lambda>media_root.
     ebind (ensure (\<not> paths_overlap media_root (te_repo env) \<and>
                    \<not> paths_overlap media_root (te_corpus env))
       (Refused ''fsconnect_root_scope'' None)) (\<lambda>_.
     ebind (configured_read_roots fsconnect) (\<lambda>read_roots.
     ebind (no_overlap env media_root read_roots) (\<lambda>_.
     ebind (case dget fsconnect ''write_rate_limit'' PNone of
              PDict d \<Rightarrow> ensure (dget d ''enabled'' PNone = PBool True) (Refused ''fsconnect_write_rate_limit'' None)
            | _ \<Rightarrow> Inl (Refused ''fsconnect_write_rate_limit'' None)) (\<lambda>_.
     case dget fsconnect ''max_write_bytes'' PNone of
       PInt max_write_bytes \<Rightarrow>
         if max_write_bytes \<le> 0 then Inl (Refused ''fsconnect_max_write_bytes'' None)
         else Inr (min (min (tc_max_download_bytes cfg) max_write_bytes) MAX_TELEGRAM_CLOUD_DOWNLOAD_BYTES)
     | _ \<Rightarrow> Inl (Refused ''fsconnect_max_write_bytes'' None))))))))))"

section \<open>Staging\<close>

definition safe_target :: "tg_env \<Rightarrow> int \<Rightarrow> attachment \<Rightarrow> str" where
  "safe_target env update_id a =
     ''telegram_'' @ int_str update_id @ ''_'' @ take 20 (te_hash env (at_file_id a)) @
     (if at_kind a = ''photo'' then ''.jpg'' else ''.bin'')"

definition run_fsconnect_write :: "tg_config \<Rightarrow> str \<Rightarrow> str \<Rightarrow> unit tg" where
  "run_fsconnect_write cfg target content =
     hbind (request (WireWrite (tc_fsconnect_root cfg) target content)) (\<lambda>resp.
     case resp of
       NetError _ _ \<Rightarrow> hraise (RuntimeErr (Some False) False None)
     | Reply returncode out _ _ _ \<Rightarrow>
         if returncode = 4 then hraise (Refused ''fsconnect_write'' None)
         else if returncode \<noteq> 0 then hraise (RuntimeErr (Some False) False None)
         else (case out of
             Some (PDict d) \<Rightarrow> hensure (dget d ''status'' PNone = PStr ''applied'' \<and> dget d ''executed'' PNone = PBool True)
               (RuntimeErr (Some False) False None)
           | _ \<Rightarrow> hraise (RuntimeErr (Some False) False None)))"

text \<open>A refusal that is audited before it is raised again.\<close>

definition audit_refusal :: "tg_env \<Rightarrow> pyval \<Rightarrow> int \<Rightarrow> str \<Rightarrow> str \<Rightarrow> unit tg" where
  "audit_refusal env chat_id update_id gate kind =
     emit (TgMediaRefused (str_of (te_str env) chat_id) update_id kind gate)"

definition refuse_media :: "tg_env \<Rightarrow> pyval \<Rightarrow> int \<Rightarrow> str \<Rightarrow> str \<Rightarrow> 'a tg" where
  "refuse_media env chat_id update_id gate kind =
     hbind (audit_refusal env chat_id update_id gate kind) (\<lambda>_. hraise (Refused gate None))"

definition audited :: "tg_env \<Rightarrow> pyval \<Rightarrow> int \<Rightarrow> str \<Rightarrow> 'a tg \<Rightarrow> 'a tg" where
  "audited env chat_id update_id kind act =
     hcatch act (\<lambda>e. case e of
         Refused gate _ \<Rightarrow> hbind (audit_refusal env chat_id update_id
           (if py_strip gate = [] then ''media_download'' else gate) kind) (\<lambda>_. hraise e)
       | _ \<Rightarrow> hraise e)"

definition size_allowed :: "int option \<Rightarrow> int \<Rightarrow> bool" where
  "size_allowed declared cap = (case declared of None \<Rightarrow> True | Some n \<Rightarrow> n \<le> cap)"

definition stage_attachment :: "tg_env \<Rightarrow> tg_config \<Rightarrow> pyval \<Rightarrow> str \<Rightarrow> int \<Rightarrow> attachment \<Rightarrow> str \<Rightarrow> str tg" where
  "stage_attachment env cfg chat_id chat_type update_id a confirmation =
     (let refuse = (\<lambda>gate. refuse_media env chat_id update_id gate (at_kind a)) in
      hbind (hensure (tc_enabled cfg) (Refused ''enabled'' None)) (\<lambda>_.
      hbind (hensure (tc_mode cfg = ''chat'') (Refused ''mode'' None)) (\<lambda>_.
      if \<not> is_chat_allowed (te_str env) cfg chat_id then refuse ''allowlist''
      else if chat_type \<noteq> ''private'' then refuse ''private_chat''
      else if \<not> tc_media_enabled cfg then refuse ''media_enabled''
      else if update_id < 0 then hraise (Refused ''update_id'' None)
      else if py_strip confirmation = [] then refuse ''media_confirm''
      else hbind (audited env chat_id update_id (at_kind a) (hlift (media_cap env cfg))) (\<lambda>cap.
      if \<not> size_allowed (at_declared_size a) cap then refuse ''max_download_bytes''
      else hbind (emit (TgMediaStageRequested (str_of (te_str env) chat_id) update_id (at_kind a) cap)) (\<lambda>_.
      hbind (get_file env cfg (at_file_id a)) (\<lambda>descriptor.
      if \<not> size_allowed (optional_file_size (dget descriptor ''file_size'' PNone)) cap then refuse ''max_download_bytes''
      else (case dget descriptor ''file_path'' PNone of
          PStr file_path \<Rightarrow>
            hbind (audited env chat_id update_id (at_kind a)
              (hbind (download_file env cfg file_path cap) (\<lambda>content.
               hbind (hensure (int (length content) \<le> cap) (Refused ''max_download_bytes'' None)) (\<lambda>_.
               hbind (run_fsconnect_write cfg (safe_target env update_id a) content) (\<lambda>_. hret content))))) (\<lambda>content.
            hbind (emit (TgMediaStaged (str_of (te_str env) chat_id) update_id (at_kind a)
                (safe_target env update_id a) (length content))) (\<lambda>_.
            hret (safe_target env update_id a)))
        | _ \<Rightarrow> hraise (RuntimeErr (Some True) False None))))))))"

end
