(* ===== verification/Telegram_Channel.thy ===== *)
theory Telegram_Channel
  imports Telegram_Media
begin

text \<open>
  The runner of the Telegram channel, \<open>telegram/runner.py\<close>: notifications, the reserved
  commands, the handler of inbound texts with the one-time consent to an online provider, the
  handler of attachments, one batch of updates and the poll loop. The loop of \<open>poll_forever\<close>
  is run for \<open>max_iterations\<close> batches; what holds for every number of batches holds at every
  point of the unbounded loop of production. Results are what the callers read of the
  returned dictionaries.
\<close>

section \<open>Answers and commands\<close>

definition nonblank :: "pyval \<Rightarrow> str option" where
  "nonblank v = (case v of PStr s \<Rightarrow> if py_strip s = [] then None else Some s | _ \<Rightarrow> None)"

fun first_nonblank :: "pyval list \<Rightarrow> str option" where
  "first_nonblank [] = None"
| "first_nonblank (v # vs) = (case nonblank v of Some s \<Rightarrow> Some s | None \<Rightarrow> first_nonblank vs)"

definition nested_answer :: "(str \<times> pyval) list \<Rightarrow> str \<Rightarrow> pyval" where
  "nested_answer response nest = (case dget response nest PNone of PDict inner \<Rightarrow> dget inner ''answer'' PNone | _ \<Rightarrow> PNone)"

definition extract_answer :: "(str \<times> pyval) list \<Rightarrow> str" where
  "extract_answer response =
     (case first_nonblank (map (\<lambda>k. dget response k PNone) [''answer'', ''response'', ''text'', ''output''] @
        map (nested_answer response) [''data'', ''result'']) of
        Some s \<Rightarrow> s
      | None \<Rightarrow> (case nonblank (dget response ''error'' PNone) of
          Some err \<Rightarrow> ''(error) '' @ py_strip err
        | None \<Rightarrow> ''(no answer field in /query response)''))"

definition HELP_TEXT :: str where
  "HELP_TEXT = py_join [CHR 0x0A] [''CyClaw Telegram channel'',
     ''/help '' @ [CHR 0x97] @ '' this text'',
     ''/status '' @ [CHR 0x97] @ '' loopback CyClaw /health'',
     ''/id '' @ [CHR 0x97] @ '' your chat id'',
     ''/online on <grok|claude> '' @ [CHR 0x97] @
       '' one explicit external fallback for your next private-chat message only'',
     ''Anything else '' @ [CHR 0x98] @ '' local RAG via POST /query (mode=chat).'',
     ''Media staging requires a private-chat photo/document captioned /save --confirm <reason>.'']"

definition COMMANDS :: "str list" where
  "COMMANDS = [''help'', ''status'', ''id'', ''online'', ''save'']"

text \<open>
  What may follow the name of a command: \<open>(?:@\S+)?(?:\s|$)\<close> leaves the text after the bot name.
\<close>

definition after_bot_name :: "str \<Rightarrow> str option" where
  "after_bot_name rest = (case rest of
     [] \<Rightarrow> Some []
   | c # cs \<Rightarrow> if py_isspace c then Some rest
       else if c = CHR ''@'' \<and> takeWhile (\<lambda>d. \<not> py_isspace d) cs \<noteq> []
       then Some (dropWhile (\<lambda>d. \<not> py_isspace d) cs) else None)"

definition strip_command :: "str \<Rightarrow> str \<Rightarrow> str option" where
  "strip_command cmd text =
     (if py_startswith (py_lower text) (CHR ''/'' # cmd) then after_bot_name (drop (Suc (length cmd)) text) else None)"

definition command_of :: "str \<Rightarrow> str option" where
  "command_of text = find (\<lambda>cmd. strip_command cmd (py_strip text) \<noteq> None) COMMANDS"

text \<open>The words after \<open>/online\<close>; the pattern's dot excludes line feeds.\<close>

definition online_args :: "str \<Rightarrow> str list" where
  "online_args text = (case strip_command ''online'' (py_strip text) of
     Some rest \<Rightarrow> let args = py_lstrip rest in
       if CHR 0x0A \<in> set args then [] else split_ws (length args) args
   | None \<Rightarrow> [])"

definition hybrid_disabled_reply :: str where
  "hybrid_disabled_reply = ''Hybrid confirmation is disabled by telegram.allow_hybrid_confirm.''"

definition private_only_reply :: str where
  "private_only_reply = ''Hybrid confirmation (/online) is private-chat only. Use a 1:1 DM with the bot, not a group.''"

definition online_usage_reply :: str where
  "online_usage_reply = ''Usage: /online on <grok|claude> (one next private-chat message only).''"

definition armed_reply :: "str \<Rightarrow> int \<Rightarrow> str" where
  "armed_reply provider ttl = ''One '' @ provider @
     '' confirmation is armed for your next non-command private message for up to '' @ int_str ttl @ '' seconds.''"

definition online_provider_arg :: "str list \<Rightarrow> str option" where
  "online_provider_arg args = (case args of
     [switch, provider] \<Rightarrow> if py_lower switch = ''on'' \<and> py_lower provider \<in> set ONLINE_PROVIDERS
       then Some (py_lower provider) else None
   | _ \<Rightarrow> None)"

definition online_command :: "tg_env \<Rightarrow> tg_config \<Rightarrow> pyval \<Rightarrow> str \<Rightarrow> str \<Rightarrow> str tg" where
  "online_command env cfg chat_id chat_type text =
     (if \<not> tc_allow_hybrid_confirm cfg then hret hybrid_disabled_reply
      else if chat_type \<noteq> ''private'' then
        hbind (emit (TgHybridRefused (str_of (te_str env) chat_id) chat_type)) (\<lambda>_. hret private_only_reply)
      else (case online_provider_arg (online_args text) of
          None \<Rightarrow> hret online_usage_reply
        | Some provider \<Rightarrow>
            hbind (grant_hybrid_confirm env chat_id provider (tc_hybrid_confirm_ttl_sec cfg)) (\<lambda>until.
            hbind (emit (TgHybridGranted (str_of (te_str env) chat_id) provider (tc_hybrid_confirm_ttl_sec cfg) until)) (\<lambda>_.
            hret (armed_reply provider (tc_hybrid_confirm_ttl_sec cfg))))))"

definition save_reply :: str where
  "save_reply = ''Attach a photo or document with caption: /save --confirm <reason>''"

definition dispatch_command :: "tg_env \<Rightarrow> tg_config \<Rightarrow> pyval \<Rightarrow> str \<Rightarrow> str \<Rightarrow> str option tg" where
  "dispatch_command env cfg chat_id chat_type text =
     (case command_of text of None \<Rightarrow> hret None
      | Some cmd \<Rightarrow>
          if cmd = ''help'' then hret (Some HELP_TEXT)
          else if cmd = ''id'' then hret (Some (''chat_id='' @ str_of (te_str env) chat_id))
          else if cmd = ''status'' then hbind (fetch_loopback_health env) (\<lambda>reply. hret (Some reply))
          else if cmd = ''online'' then hbind (online_command env cfg chat_id chat_type text) (\<lambda>reply. hret (Some reply))
          else hret (Some save_reply))"

section \<open>Handlers\<close>

datatype handled =
    HCommand str
  | HAnswer str
  | HMedia str
  | HError str str bool "seconds option"

definition send_notify :: "tg_env \<Rightarrow> tg_config \<Rightarrow> pyval \<Rightarrow> str \<Rightarrow> pyval tg" where
  "send_notify env cfg chat_id text =
     hbind (hensure (tc_enabled cfg) (Refused ''enabled'' None)) (\<lambda>_. send_message env cfg chat_id text)"

definition inbound_key :: "tg_env \<Rightarrow> pyval \<Rightarrow> str" where
  "inbound_key env chat_id = ''tg:inbound:'' @ str_of (te_str env) chat_id"

text \<open>The gates both handlers start with.\<close>

definition inbound_gates :: "tg_env \<Rightarrow> tg_config \<Rightarrow> pyval \<Rightarrow> int option \<Rightarrow> unit tg" where
  "inbound_gates env cfg chat_id update_id =
     hbind (hensure (tc_enabled cfg) (Refused ''enabled'' None)) (\<lambda>_.
     hbind (hensure (tc_mode cfg = ''chat'') (Refused ''mode'' None)) (\<lambda>_.
     if \<not> is_chat_allowed (te_str env) cfg chat_id
     then hbind (emit (TgInboundRefused (str_of (te_str env) chat_id) update_id)) (\<lambda>_. hraise (Refused ''allowlist'' None))
     else on_limiter cfg (\<lambda>now. check now (inbound_key env chat_id) 1)))"

text \<open>The claim of a consent with its audit events.\<close>

definition claim_consent :: "tg_env \<Rightarrow> tg_config \<Rightarrow> pyval \<Rightarrow> str \<Rightarrow> int option \<Rightarrow> str option tg" where
  "claim_consent env cfg chat_id chat_type update_id =
     (if tc_allow_hybrid_confirm cfg \<and> chat_type = ''private''
      then hbind (hcatch (claim_hybrid_confirm env chat_id) (\<lambda>e. case e of
             RuntimeErr _ _ _ \<Rightarrow> hbind (emit (TgHybridStateError (str_of (te_str env) chat_id) update_id)) (\<lambda>_. hraise e)
           | _ \<Rightarrow> hraise e)) (\<lambda>claimed.
         case claimed of None \<Rightarrow> hret None
         | Some provider \<Rightarrow>
             hbind (emit (TgHybridConsumed (str_of (te_str env) chat_id) update_id provider)) (\<lambda>_. hret claimed))
      else hret None)"

definition deliver_answer :: "tg_env \<Rightarrow> tg_config \<Rightarrow> pyval \<Rightarrow> int option \<Rightarrow> str option \<Rightarrow> str \<Rightarrow> pyval tg" where
  "deliver_answer env cfg chat_id update_id online_provider answer =
     hcatch (send_message env cfg chat_id answer) (\<lambda>e. case (e, online_provider) of
         (RuntimeErr _ _ _, Some provider) \<Rightarrow>
           hbind (emit (TgUndelivered (str_of (te_str env) chat_id) update_id provider)) (\<lambda>_. hraise e)
       | _ \<Rightarrow> hraise e)"

definition handle_inbound_text :: "tg_env \<Rightarrow> tg_config \<Rightarrow> pyval \<Rightarrow> str \<Rightarrow> int option \<Rightarrow> str \<Rightarrow> handled tg" where
  "handle_inbound_text env cfg chat_id text update_id chat_type =
     hbind (inbound_gates env cfg chat_id update_id) (\<lambda>_.
     hbind (emit (TgInbound (str_of (te_str env) chat_id) update_id (te_hash env text) (length text))) (\<lambda>_.
     hbind (dispatch_command env cfg chat_id chat_type text) (\<lambda>cmd_reply.
     case cmd_reply of
       Some reply \<Rightarrow> hbind (send_message env cfg chat_id reply) (\<lambda>_. hret (HCommand reply))
     | None \<Rightarrow>
         hbind (claim_consent env cfg chat_id chat_type update_id) (\<lambda>online_provider.
         hbind (post_query env cfg text (online_provider \<noteq> None) online_provider) (\<lambda>result.
         let answer = extract_answer result in
         hbind (deliver_answer env cfg chat_id update_id online_provider answer) (\<lambda>_.
         hret (HAnswer answer)))))))"

definition media_reply :: str where
  "media_reply = ''Attachment staged in the configured local fsconnect root.''"

definition handle_inbound_media :: "tg_env \<Rightarrow> tg_config \<Rightarrow> pyval \<Rightarrow> str \<Rightarrow> attachment \<Rightarrow> pyval \<Rightarrow> int \<Rightarrow> handled tg" where
  "handle_inbound_media env cfg chat_id chat_type a caption update_id =
     hbind (inbound_gates env cfg chat_id (Some update_id)) (\<lambda>_.
     hbind (emit (TgMediaInbound (str_of (te_str env) chat_id) update_id (at_kind a) (save_confirmation caption \<noteq> None))) (\<lambda>_.
     case save_confirmation caption of
       None \<Rightarrow> refuse_media env chat_id update_id ''media_confirm'' (at_kind a)
     | Some confirmation \<Rightarrow>
         hbind (stage_attachment env cfg chat_id chat_type update_id a confirmation) (\<lambda>_.
         hbind (send_message env cfg chat_id media_reply) (\<lambda>_.
         hret (HMedia media_reply)))))"

section \<open>Updates\<close>

text \<open>
  \<open>_message_from_update\<close>: chat, text and chat type of a new text message. The outer \<open>None\<close> is the
  \<open>AttributeError\<close> of a chat that is a value without \<open>get\<close>.
\<close>

definition message_from_update :: "(str \<times> pyval) list \<Rightarrow> (pyval \<times> str \<times> str) option option" where
  "message_from_update update = (case dget update ''message'' PNone of
     PDict msg \<Rightarrow> (case or_empty (dget msg ''chat'' PNone) of
         PDict chat \<Rightarrow> Some (let chat_id = dget chat ''id'' PNone in
           (case nonblank (dget msg ''text'' PNone) of
              Some text \<Rightarrow> if chat_id = PNone then None
                else Some (chat_id, py_strip text, (case dget chat ''type'' PNone of PStr t \<Rightarrow> t | _ \<Rightarrow> []))
            | None \<Rightarrow> None))
       | _ \<Rightarrow> None)
   | _ \<Rightarrow> Some None)"

definition media_from_update :: "(str \<times> pyval) list \<Rightarrow> (pyval \<times> str \<times> attachment \<times> pyval) option" where
  "media_from_update update = (case dget update ''message'' PNone of
     PDict msg \<Rightarrow> (case dget msg ''chat'' PNone of
         PDict chat \<Rightarrow> (case dget chat ''type'' PNone of
             PStr chat_type \<Rightarrow> if dget chat ''id'' PNone = PNone then None
               else (case attachment_from_message msg of None \<Rightarrow> None
                 | Some a \<Rightarrow> Some (dget chat ''id'' PNone, chat_type, a, dget msg ''caption'' PNone))
           | _ \<Rightarrow> None)
       | _ \<Rightarrow> None)
   | _ \<Rightarrow> None)"

text \<open>\<open>isinstance(uid, int)\<close>, which holds of booleans too.\<close>

definition int_of :: "pyval \<Rightarrow> int option" where
  "int_of v = (case v of PInt i \<Rightarrow> Some i | PBool b \<Rightarrow> Some (if b then 1 else 0) | _ \<Rightarrow> None)"

definition ack :: "pyval \<Rightarrow> int option \<Rightarrow> int option" where
  "ack uid offset = (case int_of uid of Some i \<Rightarrow> Some (i + 1) | None \<Rightarrow> offset)"

text \<open>
  One update: what the loop body does with it. \<open>Skip\<close> acknowledges without a handler, \<open>Done\<close>
  with a result, \<open>Stop\<close> ends the batch and leaves the update unacknowledged.
\<close>

datatype update_verdict = Skip | Done handled | Stop handled

definition chat_of :: "(str \<times> pyval) list \<Rightarrow> pyval" where
  "chat_of update = (case message_from_update update of
     Some (Some (chat_id, _, _)) \<Rightarrow> chat_id
   | _ \<Rightarrow> (case media_from_update update of Some (chat_id, _, _, _) \<Rightarrow> chat_id | None \<Rightarrow> PNone))"

definition run_handler :: "tg_env \<Rightarrow> tg_config \<Rightarrow> (str \<times> pyval) list \<Rightarrow> handled option tg" where
  "run_handler env cfg update =
     (let uid = dget update ''update_id'' PNone in
      case message_from_update update of
        None \<Rightarrow> hraise (PyExc ''AttributeError'')
      | Some (Some (chat_id, text, chat_type)) \<Rightarrow>
          hbind (handle_inbound_text env cfg chat_id text (int_of uid) chat_type) (\<lambda>h. hret (Some h))
      | Some None \<Rightarrow> (case media_from_update update of
          None \<Rightarrow> hret None
        | Some (chat_id, chat_type, a, caption) \<Rightarrow>
            (case uid of
               PInt i \<Rightarrow> hbind (handle_inbound_media env cfg chat_id chat_type a caption i) (\<lambda>h. hret (Some h))
             | _ \<Rightarrow> hraise (Refused ''update_id'' None))))"

definition one_update :: "tg_env \<Rightarrow> tg_config \<Rightarrow> (str \<times> pyval) list \<Rightarrow> update_verdict tg" where
  "one_update env cfg update =
     hcatch
       (hbind (run_handler env cfg update) (\<lambda>h. hret (case h of None \<Rightarrow> Skip | Some r \<Rightarrow> Done r)))
       (\<lambda>e. let chat = str_of (te_str env) (chat_of update) in case e of
          Refused gate retry_after \<Rightarrow>
            hret (if gate = ''rate_limit'' then Stop (HError ''TELEGRAM_REFUSED'' chat True retry_after)
                  else Done (HError ''TELEGRAM_REFUSED'' chat False None))
        | RuntimeErr retryable fatal retry_after \<Rightarrow>
            if fatal then hraise e
            else hret (if retryable \<noteq> Some False
              then Stop (HError ''TELEGRAM_RUNTIME_ERROR'' chat True retry_after)
              else Done (HError ''TELEGRAM_RUNTIME_ERROR'' chat False retry_after))
        | _ \<Rightarrow> hraise e)"

fun poll_updates :: "tg_env \<Rightarrow> tg_config \<Rightarrow> int option \<Rightarrow> handled list \<Rightarrow> pyval list \<Rightarrow> (int option \<times> handled list) tg" where
  "poll_updates env cfg next_offset acc [] = hret (next_offset, acc)"
| "poll_updates env cfg next_offset acc (upd # updates) = (case upd of
     PDict update \<Rightarrow>
       hbind (one_update env cfg update) (\<lambda>v. case v of
         Skip \<Rightarrow> poll_updates env cfg (ack (dget update ''update_id'' PNone) next_offset) acc updates
       | Done h \<Rightarrow> poll_updates env cfg (ack (dget update ''update_id'' PNone) next_offset) (acc @ [h]) updates
       | Stop h \<Rightarrow> hret (next_offset, acc @ [h]))
   | _ \<Rightarrow> poll_updates env cfg next_offset acc updates)"

definition poll_once :: "tg_env \<Rightarrow> tg_config \<Rightarrow> int option \<Rightarrow> (int option \<times> handled list) tg" where
  "poll_once env cfg offset =
     hbind (hensure (tc_enabled cfg) (Refused ''enabled'' None)) (\<lambda>_.
     hbind (hensure (tc_mode cfg = ''chat'') (Refused ''mode'' None)) (\<lambda>_.
     hbind (get_updates env cfg offset) (\<lambda>updates.
     poll_updates env cfg offset [] updates)))"

section \<open>The poll loop\<close>

definition POLL_RETRY_SLEEP_CAP :: seconds where "POLL_RETRY_SLEEP_CAP = 60"

definition retry_delay :: "seconds \<Rightarrow> seconds option \<Rightarrow> seconds" where
  "retry_delay delay retry_after = (case retry_after of
     Some r \<Rightarrow> if 0 \<le> r then max delay (min r POLL_RETRY_SLEEP_CAP) else delay
   | None \<Rightarrow> delay)"

lemma save_offset_OSErr: "save_offset offset s = (Inl OSErr, t) \<Longrightarrow> ch_disk s \<noteq> [] \<and> ch_disk t = tl (ch_disk s)"
  by (auto simp: save_offset_def hbind_def hensure_def handler_simps disk_def save_file_def split: list.splits if_splits)

text \<open>
  Writing the offset until it is durable: each failure is audited and followed by a pause. The
  loop ends because only the failures the disk has in store repeat it.
\<close>

function persist_offset :: "seconds \<Rightarrow> int \<Rightarrow> unit tg" where
  "persist_offset pause offset s =
     (case save_offset offset s of
        (Inl OSErr, t) \<Rightarrow> persist_offset pause offset (snd (sleep pause (snd (emit (TgOffsetPersistFailed offset) t))))
      | (Inl e, t) \<Rightarrow> (Inl e, t)
      | (Inr x, t) \<Rightarrow> (Inr x, t))"
  by pat_completeness auto
termination
  by (relation "measure (\<lambda>(_, _, s). length (ch_disk s))")
    (auto dest!: save_offset_OSErr [OF sym] simp: sleep_def emit_def handler_simps)

declare persist_offset.simps [simp del]

fun batch_delay :: "seconds \<Rightarrow> handled list \<Rightarrow> seconds option" where
  "batch_delay pause [] = None"
| "batch_delay pause (h # hs) = (case h of
     HError _ _ True retry_after \<Rightarrow> Some (max (retry_delay pause retry_after) (oget (batch_delay pause hs) pause))
   | _ \<Rightarrow> batch_delay pause hs)"

definition advance_offset :: "seconds \<Rightarrow> int option \<Rightarrow> int option \<Rightarrow> int option tg" where
  "advance_offset pause offset new_offset = (case new_offset of
     Some o' \<Rightarrow> if new_offset \<noteq> offset then hbind (persist_offset pause o') (\<lambda>_. hret new_offset) else hret offset
   | None \<Rightarrow> hret offset)"

definition poll_batch :: "tg_env \<Rightarrow> tg_config \<Rightarrow> seconds \<Rightarrow> int option \<Rightarrow> int option tg" where
  "poll_batch env cfg pause offset =
     hcatch
       (hbind (poll_once env cfg offset) (\<lambda>(new_offset, results).
        hbind (advance_offset pause offset new_offset) (\<lambda>offset'.
        hbind (case batch_delay pause results of None \<Rightarrow> hret () | Some d \<Rightarrow> sleep d) (\<lambda>_.
        hret offset'))))
       (\<lambda>e. case e of
          RuntimeErr retryable _ retry_after \<Rightarrow>
            if retryable = Some False then hraise e
            else hbind (sleep (retry_delay pause retry_after)) (\<lambda>_. hret offset)
        | _ \<Rightarrow> hraise e)"

fun poll_loop :: "tg_env \<Rightarrow> tg_config \<Rightarrow> seconds \<Rightarrow> nat \<Rightarrow> int option \<Rightarrow> unit tg" where
  "poll_loop env cfg pause 0 offset = hret ()"
| "poll_loop env cfg pause (Suc n) offset =
     hbind (poll_batch env cfg pause offset) (\<lambda>offset'. poll_loop env cfg pause n offset')"

definition poll_forever :: "tg_env \<Rightarrow> tg_config \<Rightarrow> nat \<Rightarrow> seconds \<Rightarrow> nat tg" where
  "poll_forever env cfg max_iterations sleep_on_error =
     hbind (hensure (tc_enabled cfg) (Refused ''enabled'' None)) (\<lambda>_.
     hbind (hensure (tc_mode cfg = ''chat'') (Refused ''mode'' None)) (\<lambda>_.
     hbind load_offset (\<lambda>offset.
     hbind (poll_loop env cfg sleep_on_error max_iterations offset) (\<lambda>_.
     hret max_iterations))))"

end
