(* ===== verification/Telegram_Client_Claims.thy ===== *)
theory Telegram_Client_Claims
  imports Telegram_Client
begin

text \<open>
  Properties of the clients: splitting a text loses nothing and respects the limit, and a send
  stays within the capacity it reserved and returns what it did not use.
\<close>

section \<open>Splitting\<close>

lemma rfind_bound: "rfind s sub \<le> int (length s) - int (length sub) \<or> rfind s sub = -1"
proof (cases "filter (\<lambda>i. take (length sub) (drop i s) = sub) [0..<length s + 1 - length sub]")
  case (Cons i js)
  then have "last (i # js) \<in> set [0..<length s + 1 - length sub]"
    by (metis filter_is_subset last_in_set list.distinct(1) subsetD)
  with Cons show ?thesis by (auto simp: rfind_def)
qed (simp add: rfind_def)

lemma rfind_occurs:
  assumes "0 \<le> rfind s sub"
  shows "take (length sub) (drop (nat (rfind s sub)) s) = sub"
proof -
  let ?is = "filter (\<lambda>i. take (length sub) (drop i s) = sub) [0..<length s + 1 - length sub]"
  have "?is \<noteq> []" using assms by (auto simp: rfind_def)
  then have "rfind s sub = int (last ?is)" by (auto simp: rfind_def split: list.splits)
  moreover have "last ?is \<in> set ?is" using \<open>?is \<noteq> []\<close> by (rule last_in_set)
  ultimately show ?thesis by simp
qed

lemma rfind_line_feed:
  assumes "0 \<le> rfind (take n s) (CHR 0x0A # sub)"
  shows "drop (nat (rfind (take n s) (CHR 0x0A # sub))) s \<noteq> [] \<and>
    hd (drop (nat (rfind (take n s) (CHR 0x0A # sub))) s) = CHR 0x0A"
proof -
  let ?i = "nat (rfind (take n s) (CHR 0x0A # sub))"
  have "hd (drop ?i (take n s)) = CHR 0x0A \<and> drop ?i (take n s) \<noteq> []"
    using rfind_occurs [OF assms] by (cases "drop ?i (take n s)") auto
  then show ?thesis by (cases "drop ?i s") (auto simp: drop_take take_Cons split: nat.splits)
qed

text \<open>A cut is within the limit, and either at the limit or in front of a line feed.\<close>

lemma split_at_cut:
  assumes "0 < m" and "m < int (length s)"
  shows "0 < split_at m s \<and> split_at m s \<le> m \<and>
    (split_at m s = m \<or> hd (drop (nat (split_at m s)) s) = CHR 0x0A)"
proof -
  have "s \<noteq> []" using assms by auto
  then have pos: "0 < split_at m s" by (rule split_at_pos [OF assms(1)])
  have cases: "split_at m s = m \<or> (\<exists>sub. split_at m s = rfind (take (nat m) s) (CHR 0x0A # sub))"
    unfolding split_at_def Let_def by metis
  moreover have "rfind (take (nat m) s) sub \<le> m" for sub
    using rfind_bound [of "take (nat m) s" sub] assms by auto
  ultimately have "split_at m s \<le> m" by auto
  moreover have "split_at m s = m \<or> hd (drop (nat (split_at m s)) s) = CHR 0x0A"
    using cases pos rfind_line_feed by (metis less_imp_le)
  ultimately show ?thesis using pos by blast
qed

lemma chunk_loop_pieces:
  assumes "0 < m"
  shows "concat (chunk_loop m s) = s \<and> (\<forall>p \<in> set (chunk_loop m s). p \<noteq> [] \<and> int (length p) \<le> m) \<and>
    successively (\<lambda>a b. int (length a) = m \<or> hd b = CHR 0x0A) (chunk_loop m s)"
  using assms
proof (induction m s rule: chunk_loop.induct)
  case (1 m s)
  show ?case
  proof (cases "s = [] \<or> int (length s) \<le> m")
    case True
    with 1 show ?thesis by (subst (1 2 3) chunk_loop.simps) auto
  next
    case False
    let ?k = "nat (split_at m s)"
    have cut: "0 < split_at m s" "split_at m s \<le> m" "split_at m s = m \<or> hd (drop ?k s) = CHR 0x0A"
      using split_at_cut [of m s] False 1(2) by auto
    have eq: "chunk_loop m s = take ?k s # chunk_loop m (drop ?k s)"
      using False 1(2) by (subst chunk_loop.simps) (simp add: Let_def)
    note IH = 1(1) [of ?k] False 1(2)
    have ne: "drop ?k s \<noteq> []" using cut False by auto
    then obtain p ps where ps: "chunk_loop m (drop ?k s) = p # ps" using IH by (cases "chunk_loop m (drop ?k s)") auto
    then have "hd p = hd (drop ?k s)" using IH by (metis concat.simps(2) hd_append2 list.set_intros(1) not_less)
    moreover have "int (length (take ?k s)) = split_at m s" using cut(1,2) False by (auto simp: min_def)
    ultimately show ?thesis using IH cut ps False by (auto simp: eq)
  qed
qed

section \<open>Reservations\<close>

definition new_limiter :: "tg_config \<Rightarrow> tg_limiter" where
  "new_limiter cfg = \<lparr>tg_max_ops = tc_max_ops cfg, tg_window = tc_window_seconds cfg, tg_events = [], tg_reserved = []\<rparr>"

text \<open>The limiter of the channel's knobs, and the number of messages sent so far.\<close>

definition climit :: "tg_config \<Rightarrow> channel \<Rightarrow> tg_limiter" where
  "climit cfg s = dget (ch_limiters s) (tc_max_ops cfg, tc_window_seconds cfg) (new_limiter cfg)"

fun is_send :: "event \<Rightarrow> bool" where
  "is_send (WireSend _ _) = True"
| "is_send _ = False"

definition sends :: "channel \<Rightarrow> nat" where
  "sends s = length (filter is_send (ch_log s))"

definition knobs_ok :: "tg_config \<Rightarrow> bool" where
  "knobs_ok cfg \<longleftrightarrow> 0 < tc_max_ops cfg \<and> 0 < tc_window_seconds cfg"

definition set_climit :: "tg_config \<Rightarrow> tg_limiter \<Rightarrow> channel \<Rightarrow> channel" where
  "set_climit cfg l s = s\<lparr>ch_limiters := AList.update (tc_max_ops cfg, tc_window_seconds cfg) l (ch_limiters s)\<rparr>"

lemma set_climit_simps [simp]:
  "climit cfg (set_climit cfg l s) = l" "ch_log (set_climit cfg l s) = ch_log s" "ch_clock (set_climit cfg l s) = ch_clock s"
  "ch_res (set_climit cfg l s) = ch_res s" "ch_files (set_climit cfg l s) = ch_files s" "sends (set_climit cfg l s) = sends s"
  "climit cfg (s\<lparr>ch_res := res\<rparr>) = climit cfg s" "sends (s\<lparr>ch_res := res\<rparr>) = sends s"
  by (simp_all add: set_climit_def climit_def dict_simps sends_def)

lemma on_limiter_eq:
  assumes "knobs_ok cfg"
  shows "on_limiter cfg f s =
    (map_sum limiter_exc id (fst (f (ch_clock s) (climit cfg s))), set_climit cfg (snd (f (ch_clock s) (climit cfg s))) s)"
  using assms
  by (cases "map_of (ch_limiters s) (tc_max_ops cfg, tc_window_seconds cfg)")
    (auto simp: on_limiter_def get_limiter_def SlidingWindowLimiter_def knobs_ok_def climit_def dget_def set_climit_def
      new_limiter_def split: prod.splits sum.splits)

text \<open>What only waits, logs or reads leaves the limiters and the reservation alone.\<close>

definition quiet :: "channel \<Rightarrow> channel \<Rightarrow> bool" where
  "quiet s t \<longleftrightarrow> ch_limiters t = ch_limiters s \<and> ch_res t = ch_res s \<and> ch_clock s \<le> ch_clock t \<and> sends t = sends s"

interpretation quiet: frame quiet
  by unfold_locales (auto simp: quiet_def)

lemma quiet_emit: "\<not> is_send e \<Longrightarrow> keeps quiet (emit e)"
  unfolding emit_def by (rule quiet.keeps_modify) (simp add: quiet_def sends_def)

lemma quiet_sleep: "keeps quiet (sleep d)"
  unfolding sleep_def by (rule quiet.keeps_modify) (simp add: quiet_def sends_def)

lemma quiet_retry: "(\<And>s. f s = s\<lparr>ch_retry := ch_retry (f s)\<rparr>) \<Longrightarrow> keeps quiet (hmodify f)"
proof (rule quiet.keeps_modify)
  fix s assume "\<And>s. f s = s\<lparr>ch_retry := ch_retry (f s)\<rparr>"
  then obtain x where "f s = s\<lparr>ch_retry := x\<rparr>" by blast
  then show "quiet s (f s)" by (simp add: quiet_def sends_def)
qed

lemmas quiet_rules = quiet.keeps_rules quiet_emit quiet_sleep quiet_retry

lemma quiet_cooldown: "keeps quiet (raise_during_retry_cooldown env tok)"
  unfolding raise_during_retry_cooldown_def Let_def by (auto intro!: quiet_rules)

lemma quiet_handle: "keeps quiet (handle_retry_after env data tok attempt m)"
  unfolding handle_retry_after_def Let_def by (auto intro!: quiet_rules split: option.splits)

lemma quiet_payload: "keeps quiet (payload_chat_id env chat_id)"
  unfolding payload_chat_id_def Let_def by (auto intro!: quiet_rules split: option.splits)

lemma send_request:
  assumes "request (WireSend payload body) s = (r, t)"
  shows "ch_limiters t = ch_limiters s \<and> ch_res t = ch_res s \<and> ch_clock s \<le> ch_clock t \<and> sends t = Suc (sends s)
    \<and> (\<exists>x. r = Inr x)"
  using assms by (auto simp: request_def Let_def sends_def)

text \<open>
  The invariant of a send in progress: \<open>n\<close> slots are left in its reservation, and the capacity
  held for each key is what was held before plus these slots.
\<close>

definition sending :: "tg_config \<Rightarrow> (str \<Rightarrow> int) \<Rightarrow> nat \<Rightarrow> channel \<Rightarrow> bool" where
  "sending cfg before n s \<longleftrightarrow> tg_wf (ch_clock s) (climit cfg s) \<and> 0 \<le> before OUTBOUND \<and>
     ch_res s = \<lparr>res_key = OUTBOUND, res_remaining = int n\<rparr> \<and>
     (\<forall>k. held (climit cfg s) k = before k + (if k = OUTBOUND then int n else 0))"

lemma sending_quiet: "sending cfg before n s \<Longrightarrow> quiet s t \<Longrightarrow> sending cfg before n t"
  by (auto simp: sending_def quiet_def climit_def intro: tg_wf_later)

lemma consume_slot_sending:
  assumes inv: "sending cfg before (Suc n) s" and knobs: "knobs_ok cfg" and run: "consume_slot cfg s = (r, t)"
  shows "r = Inr () \<and> sending cfg before n t \<and> sends t = sends s"
proof -
  let ?res = "ch_res s"
  have res: "0 < res_remaining ?res" "res_remaining ?res \<le> held (climit cfg s) (res_key ?res)" "res_key ?res = OUTBOUND"
    and wf: "tg_wf (ch_clock s) (climit cfg s)"
    using inv by (auto simp: sending_def)
  obtain l where l: "consume (ch_clock s) ?res (climit cfg s) = (Inr (), ?res\<lparr>res_remaining := res_remaining ?res - 1\<rparr>, l)"
    "l = snd (consume_reserved (ch_clock s) (res_key ?res) (climit cfg s))"
    "\<And>k. held l k = held (climit cfg s) k - (if k = res_key ?res then 1 else 0)"
    using consume_ok [OF res(1,2), of "ch_clock s"] by auto
  have "r = Inr ()" "t = (set_climit cfg l s)\<lparr>ch_res := ?res\<lparr>res_remaining := res_remaining ?res - 1\<rparr>\<rparr>"
    using run l(1) by (auto simp: consume_slot_def hbind_def handler_simps on_limiter_eq [OF knobs])
  then show ?thesis
    using inv l consume_reserved_wf [OF wf order_refl] res(3) by (auto simp: sending_def sends_def)
qed

text \<open>No operation of the client raises the \<open>RuntimeError\<close> of an exhausted reservation by itself.\<close>

abbreviation exhausted :: "tg_exc + 'a \<Rightarrow> bool" where
  "exhausted r \<equiv> r = Inl (PyExc ''RuntimeError'')"

lemma cooldown_exc: "raise_during_retry_cooldown env tok s = (Inl e, t) \<Longrightarrow> e \<noteq> PyExc x"
  by (auto simp: raise_during_retry_cooldown_def Let_def hbind_def handler_simps split: if_splits)

lemma handle_exc: "handle_retry_after env data tok attempt m s = (Inl e, t) \<Longrightarrow> e \<noteq> PyExc x"
  by (auto simp: handle_retry_after_def Let_def hbind_def handler_simps sleep_def
      split: if_splits option.splits)

lemma payload_exc: "payload_chat_id env chat_id s = (Inl e, t) \<Longrightarrow> e = PyExc ''ValueError''"
  by (auto simp: payload_chat_id_def Let_def handler_simps split: if_splits option.splits)

text \<open>What is known after an attempt to send: slots left, messages sent, and the attempts of a success.\<close>

definition sent_state :: "tg_config \<Rightarrow> (str \<Rightarrow> int) \<Rightarrow> nat \<Rightarrow> nat \<Rightarrow> channel \<Rightarrow> (tg_exc + 'a) \<Rightarrow> ('a \<Rightarrow> nat \<Rightarrow> bool) \<Rightarrow> bool" where
  "sent_state cfg before n c t r Q \<longleftrightarrow>
     (\<exists>n'. n' \<le> n \<and> sending cfg before n' t \<and> sends t + n' = c + n \<and> \<not> exhausted r \<and> (\<forall>x. r = Inr x \<longrightarrow> Q x (n - n')))"

lemma sent_state_raise:
  "sending cfg before n s \<Longrightarrow> quiet s t \<Longrightarrow> n \<le> m \<Longrightarrow> sends s + n = c + m \<Longrightarrow> e \<noteq> PyExc ''RuntimeError'' \<Longrightarrow>
   sent_state cfg before m c t (Inl e) Q"
  unfolding sent_state_def by (intro exI [of _ n]) (auto dest: sending_quiet simp: quiet_def)

lemma send_response_cases [consumes 1, case_names raise sent again]:
  assumes "send_response env chat_id body tok m attempt retry resp s = (r, t)"
  obtains e where "r = Inl e" "e \<noteq> PyExc ''RuntimeError''" "quiet s t"
  | d where "r = Inr (d, Suc attempt)" "quiet s t"
  | u where "quiet s u" "retry u = (r, t)"
proof -
  let ?log = "\<lambda>e. s\<lparr>ch_log := ch_log s @ [e]\<rparr>"
  have q: "quiet s (?log (TgOutbound ok c l st err))" for ok c l st err by (simp add: quiet_def sends_def)
  have h: "quiet s v" if "handle_retry_after env d tok attempt m (?log (TgOutbound ok c l st err)) = (y, v)"
    for ok c l st err d y v
    using quiet.R_trans [OF q keepsD [OF quiet_handle that]] .
  show ?thesis
    using assms that q
    by (auto simp: send_response_def Let_def response_failed_def handler_simps hbind_emit
        split: reply.splits option.splits pyval.splits if_splits elim!: hbind_cases)
      (metis h handle_exc)+
qed

lemma sent_state_again:
  assumes "sent_state cfg before n0 (sends u) t r (\<lambda>(_, a) k. Suc attempt < a \<and> a \<le> Suc attempt + left \<and> k = a - Suc attempt)"
    and "quiet s u" and "sends s + n0 = c + n" and "n = Suc n0"
  shows "sent_state cfg before n c t r (\<lambda>(_, a) k. attempt < a \<and> a \<le> attempt + Suc left \<and> k = a - attempt)"
proof -
  from assms(1) obtain n' where n': "n' \<le> n0" "sending cfg before n' t" "sends t + n' = sends u + n0" "\<not> exhausted r"
    "\<forall>d a. r = Inr (d, a) \<longrightarrow> Suc attempt < a \<and> a \<le> Suc attempt + left \<and> n0 - n' = a - Suc attempt"
    by (auto simp: sent_state_def)
  then show ?thesis
    unfolding sent_state_def using assms(2-4) by (intro exI [of _ n']) (auto simp: quiet_def)
qed

lemma send_attempts_sending:
  assumes "knobs_ok cfg" and "sending cfg before n s" and "left \<le> n"
    and "send_attempts env cfg chat_id body tok m attempt left s = (r, t)"
  shows "sent_state cfg before n (sends s) t r (\<lambda>(_, a) k. attempt < a \<and> a \<le> attempt + left \<and> k = a - attempt)"
  using assms(2-)
proof (induction left arbitrary: n attempt s)
  case 0
  then show ?case by (auto simp: handler_simps intro: sent_state_raise [OF _ quiet.R_refl])
next
  case (Suc left)
  then obtain n0 where n: "n = Suc n0" "left \<le> n0" by (cases n) auto
  from Suc.prems(3) show ?case
    unfolding send_attempts.simps
  proof (cases rule: hbind_cases)
    case (raises e)
    with payload_exc keepsD [OF quiet_payload] Suc.prems(1) show ?thesis by (fastforce intro: sent_state_raise)
  next
    case (returns payload s1)
    note q1 = keepsD [OF quiet_payload returns(1)]
    from returns(2) show ?thesis
    proof (cases rule: hbind_cases)
      case (raises e)
      with cooldown_exc keepsD [OF quiet_cooldown] q1 quiet.R_trans Suc.prems(1) show ?thesis
        by (fastforce intro: sent_state_raise)
    next
      case (returns x s2)
      note s2 = sending_quiet [OF Suc.prems(1) quiet.R_trans [OF q1 keepsD [OF quiet_cooldown returns(1)]]]
      have c2: "sends s2 = sends s" using q1 keepsD [OF quiet_cooldown returns(1)] by (simp add: quiet_def)
      obtain s3 where "consume_slot cfg s2 = (Inr (), s3)" and s3: "sending cfg before n0 s3" "sends s3 = sends s"
        using consume_slot_sending [OF s2 [unfolded n] assms(1)] c2 by (metis surj_pair)
      with returns(2) obtain resp s4 where "request (WireSend payload body) s3 = (Inr resp, s4)"
        and rest: "send_response env chat_id body tok m attempt
          (send_attempts env cfg chat_id body tok m (Suc attempt) left) resp s4 = (r, t)"
        by (auto elim!: hbind_cases dest: send_request)
      then have s4: "sending cfg before n0 s4" "sends s4 + n0 = sends s + n"
        using send_request s3 n by (fastforce simp: sending_def climit_def intro: tg_wf_later)+
      from rest show ?thesis
      proof (cases rule: send_response_cases)
        case (raise e)
        with s4 n show ?thesis by (auto intro: sent_state_raise)
      next
        case (sent d)
        with s4 n sending_quiet [OF s4(1)] show ?thesis
          unfolding sent_state_def by (intro exI [of _ n0]) (auto simp: quiet_def)
      next
        case (again u)
        from Suc.IH [OF sending_quiet [OF s4(1) again(1)] n(2) again(2)] again(1) s4(2) n(1)
        show ?thesis by (rule sent_state_again)
      qed
    qed
  qed
qed

lemma send_pieces_sending:
  assumes "knobs_ok cfg" and "sending cfg before n s" and "int n = int (length pieces) + slots" and "0 \<le> slots"
    and "send_pieces env cfg chat_id tok slots sent pieces s = (r, t)"
  shows "sent_state cfg before n (sends s) t r (\<lambda>_ _. True)"
  using assms(2-)
proof (induction pieces arbitrary: slots sent n s)
  case Nil
  then show ?case by (auto simp: handler_simps sent_state_def)
next
  case (Cons piece pieces)
  let ?m = "if 0 < slots then MAX_RETRIES else 0"
  have left: "Suc ?m \<le> n" using Cons.prems(2,3) by (auto simp: MAX_RETRIES_def)
  from Cons.prems(4) have "hbind (send_one env cfg chat_id piece tok ?m)
      (\<lambda>(sent', a). send_pieces env cfg chat_id tok (slots - (int a - 1)) sent' pieces) s = (r, t)" by simp
  then show ?case
  proof (cases rule: hbind_cases)
    case (raises e)
    from send_attempts_sending [OF assms(1) Cons.prems(1) left raises(1) [unfolded send_one_def]] raises(2)
    show ?thesis by (auto simp: sent_state_def)
  next
    case (returns x u)
    obtain d a where x: "x = (d, a)" by (cases x)
    from send_attempts_sending [OF assms(1) Cons.prems(1) left returns(1) [unfolded send_one_def]]
    obtain n' where n': "n' \<le> n" "sending cfg before n' u" "sends u + n' = sends s + n"
      "0 < a" "a \<le> Suc ?m" "n - n' = a"
      by (auto simp: sent_state_def x)
    have "int n' = int (length pieces) + (slots - (int a - 1))" "0 \<le> slots - (int a - 1)"
      using n' Cons.prems(2,3) by (auto simp: MAX_RETRIES_def split: if_splits)
    with Cons.IH [OF n'(2)] returns(2) x have "sent_state cfg before n' (sends u) t r (\<lambda>_ _. True)" by simp
    then obtain k where "k \<le> n'" "sending cfg before k t" "sends t + k = sends u + n'" "\<not> exhausted r"
      by (auto simp: sent_state_def)
    with n' show ?thesis unfolding sent_state_def by (intro exI [of _ k]) auto
  qed
qed

lemma close_reservation_sending:
  assumes inv: "sending cfg before n s" and knobs: "knobs_ok cfg" and run: "close_reservation cfg s = (r, t)"
  shows "r = Inr () \<and> (\<forall>k. held (climit cfg t) k = before k) \<and> tg_wf (ch_clock t) (climit cfg t) \<and> sends t = sends s"
proof -
  let ?res = "ch_res s"
  have res: "0 \<le> res_remaining ?res" "res_remaining ?res \<le> held (climit cfg s) (res_key ?res)" "res_key ?res = OUTBOUND"
    and wf: "tg_wf (ch_clock s) (climit cfg s)"
    using inv by (auto simp: sending_def)
  obtain l where l: "close ?res (climit cfg s) = (Inr (), ?res\<lparr>res_remaining := 0\<rparr>, l)"
    "l = climit cfg s \<or> l = snd (release_reserved (res_key ?res) (res_remaining ?res) (climit cfg s))"
    "\<And>k. held l k = held (climit cfg s) k - (if k = res_key ?res then res_remaining ?res else 0)"
    using close_ok [OF res(1,2)] by auto
  have "r = Inr ()" "t = (set_climit cfg l s)\<lparr>ch_res := ?res\<lparr>res_remaining := 0\<rparr>\<rparr>"
    using run l(1) by (auto simp: close_reservation_def hbind_def handler_simps on_limiter_eq [OF knobs])
  moreover have "tg_wf (ch_clock s) l" using l(2) wf release_reserved_wf [OF wf res(1)] by auto
  ultimately show ?thesis using inv l(3) by (auto simp: sending_def)
qed

lemma reserve_exc: "fst (reserve_up_to t key mn mx l) = Inl e \<Longrightarrow> limiter_exc e \<noteq> PyExc ''RuntimeError''"
  by (auto simp: tg_op_defs ensure_capacity_def limiter_exc_def split: option.splits if_splits)

lemma reserve_outbound_sending:
  assumes knobs: "knobs_ok cfg" and wf: "tg_wf (ch_clock s) (climit cfg s)" and "0 < n"
    and run: "reserve_outbound cfg (int n) s = (r, t)"
  shows "sends t = sends s \<and>
    (case r of
       Inl e \<Rightarrow> e \<noteq> PyExc ''RuntimeError'' \<and> (\<forall>k. held (climit cfg t) k = held (climit cfg s) k) \<and> tg_wf (ch_clock t) (climit cfg t)
     | Inr slots \<Rightarrow> 0 \<le> slots \<and> slots \<le> int n \<and> int n + slots \<le> tg_max_ops (climit cfg s) \<and>
         sending cfg (held (climit cfg s)) (nat (int n + slots)) t)"
proof -
  let ?mx = "int n + min (int n * int MAX_RETRIES) (max 0 (tc_max_ops cfg - int n))"
  obtain r0 l where res: "reserve_up_to (ch_clock s) OUTBOUND (int n) ?mx (climit cfg s) = (r0, l)"
    by (metis surj_pair)
  have wf': "tg_wf (ch_clock s) l" using reserve_up_to_wf [OF wf order_refl] res by (metis snd_conv)
  note held = reserve_up_to_held [OF res]
  show ?thesis
  proof (cases r0)
    case (Inl e)
    with run res have "r = Inl (limiter_exc e)" "t = set_climit cfg l s"
      by (auto simp: reserve_outbound_def Let_def hbind_def on_limiter_eq [OF knobs])
    with Inl held wf' reserve_exc [of "ch_clock s" OUTBOUND "int n" ?mx "climit cfg s" e] res show ?thesis by simp
  next
    case (Inr p)
    obtain rv g where p: "p = (rv, g)" by (cases p)
    have rt: "r = Inr (g - int n)" "t = (set_climit cfg l s)\<lparr>ch_res := rv\<rparr>"
      using run res Inr p by (auto simp: reserve_outbound_def Let_def hbind_def handler_simps on_limiter_eq [OF knobs])
    from reserve_up_to_granted [of "ch_clock s" OUTBOUND "int n" ?mx "climit cfg s" rv g l] res Inr p
    have g: "res_key rv = OUTBOUND" "res_remaining rv = g" "int n \<le> g" "g \<le> ?mx"
      "g \<le> tg_max_ops (climit cfg s) - held (climit cfg s) OUTBOUND" by auto
    have "rv = \<lparr>res_key = OUTBOUND, res_remaining = g\<rparr>" using g by (cases rv) simp
    moreover have "0 \<le> held (climit cfg s) OUTBOUND" using wf by (simp add: tg_wf_def)
    ultimately show ?thesis
      using rt g held Inr p wf' by (auto simp: sending_def MAX_RETRIES_def)
  qed
qed

lemma send_message_cases [consumes 1, case_names early go]:
  assumes "send_message env cfg chat_id text s = (r, t)"
  obtains "quiet s t" and "\<not> exhausted r"
  | pieces tok u where "chunk_text text (tc_max_message_chars cfg) = Some pieces" "pieces \<noteq> []" "quiet s u"
    "hbind (reserve_outbound cfg (int (length pieces))) (\<lambda>slots.
       hfinally (send_pieces env cfg chat_id tok slots (PDict []) pieces) (close_reservation cfg)) u = (r, t)"
proof -
  have q: "quiet s s" by (rule quiet.R_refl)
  have tok: "e \<noteq> PyExc x" if "config_exc v = Inl e" for v :: "tg_config_error + str" and e x
    using that by (cases v) (auto simp: config_exc_def)
  show ?thesis
    using assms that(1) that(2) q
    by (auto simp: send_message_def handler_simps of_option_def elim!: hbind_cases
        dest: keepsD [OF quiet_cooldown] split: if_splits option.splits sum.splits)
      (metis tok cooldown_exc keepsD [OF quiet_cooldown])+
qed

section \<open>Properties\<close>

text \<open>
  C38: splitting a text for Telegram loses nothing. For a positive limit the pieces are never
  empty, none is longer than the limit, and together they are the text (a blank text gives no
  piece); every cut is either at the limit or in front of a line feed.
\<close>

theorem chunk_text_round_trip:
  assumes "0 < max_chars"
  shows "\<exists>pieces. chunk_text text max_chars = Some pieces \<and>
    concat pieces = (if py_strip text = [] then [] else text) \<and>
    (\<forall>p \<in> set pieces. p \<noteq> [] \<and> int (length p) \<le> max_chars) \<and>
    successively (\<lambda>a b. int (length a) = max_chars \<or> hd b = CHR 0x0A) pieces"
  using assms chunk_loop_pieces [OF assms, of "text"] by (auto simp: chunk_text_def)

theorem chunk_text_round_trip_witness:
  "chunk_text [CHR ''a'', CHR ''b'', CHR 0x0A, CHR ''c'', CHR ''d''] 4 =
     Some [[CHR ''a'', CHR ''b''], [CHR 0x0A, CHR ''c'', CHR ''d'']] \<and>
   (\<exists>pieces. chunk_text [CHR ''a'', CHR ''b'', CHR 0x0A, CHR ''c'', CHR ''d''] 4 = Some pieces \<and>
     concat pieces = [CHR ''a'', CHR ''b'', CHR 0x0A, CHR ''c'', CHR ''d''])"
proof
  show "chunk_text [CHR ''a'', CHR ''b'', CHR 0x0A, CHR ''c'', CHR ''d''] 4 =
     Some [[CHR ''a'', CHR ''b''], [CHR 0x0A, CHR ''c'', CHR ''d'']]" by code_simp
  have "py_strip [CHR ''a'', CHR ''b'', CHR 0x0A, CHR ''c'', CHR ''d''] \<noteq> []" by code_simp
  with chunk_text_round_trip [of 4 "[CHR ''a'', CHR ''b'', CHR 0x0A, CHR ''c'', CHR ''d'']"]
  show "\<exists>pieces. chunk_text [CHR ''a'', CHR ''b'', CHR 0x0A, CHR ''c'', CHR ''d''] 4 = Some pieces \<and>
     concat pieces = [CHR ''a'', CHR ''b'', CHR 0x0A, CHR ''c'', CHR ''d'']" by auto
qed

text \<open>
  C37: a send keeps to the capacity it reserved. Whatever the network answers, at most two
  requests per piece are made and no more than the limiter allows; the reservation is never
  exhausted; and when the send is over, also by an exception, the capacity held for every key is
  what it was before.
\<close>

theorem send_message_balanced:
  assumes "knobs_ok cfg" and "tg_wf (ch_clock s) (climit cfg s)"
    and "send_message env cfg chat_id text s = (r, t)"
  shows "(\<forall>key. held (climit cfg t) key = held (climit cfg s) key) \<and> tg_wf (ch_clock t) (climit cfg t) \<and>
    r \<noteq> Inl (PyExc ''RuntimeError'') \<and>
    (sends t = sends s \<or> (\<exists>pieces. chunk_text text (tc_max_message_chars cfg) = Some pieces \<and>
       sends t \<le> sends s + 2 * length pieces \<and> int (sends t) \<le> int (sends s) + tg_max_ops (climit cfg s)))"
  using assms(3)
proof (cases rule: send_message_cases)
  case early
  then show ?thesis using assms(2) by (auto simp: quiet_def climit_def intro: tg_wf_later)
next
  case (go pieces tok u)
  have u: "climit cfg u = climit cfg s" "sends u = sends s" "tg_wf (ch_clock u) (climit cfg u)"
    using go(3) assms(2) by (auto simp: quiet_def climit_def intro: tg_wf_later)
  from go(4) show ?thesis
  proof (cases rule: hbind_cases)
    case (raises e)
    with reserve_outbound_sending [OF assms(1) u(3) _ raises(1)] go(2) u show ?thesis by simp
  next
    case (returns slots v)
    with reserve_outbound_sending [OF assms(1) u(3) _ returns(1)] go(2) u
    have v: "sends v = sends s" "0 \<le> slots" "slots \<le> int (length pieces)"
      "int (length pieces) + slots \<le> tg_max_ops (climit cfg s)"
      "sending cfg (held (climit cfg s)) (nat (int (length pieces) + slots)) v" by simp_all
    obtain r1 w where w: "send_pieces env cfg chat_id tok slots (PDict []) pieces v = (r1, w)" by (metis surj_pair)
    from send_pieces_sending [OF assms(1) v(5) _ v(2) w] v(2) obtain n' where
      n': "sending cfg (held (climit cfg s)) n' w" "int (sends w) + int n' = int (sends s) + int (length pieces) + slots" "\<not> exhausted r1"
      by (auto simp: sent_state_def v(1))
    obtain r2 x where x: "close_reservation cfg w = (r2, x)" by (metis surj_pair)
    note closed = close_reservation_sending [OF n'(1) assms(1) x]
    with returns(2) w x have "r = r1" "t = x" by (auto simp: hfinally_def)
    with closed n' v go(1) show ?thesis by auto
  qed
qed

text \<open>A process that has just started, and surroundings in which the token is set.\<close>

definition demo_channel :: "reply list \<Rightarrow> channel" where
  "demo_channel replies = \<lparr>ch_clock = 100, ch_limiters = [], ch_res = \<lparr>res_key = [], res_remaining = 0\<rparr>,
     ch_retry = [], ch_files = [], ch_disk = [], ch_net = replies, ch_log = []\<rparr>"

definition demo_env :: tg_env where
  "demo_env = \<lparr>te_wall = (\<lambda>t. 1000 + t), te_environ = (\<lambda>_. ''t''), te_str = (\<lambda>_. ''?''), te_pseudonym = (\<lambda>t. t),
     te_hash = (\<lambda>t. t), te_resolve = (\<lambda>_. None), te_config = None, te_repo = [''repo''], te_corpus = [''repo'', ''data'']\<rparr>"

lemma demo_channel_wf: "tg_wf (ch_clock (demo_channel replies)) (climit demo_config (demo_channel replies))"
  by (simp add: tg_wf_def climit_def demo_channel_def demo_config_def new_limiter_def)

theorem send_message_balanced_witness:
  "\<exists>r t. send_message demo_env demo_config (PInt 42) ''hi''
      (demo_channel [Reply 200 (Some (PDict [(''ok'', PBool True), (''result'', PDict [(''message_id'', PInt 7)])])) None [] 1]) = (r, t) \<and>
    (\<exists>d. r = Inr d) \<and> sends t = 1 \<and> held (climit demo_config t) OUTBOUND = 0"
proof -
  let ?s = "demo_channel [Reply 200 (Some (PDict [(''ok'', PBool True), (''result'', PDict [(''message_id'', PInt 7)])])) None [] 1]"
  have knobs: "knobs_ok demo_config" by (simp add: knobs_ok_def demo_config_def)
  obtain r t where run: "send_message demo_env demo_config (PInt 42) ''hi'' ?s = (r, t)" by (metis surj_pair)
  have "(case fst (send_message demo_env demo_config (PInt 42) ''hi'' ?s) of Inr _ \<Rightarrow> True | Inl _ \<Rightarrow> False) \<and>
      sends (snd (send_message demo_env demo_config (PInt 42) ''hi'' ?s)) = 1" by code_simp
  moreover have "held (climit demo_config ?s) OUTBOUND = 0"
    by (simp add: climit_def demo_channel_def new_limiter_def)
  ultimately show ?thesis
    using run send_message_balanced [OF knobs demo_channel_wf run] by (intro exI [of _ r] exI [of _ t]) (auto split: sum.splits)
qed

end
