(* ===== verification/Telegram_Claims.thy ===== *)
theory Telegram_Claims
  imports Telegram_Channel Telegram_Client_Claims
begin

text \<open>
  Properties of the whole channel: what it may send, how consents to an online provider are
  spent, and how updates are acknowledged. Each is carried through the operations by a frame:
  the log only grows by admissible events, or the balance of consents never rises.
\<close>

section \<open>Growing logs\<close>

definition log_adds :: "(event \<Rightarrow> bool) \<Rightarrow> channel \<Rightarrow> channel \<Rightarrow> bool" where
  "log_adds P s t \<longleftrightarrow> (\<exists>new. ch_log t = ch_log s @ new \<and> list_all P new)"

definition same_sessions :: "channel \<Rightarrow> channel \<Rightarrow> bool" where
  "same_sessions s t \<longleftrightarrow> (\<forall>c. map_of (ch_files t) (session_path c) = map_of (ch_files s) (session_path c))"

text \<open>The frame of operations that leave the consents alone and log only admissible events.\<close>

definition adds :: "(event \<Rightarrow> bool) \<Rightarrow> channel \<Rightarrow> channel \<Rightarrow> bool" where
  "adds P s t \<longleftrightarrow> log_adds P s t \<and> same_sessions s t"

lemma log_adds_refl: "log_adds P s s"
  by (auto simp: log_adds_def)

lemma log_adds_trans: "log_adds P s t \<Longrightarrow> log_adds P t u \<Longrightarrow> log_adds P s u"
  by (fastforce simp: log_adds_def)

interpretation logf: frame "log_adds P" for P
  by unfold_locales (auto intro: log_adds_refl log_adds_trans)

interpretation addf: frame "adds P" for P
  by unfold_locales (auto simp: adds_def same_sessions_def intro: log_adds_refl log_adds_trans)

lemma adds_log: "keeps (adds P) f \<Longrightarrow> keeps (log_adds P) f"
  by (erule keeps_mono) (simp add: adds_def)

lemma adds_mono: "keeps (adds P) f \<Longrightarrow> (\<And>e. P e \<Longrightarrow> Q e) \<Longrightarrow> keeps (adds Q) f"
  by (erule keeps_mono) (auto simp: adds_def log_adds_def list_all_iff)

lemma adds_modify:
  "(\<And>s. ch_log (f s) = ch_log s) \<Longrightarrow> (\<And>s. ch_files (f s) = ch_files s) \<Longrightarrow> keeps (adds P) (hmodify f)"
  by (rule addf.keeps_modify) (auto simp: adds_def log_adds_def same_sessions_def)

lemma adds_emit: "P e \<Longrightarrow> keeps (adds P) (emit e)"
  unfolding emit_def by (rule addf.keeps_modify) (auto simp: adds_def log_adds_def same_sessions_def)

lemma adds_sleep: "P (Slept d) \<Longrightarrow> keeps (adds P) (sleep d)"
  unfolding sleep_def by (rule addf.keeps_modify) (auto simp: adds_def log_adds_def same_sessions_def)

lemma adds_disk: "keeps (adds P) disk"
  by (simp add: keeps_def disk_def adds_def log_adds_def same_sessions_def)

lemma adds_request: "P e \<Longrightarrow> keeps (adds P) (request e)"
  by (auto simp: keeps_def request_def Let_def adds_def log_adds_def same_sessions_def)

lemma adds_limiter: "keeps (adds P) (on_limiter cfg f)"
  by (auto simp: keeps_def on_limiter_def adds_def log_adds_def same_sessions_def split: prod.splits sum.splits)

lemma session_not_offset: "session_path c \<noteq> OFFSET_PATH"
  by (simp add: session_path_def OFFSET_PATH_def)

lemma adds_save_offset_file: "keeps (adds P) (save_file OFFSET_PATH v)"
  unfolding save_file_def
  by (rule addf.keeps_modify) (auto simp: adds_def log_adds_def same_sessions_def update_conv' session_not_offset)

lemmas adds_rules = addf.keeps_rules adds_emit adds_sleep adds_disk adds_request adds_limiter adds_save_offset_file

section \<open>The client\<close>

definition audit_only :: "event \<Rightarrow> bool" where
  "audit_only e = (case e of TgOutbound _ _ _ _ _ \<Rightarrow> True | Slept _ \<Rightarrow> True | _ \<Rightarrow> False)"

lemma adds_cooldown: "keeps (adds P) (raise_during_retry_cooldown env tok)"
  unfolding raise_during_retry_cooldown_def Let_def by (auto intro!: adds_rules adds_modify)

lemma adds_handle: "(\<And>d. P (Slept d)) \<Longrightarrow> keeps (adds P) (handle_retry_after env data tok attempt m)"
  unfolding handle_retry_after_def Let_def by (auto intro!: adds_rules adds_modify split: option.splits)

lemma adds_payload: "keeps (adds P) (payload_chat_id env chat_id)"
  unfolding payload_chat_id_def Let_def by (auto intro!: adds_rules split: option.splits)

lemma adds_consume: "keeps (adds P) (consume_slot cfg)" and adds_close: "keeps (adds P) (close_reservation cfg)"
  unfolding consume_slot_def close_reservation_def by (auto intro!: adds_rules adds_modify)

lemma adds_reserve: "keeps (adds P) (reserve_outbound cfg n)"
  unfolding reserve_outbound_def Let_def by (auto intro!: adds_rules adds_modify)

lemmas adds_client = adds_cooldown adds_handle adds_payload adds_consume adds_close adds_reserve

lemma adds_send_response:
  assumes "\<And>e. audit_only e \<Longrightarrow> P e" and "keeps (adds P) again"
  shows "keeps (adds P) (send_response env chat_id body tok m attempt again resp)"
  unfolding send_response_def Let_def
  using assms
  by (auto intro!: adds_rules adds_client simp: audit_only_def split: reply.splits option.splits pyval.splits)

text \<open>
  What the channel may put on the wire: a message that fits, to a chat of the allow-list; a
  query that fits, online exactly with a provider; a grant only when grants are enabled, for a
  chat of the allow-list; a staged file within the media gates.
\<close>

definition event_ok :: "tg_env \<Rightarrow> tg_config \<Rightarrow> event \<Rightarrow> bool" where
  "event_ok env cfg e = (case e of
     WireSend chat_id body \<Rightarrow> is_chat_allowed (te_str env) cfg chat_id \<and> body \<noteq> [] \<and> int (length body) \<le> tc_max_message_chars cfg
   | WireQuery query confirmed provider \<Rightarrow> query \<noteq> [] \<and> int (length query) \<le> tc_max_message_chars cfg \<and>
       confirmed = (provider \<noteq> None) \<and> (provider \<noteq> None \<longrightarrow> tc_allow_hybrid_confirm cfg)
   | TgHybridGranted chat provider ttl _ \<Rightarrow> tc_allow_hybrid_confirm cfg \<and> py_strip chat \<in> set (tc_allowed_chat_ids cfg) \<and>
       provider \<in> set ONLINE_PROVIDERS \<and> ttl = tc_hybrid_confirm_ttl_sec cfg
   | WireWrite path _ content \<Rightarrow> tc_media_enabled cfg \<and> path = tc_fsconnect_root cfg \<and>
       (\<exists>cap. media_cap env cfg = Inr cap \<and> int (length content) \<le> cap)
   | _ \<Rightarrow> True)"

definition allow_list_canonical :: "tg_config \<Rightarrow> bool" where
  "allow_list_canonical cfg \<longleftrightarrow> (\<forall>c \<in> set (tc_allowed_chat_ids cfg). \<exists>i. MIN_CHAT_ID \<le> i \<and> i \<le> MAX_CHAT_ID \<and> c = int_str i)"

text \<open>Events that say nothing about consents.\<close>

definition neutral :: "event \<Rightarrow> bool" where
  "neutral e = (case e of TgHybridGranted _ _ _ _ \<Rightarrow> False | TgHybridConsumed _ _ _ \<Rightarrow> False
     | WireQuery _ _ (Some _) \<Rightarrow> False | _ \<Rightarrow> True)"

definition calm :: "tg_env \<Rightarrow> tg_config \<Rightarrow> event \<Rightarrow> bool" where
  "calm env cfg e \<longleftrightarrow> event_ok env cfg e \<and> neutral e"

lemmas calm_defs = calm_def event_ok_def neutral_def

lemma calm_audit: "audit_only e \<Longrightarrow> calm env cfg e"
  by (auto simp: audit_only_def calm_defs split: event.splits)

lemma chat_id_short: "MIN_CHAT_ID \<le> i \<Longrightarrow> i \<le> MAX_CHAT_ID \<Longrightarrow> \<bar>i\<bar> < 10 ^ 20"
  by (simp add: MIN_CHAT_ID_def MAX_CHAT_ID_def)

lemma isdigit_no_space:
  assumes "py_isdigit (dropWhile (\<lambda>c. c = CHR ''-'') s)"
  shows "py_strip s = s"
proof (rule py_strip_id)
  have "\<not> py_isspace c" if "code c \<in> {178, 179, 185}" for c using that by (auto simp: py_isspace_def Let_def)
  moreover have "\<not> py_isspace CHR ''-''" by (simp add: py_isspace_def code_def)
  moreover have "c \<in> set (takeWhile (\<lambda>c. c = CHR ''-'') s) \<or> c \<in> set (dropWhile (\<lambda>c. c = CHR ''-'') s)"
    if "c \<in> set s" for c using that by (metis Un_iff set_append takeWhile_dropWhile_id)
  ultimately show "\<forall>c \<in> set s. \<not> py_isspace c"
    using assms digit_not_space by (fastforce simp: py_isdigit_def list_all_iff dest: set_takeWhileD)
qed

text \<open>The chat id of the request names the chat that was checked.\<close>

lemma payload_allowed:
  assumes "allow_list_canonical cfg" and allowed: "is_chat_allowed py cfg chat_id" and py: "py = te_str env"
    and "payload_chat_id env chat_id s = (Inr payload, t)"
  shows "is_chat_allowed py cfg payload"
proof (cases "py_isdigit (dropWhile (\<lambda>c. c = CHR ''-'') (str_of py chat_id))")
  case True
  let ?s = "str_of py chat_id"
  from True assms(4) py obtain i where i: "py_int ?s = Some i" "payload = PInt i"
    by (auto simp: payload_chat_id_def Let_def handler_simps split: option.splits)
  have in_list: "?s \<in> set (tc_allowed_chat_ids cfg)"
    using allowed isdigit_no_space [OF True] by (simp add: is_chat_allowed_def)
  with assms(1) obtain j where j: "?s = int_str j" "\<bar>j\<bar> < 10 ^ 20"
    using chat_id_short unfolding allow_list_canonical_def by blast
  then have "i = j" using py_int_int_str i(1) by simp
  with i j in_list isdigit_no_space [OF True] show ?thesis by (simp add: is_chat_allowed_def str_of_def)
next
  case False
  with assms(4) py allowed show ?thesis by (simp add: payload_chat_id_def Let_def handler_simps)
qed

lemma chunk_text_pieces: "chunk_text text m = Some pieces \<Longrightarrow> p \<in> set pieces \<Longrightarrow> p \<noteq> [] \<and> int (length p) \<le> m"
  using chunk_loop_pieces [of m "text"] by (auto simp: chunk_text_def split: if_splits)

lemma ok_send_attempts:
  assumes "allow_list_canonical cfg" and "is_chat_allowed (te_str env) cfg chat_id"
    and "body \<noteq> []" and "int (length body) \<le> tc_max_message_chars cfg"
  shows "keeps (adds (calm env cfg)) (send_attempts env cfg chat_id body tok m attempt left)"
proof (induction left arbitrary: attempt)
  case 0
  show ?case by (simp add: addf.keeps_basic)
next
  case (Suc left)
  have "calm env cfg (WireSend payload body)" if "payload_chat_id env chat_id s = (Inr payload, t)" for payload s t
    using payload_allowed [OF assms(1,2) refl that] assms(3,4) by (simp add: calm_defs)
  then show ?case
    unfolding send_attempts.simps
    by (intro addf.keeps_bind_result [OF adds_payload] addf.keeps_bind adds_client adds_request
        adds_send_response Suc) (auto intro: calm_audit)
qed

lemma ok_send_one:
  assumes "allow_list_canonical cfg" and "is_chat_allowed (te_str env) cfg chat_id"
    and "body \<noteq> []" and "int (length body) \<le> tc_max_message_chars cfg"
  shows "keeps (adds (calm env cfg)) (send_one env cfg chat_id body tok m)"
  unfolding send_one_def by (rule ok_send_attempts [OF assms])

lemma ok_send_pieces:
  assumes "allow_list_canonical cfg" and "is_chat_allowed (te_str env) cfg chat_id"
    and "\<forall>p \<in> set pieces. p \<noteq> [] \<and> int (length p) \<le> tc_max_message_chars cfg"
  shows "keeps (adds (calm env cfg)) (send_pieces env cfg chat_id tok slots sent pieces)"
  using assms(3)
proof (induction pieces arbitrary: slots sent)
  case (Cons p ps)
  then show ?case
    using ok_send_one [OF assms(1,2)]
    by (auto intro!: addf.keeps_bind split: prod.splits)
qed (simp add: addf.keeps_basic)

lemma ok_send_message:
  assumes "allow_list_canonical cfg"
  shows "keeps (adds (calm env cfg)) (send_message env cfg chat_id text)"
  unfolding send_message_def
  using assms
  by (intro addf.keeps_bind_result addf.keeps_basic adds_client addf.keeps_finally ok_send_pieces)
    (auto simp: handler_simps hensure_def dest: chunk_text_pieces split: if_splits)

lemma calm_send_notify:
  assumes "allow_list_canonical cfg"
  shows "keeps (adds (calm env cfg)) (send_notify env cfg chat_id text)"
  unfolding send_notify_def by (intro addf.keeps_bind addf.keeps_basic ok_send_message assms)

lemma calm_simple [simp]:
  "calm env cfg (Slept d)" "calm env cfg WireHealth" "calm env cfg (WireUpdates o')" "calm env cfg (WireGetFile f)"
  "calm env cfg (WireDownload f)" "calm env cfg (TgInbound c u h n)" "calm env cfg (TgInboundRefused c u)"
  "calm env cfg (TgMediaInbound c i k b)" "calm env cfg (TgMediaRefused c i k g)"
  "calm env cfg (TgMediaStageRequested c i k n')" "calm env cfg (TgMediaStaged c i k g n)"
  "calm env cfg (TgOffsetPersistFailed i)" "calm env cfg (TgHybridRefused c k)" "calm env cfg (TgHybridStateError c u)"
  "calm env cfg (TgUndelivered c u k)" "calm env cfg (TgQuery b i c b' p)" "calm env cfg (TgQueryError c k)"
  by (simp_all add: calm_defs)

lemmas calm_rules = addf.keeps_rules adds_client adds_emit adds_sleep adds_disk adds_request adds_limiter

lemma calm_health: "keeps (adds (calm env cfg)) (fetch_loopback_health env)"
  unfolding fetch_loopback_health_def by (intro calm_rules) simp

lemma calm_get_updates: "keeps (adds (calm env cfg)) (get_updates env cfg offset)"
proof -
  have "keeps (adds (calm env cfg)) (get_updates_attempts env tok offset attempt left)" for tok attempt left
    by (induction left arbitrary: attempt)
      (auto intro!: calm_rules split: reply.splits option.splits pyval.splits prod.splits)
  then show ?thesis unfolding get_updates_def by (intro calm_rules)
qed

lemma calm_get_file: "keeps (adds (calm env cfg)) (get_file env cfg file_id)"
proof -
  have "keeps (adds (calm env cfg)) (get_file_attempts env tok file_id attempt left)" for tok attempt left
    by (induction left arbitrary: attempt)
      (auto intro!: calm_rules split: reply.splits option.splits pyval.splits prod.splits bool.splits)
  then show ?thesis unfolding get_file_def by (intro calm_rules)
qed

lemma calm_download: "keeps (adds (calm env cfg)) (download_file env cfg file_path cap)"
proof -
  have "keeps (adds (calm env cfg)) (download_attempts env tok path cap attempt left)" for tok path attempt left
    by (induction left arbitrary: attempt)
      (auto intro!: calm_rules split: reply.splits option.splits prod.splits)
  then show ?thesis unfolding download_file_def Let_def by (intro calm_rules)
qed

section \<open>Media\<close>

lemma calm_refuse: "keeps (adds (calm env cfg)) (refuse_media env chat_id uid gate kind)"
  unfolding refuse_media_def audit_refusal_def by (intro calm_rules) simp

lemma calm_audited:
  assumes "keeps (adds (calm env cfg)) f"
  shows "keeps (adds (calm env cfg)) (audited env chat_id uid kind f)"
  unfolding audited_def audit_refusal_def
  using assms by (auto intro!: addf.keeps_catch calm_rules split: tg_exc.splits)

lemma calm_write:
  assumes "tc_media_enabled cfg" and "media_cap env cfg = Inr cap" and "int (length content) \<le> cap"
  shows "keeps (adds (calm env cfg)) (run_fsconnect_write cfg target content)"
  unfolding run_fsconnect_write_def
  using assms by (auto intro!: calm_rules simp: calm_defs split: reply.splits option.splits pyval.splits)

lemma calm_download_write:
  assumes "tc_media_enabled cfg" and "media_cap env cfg = Inr cap"
  shows "keeps (adds (calm env cfg)) (hbind (download_file env cfg file_path cap) (\<lambda>content.
    hbind (hensure (int (length content) \<le> cap) e) (\<lambda>_.
    hbind (run_fsconnect_write cfg target content) (\<lambda>_. hret content))))"
  by (intro addf.keeps_bind calm_download addf.keeps_bind_result addf.keeps_basic calm_write [OF assms])
    (auto simp: handler_simps split: if_splits)

lemma audited_Inr: "audited env chat_id uid kind (hlift v) s = (Inr x, t) \<Longrightarrow> v = Inr x"
  by (auto simp: audited_def hcatch_def handler_simps audit_refusal_def hbind_emit split: sum.splits tg_exc.splits)

lemma calm_stage: "keeps (adds (calm env cfg)) (stage_attachment env cfg chat_id chat_type uid a confirmation)"
proof (cases "tc_media_enabled cfg")
  case True
  note rules = addf.keeps_basic calm_refuse adds_emit calm_get_file calm_audited calm_download_write [OF True]
  show ?thesis
    unfolding stage_attachment_def Let_def
    by (auto intro!: addf.keeps_bind_result rules dest!: audited_Inr split: pyval.splits)
next
  case False
  then show ?thesis
    unfolding stage_attachment_def Let_def by (auto intro!: addf.keeps_bind addf.keeps_basic calm_refuse)
qed

section \<open>The balance of consents\<close>

text \<open>The consents granted to and consumed for a chat, by the chat's canonical id, and the online queries.\<close>

definition granted_for :: "str \<Rightarrow> event \<Rightarrow> bool" where
  "granted_for c e = (case e of TgHybridGranted chat _ _ _ \<Rightarrow> canonical_id (PStr chat) = Some c | _ \<Rightarrow> False)"

definition consumed_for :: "str \<Rightarrow> event \<Rightarrow> bool" where
  "consumed_for c e = (case e of TgHybridConsumed chat _ _ \<Rightarrow> canonical_id (PStr chat) = Some c | _ \<Rightarrow> False)"

definition is_consumed :: "event \<Rightarrow> bool" where
  "is_consumed e = (case e of TgHybridConsumed _ _ _ \<Rightarrow> True | _ \<Rightarrow> False)"

definition is_online :: "event \<Rightarrow> bool" where
  "is_online e = (case e of WireQuery _ _ (Some _) \<Rightarrow> True | _ \<Rightarrow> False)"

lemmas consent_defs = granted_for_def consumed_for_def is_consumed_def is_online_def

abbreviation tally :: "('a \<Rightarrow> bool) \<Rightarrow> 'a list \<Rightarrow> nat" where
  "tally P xs \<equiv> length (filter P xs)"

definition present :: "str \<Rightarrow> channel \<Rightarrow> nat" where
  "present c s = (if map_of (ch_files s) (session_path c) = None then 0 else 1)"

text \<open>
  From \<open>s\<close> to \<open>t\<close> the log grows by admissible events, each chat's consents are spent out of what
  was granted or already on file, and at most \<open>d\<close> more online queries are made than consumed.
\<close>

definition balance :: "tg_env \<Rightarrow> tg_config \<Rightarrow> int \<Rightarrow> channel \<Rightarrow> channel \<Rightarrow> bool" where
  "balance env cfg d s t \<longleftrightarrow> (\<exists>new. ch_log t = ch_log s @ new \<and> list_all (event_ok env cfg) new \<and>
     (\<forall>c. tally (consumed_for c) new + present c t \<le> tally (granted_for c) new + present c s) \<and>
     int (tally is_online new) \<le> int (tally is_consumed new) + d)"

lemma balance_trans:
  assumes "balance env cfg a s t" and "balance env cfg b t u"
  shows "balance env cfg (a + b) s u"
proof -
  from assms obtain n1 n2 where n: "ch_log t = ch_log s @ n1" "ch_log u = ch_log t @ n2"
    "list_all (event_ok env cfg) n1" "list_all (event_ok env cfg) n2"
    and c1: "\<And>c. tally (consumed_for c) n1 + present c t \<le> tally (granted_for c) n1 + present c s"
    and c2: "\<And>c. tally (consumed_for c) n2 + present c u \<le> tally (granted_for c) n2 + present c t"
    and o: "int (tally is_online n1) \<le> int (tally is_consumed n1) + a" "int (tally is_online n2) \<le> int (tally is_consumed n2) + b"
    unfolding balance_def by blast
  have "tally (consumed_for c) (n1 @ n2) + present c u \<le> tally (granted_for c) (n1 @ n2) + present c s" for c
    using c1 [of c] c2 [of c] by simp
  with n o show ?thesis unfolding balance_def by (intro exI [of _ "n1 @ n2"]) simp
qed

lemma balance_mono: "balance env cfg a s t \<Longrightarrow> a \<le> b \<Longrightarrow> balance env cfg b s t"
  unfolding balance_def by fastforce

interpretation balf: frame "balance env cfg 0" for env cfg
proof
  show "balance env cfg 0 s s" for s by (simp add: balance_def)
  show "balance env cfg 0 s t \<Longrightarrow> balance env cfg 0 t u \<Longrightarrow> balance env cfg 0 s u" for s t u
    using balance_trans [of env cfg 0 s t 0 u] by simp
qed

lemma calm_event: "calm env cfg e \<Longrightarrow> \<not> consumed_for c e \<and> \<not> granted_for c e \<and> \<not> is_online e"
  by (cases e) (auto simp: calm_def neutral_def consent_defs split: option.splits)

lemma calm_tallies:
  assumes "list_all (calm env cfg) new"
  shows "tally (consumed_for c) new = 0" "tally (granted_for c) new = 0" "tally is_online new = 0"
  using assms calm_event by (simp_all add: filter_empty_conv list_all_iff) blast+

lemma adds_balance:
  assumes "adds (calm env cfg) s t"
  shows "balance env cfg 0 s t"
proof -
  from assms obtain new where new: "ch_log t = ch_log s @ new" "list_all (calm env cfg) new"
    and same: "present c t = present c s" for c
    by (auto simp: adds_def log_adds_def same_sessions_def present_def)
  have "list_all (event_ok env cfg) new" using new(2) by (simp add: list_all_iff calm_def)
  with new(1) same calm_tallies [OF new(2)] show ?thesis
    unfolding balance_def by (intro exI [of _ new]) simp
qed

lemma calm_balance: "keeps (adds (calm env cfg)) f \<Longrightarrow> keeps (balance env cfg 0) f"
  by (erule keeps_mono) (rule adds_balance)

lemma balance_emit: "calm env cfg e \<Longrightarrow> balance env cfg 0 u (u\<lparr>ch_log := ch_log u @ [e]\<rparr>)"
  by (rule adds_balance) (auto simp: adds_def log_adds_def same_sessions_def)

subsection \<open>Granting\<close>

lemma str_of_canonical: "canonical_id chat = Some c \<Longrightarrow> canonical_id (PStr (str_of py chat)) = Some c"
  by (cases chat) (auto simp: canonical_id_def str_of_def)

lemma grant_cases [consumes 1, case_names fails grants]:
  assumes "grant_hybrid_confirm env chat_id provider ttl s = (r, t)"
  obtains e where "r = Inl e" "adds P s t"
  | c until where "r = Inr until" "canonical_id chat_id = Some c" "ch_log t = ch_log s" "provider \<in> set ONLINE_PROVIDERS"
    "ch_files t = AList.update (session_path c) (Json (session_value until provider)) (ch_files s)"
  using assms
  by (auto simp: grant_hybrid_confirm_def canonical_chat_id_def handler_simps of_option_def disk_def save_file_def
      adds_def log_adds_def same_sessions_def
      elim!: hbind_cases split: if_splits option.splits)

lemma session_path_inj [simp]: "session_path c = session_path d \<longleftrightarrow> c = d"
  by (simp add: session_path_def)

lemma balance_grant:
  assumes hybrid: "tc_allow_hybrid_confirm cfg" and allowed: "is_chat_allowed (te_str env) cfg chat_id"
  shows "keeps (balance env cfg 0) (hbind (grant_hybrid_confirm env chat_id provider (tc_hybrid_confirm_ttl_sec cfg)) (\<lambda>until.
    hbind (emit (TgHybridGranted (str_of (te_str env) chat_id) provider (tc_hybrid_confirm_ttl_sec cfg) until)) (\<lambda>_. hret reply)))"
proof (rule keepsI)
  fix s r t
  let ?g = "grant_hybrid_confirm env chat_id provider (tc_hybrid_confirm_ttl_sec cfg)"
  assume "hbind ?g (\<lambda>until. hbind (emit (TgHybridGranted (str_of (te_str env) chat_id) provider
      (tc_hybrid_confirm_ttl_sec cfg) until)) (\<lambda>_. hret reply)) s = (r, t)"
  then show "balance env cfg 0 s t"
  proof (cases rule: hbind_cases)
    case (raises e)
    from raises(1) show ?thesis
      by (cases rule: grant_cases [where P = "calm env cfg"]) (simp_all add: adds_balance)
  next
    case (returns until u)
    let ?e = "TgHybridGranted (str_of (te_str env) chat_id) provider (tc_hybrid_confirm_ttl_sec cfg) until"
    from returns(1) obtain c where c: "canonical_id chat_id = Some c" "ch_log u = ch_log s" "provider \<in> set ONLINE_PROVIDERS"
      "ch_files u = AList.update (session_path c) (Json (session_value until provider)) (ch_files s)"
      by (cases rule: grant_cases [where P = "calm env cfg"]) simp_all
    have t: "t = u\<lparr>ch_log := ch_log u @ [?e]\<rparr>" using returns(2) by (simp add: hbind_emit handler_simps)
    have "event_ok env cfg ?e" using hybrid allowed c(3) by (simp add: event_ok_def is_chat_allowed_def)
    moreover have "tally (consumed_for d) [?e] + present d t \<le> tally (granted_for d) [?e] + present d s" for d
      using str_of_canonical [OF c(1)] c(4) t by (auto simp: consent_defs present_def update_conv')
    ultimately show ?thesis
      unfolding balance_def using c(2) t by (intro exI [of _ "[?e]"]) (simp add: consent_defs)
  qed
qed

subsection \<open>Claiming\<close>

lemma claim_cases [consumes 1, case_names nothing gone claimed]:
  assumes "claim_hybrid_confirm env chat_id s = (r, t)"
  obtains "\<forall>p. r \<noteq> Inr (Some p)" "adds P s t"
  | c where "r = Inr None" "ch_log t = ch_log s" "ch_files t = AList.delete (session_path c) (ch_files s)"
  | c until provider where "r = Inr (Some provider)" "canonical_id chat_id = Some c" "ch_log t = ch_log s"
    "load_hybrid_session (map_of (ch_files s) (session_path c)) = Some (until, provider)"
    "te_wall env (ch_clock s) < of_int until" "ch_files t = AList.delete (session_path c) (ch_files s)"
  using assms
  by (auto simp: claim_hybrid_confirm_def canonical_chat_id_def handler_simps of_option_def disk_def delete_file_def
      adds_def log_adds_def same_sessions_def not_le
      elim!: hbind_cases split: if_splits option.splits)

lemma present_delete: "present d (t) \<le> present d s" if "ch_files t = AList.delete p (ch_files s)"
  using that by (auto simp: present_def delete_conv')

lemma load_present: "load_hybrid_session (map_of (ch_files s) (session_path c)) = Some v \<Longrightarrow>
    map_of (ch_files s) (session_path c) \<noteq> None"
  by (auto simp: load_hybrid_session_def split: option.splits)

lemma load_provider: "load_hybrid_session f = Some (until, p) \<Longrightarrow> p \<in> set ONLINE_PROVIDERS"
  by (auto simp: load_hybrid_session_def split: option.splits state_file.splits pyval.splits if_splits)

lemma balance_claimed:
  assumes "claim_hybrid_confirm env chat_id s = (Inr (Some p), u)"
  shows "balance env cfg (-1) s (u\<lparr>ch_log := ch_log u @ [TgHybridConsumed (str_of (te_str env) chat_id) uid p]\<rparr>)"
  using assms
proof (cases rule: claim_cases [where P = "calm env cfg"])
  case (claimed c until provider)
  let ?e = "TgHybridConsumed (str_of (te_str env) chat_id) uid p" and ?t = "u\<lparr>ch_log := ch_log u @ [TgHybridConsumed (str_of (te_str env) chat_id) uid p]\<rparr>"
  have files: "ch_files ?t = AList.delete (session_path c) (ch_files s)" using claimed by simp
  have "tally (consumed_for d) [?e] + present d ?t \<le> tally (granted_for d) [?e] + present d s" for d
    using str_of_canonical [OF claimed(2)] load_present [OF claimed(4)] present_delete [OF files, of d] files
    by (auto simp: consent_defs present_def delete_conv')
  then show ?thesis
    unfolding balance_def using claimed(3)
    by (intro exI [of _ "[?e]"]) (simp add: consent_defs event_ok_def)
qed simp_all

lemma balance_unclaimed:
  assumes "claim_hybrid_confirm env chat_id s = (r, t)" and "\<forall>p. r \<noteq> Inr (Some p)"
  shows "balance env cfg 0 s t"
  using assms(1)
proof (cases rule: claim_cases [where P = "calm env cfg"])
  case nothing
  from this(2) show ?thesis by (rule adds_balance)
next
  case (gone c)
  with present_delete show ?thesis unfolding balance_def by (intro exI [of _ "[]"]) (simp add: consent_defs)
qed (use assms(2) in simp)

lemma claim_consent_balance:
  assumes "claim_consent env cfg chat_id chat_type uid s = (r, t)"
  shows "balance env cfg (case r of Inr (Some _) \<Rightarrow> -1 | _ \<Rightarrow> 0) s t \<and>
    (\<forall>p. r = Inr (Some p) \<longrightarrow> tc_allow_hybrid_confirm cfg)"
proof (cases "tc_allow_hybrid_confirm cfg \<and> chat_type = ''private''")
  case False
  with assms show ?thesis using balf.R_refl by (auto simp: claim_consent_def handler_simps)
next
  case True
  obtain r0 u where claim: "claim_hybrid_confirm env chat_id s = (r0, u)" by (metis surj_pair)
  show ?thesis
  proof (cases "\<exists>p. r0 = Inr (Some p)")
    case claimed: True
    then obtain p where p: "r0 = Inr (Some p)" by blast
    with assms True claim have "r = Inr (Some p)"
      "t = u\<lparr>ch_log := ch_log u @ [TgHybridConsumed (str_of (te_str env) chat_id) uid p]\<rparr>"
      by (auto simp: claim_consent_def hbind_def hcatch_def handler_simps emit_def)
    with balance_claimed [OF claim [unfolded p]] True show ?thesis by simp
  next
    case False
    then have b: "balance env cfg 0 s u" using balance_unclaimed [OF claim] by simp
    let ?e = "TgHybridStateError (str_of (te_str env) chat_id) uid"
    have e: "balance env cfg 0 s (u\<lparr>ch_log := ch_log u @ [?e]\<rparr>)"
      by (rule balf.R_trans [OF b balance_emit]) simp
    have "(t = u \<or> t = u\<lparr>ch_log := ch_log u @ [?e]\<rparr>) \<and> (\<forall>p. r \<noteq> Inr (Some p))"
    proof (cases r0)
      case (Inl x)
      with assms True claim show ?thesis
        by (cases x) (auto simp: claim_consent_def hbind_def hcatch_def handler_simps emit_def)
    next
      case (Inr v)
      with False assms True claim show ?thesis
        by (cases v) (auto simp: claim_consent_def hbind_def hcatch_def handler_simps)
    qed
    with b e show ?thesis by (auto split: sum.splits option.splits)
  qed
qed

subsection \<open>Querying\<close>

lemma post_query_balance:
  assumes "p \<noteq> None \<Longrightarrow> tc_allow_hybrid_confirm cfg"
    and "post_query env cfg query (p \<noteq> None) p s = (r, t)"
  shows "balance env cfg (if p = None then 0 else 1) s t"
proof -
  let ?text = "py_strip query"
  let ?e = "WireQuery ?text (p \<noteq> None) p"
  have refused: ?thesis if "t = s" using that balf.R_refl [of env cfg s] balance_mono [of env cfg 0 s s 1] by simp
  have rest: "keeps (balance env cfg 0) (post_query_response env ?text (p \<noteq> None) p resp)" for resp
    unfolding post_query_response_def Let_def
    by (intro calm_balance) (auto intro!: calm_rules split: reply.splits option.splits pyval.splits)
  have asked: ?thesis if "?text \<noteq> []" "int (length ?text) \<le> tc_max_message_chars cfg"
    "request ?e s = (Inr resp, u)" "post_query_response env ?text (p \<noteq> None) p resp u = (r, t)" for resp u
  proof -
    have "event_ok env cfg ?e" using that(1,2) assms(1) by (simp add: event_ok_def)
    moreover have "ch_log u = ch_log s @ [?e]" "present c u = present c s" for c
      using that(3) by (auto simp: request_def Let_def present_def)
    ultimately have "balance env cfg (if p = None then 0 else 1) s u"
      unfolding balance_def by (intro exI [of _ "[?e]"]) (simp add: consent_defs split: option.splits)
    from balance_trans [OF this keepsD [OF rest that(4)]] show ?thesis by simp
  qed
  have ok: "request e s \<noteq> (Inl x, v)" for e x v by (simp add: request_def Let_def)
  from assms(2) refused asked ok show ?thesis
    by (auto simp: post_query_def Let_def handler_simps elim!: hbind_cases split: if_splits)
qed

lemma balance_answer:
  assumes "\<And>p x. keeps (balance env cfg 0) (K p x)"
  shows "keeps (balance env cfg 0) (hbind (claim_consent env cfg chat_id chat_type uid) (\<lambda>p.
    hbind (post_query env cfg query (p \<noteq> None) p) (K p)))"
proof (rule keepsI)
  fix s r t
  assume "hbind (claim_consent env cfg chat_id chat_type uid) (\<lambda>p.
    hbind (post_query env cfg query (p \<noteq> None) p) (K p)) s = (r, t)"
  then show "balance env cfg 0 s t"
  proof (cases rule: hbind_cases)
    case (raises e)
    then show ?thesis using claim_consent_balance [OF raises(1)] by simp
  next
    case (returns p u)
    note claim = claim_consent_balance [OF returns(1)]
    have post: "balance env cfg (if p = None then 0 else 1) u v"
      if "post_query env cfg query (p \<noteq> None) p u = (x, v)" for x v
      using post_query_balance [OF _ that] claim by blast
    have both: "balance env cfg 0 s v" if "post_query env cfg query (p \<noteq> None) p u = (x, v)" for x v
      using balance_trans [OF conjunct1 [OF claim] post [OF that]] by (cases p) simp_all
    from returns(2) show ?thesis
    proof (cases rule: hbind_cases)
      case (raises e)
      then show ?thesis using both by blast
    next
      case (returns x v)
      then show ?thesis using both balf.R_trans keepsD [OF assms] by blast
    qed
  qed
qed

section \<open>The handlers and the loop\<close>

lemma calm_gates: "keeps (adds (calm env cfg)) (inbound_gates env cfg chat_id uid)"
  unfolding inbound_gates_def by (auto intro!: calm_rules)

lemma gates_allowed: "inbound_gates env cfg chat_id uid s = (Inr x, t) \<Longrightarrow> is_chat_allowed (te_str env) cfg chat_id"
  by (auto simp: inbound_gates_def hbind_emit handler_simps elim!: hbind_cases split: if_splits)

lemma balance_online_command:
  assumes "is_chat_allowed (te_str env) cfg chat_id"
  shows "keeps (balance env cfg 0) (online_command env cfg chat_id chat_type text)"
proof -
  have "keeps (balance env cfg 0) (emit (TgHybridRefused c k))" for c k
    by (rule calm_balance [OF adds_emit]) simp
  then show ?thesis
    unfolding online_command_def
    using balance_grant [OF _ assms] by (auto intro!: balf.keeps_basic balf.keeps_bind [of env cfg "emit _"] split: option.splits)
qed

lemma balance_dispatch:
  assumes "is_chat_allowed (te_str env) cfg chat_id"
  shows "keeps (balance env cfg 0) (dispatch_command env cfg chat_id chat_type text)"
  unfolding dispatch_command_def
  using balance_online_command [OF assms] calm_balance [OF calm_health]
  by (auto intro!: balf.keeps_basic balf.keeps_bind split: option.splits)

lemma calm_deliver:
  assumes "allow_list_canonical cfg"
  shows "keeps (adds (calm env cfg)) (deliver_answer env cfg chat_id uid p answer)"
  unfolding deliver_answer_def
  using ok_send_message [OF assms] by (auto intro!: addf.keeps_catch calm_rules split: tg_exc.splits option.splits)

lemma keeps_option:
  "keeps R f \<Longrightarrow> (\<And>x. keeps R (g x)) \<Longrightarrow> keeps R (case v of None \<Rightarrow> f | Some x \<Rightarrow> g x)"
  by (cases v) simp_all

lemma balance_text:
  assumes "allow_list_canonical cfg"
  shows "keeps (balance env cfg 0) (handle_inbound_text env cfg chat_id text uid chat_type)"
proof -
  have inbound: "keeps (balance env cfg 0) (emit (TgInbound c u h n))" for c u h n
    by (rule calm_balance [OF adds_emit]) simp
  show ?thesis
    unfolding handle_inbound_text_def Let_def
    by (rule balf.keeps_bind_result [OF calm_balance [OF calm_gates]], drule gates_allowed)
      (intro balf.keeps_bind [OF inbound] balf.keeps_bind [OF balance_dispatch] keeps_option balance_answer
        balf.keeps_bind [OF calm_balance [OF ok_send_message [OF assms]]]
        balf.keeps_bind [OF calm_balance [OF calm_deliver [OF assms]]] balf.keeps_basic)
qed

lemma balance_media:
  assumes "allow_list_canonical cfg"
  shows "keeps (balance env cfg 0) (handle_inbound_media env cfg chat_id chat_type a caption uid)"
  unfolding handle_inbound_media_def
  by (intro calm_balance)
    (auto intro!: addf.keeps_bind addf.keeps_basic calm_gates adds_emit calm_refuse calm_stage
      ok_send_message [OF assms] split: option.splits)

lemma balance_update:
  assumes "allow_list_canonical cfg"
  shows "keeps (balance env cfg 0) (one_update env cfg update)"
proof -
  have "keeps (balance env cfg 0) (run_handler env cfg update)"
    unfolding run_handler_def Let_def
    using balance_text [OF assms] balance_media [OF assms]
    by (auto intro!: balf.keeps_bind balf.keeps_basic split: option.splits pyval.splits)
  then show ?thesis
    unfolding one_update_def Let_def
    by (auto intro!: balf.keeps_catch balf.keeps_bind balf.keeps_basic split: tg_exc.splits)
qed

lemma balance_poll_once:
  assumes "allow_list_canonical cfg"
  shows "keeps (balance env cfg 0) (poll_once env cfg offset)"
proof -
  have "keeps (balance env cfg 0) (poll_updates env cfg o' acc updates)" for o' acc updates
    by (induction updates arbitrary: o' acc)
      (auto intro!: balf.keeps_bind balf.keeps_basic balance_update assms split: pyval.splits update_verdict.splits)
  then show ?thesis
    unfolding poll_once_def by (intro balf.keeps_bind balf.keeps_basic calm_balance [OF calm_get_updates])
qed

lemma calm_save_offset: "keeps (adds (calm env cfg)) (save_offset offset)"
  unfolding save_offset_def by (intro adds_rules)

lemma calm_persist: "keeps (adds (calm env cfg)) (persist_offset pause offset)"
proof (rule keepsI)
  fix s r t show "persist_offset pause offset s = (r, t) \<Longrightarrow> adds (calm env cfg) s t"
  proof (induction pause offset s rule: persist_offset.induct)
    case (1 pause offset s)
    obtain r0 u where save: "save_offset offset s = (r0, u)" by (metis surj_pair)
    note q = keepsD [OF calm_save_offset save, of env cfg]
    let ?v = "snd (sleep pause (snd (emit (TgOffsetPersistFailed offset) u)))"
    have "adds (calm env cfg) u ?v"
      using addf.R_trans [OF keepsD [OF adds_emit, of "calm env cfg"] keepsD [OF adds_sleep]] by (metis calm_simple(1,12) prod.collapse)
    then show ?case
      using 1 save q addf.R_trans
      by (subst (asm) (2) persist_offset.simps) (auto split: sum.splits tg_exc.splits)
  qed
qed

lemma balance_batch:
  assumes "allow_list_canonical cfg"
  shows "keeps (balance env cfg 0) (poll_batch env cfg pause offset)"
proof -
  have "keeps (balance env cfg 0) (advance_offset pause offset new)" for new
    unfolding advance_offset_def
    by (auto intro!: calm_balance addf.keeps_bind addf.keeps_basic calm_persist split: option.splits)
  moreover have "keeps (balance env cfg 0) (sleep d)" for d by (rule calm_balance [OF adds_sleep]) simp
  ultimately show ?thesis
    unfolding poll_batch_def
    by (auto intro!: balf.keeps_catch balf.keeps_bind balf.keeps_basic balance_poll_once assms
        split: tg_exc.splits option.splits)
qed

lemma balance_forever:
  assumes "allow_list_canonical cfg"
  shows "keeps (balance env cfg 0) (poll_forever env cfg n pause)"
proof -
  have "keeps (balance env cfg 0) (poll_loop env cfg pause n offset)" for n offset
    by (induction n arbitrary: offset) (auto intro!: balf.keeps_bind balf.keeps_basic balance_batch assms)
  moreover have "keeps (balance env cfg 0) load_offset"
    unfolding load_offset_def by (intro calm_balance addf.keeps_bind adds_disk addf.keeps_basic)
  ultimately show ?thesis unfolding poll_forever_def by (intro balf.keeps_bind balf.keeps_basic)
qed

section \<open>Acknowledging\<close>

text \<open>The offset after the updates of a list were acknowledged.\<close>

definition acked :: "int option \<Rightarrow> pyval list \<Rightarrow> int option" where
  "acked offset us = foldl (\<lambda>o' u. case u of PDict d \<Rightarrow> ack (dget d ''update_id'' PNone) o' | _ \<Rightarrow> o') offset us"

definition retryable :: "handled \<Rightarrow> bool" where
  "retryable h = (case h of HError _ _ b _ \<Rightarrow> b | _ \<Rightarrow> False)"

lemma run_handler_result: "run_handler env cfg update s = (Inr (Some h), t) \<Longrightarrow> \<not> retryable h"
  by (auto simp: run_handler_def Let_def handle_inbound_text_def handle_inbound_media_def refuse_media_def
      handler_simps retryable_def
      elim!: hbind_cases split: option.splits pyval.splits)

lemma one_update_verdict:
  "one_update env cfg update s = (Inr v, t) \<Longrightarrow>
   (case v of Skip \<Rightarrow> True | Done h \<Rightarrow> \<not> retryable h | Stop h \<Rightarrow> retryable h)"
  by (auto simp: one_update_def hcatch_def hbind_def handler_simps Let_def retryable_def
      dest: run_handler_result split: prod.splits sum.splits option.splits tg_exc.splits if_splits)

lemma poll_updates_prefix:
  assumes "poll_updates env cfg offset acc us s = (Inr (next, results), t)" and "list_all (\<lambda>h. \<not> retryable h) acc"
  shows "\<exists>k \<le> length us. next = acked offset (take k us) \<and>
    (if k = length us then list_all (\<lambda>h. \<not> retryable h) results
     else results \<noteq> [] \<and> retryable (last results) \<and> list_all (\<lambda>h. \<not> retryable h) (butlast results)) \<and>
    poll_updates env cfg offset acc (take (Suc k) us) s = (Inr (next, results), t)"
  using assms
proof (induction us arbitrary: offset acc s)
  case Nil
  then show ?case by (simp add: handler_simps acked_def)
next
  case (Cons u us)
  have skip: ?case if "poll_updates env cfg (acked offset [u]) acc' us s' = (Inr (next, results), t)"
    "list_all (\<lambda>h. \<not> retryable h) acc'"
    "\<And>vs. poll_updates env cfg offset acc (u # vs) s = poll_updates env cfg (acked offset [u]) acc' vs s'" for acc' s'
  proof -
    from Cons.IH [OF that(1,2)] obtain k where k: "k \<le> length us" "next = acked (acked offset [u]) (take k us)"
      "if k = length us then list_all (\<lambda>h. \<not> retryable h) results
       else results \<noteq> [] \<and> retryable (last results) \<and> list_all (\<lambda>h. \<not> retryable h) (butlast results)"
      "poll_updates env cfg (acked offset [u]) acc' (take (Suc k) us) s' = (Inr (next, results), t)" by blast
    then show ?thesis
      using that(3) [of "take (Suc k) us"] by (intro exI [of _ "Suc k"]) (simp add: acked_def)
  qed
  show ?case
  proof (cases "\<exists>d. u = PDict d")
    case False
    then have same: "acked offset [u] = offset"
      "\<And>vs. poll_updates env cfg offset acc (u # vs) s = poll_updates env cfg offset acc vs s"
      by (cases u; simp add: acked_def)+
    show ?thesis by (rule skip [of acc s]) (use Cons.prems same in simp_all)
  next
    case True
    then obtain d where d: "u = PDict d" by blast
    with Cons.prems(1) obtain v s' where v: "one_update env cfg d s = (Inr v, s')"
      by (auto elim!: hbind_cases)
    note verdict = one_update_verdict [OF v]
    have ack: "acked offset [u] = ack (dget d ''update_id'' PNone) offset" by (simp add: acked_def d)
    show ?thesis
    proof (cases v)
      case Skip
      then show ?thesis by (intro skip [of acc s']) (use Cons.prems v d ack in simp_all)
    next
      case (Done h)
      then show ?thesis by (intro skip [of "acc @ [h]" s']) (use Cons.prems v d ack verdict in simp_all)
    next
      case (Stop h)
      with Cons.prems v d verdict show ?thesis by (intro exI [of _ 0]) (auto simp: acked_def handler_simps)
    qed
  qed
qed

definition stored_offset :: "channel \<Rightarrow> int option" where
  "stored_offset s = (case map_of (ch_files s) OFFSET_PATH of
     Some (Json (PDict d)) \<Rightarrow> (case dget d ''offset'' PNone of PInt off \<Rightarrow> if 0 \<le> off then Some off else None | _ \<Rightarrow> None)
   | _ \<Rightarrow> None)"

lemma load_offset_stored: "ch_disk s = [] \<Longrightarrow> fst (load_offset s) = Inr (stored_offset s)"
  by (simp add: load_offset_def hbind_def disk_def handler_simps stored_offset_def)

lemma save_offset_stored: "save_offset offset s = (Inr x, t) \<Longrightarrow> stored_offset t = Some offset"
  by (auto simp: save_offset_def save_file_def handler_simps stored_offset_def update_conv' dget_def
      elim!: hbind_cases split: if_splits)

lemma persist_offset_stored: "persist_offset pause offset s = (Inr x, t) \<Longrightarrow> stored_offset t = Some offset"
proof (induction pause offset s rule: persist_offset.induct)
  case (1 pause offset s)
  then show ?case
    by (subst (asm) (2) persist_offset.simps) (auto dest: save_offset_stored split: prod.splits sum.splits tg_exc.splits)
qed

section \<open>A run\<close>

text \<open>A chat configuration, and two updates: the operator arms one consent, then asks.\<close>

definition chat_raw :: pyval where
  "chat_raw = PDict [(''telegram'', PDict [(''enabled'', PBool True), (''mode'', PStr ''chat''),
     (''allow_hybrid_confirm'', PBool True), (''allowed_chat_ids'', PList [PInt 42])])]"

definition chat_config :: tg_config where
  "chat_config = demo_config\<lparr>tc_mode := ''chat'', tc_allow_hybrid_confirm := True\<rparr>"

lemma chat_config_loads: "load_telegram_config (\<lambda>_. True) (\<lambda>s. s) (Some chat_raw) = Inr chat_config"
  by code_simp

definition text_update :: "int \<Rightarrow> str \<Rightarrow> pyval" where
  "text_update uid body = PDict [(''update_id'', PInt uid), (''message'',
     PDict [(''chat'', PDict [(''id'', PInt 42), (''type'', PStr ''private'')]), (''text'', PStr body)])]"

definition api_ok :: "pyval \<Rightarrow> reply" where
  "api_ok result = Reply 200 (Some (PDict [(''ok'', PBool True), (''result'', result)])) None [] 1"

definition sent_reply :: reply where
  "sent_reply = api_ok (PDict [(''message_id'', PInt 9)])"

definition demo_run :: channel where
  "demo_run = demo_channel [api_ok (PList [text_update 5 ''/online on grok'', text_update 6 ''hi'']),
     sent_reply, Reply 200 (Some (PDict [(''answer'', PStr ''yes'')])) None [] 1, sent_reply]"

lemma demo_run_spends:
  "let t = snd (poll_forever demo_env chat_config 1 2 demo_run) in
     tally is_online (ch_log t) = 1 \<and> tally (consumed_for ''42'') (ch_log t) = 1 \<and>
     tally (granted_for ''42'') (ch_log t) = 1 \<and> stored_offset t = Some 7"
  by code_simp

text \<open>
  The audit record of a lost online answer covers runtime errors of the send, not refusals: when
  the outbound window is full after the query was made, the consent is gone, the provider was
  asked, the answer is dropped, and no record of that is written.
\<close>

definition full_window_run :: channel where
  "full_window_run = (demo_channel [api_ok (PList [text_update 6 ''hi'']),
      Reply 200 (Some (PDict [(''answer'', PStr ''yes'')])) None [] 1])
     \<lparr>ch_files := [(session_path ''42'', Json (session_value 2000 ''grok''))],
      ch_limiters := [((20, 60), \<lparr>tg_max_ops = 20, tg_window = 60, tg_events = [(OUTBOUND, replicate 20 100)], tg_reserved = []\<rparr>)]\<rparr>"

definition is_undelivered :: "event \<Rightarrow> bool" where
  "is_undelivered e = (case e of TgUndelivered _ _ _ \<Rightarrow> True | _ \<Rightarrow> False)"

lemma refused_answer_not_audited:
  "let t = snd (poll_once demo_env chat_config None full_window_run) in
     tally is_online (ch_log t) = 1 \<and> tally is_consumed (ch_log t) = 1 \<and> map_of (ch_files t) (session_path ''42'') = None \<and>
     \<not> list_ex is_send (ch_log t) \<and> \<not> list_ex is_undelivered (ch_log t)"
  by code_simp

section \<open>Properties\<close>

lemma loaded_canonical:
  assumes "load_telegram_config ip_ok expand raw = Inr cfg"
  shows "allow_list_canonical cfg"
proof -
  from assms obtain d where "config_of_block ip_ok expand d = Inr cfg"
    by (auto simp: load_telegram_config_def split: option.splits pyval.splits)
  then obtain rl q media where "post_init ip_ok d rl q media = Inr cfg"
    by (auto simp: config_of_block_def ebind_Inr_iff)
  from post_init_sound [OF this] show ?thesis by (simp add: allow_list_canonical_def)
qed

text \<open>
  C11: a consent is spent at most once. Over any number of batches, whatever network and disk
  do, the consents consumed for a chat never exceed those granted to it in the run plus one that
  was on file before; and an online query is only made after a consent was consumed for it.
\<close>

theorem consent_spent_once:
  assumes "load_telegram_config ip_ok expand raw = Inr cfg"
    and "poll_forever env cfg n pause s = (r, t)"
  shows "\<exists>new. ch_log t = ch_log s @ new \<and>
    (\<forall>c. tally (consumed_for c) new + present c t \<le> tally (granted_for c) new + present c s) \<and>
    tally is_online new \<le> tally is_consumed new"
  using keepsD [OF balance_forever [OF loaded_canonical [OF assms(1)]] assms(2)] by (auto simp: balance_def)

theorem consent_spent_once_witness:
  "\<exists>new. ch_log (snd (poll_forever demo_env chat_config 1 2 demo_run)) = new \<and> tally is_online new = 1 \<and>
     tally (consumed_for ''42'') new \<le> tally (granted_for ''42'') new"
proof -
  obtain r t where run: "poll_forever demo_env chat_config 1 2 demo_run = (r, t)" by (metis surj_pair)
  have start: "ch_log demo_run = []" "present c demo_run = 0" for c
    by (simp_all add: demo_run_def demo_channel_def present_def)
  from consent_spent_once [OF chat_config_loads run]
  have "tally (consumed_for ''42'') (ch_log t) \<le> tally (granted_for ''42'') (ch_log t)"
    using start(2) [of "''42''"] start(1) by (auto dest: spec [of _ "''42''"])
  with demo_run_spends show ?thesis by (simp add: run Let_def)
qed

text \<open>
  Everything the channel puts on the wire is within its configuration. Messages go to
  chats of the allow-list and fit the limit; queries fit the limit and name a provider exactly
  when confirmed, which needs hybrid confirmation enabled; consents are granted only to chats of
  the allow-list for the configured time; and a staged file goes to the configured root, passed
  every \<open>fsconnect\<close> gate and is within the cap.
\<close>

theorem channel_within_config:
  assumes "load_telegram_config ip_ok expand raw = Inr cfg"
    and "poll_forever env cfg n pause s = (r, t)"
  shows "\<exists>new. ch_log t = ch_log s @ new \<and> list_all (event_ok env cfg) new"
  using keepsD [OF balance_forever [OF loaded_canonical [OF assms(1)]] assms(2)] by (auto simp: balance_def)

theorem channel_within_config_witness:
  "list_all (event_ok demo_env chat_config) (ch_log (snd (poll_forever demo_env chat_config 1 2 demo_run)))"
proof -
  obtain r t where run: "poll_forever demo_env chat_config 1 2 demo_run = (r, t)" by (metis surj_pair)
  have "ch_log demo_run = []" by (simp add: demo_run_def demo_channel_def)
  with channel_within_config [OF chat_config_loads run] show ?thesis by (simp add: run del: One_nat_def)
qed

text \<open>
  C12: acknowledgement. A batch acknowledges exactly a prefix of its updates; it stops short only
  at an update whose failure may be retried, that failure is the last result and the only
  retryable one, and what comes after it in the batch has no effect at all: it will be
  delivered again.
\<close>

theorem poll_acknowledges_prefix:
  assumes "poll_once env cfg offset s = (Inr (next, results), t)"
  shows "\<exists>updates u. get_updates env cfg offset s = (Inr updates, u) \<and>
    (\<exists>k \<le> length updates. next = acked offset (take k updates) \<and>
      (if k = length updates then list_all (\<lambda>h. \<not> retryable h) results
       else results \<noteq> [] \<and> retryable (last results) \<and> list_all (\<lambda>h. \<not> retryable h) (butlast results)) \<and>
      poll_updates env cfg offset [] (take (Suc k) updates) u = (Inr (next, results), t))"
proof -
  from assms obtain updates u where "get_updates env cfg offset s = (Inr updates, u)"
    and "poll_updates env cfg offset [] updates u = (Inr (next, results), t)"
    by (auto simp: poll_once_def handler_simps elim!: hbind_cases split: if_splits)
  with poll_updates_prefix [of env cfg offset "[]" updates u "next" results t] show ?thesis by auto
qed

definition stalled_run :: channel where
  "stalled_run = demo_channel [api_ok (PList [text_update 5 ''/help'', text_update 6 ''hi'', text_update 7 ''ho'']),
     sent_reply, NetError ''ConnectError'' 1]"

lemma stalled_poll:
  "fst (poll_once demo_env chat_config None stalled_run) =
     Inr (Some 6, [HCommand HELP_TEXT, HError ''TELEGRAM_RUNTIME_ERROR'' ''42'' True None])"
  by code_simp

theorem poll_acknowledges_prefix_witness:
  "\<exists>t updates k. poll_once demo_env chat_config None stalled_run =
      (Inr (Some 6, [HCommand HELP_TEXT, HError ''TELEGRAM_RUNTIME_ERROR'' ''42'' True None]), t) \<and>
    Some 6 = acked None (take k updates) \<and> k \<noteq> length updates"
proof -
  obtain r t where run: "poll_once demo_env chat_config None stalled_run = (r, t)" by (metis surj_pair)
  with stalled_poll have r: "r = Inr (Some 6, [HCommand HELP_TEXT, HError ''TELEGRAM_RUNTIME_ERROR'' ''42'' True None])" by simp
  have "retryable (HError ''TELEGRAM_RUNTIME_ERROR'' ''42'' True None)" by (simp add: retryable_def)
  with poll_acknowledges_prefix [OF run [unfolded r]] obtain updates k where
    "Some 6 = acked None (take k updates)" "k \<noteq> length updates" by (auto split: if_splits)
  with run r show ?thesis by blast
qed

text \<open>The disk refuses the offset twice.\<close>

definition flaky_run :: channel where
  "flaky_run = demo_run\<lparr>ch_disk := [False, False, False, False, False, True, True]\<rparr>"

lemma flaky_batch: "fst (poll_batch demo_env chat_config 2 None flaky_run) = Inr (Some 7)"
  by code_simp

text \<open>
  The offset is durable before the next poll. When a batch returns with a new offset, the
  offset file holds it, however often the disk refused the write, so that a restart resumes there.
\<close>

theorem offset_durable:
  assumes "poll_batch env cfg pause offset s = (Inr offset', t)" and "offset' \<noteq> offset"
  shows "stored_offset t = offset'"
proof -
  have keep: "stored_offset u' = stored_offset u" if "(case batch_delay pause rs of None \<Rightarrow> hret () | Some d \<Rightarrow> sleep d) u = (x, u')"
    for rs u x u'
    using that by (auto simp: sleep_def handler_simps stored_offset_def split: option.splits)
  have adv: "stored_offset u = o'" if "advance_offset pause offset new s' = (Inr o', u)" "o' \<noteq> offset" for new s' u o'
    using that by (auto simp: advance_offset_def handler_simps dest: persist_offset_stored elim!: hbind_cases
        split: option.splits if_splits)
  show ?thesis
    using assms keep adv
    by (fastforce simp: poll_batch_def hcatch_def handler_simps elim!: hbind_cases
        split: prod.splits sum.splits tg_exc.splits if_splits)
qed

theorem offset_durable_witness:
  "stored_offset (snd (poll_batch demo_env chat_config 2 None flaky_run)) = Some 7"
proof -
  obtain r t where run: "poll_batch demo_env chat_config 2 None flaky_run = (r, t)" by (metis surj_pair)
  with flaky_batch have "r = Inr (Some 7)" by simp
  with run offset_durable [of demo_env chat_config 2 None flaky_run "Some 7" t] show ?thesis by simp
qed

end
