(* ===== verification/Authn.thy ===== *)
theory Authn
  imports Py_Codec
begin

text \<open>
  Model of \<open>utils/authn.py\<close>: the policy checks on roles, user names and passwords, the
  self-describing scrypt records with their pending form, and the lockout arithmetic.

  \<open>hashlib.scrypt\<close> and SHA-256 are cryptographic primitives: the record \<open>crypto\<close> carries them
  as functions (\<open>kdf\<close>, the derivation on admissible parameters, and \<open>sha256_hex\<close>). The
  rejection of inadmissible parameters by \<open>hashlib.scrypt\<close> is modelled. Random values (salts,
  identifiers, tokens) are arguments of the operations that draw them. \<open>verify_password\<close> also
  returns the cost parameters of the scrypt calls it made, which is what an observer of its
  running time sees.
\<close>

section \<open>Constants\<close>

definition SCRYPT_N :: int where "SCRYPT_N = 2 ^ 17"
definition SCRYPT_R :: int where "SCRYPT_R = 8"
definition SCRYPT_P :: int where "SCRYPT_P = 1"
definition SCRYPT_DKLEN :: nat where "SCRYPT_DKLEN = 32"
definition SCRYPT_MAXMEM :: int where "SCRYPT_MAXMEM = SCRYPT_N * SCRYPT_R * 128 * 4"
definition ALGO :: str where "ALGO = ''scrypt''"
definition FIELD_SEP :: char where "FIELD_SEP = CHR ''$''"
definition PENDING_HASH_PREFIX :: str where "PENDING_HASH_PREFIX = ''pending$''"
definition RECORD_FIELDS :: nat where "RECORD_FIELDS = 6"
definition LOCKOUT_THRESHOLD :: int where "LOCKOUT_THRESHOLD = 5"
definition LOCKOUT_BASE_SEC :: seconds where "LOCKOUT_BASE_SEC = 2"
definition LOCKOUT_CEILING_SEC :: seconds where "LOCKOUT_CEILING_SEC = 900"
definition ROLES :: "str list" where "ROLES = [''admin'', ''operator'', ''audit'']"
definition DEFAULT_ROLE :: str where "DEFAULT_ROLE = ''operator''"
definition MIN_PASSWORD_LEN :: nat where "MIN_PASSWORD_LEN = 12"
definition MAX_PASSWORD_LEN :: nat where "MAX_PASSWORD_LEN = 1024"

lemmas scrypt_consts = SCRYPT_N_def SCRYPT_R_def SCRYPT_P_def SCRYPT_DKLEN_def SCRYPT_MAXMEM_def
lemmas lockout_consts = LOCKOUT_THRESHOLD_def LOCKOUT_BASE_SEC_def LOCKOUT_CEILING_SEC_def

text \<open>The exceptions of the authentication subsystem (\<open>utils/authn.py\<close>, \<open>utils/errors.py\<close>).\<close>

datatype auth_error =
    PasswordPolicyError str
  | AuthUserExists str
  | AuthUserNotFound str
  | AuthLastAdmin str str
  | AuthLoginFailed
  | AuthAccountLocked str seconds
  | AuthTokenLabelExists str str
  | AuthBootstrapComplete str
  | IntegrityError

record crypto =
  kdf :: "str \<Rightarrow> str \<Rightarrow> int \<Rightarrow> int \<Rightarrow> int \<Rightarrow> str"
  sha256_hex :: "str \<Rightarrow> str"

section \<open>Policy checks\<close>

definition validate_role :: "pyval \<Rightarrow> auth_error + str" where
  "validate_role role = (case role of
      PStr r \<Rightarrow> (let canonical = py_lower (py_strip r) in
        if canonical \<in> set ROLES then Inr canonical
        else Inl (PasswordPolicyError ''role must be one of admin, audit, operator''))
    | _ \<Rightarrow> Inl (PasswordPolicyError ''role must be a string''))"

definition slug_start :: "char \<Rightarrow> bool" where
  "slug_start c = (97 \<le> code c \<and> code c \<le> 122 \<or> is_digit c)"

definition slug_char :: "char \<Rightarrow> bool" where
  "slug_char c = (slug_start c \<or> c \<in> set ''_.-'')"

text \<open>\<open>_USERNAME_RE.match\<close>; \<open>$\<close> also matches before a final newline.\<close>

definition username_re_match :: "str \<Rightarrow> bool" where
  "username_re_match s =
     (let body = (if s \<noteq> [] \<and> last s = CHR 0x0A then butlast s else s) in
      case body of [] \<Rightarrow> False
      | c # cs \<Rightarrow> slug_start c \<and> length cs \<le> 31 \<and> list_all slug_char cs)"

definition validate_username :: "pyval \<Rightarrow> auth_error + str" where
  "validate_username username = (case username of
      PStr u \<Rightarrow> (let canonical = py_lower (py_strip u) in
        if username_re_match canonical then Inr canonical
        else Inl (PasswordPolicyError ''username must be 1-32 chars, start alphanumeric, and contain only a-z 0-9 . _ -''))
    | _ \<Rightarrow> Inl (PasswordPolicyError ''username must be a string''))"

definition validate_password :: "pyval \<Rightarrow> auth_error + str" where
  "validate_password password = (case password of
      PStr p \<Rightarrow>
        if length p < MIN_PASSWORD_LEN
        then Inl (PasswordPolicyError (''password must be at least '' @ nat_str MIN_PASSWORD_LEN @ '' characters''))
        else if MAX_PASSWORD_LEN < length p
        then Inl (PasswordPolicyError (''password must be at most '' @ nat_str MAX_PASSWORD_LEN @ '' characters''))
        else Inr p
    | _ \<Rightarrow> Inl (PasswordPolicyError ''password must be a string''))"

section \<open>Password records\<close>

text \<open>
  \<open>hashlib.scrypt\<close>: \<open>n\<close> must be a power of two greater than one, \<open>r\<close> and \<open>p\<close> positive and the
  memory cost within \<open>maxmem\<close>; otherwise it raises (\<open>None\<close>).
\<close>

fun is_pow2 :: "nat \<Rightarrow> bool" where
  "is_pow2 n = (if n \<le> 1 then n = 1 else n mod 2 = 0 \<and> is_pow2 (n div 2))"

declare is_pow2.simps [simp del]

definition scrypt :: "crypto \<Rightarrow> str \<Rightarrow> str \<Rightarrow> int \<Rightarrow> int \<Rightarrow> int \<Rightarrow> str option" where
  "scrypt C password salt n r p =
     (if 1 < n \<and> is_pow2 (nat n) \<and> 0 < r \<and> 0 < p \<and> 128 * r * (n + p + 2) \<le> SCRYPT_MAXMEM
      then Some (kdf C (utf8 password) salt n r p) else None)"

definition hash_record :: "crypto \<Rightarrow> str \<Rightarrow> str \<Rightarrow> str" where
  "hash_record C password salt =
     py_join [FIELD_SEP] [ALGO, nat_str (nat SCRYPT_N), nat_str (nat SCRYPT_R), nat_str (nat SCRYPT_P),
       b64encode salt, b64encode (the (scrypt C password salt SCRYPT_N SCRYPT_R SCRYPT_P))]"

definition hash_password :: "crypto \<Rightarrow> pyval \<Rightarrow> str \<Rightarrow> auth_error + str" where
  "hash_password C password salt =
     (case validate_password password of Inl e \<Rightarrow> Inl e | Inr p \<Rightarrow> Inr (hash_record C p salt))"

definition is_pending_password_record :: "str \<Rightarrow> bool" where
  "is_pending_password_record record = py_startswith record PENDING_HASH_PREFIX"

definition hash_pending_placeholder :: "crypto \<Rightarrow> str \<Rightarrow> str \<Rightarrow> auth_error + str" where
  "hash_pending_placeholder C secret salt =
     (case hash_password C (PStr secret) salt of Inl e \<Rightarrow> Inl e
      | Inr r \<Rightarrow> Inr (PENDING_HASH_PREFIX @ r))"

type_synonym verdict = "(bool \<times> bool) \<times> (int \<times> int \<times> int) list"

text \<open>The fields of a record after the splitting and the two \<open>try\<close> blocks.\<close>

definition parse_record :: "str \<Rightarrow> (int \<times> int \<times> int \<times> str \<times> str) option" where
  "parse_record record =
     (case py_split FIELD_SEP record of
        [algo, f1, f2, f3, f4, f5] \<Rightarrow>
          if algo \<noteq> ALGO then None
          else (case (py_int f1, py_int f2, py_int f3, b64decode f4, b64decode f5) of
              (Some n, Some r, Some p, Some salt, Some expected) \<Rightarrow> Some (n, r, p, salt, expected)
            | _ \<Rightarrow> None)
      | _ \<Rightarrow> None)"

definition verify_record :: "crypto \<Rightarrow> str \<Rightarrow> str \<Rightarrow> verdict" where
  "verify_record C password record =
     (case parse_record record of None \<Rightarrow> ((False, False), [])
      | Some (n, r, p, salt, expected) \<Rightarrow>
          if SCRYPT_N < n \<or> SCRYPT_R < r \<or> SCRYPT_P < p \<or> length expected \<noteq> SCRYPT_DKLEN
          then ((False, False), [])
          else (case scrypt C password salt n r p of None \<Rightarrow> ((False, False), [])
            | Some derived \<Rightarrow>
                let ok = (derived = expected) in
                ((ok, ok \<and> (n < SCRYPT_N \<or> r < SCRYPT_R \<or> p < SCRYPT_P)), [(n, r, p)])))"

lemma pending_longer: "is_pending_password_record record \<Longrightarrow> 8 \<le> length record"
  unfolding is_pending_password_record_def
  by (drule py_startswith_length) (simp add: PENDING_HASH_PREFIX_def)

function verify_password :: "crypto \<Rightarrow> str \<Rightarrow> str \<Rightarrow> verdict" where
  "verify_password C password record =
     (if is_pending_password_record record
      then ((False, False), snd (verify_password C password (drop (length PENDING_HASH_PREFIX) record)))
      else verify_record C password record)"
  by auto

termination
proof (relation "measure (\<lambda>(C, pw, rec). length rec)")
  fix C :: crypto and pw rec
  assume "is_pending_password_record rec"
  then show "((C, pw, drop (length PENDING_HASH_PREFIX) rec), C, pw, rec) \<in> measure (\<lambda>(C, pw, rec). length rec)"
    using pending_longer [of rec] by (simp add: PENDING_HASH_PREFIX_def)
qed simp

declare verify_password.simps [simp del]

text \<open>\<open>verify_password(password, record)[0]\<close>\<close>

definition verifies :: "crypto \<Rightarrow> str \<Rightarrow> str \<Rightarrow> bool" where
  "verifies C password record = fst (fst (verify_password C password record))"

definition needs_rehash :: "crypto \<Rightarrow> str \<Rightarrow> str \<Rightarrow> bool" where
  "needs_rehash C password record = snd (fst (verify_password C password record))"

definition hash_token :: "crypto \<Rightarrow> str \<Rightarrow> str" where
  "hash_token C token = sha256_hex C (utf8 token)"

section \<open>Lockout\<close>

definition lockout_delay_sec :: "int \<Rightarrow> seconds" where
  "lockout_delay_sec failed_count =
     (if failed_count < LOCKOUT_THRESHOLD then 0
      else let over = failed_count - LOCKOUT_THRESHOLD; max_doublings = 32;
               delay = LOCKOUT_BASE_SEC * 2 ^ nat (min over max_doublings)
           in min delay LOCKOUT_CEILING_SEC)"

definition is_locked :: "seconds option \<Rightarrow> seconds \<Rightarrow> bool" where
  "is_locked locked_until_ts now =
     (case locked_until_ts of None \<Rightarrow> False | Some t \<Rightarrow> t \<noteq> 0 \<and> now < t)"

definition next_lock_until :: "int \<Rightarrow> seconds \<Rightarrow> seconds" where
  "next_lock_until failed_count now = now + lockout_delay_sec failed_count"

section \<open>Properties of the records\<close>

lemma pow2_current: "is_pow2 131072"
  by (simp add: is_pow2.simps)

lemma scrypt_current:
  "scrypt C pw salt SCRYPT_N SCRYPT_R SCRYPT_P = Some (kdf C (utf8 pw) salt SCRYPT_N SCRYPT_R SCRYPT_P)"
  using pow2_current by (simp add: scrypt_def scrypt_consts)

lemma param_codec:
  "py_int (nat_str (nat SCRYPT_N)) = Some SCRYPT_N" "py_int (nat_str (nat SCRYPT_R)) = Some SCRYPT_R"
  "py_int (nat_str (nat SCRYPT_P)) = Some SCRYPT_P"
proof -
  have "length (nat_str 131072) \<le> 4300" "length (nat_str 8) \<le> 4300" "length (nat_str 1) \<le> 4300"
    by (simp_all add: nat_str.simps)
  then show "py_int (nat_str (nat SCRYPT_N)) = Some SCRYPT_N" "py_int (nat_str (nat SCRYPT_R)) = Some SCRYPT_R"
    "py_int (nat_str (nat SCRYPT_P)) = Some SCRYPT_P"
    using py_int_nat_str [of 131072] py_int_nat_str [of 8] py_int_nat_str [of 1]
    by (simp_all add: scrypt_consts)
qed

lemma sep_not_digit: "FIELD_SEP \<notin> set (nat_str n)"
  using nat_str_digits [of FIELD_SEP n] by (auto simp: FIELD_SEP_def is_digit_def code_def)

lemma sep_not_b64: "FIELD_SEP \<notin> set (b64encode s)"
  using b64_alphabet [of FIELD_SEP s] by (auto simp: FIELD_SEP_def b64_value_def code_def)

lemma parse_hash_record:
  "parse_record (hash_record C pw salt) =
     Some (SCRYPT_N, SCRYPT_R, SCRYPT_P, salt, kdf C (utf8 pw) salt SCRYPT_N SCRYPT_R SCRYPT_P)"
proof -
  let ?fs = "[ALGO, nat_str (nat SCRYPT_N), nat_str (nat SCRYPT_R), nat_str (nat SCRYPT_P),
    b64encode salt, b64encode (the (scrypt C pw salt SCRYPT_N SCRYPT_R SCRYPT_P))]"
  have "FIELD_SEP \<notin> set ALGO" by (simp add: ALGO_def FIELD_SEP_def)
  then have "py_split FIELD_SEP (py_join [FIELD_SEP] ?fs) = ?fs"
    by (intro py_split_join) (auto simp: sep_not_digit sep_not_b64)
  then show ?thesis
    unfolding parse_record_def hash_record_def
    by (simp only: list.case if_False not_True_eq_False simp_thms param_codec b64_round_trip
        option.case prod.case scrypt_current option.sel)
qed

lemma hash_record_not_pending: "\<not> is_pending_password_record (hash_record C pw salt)"
  by (simp add: is_pending_password_record_def py_startswith_def hash_record_def ALGO_def
      PENDING_HASH_PREFIX_def)

definition dk_ok :: "crypto \<Rightarrow> bool" where
  "dk_ok C = (\<forall>pw salt n r p. length (kdf C pw salt n r p) = SCRYPT_DKLEN)"

lemma verify_hash_record:
  assumes "dk_ok C"
  shows "verify_password C pw' (hash_record C pw salt) =
    ((kdf C (utf8 pw') salt SCRYPT_N SCRYPT_R SCRYPT_P = kdf C (utf8 pw) salt SCRYPT_N SCRYPT_R SCRYPT_P, False),
     [(SCRYPT_N, SCRYPT_R, SCRYPT_P)])"
  using assms
  by (simp add: verify_password.simps [of C pw' "hash_record C pw salt"] hash_record_not_pending verify_record_def parse_hash_record
      scrypt_current dk_ok_def)

lemma pending_prefix: "is_pending_password_record (PENDING_HASH_PREFIX @ r)"
  by (simp add: is_pending_password_record_def)

lemma pending_never_verifies: "is_pending_password_record record \<Longrightarrow> \<not> verifies C pw record"
  by (simp add: verifies_def verify_password.simps [of C pw "record"])

lemma verify_pending_cost:
  "snd (verify_password C pw (PENDING_HASH_PREFIX @ r)) = snd (verify_password C pw r)"
  by (simp add: verify_password.simps [of C pw "PENDING_HASH_PREFIX @ r"] pending_prefix)

lemma verify_record_inv:
  assumes "fst (fst (verify_record C pw record))"
  shows "\<exists>n r p salt. parse_record record = Some (n, r, p, salt, kdf C (utf8 pw) salt n r p) \<and>
           1 < n \<and> n \<le> SCRYPT_N \<and> 0 < r \<and> r \<le> SCRYPT_R \<and> 0 < p \<and> p \<le> SCRYPT_P \<and>
           length (kdf C (utf8 pw) salt n r p) = SCRYPT_DKLEN"
  using assms unfolding verify_record_def scrypt_def
  by (auto simp: Let_def split: option.splits if_splits)

lemma verify_record_cost:
  "\<forall>(n, r, p) \<in> set (snd (verify_record C pw record)). 128 * r * (n + p + 2) \<le> SCRYPT_MAXMEM \<and> n \<le> SCRYPT_N"
  unfolding verify_record_def scrypt_def by (auto simp: Let_def split: option.splits)

lemma verify_cost_bounded:
  "length (snd (verify_password C pw record)) \<le> 1 \<and>
   (\<forall>(n, r, p) \<in> set (snd (verify_password C pw record)). 128 * r * (n + p + 2) \<le> SCRYPT_MAXMEM)"
proof (induction C pw "record" rule: verify_password.induct)
  case (1 C pw "record")
  show ?case
  proof (cases "is_pending_password_record record")
    case True
    with 1 show ?thesis by (simp add: verify_password.simps [of C pw "record"])
  next
    case False
    then show ?thesis using verify_record_cost [of C pw "record"]
      by (auto simp: verify_password.simps [of C pw "record"] verify_record_def Let_def split: option.splits)
  qed
qed

section \<open>Canonical names\<close>

lemma slug_char_props: "slug_char c \<Longrightarrow> \<not> py_isspace c \<and> py_lower_char c = c \<and> c \<noteq> CHR 0x0A"
  by (auto simp: slug_char_def slug_start_def is_digit_def py_isspace_def py_lower_char_def Let_def code_def)

lemma slug_start_char: "slug_start c \<Longrightarrow> slug_char c"
  by (simp add: slug_char_def)

lemma lower_not_newline: "py_isspace (py_lower_char c) = py_isspace c"
  by (simp add: py_isspace_def py_lower_char_def code_def Let_def of_char_of)

lemma py_strip_last: "py_strip s \<noteq> [] \<Longrightarrow> \<not> py_isspace (last (py_strip s))"
  by (metis hd_dropWhile last_rev py_lstrip_def py_strip_def rev_is_Nil_conv)

lemma validate_username_shape:
  assumes "validate_username u = Inr c"
  shows "\<exists>x xs. c = x # xs \<and> slug_start x \<and> length xs \<le> 31 \<and> list_all slug_char xs"
proof -
  obtain s where u: "u = PStr s" and c: "c = py_lower (py_strip s)" and m: "username_re_match c"
    using assms by (auto simp: validate_username_def Let_def split: pyval.splits if_splits)
  have "c \<noteq> []" using m by (auto simp: username_re_match_def)
  then have ne: "py_strip s \<noteq> []" by (simp add: c py_lower_def)
  have "last c = py_lower_char (last (py_strip s))" using ne by (simp add: c py_lower_def last_map)
  then have "\<not> py_isspace (last c)" using py_strip_last [OF ne] by (simp add: lower_not_newline)
  then have "last c \<noteq> CHR 0x0A" by (auto simp: py_isspace_def code_def)
  with m show ?thesis by (auto simp: username_re_match_def Let_def split: list.splits)
qed

lemma slug_fixed:
  assumes "list_all slug_char s"
  shows "py_lower (py_strip s) = s"
proof -
  have "py_strip s = s" using assms slug_char_props by (auto simp: list_all_iff intro!: py_strip_id)
  moreover have "py_lower s = s" using assms slug_char_props
    by (auto simp: list_all_iff py_lower_def intro!: map_idI)
  ultimately show ?thesis by simp
qed

lemma validate_username_fixed:
  assumes "slug_start x" "length xs \<le> 31" "list_all slug_char xs"
  shows "validate_username (PStr (x # xs)) = Inr (x # xs)"
proof -
  have all: "list_all slug_char (x # xs)" using assms slug_start_char by simp
  then have "last (x # xs) \<noteq> CHR 0x0A" using slug_char_props last_in_set [of "x # xs"]
    by (simp only: list_all_iff) blast
  then show ?thesis using slug_fixed [OF all] assms
    by (simp add: validate_username_def username_re_match_def Let_def del: last.simps)
qed

section \<open>The claims on \<open>utils/authn.py\<close>\<close>

text \<open>
  Hashing and verification fit together. A password that the policy accepts is stored as a
  record of the current parameters that is not a pending record; verifying any candidate
  against it runs scrypt exactly once with those parameters, accepts precisely the same
  password (as long as the two passwords do not collide under the key derivation), and never
  asks for a re-hash.
\<close>

theorem password_round_trip:
  assumes "dk_ok C" and "validate_password (PStr pw) = Inr pw"
    and collision_free: "kdf C (utf8 pw') salt SCRYPT_N SCRYPT_R SCRYPT_P = kdf C (utf8 pw) salt SCRYPT_N SCRYPT_R SCRYPT_P
      \<Longrightarrow> utf8 pw' = utf8 pw"
  shows "\<exists>r. hash_password C (PStr pw) salt = Inr r \<and> \<not> is_pending_password_record r \<and>
     verify_password C pw' r = ((pw' = pw, False), [(SCRYPT_N, SCRYPT_R, SCRYPT_P)])"
proof (intro exI conjI)
  show "hash_password C (PStr pw) salt = Inr (hash_record C pw salt)"
    using assms(2) by (simp add: hash_password_def)
  show "\<not> is_pending_password_record (hash_record C pw salt)" by (rule hash_record_not_pending)
  have "kdf C (utf8 pw') salt SCRYPT_N SCRYPT_R SCRYPT_P = kdf C (utf8 pw) salt SCRYPT_N SCRYPT_R SCRYPT_P \<longleftrightarrow> pw' = pw"
    using collision_free utf8_inject by blast
  then show "verify_password C pw' (hash_record C pw salt) = ((pw' = pw, False), [(SCRYPT_N, SCRYPT_R, SCRYPT_P)])"
    by (simp add: verify_hash_record [OF assms(1)])
qed

text \<open>A stand-in for the primitives, for concrete evaluations: it pads its input.\<close>

definition pad32 :: "str \<Rightarrow> str" where
  "pad32 s = take 32 (s @ replicate 32 (char_of (0::nat)))"

definition demo_crypto :: crypto where
  "demo_crypto = \<lparr>kdf = (\<lambda>pw salt n r p. pad32 pw), sha256_hex = (\<lambda>s. s)\<rparr>"

lemma dk_ok_demo: "dk_ok demo_crypto"
  by (auto simp: dk_ok_def demo_crypto_def pad32_def SCRYPT_DKLEN_def min_def)

theorem password_round_trip_witness:
  "\<exists>r. hash_password demo_crypto (PStr ''correct horse'') ''salt'' = Inr r \<and>
     \<not> is_pending_password_record r \<and>
     verify_password demo_crypto ''battery staple'' r = ((False, False), [(SCRYPT_N, SCRYPT_R, SCRYPT_P)])"
  using password_round_trip [of demo_crypto "''correct horse''" "''battery staple''" "''salt''"] dk_ok_demo
  by (simp add: validate_password_def MIN_PASSWORD_LEN_def MAX_PASSWORD_LEN_def demo_crypto_def pad32_def code_def)

text \<open>
  A record that verifies is a genuine one. If \<open>verify_password\<close> accepts, the record is not a
  bootstrap placeholder, it parses into cost parameters within the current policy and a stored
  key of the full length, and that key is exactly what the key derivation gives for the
  presented password: forged records with truncated keys or inflated parameters never verify.
\<close>

theorem verify_sound:
  assumes "verifies C pw record"
  shows "\<not> is_pending_password_record record \<and>
    (\<exists>n r p salt expected. parse_record record = Some (n, r, p, salt, expected) \<and>
       1 < n \<and> n \<le> SCRYPT_N \<and> 0 < r \<and> r \<le> SCRYPT_R \<and> 0 < p \<and> p \<le> SCRYPT_P \<and>
       length expected = 32 \<and> kdf C (utf8 pw) salt n r p = expected)"
proof -
  have np: "\<not> is_pending_password_record record" using assms pending_never_verifies by blast
  then have "fst (fst (verify_record C pw record))"
    using assms by (simp add: verifies_def verify_password.simps [of C pw "record"])
  from verify_record_inv [OF this] np show ?thesis by (auto simp: SCRYPT_DKLEN_def)
qed

lemma demo_verifies: "verifies demo_crypto ''correct horse'' (hash_record demo_crypto ''correct horse'' ''salt'')"
  by (simp add: verifies_def verify_hash_record [OF dk_ok_demo])

theorem verify_sound_witness:
  "\<not> is_pending_password_record (hash_record demo_crypto ''correct horse'' ''salt'')"
  using verify_sound [OF demo_verifies] by simp

text \<open>
  Bounded work on an unauthenticated path. Whatever the stored record contains, one call of
  \<open>verify_password\<close> runs scrypt at most once, within the fixed memory ceiling.
\<close>

theorem verify_work_bounded:
  "length (snd (verify_password C pw record)) \<le> 1 \<and>
   list_all (\<lambda>(n, r, p). 128 * r * (n + p + 2) \<le> SCRYPT_MAXMEM) (snd (verify_password C pw record))"
  using verify_cost_bounded [of C pw "record"] by (simp add: list_all_iff)

text \<open>
  User names are canonical. An accepted name consists of 1 to 32 characters of the slug
  alphabet starting with a letter or digit, and validating the canonical name again returns it
  unchanged, so two spellings of one account cannot coexist.
\<close>

theorem username_canonical:
  assumes "validate_username u = Inr c"
  shows "1 \<le> length c \<and> length c \<le> 32 \<and> slug_start (hd c) \<and> list_all slug_char c \<and>
    validate_username (PStr c) = Inr c"
proof -
  obtain x xs where c: "c = x # xs" and x: "slug_start x" "length xs \<le> 31" "list_all slug_char xs"
    using validate_username_shape [OF assms] by blast
  then show ?thesis using validate_username_fixed [OF x] slug_start_char [OF x(1)] by simp
qed

theorem username_canonical_witness:
  "validate_username (PStr ''  Ops.Admin-1 '') = Inr ''ops.admin-1'' \<and>
   validate_username (PStr ''ops.admin-1'') = Inr ''ops.admin-1''"
proof -
  have "validate_username (PStr ''  Ops.Admin-1 '') = Inr ''ops.admin-1''"
    by code_simp
  with username_canonical [OF this] show ?thesis by simp
qed

lemma lockout_closed_form:
  "lockout_delay_sec c = (if c < 5 then 0 else if c < 14 then 2 ^ nat (c - 4) else 900)"
proof -
  consider "c < 5" | k where "c = 5 + int k" "k < 9" | k where "c = 5 + int k" "9 \<le> k"
  proof -
    assume a: "c < 5 \<Longrightarrow> thesis" "\<And>k. c = 5 + int k \<Longrightarrow> k < 9 \<Longrightarrow> thesis" "\<And>k. c = 5 + int k \<Longrightarrow> 9 \<le> k \<Longrightarrow> thesis"
    have "c < 5 \<or> c = 5 + int (nat (c - 5))" by simp
    with a show thesis by (meson not_less)
  qed
  then show ?thesis
  proof cases
    case (2 k)
    then have "k \<in> {0, 1, 2, 3, 4, 5, 6, 7, 8}" by auto
    with 2 show ?thesis by (auto simp: lockout_delay_sec_def lockout_consts nat_add_distrib)
  next
    case (3 k)
    have "(2::rat) ^ 9 \<le> 2 ^ nat (min (int k) 32)" using 3 by (intro power_increasing) auto
    with 3 show ?thesis by (simp add: lockout_delay_sec_def lockout_consts)
  qed (simp add: lockout_delay_sec_def lockout_consts)
qed

text \<open>
  The lockout schedule. Four failures are free; from the fifth the delay is 2 seconds and
  doubles with each further failure; from the fourteenth on it is flat at the ceiling of 900
  seconds, however large the attacker-controlled counter becomes; it never shrinks as failures
  accumulate.
\<close>

theorem lockout_schedule:
  assumes "c \<le> d"
  shows "lockout_delay_sec c = (if c < 5 then 0 else if c < 14 then 2 ^ nat (c - 4) else 900) \<and>
    lockout_delay_sec c \<le> lockout_delay_sec d \<and> lockout_delay_sec d \<le> LOCKOUT_CEILING_SEC"
proof -
  have "min a b \<le> min a' b" if "a \<le> a'" for a a' b :: rat using that by linarith
  moreover have "(2::rat) ^ nat (min (c - 5) 32) \<le> 2 ^ nat (min (d - 5) 32)"
    using assms by (intro power_increasing) auto
  ultimately have "lockout_delay_sec c \<le> lockout_delay_sec d"
    using assms by (auto simp: lockout_delay_sec_def lockout_consts)
  moreover have "lockout_delay_sec d \<le> LOCKOUT_CEILING_SEC"
    by (simp add: lockout_delay_sec_def lockout_consts)
  ultimately show ?thesis using lockout_closed_form by blast
qed

theorem lockout_schedule_witness:
  "lockout_delay_sec 7 = 8 \<and> lockout_delay_sec 7 \<le> lockout_delay_sec 10000"
  using lockout_schedule [of 7 10000] by simp

end
