(* ===== verification/Authn_Manager.thy ===== *)
theory Authn_Manager
  imports Authn "HOL-Library.List_Lexorder" "HOL-Library.Char_ord"
begin

text \<open>
  Model of \<open>utils/authn_manager.py\<close> (\<open>AuthManager\<close>) over the tables of \<open>utils/authn_store.py\<close>:
  accounts, sessions and device tokens with every operation that reads or writes them. A table
  is the list of its rows; an \<open>UPDATE ... WHERE\<close> maps over it and its \<open>rowcount\<close> is the number
  of matching rows; an \<open>INSERT\<close> that violates a primary key or the partial unique index fails.
  Each public operation is one transaction; \<open>login\<close>, the one operation with an expensive
  computation between its read and its write, is the composition of \<open>login_check\<close> and
  \<open>login_claim\<close>, so that other processes can be interleaved between the two. Clock readings and
  random values are arguments.
\<close>

section \<open>Tables\<close>

record user_row =
  u_name :: str
  u_hash :: str
  u_created :: seconds
  u_disabled :: bool
  u_last_login :: "seconds option"
  u_failed :: int
  u_locked :: "seconds option"
  u_role :: str

record session_row =
  s_id :: str
  s_user :: str
  s_csrf :: str
  s_created :: seconds
  s_seen :: seconds
  s_expires :: seconds
  s_revoked :: bool

record token_row =
  t_hash :: str
  t_user :: str
  t_label :: str
  t_created :: seconds
  t_last_used :: "seconds option"
  t_revoked :: bool

record auth_db =
  users :: "user_row list"
  sessions :: "session_row list"
  tokens :: "token_row list"

record auth_cfg =
  idle_timeout_sec :: seconds
  absolute_timeout_sec :: seconds

record login_result =
  lr_username :: str
  lr_session_id :: str
  lr_csrf_token :: str
  lr_expires_ts :: seconds

record session_info =
  si_session_id :: str
  si_username :: str
  si_csrf_token :: str

definition BOOTSTRAP_USERNAME :: str where
  "BOOTSTRAP_USERNAME = ''admin''"

definition dummy_record :: "crypto \<Rightarrow> str" where
  "dummy_record C = hash_record C ''dummy-timing-equalization-password'' (replicate 16 (CHR 0x00))"

definition canonical_of :: "pyval \<Rightarrow> str" where
  "canonical_of username = (case username of PStr u \<Rightarrow> py_lower (py_strip u) | _ \<Rightarrow> [])"

section \<open>Statements\<close>

definition get_user_row :: "str \<Rightarrow> auth_db \<Rightarrow> user_row option" where
  "get_user_row name db = find (\<lambda>u. u_name u = name) (users db)"

definition enabled_admin :: "user_row \<Rightarrow> bool" where
  "enabled_admin u = (u_role u = ''admin'' \<and> \<not> u_disabled u)"

definition count_enabled_admins :: "auth_db \<Rightarrow> nat" where
  "count_enabled_admins db = rowcount enabled_admin (users db)"

definition last_admin_guard :: "auth_db \<Rightarrow> user_row \<Rightarrow> bool" where
  "last_admin_guard db u = (\<not> (enabled_admin u \<and> count_enabled_admins db \<le> 1))"

definition insert_user :: "user_row \<Rightarrow> auth_db \<Rightarrow> auth_db option" where
  "insert_user u db =
     (if list_ex (\<lambda>v. u_name v = u_name u) (users db) then None
      else Some (db\<lparr>users := users db @ [u]\<rparr>))"

definition revoke_sessions_for_user :: "str \<Rightarrow> auth_db \<Rightarrow> auth_db" where
  "revoke_sessions_for_user name db =
     db\<lparr>sessions := update_where (\<lambda>s. s_user s = name \<and> \<not> s_revoked s) (\<lambda>s. s\<lparr>s_revoked := True\<rparr>) (sessions db)\<rparr>"

definition revoke_tokens_for_user :: "str \<Rightarrow> auth_db \<Rightarrow> auth_db" where
  "revoke_tokens_for_user name db =
     db\<lparr>tokens := update_where (\<lambda>t. t_user t = name \<and> \<not> t_revoked t) (\<lambda>t. t\<lparr>t_revoked := True\<rparr>) (tokens db)\<rparr>"

definition reset_lockout :: "str \<Rightarrow> auth_db \<Rightarrow> auth_db" where
  "reset_lockout name db =
     db\<lparr>users := update_where (\<lambda>u. u_name u = name) (\<lambda>u. u\<lparr>u_failed := 0, u_locked := None\<rparr>) (users db)\<rparr>"

definition user_enabled :: "str \<Rightarrow> auth_db \<Rightarrow> bool" where
  "user_enabled name db = list_ex (\<lambda>u. u_name u = name \<and> \<not> u_disabled u) (users db)"

definition get_session_row :: "str \<Rightarrow> auth_db \<Rightarrow> session_row option" where
  "get_session_row h db = find (\<lambda>s. s_id s = h \<and> user_enabled (s_user s) db) (sessions db)"

definition get_token_row :: "str \<Rightarrow> auth_db \<Rightarrow> token_row option" where
  "get_token_row h db = find (\<lambda>t. t_hash t = h \<and> user_enabled (t_user t) db) (tokens db)"

definition revoke_session :: "str \<Rightarrow> auth_db \<Rightarrow> auth_db" where
  "revoke_session h db =
     db\<lparr>sessions := update_where (\<lambda>s. s_id s = h \<and> \<not> s_revoked s) (\<lambda>s. s\<lparr>s_revoked := True\<rparr>) (sessions db)\<rparr>"

definition set_hash :: "str \<Rightarrow> str \<Rightarrow> auth_db \<Rightarrow> auth_db" where
  "set_hash rec name db =
     db\<lparr>users := update_where (\<lambda>u. u_name u = name) (\<lambda>u. u\<lparr>u_hash := rec\<rparr>) (users db)\<rparr>"

text \<open>\<open>_ensure_schema\<close> on existing tables: the bootstrap account is promoted.\<close>

definition ensure_schema :: "auth_db \<Rightarrow> auth_db" where
  "ensure_schema db =
     db\<lparr>users := update_where (\<lambda>u. u_name u = BOOTSTRAP_USERNAME \<and> u_role u = DEFAULT_ROLE)
         (\<lambda>u. u\<lparr>u_role := ''admin''\<rparr>) (users db)\<rparr>"

section \<open>Accounts\<close>

definition new_user :: "str \<Rightarrow> str \<Rightarrow> seconds \<Rightarrow> str \<Rightarrow> user_row" where
  "new_user name rec now role = \<lparr>u_name = name, u_hash = rec, u_created = now, u_disabled = False,
     u_last_login = None, u_failed = 0, u_locked = None, u_role = role\<rparr>"

definition bootstrap_if_empty :: "crypto \<Rightarrow> str \<Rightarrow> str \<Rightarrow> seconds \<Rightarrow> auth_db \<Rightarrow> (auth_error + bool) \<times> auth_db" where
  "bootstrap_if_empty C secret salt now db =
     (if 0 < length (users db) then (Inr False, db)
      else case hash_pending_placeholder C secret salt of Inl e \<Rightarrow> (Inl e, db)
      | Inr rec \<Rightarrow>
          (case insert_user (new_user BOOTSTRAP_USERNAME rec now ''admin'') db of
             None \<Rightarrow> (Inr False, db)
           | Some db' \<Rightarrow> (Inr True, db')))"

definition create_user :: "crypto \<Rightarrow> pyval \<Rightarrow> pyval \<Rightarrow> pyval \<Rightarrow> str \<Rightarrow> seconds \<Rightarrow> auth_db
    \<Rightarrow> (auth_error + str) \<times> auth_db" where
  "create_user C username password role salt now db =
     (case validate_username username of Inl e \<Rightarrow> (Inl e, db)
      | Inr canonical \<Rightarrow>
     (case validate_role role of Inl e \<Rightarrow> (Inl e, db)
      | Inr canonical_role \<Rightarrow>
     (case hash_password C password salt of Inl e \<Rightarrow> (Inl e, db)
      | Inr rec \<Rightarrow>
     (case get_user_row canonical db of Some _ \<Rightarrow> (Inl (AuthUserExists canonical), db)
      | None \<Rightarrow>
     (case insert_user (new_user canonical rec now canonical_role) db of
        None \<Rightarrow> (Inl (AuthUserExists canonical), db)
      | Some db' \<Rightarrow> (Inr canonical, db'))))))"

definition guarded_write_error :: "str \<Rightarrow> str \<Rightarrow> auth_db \<Rightarrow> auth_error" where
  "guarded_write_error canonical action db =
     (case get_user_row canonical db of None \<Rightarrow> AuthUserNotFound canonical
      | Some _ \<Rightarrow> AuthLastAdmin canonical action)"

definition set_role :: "pyval \<Rightarrow> pyval \<Rightarrow> auth_db \<Rightarrow> (auth_error + unit) \<times> auth_db" where
  "set_role username role db =
     (let canonical = canonical_of username in
      case validate_role role of Inl e \<Rightarrow> (Inl e, db)
      | Inr r \<Rightarrow>
          let P = (\<lambda>u. u_name u = canonical \<and> (r = ''admin'' \<or> last_admin_guard db u)) in
          if rowcount P (users db) = 0 then (Inl (guarded_write_error canonical ''set_role'' db), db)
          else (Inr (), db\<lparr>users := update_where P (\<lambda>u. u\<lparr>u_role := r\<rparr>) (users db)\<rparr>))"

definition delete_user :: "pyval \<Rightarrow> auth_db \<Rightarrow> (auth_error + unit) \<times> auth_db" where
  "delete_user username db =
     (let canonical = canonical_of username;
          P = (\<lambda>u. u_name u = canonical \<and> last_admin_guard db u) in
      if rowcount P (users db) = 0 then (Inl (guarded_write_error canonical ''delete_user'' db), db)
      else (Inr (), revoke_tokens_for_user canonical (revoke_sessions_for_user canonical
             (db\<lparr>users := filter (\<lambda>u. \<not> P u) (users db)\<rparr>))))"

definition disable_user :: "pyval \<Rightarrow> auth_db \<Rightarrow> (auth_error + unit) \<times> auth_db" where
  "disable_user username db =
     (let canonical = canonical_of username;
          P = (\<lambda>u. u_name u = canonical \<and> last_admin_guard db u) in
      if rowcount P (users db) = 0 then (Inl (guarded_write_error canonical ''disable_user'' db), db)
      else (Inr (), revoke_tokens_for_user canonical (revoke_sessions_for_user canonical
             (db\<lparr>users := update_where P (\<lambda>u. u\<lparr>u_disabled := True\<rparr>) (users db)\<rparr>))))"

definition enable_user :: "pyval \<Rightarrow> auth_db \<Rightarrow> (auth_error + unit) \<times> auth_db" where
  "enable_user username db =
     (let canonical = canonical_of username; P = (\<lambda>u. u_name u = canonical);
          db' = db\<lparr>users := update_where P (\<lambda>u. u\<lparr>u_disabled := False\<rparr>) (users db)\<rparr> in
      if rowcount P (users db) = 0 then (Inl (AuthUserNotFound canonical), db')
      else (Inr (), reset_lockout canonical db'))"

definition set_password :: "crypto \<Rightarrow> pyval \<Rightarrow> pyval \<Rightarrow> str \<Rightarrow> auth_db \<Rightarrow> (auth_error + unit) \<times> auth_db" where
  "set_password C username password salt db =
     (let canonical = canonical_of username in
      case hash_password C password salt of Inl e \<Rightarrow> (Inl e, db)
      | Inr rec \<Rightarrow>
          let db' = set_hash rec canonical db in
          if rowcount (\<lambda>u. u_name u = canonical) (users db) = 0 then (Inl (AuthUserNotFound canonical), db')
          else (Inr (), reset_lockout canonical (revoke_sessions_for_user canonical db')))"

definition needs_password_setup :: "auth_db \<Rightarrow> bool" where
  "needs_password_setup db =
     (case get_user_row BOOTSTRAP_USERNAME db of None \<Rightarrow> False
      | Some u \<Rightarrow> is_pending_password_record (u_hash u))"

record user_summary =
  us_username :: str
  us_created_ts :: seconds
  us_disabled :: bool
  us_last_login_ts :: "seconds option"
  us_failed_count :: int
  us_locked_until_ts :: "seconds option"
  us_role :: str

definition summary_from_row :: "user_row \<Rightarrow> user_summary" where
  "summary_from_row u = \<lparr>us_username = u_name u, us_created_ts = u_created u, us_disabled = u_disabled u,
     us_last_login_ts = u_last_login u, us_failed_count = u_failed u, us_locked_until_ts = u_locked u,
     us_role = (if u_role u \<noteq> [] then u_role u else DEFAULT_ROLE)\<rparr>"

definition get_user :: "pyval \<Rightarrow> auth_db \<Rightarrow> user_summary option" where
  "get_user username db = map_option summary_from_row (get_user_row (canonical_of username) db)"

definition list_users :: "auth_db \<Rightarrow> user_summary list" where
  "list_users db = map summary_from_row (sort_key u_name (users db))"

section \<open>Login and sessions\<close>

definition record_failure :: "str \<Rightarrow> int \<Rightarrow> seconds \<Rightarrow> auth_db \<Rightarrow> auth_db" where
  "record_failure name failed now db =
     (let new_count = failed + 1; locked_until = next_lock_until new_count now in
      db\<lparr>users := update_where (\<lambda>u. u_name u = name)
          (\<lambda>u. u\<lparr>u_failed := new_count, u_locked := Some locked_until\<rparr>) (users db)\<rparr>)"

definition create_session :: "crypto \<Rightarrow> auth_cfg \<Rightarrow> str \<Rightarrow> str \<Rightarrow> str \<Rightarrow> seconds \<Rightarrow> auth_db
    \<Rightarrow> (auth_error + login_result) \<times> auth_db" where
  "create_session C cfg name session_id csrf now db =
     (let expires = now + absolute_timeout_sec cfg;
          row = \<lparr>s_id = hash_token C session_id, s_user = name, s_csrf = hash_token C csrf,
                 s_created = now, s_seen = now, s_expires = expires, s_revoked = False\<rparr> in
      if list_ex (\<lambda>s. s_id s = s_id row) (sessions db) then (Inl IntegrityError, db)
      else (Inr \<lparr>lr_username = name, lr_session_id = session_id, lr_csrf_token = csrf, lr_expires_ts = expires\<rparr>,
            db\<lparr>sessions := sessions db @ [row]\<rparr>))"

definition bootstrap_set_password :: "crypto \<Rightarrow> auth_cfg \<Rightarrow> pyval \<Rightarrow> str \<Rightarrow> str \<Rightarrow> str \<Rightarrow> seconds \<Rightarrow> auth_db
    \<Rightarrow> (auth_error + login_result) \<times> auth_db" where
  "bootstrap_set_password C cfg password salt session_id csrf now db =
     (case hash_password C password salt of Inl e \<Rightarrow> (Inl e, db)
      | Inr rec \<Rightarrow>
     (case get_user_row BOOTSTRAP_USERNAME db of
        None \<Rightarrow> (Inl (AuthBootstrapComplete BOOTSTRAP_USERNAME), db)
      | Some row \<Rightarrow>
          if \<not> is_pending_password_record (u_hash row) then (Inl (AuthBootstrapComplete BOOTSTRAP_USERNAME), db)
          else let P = (\<lambda>u. u_name u = BOOTSTRAP_USERNAME \<and> u_hash u = u_hash row) in
            if rowcount P (users db) = 0 then (Inl (AuthBootstrapComplete BOOTSTRAP_USERNAME), db)
            else create_session C cfg BOOTSTRAP_USERNAME session_id csrf now
              (revoke_sessions_for_user BOOTSTRAP_USERNAME (reset_lockout BOOTSTRAP_USERNAME
                (db\<lparr>users := update_where P (\<lambda>u. u\<lparr>u_hash := rec\<rparr>) (users db)\<rparr>)))))"

text \<open>
  The first part of \<open>login\<close>: everything up to the claim, with the scrypt calls made. The value on
  success is what the claim needs: the verified record and whether it wants a re-hash.
\<close>

definition login_check :: "crypto \<Rightarrow> pyval \<Rightarrow> pyval \<Rightarrow> seconds \<Rightarrow> auth_db
    \<Rightarrow> ((auth_error + str \<times> bool) \<times> (int \<times> int \<times> int) list) \<times> auth_db" where
  "login_check C username password now db =
     (let canonical = canonical_of username; pw = (case password of PStr p \<Rightarrow> p | _ \<Rightarrow> []) in
      case get_user_row canonical db of
        None \<Rightarrow> ((Inl AuthLoginFailed, snd (verify_password C pw (dummy_record C))), db)
      | Some row \<Rightarrow>
          if is_locked (u_locked row) now
          then ((Inl (AuthAccountLocked canonical (max (the (u_locked row) - now) 0)), []), db)
          else let v = verify_password C pw (u_hash row) in
            if u_disabled row \<or> \<not> fst (fst v)
            then ((Inl AuthLoginFailed, snd v), record_failure canonical (u_failed row) now db)
            else ((Inr (u_hash row, snd (fst v)), snd v), db))"

definition claimable :: "str \<Rightarrow> str \<Rightarrow> seconds \<Rightarrow> user_row \<Rightarrow> bool" where
  "claimable name rec now u = (u_name u = name \<and> u_hash u = rec \<and> \<not> u_disabled u \<and>
     (case u_locked u of None \<Rightarrow> True | Some t \<Rightarrow> t \<le> now))"

definition login_claim :: "crypto \<Rightarrow> auth_cfg \<Rightarrow> pyval \<Rightarrow> pyval \<Rightarrow> str \<times> bool \<Rightarrow> str \<Rightarrow> str \<Rightarrow> str \<Rightarrow> seconds
    \<Rightarrow> auth_db \<Rightarrow> (auth_error + login_result) \<times> auth_db" where
  "login_claim C cfg username password checked salt session_id csrf now db =
     (let canonical = canonical_of username; pw = (case password of PStr p \<Rightarrow> p | _ \<Rightarrow> []);
          P = claimable canonical (fst checked) now in
      if rowcount P (users db) = 0 then (Inl AuthLoginFailed, db)
      else let db' = db\<lparr>users := update_where P (\<lambda>u. u\<lparr>u_last_login := Some now, u_failed := 0, u_locked := None\<rparr>)
                          (users db)\<rparr> in
        if snd checked
        then (case hash_password C (PStr pw) salt of Inl e \<Rightarrow> (Inl e, db')
              | Inr rec \<Rightarrow> create_session C cfg canonical session_id csrf now (set_hash rec canonical db'))
        else create_session C cfg canonical session_id csrf now db')"

definition login :: "crypto \<Rightarrow> auth_cfg \<Rightarrow> pyval \<Rightarrow> pyval \<Rightarrow> str \<Rightarrow> str \<Rightarrow> str \<Rightarrow> seconds \<Rightarrow> auth_db
    \<Rightarrow> (auth_error + login_result) \<times> auth_db" where
  "login C cfg username password salt session_id csrf now db =
     (case login_check C username password now db of
        ((Inl e, _), db') \<Rightarrow> (Inl e, db')
      | ((Inr checked, _), db') \<Rightarrow> login_claim C cfg username password checked salt session_id csrf now db')"

definition session_expired :: "auth_cfg \<Rightarrow> seconds \<Rightarrow> session_row \<Rightarrow> bool" where
  "session_expired cfg now s = (s_expires s \<le> now \<or> s_seen s + idle_timeout_sec cfg \<le> now)"

definition validate_session :: "crypto \<Rightarrow> auth_cfg \<Rightarrow> str \<Rightarrow> seconds \<Rightarrow> auth_db \<Rightarrow> session_info option \<times> auth_db" where
  "validate_session C cfg session_id now db =
     (if session_id = [] then (None, db)
      else let h = hash_token C session_id in
      case get_session_row h db of None \<Rightarrow> (None, db)
      | Some row \<Rightarrow>
          if s_revoked row then (None, db)
          else if session_expired cfg now row then (None, revoke_session h db)
          else (Some \<lparr>si_session_id = session_id, si_username = s_user row, si_csrf_token = s_csrf row\<rparr>,
                db\<lparr>sessions := update_where (\<lambda>s. s_id s = h) (\<lambda>s. s\<lparr>s_seen := now\<rparr>) (sessions db)\<rparr>))"

definition rotate_csrf :: "crypto \<Rightarrow> auth_cfg \<Rightarrow> str \<Rightarrow> str \<Rightarrow> seconds \<Rightarrow> auth_db \<Rightarrow> str option \<times> auth_db" where
  "rotate_csrf C cfg session_id new_csrf now db =
     (if session_id = [] then (None, db)
      else let h = hash_token C session_id in
      case get_session_row h db of None \<Rightarrow> (None, db)
      | Some row \<Rightarrow>
          if s_revoked row then (None, db)
          else if session_expired cfg now row then (None, revoke_session h db)
          else (Some new_csrf,
                db\<lparr>sessions := update_where (\<lambda>s. s_id s = h \<and> \<not> s_revoked s)
                     (\<lambda>s. s\<lparr>s_csrf := hash_token C new_csrf, s_seen := now\<rparr>) (sessions db)\<rparr>))"

definition logout :: "crypto \<Rightarrow> str \<Rightarrow> auth_db \<Rightarrow> bool \<times> auth_db" where
  "logout C session_id db =
     (if session_id = [] then (False, db)
      else let h = hash_token C session_id in
      (0 < rowcount (\<lambda>s. s_id s = h \<and> \<not> s_revoked s) (sessions db), revoke_session h db))"

section \<open>Device tokens\<close>

definition token_label :: "str option \<Rightarrow> str" where
  "token_label label = (let l = py_strip (case label of None \<Rightarrow> [] | Some s \<Rightarrow> s) in
     if l = [] then ''unlabeled'' else l)"

definition live_label :: "str \<Rightarrow> str \<Rightarrow> token_row \<Rightarrow> bool" where
  "live_label name label t = (t_user t = name \<and> t_label t = label \<and> \<not> t_revoked t)"

definition insert_token :: "token_row \<Rightarrow> auth_db \<Rightarrow> auth_db option" where
  "insert_token t db =
     (if list_ex (\<lambda>x. t_hash x = t_hash t) (tokens db)
        \<or> \<not> t_revoked t \<and> list_ex (live_label (t_user t) (t_label t)) (tokens db) then None
      else Some (db\<lparr>tokens := tokens db @ [t]\<rparr>))"

definition create_device_token :: "crypto \<Rightarrow> pyval \<Rightarrow> str option \<Rightarrow> str \<Rightarrow> seconds \<Rightarrow> auth_db
    \<Rightarrow> (auth_error + str) \<times> auth_db" where
  "create_device_token C username label token now db =
     (let canonical = canonical_of username; lab = token_label label in
      case get_user_row canonical db of None \<Rightarrow> (Inl (AuthUserNotFound canonical), db)
      | Some _ \<Rightarrow>
          if list_ex (live_label canonical lab) (tokens db)
          then (Inl (AuthTokenLabelExists canonical lab), db)
          else (case insert_token \<lparr>t_hash = hash_token C token, t_user = canonical, t_label = lab,
                     t_created = now, t_last_used = None, t_revoked = False\<rparr> db of
              None \<Rightarrow> (Inl (AuthTokenLabelExists canonical lab), db)
            | Some db' \<Rightarrow> (Inr token, db')))"

definition verify_device_token :: "crypto \<Rightarrow> str \<Rightarrow> seconds \<Rightarrow> auth_db \<Rightarrow> str option \<times> auth_db" where
  "verify_device_token C token now db =
     (if token = [] then (None, db)
      else let h = hash_token C token in
      case get_token_row h db of None \<Rightarrow> (None, db)
      | Some row \<Rightarrow>
          if t_revoked row then (None, db)
          else (Some (t_user row),
                db\<lparr>tokens := update_where (\<lambda>t. t_hash t = h) (\<lambda>t. t\<lparr>t_last_used := Some now\<rparr>) (tokens db)\<rparr>))"

record token_summary =
  ts_label :: str
  ts_created_ts :: seconds
  ts_last_used_ts :: "seconds option"
  ts_revoked :: bool

definition list_device_tokens :: "pyval \<Rightarrow> auth_db \<Rightarrow> token_summary list" where
  "list_device_tokens username db =
     map (\<lambda>t. \<lparr>ts_label = t_label t, ts_created_ts = t_created t, ts_last_used_ts = t_last_used t,
               ts_revoked = t_revoked t\<rparr>)
       (sort_key t_created (filter (\<lambda>t. t_user t = canonical_of username) (tokens db)))"

definition revoke_device_token :: "pyval \<Rightarrow> str \<Rightarrow> auth_db \<Rightarrow> bool \<times> auth_db" where
  "revoke_device_token username label db =
     (let P = live_label (canonical_of username) label in
      (0 < rowcount P (tokens db),
       db\<lparr>tokens := update_where P (\<lambda>t. t\<lparr>t_revoked := True\<rparr>) (tokens db)\<rparr>))"

section \<open>Interleavings\<close>

text \<open>
  One step of any process that uses the database. The configuration may differ from step to
  step (a restart may change the timeouts), and \<open>LoginClaim\<close> may carry the outcome of a check
  made in an earlier state.
\<close>

datatype auth_op =
    EnsureSchema
  | Bootstrap str str seconds
  | CreateUser pyval pyval pyval str seconds
  | SetRole pyval pyval
  | DeleteUser pyval
  | DisableUser pyval
  | EnableUser pyval
  | SetPassword pyval pyval str
  | BootstrapSetPassword pyval str str str seconds
  | LoginCheck pyval pyval seconds
  | LoginClaim pyval pyval "str \<times> bool" str str str seconds
  | ValidateSession str seconds
  | RotateCsrf str str seconds
  | Logout str
  | CreateToken pyval "str option" str seconds
  | VerifyToken str seconds
  | RevokeToken pyval str

fun exec :: "crypto \<Rightarrow> auth_cfg \<times> auth_op \<Rightarrow> auth_db \<Rightarrow> auth_db" where
  "exec C (cfg, EnsureSchema) db = ensure_schema db"
| "exec C (cfg, Bootstrap secret salt now) db = snd (bootstrap_if_empty C secret salt now db)"
| "exec C (cfg, CreateUser u p r salt now) db = snd (create_user C u p r salt now db)"
| "exec C (cfg, SetRole u r) db = snd (set_role u r db)"
| "exec C (cfg, DeleteUser u) db = snd (delete_user u db)"
| "exec C (cfg, DisableUser u) db = snd (disable_user u db)"
| "exec C (cfg, EnableUser u) db = snd (enable_user u db)"
| "exec C (cfg, SetPassword u p salt) db = snd (set_password C u p salt db)"
| "exec C (cfg, BootstrapSetPassword p salt sid csrf now) db = snd (bootstrap_set_password C cfg p salt sid csrf now db)"
| "exec C (cfg, LoginCheck u p now) db = snd (login_check C u p now db)"
| "exec C (cfg, LoginClaim u p ck salt sid csrf now) db = snd (login_claim C cfg u p ck salt sid csrf now db)"
| "exec C (cfg, ValidateSession sid now) db = snd (validate_session C cfg sid now db)"
| "exec C (cfg, RotateCsrf sid csrf now) db = snd (rotate_csrf C cfg sid csrf now db)"
| "exec C (cfg, Logout sid) db = snd (logout C sid db)"
| "exec C (cfg, CreateToken u l tok now) db = snd (create_device_token C u l tok now db)"
| "exec C (cfg, VerifyToken tok now) db = snd (verify_device_token C tok now db)"
| "exec C (cfg, RevokeToken u l) db = snd (revoke_device_token u l db)"

definition run_ops :: "crypto \<Rightarrow> (auth_cfg \<times> auth_op) list \<Rightarrow> auth_db \<Rightarrow> auth_db" where
  "run_ops C ops db = fold (exec C) ops db"

lemmas user_ops = ensure_schema_def bootstrap_if_empty_def create_user_def set_role_def delete_user_def
  disable_user_def enable_user_def set_password_def
lemmas login_ops = record_failure_def create_session_def bootstrap_set_password_def login_check_def login_claim_def
lemmas session_ops = validate_session_def rotate_csrf_def logout_def
lemmas token_ops = create_device_token_def verify_device_token_def revoke_device_token_def
lemmas statements = insert_user_def revoke_sessions_for_user_def revoke_tokens_for_user_def reset_lockout_def
  revoke_session_def set_hash_def insert_token_def

end
