(* ===== verification/Step_Contract.thy ===== *)
theory Step_Contract
  imports Prelude
begin

text \<open>
  Contracts for components that are driven by a sequence of operations: an invariant that every
  operation keeps (\<open>stable\<close>), and credentials that no operation brings back to life
  (\<open>revocable\<close>).
\<close>

locale stable =
  fixes step :: "'op \<Rightarrow> 'db \<Rightarrow> 'db" and inv :: "'db \<Rightarrow> bool"
  assumes stable_step: "inv db \<Longrightarrow> inv (step opn db)"
begin

lemma stable_run: "inv db \<Longrightarrow> inv (fold step ops db)"
  by (induction ops arbitrary: db) (simp_all add: stable_step)

end

locale revocable =
  fixes step :: "'op \<Rightarrow> 'db \<Rightarrow> 'db" and dead :: "'k \<Rightarrow> 'db \<Rightarrow> bool"
    and accepts :: "'q \<Rightarrow> 'k \<Rightarrow> 'db \<Rightarrow> bool"
  assumes dead_step: "dead k db \<Longrightarrow> dead k (step opn db)"
    and dead_rejected: "dead k db \<Longrightarrow> \<not> accepts q k db"

sublocale revocable \<subseteq> one: stable step "dead k" for k
  by unfold_locales (rule dead_step)

context revocable
begin

lemma never_again: "dead k db \<Longrightarrow> \<not> accepts q k (fold step ops db)"
  by (rule dead_rejected) (rule one.stable_run)

lemma accepted_only_if_alive:
  assumes "accepts q k (fold step (xs @ ys) db)"
  shows "\<not> dead k (fold step xs db)"
proof
  assume "dead k (fold step xs db)"
  from never_again [OF this, of q ys] assms show False by simp
qed

end

section \<open>Rows that are out of use for good\<close>

definition dead :: "('r \<Rightarrow> 'k) \<Rightarrow> ('r \<Rightarrow> bool) \<Rightarrow> 'k \<Rightarrow> 'r list \<Rightarrow> bool" where
  "dead key revoked h rows =
     (list_ex (\<lambda>r. key r = h) rows \<and> list_all (\<lambda>r. key r = h \<longrightarrow> revoked r) rows)"

definition evolves :: "('r \<Rightarrow> 'k) \<Rightarrow> ('r \<Rightarrow> bool) \<Rightarrow> 'r list \<Rightarrow> 'r list \<Rightarrow> bool" where
  "evolves key revoked rows rows' = (\<forall>h. dead key revoked h rows \<longrightarrow> dead key revoked h rows')"

lemma evolves_refl [simp, intro]: "evolves key revoked rows rows"
  by (simp add: evolves_def)

lemma evolves_trans: "evolves key revoked a b \<Longrightarrow> evolves key revoked b c \<Longrightarrow> evolves key revoked a c"
  by (simp add: evolves_def)

lemma evolves_update:
  assumes "\<And>r. key (f r) = key r" and "\<And>r. revoked r \<Longrightarrow> revoked (f r)"
  shows "evolves key revoked rows (update_where P f rows)"
proof -
  have "key (if P r then f r else r) = key r" for r by (simp add: assms(1))
  moreover have "revoked r \<Longrightarrow> revoked (if P r then f r else r)" for r by (simp add: assms(2))
  ultimately show ?thesis
    by (simp add: evolves_def dead_def update_where_def list_ex_iff list_all_iff del: if_image_distrib)
qed

lemma evolves_insert:
  assumes "\<not> list_ex (\<lambda>x. key x = key r) rows"
  shows "evolves key revoked rows (rows @ [r])"
  using assms by (auto simp: evolves_def dead_def list_ex_iff list_all_iff)

lemma dead_find:
  assumes "dead key revoked h rows" and "find (\<lambda>r. key r = h \<and> Q r) rows = Some r"
  shows "revoked r"
  using assms by (auto simp: dead_def list_all_iff find_Some_iff)

lemmas evolve_rules = evolves_refl evolves_update evolves_insert

lemma dead_revoked:
  assumes "r \<in> set rows" and "key r = h" and "\<And>r'. r' \<in> set rows \<Longrightarrow> key r' = h \<Longrightarrow> revoked r'"
  shows "dead key revoked h rows"
  using assms by (auto simp: dead_def list_ex_iff list_all_iff)

end
