(* ===== verification/Authn_Safety.thy ===== *)
theory Authn_Safety
  imports Authn_Manager Step_Contract
begin

text \<open>
  What the account, session and token operations of \<open>Authn_Manager\<close> guarantee over arbitrary
  interleavings: table invariants, the last-admin rule, one-way revocation, the race between
  \<open>login\<close> and a concurrent change of the account, the bootstrap password, the lockout and the
  uniformity of login failures.
\<close>

section \<open>Sessions and tokens\<close>

abbreviation "sess_evolves \<equiv> evolves s_id s_revoked"
abbreviation "tok_evolves \<equiv> evolves t_hash t_revoked"

lemma create_session_evolves: "sess_evolves (sessions db) (sessions (snd (create_session C cfg n sid csrf now db)))"
  by (simp add: create_session_def Let_def evolves_insert)

lemma revoke_user_evolves: "sess_evolves (sessions db) (sessions (revoke_sessions_for_user n db))"
  by (simp add: revoke_sessions_for_user_def evolves_update)

lemma bootstrap_set_password_evolves:
  "sess_evolves (sessions db) (sessions (snd (bootstrap_set_password C cfg p salt sid csrf now db)))"
proof -
  have "sess_evolves (sessions db) (sessions (snd (create_session C cfg n sid csrf now
      (revoke_sessions_for_user n (reset_lockout n (db\<lparr>users := us\<rparr>))))))" for n us
    by (rule evolves_trans [OF _ create_session_evolves])
       (simp add: revoke_sessions_for_user_def reset_lockout_def evolves_update)
  then show ?thesis by (simp add: bootstrap_set_password_def Let_def split: sum.split option.split)
qed

lemma login_claim_evolves:
  "sess_evolves (sessions db) (sessions (snd (login_claim C cfg u p ck salt sid csrf now db)))"
proof -
  have a: "sess_evolves (sessions db) (sessions (snd (create_session C cfg n sid csrf now (db\<lparr>users := us\<rparr>))))" for n us
    by (rule evolves_trans [OF _ create_session_evolves]) simp
  then show ?thesis
    unfolding login_claim_def Let_def set_hash_def
    by (simp add: a [of _ "update_where P f (update_where Q g (users db))" for P f Q g] split: sum.split pyval.split)
qed

lemma exec_sessions: "sess_evolves (sessions db) (sessions (exec C opn db))"
proof -
  obtain cfg a where opn: "opn = (cfg, a)" by force
  show ?thesis unfolding opn
    by (cases a)
       (simp_all add: bootstrap_set_password_evolves login_claim_evolves user_ops login_check_def record_failure_def
          session_ops token_ops statements Let_def evolve_rules split: sum.split option.split)
qed

lemma exec_tokens: "tok_evolves (tokens db) (tokens (exec C opn db))"
proof -
  obtain cfg a where opn: "opn = (cfg, a)" by force
  show ?thesis unfolding opn
    by (cases a)
       (simp_all add: user_ops login_ops session_ops token_ops statements Let_def evolve_rules
          split: sum.split option.split)
qed

section \<open>Revocation is one-way\<close>

definition session_dead :: "crypto \<Rightarrow> str \<Rightarrow> auth_db \<Rightarrow> bool" where
  "session_dead C sid db = dead s_id s_revoked (hash_token C sid) (sessions db)"

definition session_accepted :: "crypto \<Rightarrow> auth_cfg \<times> seconds \<Rightarrow> str \<Rightarrow> auth_db \<Rightarrow> bool" where
  "session_accepted C q sid db =
     (fst (validate_session C (fst q) sid (snd q) db) \<noteq> None \<or> fst (rotate_csrf C (fst q) sid [] (snd q) db) \<noteq> None)"

definition token_dead :: "crypto \<Rightarrow> str \<Rightarrow> auth_db \<Rightarrow> bool" where
  "token_dead C tok db = dead t_hash t_revoked (hash_token C tok) (tokens db)"

definition token_accepted :: "crypto \<Rightarrow> seconds \<Rightarrow> str \<Rightarrow> auth_db \<Rightarrow> bool" where
  "token_accepted C now tok db = (fst (verify_device_token C tok now db) \<noteq> None)"

lemma session_row_dead: "session_dead C sid db \<Longrightarrow> get_session_row (hash_token C sid) db = Some r \<Longrightarrow> s_revoked r"
  unfolding session_dead_def get_session_row_def by (rule dead_find)

lemma token_row_dead: "token_dead C tok db \<Longrightarrow> get_token_row (hash_token C tok) db = Some r \<Longrightarrow> t_revoked r"
  unfolding token_dead_def get_token_row_def by (rule dead_find)

interpretation sess: revocable "exec C" "session_dead C" "session_accepted C" for C
proof
  show "session_dead C k db \<Longrightarrow> session_dead C k (exec C opn db)" for k db opn
    using exec_sessions [of db C opn] by (simp add: session_dead_def evolves_def)
  show "session_dead C k db \<Longrightarrow> \<not> session_accepted C q k db" for k db q
    using session_row_dead [of C k db]
    by (auto simp: session_accepted_def session_ops Let_def split: option.splits)
qed

interpretation tok: revocable "exec C" "token_dead C" "token_accepted C" for C
proof
  show "token_dead C k db \<Longrightarrow> token_dead C k (exec C opn db)" for k db opn
    using exec_tokens [of db C opn] by (simp add: token_dead_def evolves_def)
  show "token_dead C k db \<Longrightarrow> \<not> token_accepted C q k db" for k db q
    using token_row_dead [of C k db]
    by (auto simp: token_accepted_def token_ops Let_def split: option.splits)
qed

lemma dead_update:
  assumes "list_ex (\<lambda>r. key r = h) rows" and "list_all (\<lambda>r. key r = h \<longrightarrow> P r \<or> revoked r) rows"
    and f: "\<And>r. key (f r) = key r" "\<And>r. revoked (f r)"
  shows "dead key revoked h (update_where P f rows)"
proof -
  have k: "key (if P r then f r else r) = key r" for r by (simp add: f)
  have r: "revoked (if P r then f r else r) = (P r \<or> revoked r)" for r by (simp add: f)
  show ?thesis using assms(1,2)
    by (simp add: dead_def update_where_def list_ex_iff list_all_iff k r del: if_image_distrib)
qed

section \<open>Table invariants\<close>

definition live_labels :: "token_row list \<Rightarrow> (str \<times> str) list" where
  "live_labels ts = map (\<lambda>t. (t_user t, t_label t)) (filter (\<lambda>t. \<not> t_revoked t) ts)"

definition db_wf :: "auth_db \<Rightarrow> bool" where
  "db_wf db = (distinct (map u_name (users db)) \<and> distinct (map s_id (sessions db)) \<and>
     distinct (map t_hash (tokens db)) \<and> distinct (live_labels (tokens db)))"

lemma live_labels_touch:
  "live_labels (update_where P (\<lambda>t. t\<lparr>t_last_used := x\<rparr>) ts) = live_labels ts"
  by (induction ts) (simp_all add: live_labels_def update_where_def)

lemma live_labels_revoke:
  assumes "distinct (live_labels ts)"
  shows "distinct (live_labels (update_where P (\<lambda>t. t\<lparr>t_revoked := True\<rparr>) ts))"
proof -
  have "live_labels (update_where P (\<lambda>t. t\<lparr>t_revoked := True\<rparr>) ts) =
      map (\<lambda>t. (t_user t, t_label t)) (filter (\<lambda>t. \<not> P t) (filter (\<lambda>t. \<not> t_revoked t) ts))"
    by (induction ts) (simp_all add: live_labels_def update_where_def)
  then show ?thesis using assms distinct_map_filter unfolding live_labels_def by metis
qed

lemma live_labels_snoc:
  "live_labels (ts @ [t]) = live_labels ts @ (if t_revoked t then [] else [(t_user t, t_label t)])"
  by (simp add: live_labels_def)

lemma live_label_mem: "list_ex (live_label n l) ts \<longleftrightarrow> (n, l) \<in> set (live_labels ts)"
  by (auto simp: list_ex_iff live_label_def live_labels_def)

lemmas wf_simps = map_update_where live_labels_touch live_labels_revoke live_labels_snoc live_label_mem
  list_ex_iff image_iff

lemma insert_fresh: "\<not> list_ex (\<lambda>x. key x = k) xs \<longleftrightarrow> k \<notin> key ` set xs"
  by (auto simp: list_ex_iff)

lemma create_session_wf: "db_wf db \<Longrightarrow> db_wf (snd (create_session C cfg n sid csrf now db))"
  by (auto simp: db_wf_def create_session_def Let_def insert_fresh)

lemma users_update_wf:
  "(\<And>u. u_name (f u) = u_name u) \<Longrightarrow> db_wf (db\<lparr>users := update_where P f (users db)\<rparr>) = db_wf db"
  by (simp add: db_wf_def map_update_where)

lemma sessions_update_wf:
  "(\<And>s. s_id (f s) = s_id s) \<Longrightarrow> db_wf (db\<lparr>sessions := update_where P f (sessions db)\<rparr>) = db_wf db"
  by (simp add: db_wf_def map_update_where)

lemma tokens_revoke_wf:
  "db_wf db \<Longrightarrow> db_wf (db\<lparr>tokens := update_where P (\<lambda>t. t\<lparr>t_revoked := True\<rparr>) (tokens db)\<rparr>)"
  by (simp add: db_wf_def map_update_where live_labels_revoke)

lemma tokens_touch_wf:
  "db_wf (db\<lparr>tokens := update_where P (\<lambda>t. t\<lparr>t_last_used := x\<rparr>) (tokens db)\<rparr>) = db_wf db"
  by (simp add: db_wf_def map_update_where live_labels_touch)

lemma insert_user_wf: "db_wf db \<Longrightarrow> insert_user u db = Some db' \<Longrightarrow> db_wf db'"
  by (auto simp: db_wf_def insert_user_def insert_fresh split: if_splits)

lemma insert_token_wf: "db_wf db \<Longrightarrow> insert_token t db = Some db' \<Longrightarrow> db_wf db'"
  by (auto simp: db_wf_def insert_token_def insert_fresh live_labels_snoc live_label_mem split: if_splits)

lemma filter_users_wf: "db_wf db \<Longrightarrow> db_wf (db\<lparr>users := filter Q (users db)\<rparr>)"
  by (simp add: db_wf_def distinct_map_filter)

lemmas update_wf = users_update_wf sessions_update_wf tokens_revoke_wf tokens_touch_wf filter_users_wf

lemma helper_statements_wf:
  "db_wf (revoke_sessions_for_user n db) = db_wf db" "db_wf (reset_lockout n db) = db_wf db"
  "db_wf (revoke_session h db) = db_wf db" "db_wf (set_hash rec n db) = db_wf db"
  "db_wf (record_failure n k now db) = db_wf db" "db_wf db \<Longrightarrow> db_wf (revoke_tokens_for_user n db)"
  by (simp_all add: revoke_sessions_for_user_def reset_lockout_def revoke_session_def set_hash_def
      record_failure_def Let_def revoke_tokens_for_user_def update_wf)

lemma inserting_ops_wf:
  assumes "db_wf db"
  shows "db_wf (snd (bootstrap_if_empty C secret salt now db))" "db_wf (snd (create_user C u p r salt now db))"
    "db_wf (snd (create_device_token C u l tok now db))"
  using assms insert_user_wf [OF assms] insert_token_wf [OF assms]
  by (simp_all add: bootstrap_if_empty_def create_user_def create_device_token_def Let_def
      split: sum.split option.split)

lemma claiming_ops_wf:
  assumes "db_wf db"
  shows "db_wf (snd (bootstrap_set_password C cfg p salt sid csrf now db))"
    "db_wf (snd (login_claim C cfg u p ck salt sid csrf now db))"
  using assms
  by (simp_all add: bootstrap_set_password_def login_claim_def Let_def create_session_wf helper_statements_wf
      users_update_wf split: sum.split option.split)

lemma account_ops_wf:
  assumes "db_wf db"
  shows "db_wf (ensure_schema db)" "db_wf (snd (set_role u r db))" "db_wf (snd (delete_user u db))"
    "db_wf (snd (disable_user u db))" "db_wf (snd (enable_user u db))" "db_wf (snd (set_password C u p salt db))"
    "db_wf (snd (login_check C u p now db))"
  using assms
  by (simp_all add: ensure_schema_def set_role_def delete_user_def disable_user_def enable_user_def set_password_def
      login_check_def Let_def helper_statements_wf users_update_wf filter_users_wf split: sum.split option.split)

lemma credential_ops_wf:
  assumes "db_wf db"
  shows "db_wf (snd (validate_session C cfg sid now db))" "db_wf (snd (rotate_csrf C cfg sid csrf now db))"
    "db_wf (snd (logout C sid db))" "db_wf (snd (verify_device_token C tok now db))"
    "db_wf (snd (revoke_device_token u lab db))"
  using assms
  by (simp_all add: session_ops verify_device_token_def revoke_device_token_def Let_def helper_statements_wf
      sessions_update_wf tokens_touch_wf tokens_revoke_wf split: option.split)

lemma exec_wf: "db_wf db \<Longrightarrow> db_wf (exec C opn db)"
  by (cases "(C, opn, db)" rule: exec.cases)
     (simp_all add: inserting_ops_wf claiming_ops_wf account_ops_wf credential_ops_wf)

interpretation tables: stable "exec C" db_wf for C
  by unfold_locales (rule exec_wf)

section \<open>The last enabled administrator\<close>

definition has_admin :: "auth_db \<Rightarrow> bool" where
  "has_admin db = (db_wf db \<and> list_ex enabled_admin (users db))"

lemma other_admin:
  assumes "distinct (map u_name (users db))" and "list_ex enabled_admin (users db)"
  shows "\<exists>v \<in> set (users db). enabled_admin v \<and> \<not> (u_name v = c \<and> last_admin_guard db v)"
proof (rule ccontr)
  assume "\<not> ?thesis"
  then have all: "\<forall>v \<in> set (users db). enabled_admin v \<longrightarrow> u_name v = c \<and> last_admin_guard db v" by blast
  then have "length (filter enabled_admin (users db)) \<le> length (filter (\<lambda>u. u_name u = c) (users db))"
    by (intro length_filter_mono) blast
  also have "\<dots> \<le> 1" using assms(1) by (rule distinct_key_count)
  finally have "count_enabled_admins db \<le> 1" by (simp add: count_enabled_admins_def rowcount_def)
  with all assms(2) show False by (auto simp: last_admin_guard_def list_ex_iff)
qed

lemma admin_kept_update:
  assumes "v \<in> set (users db)" and "enabled_admin v" and "\<not> P v \<or> enabled_admin (f v)"
  shows "list_ex enabled_admin (update_where P f (users db))"
proof -
  have "(if P v then f v else v) \<in> set (update_where P f (users db))"
    using assms(1) by (auto simp: update_where_def)
  moreover have "enabled_admin (if P v then f v else v)" using assms by auto
  ultimately show ?thesis by (auto simp: list_ex_iff)
qed

lemma list_ex_update_where:
  assumes "list_ex Q us" and "\<And>u. Q u \<Longrightarrow> Q (f u)"
  shows "list_ex Q (update_where P f us)"
proof -
  obtain v where "v \<in> set us" "Q v" using assms(1) by (auto simp: list_ex_iff)
  then have "(if P v then f v else v) \<in> set (update_where P f us)" "Q (if P v then f v else v)"
    using assms(2) by (auto simp: update_where_def)
  then show ?thesis by (auto simp: list_ex_iff)
qed

lemmas admin_update_mono = list_ex_update_where [of enabled_admin]

lemma enabled_admin_upd [simp]:
  "enabled_admin (u\<lparr>u_hash := h\<rparr>) = enabled_admin u" "enabled_admin (u\<lparr>u_failed := k\<rparr>) = enabled_admin u"
  "enabled_admin (u\<lparr>u_locked := l\<rparr>) = enabled_admin u" "enabled_admin (u\<lparr>u_last_login := l\<rparr>) = enabled_admin u"
  "enabled_admin u \<Longrightarrow> enabled_admin (u\<lparr>u_role := ''admin''\<rparr>)"
  "enabled_admin u \<Longrightarrow> enabled_admin (u\<lparr>u_disabled := False\<rparr>)"
  by (simp_all add: enabled_admin_def)

lemma users_create_session [simp]: "users (snd (create_session C cfg n sid csrf now db)) = users db"
  by (simp add: create_session_def Let_def)

lemma users_statements [simp]:
  "users (revoke_sessions_for_user n db) = users db" "users (revoke_tokens_for_user n db) = users db"
  "users (revoke_session h db) = users db"
  by (simp_all add: statements)

lemma users_session_ops [simp]:
  "users (snd (validate_session C cfg sid now db)) = users db"
  "users (snd (rotate_csrf C cfg sid csrf now db)) = users db" "users (snd (logout C sid db)) = users db"
  "users (snd (verify_device_token C tok now db)) = users db"
  "users (snd (revoke_device_token u lab db)) = users db"
  "users (snd (create_device_token C u l tok now db)) = users db"
  by (simp_all add: session_ops token_ops insert_token_def Let_def split: option.split)

lemma guarded_ops_admin:
  assumes "distinct (map u_name (users db))" and "list_ex enabled_admin (users db)"
  shows "list_ex enabled_admin (users (snd (set_role u r db)))"
    "list_ex enabled_admin (users (snd (delete_user u db)))"
    "list_ex enabled_admin (users (snd (disable_user u db)))"
proof -
  obtain v where v: "v \<in> set (users db)" "enabled_admin v" "\<not> (u_name v = canonical_of u \<and> last_admin_guard db v)"
    using other_admin [OF assms] by blast
  show "list_ex enabled_admin (users (snd (set_role u r db)))"
    using v assms(2) by (auto simp: set_role_def Let_def intro!: admin_kept_update [OF v(1,2)] split: sum.split)
  show "list_ex enabled_admin (users (snd (disable_user u db)))"
    using v assms(2) by (auto simp: disable_user_def Let_def intro!: admin_kept_update [OF v(1,2)])
  show "list_ex enabled_admin (users (snd (delete_user u db)))"
    using v assms(2) by (auto simp: delete_user_def Let_def list_ex_iff)
qed

lemma nonempty_users: "list_ex enabled_admin us \<Longrightarrow> us \<noteq> []"
  by auto

lemma plain_ops_admin:
  assumes "list_ex enabled_admin (users db)"
  shows "list_ex enabled_admin (users (ensure_schema db))"
    "list_ex enabled_admin (users (snd (bootstrap_if_empty C secret salt now db)))"
    "list_ex enabled_admin (users (snd (create_user C u p r salt now db)))"
    "list_ex enabled_admin (users (snd (enable_user u db)))"
    "list_ex enabled_admin (users (snd (set_password C u p salt db)))"
    "list_ex enabled_admin (users (snd (bootstrap_set_password C cfg p salt sid csrf now db)))"
    "list_ex enabled_admin (users (snd (login_check C u p now db)))"
    "list_ex enabled_admin (users (snd (login_claim C cfg u p ck salt sid csrf now db)))"
  using assms
  by (simp_all add: user_ops login_check_def record_failure_def bootstrap_set_password_def login_claim_def
      insert_user_def reset_lockout_def set_hash_def Let_def admin_update_mono nonempty_users
      split: sum.split option.split)

lemma exec_admin: "has_admin db \<Longrightarrow> has_admin (exec C opn db)"
proof -
  assume a: "has_admin db"
  then have "distinct (map u_name (users db))" "list_ex enabled_admin (users db)"
    by (auto simp: has_admin_def db_wf_def)
  note ops = guarded_ops_admin [OF this] plain_ops_admin [OF this(2)] this(2)
  have "list_ex enabled_admin (users (exec C opn db))"
    by (cases "(C, opn, db)" rule: exec.cases) (simp_all add: ops)
  with a show ?thesis by (simp add: has_admin_def exec_wf)
qed

interpretation admins: stable "exec C" has_admin for C
  by unfold_locales (rule exec_admin)

section \<open>Pending records\<close>

definition settled :: "user_row \<Rightarrow> bool" where
  "settled u = (u_name u = BOOTSTRAP_USERNAME \<longrightarrow> \<not> is_pending_password_record (u_hash u))"

definition setup_done :: "auth_db \<Rightarrow> bool" where
  "setup_done db = (has_admin db \<and> list_all settled (users db))"

lemma hash_password_not_pending: "hash_password C p salt = Inr rec \<Longrightarrow> \<not> is_pending_password_record rec"
  by (auto simp: hash_password_def hash_record_not_pending split: sum.splits)

lemma settled_upd [simp]:
  "settled (u\<lparr>u_role := r\<rparr>) = settled u" "settled (u\<lparr>u_failed := k\<rparr>) = settled u"
  "settled (u\<lparr>u_locked := l\<rparr>) = settled u" "settled (u\<lparr>u_last_login := l\<rparr>) = settled u"
  "settled (u\<lparr>u_disabled := d\<rparr>) = settled u"
  "\<not> is_pending_password_record h \<Longrightarrow> settled (u\<lparr>u_hash := h\<rparr>)"
  "\<not> is_pending_password_record h \<Longrightarrow> settled (new_user n h now r)"
  by (simp_all add: settled_def new_user_def)

lemma settled_update:
  assumes "list_all settled us" and "\<And>u. settled u \<Longrightarrow> settled (f u)"
  shows "list_all settled (update_where P f us)"
  using assms by (auto simp: list_all_iff update_where_def)

lemma settled_ops:
  assumes "list_all settled (users db)" and "users db \<noteq> []"
  shows "list_all settled (users (ensure_schema db))" "list_all settled (users (snd (set_role u r db)))"
    "list_all settled (users (snd (bootstrap_if_empty C secret salt now db)))"
    "list_all settled (users (snd (enable_user u db)))" "list_all settled (users (snd (disable_user u db)))"
    "list_all settled (users (snd (login_check C u p now db)))"
    "list_all settled (users (snd (delete_user u db)))"
  using assms
  by (simp_all add: ensure_schema_def set_role_def bootstrap_if_empty_def enable_user_def disable_user_def
      login_check_def record_failure_def reset_lockout_def Let_def settled_update split: sum.split option.split)
     (auto simp: delete_user_def Let_def list_all_iff)

lemma settled_hash_ops:
  assumes "list_all settled (users db)"
  shows "list_all settled (users (snd (create_user C u p r salt now db)))"
    "list_all settled (users (snd (set_password C u p salt db)))"
    "list_all settled (users (snd (bootstrap_set_password C cfg p salt sid csrf now db)))"
    "list_all settled (users (snd (login_claim C cfg u p ck salt sid csrf now db)))"
  using assms
  by (simp_all add: create_user_def set_password_def bootstrap_set_password_def login_claim_def insert_user_def
      reset_lockout_def set_hash_def Let_def settled_update hash_password_not_pending
      split: sum.split option.split)

lemma exec_setup_done: "setup_done db \<Longrightarrow> setup_done (exec C opn db)"
proof -
  assume a: "setup_done db"
  then have s: "list_all settled (users db)" "users db \<noteq> []"
    by (auto simp: setup_done_def has_admin_def nonempty_users)
  have "list_all settled (users (exec C opn db))"
    by (cases "(C, opn, db)" rule: exec.cases) (simp_all add: settled_ops [OF s] settled_hash_ops [OF s(1)] s(1))
  with a show ?thesis by (simp add: setup_done_def exec_admin)
qed

interpretation boot: stable "exec C" setup_done for C
  by unfold_locales (rule exec_setup_done)

section \<open>Lookups\<close>

lemma same_key:
  "distinct (map key xs) \<Longrightarrow> x \<in> set xs \<Longrightarrow> y \<in> set xs \<Longrightarrow> key x = key y \<Longrightarrow> x = y"
  by (simp add: distinct_map inj_on_def)

lemma find_unique:
  assumes "distinct (map key xs)" and "x \<in> set xs" and "key x = k"
  shows "find (\<lambda>y. key y = k) xs = Some x"
proof -
  have "find (\<lambda>y. key y = k) xs \<noteq> None" using assms(2,3) by (auto simp: find_None_iff)
  then obtain y where y: "find (\<lambda>y. key y = k) xs = Some y" by blast
  then have "y \<in> set xs" "key y = k" by (auto simp: find_Some_iff)
  with assms have "y = x" by (simp add: same_key)
  with y show ?thesis by simp
qed

lemma get_user_row_in: "get_user_row n db = Some u \<Longrightarrow> u \<in> set (users db) \<and> u_name u = n"
  by (auto simp: get_user_row_def find_Some_iff)

lemma get_user_row_unique:
  "db_wf db \<Longrightarrow> get_user_row n db = Some u \<Longrightarrow> v \<in> set (users db) \<Longrightarrow> u_name v = n \<Longrightarrow> v = u"
  by (metis db_wf_def find_unique get_user_row_def option.inject)

lemma find_update_where:
  assumes "\<And>r. key (f r) = key r"
  shows "find (\<lambda>r. key r = k) (update_where P f rows) =
     map_option (\<lambda>r. if P r then f r else r) (find (\<lambda>r. key r = k) rows)"
  by (induction rows) (auto simp: update_where_def assms)

lemma get_user_row_none: "get_user_row n db = None \<longleftrightarrow> (\<forall>u \<in> set (users db). u_name u \<noteq> n)"
  by (auto simp: get_user_row_def find_None_iff)

lemma session_row_in: "get_session_row h db = Some s \<Longrightarrow> s \<in> set (sessions db) \<and> s_id s = h"
  by (auto simp: get_session_row_def find_Some_iff)

lemma revoke_session_dead:
  assumes "s \<in> set (sessions db)" and "s_id s = hash_token C sid"
  shows "session_dead C sid (revoke_session (hash_token C sid) db)"
  unfolding session_dead_def revoke_session_def
  using assms by (auto intro!: dead_update simp: list_ex_iff list_all_iff)

lemma revoked_session_dead:
  assumes "db_wf db" and "s \<in> set (sessions db) \<and> s_id s = hash_token C sid" and "s_revoked s"
  shows "session_dead C sid db"
proof -
  have "s_revoked r" if "r \<in> set (sessions db)" "s_id r = hash_token C sid" for r
    using same_key [of s_id "sessions db" r s] that assms unfolding db_wf_def by metis
  with assms(2) show ?thesis by (auto simp: session_dead_def dead_def list_ex_iff list_all_iff)
qed

lemma user_sessions_dead:
  assumes "db_wf db" and "s \<in> set (sessions db)" and "s_id s = hash_token C sid" and "s_user s = n"
  shows "session_dead C sid (revoke_sessions_for_user n db)"
proof -
  have "s_user r = n" if "r \<in> set (sessions db)" "s_id r = hash_token C sid" for r
    using same_key [of s_id "sessions db" r s] that assms unfolding db_wf_def by metis
  then have "list_all (\<lambda>r. s_id r = hash_token C sid \<longrightarrow> s_user r = n \<and> \<not> s_revoked r \<or> s_revoked r) (sessions db)"
    by (auto simp: list_all_iff)
  moreover have "list_ex (\<lambda>r. s_id r = hash_token C sid) (sessions db)" using assms(2,3) by (auto simp: list_ex_iff)
  ultimately show ?thesis unfolding session_dead_def revoke_sessions_for_user_def by (simp add: dead_update)
qed

lemma user_tokens_dead:
  assumes "db_wf db" and "t \<in> set (tokens db)" and "t_hash t = hash_token C tok" and "t_user t = n"
  shows "token_dead C tok (revoke_tokens_for_user n db)"
proof -
  have "t_user r = n" if "r \<in> set (tokens db)" "t_hash r = hash_token C tok" for r
    using same_key [of t_hash "tokens db" r t] that assms unfolding db_wf_def by metis
  then have "list_all (\<lambda>r. t_hash r = hash_token C tok \<longrightarrow> t_user r = n \<and> \<not> t_revoked r \<or> t_revoked r) (tokens db)"
    by (auto simp: list_all_iff)
  moreover have "list_ex (\<lambda>r. t_hash r = hash_token C tok) (tokens db)" using assms(2,3) by (auto simp: list_ex_iff)
  ultimately show ?thesis unfolding token_dead_def revoke_tokens_for_user_def by (simp add: dead_update)
qed

lemma other_table [simp]:
  "sessions (revoke_tokens_for_user n db) = sessions db" "tokens (revoke_sessions_for_user n db) = tokens db"
  "sessions (reset_lockout n db) = sessions db" "sessions (set_hash rec n db) = sessions db"
  by (simp_all add: statements)

end
