(* ===== verification/Authn_Claims.thy ===== *)
theory Authn_Claims
  imports Authn_Safety
begin

text \<open>
  The claims on the account, session and token store, stated over the operations of
  \<open>Authn_Manager\<close> and proved from the interpretations of \<open>Authn_Safety\<close>.
\<close>

section \<open>A concrete store\<close>

definition demo_admin :: user_row where
  "demo_admin = \<lparr>u_name = ''admin'', u_hash = hash_record demo_crypto ''correct horse'' ''s1'', u_created = 0,
     u_disabled = False, u_last_login = None, u_failed = 4, u_locked = Some 10, u_role = ''admin''\<rparr>"

definition demo_alice :: user_row where
  "demo_alice = \<lparr>u_name = ''alice'', u_hash = hash_record demo_crypto ''battery staple'' ''s2'', u_created = 0,
     u_disabled = False, u_last_login = None, u_failed = 0, u_locked = None, u_role = ''operator''\<rparr>"

definition demo_session :: session_row where
  "demo_session = \<lparr>s_id = ''cookie'', s_user = ''alice'', s_csrf = ''c'', s_created = 0, s_seen = 0,
     s_expires = 1000, s_revoked = False\<rparr>"

definition demo_token :: token_row where
  "demo_token = \<lparr>t_hash = ''bearer'', t_user = ''alice'', t_label = ''phone'', t_created = 0,
     t_last_used = None, t_revoked = False\<rparr>"

definition demo_db :: auth_db where
  "demo_db = \<lparr>users = [demo_admin, demo_alice], sessions = [demo_session], tokens = [demo_token]\<rparr>"

definition demo_cfg :: auth_cfg where
  "demo_cfg = \<lparr>idle_timeout_sec = 100, absolute_timeout_sec = 1000\<rparr>"

lemmas demo_defs = demo_db_def demo_admin_def demo_alice_def demo_session_def demo_token_def

lemma demo_wf: "db_wf demo_db"
  by (simp add: db_wf_def demo_defs live_labels_def)

lemma demo_has_admin: "has_admin demo_db"
  by (simp add: has_admin_def demo_wf) (simp add: demo_defs enabled_admin_def)

lemma demo_names: "canonical_of (PStr ''admin'') = ''admin''" "canonical_of (PStr ''alice'') = ''alice''"
  by code_simp+

lemma demo_hash_token: "hash_token demo_crypto ''cookie'' = ''cookie''" "hash_token demo_crypto ''bearer'' = ''bearer''"
  by (simp_all add: hash_token_def demo_crypto_def code_def)

section \<open>Administrators\<close>

text \<open>
  C33: there is always an enabled administrator. Starting from well-formed tables with one, no
  interleaving of operations by any number of processes (role changes, deletions, disabling,
  logins caught half-way, schema upgrades) leads to a store without an enabled administrator.
\<close>

theorem last_admin_preserved:
  assumes "has_admin db"
  shows "has_admin (run_ops C ops db)"
  unfolding run_ops_def using assms by (rule admins.stable_run)

theorem last_admin_preserved_witness:
  "has_admin (run_ops demo_crypto [(demo_cfg, DisableUser (PStr ''admin'')), (demo_cfg, DeleteUser (PStr ''admin''))] demo_db)"
  by (rule last_admin_preserved [OF demo_has_admin])

text \<open>
  Removing the last enabled administrator is refused with the error that says so, and
  nothing is written: neither demotion nor deletion nor disabling touches the store.
\<close>

theorem last_admin_refused:
  assumes "db_wf db" and row: "get_user_row (canonical_of u) db = Some a"
    and "enabled_admin a" and "count_enabled_admins db \<le> 1"
    and "validate_role r = Inr r'" and "r' \<noteq> ''admin''"
  shows "delete_user u db = (Inl (AuthLastAdmin (canonical_of u) ''delete_user''), db) \<and>
    disable_user u db = (Inl (AuthLastAdmin (canonical_of u) ''disable_user''), db) \<and>
    set_role u r db = (Inl (AuthLastAdmin (canonical_of u) ''set_role''), db)"
proof -
  have "\<not> last_admin_guard db v" if "v \<in> set (users db)" "u_name v = canonical_of u" for v
    using get_user_row_unique [OF assms(1) row that] assms(3,4) by (simp add: last_admin_guard_def)
  then have none: "rowcount (\<lambda>v. u_name v = canonical_of u \<and> last_admin_guard db v) (users db) = 0"
    by (auto simp: rowcount_zero)
  have err: "guarded_write_error (canonical_of u) act db = AuthLastAdmin (canonical_of u) act" for act
    by (simp add: guarded_write_error_def row)
  show ?thesis using none assms(5,6)
    by (simp add: delete_user_def disable_user_def set_role_def Let_def err)
qed

theorem last_admin_refused_witness:
  "disable_user (PStr ''admin'') demo_db = (Inl (AuthLastAdmin ''admin'' ''disable_user''), demo_db)"
proof -
  have "get_user_row (canonical_of (PStr ''admin'')) demo_db = Some demo_admin"
    unfolding demo_names by (simp add: get_user_row_def demo_defs)
  moreover have "enabled_admin demo_admin" by (simp add: enabled_admin_def demo_admin_def)
  moreover have "count_enabled_admins demo_db \<le> 1"
    by (simp add: count_enabled_admins_def rowcount_def demo_defs enabled_admin_def)
  moreover have "validate_role (PStr ''audit'') = Inr ''audit''" by code_simp
  ultimately show ?thesis
    using last_admin_refused [OF demo_wf, of "PStr ''admin''" demo_admin "PStr ''audit''" "''audit''"]
    unfolding demo_names by simp
qed

section \<open>Sessions and tokens\<close>

text \<open>
  The end of a session is final. Once a session has been logged out, or has been seen
  expired by a validation, its cookie is refused by every later validation and CSRF rotation,
  whatever operations follow and even if the timeouts in the configuration are raised.
\<close>

theorem session_end_is_final:
  assumes "db_wf db" and "sid \<noteq> []" and row: "get_session_row (hash_token C sid) db = Some s"
  shows "\<not> session_accepted C q sid (run_ops C ops (snd (logout C sid db))) \<and>
    (session_expired cfg now s \<longrightarrow>
       \<not> session_accepted C q sid (run_ops C ops (snd (validate_session C cfg sid now db))))"
proof -
  have dead: "session_dead C sid (revoke_session (hash_token C sid) db)"
    using session_row_in [OF row] by (blast intro: revoke_session_dead)
  have "session_dead C sid (snd (validate_session C cfg sid now db))" if "session_expired cfg now s"
    using dead revoked_session_dead [OF assms(1)] session_row_in [OF row] assms that
    by (cases "s_revoked s") (simp_all add: validate_session_def Let_def)
  moreover have "session_dead C sid (snd (logout C sid db))"
    using dead assms(2) by (simp add: logout_def Let_def)
  ultimately show ?thesis unfolding run_ops_def using sess.never_again by blast
qed

lemma demo_session_row: "get_session_row (hash_token demo_crypto ''cookie'') demo_db = Some demo_session"
  unfolding demo_hash_token by (simp add: get_session_row_def user_enabled_def demo_defs)

theorem session_end_is_final_witness:
  "\<not> session_accepted demo_crypto (demo_cfg\<lparr>idle_timeout_sec := 9999\<rparr>, 201) ''cookie''
     (run_ops demo_crypto [(demo_cfg, EnsureSchema)] (snd (validate_session demo_crypto demo_cfg ''cookie'' 200 demo_db)))"
proof -
  have "session_expired demo_cfg 200 demo_session"
    by (simp add: session_expired_def demo_cfg_def demo_session_def)
  then show ?thesis
    using session_end_is_final [OF demo_wf _ demo_session_row] by blast
qed

text \<open>
  C34: an account action cuts the credentials already issued, for good. Disabling or deleting an
  account kills every one of its sessions, whatever tokens it has, and every one of its device tokens, whatever sessions it has; changing its
  password kills every one of its sessions. No later operation (re-enabling the account or re-creating it included)
  revives them.
\<close>

theorem account_actions_cut_credentials:
  assumes "db_wf db"
  shows "(\<forall>s sid q ops. s \<in> set (sessions db) \<and> s_id s = hash_token C sid \<and> s_user s = canonical_of u \<longrightarrow>
      (fst (disable_user u db) = Inr () \<longrightarrow> \<not> session_accepted C q sid (run_ops C ops (snd (disable_user u db)))) \<and>
      (fst (delete_user u db) = Inr () \<longrightarrow> \<not> session_accepted C q sid (run_ops C ops (snd (delete_user u db)))) \<and>
      (fst (set_password C u p salt db) = Inr () \<longrightarrow> \<not> session_accepted C q sid (run_ops C ops (snd (set_password C u p salt db))))) \<and>
    (\<forall>t tok now ops. t \<in> set (tokens db) \<and> t_hash t = hash_token C tok \<and> t_user t = canonical_of u \<longrightarrow>
      (fst (disable_user u db) = Inr () \<longrightarrow> \<not> token_accepted C now tok (run_ops C ops (snd (disable_user u db)))) \<and>
      (fst (delete_user u db) = Inr () \<longrightarrow> \<not> token_accepted C now tok (run_ops C ops (snd (delete_user u db)))))"
proof (intro conjI allI impI)
  let ?cut = "\<lambda>us. revoke_tokens_for_user (canonical_of u) (revoke_sessions_for_user (canonical_of u) (db\<lparr>users := us\<rparr>))"
  {
    fix s sid q ops
    assume s: "s \<in> set (sessions db) \<and> s_id s = hash_token C sid \<and> s_user s = canonical_of u"
    note dead = user_sessions_dead [OF assms conjunct1 [OF s] conjunct1 [OF conjunct2 [OF s]] conjunct2 [OF conjunct2 [OF s]]]
    have final: "session_dead C sid db' \<Longrightarrow> \<not> session_accepted C q sid (run_ops C ops db')" for db'
      unfolding run_ops_def using sess.never_again by blast
    have cut: "session_dead C sid (?cut us)" "session_dead C sid (reset_lockout n (revoke_sessions_for_user (canonical_of u) (set_hash rec m db)))"
      for us n rec m using dead by (simp_all add: session_dead_def statements)
    show "fst (disable_user u db) = Inr () \<Longrightarrow> \<not> session_accepted C q sid (run_ops C ops (snd (disable_user u db)))"
      by (rule final) (auto simp: disable_user_def Let_def cut split: if_splits)
    show "fst (delete_user u db) = Inr () \<Longrightarrow> \<not> session_accepted C q sid (run_ops C ops (snd (delete_user u db)))"
      by (rule final) (auto simp: delete_user_def Let_def cut split: if_splits)
    show "fst (set_password C u p salt db) = Inr () \<Longrightarrow> \<not> session_accepted C q sid (run_ops C ops (snd (set_password C u p salt db)))"
      by (rule final) (auto simp: set_password_def Let_def cut split: sum.splits if_splits)
  }
  {
    fix t tok now ops
    assume t: "t \<in> set (tokens db) \<and> t_hash t = hash_token C tok \<and> t_user t = canonical_of u"
    note dead = user_tokens_dead [OF assms conjunct1 [OF t] conjunct1 [OF conjunct2 [OF t]] conjunct2 [OF conjunct2 [OF t]]]
    have final: "token_dead C tok db' \<Longrightarrow> \<not> token_accepted C now tok (run_ops C ops db')" for db'
      unfolding run_ops_def using tok.never_again by blast
    have cut: "token_dead C tok (?cut us)" for us using dead by (simp add: token_dead_def statements)
    show "fst (disable_user u db) = Inr () \<Longrightarrow> \<not> token_accepted C now tok (run_ops C ops (snd (disable_user u db)))"
      by (rule final) (auto simp: disable_user_def Let_def cut split: if_splits)
    show "fst (delete_user u db) = Inr () \<Longrightarrow> \<not> token_accepted C now tok (run_ops C ops (snd (delete_user u db)))"
      by (rule final) (auto simp: delete_user_def Let_def cut split: if_splits)
  }
qed

text \<open>The account of the witness has a session and no token in one database, and a token and no session in the other.\<close>

theorem account_actions_cut_credentials_witness:
  "\<not> session_accepted demo_crypto (demo_cfg, 6) ''cookie'' (run_ops demo_crypto
     [(demo_cfg, EnableUser (PStr ''alice''))] (snd (disable_user (PStr ''alice'') (demo_db\<lparr>tokens := []\<rparr>)))) \<and>
   \<not> token_accepted demo_crypto 6 ''bearer'' (run_ops demo_crypto
     [(demo_cfg, EnableUser (PStr ''alice''))] (snd (disable_user (PStr ''alice'') (demo_db\<lparr>sessions := []\<rparr>))))"
proof -
  have wf: "db_wf (demo_db\<lparr>tokens := []\<rparr>)" "db_wf (demo_db\<lparr>sessions := []\<rparr>)"
    using demo_wf by (simp_all add: db_wf_def live_labels_def)
  have done_ok: "fst (disable_user (PStr ''alice'') (demo_db\<lparr>tokens := []\<rparr>)) = Inr ()" "fst (disable_user (PStr ''alice'') (demo_db\<lparr>sessions := []\<rparr>)) = Inr ()"
    unfolding disable_user_def Let_def demo_names
    by (simp_all add: rowcount_def last_admin_guard_def enabled_admin_def demo_defs)
  have rows: "demo_session \<in> set (sessions (demo_db\<lparr>tokens := []\<rparr>)) \<and> s_id demo_session = hash_token demo_crypto ''cookie'' \<and> s_user demo_session = canonical_of (PStr ''alice'')"
    "demo_token \<in> set (tokens (demo_db\<lparr>sessions := []\<rparr>)) \<and> t_hash demo_token = hash_token demo_crypto ''bearer'' \<and> t_user demo_token = canonical_of (PStr ''alice'')"
    unfolding demo_names demo_hash_token by (simp_all add: demo_db_def) (simp_all add: demo_session_def demo_token_def)
  show ?thesis
    using account_actions_cut_credentials [OF wf(1), of demo_crypto "PStr ''alice''"] account_actions_cut_credentials [OF wf(2), of demo_crypto "PStr ''alice''"]
      done_ok rows by blast
qed

section \<open>Login\<close>

text \<open>
  C35: a login cannot outrun a concurrent change of the account. If between the password check
  and the claim (which another process may fill with any operations) the account was deleted,
  disabled, locked or given another password record, the claim fails with the generic error,
  creates no session and writes nothing.
\<close>

theorem login_race_safe:
  assumes "db_wf db"
    and "case get_user_row (canonical_of u) db of None \<Rightarrow> True
         | Some row \<Rightarrow> u_hash row \<noteq> fst checked \<or> u_disabled row \<or> is_locked (u_locked row) now"
  shows "login_claim C cfg u p checked salt sid csrf now db = (Inl AuthLoginFailed, db)"
proof -
  have "\<not> claimable (canonical_of u) (fst checked) now v" if v: "v \<in> set (users db)" for v
  proof
    assume c: "claimable (canonical_of u) (fst checked) now v"
    then have name: "u_name v = canonical_of u" by (simp add: claimable_def)
    then obtain row where row: "get_user_row (canonical_of u) db = Some row"
      using v get_user_row_none [of "canonical_of u" db] by fastforce
    have "v = row" by (rule get_user_row_unique [OF assms(1) row v name])
    with c assms(2) row show False by (auto simp: claimable_def is_locked_def split: option.splits)
  qed
  then show ?thesis by (simp add: login_claim_def Let_def rowcount_zero)
qed

theorem login_race_safe_witness:
  "login_claim demo_crypto demo_cfg (PStr ''alice'') (PStr ''battery staple'') (''old record'', False) ''s'' ''sid'' ''c'' 20 demo_db
     = (Inl AuthLoginFailed, demo_db)"
proof -
  have "get_user_row (canonical_of (PStr ''alice'')) demo_db = Some demo_alice"
    unfolding demo_names by (simp add: get_user_row_def demo_defs)
  moreover have "u_hash demo_alice \<noteq> ''old record''"
    by (simp add: demo_alice_def hash_record_def ALGO_def)
  ultimately show ?thesis using login_race_safe [OF demo_wf] by simp
qed

lemma login_success:
  assumes "login C cfg u p salt sid csrf now db = (Inr res, db')"
  shows "\<exists>row us. get_user_row (canonical_of u) db = Some row \<and> \<not> u_disabled row \<and> \<not> is_locked (u_locked row) now \<and>
    verifies C (case p of PStr x \<Rightarrow> x | _ \<Rightarrow> []) (u_hash row) \<and>
    create_session C cfg (canonical_of u) sid csrf now (db\<lparr>users := us\<rparr>) = (Inr res, db') \<and>
    list_ex (\<lambda>v. u_name v = canonical_of u \<and> \<not> u_disabled v) us"
proof -
  let ?pw = "case p of PStr x \<Rightarrow> x | _ \<Rightarrow> []" and ?c = "canonical_of u"
  obtain row where row: "get_user_row ?c db = Some row" and nl: "\<not> is_locked (u_locked row) now"
    and ok: "\<not> u_disabled row" "verifies C ?pw (u_hash row)"
    and claim: "login_claim C cfg u p (u_hash row, needs_rehash C ?pw (u_hash row)) salt sid csrf now db = (Inr res, db')"
    using assms unfolding login_def login_check_def Let_def
    by (auto simp: verifies_def needs_rehash_def split: option.splits if_splits)
  let ?us = "update_where (claimable ?c (u_hash row) now)
    (\<lambda>u. u\<lparr>u_last_login := Some now, u_failed := 0, u_locked := None\<rparr>) (users db)"
  have mem: "list_ex (\<lambda>v. u_name v = ?c \<and> \<not> u_disabled v) ?us"
    by (rule list_ex_update_where) (use get_user_row_in [OF row] ok in \<open>auto simp: list_ex_iff\<close>)
  then have mem': "list_ex (\<lambda>v. u_name v = ?c \<and> \<not> u_disabled v)
      (update_where (\<lambda>u. u_name u = ?c) (\<lambda>u. u\<lparr>u_hash := rec\<rparr>) ?us)" for rec
    by (rule list_ex_update_where) simp
  from claim consider "create_session C cfg ?c sid csrf now (db\<lparr>users := ?us\<rparr>) = (Inr res, db')"
    | rec where "create_session C cfg ?c sid csrf now (set_hash rec ?c (db\<lparr>users := ?us\<rparr>)) = (Inr res, db')"
    by (auto simp: login_claim_def Let_def split: if_splits sum.splits)
  then show ?thesis using row nl ok mem mem' by cases (auto simp: set_hash_def)
qed

text \<open>
  Login authenticates and opens a usable session. If a login succeeds, the account existed,
  was enabled, was not locked and its record verified the presented password; and the returned
  cookie validates to that account, with the stored CSRF digest, at every instant within both
  the absolute and the idle bound.
\<close>

theorem login_opens_session:
  assumes "db_wf db" and "login C cfg u p salt sid csrf now db = (Inr res, db')" and "sid \<noteq> []"
    and "now \<le> t" and "t < now + absolute_timeout_sec cfg" and "t < now + idle_timeout_sec cfg"
  shows "(\<exists>row. get_user_row (canonical_of u) db = Some row \<and> \<not> u_disabled row \<and> \<not> is_locked (u_locked row) now \<and>
      verifies C (case p of PStr x \<Rightarrow> x | _ \<Rightarrow> []) (u_hash row)) \<and>
    fst (validate_session C cfg sid t db') =
      Some \<lparr>si_session_id = sid, si_username = canonical_of u, si_csrf_token = hash_token C csrf\<rparr>"
proof -
  obtain row us where row: "get_user_row (canonical_of u) db = Some row" "\<not> u_disabled row"
      "\<not> is_locked (u_locked row) now" "verifies C (case p of PStr x \<Rightarrow> x | _ \<Rightarrow> []) (u_hash row)"
    and cs: "create_session C cfg (canonical_of u) sid csrf now (db\<lparr>users := us\<rparr>) = (Inr res, db')"
    and en: "list_ex (\<lambda>v. u_name v = canonical_of u \<and> \<not> u_disabled v) us"
    using login_success [OF assms(2)] by blast
  have fresh: "\<forall>s \<in> set (sessions db). s_id s \<noteq> hash_token C sid"
    and db': "sessions db' = sessions db @ [\<lparr>s_id = hash_token C sid, s_user = canonical_of u,
      s_csrf = hash_token C csrf, s_created = now, s_seen = now, s_expires = now + absolute_timeout_sec cfg, s_revoked = False\<rparr>]"
    and us: "users db' = us"
    using cs by (auto simp: create_session_def Let_def list_ex_iff split: if_splits)
  have "user_enabled (canonical_of u) db'" using en us by (simp add: user_enabled_def)
  moreover have "find (\<lambda>s. s_id s = hash_token C sid \<and> user_enabled (s_user s) db') (sessions db) = None"
    using fresh by (auto simp: find_None_iff)
  ultimately have "get_session_row (hash_token C sid) db' = Some \<lparr>s_id = hash_token C sid, s_user = canonical_of u,
      s_csrf = hash_token C csrf, s_created = now, s_seen = now, s_expires = now + absolute_timeout_sec cfg, s_revoked = False\<rparr>"
    unfolding get_session_row_def db' by (simp add: find_append)
  with row assms(3,5,6) show ?thesis
    by (auto simp: validate_session_def Let_def session_expired_def not_le)
qed

lemma demo_alice_row: "get_user_row (canonical_of (PStr ''alice'')) demo_db = Some demo_alice"
  unfolding demo_names by (simp add: get_user_row_def demo_defs)

lemma demo_alice_verify:
  "verify_password demo_crypto ''battery staple'' (u_hash demo_alice) = ((True, False), [(SCRYPT_N, SCRYPT_R, SCRYPT_P)])"
  by (simp add: demo_alice_def verify_hash_record [OF dk_ok_demo])

lemma demo_kdf: "kdf demo_crypto pw salt n r p = pad32 pw"
  by (simp add: demo_crypto_def)

lemma demo_wrong:
  "pad32 (utf8 ''wrong'') \<noteq> pad32 (utf8 ''correct horse'')" "pad32 (utf8 ''wrong'') \<noteq> pad32 (utf8 ''battery staple'')"
  by code_simp+

lemma demo_login: "\<exists>res db'. login demo_crypto demo_cfg (PStr ''alice'') (PStr ''battery staple'') ''s3'' ''fresh'' ''c2'' 20 demo_db = (Inr res, db')"
proof -
  have "rowcount (claimable ''alice'' (u_hash demo_alice) 20) (users demo_db) \<noteq> 0"
    by (simp add: rowcount_def claimable_def demo_defs)
  moreover have "hash_token demo_crypto ''fresh'' = ''fresh''" by (simp add: hash_token_def demo_crypto_def code_def)
  moreover have "sessions demo_db = [demo_session]" by (simp add: demo_db_def)
  moreover have "s_id demo_session \<noteq> ''fresh''" by (simp add: demo_session_def)
  moreover have "\<not> u_disabled demo_alice" "\<not> is_locked (u_locked demo_alice) 20"
    by (simp_all add: demo_alice_def is_locked_def)
  ultimately show ?thesis
    unfolding login_def login_check_def login_claim_def create_session_def Let_def demo_alice_row
    by (simp add: demo_alice_verify demo_names)
qed

theorem login_opens_session_witness:
  "\<exists>res db'. login demo_crypto demo_cfg (PStr ''alice'') (PStr ''battery staple'') ''s3'' ''fresh'' ''c2'' 20 demo_db = (Inr res, db') \<and>
     fst (validate_session demo_crypto demo_cfg ''fresh'' 60 db') =
       Some \<lparr>si_session_id = ''fresh'', si_username = ''alice'', si_csrf_token = hash_token demo_crypto ''c2''\<rparr>"
proof -
  obtain res db' where l: "login demo_crypto demo_cfg (PStr ''alice'') (PStr ''battery staple'') ''s3'' ''fresh'' ''c2'' 20 demo_db = (Inr res, db')"
    using demo_login by blast
  show ?thesis
    using login_opens_session [OF demo_wf l, of 60] l unfolding demo_names by (simp add: demo_cfg_def)
qed

lemma get_user_row_failure:
  "get_user_row n (record_failure n k now db) =
     map_option (\<lambda>u. u\<lparr>u_failed := k + 1, u_locked := Some (next_lock_until (k + 1) now)\<rparr>) (get_user_row n db)"
  by (auto simp: get_user_row_def record_failure_def Let_def find_update_where find_Some_iff
      intro!: map_option_cong)

lemma lockout_positive: "5 \<le> k \<Longrightarrow> 2 \<le> lockout_delay_sec k"
proof -
  assume "5 \<le> k"
  moreover have "(2::rat) ^ 1 \<le> 2 ^ nat (k - 4)" if "5 \<le> k" using that by (intro power_increasing) auto
  ultimately show ?thesis by (simp add: lockout_closed_form)
qed

text \<open>
  Guessing is locked out. After the fifth or any later consecutive failure (a wrong password
  or a disabled account) the attempt reports the generic error and adds one to the counter, and
  until the delay of the schedule has passed every further login, with the right password too,
  is refused as locked with the exact remaining time, without evaluating the password and
  without changing the store.
\<close>

theorem lockout_enforced:
  assumes row: "get_user_row (canonical_of u) db = Some row" and "\<not> is_locked (u_locked row) now"
    and fail: "u_disabled row \<or> \<not> verifies C (case p of PStr x \<Rightarrow> x | _ \<Rightarrow> []) (u_hash row)"
    and "4 \<le> u_failed row" and "0 \<le> now" and t: "t < now + lockout_delay_sec (u_failed row + 1)"
  shows "\<exists>db' row'. login C cfg u p salt sid csrf now db = (Inl AuthLoginFailed, db') \<and>
    get_user_row (canonical_of u) db' = Some row' \<and> u_failed row' = u_failed row + 1 \<and>
    login C cfg u p2 salt2 sid2 csrf2 t db' =
      (Inl (AuthAccountLocked (canonical_of u) (now + lockout_delay_sec (u_failed row + 1) - t)), db')"
proof -
  let ?db = "record_failure (canonical_of u) (u_failed row) now db"
  let ?until = "now + lockout_delay_sec (u_failed row + 1)"
  have first: "login C cfg u p salt sid csrf now db = (Inl AuthLoginFailed, ?db)"
    using assms(2) fail by (auto simp: login_def login_check_def Let_def row verifies_def)
  have row': "get_user_row (canonical_of u) ?db = Some (row\<lparr>u_failed := u_failed row + 1, u_locked := Some ?until\<rparr>)"
    by (simp add: get_user_row_failure row next_lock_until_def)
  have "?until \<noteq> 0" using lockout_positive [of "u_failed row + 1"] assms(4,5) by linarith
  then have "login C cfg u p2 salt2 sid2 csrf2 t ?db = (Inl (AuthAccountLocked (canonical_of u) (?until - t)), ?db)"
    using t by (simp add: login_def login_check_def Let_def row' is_locked_def)
  with first row' show ?thesis by auto
qed

theorem lockout_enforced_witness:
  "\<exists>db'. login demo_crypto demo_cfg (PStr ''admin'') (PStr ''wrong'') ''s'' ''x'' ''c'' 20 demo_db = (Inl AuthLoginFailed, db') \<and>
     login demo_crypto demo_cfg (PStr ''admin'') (PStr ''correct horse'') ''s'' ''x'' ''c'' 21 db' = (Inl (AuthAccountLocked ''admin'' 1), db')"
proof -
  have row: "get_user_row (canonical_of (PStr ''admin'')) demo_db = Some demo_admin"
    unfolding demo_names by (simp add: get_user_row_def demo_defs)
  have "\<not> verifies demo_crypto ''wrong'' (u_hash demo_admin)"
    by (simp add: verifies_def demo_admin_def verify_hash_record [OF dk_ok_demo] demo_kdf demo_wrong del: utf8.simps)
  moreover have "lockout_delay_sec 5 = 2" by (simp add: lockout_closed_form)
  moreover have "u_failed demo_admin = 4" "\<not> is_locked (u_locked demo_admin) 20"
    by (simp_all add: demo_admin_def is_locked_def)
  ultimately show ?thesis
    using lockout_enforced [OF row, of 20 demo_crypto "PStr ''wrong''" 21 demo_cfg "''s''" "''x''" "''c''" "PStr ''correct horse''" "''s''" "''x''" "''c''"]
    unfolding demo_names by auto
qed

text \<open>
  Login failures are uniform. For an unknown user name, a wrong password, a disabled account
  and an account still on its bootstrap placeholder, \<open>login\<close> returns the same error after the
  same scrypt work, when the stored record has the current cost parameters.
\<close>

theorem login_no_oracle:
  assumes "dk_ok C" and "get_user_row (canonical_of u) db = Some row" and "\<not> is_locked (u_locked row) now"
    and "u_hash row = hash_record C p0 salt0 \<or> u_hash row = PENDING_HASH_PREFIX @ hash_record C p0 salt0"
    and "u_disabled row \<or> \<not> verifies C (case p of PStr x \<Rightarrow> x | _ \<Rightarrow> []) (u_hash row)"
    and "get_user_row (canonical_of v) db' = None"
  shows "fst (login_check C u p now db) = (Inl AuthLoginFailed, [(SCRYPT_N, SCRYPT_R, SCRYPT_P)]) \<and>
    fst (login_check C v p' now' db') = (Inl AuthLoginFailed, [(SCRYPT_N, SCRYPT_R, SCRYPT_P)])"
proof -
  have cost: "snd (verify_password C pw (u_hash row)) = [(SCRYPT_N, SCRYPT_R, SCRYPT_P)]" for pw
    using assms(4) by (auto simp: verify_hash_record [OF assms(1)] verify_pending_cost)
  have dummy: "snd (verify_password C pw (dummy_record C)) = [(SCRYPT_N, SCRYPT_R, SCRYPT_P)]" for pw
    by (simp add: dummy_record_def verify_hash_record [OF assms(1)])
  show ?thesis using assms(2,3,5,6) by (auto simp: login_check_def Let_def cost dummy verifies_def)
qed

theorem login_no_oracle_witness:
  "fst (login_check demo_crypto (PStr ''alice'') (PStr ''wrong'') 20 demo_db) = (Inl AuthLoginFailed, [(SCRYPT_N, SCRYPT_R, SCRYPT_P)]) \<and>
   fst (login_check demo_crypto (PStr ''nobody'') (PStr ''wrong'') 20 demo_db) = (Inl AuthLoginFailed, [(SCRYPT_N, SCRYPT_R, SCRYPT_P)])"
proof -
  have h: "u_hash demo_alice = hash_record demo_crypto ''battery staple'' ''s2''" by (simp add: demo_alice_def)
  have "\<not> verifies demo_crypto ''wrong'' (u_hash demo_alice)"
    unfolding h by (simp add: verifies_def verify_hash_record [OF dk_ok_demo] demo_kdf demo_wrong del: utf8.simps)
  moreover have "canonical_of (PStr ''nobody'') = ''nobody''" by code_simp
  then have "get_user_row (canonical_of (PStr ''nobody'')) demo_db = None" by (simp add: get_user_row_def demo_defs)
  moreover have "\<not> is_locked (u_locked demo_alice) 20" by (simp add: demo_alice_def is_locked_def)
  ultimately show ?thesis using login_no_oracle [OF dk_ok_demo demo_alice_row, of 20 "''battery staple''" "''s2''" "PStr ''wrong''" "PStr ''nobody''" demo_db "PStr ''wrong''" 20] h by simp
qed

section \<open>First-run setup\<close>

lemma pending_login_fails:
  assumes "get_user_row (canonical_of u) db = Some row" and "is_pending_password_record (u_hash row)"
  shows "fst (login C cfg u p salt sid csrf now db) \<noteq> Inr res"
  using assms pending_never_verifies [OF assms(2)]
  by (auto simp: login_def login_check_def Let_def verifies_def)

lemma bootstrap_sets_up:
  assumes "has_admin db" and "bootstrap_set_password C cfg p salt sid csrf now db = (Inr res, db')"
  shows "setup_done db'"
proof -
  have wf: "db_wf db" using assms(1) by (simp add: has_admin_def)
  obtain row rec where row: "get_user_row BOOTSTRAP_USERNAME db = Some row" and rec: "hash_password C p salt = Inr rec"
    and db': "users db' = users (reset_lockout BOOTSTRAP_USERNAME (db\<lparr>users := update_where
        (\<lambda>u. u_name u = BOOTSTRAP_USERNAME \<and> u_hash u = u_hash row) (\<lambda>u. u\<lparr>u_hash := rec\<rparr>) (users db)\<rparr>))"
    using assms(2) unfolding bootstrap_set_password_def Let_def
    by (auto simp: create_session_def Let_def split: sum.splits option.splits if_splits)
  have "u_hash u = u_hash row" if "u \<in> set (users db)" "u_name u = BOOTSTRAP_USERNAME" for u
    using get_user_row_unique [OF wf row that] by simp
  then have "list_all settled (update_where (\<lambda>u. u_name u = BOOTSTRAP_USERNAME \<and> u_hash u = u_hash row)
      (\<lambda>u. u\<lparr>u_hash := rec\<rparr>) (users db))"
    using hash_password_not_pending [OF rec] by (auto simp: list_all_iff update_where_def settled_def)
  then have "list_all settled (users db')" by (simp add: db' reset_lockout_def settled_update)
  moreover have "has_admin db'"
    using exec_admin [OF assms(1), of C "(cfg, BootstrapSetPassword p salt sid csrf now)"] assms(2) by simp
  ultimately show ?thesis by (simp add: setup_done_def)
qed

lemma setup_done_closed:
  assumes "setup_done db"
  shows "\<not> needs_password_setup db" "fst (bootstrap_set_password C cfg p salt sid csrf now db) \<noteq> Inr res"
  using assms get_user_row_in [of BOOTSTRAP_USERNAME db]
  by (auto simp: setup_done_def list_all_iff settled_def needs_password_setup_def bootstrap_set_password_def
      split: option.split sum.split)

text \<open>
  The first password can be set exactly once. While the bootstrap account carries its
  placeholder no login to it succeeds, whatever password is tried; once the unauthenticated
  setup call has succeeded, no interleaving of later operations makes it succeed again or makes
  the store report that a setup is needed.
\<close>

theorem bootstrap_once:
  assumes "has_admin db" and "bootstrap_set_password C cfg p salt sid csrf now db = (Inr res, db')"
    and "canonical_of u = BOOTSTRAP_USERNAME"
  shows "fst (login C cfg u p1 salt1 sid1 csrf1 now1 db) \<noteq> Inr res1 \<and>
    \<not> needs_password_setup (run_ops C ops db') \<and>
    fst (bootstrap_set_password C cfg2 p2 salt2 sid2 csrf2 now2 (run_ops C ops db')) \<noteq> Inr res2"
proof -
  have "\<exists>row. get_user_row BOOTSTRAP_USERNAME db = Some row \<and> is_pending_password_record (u_hash row)"
    using assms(2) by (auto simp: bootstrap_set_password_def split: sum.splits option.splits if_splits)
  then have "fst (login C cfg u p1 salt1 sid1 csrf1 now1 db) \<noteq> Inr res1"
    using pending_login_fails assms(3) by metis
  moreover have "setup_done (run_ops C ops db')"
    unfolding run_ops_def by (rule boot.stable_run) (rule bootstrap_sets_up [OF assms(1,2)])
  ultimately show ?thesis using setup_done_closed by blast
qed

definition fresh_db :: auth_db where
  "fresh_db = \<lparr>users = [new_user ''admin'' (PENDING_HASH_PREFIX @ hash_record demo_crypto ''discarded'' ''s0'') 0 ''admin''],
     sessions = [], tokens = []\<rparr>"

lemma fresh_has_admin: "has_admin fresh_db"
  by (simp add: has_admin_def db_wf_def fresh_db_def new_user_def live_labels_def enabled_admin_def)

lemma fresh_setup:
  "\<exists>res db'. bootstrap_set_password demo_crypto demo_cfg (PStr ''correct horse'') ''s1'' ''sid'' ''c'' 5 fresh_db = (Inr res, db')"
proof -
  have "hash_password demo_crypto (PStr ''correct horse'') ''s1'' = Inr (hash_record demo_crypto ''correct horse'' ''s1'')"
    by (simp add: hash_password_def validate_password_def MIN_PASSWORD_LEN_def MAX_PASSWORD_LEN_def)
  then show ?thesis
    by (simp add: bootstrap_set_password_def get_user_row_def fresh_db_def new_user_def BOOTSTRAP_USERNAME_def
        pending_prefix rowcount_def Let_def create_session_def revoke_sessions_for_user_def reset_lockout_def update_where_def)
qed

theorem bootstrap_once_witness:
  "\<exists>res db'. bootstrap_set_password demo_crypto demo_cfg (PStr ''correct horse'') ''s1'' ''sid'' ''c'' 5 fresh_db = (Inr res, db') \<and>
     \<not> needs_password_setup (run_ops demo_crypto [(demo_cfg, DeleteUser (PStr ''admin''))] db')"
proof -
  obtain res db' where b: "bootstrap_set_password demo_crypto demo_cfg (PStr ''correct horse'') ''s1'' ''sid'' ''c'' 5 fresh_db = (Inr res, db')"
    using fresh_setup by blast
  have "canonical_of (PStr ''admin'') = BOOTSTRAP_USERNAME" unfolding demo_names by (simp add: BOOTSTRAP_USERNAME_def)
  from bootstrap_once [OF fresh_has_admin b this] b show ?thesis by blast
qed

section \<open>Device tokens\<close>

text \<open>
  The life of a device token. A freshly created token authenticates as its owner; while it is
  live no second token can be created under the same label; and once that label is revoked the
  token is refused for ever, whatever operations follow.
\<close>

theorem token_lifecycle:
  assumes "db_wf db" and "tok \<noteq> []" and "create_device_token C u l tok now db = (Inr tok, db')"
    and "user_enabled (canonical_of u) db"
  shows "fst (verify_device_token C tok t db') = Some (canonical_of u) \<and>
    fst (create_device_token C u l tok2 now2 db') = Inl (AuthTokenLabelExists (canonical_of u) (token_label l)) \<and>
    \<not> token_accepted C t2 tok (run_ops C ops (snd (revoke_device_token u (token_label l) db')))"
proof -
  let ?c = "canonical_of u" and ?l = "token_label l" and ?h = "hash_token C tok"
  let ?row = "\<lparr>t_hash = ?h, t_user = ?c, t_label = ?l, t_created = now, t_last_used = None, t_revoked = False\<rparr>"
  obtain user where user: "get_user_row ?c db = Some user" and fresh: "\<forall>x \<in> set (tokens db). t_hash x \<noteq> ?h"
    and db': "db' = db\<lparr>tokens := tokens db @ [?row]\<rparr>"
    using assms(3) by (auto simp: create_device_token_def insert_token_def Let_def list_ex_iff split: option.splits if_splits)
  have "find (\<lambda>x. t_hash x = ?h \<and> user_enabled (t_user x) db') (tokens db) = None"
    using fresh by (auto simp: find_None_iff)
  moreover have "user_enabled ?c db'" using assms(4) by (simp add: user_enabled_def db')
  ultimately have "get_token_row ?h db' = Some ?row" by (simp add: get_token_row_def db' find_append)
  then have "fst (verify_device_token C tok t db') = Some ?c" using assms(2) by (simp add: verify_device_token_def Let_def)
  moreover have "fst (create_device_token C u l tok2 now2 db') = Inl (AuthTokenLabelExists ?c ?l)"
    using user by (simp add: create_device_token_def Let_def db' get_user_row_def live_label_def list_ex_iff)
  moreover have "token_dead C tok (snd (revoke_device_token u ?l db'))"
    unfolding token_dead_def revoke_device_token_def Let_def db'
    using fresh by (auto intro!: dead_update simp: list_ex_iff list_all_iff live_label_def)
  then have "\<not> token_accepted C t2 tok (run_ops C ops (snd (revoke_device_token u ?l db')))"
    unfolding run_ops_def by (rule tok.never_again)
  ultimately show ?thesis by blast
qed

lemma demo_new_token:
  "\<exists>db'. create_device_token demo_crypto (PStr ''alice'') None ''bearer2'' 5 demo_db = (Inr ''bearer2'', db')"
proof -
  have "hash_token demo_crypto ''bearer2'' = ''bearer2''" by (simp add: hash_token_def demo_crypto_def code_def)
  moreover have "token_label None = ''unlabeled''" by (simp add: token_label_def)
  moreover have "t_label demo_token \<noteq> ''unlabeled''" "t_hash demo_token \<noteq> ''bearer2''" by (simp_all add: demo_token_def)
  moreover have "tokens demo_db = [demo_token]" by (simp add: demo_db_def)
  ultimately show ?thesis unfolding create_device_token_def Let_def demo_alice_row
    by (simp add: insert_token_def live_label_def)
qed

theorem token_lifecycle_witness:
  "\<exists>db'. create_device_token demo_crypto (PStr ''alice'') None ''bearer2'' 5 demo_db = (Inr ''bearer2'', db') \<and>
     fst (verify_device_token demo_crypto ''bearer2'' 9 db') = Some ''alice''"
proof -
  obtain db' where c: "create_device_token demo_crypto (PStr ''alice'') None ''bearer2'' 5 demo_db = (Inr ''bearer2'', db')"
    using demo_new_token by blast
  have "user_enabled (canonical_of (PStr ''alice'')) demo_db"
    unfolding demo_names by (simp add: user_enabled_def demo_defs)
  from token_lifecycle [OF demo_wf _ c this, of 9] c show ?thesis unfolding demo_names by blast
qed

text \<open>
  The keys of the tables stay keys. User names, session identifiers and token hashes remain
  unique, and so do the labels among the live tokens of a user, under every interleaving of
  operations.
\<close>

theorem tables_stay_well_formed:
  assumes "db_wf db"
  shows "db_wf (run_ops C ops db)"
  unfolding run_ops_def using assms by (rule tables.stable_run)

theorem tables_stay_well_formed_witness:
  "db_wf (run_ops demo_crypto [(demo_cfg, CreateToken (PStr ''alice'') (Some ''phone'') ''other'' 3)] demo_db)"
  by (rule tables_stay_well_formed [OF demo_wf])

end
