(* ===== verification/Retrieval.thy ===== *)
theory Retrieval
  imports Py_Codec "HOL-Library.Multiset"
begin

text \<open>
  Model of the retrieval path: \<open>retrieval/stemmer.py\<close> (tokens), \<open>retrieval/results.py\<close>,
  \<open>retrieval/hybrid_search.py\<close> (the two legs, their degradation and the reciprocal rank
  fusion), \<open>memory/flags.py\<close> and \<open>memory/retrieval_adapter.py\<close> (optional fusion of memory
  facts).

  Code outside the repository is an argument: the Porter stemmer (a function on words), the
  BM25 scores of a query (one per chunk), the answer of the vector store (\<open>None\<close> when the
  embedding or the backend raises) and the full-text search over facts (\<open>None\<close> when it raises).
\<close>

section \<open>Tokens\<close>

definition word_start :: "char \<Rightarrow> bool" where
  "word_start c = (97 \<le> code c \<and> code c \<le> 122)"

definition word_char :: "char \<Rightarrow> bool" where
  "word_char c = (word_start c \<or> is_digit c \<or> c \<in> set ''_-'')"

text \<open>\<open>_WORD_RE.findall\<close>: greedy, leftmost, non-overlapping.\<close>

function word_findall :: "str \<Rightarrow> str list" where
  "word_findall [] = []"
| "word_findall (c # cs) =
     (let tail = take 255 (takeWhile word_char cs) in
      if word_start c \<and> tail \<noteq> [] then (c # tail) # word_findall (drop (length tail) cs)
      else word_findall cs)"
  by pat_completeness auto

termination
  by (relation "measure length") auto

definition MAX_TOKEN_CHARS :: nat where "MAX_TOKEN_CHARS = 256"

definition CUSTOM_STEMS :: "(str \<times> str) list" where
  "CUSTOM_STEMS = [(''embedding'', ''embed''), (''embeddings'', ''embed''),
     (''transformer'', ''transform''), (''transformers'', ''transform''),
     (''attention'', ''attn''), (''attentional'', ''attn''),
     (''retrieval'', ''retriev''), (''retrieve'', ''retriev''), (''retrieved'', ''retriev''),
     (''augmented'', ''augment''), (''augmentation'', ''augment''),
     (''kubernetes'', ''k8s''), (''docker'', ''docker''), (''nginx'', ''nginx''),
     (''langgraph'', ''langgraph''), (''langchain'', ''langchain''),
     (''chromadb'', ''chroma''), (''chroma'', ''chroma''),
     (''cyclaw'', ''cyclaw''), (''safeclaw'', ''safeclaw''),
     (''personality'', ''person''), (''soul'', ''soul'')]"

definition stem_token :: "(str \<Rightarrow> str) \<Rightarrow> str \<Rightarrow> str" where
  "stem_token porter token =
     (let lower = py_lower token;
          lower' = (if MAX_TOKEN_CHARS < length lower then take MAX_TOKEN_CHARS lower else lower) in
      case map_of CUSTOM_STEMS lower' of Some s \<Rightarrow> s | None \<Rightarrow> porter lower')"

definition tokenize_and_stem :: "(str \<Rightarrow> str) \<Rightarrow> str \<Rightarrow> str list" where
  "tokenize_and_stem porter text = map (stem_token porter) (word_findall (py_lower text))"

section \<open>Search results\<close>

datatype retrieval_mode = Semantic | Keyword | Hybrid | Memory

record search_result =
  sr_text :: str
  sr_score :: rat
  sr_source :: str
  sr_chunk_id :: int
  sr_stem_tags :: "str list"
  sr_mode :: retrieval_mode
  sr_sha256 :: str
  sr_semantic_score :: "rat option"
  sr_semantic_rank :: "nat option"
  sr_keyword_score :: "rat option"
  sr_keyword_rank :: "nat option"
  sr_rrf_score :: "rat option"
  sr_rrf_semantic :: "rat option"
  sr_rrf_keyword :: "rat option"

definition SearchResult :: "str \<Rightarrow> rat \<Rightarrow> str \<Rightarrow> int \<Rightarrow> str list \<Rightarrow> retrieval_mode \<Rightarrow> str \<Rightarrow> search_result" where
  "SearchResult text score source chunk_id stem_tags mode sha = \<lparr>sr_text = text, sr_score = score,
     sr_source = source, sr_chunk_id = chunk_id, sr_stem_tags = stem_tags, sr_mode = mode, sr_sha256 = sha,
     sr_semantic_score = None, sr_semantic_rank = None, sr_keyword_score = None, sr_keyword_rank = None,
     sr_rrf_score = None, sr_rrf_semantic = None, sr_rrf_keyword = None\<rparr>"

type_synonym hit_key = "str \<times> int"

definition hkey :: "search_result \<Rightarrow> hit_key" where
  "hkey h = (sr_source h, sr_chunk_id h)"

datatype search_error = EmbeddingServiceError | KeywordError | ZeroDivisionError

datatype retrieval_event = RetrievalDegraded str | MemoryFusionError

section \<open>The two legs\<close>

record vec_hit =
  vh_text :: str
  vh_score :: rat
  vh_source :: str
  vh_chunk_id :: int
  vh_stem_tags :: "str list"
  vh_sha256 :: str

definition semantic_hit :: "nat \<times> vec_hit \<Rightarrow> search_result" where
  "semantic_hit ir = (case ir of (i, r) \<Rightarrow>
     (SearchResult (vh_text r) (vh_score r) (vh_source r) (vh_chunk_id r) (vh_stem_tags r) Semantic (vh_sha256 r))
       \<lparr>sr_semantic_score := Some (vh_score r), sr_semantic_rank := Some i\<rparr>)"

definition semantic_search :: "vec_hit list option \<Rightarrow> search_error + search_result list" where
  "semantic_search raw = (case raw of None \<Rightarrow> Inl EmbeddingServiceError
     | Some rs \<Rightarrow> Inr (map semantic_hit (enumerate 0 rs)))"

text \<open>A chunk of the BM25 index; a missing \<open>source\<close> or \<open>chunk_id\<close> in its metadata is \<open>KeyError\<close>.\<close>

record bm25_chunk =
  bc_text :: str
  bc_source :: "str option"
  bc_chunk_id :: "int option"
  bc_stem_tags :: "str list"
  bc_sha256 :: str

text \<open>The load-time check of the index: three non-empty arrays of one length.\<close>

definition index_sizes_ok :: "nat \<Rightarrow> nat \<Rightarrow> nat \<Rightarrow> bool" where
  "index_sizes_ok n_tok n_chunks n_meta = (\<not> (n_tok = 0 \<or> n_tok \<noteq> n_chunks \<or> n_tok \<noteq> n_meta))"

definition nlargest :: "int \<Rightarrow> rat list \<Rightarrow> nat list" where
  "nlargest k scores = take (nat k) (sorted_desc (\<lambda>i. scores ! i) [0..<length scores])"

fun keyword_hits :: "bm25_chunk list \<Rightarrow> rat list \<Rightarrow> nat \<Rightarrow> nat list \<Rightarrow> search_error + search_result list" where
  "keyword_hits chunks scores n [] = Inr []"
| "keyword_hits chunks scores n (idx # idxs) =
     (if 0 < scores ! idx then
        if length chunks \<le> idx then Inl KeywordError
        else let c = chunks ! idx in
          (case (bc_source c, bc_chunk_id c) of
             (Some src, Some cid) \<Rightarrow>
               (case keyword_hits chunks scores (Suc n) idxs of Inl e \<Rightarrow> Inl e
                | Inr hs \<Rightarrow> Inr ((SearchResult (bc_text c) (scores ! idx) src cid (bc_stem_tags c) Keyword (bc_sha256 c))
                    \<lparr>sr_keyword_score := Some (scores ! idx), sr_keyword_rank := Some n\<rparr> # hs))
           | _ \<Rightarrow> Inl KeywordError)
      else keyword_hits chunks scores n idxs)"

definition keyword_search :: "bm25_chunk list \<Rightarrow> rat list \<Rightarrow> int \<Rightarrow> search_error + search_result list" where
  "keyword_search chunks scores k = keyword_hits chunks scores 0 (nlargest k scores)"

section \<open>Reciprocal rank fusion\<close>

definition rrf_contrib :: "int \<Rightarrow> nat \<Rightarrow> rat" where
  "rrf_contrib k rank = 1 / of_int (k + int rank)"

text \<open>Python raises when some \<open>rrf_k + rank\<close> is zero.\<close>

definition rrf_raises :: "int \<Rightarrow> nat \<Rightarrow> bool" where
  "rrf_raises k n = list_ex (\<lambda>rank. k + int rank = 0) [0..<n]"

definition normalize_hit :: "int \<Rightarrow> nat \<times> search_result \<Rightarrow> search_result" where
  "normalize_hit k ih = (case ih of (rank, hit) \<Rightarrow>
     let c = rrf_contrib k rank;
         hit' = hit\<lparr>sr_score := c, sr_rrf_score := Some c\<rparr> in
     if sr_mode hit = Semantic then hit'\<lparr>sr_rrf_semantic := Some c\<rparr>
     else if sr_mode hit = Keyword then hit'\<lparr>sr_rrf_keyword := Some c\<rparr> else hit')"

definition normalize_single_path :: "int \<Rightarrow> search_result list \<Rightarrow> search_result list" where
  "normalize_single_path k hits = map (normalize_hit k) (enumerate 0 hits)"

fun add_leg :: "int \<Rightarrow> nat \<Rightarrow> search_result list \<Rightarrow> (hit_key, rat) dict \<Rightarrow> (hit_key, rat) dict" where
  "add_leg k rank [] scores = scores"
| "add_leg k rank (h # hs) scores =
     add_leg k (Suc rank) hs (AList.update (hkey h) (dget scores (hkey h) 0 + rrf_contrib k rank) scores)"

record leg_meta =
  lm_rank :: nat
  lm_score :: rat
  lm_contrib :: rat

fun leg_metas :: "int \<Rightarrow> nat \<Rightarrow> search_result list \<Rightarrow> (hit_key, leg_meta) dict \<Rightarrow> (hit_key, leg_meta) dict" where
  "leg_metas k rank [] d = d"
| "leg_metas k rank (h # hs) d =
     leg_metas k (Suc rank) hs (AList.update (hkey h) \<lparr>lm_rank = rank, lm_score = sr_score h, lm_contrib = rrf_contrib k rank\<rparr> d)"

fun index_hits :: "search_result list \<Rightarrow> (hit_key, search_result) dict \<Rightarrow> (hit_key, search_result) dict" where
  "index_hits [] d = d"
| "index_hits (h # hs) d = index_hits hs (AList.update (hkey h) h d)"

definition merge_hit :: "(hit_key, search_result) dict \<Rightarrow> (hit_key, leg_meta) dict \<Rightarrow> (hit_key, leg_meta) dict
    \<Rightarrow> hit_key \<times> rat \<Rightarrow> search_result" where
  "merge_hit all_hits sm_d km_d ks = (case ks of ((source, chunk_id), score) \<Rightarrow>
     let hit = the (map_of all_hits (source, chunk_id)); sm = map_of sm_d (source, chunk_id);
         km = map_of km_d (source, chunk_id) in
     \<lparr>sr_text = sr_text hit, sr_score = score, sr_source = source, sr_chunk_id = chunk_id,
      sr_stem_tags = sr_stem_tags hit, sr_mode = Hybrid, sr_sha256 = sr_sha256 hit,
      sr_semantic_score = map_option lm_score sm, sr_semantic_rank = map_option lm_rank sm,
      sr_keyword_score = map_option lm_score km, sr_keyword_rank = map_option lm_rank km,
      sr_rrf_score = Some score, sr_rrf_semantic = map_option lm_contrib sm,
      sr_rrf_keyword = map_option lm_contrib km\<rparr>)"

definition rrf_fuse :: "int \<Rightarrow> search_result list \<Rightarrow> search_result list \<Rightarrow> search_result list" where
  "rrf_fuse k sem kw =
     (let scores = add_leg k 0 kw (add_leg k 0 sem []);
          ranked = sorted_desc snd scores in
      map (merge_hit (index_hits (sem @ kw) []) (leg_metas k 0 sem []) (leg_metas k 0 kw [])) ranked)"

section \<open>Memory fusion\<close>

definition facts_retrieval_enabled :: "pyval \<Rightarrow> bool option" where
  "facts_retrieval_enabled mem_cfg =
     (case py_get (or_empty mem_cfg) ''facts'' of None \<Rightarrow> None
      | Some (PDict facts) \<Rightarrow>
          Some (case map_of facts ''retrieval_enabled'' of
             Some v \<Rightarrow> is_literal_true v
           | None \<Rightarrow> (case map_of facts ''enabled'' of Some v \<Rightarrow> is_literal_true v | None \<Rightarrow> False))
      | Some _ \<Rightarrow> Some False)"

text \<open>The three switches in the order both readers test them; \<open>None\<close> when reading them raises.\<close>

definition fusion_gate :: "pyval \<Rightarrow> pyval option" where
  "fusion_gate cfg =
     (case py_get cfg ''memory'' of None \<Rightarrow> None
      | Some m \<Rightarrow> let mem = or_empty m in
     (case (py_get mem ''retrieval_fusion'', py_get mem ''enabled'') of
        (Some f, Some en) \<Rightarrow> let fusion = or_empty f in
          (case py_get fusion ''enabled'' of None \<Rightarrow> if is_literal_true en then None else Some PNone
           | Some fe \<Rightarrow>
               if \<not> is_literal_true en \<or> \<not> is_literal_true fe then Some PNone
               else (case facts_retrieval_enabled mem of None \<Rightarrow> None
                     | Some b \<Rightarrow> Some (if b then fusion else PNone)))
      | _ \<Rightarrow> None))"

type_synonym fts_search = "str \<Rightarrow> int \<Rightarrow> (int \<times> str \<times> rat) list option"

definition memory_hit :: "int \<Rightarrow> str \<Rightarrow> nat \<times> (int \<times> str \<times> rat) \<Rightarrow> search_result" where
  "memory_hit rrf_k source_prefix x = (case x of (rank, (fact_id, content, _)) \<Rightarrow>
     (SearchResult content (rrf_contrib rrf_k rank) (source_prefix @ int_str fact_id) fact_id
        [''memory'', ''fact''] Memory [])\<lparr>sr_rrf_score := Some (rrf_contrib rrf_k rank)\<rparr>)"

definition int_setting :: "pyval \<Rightarrow> str \<Rightarrow> int \<Rightarrow> int option" where
  "int_setting fusion key d =
     (case fusion of PDict e \<Rightarrow>
        (let v = dget e key (PInt d) in py_to_int (if py_truthy v then v else PInt d))
      | _ \<Rightarrow> None)"

text \<open>
  \<open>fuse_memory_hits\<close> behind the gate, which \<open>_maybe_fuse_memory\<close> and the adapter both evaluate (to
  the same value, so it appears once); \<open>None\<close> when something raises.
\<close>

definition fuse_memory_hits :: "(pyval \<Rightarrow> str) \<Rightarrow> fts_search \<Rightarrow> str \<Rightarrow> search_result list \<Rightarrow> pyval
    \<Rightarrow> search_result list option" where
  "fuse_memory_hits py_str fts query corpus_hits cfg =
     (case fusion_gate cfg of None \<Rightarrow> None
      | Some fusion \<Rightarrow>
          if fusion = PNone then Some corpus_hits
          else (case (int_setting fusion ''max_hits'' 3, int_setting fusion ''rrf_k'' 60, py_get fusion ''source_prefix'') of
             (Some max_hits, Some rrf_k, Some sp) \<Rightarrow>
               let prefix = (if py_truthy sp then py_str sp else ''memory:fact:'') in
               (case fts query max_hits of None \<Rightarrow> None
                | Some rows \<Rightarrow>
                    if rows = [] then Some corpus_hits
                    else if rrf_raises rrf_k (length rows) then None
                    else Some (sorted_desc sr_score (corpus_hits @ map (memory_hit rrf_k prefix) (enumerate 0 rows))))
           | _ \<Rightarrow> None))"

definition maybe_fuse_memory :: "(pyval \<Rightarrow> str) \<Rightarrow> fts_search \<Rightarrow> pyval \<Rightarrow> str \<Rightarrow> search_result list
    \<Rightarrow> search_result list \<times> retrieval_event list" where
  "maybe_fuse_memory py_str fts cfg query hits =
     (case fuse_memory_hits py_str fts query hits cfg of
        None \<Rightarrow> (hits, [MemoryFusionError])
      | Some hs \<Rightarrow> (hs, []))"

section \<open>Hybrid search\<close>

record retriever =
  rt_cfg :: pyval
  rt_chunks :: "bm25_chunk list"
  rt_top_k_keyword :: int
  rt_rrf_k :: int

definition hybrid_search :: "(pyval \<Rightarrow> str) \<Rightarrow> fts_search \<Rightarrow> retriever \<Rightarrow> vec_hit list option \<Rightarrow> rat list \<Rightarrow> str
    \<Rightarrow> (search_error + search_result list) \<times> retrieval_event list" where
  "hybrid_search py_str fts R raw scores query =
     (let (sem, e1) = (case semantic_search raw of Inl _ \<Rightarrow> ([], [RetrievalDegraded ''semantic'']) | Inr hs \<Rightarrow> (hs, []));
          (kw, e2) = (case keyword_search (rt_chunks R) scores (rt_top_k_keyword R) of
             Inl _ \<Rightarrow> ([], [RetrievalDegraded ''keyword'']) | Inr hs \<Rightarrow> (hs, []));
          finish = (\<lambda>hits. case maybe_fuse_memory py_str fts (rt_cfg R) query hits of
             (hs, e3) \<Rightarrow> (Inr hs, e1 @ e2 @ e3)) in
      if sem = [] \<and> kw = [] then finish []
      else if sem = [] then
        (if rrf_raises (rt_rrf_k R) (length kw) then (Inl ZeroDivisionError, e1 @ e2)
         else finish (normalize_single_path (rt_rrf_k R) kw))
      else if kw = [] then finish sem
      else if rrf_raises (rt_rrf_k R) (max (length sem) (length kw)) then (Inl ZeroDivisionError, e1 @ e2)
      else finish (rrf_fuse (rt_rrf_k R) sem kw))"

section \<open>Fused scores\<close>

text \<open>What a leg contributes to a key: one reciprocal rank per occurrence.\<close>

definition leg_score :: "int \<Rightarrow> nat \<Rightarrow> search_result list \<Rightarrow> hit_key \<Rightarrow> rat" where
  "leg_score k rank hs key = sum_list (map (\<lambda>(i, h). if hkey h = key then 1 / of_int (k + int i) else 0) (enumerate rank hs))"

lemma leg_score_Nil [simp]: "leg_score k r [] key = 0"
  by (simp add: leg_score_def)

lemma leg_score_Cons [simp]:
  "leg_score k r (h # hs) key = (if hkey h = key then rrf_contrib k r else 0) + leg_score k (Suc r) hs key"
  by (simp add: leg_score_def rrf_contrib_def)

lemma dget_add_leg: "dget (add_leg k r hs d) key 0 = dget d key 0 + leg_score k r hs key"
  by (induction k r hs d rule: add_leg.induct) (auto simp: dict_simps)

lemma add_leg_keys: "fst ` set (add_leg k r hs d) = fst ` set d \<union> hkey ` set hs"
  by (induction k r hs d rule: add_leg.induct) (auto simp: dom_update)

lemma add_leg_distinct: "distinct (map fst d) \<Longrightarrow> distinct (map fst (add_leg k r hs d))"
  by (induction k r hs d rule: add_leg.induct) (auto simp: distinct_update)

lemma add_leg_entry:
  assumes "(key, s) \<in> set (add_leg k 0 kw (add_leg k 0 sem []))"
  shows "s = leg_score k 0 sem key + leg_score k 0 kw key"
proof -
  have "distinct (map fst (add_leg k 0 kw (add_leg k 0 sem [])))" by (simp add: add_leg_distinct)
  with assms have "dget (add_leg k 0 kw (add_leg k 0 sem [])) key 0 = s" by (simp add: dget_def)
  then show ?thesis by (simp add: dget_add_leg)
qed

lemma index_hits_keys: "fst ` set (index_hits hs d) = fst ` set d \<union> hkey ` set hs"
  by (induction hs d rule: index_hits.induct) (auto simp: dom_update)

lemma index_hits_source:
  "map_of (index_hits hs d) key = Some h \<Longrightarrow> h \<in> set hs \<and> hkey h = key \<or> map_of d key = Some h"
  by (induction hs d rule: index_hits.induct) (auto simp: update_conv' split: if_splits)

lemma hkey_merge_hit [simp]: "hkey (merge_hit A S K ks) = fst ks" "sr_score (merge_hit A S K ks) = snd ks"
  by (simp_all add: merge_hit_def hkey_def Let_def split: prod.split)

lemma merge_hit_text: "sr_text (merge_hit A S K ks) = sr_text (the (map_of A (fst ks)))"
  by (simp add: merge_hit_def Let_def split: prod.split)

lemma rrf_fuse_keys: "map hkey (rrf_fuse k sem kw) = map fst (sorted_desc snd (add_leg k 0 kw (add_leg k 0 sem [])))"
  by (simp add: rrf_fuse_def Let_def)

lemma rrf_fuse_member:
  assumes "r \<in> set (rrf_fuse k sem kw)"
  shows "sr_score r = leg_score k 0 sem (hkey r) + leg_score k 0 kw (hkey r)"
    and "\<exists>h \<in> set sem \<union> set kw. hkey h = hkey r \<and> sr_text r = sr_text h"
proof -
  obtain ks where ks: "ks \<in> set (add_leg k 0 kw (add_leg k 0 sem []))"
    and r: "r = merge_hit (index_hits (sem @ kw) []) (leg_metas k 0 sem []) (leg_metas k 0 kw []) ks"
    using assms by (auto simp: rrf_fuse_def Let_def)
  show "sr_score r = leg_score k 0 sem (hkey r) + leg_score k 0 kw (hkey r)"
    using add_leg_entry [of "fst ks" "snd ks"] ks by (simp add: r)
  have "fst ks \<in> fst ` set (index_hits (sem @ kw) [])"
    using ks imageI [OF ks, of fst] by (auto simp: add_leg_keys index_hits_keys)
  then obtain h where "map_of (index_hits (sem @ kw) []) (fst ks) = Some h"
    by (metis in_keys_iff not_None_eq)
  with index_hits_source [OF this] show "\<exists>h \<in> set sem \<union> set kw. hkey h = hkey r \<and> sr_text r = sr_text h"
    by (auto simp: r merge_hit_text)
qed

lemma rrf_fuse_sorted: "sorted_wrt (\<lambda>a b. sr_score b \<le> sr_score a) (rrf_fuse k sem kw)"
  using sorted_desc_ordered [of snd "add_leg k 0 kw (add_leg k 0 sem [])"]
  by (simp add: rrf_fuse_def Let_def sorted_wrt_map)

lemma leg_score_nonneg: "0 < k \<Longrightarrow> 0 \<le> leg_score k r hs key"
  by (induction hs arbitrary: r) (auto simp: rrf_contrib_def)

lemma leg_score_ge:
  assumes "0 < k" and "i < length hs" and "hkey (hs ! i) = key"
  shows "1 / of_int (k + int (r + i)) \<le> leg_score k r hs key"
  using assms(2,3)
proof (induction hs arbitrary: r i)
  case (Cons h hs)
  show ?case
  proof (cases i)
    case 0
    with Cons.prems leg_score_nonneg [OF assms(1), of "Suc r" hs key] show ?thesis
      by (simp add: rrf_contrib_def)
  next
    case (Suc j)
    then have "1 / of_int (k + int (Suc r + j)) \<le> leg_score k (Suc r) hs key"
      using Cons.prems Cons.IH [of j "Suc r"] by simp
    moreover have "0 \<le> rrf_contrib k r" using assms(1) by (simp add: rrf_contrib_def)
    ultimately show ?thesis using Suc by auto
  qed
qed simp

lemma rrf_no_raise: "0 < k \<Longrightarrow> \<not> rrf_raises k n"
  by (auto simp: rrf_raises_def list_ex_iff)

section \<open>The claims on retrieval\<close>

text \<open>
  Reciprocal rank fusion computes what it promises. The fused list contains every chunk that
  either leg found exactly once and nothing else, each with the text of one of its hits and with
  the sum of \<open>1 / (rrf_k + rank)\<close> over its occurrences in the two legs as its score, in order of
  descending score.
\<close>

theorem rrf_fusion_correct:
  "distinct (map hkey (rrf_fuse k sem kw)) \<and>
   set (map hkey (rrf_fuse k sem kw)) = hkey ` (set sem \<union> set kw) \<and>
   sorted_wrt (\<lambda>a b. sr_score b \<le> sr_score a) (rrf_fuse k sem kw) \<and>
   list_all (\<lambda>r. sr_score r = leg_score k 0 sem (hkey r) + leg_score k 0 kw (hkey r) \<and>
      list_ex (\<lambda>h. hkey h = hkey r \<and> sr_text h = sr_text r) (sem @ kw)) (rrf_fuse k sem kw)"
proof (intro conjI)
  let ?d = "add_leg k 0 kw (add_leg k 0 sem [])"
  have "mset (map fst (sorted_desc snd ?d)) = mset (map fst ?d)" by (simp add: sorted_desc_def)
  then have "distinct (map fst (sorted_desc snd ?d))"
    using add_leg_distinct [of "add_leg k 0 sem []" k 0 kw] by (metis add_leg_distinct distinct.simps(1) list.simps(8) mset_eq_imp_distinct_iff)
  then show "distinct (map hkey (rrf_fuse k sem kw))" by (simp add: rrf_fuse_keys)
  show "set (map hkey (rrf_fuse k sem kw)) = hkey ` (set sem \<union> set kw)"
    unfolding rrf_fuse_keys by (simp add: add_leg_keys image_Un)
  show "sorted_wrt (\<lambda>a b. sr_score b \<le> sr_score a) (rrf_fuse k sem kw)" by (rule rrf_fuse_sorted)
  show "list_all (\<lambda>r. sr_score r = leg_score k 0 sem (hkey r) + leg_score k 0 kw (hkey r) \<and>
      list_ex (\<lambda>h. hkey h = hkey r \<and> sr_text h = sr_text r) (sem @ kw)) (rrf_fuse k sem kw)"
    using rrf_fuse_member by (fastforce simp: list_all_iff list_ex_iff)
qed

lemma normalize_score: "s \<in> set (normalize_single_path k hits) \<Longrightarrow> \<exists>i. sr_score s = rrf_contrib k i"
  by (auto simp: normalize_single_path_def normalize_hit_def Let_def split: if_splits)

lemma contrib_le: "0 < k \<Longrightarrow> rrf_contrib k i \<le> 1 / of_int k"
  by (simp add: rrf_contrib_def divide_simps)

lemma contrib_half: "0 < k \<Longrightarrow> int i < k \<Longrightarrow> 1 / (2 * of_int k) < (1 / of_int (k + int i) :: rat)"
  by (simp add: divide_simps)

text \<open>
  Agreement of the two legs dominates a single leg. A chunk that both legs rank within their
  first \<open>rrf_k\<close> places scores strictly more than anything the keyword-only fallback can return,
  so a degraded retrieval never looks like agreement.
\<close>

theorem agreement_dominates:
  assumes "0 < k" and "i < length sem" and "j < length kw" and "hkey (sem ! i) = hkey (kw ! j)"
    and "int i < k" and "int j < k"
    and r: "r \<in> set (rrf_fuse k sem kw)" "hkey r = hkey (sem ! i)"
    and s: "s \<in> set (normalize_single_path k hits)"
  shows "sr_score s < sr_score r"
proof -
  have "1 / of_int (k + int i) \<le> leg_score k 0 sem (hkey r)" "1 / of_int (k + int j) \<le> leg_score k 0 kw (hkey r)"
    using leg_score_ge [OF assms(1), of _ _ _ 0] assms(2-4) r(2) by fastforce+
  then have "1 / of_int (k + int i) + 1 / of_int (k + int j) \<le> sr_score r"
    using rrf_fuse_member(1) [OF r(1)] by simp
  moreover have "1 / of_int k = 1 / (2 * of_int k) + (1 / (2 * of_int k) :: rat)" by simp
  moreover have "1 / (2 * of_int k) < (1 / of_int (k + int i) :: rat)" "1 / (2 * of_int k) < (1 / of_int (k + int j) :: rat)"
    using contrib_half assms by blast+
  moreover have "sr_score s \<le> 1 / of_int k" using normalize_score [OF s] contrib_le [OF assms(1)] by metis
  ultimately show ?thesis by linarith
qed

definition demo_hit :: "str \<Rightarrow> int \<Rightarrow> retrieval_mode \<Rightarrow> search_result" where
  "demo_hit src cid mode = SearchResult ''text'' (27 / 10) src cid [] mode []"

lemma hkey_demo [simp]: "hkey (demo_hit src cid mode) = (src, cid)"
  by (simp add: hkey_def demo_hit_def SearchResult_def)

theorem agreement_dominates_witness:
  "\<exists>r. r \<in> set (rrf_fuse 60 [demo_hit ''a'' 1 Semantic, demo_hit ''b'' 2 Semantic] [demo_hit ''b'' 2 Keyword]) \<and>
     hkey r = (''b'', 2) \<and> (\<forall>s. s \<in> set (normalize_single_path 60 [demo_hit ''c'' 3 Keyword]) \<longrightarrow> sr_score s < sr_score r)"
proof -
  let ?sem = "[demo_hit ''a'' 1 Semantic, demo_hit ''b'' 2 Semantic]" and ?kw = "[demo_hit ''b'' 2 Keyword]"
  have k: "hkey (?sem ! 1) = (''b'', 2)" "hkey (?kw ! 0) = (''b'', 2)" by simp_all
  have "(''b'', 2) \<in> hkey ` (set ?sem \<union> set ?kw)" by (simp add: image_iff)
  then have "(''b'', 2) \<in> set (map hkey (rrf_fuse 60 ?sem ?kw))"
    unfolding rrf_fuse_keys by (simp add: add_leg_keys image_Un)
  then obtain r where r: "r \<in> set (rrf_fuse 60 ?sem ?kw)" "hkey r = (''b'', 2)" by auto
  have "sr_score s < sr_score r" if "s \<in> set (normalize_single_path 60 [demo_hit ''c'' 3 Keyword])" for s
    using agreement_dominates [of 60 1 ?sem 0 ?kw r s] k r that by simp
  with r show ?thesis by blast
qed

lemma nlargest_scores: "map (\<lambda>i. scores ! i) (nlargest k scores) = take (nat k) (rev (sort scores))"
proof -
  let ?s = "map (\<lambda>i. scores ! i) (sorted_desc (\<lambda>i. scores ! i) [0..<length scores])"
  have "mset ?s = mset (map (\<lambda>i. scores ! i) [0..<length scores])" by (simp add: sorted_desc_def)
  then have "mset (rev ?s) = mset scores" by (simp add: map_nth)
  moreover have "sorted (rev ?s)"
    using sorted_desc_ordered [of "\<lambda>i. scores ! i" "[0..<length scores]"]
    by (simp add: sorted_wrt_rev sorted_wrt_map)
  ultimately have "rev ?s = sort scores" using properties_for_sort [of "rev ?s" scores] by metis
  then have "?s = rev (sort scores)" by (metis rev_rev_ident)
  then show ?thesis by (simp add: nlargest_def flip: take_map)
qed

lemma keyword_hits_scores:
  "keyword_hits chunks scores n idxs = Inr hs \<Longrightarrow>
   map sr_score hs = filter (\<lambda>x. 0 < x) (map (\<lambda>i. scores ! i) idxs) \<and>
   map sr_keyword_rank hs = map Some (map fst (enumerate n hs))"
proof (induction chunks scores n idxs arbitrary: hs rule: keyword_hits.induct)
  case (2 chunks scores n idx idxs)
  then show ?case
    by (auto simp: Let_def SearchResult_def simp del: map_fst_enumerate split: if_splits option.splits sum.splits)
qed simp

text \<open>
  The keyword leg returns the best matches. Its scores are exactly the positive ones among
  the \<open>k\<close> largest BM25 scores of the corpus, in descending order, and its hits carry the ranks
  0, 1, 2, ... in that order.
\<close>

theorem keyword_search_top_k:
  assumes "keyword_search chunks scores k = Inr hs"
  shows "map sr_score hs = filter (\<lambda>x. 0 < x) (take (nat k) (rev (sort scores))) \<and>
    map sr_keyword_rank hs = map Some [0..<length hs]"
  using keyword_hits_scores [of chunks scores 0 "nlargest k scores" hs] assms
  by (simp add: keyword_search_def nlargest_scores)

definition demo_chunk :: bm25_chunk where
  "demo_chunk = \<lparr>bc_text = ''t'', bc_source = Some ''s'', bc_chunk_id = Some 1, bc_stem_tags = [], bc_sha256 = []\<rparr>"

theorem keyword_search_top_k_witness:
  "\<exists>hs. keyword_search [demo_chunk, demo_chunk, demo_chunk] [0, 3, 1] 2 = Inr hs \<and> map sr_score hs = [3, 1]"
proof -
  have "\<exists>hs. keyword_search [demo_chunk, demo_chunk, demo_chunk] [0, 3, 1] 2 = Inr hs"
    by (simp add: keyword_search_def nlargest_def sorted_desc_def upt_rec demo_chunk_def)
  then obtain hs where h: "keyword_search [demo_chunk, demo_chunk, demo_chunk] [0, 3, 1] 2 = Inr hs" by blast
  from keyword_search_top_k [OF h] h show ?thesis by (simp add: numeral_2_eq_2)
qed

lemma memory_hit_mode: "m \<in> set (map (memory_hit k pre) xs) \<Longrightarrow> sr_mode m = Memory"
  by (auto simp: memory_hit_def SearchResult_def)

lemma fuse_keeps_hits:
  assumes "fuse_memory_hits py_str fts query hits cfg = Some hs"
  shows "hs = hits \<or> (\<exists>k pre xs. hs = sorted_desc sr_score (hits @ map (memory_hit k pre) xs))"
  using assms by (auto simp: fuse_memory_hits_def Let_def split: option.splits if_splits)

text \<open>
  Memory facts never disturb the corpus hits. Whatever the configuration and the fact search
  do (raising included), the fused list still contains every corpus hit, in the same relative
  order if they were ordered by score, and everything else in it is marked as memory; with the
  gate closed the hits are returned unchanged and nothing is logged.
\<close>

theorem memory_fusion_conservative:
  assumes "sorted_wrt (\<lambda>a b. sr_score b \<le> sr_score a) hits" and "list_all (\<lambda>h. sr_mode h \<noteq> Memory) hits"
  shows "filter (\<lambda>h. sr_mode h \<noteq> Memory) (fst (maybe_fuse_memory py_str fts cfg query hits)) = hits \<and>
    (fusion_gate cfg = Some PNone \<longrightarrow> maybe_fuse_memory py_str fts cfg query hits = (hits, []))"
proof -
  have own: "filter (\<lambda>h. sr_mode h \<noteq> Memory) hits = hits" using assms(2) by (simp add: list_all_iff filter_id_conv)
  have sorted: "sort_key (\<lambda>h. - sr_score h) hits = hits"
    using assms(1) by (simp add: sorted_sort_id sort_key_id_if_sorted sorted_map)
  have "filter (\<lambda>h. sr_mode h \<noteq> Memory) (sorted_desc sr_score (hits @ map (memory_hit k pre) xs)) = hits" for k pre xs
  proof -
    have "filter (\<lambda>h. sr_mode h \<noteq> Memory) (map (memory_hit k pre) xs) = []"
      using memory_hit_mode [of _ k pre xs] by (simp add: filter_empty_conv)
    then show ?thesis by (simp add: sorted_desc_def filter_sort own sorted)
  qed
  then have "filter (\<lambda>h. sr_mode h \<noteq> Memory) hs = hits" if "fuse_memory_hits py_str fts query hits cfg = Some hs" for hs
    using fuse_keeps_hits [OF that] own by blast
  with own have "filter (\<lambda>h. sr_mode h \<noteq> Memory) (fst (maybe_fuse_memory py_str fts cfg query hits)) = hits"
    by (simp add: maybe_fuse_memory_def split: option.split)
  then show ?thesis by (simp add: maybe_fuse_memory_def fuse_memory_hits_def)
qed

definition demo_cfg_on :: pyval where
  "demo_cfg_on = PDict [(''memory'', PDict [(''enabled'', PBool True), (''retrieval_fusion'', PDict [(''enabled'', PBool True)]),
     (''facts'', PDict [(''retrieval_enabled'', PBool True)])])]"

theorem memory_fusion_conservative_witness:
  "filter (\<lambda>h. sr_mode h \<noteq> Memory) (fst (maybe_fuse_memory (\<lambda>v. []) (\<lambda>q n. Some [(7, ''fact'', 0)]) demo_cfg_on ''q''
     [demo_hit ''a'' 1 Hybrid])) = [demo_hit ''a'' 1 Hybrid]"
  using memory_fusion_conservative [of "[demo_hit ''a'' 1 Hybrid]"]
  by (simp add: demo_hit_def SearchResult_def)

text \<open>
  Retrieval degrades instead of failing. With a positive \<open>rrf_k\<close> a search always returns a
  list, whichever legs raise; every leg that raised leaves its audit event; and when the vector
  leg is down and memory fusion is off, every score stays within the range of the fused scores.
\<close>

theorem hybrid_search_degrades:
  assumes "0 < rt_rrf_k R"
  shows "\<exists>hs ev. hybrid_search py_str fts R raw scores query = (Inr hs, ev) \<and>
    (raw = None \<longrightarrow> RetrievalDegraded ''semantic'' \<in> set ev) \<and>
    (keyword_search (rt_chunks R) scores (rt_top_k_keyword R) = Inl KeywordError \<longrightarrow> RetrievalDegraded ''keyword'' \<in> set ev) \<and>
    (raw = None \<and> fusion_gate (rt_cfg R) = Some PNone \<longrightarrow> list_all (\<lambda>h. sr_score h \<le> 1 / of_int (rt_rrf_k R)) hs)"
proof -
  have norm: "list_all (\<lambda>h. sr_score h \<le> 1 / of_int (rt_rrf_k R)) (normalize_single_path (rt_rrf_k R) kw)" for kw
    using normalize_score contrib_le [OF assms] by (fastforce simp: list_all_iff)
  have off: "maybe_fuse_memory py_str fts (rt_cfg R) query hits = (hits, [])" if "fusion_gate (rt_cfg R) = Some PNone" for hits
    using that by (simp add: maybe_fuse_memory_def fuse_memory_hits_def)
  show ?thesis
    using rrf_no_raise [OF assms] norm off
    by (auto simp: hybrid_search_def semantic_search_def Let_def split: option.split sum.split prod.split)
qed

theorem hybrid_search_degrades_witness:
  "\<exists>hs. hybrid_search (\<lambda>v. []) (\<lambda>q n. None) \<lparr>rt_cfg = PDict [], rt_chunks = [demo_chunk], rt_top_k_keyword = 5, rt_rrf_k = 60\<rparr>
     None [27 / 10] ''q'' = (Inr hs, [RetrievalDegraded ''semantic'']) \<and> list_all (\<lambda>h. sr_score h \<le> 1 / 60) hs"
proof -
  let ?R = "\<lparr>rt_cfg = PDict [], rt_chunks = [demo_chunk], rt_top_k_keyword = 5, rt_rrf_k = 60\<rparr>"
  have gate: "fusion_gate (PDict []) = Some PNone"
    by (simp add: fusion_gate_def py_get_def or_empty_def is_literal_true_def)
  have "snd (hybrid_search (\<lambda>v. []) (\<lambda>q n. None) ?R None [27 / 10] ''q'') = [RetrievalDegraded ''semantic'']"
    by (simp add: hybrid_search_def semantic_search_def keyword_search_def nlargest_def sorted_desc_def demo_chunk_def
        rrf_no_raise maybe_fuse_memory_def fuse_memory_hits_def gate)
  with hybrid_search_degrades [of ?R "\<lambda>v. []" "\<lambda>q n. None" None "[27 / 10]" "''q''"] gate show ?thesis by auto
qed

lemma takeWhile_all: "c \<in> set (takeWhile P xs) \<Longrightarrow> P c"
  by (meson set_takeWhileD)

text \<open>
  Tokens are bounded words. Every word the tokenizer hands to the stemmer starts with a lower
  case letter, consists of word characters only and has between 2 and 256 characters, however
  long the runs of the text are.
\<close>

theorem tokens_bounded:
  "list_all (\<lambda>w. 2 \<le> length w \<and> length w \<le> MAX_TOKEN_CHARS \<and> word_start (hd w) \<and> list_all word_char w) (word_findall s)"
proof (induction s rule: word_findall.induct)
  case (2 c cs)
  let ?tail = "take 255 (takeWhile word_char cs)"
  have "list_all word_char ?tail"
    using takeWhile_all [of _ word_char cs] in_set_takeD [of _ 255 "takeWhile word_char cs"] by (auto simp: list_all_iff)
  moreover have "?tail \<noteq> [] \<Longrightarrow> 1 \<le> length ?tail" by (metis One_nat_def length_greater_0_conv Suc_leI)
  moreover have "word_start c \<Longrightarrow> word_char c" by (simp add: word_char_def)
  ultimately show ?case using 2 by (auto simp: Let_def MAX_TOKEN_CHARS_def simp del: take_eq_Nil)
qed simp

end
