(* ===== verification/Pre_Hook.thy ===== *)
theory Pre_Hook
  imports Retrieval
begin

text \<open>
  Model of \<open>utils/external_pre_hook.py\<close>: the operator's command that is asked before any call to
  an external provider. The command is an argument \<open>proc\<close>, a function from the argument vector,
  the payload on its standard input and the timeout to the way the process ended; the effects
  record each run and each verdict event projected to the Numbat stream. The payload's constant
  field \<open>action\<close> is left out.
\<close>

datatype proc_outcome =
    ProcExit int str str
  | ProcTimeout
  | ProcError str

record hook_payload =
  hp_provider :: str
  hp_model :: str
  hp_query_hash :: str

datatype hook_verdict = Allow | Deny str

datatype hook_effect =
    RunHook "str list" hook_payload int
  | EmitVerdict str str

type_synonym hook_proc = "str list \<Rightarrow> hook_payload \<Rightarrow> int \<Rightarrow> proc_outcome"

definition DEFAULT_TIMEOUT_SEC :: int where "DEFAULT_TIMEOUT_SEC = 5"
definition MIN_TIMEOUT_SEC :: int where "MIN_TIMEOUT_SEC = 1"
definition MAX_TIMEOUT_SEC :: int where "MAX_TIMEOUT_SEC = 30"

lemmas timeout_consts = DEFAULT_TIMEOUT_SEC_def MIN_TIMEOUT_SEC_def MAX_TIMEOUT_SEC_def

text \<open>\<open>None\<close> is the \<open>AttributeError\<close> of \<open>.get\<close> on a \<open>policy\<close> that is not a mapping.\<close>

definition hook_cfg :: "pyval \<Rightarrow> (str, pyval) dict option" where
  "hook_cfg cfg = (case cfg of
      PDict c \<Rightarrow>
        (case dget c ''policy'' (PDict []) of
           PDict pol \<Rightarrow>
             (case dget pol ''fallback'' (PDict []) of
                PDict fb \<Rightarrow> (case dget fb ''pre_action_hook'' (PDict []) of PDict b \<Rightarrow> Some b | _ \<Rightarrow> Some [])
              | _ \<Rightarrow> Some [])
         | _ \<Rightarrow> None)
    | _ \<Rightarrow> Some [])"

definition normalize_timeout :: "pyval \<Rightarrow> int" where
  "normalize_timeout raw = (case py_to_int raw of None \<Rightarrow> DEFAULT_TIMEOUT_SEC
     | Some value \<Rightarrow> if value < MIN_TIMEOUT_SEC then MIN_TIMEOUT_SEC
         else if MAX_TIMEOUT_SEC < value then MAX_TIMEOUT_SEC else value)"

fun str_items :: "pyval list \<Rightarrow> str list option" where
  "str_items [] = Some []"
| "str_items (PStr s # vs) = map_option (\<lambda>ss. s # ss) (str_items vs)"
| "str_items (_ # vs) = None"

definition hook_result :: "bool \<Rightarrow> int \<Rightarrow> proc_outcome \<Rightarrow> hook_verdict \<times> hook_effect list" where
  "hook_result emit timeout outcome =
     (let ev = (\<lambda>kind reason. if emit then [EmitVerdict kind reason] else []) in
      case outcome of
        ProcTimeout \<Rightarrow> (Deny (''hook timed out after '' @ int_str timeout @ ''s''), ev ''network.indicator'' ''hook_timeout'')
      | ProcError msg \<Rightarrow> (Deny (''hook execution failed: '' @ msg), ev ''network.indicator'' ''hook_error'')
      | ProcExit rc out err \<Rightarrow>
          if rc = 0 then (Allow, [])
          else if rc = 2 then
            let reason = (if py_strip err \<noteq> [] then py_strip err else ''hook returned exit code 2 (deny)'') in
            (Deny reason, ev ''permission.denied'' ''hook_denied'')
          else
            let detail = (if py_strip err \<noteq> [] then py_strip err else if py_strip out \<noteq> [] then py_strip out
                          else ''exit code '' @ int_str rc) in
            (Deny (''hook failure: '' @ detail), ev ''network.indicator'' ''hook_failure''))"

text \<open>The whole hook; \<open>None\<close> when reading the configuration raises.\<close>

definition run_pre_action_hook :: "hook_proc \<Rightarrow> str \<Rightarrow> str \<Rightarrow> str \<Rightarrow> pyval
    \<Rightarrow> (hook_verdict \<times> hook_effect list) option" where
  "run_pre_action_hook proc provider model query_hash cfg =
     (case hook_cfg cfg of None \<Rightarrow> None
      | Some block \<Rightarrow>
          if \<not> is_literal_true (dget block ''enabled'' (PBool False)) then Some (Allow, [])
          else let command = dget block ''command'' PNone in
          if \<not> py_truthy command then Some (Allow, [])
          else (case command of
             PList items \<Rightarrow>
               (case str_items items of
                  None \<Rightarrow> Some (Deny ''invalid hook command configuration'', [])
                | Some argv \<Rightarrow>
                    let timeout = normalize_timeout (dget block ''timeout_sec'' (PInt DEFAULT_TIMEOUT_SEC));
                        emit = is_literal_true (dget block ''emit_verdict'' (PBool False));
                        payload = \<lparr>hp_provider = provider, hp_model = model, hp_query_hash = query_hash\<rparr>;
                        (v, es) = hook_result emit timeout (proc argv payload timeout) in
                    Some (v, RunHook argv payload timeout # es))
           | _ \<Rightarrow> Some (Deny ''invalid hook command configuration'', [])))"

lemma timeout_range: "1 \<le> normalize_timeout raw \<and> normalize_timeout raw \<le> 30"
  by (auto simp: normalize_timeout_def timeout_consts split: option.split)

lemma hook_result_allow: "fst (hook_result emit t out) = Allow \<longleftrightarrow> (\<exists>so se. out = ProcExit 0 so se)"
  by (auto simp: hook_result_def Let_def split: proc_outcome.splits)

text \<open>
  C28: an armed hook fails closed. With the hook enabled and a command configured, the external
  call is allowed only if the command was run once, with a timeout between 1 and 30 seconds and
  the payload of this very call, and exited with code 0; a malformed command, a crash, a
  timeout and every other exit code deny.
\<close>

theorem hook_fail_closed:
  assumes "hook_cfg cfg = Some block" and "dget block ''enabled'' (PBool False) = PBool True"
    and "py_truthy (dget block ''command'' PNone)"
    and "run_pre_action_hook proc provider model qh cfg = Some (Allow, effects)"
  shows "\<exists>argv timeout out err. 1 \<le> timeout \<and> timeout \<le> 30 \<and>
    effects = [RunHook argv \<lparr>hp_provider = provider, hp_model = model, hp_query_hash = qh\<rparr> timeout] \<and>
    proc argv \<lparr>hp_provider = provider, hp_model = model, hp_query_hash = qh\<rparr> timeout = ProcExit 0 out err"
proof -
  let ?t = "normalize_timeout (dget block ''timeout_sec'' (PInt DEFAULT_TIMEOUT_SEC))"
  let ?p = "\<lparr>hp_provider = provider, hp_model = model, hp_query_hash = qh\<rparr>"
  obtain argv emit es where r: "hook_result emit ?t (proc argv ?p ?t) = (Allow, es)" and eff: "effects = RunHook argv ?p ?t # es"
    using assms by (auto simp: run_pre_action_hook_def is_literal_true_def Let_def split: pyval.splits option.splits prod.splits)
  obtain out err where ex: "proc argv ?p ?t = ProcExit 0 out err"
    using hook_result_allow [of emit ?t "proc argv ?p ?t"] r by auto
  with r have "es = []" by (simp add: hook_result_def Let_def)
  with ex eff timeout_range show ?thesis by blast
qed

definition demo_hook_cfg :: pyval where
  "demo_hook_cfg = PDict [(''policy'', PDict [(''fallback'', PDict [(''pre_action_hook'',
     PDict [(''enabled'', PBool True), (''command'', PList [PStr ''check'']), (''timeout_sec'', PInt 99)])])])]"

theorem hook_fail_closed_witness:
  "run_pre_action_hook (\<lambda>argv payload t. ProcExit 0 [] []) ''grok'' ''grok-4.5'' ''ab'' demo_hook_cfg =
     Some (Allow, [RunHook [''check''] \<lparr>hp_provider = ''grok'', hp_model = ''grok-4.5'', hp_query_hash = ''ab''\<rparr> 30]) \<and>
   (\<exists>argv timeout. timeout \<le> (30::int) \<and> [RunHook [''check''] \<lparr>hp_provider = ''grok'', hp_model = ''grok-4.5'', hp_query_hash = ''ab''\<rparr> 30]
      = [RunHook argv \<lparr>hp_provider = ''grok'', hp_model = ''grok-4.5'', hp_query_hash = ''ab''\<rparr> timeout])"
proof -
  let ?proc = "\<lambda>argv payload t. ProcExit 0 [] []"
  obtain block where b: "hook_cfg demo_hook_cfg = Some block" "dget block ''enabled'' (PBool False) = PBool True"
    "py_truthy (dget block ''command'' PNone)"
    by (simp add: hook_cfg_def demo_hook_cfg_def dget_def)
  have r: "run_pre_action_hook ?proc ''grok'' ''grok-4.5'' ''ab'' demo_hook_cfg =
     Some (Allow, [RunHook [''check''] \<lparr>hp_provider = ''grok'', hp_model = ''grok-4.5'', hp_query_hash = ''ab''\<rparr> 30])"
    by (simp add: run_pre_action_hook_def hook_cfg_def demo_hook_cfg_def dget_def is_literal_true_def Let_def
        normalize_timeout_def py_to_int_def timeout_consts hook_result_def)
  from hook_fail_closed [OF b r] r show ?thesis by blast
qed

end
