(* ===== verification/Graph.thy ===== *)
theory Graph
  imports Graph_Prompts Endpoint_Trust Pre_Hook
begin

text \<open>
  Model of \<open>graph.py\<close>: the state, the twelve nodes, the routers and the compiled graph of the
  query controller.

  \<^item> \<open>GraphState\<close> is a \<open>TypedDict\<close> with optional keys: an absent key is \<open>None\<close>. A node returns
    the keys it sets, which LangGraph merges into the state: a node is a function from the
    state to the merged state.
  \<^item> A node also has effects (calls of the generation clients, runs of the hook, audit events),
    recorded in order. \<open>None\<close> in place of the new state is an exception that escapes the node.
  \<^item> The environment holds what \<open>build_graph\<close> binds: the configuration, the retriever with its
    back ends, the clients, the guards and the personality. A client is the function its
    \<open>generate\<close> computes; a guard is a function whose \<open>None\<close> is an exception.
  \<^item> \<open>audit_log\<close> catches its own failures and is an effect.
\<close>

section \<open>State and environment\<close>

type_synonym audit_source = "str \<times> int \<times> str \<times> rat option \<times> rat option \<times> rat option"

record audit_event =
  ae_event :: str
  ae_query :: str
  ae_top_score :: rat
  ae_retrieval_mode :: str
  ae_online_escalated :: bool
  ae_model_used :: str
  ae_llm :: str
  ae_llm_model :: "str option"
  ae_hit_count :: nat
  ae_guardrail_blocked :: bool
  ae_guardrail_rails :: "str list"
  ae_guardrail_degraded :: bool
  ae_pre_action_hook_denied :: bool
  ae_sources :: "audit_source list"
  ae_error :: "str option"
  ae_username :: "str option"
  ae_served_model :: "str option"
  ae_personality_db_error :: "str option"
  ae_memory_episode_error :: "str option"

record graph_state =
  st_query :: str
  st_username :: "str option"
  st_retrieved_docs :: "search_result list option"
  st_top_score :: "rat option"
  st_retrieval_mode :: "str option"
  st_needs_user_confirm :: "bool option"
  st_user_confirmed_online :: "bool option"
  st_online_provider :: "str option"
  st_answer :: "str option"
  st_answer_model :: "str option"
  st_served_model :: "str option"
  st_answer_sources :: "search_result list option"
  st_guardrail_blocked :: "bool option"
  st_guardrail_rails :: "str list option"
  st_guardrail_degraded :: "bool option"
  st_pre_action_hook_denied :: "bool option"
  st_error :: "str option"
  st_audit_event :: "audit_event option"

datatype gen_outcome =
    GenOk str
  | GenRagError str str
  | GenRaise

record client =
  cl_generate :: "str \<Rightarrow> gen_outcome"
  cl_served :: "str \<Rightarrow> str option"
  cl_available :: bool

record guard_result =
  gr_blocked :: bool
  gr_message :: str
  gr_rails :: "str list"

record personality =
  p_soul :: str
  p_record_error :: "str option"

record graph_cfg =
  gc_raw :: pyval
  gc_max_context_tokens :: "int option"
  gc_min_score :: "rat option"
  gc_min_semantic_score :: pyval
  gc_local_url :: str
  gc_trusted_hosts :: pyval
  gc_base_url :: "str \<Rightarrow> str"
  gc_model :: "str \<Rightarrow> str"
  gc_send_context :: "str \<Rightarrow> bool"
  gc_max_prompt_chars :: "str \<Rightarrow> int option"
  gc_include_query_hash :: bool

record graph_env =
  g_cfg :: graph_cfg
  g_retriever :: retriever
  g_vector :: "str \<Rightarrow> vec_hit list option"
  g_bm25 :: "str list \<Rightarrow> rat list"
  g_porter :: "str \<Rightarrow> str"
  g_fts :: fts_search
  g_py_str :: "pyval \<Rightarrow> str"
  g_llm :: client
  g_grok :: "client option"
  g_claude :: "client option"
  g_personality :: "personality option"
  g_input_guard :: "(str \<Rightarrow> guard_result option) option"
  g_output_guard :: "(str \<Rightarrow> str \<Rightarrow> str \<Rightarrow> guard_result option) option"
  g_generate_guard :: "(str \<Rightarrow> str \<Rightarrow> str \<Rightarrow> (str \<times> str option) option) option"
  g_hook_proc :: hook_proc
  g_ip_ok :: "str \<Rightarrow> bool"
  g_sha256 :: "str \<Rightarrow> str"
  g_trust_text :: "trust_error \<Rightarrow> str"
  g_embedding_message :: str
  g_nonce :: str
  g_stage_error :: "str option"
  g_episode_cfg_message :: str

record spend_context =
  sp_route_path :: "str list"
  sp_query_hash :: "str option"

datatype effect =
    RetrievalAudit retrieval_event
  | LocalCall bool str
  | ExternalCall str bool str spend_context
  | PromptTruncated str nat nat
  | HookEffect hook_effect
  | RecordInteraction str str
  | StageEpisode
  | QueryAudit audit_event

type_synonym node_out = "graph_state option \<times> effect list"

definition hash_query :: "graph_env \<Rightarrow> str \<Rightarrow> str" where
  "hash_query env query = g_sha256 env (utf8 query)"

section \<open>Generation\<close>

definition fallback_spend_context :: "graph_env \<Rightarrow> graph_state \<Rightarrow> str \<Rightarrow> spend_context" where
  "fallback_spend_context env s provider =
     \<lparr>sp_route_path = [''retrieve'', ''route_by_score'', ''user_gate'', ''pre_action_hook_'' @ provider, provider @ ''_fallback''],
      sp_query_hash = (if gc_include_query_hash (g_cfg env) then Some (hash_query env (st_query s)) else None)\<rparr>"

text \<open>
  \<open>_generate_or_error\<close>: the calls made (\<open>mk_call guarded\<close> describes one; a guard that wraps the
  client counts as a call) and the answer with its error, \<open>None\<close> when an exception escapes.
\<close>

definition generate_or_error :: "graph_env \<Rightarrow> client \<Rightarrow> str \<Rightarrow> str \<Rightarrow> str \<Rightarrow> (bool \<Rightarrow> effect)
    \<Rightarrow> (str \<times> str option) option \<times> effect list" where
  "generate_or_error env cl prompt label query mk_call =
     (let direct = (case cl_generate cl prompt of
          GenOk a \<Rightarrow> Some (a, None)
        | GenRagError ecode msg \<Rightarrow> Some (''['' @ label @ '' Error: '' @ msg @ '']'', Some (ecode @ '': '' @ msg))
        | GenRaise \<Rightarrow> None) in
      case g_generate_guard env of
        None \<Rightarrow> (direct, [mk_call False])
      | Some guard \<Rightarrow>
          (case guard label prompt query of
             Some r \<Rightarrow> (Some r, [mk_call True])
           | None \<Rightarrow> (direct, [mk_call True, mk_call False])))"

definition with_error :: "str option \<Rightarrow> graph_state \<Rightarrow> graph_state" where
  "with_error e s = (case e of None \<Rightarrow> s | Some x \<Rightarrow> s\<lparr>st_error := Some x\<rparr>)"

section \<open>Nodes\<close>

fun mode_str :: "retrieval_mode \<Rightarrow> str" where
  "mode_str Semantic = ''semantic''"
| "mode_str Keyword = ''keyword''"
| "mode_str Hybrid = ''hybrid''"
| "mode_str Memory = ''memory''"

definition retrieve_node :: "graph_env \<Rightarrow> graph_state \<Rightarrow> node_out" where
  "retrieve_node env s =
     (let q = st_query s;
          (res, ev) = hybrid_search (g_py_str env) (g_fts env) (g_retriever env) (g_vector env q)
             (g_bm25 env (tokenize_and_stem (g_porter env) q)) q;
          effs = map RetrievalAudit ev in
      case res of
        Inr rs \<Rightarrow>
          let docs = map (\<lambda>r. r\<lparr>sr_stem_tags := take 5 (sr_stem_tags r)\<rparr>) rs in
          (Some (s\<lparr>st_retrieved_docs := Some docs,
                   st_top_score := Some (case docs of [] \<Rightarrow> 0 | d # _ \<Rightarrow> sr_score d),
                   st_retrieval_mode := Some (case docs of [] \<Rightarrow> ''none'' | d # _ \<Rightarrow> mode_str (sr_mode d))\<rparr>), effs)
      | Inl EmbeddingServiceError \<Rightarrow>
          (Some (s\<lparr>st_retrieved_docs := Some [], st_top_score := Some 0, st_retrieval_mode := Some ''none'',
                   st_error := Some (''EMBEDDING_ERROR: '' @ g_embedding_message env)\<rparr>), effs)
      | Inl _ \<Rightarrow> (None, effs))"

definition below_floor :: "pyval \<Rightarrow> rat option \<Rightarrow> bool" where
  "below_floor sem_floor sem = (case (sem_floor, sem) of
      (PInt i, Some x) \<Rightarrow> x < of_int i
    | (PFloat r, Some x) \<Rightarrow> x < r
    | _ \<Rightarrow> False)"

definition route_by_score_node :: "graph_env \<Rightarrow> graph_state \<Rightarrow> node_out" where
  "route_by_score_node env s =
     (let threshold = oget (gc_min_score (g_cfg env)) (2 / 5);
          docs = oget (st_retrieved_docs s) [] in
      (Some (s\<lparr>st_needs_user_confirm := Some (oget (st_top_score s) 0 < threshold \<or>
          (case docs of [] \<Rightarrow> False | d # _ \<Rightarrow> below_floor (gc_min_semantic_score (g_cfg env)) (sr_semantic_score d)))\<rparr>), []))"

definition guardrail_input_node :: "graph_env \<Rightarrow> graph_state \<Rightarrow> node_out" where
  "guardrail_input_node env s =
     (case g_input_guard env of None \<Rightarrow> (Some s, [])
      | Some guard \<Rightarrow>
          (case guard (st_query s) of
             None \<Rightarrow> (Some (s\<lparr>st_guardrail_degraded := Some True\<rparr>), [])
           | Some r \<Rightarrow>
               if \<not> gr_blocked r then (Some s, [])
               else (Some (s\<lparr>st_answer := Some (gr_message r), st_answer_model := Some ''guardrail-blocked'',
                             st_answer_sources := Some [], st_guardrail_blocked := Some True,
                             st_guardrail_rails := Some (gr_rails r)\<rparr>), [])))"

definition guardrail_output_node :: "graph_env \<Rightarrow> graph_state \<Rightarrow> node_out" where
  "guardrail_output_node env s =
     (case g_output_guard env of None \<Rightarrow> (Some s, [])
      | Some guard \<Rightarrow>
          if st_answer_model s \<noteq> Some ''local'' then (Some s, [])
          else let ctx = py_join (NL @ NL) (map sr_text (oget (st_answer_sources s) [])) in
          (case guard (st_query s) (oget (st_answer s) []) ctx of
             None \<Rightarrow> (Some (s\<lparr>st_guardrail_degraded := Some True\<rparr>), [])
           | Some r \<Rightarrow>
               if \<not> gr_blocked r then (Some s, [])
               else (Some (s\<lparr>st_answer := Some (gr_message r), st_answer_sources := Some [],
                             st_guardrail_blocked := Some True, st_guardrail_rails := Some (gr_rails r)\<rparr>), [])))"

definition soul_preamble :: "graph_env \<Rightarrow> str" where
  "soul_preamble env = (case g_personality env of None \<Rightarrow> [] | Some p \<Rightarrow> p_soul p @ SECTION_SEP)"

definition max_context_tokens :: "graph_env \<Rightarrow> int" where
  "max_context_tokens env = oget (gc_max_context_tokens (g_cfg env)) DEFAULT_MAX_CONTEXT_TOKENS"

text \<open>The shared end of the two local nodes: the destination check and the generation.\<close>

definition local_answer :: "graph_env \<Rightarrow> graph_state \<Rightarrow> str \<Rightarrow> str \<Rightarrow> search_result list \<Rightarrow> node_out" where
  "local_answer env s model prompt included =
     (case (if gc_local_url (g_cfg env) = [] then Inr ()
            else assert_local_destination (g_ip_ok env) (gc_local_url (g_cfg env)) (gc_trusted_hosts (g_cfg env))) of
        Inl e \<Rightarrow> (Some (s\<lparr>st_answer := Some (''[LLM Error: '' @ g_trust_text env e @ '']''), st_answer_model := Some model,
                   st_answer_sources := Some [], st_error := Some (''ENDPOINT_TRUST: '' @ g_trust_text env e)\<rparr>), [])
      | Inr _ \<Rightarrow>
          (case generate_or_error env (g_llm env) prompt ''LLM'' (st_query s) (\<lambda>g. LocalCall g prompt) of
             (None, effs) \<Rightarrow> (None, effs)
           | (Some (answer, error), effs) \<Rightarrow>
               (Some (with_error error (s\<lparr>st_answer := Some answer, st_answer_model := Some model,
                  st_answer_sources := Some included\<rparr>)), effs)))"

definition local_llm_node :: "graph_env \<Rightarrow> graph_state \<Rightarrow> node_out" where
  "local_llm_node env s =
     (let soul = soul_preamble env; q = st_query s;
          budget = context_char_budget (max_context_tokens env) soul q LOCAL_FRAMING_CHARS;
          (ctx, included) = format_context_chunks (oget (st_retrieved_docs s) []) 5 None (Some budget);
          prompt = local_prompt soul q (ctx_tag (g_nonce env)) ctx in
      local_answer env s ''local'' prompt included)"

definition user_gate_node :: "graph_env \<Rightarrow> graph_state \<Rightarrow> node_out" where
  "user_gate_node env s =
     (case st_user_confirmed_online s of
        None \<Rightarrow> (Some (s\<lparr>st_answer := Some [], st_answer_model := Some [], st_needs_user_confirm := Some True\<rparr>), [])
      | Some _ \<Rightarrow> (Some s, []))"

definition external_fallback_node :: "graph_env \<Rightarrow> client option \<Rightarrow> str \<Rightarrow> str \<Rightarrow> graph_state \<Rightarrow> node_out" where
  "external_fallback_node env cl provider label s =
     (case cl of
        None \<Rightarrow> (Some (s\<lparr>st_answer := Some (''['' @ label @ '' unavailable: offline mode or '' @ label @ '' disabled '' @ [CHR 0x97] @
                     '' no external fallback executed]''), st_answer_model := Some ''external-unavailable'',
                   st_answer_sources := Some []\<rparr>), [])
      | Some c \<Rightarrow>
          (case assert_online_destination (g_ip_ok env) provider (gc_base_url (g_cfg env) provider) (st_user_confirmed_online s) of
             Inl e \<Rightarrow> (Some (s\<lparr>st_answer := Some (''['' @ label @ '' Error: '' @ g_trust_text env e @ '']''),
                        st_answer_model := Some provider, st_answer_sources := Some [],
                        st_error := Some (''ENDPOINT_TRUST: '' @ g_trust_text env e)\<rparr>), [])
           | Inr _ \<Rightarrow>
               let (prompt, included, truncated) = external_prompt (gc_send_context (g_cfg env) provider)
                     (oget (gc_max_prompt_chars (g_cfg env) provider) 8000) (st_query s) (ctx_tag (g_nonce env))
                     (oget (st_retrieved_docs s) []);
                   effs = (case truncated of None \<Rightarrow> [] | Some n \<Rightarrow> [PromptTruncated provider n (length prompt)]) in
               (case generate_or_error env c prompt label (st_query s)
                       (\<lambda>g. ExternalCall provider g prompt (fallback_spend_context env s provider)) of
                  (None, effs') \<Rightarrow> (None, effs @ effs')
                | (Some (answer, error), effs') \<Rightarrow>
                    let out = s\<lparr>st_answer := Some answer, st_answer_model := Some provider, st_answer_sources := Some included\<rparr>;
                        out' = (case cl_served c prompt of
                            Some m \<Rightarrow> if py_strip m \<noteq> [] then out\<lparr>st_served_model := Some m\<rparr> else out
                          | None \<Rightarrow> out) in
                    (Some (with_error error out'), effs @ effs'))))"

definition grok_fallback_node :: "graph_env \<Rightarrow> graph_state \<Rightarrow> node_out" where
  "grok_fallback_node env s = external_fallback_node env (g_grok env) ''grok'' ''Grok'' s"

definition claude_fallback_node :: "graph_env \<Rightarrow> graph_state \<Rightarrow> node_out" where
  "claude_fallback_node env s = external_fallback_node env (g_claude env) ''claude'' ''Claude'' s"

definition offline_best_effort_node :: "graph_env \<Rightarrow> graph_state \<Rightarrow> node_out" where
  "offline_best_effort_node env s =
     (let soul = soul_preamble env; q = st_query s; docs = oget (st_retrieved_docs s) [];
          identity = (if g_personality env = None then ''You are a helpful assistant. '' else []);
          (prompt, included) =
            (if docs \<noteq> [] then
               let budget = context_char_budget (max_context_tokens env) soul q (OFFLINE_FRAMING_CHARS + int (length identity));
                   (ctx, inc) = format_context_chunks docs 5 None (Some budget) in
               (offline_prompt soul identity q (ctx_tag (g_nonce env)) ctx, inc)
             else (no_context_prompt soul identity q, [])) in
      local_answer env s ''offline-best-effort'' prompt included)"

section \<open>Audit\<close>

definition model_tag :: "graph_env \<Rightarrow> str \<Rightarrow> str" where
  "model_tag env sec = (if gc_model (g_cfg env) sec \<noteq> [] then gc_model (g_cfg env) sec else ''unknown'')"

definition llm_identity :: "graph_env \<Rightarrow> str \<Rightarrow> str \<times> str option" where
  "llm_identity env answer_model =
     (let local_tag = model_tag env ''local_llm'' in
      if answer_model = ''local'' then (''RAG local: '' @ local_tag, Some local_tag)
      else if answer_model = ''offline-best-effort'' then (''offline best-effort local: '' @ local_tag, Some local_tag)
      else if answer_model \<in> {''grok'', ''claude''} then
        (''escalated to online api: '' @ answer_model @ '' ('' @ model_tag env answer_model @ '')'', Some (model_tag env answer_model))
      else if answer_model = ''guardrail-blocked'' then (''none: blocked by guardrail'', None)
      else if answer_model = ''hook-denied'' then (''none: pre-action hook denied'', None)
      else if answer_model = ''external-unavailable'' then (''none: external provider unavailable'', None)
      else (''none: awaiting online confirmation'', None))"

definition fmt4 :: "rat \<Rightarrow> str" where
  "fmt4 x = (let n = round_half_even (abs x * 10000); frac = n mod 10000 in
     (if x < 0 then ''-'' else []) @ nat_str (n div 10000) @ ''.'' @
     [digit (frac div 1000), digit (frac div 100 mod 10), digit (frac div 10 mod 10), digit (frac mod 10)])"

text \<open>The gate of the episode staging; \<open>None\<close> when reading the configuration raises.\<close>

definition episodes_enabled :: "pyval \<Rightarrow> bool option" where
  "episodes_enabled cfg =
     (case py_get cfg ''memory'' of None \<Rightarrow> None
      | Some m \<Rightarrow> let mem = or_empty m in
     (case py_get mem ''enabled'' of None \<Rightarrow> None
      | Some en \<Rightarrow>
          if \<not> is_literal_true en then Some False
          else (case py_get mem ''episodes'' of None \<Rightarrow> None
             | Some e \<Rightarrow> (case py_get (or_empty e) ''enabled'' of None \<Rightarrow> None
                 | Some ee \<Rightarrow> Some (is_literal_true ee)))))"

definition audit_source_of :: "search_result \<Rightarrow> audit_source" where
  "audit_source_of d = (sr_source d, sr_chunk_id d, sr_sha256 d, sr_semantic_score d, sr_keyword_score d, sr_rrf_score d)"

definition base_event :: "graph_env \<Rightarrow> graph_state \<Rightarrow> audit_event" where
  "base_event env s =
     (let am = st_answer_model s; (llm, llm_model) = llm_identity env (oget am []) in
      \<lparr>ae_event = (if oget am [] \<noteq> [] then ''rag_query'' else ''user_gate_pause''), ae_query = st_query s,
       ae_top_score = oget (st_top_score s) 0, ae_retrieval_mode = oget (st_retrieval_mode s) ''none'',
       ae_online_escalated = (am \<in> {Some ''grok'', Some ''claude''}), ae_model_used = oget am ''unknown'',
       ae_llm = llm, ae_llm_model = llm_model, ae_hit_count = length (oget (st_retrieved_docs s) []),
       ae_guardrail_blocked = oget (st_guardrail_blocked s) False, ae_guardrail_rails = oget (st_guardrail_rails s) [],
       ae_guardrail_degraded = oget (st_guardrail_degraded s) False,
       ae_pre_action_hook_denied = oget (st_pre_action_hook_denied s) False,
       ae_sources = map audit_source_of (take 5 (oget (st_answer_sources s) [])), ae_error = st_error s,
       ae_username = (case st_username s of Some u \<Rightarrow> if u \<noteq> [] then Some u else None | None \<Rightarrow> None),
       ae_served_model = (case st_served_model s of Some m \<Rightarrow> if m \<noteq> [] then Some m else None | None \<Rightarrow> None),
       ae_personality_db_error = None, ae_memory_episode_error = None\<rparr>)"

definition audit_logger_node :: "graph_env \<Rightarrow> graph_state \<Rightarrow> node_out" where
  "audit_logger_node env s =
     (let answered = (oget (st_answer_model s) [] \<noteq> []); ev0 = base_event env s;
          (ev1, e1) = (case g_personality env of
             Some p \<Rightarrow>
               if answered then
                 let outcome = oget (st_answer_model s) ''unknown'' @ ''|score='' @ fmt4 (oget (st_top_score s) 0) @ ''|hits='' @
                       nat_str (length (oget (st_retrieved_docs s) [])) in
                 (ev0\<lparr>ae_personality_db_error := p_record_error p\<rparr>, [RecordInteraction (hash_query env (st_query s)) outcome])
               else (ev0, [])
           | None \<Rightarrow> (ev0, []));
          (ev2, e2) = (case episodes_enabled (gc_raw (g_cfg env)) of
             None \<Rightarrow> (ev1\<lparr>ae_memory_episode_error := Some (g_episode_cfg_message env)\<rparr>, [])
           | Some b \<Rightarrow> if b \<and> answered then (ev1\<lparr>ae_memory_episode_error := g_stage_error env\<rparr>, [StageEpisode]) else (ev1, [])) in
      (Some (s\<lparr>st_audit_event := Some ev2\<rparr>), e1 @ e2 @ [QueryAudit ev2]))"

section \<open>The pre-action hook\<close>

definition pre_action_hook_node :: "graph_env \<Rightarrow> str \<Rightarrow> graph_state \<Rightarrow> node_out" where
  "pre_action_hook_node env provider s =
     (let model = (case snd (llm_identity env provider) of Some m \<Rightarrow> if m \<noteq> [] then m else ''unknown'' | None \<Rightarrow> ''unknown'') in
      case run_pre_action_hook (g_hook_proc env) provider model (hash_query env (st_query s)) (gc_raw (g_cfg env)) of
        None \<Rightarrow> (None, [])
      | Some (Allow, he) \<Rightarrow> (Some (s\<lparr>st_pre_action_hook_denied := Some False\<rparr>), map HookEffect he)
      | Some (Deny r, he) \<Rightarrow>
          let reason = (if r \<noteq> [] then r else ''pre-action hook denied external provider call'') in
          (Some (s\<lparr>st_answer := Some (''[External call denied by pre-action hook: '' @ provider @ '']''),
                   st_answer_model := Some ''hook-denied'', st_answer_sources := Some [], st_error := Some reason,
                   st_pre_action_hook_denied := Some True\<rparr>), map HookEffect he))"

section \<open>Routers and graph\<close>

datatype node =
    Retrieve | RouteByScore | GuardrailInput | GuardrailOutput | LocalLlm | UserGate
  | HookGrok | HookClaude | GrokFallback | ClaudeFallback | OfflineBestEffort | AuditLogger | End

definition score_router :: "graph_state \<Rightarrow> node" where
  "score_router s = (if oget (st_needs_user_confirm s) False then UserGate else LocalLlm)"

definition guardrail_router :: "graph_state \<Rightarrow> node" where
  "guardrail_router s =
     (if oget (st_guardrail_blocked s) False then AuditLogger
      else if oget (st_needs_user_confirm s) False then OfflineBestEffort else LocalLlm)"

text \<open>\<open>state.get("online_provider") or "grok"\<close>\<close>

definition selected_provider :: "graph_state \<Rightarrow> str" where
  "selected_provider s = (case st_online_provider s of Some p \<Rightarrow> if p \<noteq> [] then p else ''grok'' | None \<Rightarrow> ''grok'')"

definition pre_action_hook_router :: "graph_state \<Rightarrow> node" where
  "pre_action_hook_router s =
     (if oget (st_pre_action_hook_denied s) False then AuditLogger
      else if selected_provider s = ''grok'' then GrokFallback else ClaudeFallback)"

definition usable :: "client option \<Rightarrow> bool" where
  "usable cl = (case cl of None \<Rightarrow> False | Some c \<Rightarrow> cl_available c)"

definition user_gate_router :: "graph_env \<Rightarrow> graph_state \<Rightarrow> node" where
  "user_gate_router env s =
     (case st_user_confirmed_online s of
        None \<Rightarrow> AuditLogger
      | Some False \<Rightarrow> OfflineBestEffort
      | Some True \<Rightarrow>
          if selected_provider s = ''claude'' \<and> usable (g_claude env) then HookClaude
          else if selected_provider s = ''grok'' \<and> usable (g_grok env) then HookGrok
          else OfflineBestEffort)"

fun exec_node :: "graph_env \<Rightarrow> node \<Rightarrow> graph_state \<Rightarrow> node_out" where
  "exec_node env Retrieve s = retrieve_node env s"
| "exec_node env RouteByScore s = route_by_score_node env s"
| "exec_node env GuardrailInput s = guardrail_input_node env s"
| "exec_node env GuardrailOutput s = guardrail_output_node env s"
| "exec_node env LocalLlm s = local_llm_node env s"
| "exec_node env UserGate s = user_gate_node env s"
| "exec_node env HookGrok s = pre_action_hook_node env ''grok'' s"
| "exec_node env HookClaude s = pre_action_hook_node env ''claude'' s"
| "exec_node env GrokFallback s = grok_fallback_node env s"
| "exec_node env ClaudeFallback s = claude_fallback_node env s"
| "exec_node env OfflineBestEffort s = offline_best_effort_node env s"
| "exec_node env AuditLogger s = audit_logger_node env s"
| "exec_node env End s = (Some s, [])"

text \<open>
  The edges. A conditional edge looks the router's label up in its map; \<open>None\<close> is a label the
  map does not have.
\<close>

fun next_node :: "graph_env \<Rightarrow> node \<Rightarrow> graph_state \<Rightarrow> node option" where
  "next_node env Retrieve s = Some RouteByScore"
| "next_node env RouteByScore s = map_of [(LocalLlm, GuardrailInput), (UserGate, UserGate)] (score_router s)"
| "next_node env GuardrailInput s =
     map_of [(LocalLlm, LocalLlm), (OfflineBestEffort, OfflineBestEffort), (AuditLogger, AuditLogger)] (guardrail_router s)"
| "next_node env LocalLlm s = Some GuardrailOutput"
| "next_node env UserGate s =
     map_of [(HookGrok, HookGrok), (HookClaude, HookClaude), (OfflineBestEffort, GuardrailInput), (AuditLogger, AuditLogger)]
       (user_gate_router env s)"
| "next_node env HookGrok s = map_of [(GrokFallback, GrokFallback), (AuditLogger, AuditLogger)] (pre_action_hook_router s)"
| "next_node env HookClaude s = map_of [(ClaudeFallback, ClaudeFallback), (AuditLogger, AuditLogger)] (pre_action_hook_router s)"
| "next_node env GrokFallback s = Some GuardrailOutput"
| "next_node env ClaudeFallback s = Some GuardrailOutput"
| "next_node env OfflineBestEffort s = Some GuardrailOutput"
| "next_node env GuardrailOutput s = Some AuditLogger"
| "next_node env AuditLogger s = Some End"
| "next_node env End s = None"

datatype run_result = Done graph_state | Raised node | BadRoute node

text \<open>Every edge goes down in this order, so a run of the graph ends.\<close>

fun node_rank :: "node \<Rightarrow> nat" where
  "node_rank Retrieve = 8"
| "node_rank RouteByScore = 7"
| "node_rank UserGate = 6"
| "node_rank HookGrok = 5"
| "node_rank HookClaude = 5"
| "node_rank GuardrailInput = 5"
| "node_rank LocalLlm = 4"
| "node_rank GrokFallback = 4"
| "node_rank ClaudeFallback = 4"
| "node_rank OfflineBestEffort = 4"
| "node_rank GuardrailOutput = 3"
| "node_rank AuditLogger = 2"
| "node_rank End = 0"

lemma next_node_rank: "next_node env n s = Some m \<Longrightarrow> node_rank m < node_rank n"
  by (cases n) (auto split: if_splits)

function run_from :: "graph_env \<Rightarrow> node \<Rightarrow> graph_state \<Rightarrow> run_result \<times> effect list" where
  "run_from env n s =
     (if n = End then (Done s, [])
      else case exec_node env n s of
        (None, effs) \<Rightarrow> (Raised n, effs)
      | (Some s', effs) \<Rightarrow>
          (case next_node env n s' of
             None \<Rightarrow> (BadRoute n, effs)
           | Some m \<Rightarrow> (case run_from env m s' of (r, effs') \<Rightarrow> (r, effs @ effs'))))"
  by auto

termination
  by (relation "measure (\<lambda>(env, n, s). node_rank n)") (auto intro: next_node_rank)

declare run_from.simps [simp del]

text \<open>\<open>graph.invoke(state)\<close>\<close>

definition invoke :: "graph_env \<Rightarrow> graph_state \<Rightarrow> run_result \<times> effect list" where
  "invoke env s = run_from env Retrieve s"

end
