(* ===== verification/Graph_Claims.thy ===== *)
theory Graph_Claims
  imports Graph
begin

text \<open>
  What every run of the query graph guarantees: the gates in front of an external call, the audit
  at the end of every path, the input rail, and that the personality stays on the machine. An
  invariant of the runs is stated once as a locale and interpreted for each of them.
\<close>

section \<open>Invariants of runs\<close>

lemma run_from_End [simp]: "run_from env End s = (Done s, [])"
  by (simp add: run_from.simps)

locale graph_invariant =
  fixes env :: graph_env and inv :: "node \<Rightarrow> graph_state \<Rightarrow> effect list \<Rightarrow> bool"
  assumes inv_step: "inv n s es \<Longrightarrow> n \<noteq> End \<Longrightarrow> exec_node env n s = (Some s', e) \<Longrightarrow>
    next_node env n s' = Some m \<Longrightarrow> inv m s' (es @ e)"
begin

lemma run_inv:
  assumes "inv n s es" and "run_from env n s = (r, e)"
  shows "case r of Done s' \<Rightarrow> inv End s' (es @ e)
    | Raised m \<Rightarrow> \<exists>s' e1 e2. inv m s' (es @ e1) \<and> exec_node env m s' = (None, e2) \<and> e = e1 @ e2
    | BadRoute m \<Rightarrow> \<exists>s' s'' e1 e2. inv m s' (es @ e1) \<and> m \<noteq> End \<and> exec_node env m s' = (Some s'', e2) \<and>
        next_node env m s'' = None \<and> e = e1 @ e2"
  using assms
proof (induction "node_rank n" arbitrary: n s es r e rule: less_induct)
  case less
  obtain out effs where ex: "exec_node env n s = (out, effs)" by force
  consider "n = End" | "n \<noteq> End" "out = None" | s' where "n \<noteq> End" "out = Some s'" "next_node env n s' = None"
    | s' m where "n \<noteq> End" "out = Some s'" "next_node env n s' = Some m"
    by (metis option.exhaust)
  then show ?case
  proof cases
    case 1
    with less.prems show ?thesis by auto
  next
    case 2
    with less.prems ex have "r = Raised n" "e = effs" by (auto simp: run_from.simps [of env n s])
    with less.prems(1) ex 2 show ?thesis by simp (metis append.left_neutral append.right_neutral)
  next
    case (3 s')
    with less.prems ex have "r = BadRoute n" "e = effs" by (auto simp: run_from.simps [of env n s])
    with less.prems(1) ex 3 show ?thesis by simp (metis append.left_neutral append.right_neutral)
  next
    case (4 s' m)
    obtain e' where rest: "run_from env m s' = (r, e')" and e: "e = effs @ e'"
      using less.prems(2) ex 4 by (auto simp: run_from.simps [of env n s] split: prod.splits)
    have inv': "inv m s' (es @ effs)" using inv_step less.prems(1) 4 ex by blast
    have app: "(es @ effs) @ e1 = es @ (effs @ e1)" for e1 by simp
    from less.hyps [OF next_node_rank [OF 4(3)] inv' rest] show ?thesis
      unfolding e app by (cases r) (simp, (simp, metis append_assoc)+)
  qed
qed

text \<open>What holds of the effects in every invariant state and across the next node holds of a whole run.\<close>

lemma run_effects_inv:
  assumes "inv n s []" and now: "\<And>n s es. inv n s es \<Longrightarrow> P es"
    and node: "\<And>n s es out e. inv n s es \<Longrightarrow> exec_node env n s = (out, e) \<Longrightarrow> P (es @ e)"
  shows "P (snd (run_from env n s))"
proof -
  obtain r e where run: "run_from env n s = (r, e)" by force
  have "P e"
  proof (cases r)
    case (Done s')
    then show ?thesis using run_inv [OF assms(1) run] now by fastforce
  next
    case (Raised m)
    then show ?thesis using run_inv [OF assms(1) run] node by fastforce
  next
    case (BadRoute m)
    then show ?thesis using run_inv [OF assms(1) run] node by fastforce
  qed
  then show ?thesis by (simp add: run)
qed

end

section \<open>What a node leaves alone and what it emits\<close>

definition same_request :: "graph_state \<Rightarrow> graph_state \<Rightarrow> bool" where
  "same_request s0 s = (st_query s = st_query s0 \<and> st_user_confirmed_online s = st_user_confirmed_online s0 \<and>
     st_online_provider s = st_online_provider s0 \<and> st_username s = st_username s0)"

lemma same_request_refl [simp]: "same_request s s"
  by (simp add: same_request_def)

lemma same_request_trans: "same_request a b \<Longrightarrow> same_request b c \<Longrightarrow> same_request a c"
  by (simp add: same_request_def)

lemma with_error_request [simp]: "same_request s0 (with_error e s) = same_request s0 s"
  by (cases e) (simp_all add: with_error_def same_request_def)

lemma local_answer_frame: "local_answer env s model prompt inc = (Some s', e) \<Longrightarrow> same_request s s'"
  by (auto simp: local_answer_def split: sum.splits option.splits prod.splits if_splits)
     (auto simp: same_request_def)

lemma external_frame: "external_fallback_node env cl pv label s = (Some s', e) \<Longrightarrow> same_request s s'"
  by (auto simp: external_fallback_node_def Let_def split: sum.splits option.splits prod.splits if_splits)
     (auto simp: same_request_def)

lemma exec_frame:
  assumes "exec_node env n s = (Some s', e)"
  shows "same_request s s'"
proof (cases n)
  case Retrieve
  with assms show ?thesis
    by (auto simp: retrieve_node_def Let_def same_request_def split: sum.splits prod.splits search_error.splits)
next
  case LocalLlm
  with assms show ?thesis by (auto simp: local_llm_node_def Let_def split: prod.splits intro: local_answer_frame)
next
  case OfflineBestEffort
  with assms show ?thesis
    by (auto simp: offline_best_effort_node_def Let_def split: prod.splits if_splits intro: local_answer_frame)
next
  case AuditLogger
  with assms show ?thesis by (auto simp: audit_logger_node_def Let_def same_request_def split: prod.splits)
next
  case HookGrok
  with assms show ?thesis
    by (auto simp: pre_action_hook_node_def Let_def same_request_def split: option.splits prod.splits hook_verdict.splits)
next
  case HookClaude
  with assms show ?thesis
    by (auto simp: pre_action_hook_node_def Let_def same_request_def split: option.splits prod.splits hook_verdict.splits)
next
  case GuardrailInput
  with assms show ?thesis
    by (auto simp: guardrail_input_node_def same_request_def split: option.splits if_splits)
next
  case GuardrailOutput
  with assms show ?thesis
    by (auto simp: guardrail_output_node_def Let_def same_request_def split: option.splits if_splits)
qed (use assms in \<open>auto simp: route_by_score_node_def user_gate_node_def grok_fallback_node_def claude_fallback_node_def
       same_request_def Let_def split: option.splits dest: external_frame [unfolded same_request_def]\<close>)

lemma generate_effects:
  "x \<in> set (snd (generate_or_error env cl prompt label query mk)) \<Longrightarrow> \<exists>g. x = mk g"
  by (auto simp: generate_or_error_def Let_def split: option.splits)

lemma local_answer_effects:
  assumes "x \<in> set (snd (local_answer env s model prompt inc))"
  shows "\<exists>g. x = LocalCall g prompt"
proof -
  have "x \<in> set (snd (generate_or_error env (g_llm env) prompt ''LLM'' (st_query s) (\<lambda>g. LocalCall g prompt)))"
    using assms by (auto simp: local_answer_def split: sum.splits option.splits prod.splits if_splits)
  then show ?thesis by (rule generate_effects)
qed

text \<open>The prompt an external node would send in a state.\<close>

definition provider_prompt :: "graph_env \<Rightarrow> str \<Rightarrow> graph_state \<Rightarrow> str" where
  "provider_prompt env pv s = fst (external_prompt (gc_send_context (g_cfg env) pv)
     (oget (gc_max_prompt_chars (g_cfg env) pv) 8000) (st_query s) (ctx_tag (g_nonce env)) (oget (st_retrieved_docs s) []))"

definition destination_ok :: "graph_env \<Rightarrow> str \<Rightarrow> graph_state \<Rightarrow> bool" where
  "destination_ok env pv s =
     (assert_online_destination (g_ip_ok env) pv (gc_base_url (g_cfg env) pv) (st_user_confirmed_online s) = Inr ())"

lemma external_effects:
  assumes "x \<in> set (snd (external_fallback_node env cl pv label s))"
  shows "(\<exists>n m. x = PromptTruncated pv n m) \<or>
    (\<exists>g. x = ExternalCall pv g (provider_prompt env pv s) (fallback_spend_context env s pv) \<and> cl \<noteq> None \<and> destination_ok env pv s)"
proof -
  obtain c where c: "cl = Some c" and ok: "destination_ok env pv s"
    using assms by (auto simp: external_fallback_node_def destination_ok_def split: option.splits sum.splits)
  let ?call = "\<lambda>g. ExternalCall pv g (provider_prompt env pv s) (fallback_spend_context env s pv)"
  have "(\<exists>n m. x = PromptTruncated pv n m) \<or>
      x \<in> set (snd (generate_or_error env c (provider_prompt env pv s) label (st_query s) ?call))"
    using assms ok by (auto simp: c external_fallback_node_def destination_ok_def provider_prompt_def Let_def
        split: option.splits prod.splits)
  with c ok generate_effects [of x env c _ label _ ?call] show ?thesis by blast
qed

lemma audit_effects:
  "\<exists>pre ev. audit_logger_node env s = (Some (s\<lparr>st_audit_event := Some ev\<rparr>), pre @ [QueryAudit ev]) \<and>
     (\<forall>x \<in> set pre. x = StageEpisode \<or> (\<exists>h z. x = RecordInteraction h z)) \<and>
     base_event env s = ev\<lparr>ae_personality_db_error := None, ae_memory_episode_error := None\<rparr>"
proof -
  have b: "base_event env s = (base_event env s)\<lparr>ae_personality_db_error := None, ae_memory_episode_error := None\<rparr>"
    by (simp add: base_event_def Let_def split: prod.split)
  have "\<exists>pre. audit_logger_node env s = (Some (s\<lparr>st_audit_event := Some ev\<rparr>), pre @ [QueryAudit ev]) \<and>
     (\<forall>x \<in> set pre. x = StageEpisode \<or> (\<exists>h z. x = RecordInteraction h z)) \<and>
     base_event env s = ev\<lparr>ae_personality_db_error := None, ae_memory_episode_error := None\<rparr>"
    if "ev = the (st_audit_event (the (fst (audit_logger_node env s))))" for ev
    using that by (auto simp: audit_logger_node_def Let_def b [symmetric] split: option.splits prod.splits if_splits)
  then show ?thesis by blast
qed

lemma exec_effect_kind:
  assumes "x \<in> set (snd (exec_node env n s))"
  shows "case n of
      Retrieve \<Rightarrow> \<exists>ev. x = RetrievalAudit ev
    | LocalLlm \<Rightarrow> \<exists>g p. x = LocalCall g p
    | OfflineBestEffort \<Rightarrow> \<exists>g p. x = LocalCall g p
    | HookGrok \<Rightarrow> \<exists>h. x = HookEffect h
    | HookClaude \<Rightarrow> \<exists>h. x = HookEffect h
    | GrokFallback \<Rightarrow> (\<exists>k m. x = PromptTruncated ''grok'' k m) \<or>
        (\<exists>g sp. x = ExternalCall ''grok'' g (provider_prompt env ''grok'' s) sp \<and> destination_ok env ''grok'' s)
    | ClaudeFallback \<Rightarrow> (\<exists>k m. x = PromptTruncated ''claude'' k m) \<or>
        (\<exists>g sp. x = ExternalCall ''claude'' g (provider_prompt env ''claude'' s) sp \<and> destination_ok env ''claude'' s)
    | AuditLogger \<Rightarrow> x = StageEpisode \<or> (\<exists>h z. x = RecordInteraction h z) \<or> (\<exists>ev. x = QueryAudit ev)
    | _ \<Rightarrow> False"
proof (cases n)
  case Retrieve
  with assms show ?thesis
    by (auto simp: retrieve_node_def Let_def split: sum.splits prod.splits search_error.splits)
next
  case LocalLlm
  with assms show ?thesis
    by (auto simp: local_llm_node_def Let_def split: prod.splits dest!: local_answer_effects)
next
  case OfflineBestEffort
  with assms show ?thesis
    by (auto simp: offline_best_effort_node_def Let_def split: prod.splits if_splits dest!: local_answer_effects)
next
  case GrokFallback
  with assms show ?thesis using external_effects [of x env "g_grok env" "''grok''" "''Grok''" s]
    by (auto simp: grok_fallback_node_def)
next
  case ClaudeFallback
  with assms show ?thesis using external_effects [of x env "g_claude env" "''claude''" "''Claude''" s]
    by (auto simp: claude_fallback_node_def)
next
  case AuditLogger
  with assms show ?thesis using audit_effects [of env s] by auto
qed (use assms in \<open>auto simp: pre_action_hook_node_def route_by_score_node_def guardrail_input_node_def user_gate_node_def
       guardrail_output_node_def Let_def split: option.splits prod.splits hook_verdict.splits if_splits\<close>)


lemma exec_no_local:
  "n \<notin> {LocalLlm, OfflineBestEffort} \<Longrightarrow> LocalCall g p \<notin> set (snd (exec_node env n s))"
  by (rule notI) (drule exec_effect_kind, auto split: node.splits)

lemma exec_external:
  "ExternalCall pv g pr sp \<in> set (snd (exec_node env n s)) \<Longrightarrow>
   (n = GrokFallback \<and> pv = ''grok'' \<or> n = ClaudeFallback \<and> pv = ''claude'') \<and> destination_ok env pv s \<and>
   pr = provider_prompt env pv s"
  by (drule exec_effect_kind) (auto split: node.splits)

section \<open>The gates in front of an external call\<close>

definition provider_client :: "graph_env \<Rightarrow> str \<Rightarrow> client option" where
  "provider_client env pv = (if pv = ''grok'' then g_grok env else if pv = ''claude'' then g_claude env else None)"

definition hook_allows :: "graph_env \<Rightarrow> str \<Rightarrow> graph_state \<Rightarrow> bool" where
  "hook_allows env pv s = (\<exists>effs. run_pre_action_hook (g_hook_proc env) pv (model_tag env pv)
     (hash_query env (st_query s)) (gc_raw (g_cfg env)) = Some (Allow, effs))"

text \<open>Confirmed by the user for the provider the request selected, whose client is usable.\<close>

definition requested :: "graph_env \<Rightarrow> str \<Rightarrow> graph_state \<Rightarrow> bool" where
  "requested env pv s = (st_user_confirmed_online s = Some True \<and> selected_provider s = pv \<and> usable (provider_client env pv))"

fun fallback_of :: "node \<Rightarrow> str option" where
  "fallback_of GrokFallback = Some ''grok''"
| "fallback_of ClaudeFallback = Some ''claude''"
| "fallback_of _ = None"

fun hook_of :: "node \<Rightarrow> str option" where
  "hook_of HookGrok = Some ''grok''"
| "hook_of HookClaude = Some ''claude''"
| "hook_of _ = None"

definition gate_inv :: "graph_env \<Rightarrow> graph_state \<Rightarrow> node \<Rightarrow> graph_state \<Rightarrow> effect list \<Rightarrow> bool" where
  "gate_inv env s0 n s es = (same_request s0 s \<and>
     (\<forall>pv. hook_of n = Some pv \<longrightarrow> requested env pv s0) \<and>
     (\<forall>pv. fallback_of n = Some pv \<longrightarrow> requested env pv s0 \<and> hook_allows env pv s0) \<and>
     (\<forall>pv g pr sp. ExternalCall pv g pr sp \<in> set es \<longrightarrow> requested env pv s0 \<and> hook_allows env pv s0 \<and> destination_ok env pv s0))"

lemma request_transfer:
  assumes "same_request s0 s"
  shows "requested env pv s = requested env pv s0" "hook_allows env pv s = hook_allows env pv s0"
    "destination_ok env pv s = destination_ok env pv s0" "selected_provider s = selected_provider s0"
  using assms by (simp_all add: same_request_def requested_def hook_allows_def destination_ok_def selected_provider_def)

lemma hook_node_allows:
  assumes "pre_action_hook_node env pv s = (Some s', e)" and "pv \<in> {''grok'', ''claude''}"
    and "\<not> oget (st_pre_action_hook_denied s') False"
  shows "hook_allows env pv s"
proof -
  have "snd (llm_identity env pv) = Some (model_tag env pv)" "model_tag env pv \<noteq> []"
    using assms(2) by (auto simp: llm_identity_def model_tag_def Let_def)
  with assms(1,3) show ?thesis
    by (auto simp: pre_action_hook_node_def hook_allows_def oget_def Let_def split: option.splits prod.splits hook_verdict.splits)
qed

lemma hook_edge:
  assumes "next_node env n s = Some m" and "hook_of m = Some pv"
  shows "requested env pv s"
  using assms by (cases n)
    (auto simp: score_router_def guardrail_router_def user_gate_router_def pre_action_hook_router_def requested_def
       provider_client_def split: if_splits option.splits bool.splits)

lemma fallback_edge:
  assumes "next_node env n s = Some m" and "fallback_of m = Some pv"
  shows "hook_of n = Some pv \<and> \<not> oget (st_pre_action_hook_denied s) False"
  using assms by (cases n)
    (auto simp: score_router_def guardrail_router_def user_gate_router_def pre_action_hook_router_def
       split: if_splits option.splits bool.splits)

lemma exec_hook: "hook_of n = Some pv \<Longrightarrow> exec_node env n s = pre_action_hook_node env pv s \<and> pv \<in> {''grok'', ''claude''}"
  by (cases n) auto

lemma fallback_of_external: "n = GrokFallback \<and> pv = ''grok'' \<or> n = ClaudeFallback \<and> pv = ''claude'' \<Longrightarrow> fallback_of n = Some pv"
  by auto

lemma gate_call:
  assumes "gate_inv env s0 n s es" and "ExternalCall pv g pr sp \<in> set (snd (exec_node env n s))"
  shows "requested env pv s0 \<and> hook_allows env pv s0 \<and> destination_ok env pv s0"
proof -
  have "fallback_of n = Some pv" "destination_ok env pv s"
    using exec_external [OF assms(2)] fallback_of_external by blast+
  then show ?thesis using assms(1) request_transfer(3) by (auto simp: gate_inv_def)
qed

lemma gate_past:
  "gate_inv env s0 n s es \<Longrightarrow> ExternalCall pv g pr sp \<in> set es \<Longrightarrow>
   requested env pv s0 \<and> hook_allows env pv s0 \<and> destination_ok env pv s0"
  unfolding gate_inv_def by blast

lemma gate_both:
  assumes "gate_inv env s0 n s e1" and "exec_node env n s = (out, e2)" and "ExternalCall pv g pr sp \<in> set (e1 @ e2)"
  shows "requested env pv s0 \<and> hook_allows env pv s0 \<and> destination_ok env pv s0"
  using assms gate_past [OF assms(1), of pv g pr sp] gate_call [OF assms(1), of pv g pr sp] by auto

interpretation gate: graph_invariant env "gate_inv env s0" for env s0
proof
  fix n s es s' e m
  assume inv: "gate_inv env s0 n s es" and ex: "exec_node env n s = (Some s', e)" and nx: "next_node env n s' = Some m"
  have fr: "same_request s0 s'" using inv exec_frame [OF ex] same_request_trans by (auto simp: gate_inv_def)
  have fr0: "same_request s0 s" using inv by (simp add: gate_inv_def)
  have hook: "requested env pv s0" if "hook_of m = Some pv" for pv
    using hook_edge [OF nx that] request_transfer(1) [OF fr] by simp
  have fall: "requested env pv s0 \<and> hook_allows env pv s0" if "fallback_of m = Some pv" for pv
  proof -
    have h: "hook_of n = Some pv" "\<not> oget (st_pre_action_hook_denied s') False" using fallback_edge [OF nx that] by auto
    have "pre_action_hook_node env pv s = (Some s', e)" "pv \<in> {''grok'', ''claude''}"
      using exec_hook [OF h(1), of env s] ex by auto
    then have "hook_allows env pv s" using h(2) by (rule hook_node_allows)
    then show ?thesis using inv h(1) request_transfer(2) [OF fr0] by (auto simp: gate_inv_def)
  qed
  have call: "requested env pv s0 \<and> hook_allows env pv s0 \<and> destination_ok env pv s0"
    if "ExternalCall pv g pr sp \<in> set (es @ e)" for pv g pr sp
    by (rule gate_both [OF inv ex that])
  show "gate_inv env s0 m s' (es @ e)" unfolding gate_inv_def using fr hook fall call by blast
qed

lemma gate_init: "gate_inv env s0 Retrieve s0 []"
  by (simp add: gate_inv_def)

lemma external_call_facts:
  assumes "ExternalCall pv guarded prompt spend \<in> set (snd (invoke env s0))"
  shows "st_user_confirmed_online s0 = Some True \<and> selected_provider s0 = pv \<and> pv \<in> {''grok'', ''claude''} \<and>
    usable (provider_client env pv) \<and> hook_allows env pv s0 \<and>
    assert_online_destination (g_ip_ok env) pv (gc_base_url (g_cfg env) pv) (Some True) = Inr ()"
proof -
  have "requested env pv s0 \<and> hook_allows env pv s0 \<and> destination_ok env pv s0"
  proof -
    have "ExternalCall pv guarded prompt spend \<in> set (snd (run_from env Retrieve s0)) \<longrightarrow>
        requested env pv s0 \<and> hook_allows env pv s0 \<and> destination_ok env pv s0"
      by (rule gate.run_effects_inv [OF gate_init]) (use gate_past gate_both in blast)+
    then show ?thesis using assms by (simp add: invoke_def)
  qed
  then show ?thesis
    by (auto simp: requested_def destination_ok_def usable_def provider_client_def split: if_splits)
qed

text \<open>
  C3: no external call without every gate. Whatever state a query starts in, whatever the
  retrieval, the guards and the configuration do, and even if the run ends in an exception, a
  prompt reaches an external provider only if the user confirmed this request online, the
  provider is the one the request selected, its client exists and is available, the pre-action
  hook allowed exactly this call, and the destination host is allowlisted for the provider.
\<close>

theorem external_call_gated:
  assumes "ExternalCall pv guarded prompt spend \<in> set (snd (invoke env s0))"
  shows "st_user_confirmed_online s0 = Some True \<and> selected_provider s0 = pv \<and> pv \<in> {''grok'', ''claude''} \<and>
    usable (provider_client env pv) \<and> hook_allows env pv s0 \<and>
    assert_online_destination (g_ip_ok env) pv (gc_base_url (g_cfg env) pv) (Some True) = Inr ()"
  using external_call_facts [OF assms] .

section \<open>A concrete environment\<close>

definition demo_client :: client where
  "demo_client = \<lparr>cl_generate = (\<lambda>prompt. GenOk ''answer''), cl_served = (\<lambda>prompt. None), cl_available = True\<rparr>"

definition demo_graph_cfg :: graph_cfg where
  "demo_graph_cfg = \<lparr>gc_raw = PDict [], gc_max_context_tokens = None, gc_min_score = None, gc_min_semantic_score = PNone,
     gc_local_url = [], gc_trusted_hosts = PList [], gc_base_url = (\<lambda>_. []), gc_model = (\<lambda>_. ''m''),
     gc_send_context = (\<lambda>_. False), gc_max_prompt_chars = (\<lambda>_. None), gc_include_query_hash = True\<rparr>"

definition demo_env :: graph_env where
  "demo_env = \<lparr>g_cfg = demo_graph_cfg,
     g_retriever = \<lparr>rt_cfg = PDict [], rt_chunks = [], rt_top_k_keyword = 5, rt_rrf_k = 60\<rparr>,
     g_vector = (\<lambda>_. Some []), g_bm25 = (\<lambda>_. []), g_porter = (\<lambda>w. w), g_fts = (\<lambda>_ _. Some []), g_py_str = (\<lambda>_. []),
     g_llm = demo_client, g_grok = Some demo_client, g_claude = None, g_personality = None,
     g_input_guard = Some (\<lambda>q. Some \<lparr>gr_blocked = True, gr_message = ''no'', gr_rails = []\<rparr>), g_output_guard = None,
     g_generate_guard = None, g_hook_proc = (\<lambda>_ _ _. ProcTimeout), g_ip_ok = (\<lambda>_. False), g_sha256 = (\<lambda>x. x),
     g_trust_text = (\<lambda>_. []), g_embedding_message = [], g_nonce = ''00000000'', g_stage_error = None, g_episode_cfg_message = []\<rparr>"

definition demo_state :: "bool option \<Rightarrow> graph_state" where
  "demo_state confirmed = \<lparr>st_query = ''q'', st_username = None, st_retrieved_docs = None, st_top_score = None,
     st_retrieval_mode = None, st_needs_user_confirm = None, st_user_confirmed_online = confirmed, st_online_provider = None,
     st_answer = None, st_answer_model = None, st_served_model = None, st_answer_sources = None, st_guardrail_blocked = None,
     st_guardrail_rails = None, st_guardrail_degraded = None, st_pre_action_hook_denied = None, st_error = None, st_audit_event = None\<rparr>"

lemma demo_destination: "assert_online_destination (\<lambda>_. False) ''grok'' [] (Some True) = Inr ()"
  by code_simp

lemma run_step:
  assumes "exec_node env n s = (Some s', e)" and "next_node env n s' = Some m" and "n \<noteq> End"
  shows "snd (run_from env n s) = e @ snd (run_from env m s')"
  using assms by (simp add: run_from.simps [of env n s] split: prod.split)

lemma demo_search:
  "hybrid_search (\<lambda>_. []) (\<lambda>_ _. Some []) \<lparr>rt_cfg = PDict [], rt_chunks = [], rt_top_k_keyword = 5, rt_rrf_k = 60\<rparr> (Some []) [] q = (Inr [], [])"
  by (simp add: hybrid_search_def semantic_search_def keyword_search_def nlargest_def sorted_desc_def maybe_fuse_memory_def
      fuse_memory_hits_def fusion_gate_def py_get_def or_empty_def is_literal_true_def)

lemma demo_prefix:
  "\<exists>e. snd (invoke demo_env (demo_state c)) = e @ snd (run_from demo_env UserGate ((demo_state c)\<lparr>st_retrieved_docs := Some [],
     st_top_score := Some 0, st_retrieval_mode := Some ''none'', st_needs_user_confirm := Some True\<rparr>))"
proof -
  let ?s1 = "(demo_state c)\<lparr>st_retrieved_docs := Some [], st_top_score := Some 0, st_retrieval_mode := Some ''none''\<rparr>"
  let ?s2 = "?s1\<lparr>st_needs_user_confirm := Some True\<rparr>"
  have "exec_node demo_env Retrieve (demo_state c) = (Some ?s1, [])"
    by (simp add: retrieve_node_def demo_env_def demo_search)
  moreover have "exec_node demo_env RouteByScore ?s1 = (Some ?s2, [])"
    by (simp add: route_by_score_node_def demo_env_def demo_graph_cfg_def oget_def Let_def)
  moreover have "next_node demo_env RouteByScore ?s2 = Some UserGate"
    by (simp add: score_router_def oget_def)
  ultimately show ?thesis
    using run_step [of demo_env Retrieve "demo_state c" ?s1 "[]" RouteByScore] run_step [of demo_env RouteByScore ?s1 ?s2 "[]" UserGate]
    by (simp add: invoke_def)
qed

lemma demo_external:
  "\<exists>spend. ExternalCall ''grok'' False (''USER QUERY: q'') spend \<in> set (snd (invoke demo_env (demo_state (Some True))))"
proof -
  let ?s2 = "(demo_state (Some True))\<lparr>st_retrieved_docs := Some [], st_top_score := Some 0, st_retrieval_mode := Some ''none'',
    st_needs_user_confirm := Some True\<rparr>"
  let ?s3 = "?s2\<lparr>st_pre_action_hook_denied := Some False\<rparr>"
  have gate: "exec_node demo_env UserGate ?s2 = (Some ?s2, [])" "next_node demo_env UserGate ?s2 = Some HookGrok"
    by (simp_all add: user_gate_node_def user_gate_router_def demo_state_def selected_provider_def usable_def demo_env_def demo_client_def)
  have hook: "exec_node demo_env HookGrok ?s2 = (Some ?s3, [])" "next_node demo_env HookGrok ?s3 = Some GrokFallback"
    by (simp_all add: pre_action_hook_node_def run_pre_action_hook_def hook_cfg_def is_literal_true_def demo_env_def demo_graph_cfg_def
        pre_action_hook_router_def oget_def selected_provider_def demo_state_def Let_def)
  have "\<exists>spend. ExternalCall ''grok'' False (''USER QUERY: q'') spend \<in> set (snd (exec_node demo_env GrokFallback ?s3))"
    by (simp add: grok_fallback_node_def external_fallback_node_def demo_env_def demo_graph_cfg_def demo_state_def demo_client_def
        demo_destination external_prompt_def external_assemble_def generate_or_error_def oget_def Let_def)
  moreover obtain s4 e4 where "exec_node demo_env GrokFallback ?s3 = (Some s4, e4)"
    by (simp add: grok_fallback_node_def external_fallback_node_def demo_env_def demo_graph_cfg_def demo_state_def demo_client_def
        demo_destination external_prompt_def external_assemble_def generate_or_error_def oget_def Let_def)
  ultimately show ?thesis
    using demo_prefix [of "Some True"] run_step [OF gate] run_step [OF hook] run_step [of demo_env GrokFallback ?s3 s4 e4 GuardrailOutput]
    by auto
qed

theorem external_call_gated_witness:
  "st_user_confirmed_online (demo_state (Some True)) = Some True \<and> hook_allows demo_env ''grok'' (demo_state (Some True))"
proof -
  obtain spend where "ExternalCall ''grok'' False (''USER QUERY: q'') spend \<in> set (snd (invoke demo_env (demo_state (Some True))))"
    using demo_external by blast
  from external_call_gated [OF this] show ?thesis by blast
qed

section \<open>The personality stays on the machine\<close>

text \<open>What leaves the process towards providers and the hook command.\<close>

fun off_box :: "effect \<Rightarrow> bool" where
  "off_box (ExternalCall _ _ _ _) = True"
| "off_box (HookEffect _) = True"
| "off_box _ = False"

lemma run_effects:
  "snd (run_from env n s) = (if n = End then [] else snd (exec_node env n s) @
     (case fst (exec_node env n s) of None \<Rightarrow> [] | Some s' \<Rightarrow>
        (case next_node env n s' of None \<Rightarrow> [] | Some m \<Rightarrow> snd (run_from env m s'))))"
  by (simp add: run_from.simps [of env n s] split: prod.split option.split)

lemma late_exec_on_box:
  "n \<in> {LocalLlm, OfflineBestEffort, GuardrailOutput, AuditLogger, End} \<Longrightarrow> filter off_box (snd (exec_node env n s)) = []"
  by (auto simp: filter_empty_conv dest!: exec_effect_kind)

lemma late_next: "n \<in> {LocalLlm, OfflineBestEffort, GuardrailOutput, AuditLogger, End} \<Longrightarrow> next_node env n s = Some m \<Longrightarrow>
  m \<in> {LocalLlm, OfflineBestEffort, GuardrailOutput, AuditLogger, End}"
  by (cases n) auto

lemma late_run_on_box:
  "n \<in> {LocalLlm, OfflineBestEffort, GuardrailOutput, AuditLogger, End} \<Longrightarrow> filter off_box (snd (run_from env n s)) = []"
proof (induction "node_rank n" arbitrary: n s rule: less_induct)
  case less
  have ex: "filter off_box (snd (exec_node env n s)) = []" using less.prems by (rule late_exec_on_box)
  have rest: "filter off_box (snd (run_from env m s')) = []" if "next_node env n s' = Some m" for m s'
    using less.hyps [OF next_node_rank [OF that]] late_next [OF less.prems that] by blast
  show ?case
    using ex rest by (simp add: run_effects [of env n s] split: option.split)
qed

lemma early_exec_indifferent:
  "n \<notin> {LocalLlm, OfflineBestEffort, GuardrailOutput, AuditLogger, End} \<Longrightarrow>
   exec_node (env\<lparr>g_personality := p\<rparr>) n s = exec_node (env\<lparr>g_personality := p'\<rparr>) n s"
  by (cases n)
     (simp_all add: retrieve_node_def route_by_score_node_def guardrail_input_node_def user_gate_node_def pre_action_hook_node_def
        grok_fallback_node_def claude_fallback_node_def external_fallback_node_def generate_or_error_def fallback_spend_context_def
        hash_query_def llm_identity_def model_tag_def
        cong: option.case_cong sum.case_cong prod.case_cong search_error.case_cong hook_verdict.case_cong list.case_cong)

lemma next_indifferent: "next_node (env\<lparr>g_personality := p\<rparr>) n s = next_node (env\<lparr>g_personality := p'\<rparr>) n s"
  by (cases n) (simp_all add: user_gate_router_def cong: option.case_cong bool.case_cong)

lemma run_indifferent:
  "filter off_box (snd (run_from (env\<lparr>g_personality := p\<rparr>) n s)) = filter off_box (snd (run_from (env\<lparr>g_personality := p'\<rparr>) n s))"
proof (induction "node_rank n" arbitrary: n s rule: less_induct)
  case less
  show ?case
  proof (cases "n \<in> {LocalLlm, OfflineBestEffort, GuardrailOutput, AuditLogger, End}")
    case True
    then show ?thesis by (simp only: late_run_on_box)
  next
    case False
    have "filter off_box (snd (run_from (env\<lparr>g_personality := p\<rparr>) m s')) = filter off_box (snd (run_from (env\<lparr>g_personality := p'\<rparr>) m s'))"
      if "next_node (env\<lparr>g_personality := p'\<rparr>) n s' = Some m" for m s'
      using less [OF next_node_rank [OF that]] .
    then show ?thesis
      by (simp add: run_effects [of _ n s] early_exec_indifferent [OF False, where p = p and p' = p'] next_indifferent [where p = p and p' = p']
          split: option.split)
  qed
qed

text \<open>
  C5: the soul never leaves the machine. Everything a run sends to an external provider or to the
  hook command (prompts, spend contexts and hook payloads, in order) is the same whatever the
  personality is, present or absent: no information flows from the personality into it.
\<close>

theorem soul_never_external:
  "filter off_box (snd (invoke (env\<lparr>g_personality := p\<rparr>) s)) = filter off_box (snd (invoke (env\<lparr>g_personality := p'\<rparr>) s))"
  unfolding invoke_def by (rule run_indifferent)

section \<open>Audit\<close>



lemma base_event_frame [simp]: "base_event env (s\<lparr>st_audit_event := x\<rparr>) = base_event env s"
  by (simp add: base_event_def)















section \<open>The input rail\<close>

definition is_local_call :: "effect \<Rightarrow> bool" where
  "is_local_call x = (\<exists>g p. x = LocalCall g p)"

definition rail_blocks :: "graph_env \<Rightarrow> str \<Rightarrow> bool" where
  "rail_blocks env q = (case g_input_guard env of None \<Rightarrow> False
     | Some guard \<Rightarrow> (case guard q of None \<Rightarrow> False | Some r \<Rightarrow> gr_blocked r))"

definition rail_inv :: "graph_env \<Rightarrow> graph_state \<Rightarrow> node \<Rightarrow> graph_state \<Rightarrow> effect list \<Rightarrow> bool" where
  "rail_inv env s0 n s es = (rail_blocks env (st_query s0) \<longrightarrow>
     same_request s0 s \<and> n \<notin> {LocalLlm, OfflineBestEffort} \<and> list_all (\<lambda>x. \<not> is_local_call x) es)"

lemma rail_edge:
  assumes "next_node env n s = Some m" and "n \<noteq> GuardrailInput"
  shows "m \<notin> {LocalLlm, OfflineBestEffort}"
  using assms by (cases n) (auto split: if_splits)

lemma rail_stops:
  assumes "rail_blocks env (st_query s)" and "guardrail_input_node env s = (Some s', e)"
  shows "guardrail_router s' = AuditLogger"
  using assms by (auto simp: rail_blocks_def guardrail_input_node_def guardrail_router_def oget_def split: option.splits if_splits)

lemma rail_node:
  assumes "rail_inv env s0 n s es" and "exec_node env n s = (out, e)" and "rail_blocks env (st_query s0)"
  shows "list_all (\<lambda>x. \<not> is_local_call x) (es @ e)"
proof -
  have "n \<notin> {LocalLlm, OfflineBestEffort}" "list_all (\<lambda>x. \<not> is_local_call x) es"
    using assms(1,3) by (simp_all add: rail_inv_def)
  moreover from this(1) have "list_all (\<lambda>x. \<not> is_local_call x) e"
    using exec_no_local [of n _ _ env s] assms(2) by (auto simp: list_all_iff is_local_call_def)
  ultimately show ?thesis by simp
qed

interpretation rail: graph_invariant env "rail_inv env s0" for env s0
proof
  fix n s es s' e m
  assume inv: "rail_inv env s0 n s es" and ex: "exec_node env n s = (Some s', e)" and nx: "next_node env n s' = Some m"
  show "rail_inv env s0 m s' (es @ e)" unfolding rail_inv_def
  proof (intro impI conjI)
    assume b: "rail_blocks env (st_query s0)"
    have fr: "same_request s0 s" using inv b by (simp add: rail_inv_def)
    then show "same_request s0 s'" using exec_frame [OF ex] same_request_trans by blast
    show "list_all (\<lambda>x. \<not> is_local_call x) (es @ e)" by (rule rail_node [OF inv ex b])
    show "m \<notin> {LocalLlm, OfflineBestEffort}"
    proof (cases "n = GuardrailInput")
      case True
      have "rail_blocks env (st_query s)" using b fr by (simp add: same_request_def)
      then show ?thesis using rail_stops ex nx True by auto
    qed (use rail_edge nx in blast)
  qed
qed

text \<open>
  C6: a blocked query is never generated for locally. If the input rail blocks the query, no run
  calls the local model, on any path: neither the local answer nor the offline best effort the
  user gate falls back to.
\<close>

theorem blocked_input_never_generates:
  assumes "rail_blocks env (st_query s0)"
  shows "list_all (\<lambda>x. \<not> is_local_call x) (snd (invoke env s0))"
  unfolding invoke_def
proof (rule rail.run_effects_inv [of env s0])
  show "rail_inv env s0 Retrieve s0 []" by (simp add: rail_inv_def)
qed (use assms rail_node in \<open>auto simp: rail_inv_def\<close>)

theorem blocked_input_never_generates_witness:
  "rail_blocks demo_env ''q'' \<and> list_all (\<lambda>x. \<not> is_local_call x) (snd (invoke demo_env (demo_state (Some False))))"
proof -
  have "rail_blocks demo_env ''q''" by (simp add: rail_blocks_def demo_env_def)
  then show ?thesis using blocked_input_never_generates [of demo_env "demo_state (Some False)"]
    by (simp add: demo_state_def)
qed

end
