(* ===== verification/Sanitizer.thy ===== *)
theory Sanitizer
  imports Py_Codec
begin

text \<open>
  Model of \<open>utils/sanitizer.py\<close>: the prompt injection filter in front of every query and over every
  indexed chunk. The regular expression engine and the Unicode normal form NFKC are arguments
  (\<open>text_lib\<close>): a compiled pattern is the predicate of its \<open>search\<close> and the function of its
  \<open>sub("[FILTERED]", text)\<close>, and \<open>None\<close> is \<open>re.error\<close>. The parsed configuration is the
  argument \<open>cfg\<close>; the cache of \<open>_load_filter\<close> is not modelled.
\<close>

record regex =
  rx_search :: "str \<Rightarrow> bool"
  rx_sub :: "str \<Rightarrow> str"

record text_lib =
  re_compile :: "str \<Rightarrow> regex option"
  nfkc :: "str \<Rightarrow> str"

datatype filter_error =
    InputTooLong nat pyval
  | InjectionDetected
  | FilterConfigError

definition DEFAULT_MAX_INPUT_CHARS :: int where "DEFAULT_MAX_INPUT_CHARS = 4000"

text \<open>\<open>_INVISIBLE_CHARS\<close>: of its members only the soft hyphen is among the first 256 code points.\<close>

definition invisible :: "char \<Rightarrow> bool" where
  "invisible c = (c = CHR 0xAD)"

definition normalize_for_match :: "text_lib \<Rightarrow> str \<Rightarrow> str" where
  "normalize_for_match L text = filter (\<lambda>c. \<not> invisible c) (nfkc L text)"

text \<open>The patterns that compile, in order; entries that are not strings or do not compile are skipped.\<close>

fun compile_entries :: "text_lib \<Rightarrow> pyval list \<Rightarrow> regex list" where
  "compile_entries L [] = []"
| "compile_entries L (v # vs) =
     (case v of
        PStr p \<Rightarrow> (case re_compile L p of None \<Rightarrow> compile_entries L vs | Some r \<Rightarrow> r # compile_entries L vs)
      | _ \<Rightarrow> compile_entries L vs)"

text \<open>\<open>(cfg.get("policy") or {}).get("prompt_filter") or {}\<close>\<close>

definition prompt_filter_section :: "pyval \<Rightarrow> pyval option" where
  "prompt_filter_section cfg =
     (case py_get cfg ''policy'' of None \<Rightarrow> None
      | Some pol \<Rightarrow> map_option or_empty (py_get (or_empty pol) ''prompt_filter''))"

definition load_filter :: "text_lib \<Rightarrow> pyval \<Rightarrow> (pyval \<times> pyval \<times> regex list) option" where
  "load_filter L cfg =
     (case prompt_filter_section (or_empty cfg) of
        Some (PDict pf) \<Rightarrow>
          (case py_iter (dget pf ''banned_patterns'' (PList [])) of None \<Rightarrow> None
           | Some entries \<Rightarrow>
               Some (dget pf ''enabled'' (PBool True), dget pf ''max_input_chars'' (PInt DEFAULT_MAX_INPUT_CHARS),
                     compile_entries L entries))
      | _ \<Rightarrow> None)"

definition check_input :: "text_lib \<Rightarrow> pyval \<Rightarrow> int option \<Rightarrow> str \<Rightarrow> filter_error + str" where
  "check_input L cfg max_chars_override query =
     (case load_filter L cfg of None \<Rightarrow> Inl FilterConfigError
      | Some (enabled, configured, patterns) \<Rightarrow>
          let max_chars = (case max_chars_override of None \<Rightarrow> configured | Some n \<Rightarrow> PInt n) in
          if \<not> py_truthy enabled then Inr query
          else (case py_num max_chars of None \<Rightarrow> Inl FilterConfigError
             | Some limit \<Rightarrow>
                 if limit < of_nat (length query) then Inl (InputTooLong (length query) max_chars)
                 else if list_ex (\<lambda>r. rx_search r (normalize_for_match L query)) patterns then Inl InjectionDetected
                 else Inr query))"

definition sanitize_chunk :: "text_lib \<Rightarrow> pyval \<Rightarrow> str \<Rightarrow> str option" where
  "sanitize_chunk L cfg text =
     (case load_filter L cfg of None \<Rightarrow> None
      | Some (enabled, _, patterns) \<Rightarrow> Some (if py_truthy enabled then fold rx_sub patterns text else text))"

definition sanitize_query :: "text_lib \<Rightarrow> pyval \<Rightarrow> str \<Rightarrow> str option" where
  "sanitize_query L cfg text = sanitize_chunk L cfg text"

section \<open>What the filter lets through\<close>

lemma compile_entries_set:
  "r \<in> set (compile_entries L vs) \<longleftrightarrow> (\<exists>p. PStr p \<in> set vs \<and> re_compile L p = Some r)"
  by (induction vs) (auto split: pyval.splits option.splits)

lemma check_input_unchanged: "check_input L cfg m q = Inr r \<Longrightarrow> r = q"
  by (auto simp: check_input_def Let_def split: option.splits prod.splits if_splits)

text \<open>
  C30: The injection filter is exact, for any configured switch and limit and any limit of the caller. With the filter on, a query
  passes if and only if it is within the limit and no banned pattern that compiles occurs in its normalised form, and it passes unchanged; with
  the filter off, every query passes. It is refused as an injection if and only if the filter is on, it is within the limit and some entry of the list
  that is a text and compiles occurs in its normalised form: entries that are no texts or do not compile only drop out, and neither
  the order of the entries nor their repetition matters.
\<close>

theorem injection_filter_exact:
  assumes "prompt_filter_section (or_empty cfg) = Some (PDict pf)"
    and "dget pf ''banned_patterns'' (PList []) = PList entries"
    and "py_num (case max_chars_override of None \<Rightarrow> dget pf ''max_input_chars'' (PInt DEFAULT_MAX_INPUT_CHARS) | Some n \<Rightarrow> PInt n) = Some limit"
  shows "(check_input L cfg max_chars_override q = Inr r \<longleftrightarrow> r = q \<and>
      (py_truthy (dget pf ''enabled'' (PBool True)) \<longrightarrow> of_nat (length q) \<le> limit \<and>
        \<not> (\<exists>p rx. PStr p \<in> set entries \<and> re_compile L p = Some rx \<and> rx_search rx (normalize_for_match L q)))) \<and>
    (check_input L cfg max_chars_override q = Inl InjectionDetected \<longleftrightarrow>
      py_truthy (dget pf ''enabled'' (PBool True)) \<and> of_nat (length q) \<le> limit \<and>
      (\<exists>p rx. PStr p \<in> set entries \<and> re_compile L p = Some rx \<and> rx_search rx (normalize_for_match L q)))"
proof -
  have load: "load_filter L cfg = Some (dget pf ''enabled'' (PBool True), dget pf ''max_input_chars'' (PInt DEFAULT_MAX_INPUT_CHARS), compile_entries L entries)"
    using assms(1,2) by (simp add: load_filter_def py_iter_def)
  have found: "list_ex (\<lambda>r. rx_search r (normalize_for_match L q)) (compile_entries L entries) \<longleftrightarrow>
      (\<exists>p rx. PStr p \<in> set entries \<and> re_compile L p = Some rx \<and> rx_search rx (normalize_for_match L q))"
    unfolding list_ex_iff Bex_def compile_entries_set by blast
  show ?thesis unfolding check_input_def load found [symmetric] using assms(3) by (auto simp: Let_def)
qed

definition demo_lib :: text_lib where
  "demo_lib = \<lparr>re_compile = (\<lambda>p. if p = ''('' then None
       else Some \<lparr>rx_search = (\<lambda>t. p = take (length p) t), rx_sub = (\<lambda>t. t)\<rparr>), nfkc = (\<lambda>t. t)\<rparr>"

definition demo_filter_cfg :: pyval where
  "demo_filter_cfg = PDict [(''policy'', PDict [(''prompt_filter'', PDict [(''enabled'', PBool True),
     (''max_input_chars'', PInt 100), (''banned_patterns'', PList [PStr ''('', PStr ''ignore''])])])]"

theorem injection_filter_exact_witness:
  "check_input demo_lib demo_filter_cfg None ''hello'' = Inr ''hello'' \<and>
   check_input demo_lib demo_filter_cfg (Some 7) (''ig'' @ CHR 0xAD # ''nore'') = Inl InjectionDetected"
proof -
  have sec: "prompt_filter_section (or_empty demo_filter_cfg) = Some (PDict [(''enabled'', PBool True),
     (''max_input_chars'', PInt 100), (''banned_patterns'', PList [PStr ''('', PStr ''ignore''])])"
    by (simp add: prompt_filter_section_def demo_filter_cfg_def py_get_def or_empty_def dget_def)
  have hit: "\<exists>p rx. PStr p \<in> set [PStr ''('', PStr ''ignore''] \<and> re_compile demo_lib p = Some rx \<and>
      rx_search rx (normalize_for_match demo_lib (''ig'' @ CHR 0xAD # ''nore''))"
    by (intro exI [of _ "''ignore''"]) (simp add: demo_lib_def normalize_for_match_def invisible_def)
  have miss: "\<not> (\<exists>p rx. PStr p \<in> set [PStr ''('', PStr ''ignore''] \<and> re_compile demo_lib p = Some rx \<and>
      rx_search rx (normalize_for_match demo_lib ''hello''))"
    by (auto simp: demo_lib_def normalize_for_match_def invisible_def)
  show ?thesis
    using injection_filter_exact [OF sec, of "[PStr ''('', PStr ''ignore'']" None 100 demo_lib "''hello''" "''hello''"]
      injection_filter_exact [OF sec, of "[PStr ''('', PStr ''ignore'']" "Some 7" 7 demo_lib "''ig'' @ CHR 0xAD # ''nore''"] hit miss
    by (simp add: dget_def py_num_def)
qed

end
