(* ===== verification/Memory_Policy.thy ===== *)
theory Memory_Policy
  imports Sanitizer
begin

text \<open>
  Model of \<open>memory/policy.py\<close>: the reason gate, the size caps and the injection scan in front of
  every write to the memory store, and the pattern lists of \<open>utils/personality.py\<close> it uses.
  \<open>MemConversion\<close> stands for an exception raised by a conversion of a configuration or payload
  value (\<open>TypeError\<close>, \<open>AttributeError\<close>, or a \<open>ValueError\<close> of \<open>int\<close> or \<open>float\<close>).
\<close>

datatype mem_error =
    MemValueError str
  | MemInjection "str list"
  | MemConversion
  | MemIntegrityError

text \<open>The regular expression \<open>\s+\<close>.\<close>

definition ws :: str where "ws = CHR 0x5C # ''s+''"
definition ws0 :: str where "ws0 = CHR 0x5C # ''s*''"

definition CORE_INJECTION_PATTERNS :: "str list" where
  "CORE_INJECTION_PATTERNS =
     [''ignore'' @ ws @ ''(previous|all|prior)'' @ ws @ ''instructions'',
      ''disregard'' @ ws @ ''(previous|all|prior)'',
      ''forget'' @ ws @ ''(previous|all|prior)'' @ ws @ ''instructions'',
      ''new'' @ ws @ ''instructions'' @ ws0 @ '':'',
      ''system'' @ ws @ ''prompt'' @ ws0 @ '':'',
      ''override'' @ ws @ ''instructions'',
      ''jailbreak'',
      ''DAN'' @ ws @ ''mode'',
      ''developer'' @ ws @ ''mode'']"

definition ENFORCED_SOUL_PATTERNS :: "str list" where
  "ENFORCED_SOUL_PATTERNS = CORE_INJECTION_PATTERNS"

definition OWASP_INJECTION_PATTERNS :: "str list" where
  "OWASP_INJECTION_PATTERNS = CORE_INJECTION_PATTERNS @
     [''you'' @ ws @ ''are'' @ ws @ ''now'',
      ''pretend'' @ ws @ ''(you'' @ ws @ ''are|to'' @ ws @ ''be)'',
      ''act'' @ ws @ ''as'',
      ''<'' @ ws0 @ ''script'' @ ws0 @ ''>'']"

definition require_reason :: "str \<Rightarrow> mem_error + unit" where
  "require_reason reason = (if py_strip reason = [] then Inl (MemValueError ''reason must not be empty'') else Inr ())"

fun add_sources :: "str list \<Rightarrow> pyval list \<Rightarrow> str list" where
  "add_sources sources [] = sources"
| "add_sources sources (v # vs) =
     (case v of PStr p \<Rightarrow> add_sources (if p \<in> set sources then sources else sources @ [p]) vs
      | _ \<Rightarrow> add_sources sources vs)"

definition compile_patterns :: "text_lib \<Rightarrow> str list \<Rightarrow> pyval \<Rightarrow> (str \<times> regex) list option" where
  "compile_patterns L base cfg =
     (case prompt_filter_section cfg of
        Some (PDict pf) \<Rightarrow>
          (let banned = dget pf ''banned_patterns'' PNone in
           case py_iter (if py_truthy banned then banned else PList []) of None \<Rightarrow> None
           | Some extra \<Rightarrow> Some (List.map_filter (\<lambda>p. map_option (Pair p) (re_compile L p)) (add_sources base extra)))
      | _ \<Rightarrow> None)"

definition scan_content :: "text_lib \<Rightarrow> bool \<Rightarrow> pyval \<Rightarrow> str \<Rightarrow> str list option" where
  "scan_content L enforced cfg content =
     map_option (\<lambda>pats. map fst (filter (\<lambda>(src, pat). rx_search pat (normalize_for_match L content)) pats))
       (compile_patterns L (if enforced then ENFORCED_SOUL_PATTERNS else OWASP_INJECTION_PATTERNS) cfg)"

definition enforce_content :: "text_lib \<Rightarrow> pyval \<Rightarrow> str \<Rightarrow> mem_error + unit" where
  "enforce_content L cfg content =
     (case scan_content L True cfg content of None \<Rightarrow> Inl MemConversion
      | Some flags \<Rightarrow> if flags \<noteq> [] then Inl (MemInjection flags) else Inr ())"

text \<open>\<open>(cfg.get("memory") or {}).get(section) or {}\<close> as a mapping.\<close>

definition mem_section :: "pyval \<Rightarrow> str \<Rightarrow> (str, pyval) dict option" where
  "mem_section cfg sec =
     (case py_get cfg ''memory'' of None \<Rightarrow> None
      | Some m \<Rightarrow> (case py_get (or_empty m) sec of None \<Rightarrow> None
         | Some s \<Rightarrow> (case or_empty s of PDict d \<Rightarrow> Some d | _ \<Rightarrow> None)))"

definition max_content_chars :: "pyval \<Rightarrow> int option" where
  "max_content_chars cfg =
     (case mem_section cfg ''facts'' of None \<Rightarrow> None
      | Some facts \<Rightarrow> py_to_int (dget facts ''max_content_chars'' (PInt 8192)))"

definition check_content_size :: "pyval \<Rightarrow> str \<Rightarrow> mem_error + unit" where
  "check_content_size cfg content =
     (case max_content_chars cfg of None \<Rightarrow> Inl MemConversion
      | Some n \<Rightarrow>
          if py_strip content = [] then Inl (MemValueError ''fact content must not be empty'')
          else if n < int (length content) then Inl (MemValueError (''fact content exceeds max_content_chars='' @ int_str n))
          else Inr ())"

fun clean_tags :: "(pyval \<Rightarrow> str) \<Rightarrow> nat \<Rightarrow> pyval list \<Rightarrow> mem_error + str list" where
  "clean_tags py_str max_tag_len [] = Inr []"
| "clean_tags py_str max_tag_len (t # ts) =
     (let s = py_strip (to_str py_str t) in
      if s = [] then clean_tags py_str max_tag_len ts
      else if max_tag_len < length s then Inl (MemValueError (''tag exceeds max length '' @ nat_str max_tag_len))
      else (case clean_tags py_str max_tag_len ts of Inl e \<Rightarrow> Inl e | Inr ss \<Rightarrow> Inr (s # ss)))"

definition check_tags :: "(pyval \<Rightarrow> str) \<Rightarrow> pyval list \<Rightarrow> mem_error + str list" where
  "check_tags py_str tags =
     (case clean_tags py_str 64 tags of Inl e \<Rightarrow> Inl e
      | Inr cleaned \<Rightarrow> if 32 < length cleaned then Inl (MemValueError ''too many tags (max 32)'') else Inr cleaned)"

section \<open>What passes the policy\<close>

lemma clean_tags_ok:
  "clean_tags py_str n ts = Inr ss \<Longrightarrow> list_all (\<lambda>s. s \<noteq> [] \<and> length s \<le> n) ss"
  by (induction ts arbitrary: ss) (auto simp: Let_def split: if_splits sum.splits)

lemma check_tags_ok:
  "check_tags py_str ts = Inr ss \<Longrightarrow> length ss \<le> 32 \<and> list_all (\<lambda>s. s \<noteq> [] \<and> length s \<le> 64) ss"
  using clean_tags_ok by (auto simp: check_tags_def split: sum.splits if_splits)

lemma content_size_ok:
  "check_content_size cfg content = Inr () \<Longrightarrow>
   \<exists>n. max_content_chars cfg = Some n \<and> py_strip content \<noteq> [] \<and> int (length content) \<le> n"
  by (auto simp: check_content_size_def split: option.splits if_splits)

lemma add_sources_keeps: "set sources \<subseteq> set (add_sources sources vs)"
proof (induction vs arbitrary: sources)
  case (Cons v vs)
  have "set sources \<subseteq> set (add_sources (sources @ [p]) vs)" for p using Cons.IH [of "sources @ [p]"] by simp
  then show ?case using Cons.IH [of sources] by (simp split: pyval.split)
qed simp

lemma add_sources_banned: "PStr p \<in> set vs \<Longrightarrow> p \<in> set (add_sources sources vs)"
proof (induction vs arbitrary: sources)
  case (Cons v vs)
  then show ?case
    using add_sources_keeps [of "if p \<in> set sources then sources else sources @ [p]" vs]
    by (auto split: pyval.splits)
qed simp

text \<open>Content that passes matches no critical pattern and no banned pattern of the configuration.\<close>

lemma enforce_content_clean:
  assumes "enforce_content L cfg content = Inr ()" and "re_compile L p = Some rx"
    and "p \<in> set ENFORCED_SOUL_PATTERNS \<or>
      (\<exists>pf. prompt_filter_section cfg = Some (PDict pf) \<and> dget pf ''banned_patterns'' PNone = PList entries \<and> PStr p \<in> set entries)"
  shows "\<not> rx_search rx (normalize_for_match L content)"
proof -
  obtain pats where pats: "compile_patterns L ENFORCED_SOUL_PATTERNS cfg = Some pats"
    and none: "filter (\<lambda>(src, pat). rx_search pat (normalize_for_match L content)) pats = []"
    using assms(1) by (auto simp: enforce_content_def scan_content_def split: option.splits if_splits)
  have "(p, rx) \<in> set pats"
  proof -
    obtain pf extra where pf: "prompt_filter_section cfg = Some (PDict pf)"
      and extra: "py_iter (if py_truthy (dget pf ''banned_patterns'' PNone) then dget pf ''banned_patterns'' PNone else PList []) = Some extra"
      and eq: "pats = List.map_filter (\<lambda>p. map_option (Pair p) (re_compile L p)) (add_sources ENFORCED_SOUL_PATTERNS extra)"
      using pats by (auto simp: compile_patterns_def Let_def split: option.splits pyval.splits if_splits)
    have "p \<in> set (add_sources ENFORCED_SOUL_PATTERNS extra)"
      using assms(3)
    proof
      assume "p \<in> set ENFORCED_SOUL_PATTERNS"
      then show ?thesis using add_sources_keeps by blast
    next
      assume "\<exists>pf. prompt_filter_section cfg = Some (PDict pf) \<and> dget pf ''banned_patterns'' PNone = PList entries \<and> PStr p \<in> set entries"
      then have "extra = entries" "PStr p \<in> set entries" using pf extra by (auto simp: py_iter_def split: if_splits)
      then show ?thesis using add_sources_banned by blast
    qed
    then show ?thesis using assms(2) by (force simp: eq List.map_filter_def)
  qed
  with none show ?thesis by (auto simp: filter_empty_conv)
qed

end
