(* ===== verification/Py_Path.thy ===== *)
theory Py_Path
  imports Py_Codec
begin

text \<open>
  What the connectors use of Python's \<open>str\<close>, \<open>sorted\<close>, \<open>os.path\<close> and \<open>pathlib\<close> on POSIX: searching
  and splitting strings, the stable sort of a list by a string key, lexical path operations.
\<close>

section \<open>Strings\<close>

definition py_endswith :: "str \<Rightarrow> str \<Rightarrow> bool" where
  "py_endswith s p = (length p \<le> length s \<and> drop (length s - length p) s = p)"

text \<open>\<open>p in s\<close>.\<close>

fun py_contains :: "str \<Rightarrow> str \<Rightarrow> bool" where
  "py_contains p [] = (p = [])"
| "py_contains p (c # s) = (py_startswith (c # s) p \<or> py_contains p s)"

text \<open>\<open>s.removesuffix(p)\<close>.\<close>

definition py_removesuffix :: "str \<Rightarrow> str \<Rightarrow> str" where
  "py_removesuffix s p = (if p \<noteq> [] \<and> py_endswith s p then take (length s - length p) s else s)"

definition py_rstrip_chars :: "char set \<Rightarrow> str \<Rightarrow> str" where
  "py_rstrip_chars cs s = rev (dropWhile (\<lambda>c. c \<in> cs) (rev s))"

text \<open>The pieces between the characters that satisfy \<open>P\<close>.\<close>

fun split_by :: "(char \<Rightarrow> bool) \<Rightarrow> str \<Rightarrow> str list" where
  "split_by P [] = [[]]"
| "split_by P (x # xs) =
     (if P x then [] # split_by P xs
      else case split_by P xs of [] \<Rightarrow> [[x]] | y # ys \<Rightarrow> (x # y) # ys)"

lemma split_by_not_Nil [simp]: "split_by P s \<noteq> []"
  by (cases s) (auto split: list.split)

lemma split_by_free: "p \<in> set (split_by P s) \<Longrightarrow> c \<in> set p \<Longrightarrow> \<not> P c"
  by (induction s arbitrary: p) (fastforce split: if_splits list.splits)+

lemma split_by_chars: "p \<in> set (split_by P s) \<Longrightarrow> c \<in> set p \<Longrightarrow> c \<in> set s"
  by (induction s arbitrary: p) (fastforce split: if_splits list.splits)+

lemma py_split_free_name: "CHR ''/'' \<notin> set s \<Longrightarrow> py_split (CHR ''/'') s = [s]"
  by (rule py_split_free)

section \<open>Sorting by a string key\<close>

fun insert_by :: "('a \<Rightarrow> str) \<Rightarrow> 'a \<Rightarrow> 'a list \<Rightarrow> 'a list" where
  "insert_by key x [] = [x]"
| "insert_by key x (y # ys) = (if str_less (key y) (key x) then y # insert_by key x ys else x # y # ys)"

text \<open>\<open>sorted(xs, key=key)\<close>: a stable insertion sort.\<close>

definition sorted_by :: "('a \<Rightarrow> str) \<Rightarrow> 'a list \<Rightarrow> 'a list" where
  "sorted_by key xs = foldr (insert_by key) xs []"

lemma set_insert_by [simp]: "set (insert_by key x ys) = insert x (set ys)"
  by (induction ys) auto

lemma set_sorted_by [simp]: "set (sorted_by key xs) = set xs"
  unfolding sorted_by_def by (induction xs) auto

lemma length_insert_by [simp]: "length (insert_by key x ys) = Suc (length ys)"
  by (induction ys) auto

lemma length_sorted_by [simp]: "length (sorted_by key xs) = length xs"
  unfolding sorted_by_def by (induction xs) auto

section \<open>Lexical paths\<close>

definition py_isabs :: "str \<Rightarrow> bool" where
  "py_isabs p = py_startswith p ''/''"

text \<open>\<open>os.path.dirname\<close>: everything up to the last slash, without trailing slashes unless it is all slashes.\<close>

definition py_dirname :: "str \<Rightarrow> str" where
  "py_dirname p =
     (let head = rev (dropWhile (\<lambda>c. c \<noteq> CHR ''/'') (rev p)) in
      if list_all (\<lambda>c. c = CHR ''/'') head then head else py_rstrip_chars {CHR ''/''} head)"

lemma length_dropWhile_rev: "length (rev (dropWhile P (rev p))) \<le> length p"
  by (metis length_dropWhile_le length_rev)

lemma py_dirname_shorter: "py_dirname p \<noteq> p \<Longrightarrow> length (py_dirname p) < length p"
proof -
  assume neq: "py_dirname p \<noteq> p"
  define head where "head = rev (dropWhile (\<lambda>c. c \<noteq> CHR ''/'') (rev p))"
  have pre: "\<exists>r. xs = rev (dropWhile P (rev xs)) @ r" for P :: "char \<Rightarrow> bool" and xs
    by (metis rev_append rev_rev_ident takeWhile_dropWhile_id)
  have d: "py_dirname p = head \<or> py_dirname p = py_rstrip_chars {CHR ''/''} head"
    unfolding py_dirname_def head_def Let_def by auto
  obtain r where r: "p = head @ r" using pre [of p] head_def by metis
  obtain r2 where r2: "head = py_rstrip_chars {CHR ''/''} head @ r2"
    using pre [of head] unfolding py_rstrip_chars_def by metis
  from d obtain q where "p = py_dirname p @ q" using r r2 by (metis append.assoc)
  with neq show ?thesis by (metis append_Nil2 length_append length_greater_0_conv less_add_same_cancel1)
qed

text \<open>\<open>str(Path(p))\<close>: single slashes, no \<open>.\<close> components, \<open>.\<close> for the empty path; exactly two leading slashes are kept.\<close>

definition path_parts :: "str \<Rightarrow> str list" where
  "path_parts p = filter (\<lambda>c. c \<noteq> [] \<and> c \<noteq> ''.'') (py_split (CHR ''/'') p)"

definition path_anchor :: "str \<Rightarrow> str" where
  "path_anchor p = (if py_startswith p ''//'' \<and> \<not> py_startswith p ''///'' then ''//'' else if py_isabs p then ''/'' else [])"

definition path_str :: "str \<Rightarrow> str" where
  "path_str p = (let s = path_anchor p @ py_join ''/'' (path_parts p) in if s = [] then ''.'' else s)"

text \<open>\<open>str(path.joinpath(*comps))\<close> for relative components.\<close>

definition joinpath :: "str \<Rightarrow> str list \<Rightarrow> str" where
  "joinpath p comps = path_str (py_join ''/'' (p # comps))"

text \<open>The canonical absolute path with the given names.\<close>

definition abs_path :: "str list \<Rightarrow> str" where
  "abs_path names = CHR ''/'' # py_join ''/'' names"

end
