(* ===== verification/Py_Text.thy ===== *)
theory Py_Text
  imports Py_Path
begin

text \<open>Lines and line breaks of Python's \<open>str\<close>, and the character classes of \<open>re\<close>.\<close>

definition LF :: char where "LF = CHR 0x0A"
definition CR :: char where "CR = CHR 0x0D"

definition is_line_break :: "char \<Rightarrow> bool" where
  "is_line_break c = (c \<in> {LF, CR, CHR 0x0B, CHR 0x0C, CHR 0x1C, CHR 0x1D, CHR 0x1E, CHR 0x85})"

text \<open>\<open>str.splitlines\<close>.\<close>

fun py_splitlines :: "str \<Rightarrow> str list" where
  "py_splitlines [] = []"
| "py_splitlines (c # cs) =
     (if is_line_break c then [] # py_splitlines (if c = CR \<and> py_startswith cs [LF] then tl cs else cs)
      else (case py_splitlines cs of [] \<Rightarrow> [[c]] | l # ls \<Rightarrow> (c # l) # ls))"

lemma py_splitlines_free: "l \<in> set (py_splitlines s) \<Longrightarrow> c \<in> set l \<Longrightarrow> \<not> is_line_break c"
proof (induction s arbitrary: l rule: py_splitlines.induct)
  case (2 d cs)
  show ?case
  proof (cases "is_line_break d")
    case True
    then show ?thesis using 2 by (auto split: if_splits)
  next
    case False
    then show ?thesis using 2(2)[OF False] 2(3,4) by (fastforce split: list.splits)
  qed
qed simp

text \<open>Removing white space keeps no new characters.\<close>

lemma py_strip_subset: "c \<in> set (py_strip s) \<Longrightarrow> c \<in> set s"
  unfolding py_strip_def py_lstrip_def by (auto dest!: set_dropWhileD)

text \<open>Case-insensitive comparison of a prefix, for ASCII literals.\<close>

definition ci_prefix :: "str \<Rightarrow> str \<Rightarrow> bool" where
  "ci_prefix p s = (length p \<le> length s \<and> py_lower (take (length p) s) = p)"

text \<open>The class \<open>\w\<close> on Latin-1 text.\<close>

definition re_word_char :: "char \<Rightarrow> bool" where
  "re_word_char c = (let n = code c in is_digit c \<or> 65 \<le> n \<and> n \<le> 90 \<or> n = 95 \<or> 97 \<le> n \<and> n \<le> 122 \<or>
     n \<in> {170, 178, 179, 181, 185, 186, 188, 189, 190} \<or> 192 \<le> n \<and> n \<noteq> 215 \<and> n \<noteq> 247)"

end
