(* ===== verification/Memory_Store.thy ===== *)
theory Memory_Store
  imports Memory_Policy Step_Contract Py_Text
begin

text \<open>
  Model of \<open>memory/store.py\<close>: the SQLite tables of facts, episodes and proposals, the full-text
  index that triggers keep beside the facts, and the operations on them.

  \<^item> A table is the list of its rows in the order of insertion. The full-text table \<open>facts_fts\<close> is a
    map from row ids to its columns; every statement on \<open>facts\<close> also runs the trigger the schema
    attaches to it.
  \<^item> A JSON column is the value it encodes: tags and flags are lists of strings, a payload is a
    mapping. Columns damaged outside this code are not modelled.
  \<^item> An operation is one transaction: on an exception the tables are those before it. The time
    stamp an operation draws is an argument.
  \<^item> \<open>mem_env\<close> holds the regular expressions, SHA-256, \<open>str\<close> and \<open>float\<close> of values, the redaction
    of \<open>utils/logger.py\<close> and the full-text engine: \<open>me_match\<close> gives the matching rows of an index with
    their ranks, best first, or \<open>None\<close> for \<open>OperationalError\<close>; \<open>me_iso\<close> is \<open>isoformat\<close> of a time,
    \<open>None\<close> outside the range of dates.
\<close>

section \<open>Tables\<close>

record fact =
  f_id :: int
  f_content :: str
  f_category :: str
  f_tags :: "str list"
  f_confidence :: rat
  f_source :: str
  f_active :: bool
  f_created_at :: str
  f_updated_at :: str
  f_applied_reason :: str
  f_content_sha256 :: str

record episode =
  ep_id :: int
  ep_query_hash :: str
  ep_answer_summary :: str
  ep_model_used :: str
  ep_top_score :: "rat option"
  ep_retrieval_mode :: "str option"
  ep_hit_count :: nat
  ep_source_tag :: str
  ep_created_at :: str
  ep_raw_query :: "str option"

datatype proposal_action = AddFact | UpdateFact | DeactivateFact
datatype proposal_status = Pending | Applied | Rejected

record proposal =
  mp_id :: int
  mp_action :: proposal_action
  mp_payload :: "(str, pyval) dict"
  mp_reason :: str
  mp_status :: proposal_status
  mp_injection_flags :: "str list"
  mp_created_at :: str
  mp_resolved_at :: "str option"
  mp_resolved_reason :: "str option"

record fts_row =
  x_content :: str
  x_category :: str
  x_tags :: str

type_synonym fts_index = "int \<rightharpoonup> fts_row"

record mem_db =
  facts :: "fact list"
  facts_fts :: fts_index
  episodes :: "episode list"
  memory_proposals :: "proposal list"
  episode_counter :: int

record mem_env =
  me_lib :: text_lib
  me_sha256 :: "str \<Rightarrow> str"
  me_str :: "pyval \<Rightarrow> str"
  me_float :: "str \<Rightarrow> rat option"
  me_redact :: "pyval \<Rightarrow> str \<Rightarrow> str"
  me_match :: "str \<Rightarrow> fts_index \<Rightarrow> (int \<times> rat) list option"
  me_iso :: "seconds \<Rightarrow> str option"

type_synonym 'a mem_result = "(mem_error + 'a) \<times> mem_db"

section \<open>The full-text index and its triggers\<close>

definition hex_digit :: "nat \<Rightarrow> char" where
  "hex_digit n = (if n < 10 then char_of (48 + n) else char_of (87 + n))"

definition json_escape :: "char \<Rightarrow> str" where
  "json_escape c = (let n = code c in
     if n = 34 \<or> n = 92 then [CHR 0x5C, c]
     else if n = 10 then CHR 0x5C # ''n'' else if n = 13 then CHR 0x5C # ''r'' else if n = 9 then CHR 0x5C # ''t''
     else if n = 8 then CHR 0x5C # ''b'' else if n = 12 then CHR 0x5C # ''f''
     else if 32 \<le> n \<and> n \<le> 126 then [c]
     else CHR 0x5C # ''u00'' @ [hex_digit (n div 16), hex_digit (n mod 16)])"

text \<open>\<open>json.dumps\<close> of a list of strings.\<close>

definition json_dumps_strs :: "str list \<Rightarrow> str" where
  "json_dumps_strs xs = ''['' @ py_join '', '' (map (\<lambda>s. CHR 0x22 # concat (map json_escape s) @ [CHR 0x22]) xs) @ '']''"

definition index_row :: "fact \<Rightarrow> fts_row" where
  "index_row f = \<lparr>x_content = f_content f, x_category = f_category f,
     x_tags = filter (\<lambda>c. c \<notin> {CHR ''['', CHR '']'', CHR 0x22}) (json_dumps_strs (f_tags f))\<rparr>"

text \<open>\<open>facts_ai\<close> after an insert, \<open>facts_au\<close> after an update of the row with the id of \<open>f\<close>.\<close>

definition facts_ai :: "fact \<Rightarrow> fts_index \<Rightarrow> fts_index" where
  "facts_ai f ix = (if f_active f then ix(f_id f \<mapsto> index_row f) else ix)"

definition facts_au :: "fact \<Rightarrow> fts_index \<Rightarrow> fts_index" where
  "facts_au f ix = (if f_active f then (ix(f_id f := None))(f_id f \<mapsto> index_row f) else ix(f_id f := None))"

text \<open>SQLite's \<open>length\<close> stops at the first NUL; the \<open>CHECK\<close> constraints of the table \<open>facts\<close>.\<close>

definition sql_length :: "str \<Rightarrow> nat" where
  "sql_length s = length (takeWhile (\<lambda>c. c \<noteq> CHR 0x00) s)"

definition fact_checks :: "fact \<Rightarrow> bool" where
  "fact_checks f = (0 < sql_length (f_content f) \<and> sql_length (f_content f) \<le> 8192 \<and> 0 \<le> f_confidence f \<and> f_confidence f \<le> 1)"

definition insert_row :: "fact \<Rightarrow> mem_db \<Rightarrow> mem_db option" where
  "insert_row f db = (if fact_checks f then Some (db\<lparr>facts := facts db @ [f], facts_fts := facts_ai f (facts_fts db)\<rparr>) else None)"

definition update_row :: "fact \<Rightarrow> mem_db \<Rightarrow> mem_db option" where
  "update_row f db = (if fact_checks f
     then Some (db\<lparr>facts := update_where (\<lambda>r. f_id r = f_id f) (\<lambda>_. f) (facts db), facts_fts := facts_au f (facts_fts db)\<rparr>)
     else None)"

section \<open>Facts\<close>

text \<open>The raw value of \<open>max_active\<close> that does not convert to a positive integer disables the ceiling.\<close>

definition max_active_facts :: "pyval \<Rightarrow> mem_error + int option" where
  "max_active_facts cfg =
     (case mem_section cfg ''facts'' of None \<Rightarrow> Inl MemConversion
      | Some fs \<Rightarrow> Inr (case py_to_int (dget fs ''max_active'' PNone) of
            Some n \<Rightarrow> if n < 1 then None else Some n | None \<Rightarrow> None))"

definition count_active_facts :: "mem_db \<Rightarrow> nat" where
  "count_active_facts db = rowcount f_active (facts db)"

definition row_to_fact :: "fact \<Rightarrow> fact" where
  "row_to_fact r = r\<lparr>f_category := (if f_category r = [] then ''general'' else f_category r),
     f_source := (if f_source r = [] then ''human'' else f_source r)\<rparr>"

definition fact_row :: "int \<Rightarrow> mem_db \<Rightarrow> fact option" where
  "fact_row i db = find (\<lambda>r. f_id r = i) (facts db)"

definition get_fact :: "int \<Rightarrow> mem_db \<Rightarrow> fact option" where
  "get_fact i db = map_option row_to_fact (fact_row i db)"

definition list_facts :: "bool \<Rightarrow> int \<Rightarrow> int \<Rightarrow> mem_db \<Rightarrow> fact list" where
  "list_facts active_only n offset db =
     map row_to_fact (sql_page f_id n offset (if active_only then filter f_active (facts db) else facts db))"

definition clamp :: "rat \<Rightarrow> rat" where
  "clamp c = max 0 (min 1 c)"

definition check_active_limit :: "pyval \<Rightarrow> mem_db \<Rightarrow> mem_error + unit" where
  "check_active_limit cfg db = ebind (max_active_facts cfg) (\<lambda>limit. case limit of
       Some n \<Rightarrow> ensure (int (count_active_facts db) < n) (MemValueError (''active fact limit reached ('' @ int_str n @ '')''))
     | None \<Rightarrow> Inr ())"

definition not_found :: "str \<Rightarrow> int \<Rightarrow> mem_error" where
  "not_found what i = MemValueError (what @ '' '' @ int_str i @ '' not found'')"

definition new_row :: "mem_env \<Rightarrow> str \<Rightarrow> str \<Rightarrow> str list \<Rightarrow> rat \<Rightarrow> str \<Rightarrow> str \<Rightarrow> str \<Rightarrow> mem_db \<Rightarrow> fact" where
  "new_row E content category tags confidence source reason now db =
     \<lparr>f_id = next_id f_id (facts db), f_content = content,
      f_category = take 64 (if category = [] then ''general'' else category), f_tags = tags,
      f_confidence = clamp confidence, f_source = (if source = [] then ''human'' else source), f_active = True,
      f_created_at = now, f_updated_at = now, f_applied_reason = reason,
      f_content_sha256 = me_sha256 E (utf8 content)\<rparr>"

definition insert_fact_conn :: "mem_env \<Rightarrow> pyval \<Rightarrow> str \<Rightarrow> str \<Rightarrow> pyval list \<Rightarrow> rat \<Rightarrow> str \<Rightarrow> str \<Rightarrow> str \<Rightarrow> mem_db
    \<Rightarrow> mem_error + fact \<times> mem_db" where
  "insert_fact_conn E cfg content category tags confidence source reason now db =
     ebind (check_content_size cfg content) (\<lambda>_.
     ebind (check_tags (me_str E) tags) (\<lambda>cleaned.
     ebind (check_active_limit cfg db) (\<lambda>_.
       let f = new_row E content category cleaned confidence source reason now db in
       map_sum id (Pair (row_to_fact f)) (of_option MemIntegrityError (insert_row f db)))))"

text \<open>The row after an update; \<open>existing\<close> is the fact read before.\<close>

definition updated_row :: "mem_env \<Rightarrow> fact \<Rightarrow> str \<Rightarrow> str option \<Rightarrow> str list \<Rightarrow> rat option \<Rightarrow> str \<Rightarrow> str \<Rightarrow> fact" where
  "updated_row E row content category tags confidence reason now =
     (let existing = row_to_fact row in
      row\<lparr>f_content := content,
          f_category := take 64 (case category of Some c \<Rightarrow> c | None \<Rightarrow> f_category existing),
          f_tags := tags,
          f_confidence := (case confidence of Some c \<Rightarrow> clamp c | None \<Rightarrow> f_confidence existing),
          f_updated_at := now, f_applied_reason := (if reason = [] then f_applied_reason existing else reason),
          f_content_sha256 := me_sha256 E (utf8 content), f_active := True\<rparr>)"

definition update_fact_conn :: "mem_env \<Rightarrow> pyval \<Rightarrow> int \<Rightarrow> str option \<Rightarrow> str option \<Rightarrow> pyval list option \<Rightarrow> rat option \<Rightarrow> str \<Rightarrow> str
    \<Rightarrow> mem_db \<Rightarrow> mem_error + fact \<times> mem_db" where
  "update_fact_conn E cfg fact_id content category tags confidence reason now db =
     ebind (of_option (not_found ''fact'' fact_id) (fact_row fact_id db)) (\<lambda>row.
       let new_content = (case content of Some c \<Rightarrow> c | None \<Rightarrow> f_content row) in
     ebind (check_content_size cfg new_content) (\<lambda>_.
     ebind (case tags of Some ts \<Rightarrow> check_tags (me_str E) ts | None \<Rightarrow> Inr (f_tags row)) (\<lambda>new_tags.
       let f = updated_row E row new_content category new_tags confidence reason now in
       map_sum id (Pair (row_to_fact f)) (of_option MemIntegrityError (update_row f db)))))"

definition deactivated_row :: "fact \<Rightarrow> str \<Rightarrow> str \<Rightarrow> fact" where
  "deactivated_row row reason now =
     row\<lparr>f_active := False, f_updated_at := now, f_applied_reason := (if reason = [] then f_applied_reason row else reason)\<rparr>"

definition deactivate_fact_conn :: "int \<Rightarrow> str \<Rightarrow> str \<Rightarrow> mem_db \<Rightarrow> mem_error + fact \<times> mem_db" where
  "deactivate_fact_conn fact_id reason now db =
     ebind (of_option (not_found ''fact'' fact_id) (fact_row fact_id db)) (\<lambda>row.
       let f = deactivated_row row reason now in
       map_sum id (Pair (row_to_fact f)) (of_option MemIntegrityError (update_row f db)))"

text \<open>Commit or roll back.\<close>

definition transact :: "mem_db \<Rightarrow> mem_error + 'a \<times> mem_db \<Rightarrow> 'a mem_result" where
  "transact db r = (case r of Inl e \<Rightarrow> (Inl e, db) | Inr (x, db') \<Rightarrow> (Inr x, db'))"

definition insert_fact :: "mem_env \<Rightarrow> pyval \<Rightarrow> str \<Rightarrow> str \<Rightarrow> pyval list \<Rightarrow> rat \<Rightarrow> str \<Rightarrow> str \<Rightarrow> str \<Rightarrow> mem_db \<Rightarrow> fact mem_result" where
  "insert_fact E cfg content category tags confidence source reason now db =
     transact db (insert_fact_conn E cfg content category tags confidence source reason now db)"

definition update_fact :: "mem_env \<Rightarrow> pyval \<Rightarrow> int \<Rightarrow> str option \<Rightarrow> str option \<Rightarrow> pyval list option \<Rightarrow> rat option \<Rightarrow> str \<Rightarrow> str
    \<Rightarrow> mem_db \<Rightarrow> fact mem_result" where
  "update_fact E cfg fact_id content category tags confidence reason now db =
     transact db (update_fact_conn E cfg fact_id content category tags confidence reason now db)"

definition deactivate_fact :: "int \<Rightarrow> str \<Rightarrow> str \<Rightarrow> mem_db \<Rightarrow> fact mem_result" where
  "deactivate_fact fact_id reason now db = transact db (deactivate_fact_conn fact_id reason now db)"

section \<open>Proposals\<close>

fun parse_action :: "str \<Rightarrow> proposal_action option" where
  "parse_action a = (if a = ''add_fact'' then Some AddFact else if a = ''update_fact'' then Some UpdateFact
     else if a = ''deactivate_fact'' then Some DeactivateFact else None)"

fun status_str :: "proposal_status \<Rightarrow> str" where
  "status_str Pending = ''pending''"
| "status_str Applied = ''applied''"
| "status_str Rejected = ''rejected''"

text \<open>\<open>str(payload.get(key) or default)\<close>\<close>

definition payload_str :: "mem_env \<Rightarrow> (str, pyval) dict \<Rightarrow> str \<Rightarrow> str \<Rightarrow> str" where
  "payload_str E payload key d = (let v = dget payload key PNone in if py_truthy v then to_str (me_str E) v else d)"

text \<open>\<open>float(v)\<close>\<close>

definition to_float :: "mem_env \<Rightarrow> pyval \<Rightarrow> rat option" where
  "to_float E v = (case v of PStr s \<Rightarrow> me_float E s | _ \<Rightarrow> py_num v)"

definition create_proposal :: "mem_env \<Rightarrow> pyval \<Rightarrow> str \<Rightarrow> (str, pyval) dict \<Rightarrow> str \<Rightarrow> str \<Rightarrow> mem_db \<Rightarrow> proposal mem_result" where
  "create_proposal E cfg action payload reason now db = transact db
     (ebind (require_reason reason) (\<lambda>_.
      ebind (of_option (MemValueError (''invalid action: '' @ action)) (parse_action action)) (\<lambda>a.
        let content = payload_str E payload ''content'' [] in
      ebind (if content = [] then Inr [] else of_option MemConversion (scan_content (me_lib E) False cfg content)) (\<lambda>flags.
        let p = \<lparr>mp_id = next_id mp_id (memory_proposals db), mp_action = a, mp_payload = payload, mp_reason = py_strip reason,
                 mp_status = Pending, mp_injection_flags = flags, mp_created_at = now, mp_resolved_at = None,
                 mp_resolved_reason = None\<rparr> in
        Inr (p, db\<lparr>memory_proposals := memory_proposals db @ [p]\<rparr>)))))"

definition get_proposal :: "int \<Rightarrow> mem_db \<Rightarrow> proposal option" where
  "get_proposal i db = find (\<lambda>p. mp_id p = i) (memory_proposals db)"

definition list_proposals :: "proposal_status option \<Rightarrow> int \<Rightarrow> mem_db \<Rightarrow> proposal list" where
  "list_proposals status n db =
     sql_page mp_id n 0 (case status of None \<Rightarrow> memory_proposals db | Some st \<Rightarrow> filter (\<lambda>p. mp_status p = st) (memory_proposals db))"

text \<open>The effect of one proposal on the facts, by its action.\<close>

definition apply_add :: "mem_env \<Rightarrow> pyval \<Rightarrow> (str, pyval) dict \<Rightarrow> str \<Rightarrow> str \<Rightarrow> mem_db \<Rightarrow> mem_error + fact \<times> mem_db" where
  "apply_add E cfg payload reason now db =
     (let content = payload_str E payload ''content'' [] in
      ebind (check_content_size cfg content) (\<lambda>_.
      ebind (enforce_content (me_lib E) cfg content) (\<lambda>_.
      ebind (of_option MemConversion (let t = dget payload ''tags'' PNone in py_iter (if py_truthy t then t else PList []))) (\<lambda>tags.
      ebind (of_option MemConversion (to_float E (dget payload ''confidence'' (PFloat 1)))) (\<lambda>conf.
        insert_fact_conn E cfg content (payload_str E payload ''category'' ''general'') tags conf
          (payload_str E payload ''source'' ''human'') reason now db)))))"

text \<open>\<open>int(payload.get("fact_id") or 0)\<close>, which has to be positive.\<close>

definition payload_fact_id :: "(str, pyval) dict \<Rightarrow> str \<Rightarrow> mem_error + int" where
  "payload_fact_id payload action =
     (let v = dget payload ''fact_id'' PNone in
      ebind (of_option MemConversion (py_to_int (if py_truthy v then v else PInt 0))) (\<lambda>i.
        if i < 1 then Inl (MemValueError (action @ '' requires fact_id'')) else Inr i))"

definition apply_update :: "mem_env \<Rightarrow> pyval \<Rightarrow> (str, pyval) dict \<Rightarrow> str \<Rightarrow> str \<Rightarrow> mem_db \<Rightarrow> mem_error + fact \<times> mem_db" where
  "apply_update E cfg payload reason now db =
     ebind (payload_fact_id payload ''update_fact'') (\<lambda>fact_id.
       let v = dget payload ''content'' PNone;
           content = (if v = PNone then None else Some (to_str (me_str E) v)) in
     ebind (case content of None \<Rightarrow> Inr ()
            | Some c \<Rightarrow> ebind (check_content_size cfg c) (\<lambda>_. enforce_content (me_lib E) cfg c)) (\<lambda>_.
     ebind (case map_of payload ''tags'' of None \<Rightarrow> Inr None
            | Some t \<Rightarrow> map_sum id Some (of_option MemConversion (py_iter t))) (\<lambda>tags.
     ebind (case map_of payload ''confidence'' of None \<Rightarrow> Inr None
            | Some c \<Rightarrow> map_sum id Some (of_option MemConversion (to_float E c))) (\<lambda>conf.
       update_fact_conn E cfg fact_id content (map_option (to_str (me_str E)) (map_of payload ''category'')) tags conf reason now db))))"

definition apply_deactivate :: "(str, pyval) dict \<Rightarrow> str \<Rightarrow> str \<Rightarrow> mem_db \<Rightarrow> mem_error + fact \<times> mem_db" where
  "apply_deactivate payload reason now db =
     ebind (payload_fact_id payload ''deactivate_fact'') (\<lambda>fact_id. deactivate_fact_conn fact_id reason now db)"

definition apply_action :: "mem_env \<Rightarrow> pyval \<Rightarrow> proposal \<Rightarrow> str \<Rightarrow> str \<Rightarrow> mem_db \<Rightarrow> mem_error + fact \<times> mem_db" where
  "apply_action E cfg p reason now db =
     (case mp_action p of
        AddFact \<Rightarrow> apply_add E cfg (mp_payload p) reason now db
      | UpdateFact \<Rightarrow> apply_update E cfg (mp_payload p) reason now db
      | DeactivateFact \<Rightarrow> apply_deactivate (mp_payload p) reason now db)"

text \<open>\<open>UPDATE memory_proposals SET status ... WHERE id=? AND status='pending'\<close> with its row count.\<close>

definition resolve :: "int \<Rightarrow> proposal_status \<Rightarrow> str \<Rightarrow> str \<Rightarrow> mem_db \<Rightarrow> nat \<times> mem_db" where
  "resolve i st reason now db =
     (let P = (\<lambda>p. mp_id p = i \<and> mp_status p = Pending) in
      (rowcount P (memory_proposals db),
       db\<lparr>memory_proposals := update_where P
            (\<lambda>p. p\<lparr>mp_status := st, mp_resolved_at := Some now, mp_resolved_reason := Some reason\<rparr>) (memory_proposals db)\<rparr>))"

definition not_pending :: "int \<Rightarrow> str \<Rightarrow> mem_error" where
  "not_pending i why = MemValueError (''proposal '' @ int_str i @ '' is not pending (status'' @ why @ '')'')"

definition apply_proposal :: "mem_env \<Rightarrow> pyval \<Rightarrow> int \<Rightarrow> str \<Rightarrow> str \<Rightarrow> str \<Rightarrow> mem_db \<Rightarrow> (proposal_action \<times> int) mem_result" where
  "apply_proposal E cfg i reason now resolved db = transact db
     (ebind (require_reason reason) (\<lambda>_.
      ebind (of_option (not_found ''proposal'' i) (get_proposal i db)) (\<lambda>p.
        if mp_status p \<noteq> Pending then Inl (not_pending i (''='' @ status_str (mp_status p)))
        else ebind (apply_action E cfg p (py_strip reason) now db) (\<lambda>(f, db').
          case resolve i Applied (py_strip reason) resolved db' of (n, db'') \<Rightarrow>
            if n \<noteq> 1 then Inl (not_pending i '' changed'') else Inr ((mp_action p, f_id f), db'')))))"

definition reject_proposal :: "int \<Rightarrow> str \<Rightarrow> str \<Rightarrow> mem_db \<Rightarrow> proposal mem_result" where
  "reject_proposal i reason now db = transact db
     (ebind (require_reason reason) (\<lambda>_.
       case resolve i Rejected (py_strip reason) now db of (n, db') \<Rightarrow>
         if n \<noteq> 1 then
           (case get_proposal i db of None \<Rightarrow> Inl (not_found ''proposal'' i)
            | Some p \<Rightarrow> Inl (not_pending i (''='' @ status_str (mp_status p))))
         else ebind (of_option (not_found ''proposal'' i) (get_proposal i db')) (\<lambda>p. Inr (p, db'))))"

section \<open>Search\<close>

function re_words :: "str \<Rightarrow> str list" where
  "re_words [] = []"
| "re_words (c # cs) = (if re_word_char c then (c # takeWhile re_word_char cs) # re_words (dropWhile re_word_char cs) else re_words cs)"
  by pat_completeness auto

termination
  by (relation "measure length") (auto simp: le_imp_less_Suc length_dropWhile_le)

definition match_expr :: "str \<Rightarrow> str" where
  "match_expr q = py_join '' OR '' (map (\<lambda>t. CHR 0x22 # t @ [CHR 0x22]) (re_words q))"

text \<open>The join of the matching index rows with the active facts.\<close>

definition join_active :: "fact list \<Rightarrow> (int \<times> rat) list \<Rightarrow> (int \<times> str \<times> rat) list" where
  "join_active fs ms = List.map_filter (\<lambda>(i, rank). map_option (\<lambda>f. (i, f_content f, rank)) (find (\<lambda>f. f_id f = i \<and> f_active f) fs)) ms"

definition search_facts_fts :: "mem_env \<Rightarrow> str \<Rightarrow> int \<Rightarrow> mem_db \<Rightarrow> (int \<times> str \<times> rat) list" where
  "search_facts_fts E query n db =
     (let q = py_strip query; expr = match_expr q in
      if q = [] \<or> expr = [] then []
      else case me_match E expr (facts_fts db) of None \<Rightarrow> []
        | Some ms \<Rightarrow> let rows = join_active (facts db) ms in if n < 0 then rows else take (nat n) rows)"

section \<open>Episodes\<close>

record episode_input =
  ei_query :: str
  ei_answer :: str
  ei_answer_model :: str
  ei_top_score :: "rat option"
  ei_retrieval_mode :: "str option"
  ei_hits :: nat
  ei_source_tag :: str

text \<open>\<open>text[:n]\<close>, with a negative bound counted from the end.\<close>

definition slice_to :: "int \<Rightarrow> 'a list \<Rightarrow> 'a list" where
  "slice_to n xs = take (nat (if n < 0 then int (length xs) + n else n)) xs"

text \<open>\<open>int(d.get(key, default) or default)\<close>\<close>

definition int_or_default :: "(str, pyval) dict \<Rightarrow> str \<Rightarrow> int \<Rightarrow> int option" where
  "int_or_default d key n = (let v = dget d key (PInt n) in py_to_int (if py_truthy v then v else PInt n))"

definition prune_episodes :: "mem_env \<Rightarrow> pyval \<Rightarrow> seconds \<Rightarrow> mem_db \<Rightarrow> nat mem_result" where
  "prune_episodes E cfg now db =
     (case mem_section cfg ''episodes'' of None \<Rightarrow> (Inl MemConversion, db)
      | Some ep \<Rightarrow>
     (case int_or_default ep ''ttl_days'' 365 of None \<Rightarrow> (Inl MemConversion, db)
      | Some ttl \<Rightarrow>
          if ttl \<le> 0 then (Inr 0, db)
          else (case me_iso E (now - of_int ttl * 86400) of None \<Rightarrow> (Inl MemConversion, db)
             | Some cutoff \<Rightarrow>
                 (Inr (rowcount (\<lambda>e. str_less (ep_created_at e) cutoff) (episodes db)),
                  db\<lparr>episodes := filter (\<lambda>e. \<not> str_less (ep_created_at e) cutoff) (episodes db)\<rparr>))))"

text \<open>The two switches of \<open>stage_episode\<close> and its settings; \<open>None\<close> when it returns without writing.\<close>

definition episode_settings :: "pyval \<Rightarrow> mem_error + (str, pyval) dict option" where
  "episode_settings cfg =
     ebind (of_option MemConversion (py_get cfg ''memory'')) (\<lambda>m.
     ebind (of_option MemConversion (py_get (or_empty m) ''enabled'')) (\<lambda>en.
       if \<not> is_literal_true en then Inr None
       else ebind (of_option MemConversion (mem_section cfg ''episodes'')) (\<lambda>ep.
         Inr (if is_literal_true (dget ep ''enabled'' PNone) then Some ep else None))))"

definition stage_episode :: "mem_env \<Rightarrow> pyval \<Rightarrow> episode_input \<Rightarrow> seconds \<Rightarrow> str \<Rightarrow> mem_db \<Rightarrow> unit mem_result" where
  "stage_episode E cfg s now stamp db =
     (case episode_settings cfg of Inl e \<Rightarrow> (Inl e, db)
      | Inr None \<Rightarrow> (Inr (), db)
      | Inr (Some ep) \<Rightarrow>
     (case py_to_int (dget ep ''max_answer_summary_chars'' (PInt 2000)) of None \<Rightarrow> (Inl MemConversion, db)
      | Some max_sum \<Rightarrow>
          let e = \<lparr>ep_id = next_id ep_id (episodes db), ep_query_hash = me_sha256 E (utf8 (ei_query s)),
                   ep_answer_summary = (if ei_answer s = [] then [] else slice_to max_sum (me_redact E cfg (ei_answer s))),
                   ep_model_used = ei_answer_model s, ep_top_score = ei_top_score s, ep_retrieval_mode = ei_retrieval_mode s,
                   ep_hit_count = ei_hits s, ep_source_tag = (if ei_source_tag s = [] then ''query'' else ei_source_tag s),
                   ep_created_at = stamp,
                   ep_raw_query = (if is_literal_true (dget ep ''store_raw_query'' PNone) then Some (me_redact E cfg (ei_query s)) else None)\<rparr>;
              db' = db\<lparr>episodes := episodes db @ [e]\<rparr> in
          (case int_or_default ep ''prune_every'' 100 of None \<Rightarrow> (Inl MemConversion, db')
           | Some every \<Rightarrow>
               let db'' = db'\<lparr>episode_counter := episode_counter db' + 1\<rparr> in
               if 0 < every \<and> episode_counter db'' mod every = 0
               then (case prune_episodes E cfg now db'' of (Inl e, d) \<Rightarrow> (Inl e, d) | (Inr _, d) \<Rightarrow> (Inr (), d))
               else (Inr (), db''))))"

definition list_episodes :: "int \<Rightarrow> int \<Rightarrow> mem_db \<Rightarrow> episode list" where
  "list_episodes n offset db = sql_page ep_id n offset (episodes db)"

definition count_episodes :: "mem_db \<Rightarrow> nat" where
  "count_episodes db = length (episodes db)"

end
