(* ===== verification/Memory_Claims.thy ===== *)
theory Memory_Claims
  imports Memory_Store
begin

text \<open>
  What the memory store guarantees over arbitrary sequences of operations, each with its own
  configuration: the full-text index that the triggers maintain is the index of the active
  facts, a proposal is resolved at most once, and a write is checked and atomic.
\<close>

section \<open>Operations as steps\<close>

datatype mem_op =
    OpInsert str str "pyval list" rat str str str
  | OpUpdate int "str option" "str option" "pyval list option" "rat option" str str
  | OpDeactivate int str str
  | OpPropose str "(str, pyval) dict" str str
  | OpApply int str str str
  | OpReject int str str
  | OpStage episode_input seconds str
  | OpPrune seconds

fun mem_step :: "mem_env \<Rightarrow> pyval \<times> mem_op \<Rightarrow> mem_db \<Rightarrow> mem_db" where
  "mem_step E (cfg, OpInsert c cat ts conf src r now) db = snd (insert_fact E cfg c cat ts conf src r now db)"
| "mem_step E (cfg, OpUpdate i c cat ts conf r now) db = snd (update_fact E cfg i c cat ts conf r now db)"
| "mem_step E (cfg, OpDeactivate i r now) db = snd (deactivate_fact i r now db)"
| "mem_step E (cfg, OpPropose a p r now) db = snd (create_proposal E cfg a p r now db)"
| "mem_step E (cfg, OpApply i r now done) db = snd (apply_proposal E cfg i r now done db)"
| "mem_step E (cfg, OpReject i r now) db = snd (reject_proposal i r now db)"
| "mem_step E (cfg, OpStage s t now) db = snd (stage_episode E cfg s t now db)"
| "mem_step E (cfg, OpPrune t) db = snd (prune_episodes E cfg t db)"

definition empty_mem :: mem_db where
  "empty_mem = \<lparr>facts = [], facts_fts = Map.empty, episodes = [], memory_proposals = [], episode_counter = 0\<rparr>"

lemma transact_Inr_iff [simp]: "transact db r = (Inr x, db') \<longleftrightarrow> r = Inr (x, db')"
  by (cases r) (auto simp: transact_def)

lemma transact_Inl_iff [simp]: "transact db r = (Inl e, db') \<longleftrightarrow> r = Inl e \<and> db' = db"
  by (cases r) (auto simp: transact_def)

lemma transact_cases:
  obtains e where "r = Inl e" "snd (transact db r) = db" | x db' where "r = Inr (x, db')" "snd (transact db r) = db'"
  by (cases r) (auto simp: transact_def)

lemma transact_inv:
  assumes "P db" and "\<And>x db'. r = Inr (x, db') \<Longrightarrow> P db'"
  shows "P (snd (transact db r))"
  using assms by (metis transact_cases)

section \<open>The index of the active facts\<close>

definition live_index :: "fact list \<Rightarrow> fts_index" where
  "live_index fs = (\<lambda>i. map_option index_row (find (\<lambda>f. f_id f = i \<and> f_active f) fs))"

definition index_ok :: "mem_db \<Rightarrow> bool" where
  "index_ok db = (distinct (map f_id (facts db)) \<and> facts_fts db = live_index (facts db))"

lemma find_none_id: "f_id f \<notin> f_id ` set fs \<Longrightarrow> find (\<lambda>r. f_id r = f_id f \<and> P r) fs = None"
  by (force simp: find_None_iff)

lemma live_index_insert:
  assumes "f_id f \<notin> f_id ` set fs"
  shows "live_index (fs @ [f]) = facts_ai f (live_index fs)"
  using find_none_id [OF assms, of f_active]
  by (auto simp: live_index_def facts_ai_def find_append fun_eq_iff split: option.split)

lemma live_index_update:
  assumes "f_id f \<in> f_id ` set fs" and "distinct (map f_id fs)"
  shows "live_index (update_where (\<lambda>r. f_id r = f_id f) (\<lambda>_. f) fs) = facts_au f (live_index fs)"
proof -
  have other: "find (\<lambda>r. f_id r = i \<and> f_active r) (update_where (\<lambda>r. f_id r = f_id f) (\<lambda>_. f) fs) =
      find (\<lambda>r. f_id r = i \<and> f_active r) fs" if "i \<noteq> f_id f" for i
    using that by (induction fs) (auto simp: update_where_def)
  have same: "find (\<lambda>r. f_id r = f_id f \<and> f_active r) (update_where (\<lambda>r. f_id r = f_id f) (\<lambda>_. f) fs) =
      (if f_active f then Some f else None)"
    using assms(1) by (induction fs) (auto simp: update_where_def find_None_iff)
  show ?thesis
    using other same by (auto simp: live_index_def facts_au_def fun_eq_iff)
qed

lemma fact_row_mem: "fact_row i db = Some r \<Longrightarrow> r \<in> set (facts db) \<and> f_id r = i"
  by (auto simp: fact_row_def find_Some_iff)

lemmas fact_row_id = fact_row_mem [THEN conjunct2]

lemma insert_row_ok:
  assumes "index_ok db" and "f_id f = next_id f_id (facts db)" and "insert_row f db = Some db'"
  shows "index_ok db'"
proof -
  have fresh: "f_id f \<notin> f_id ` set (facts db)" using next_id_fresh [of _ "facts db" f_id] assms(2) by force
  then show ?thesis
    using assms live_index_insert [OF fresh] by (auto simp: index_ok_def insert_row_def split: if_splits)
qed

lemma update_row_ok:
  assumes "index_ok db" and "fact_row (f_id f) db \<noteq> None" and "update_row f db = Some db'"
  shows "index_ok db'"
proof -
  have mem: "f_id f \<in> f_id ` set (facts db)" using assms(2) fact_row_mem by (metis image_eqI option.exhaust)
  moreover have "map f_id (update_where (\<lambda>r. f_id r = f_id f) (\<lambda>_. f) (facts db)) = map f_id (facts db)"
    by (simp add: update_where_def)
  ultimately show ?thesis
    using assms(1,3) live_index_update [OF mem] by (simp add: index_ok_def update_row_def split: if_splits) force
qed

lemma map_sum_Inr_iff: "map_sum id g r = Inr y \<longleftrightarrow> (\<exists>x. r = Inr x \<and> y = g x)"
  by (cases r) auto

lemma row_fields [simp]:
  "f_id (new_row E c cat ts conf src r now db) = next_id f_id (facts db)" "f_active (new_row E c cat ts conf src r now db)"
  "f_content (new_row E c cat ts conf src r now db) = c" "f_tags (new_row E c cat ts conf src r now db) = ts"
  "f_id (updated_row E row c cat' ts conf' r now) = f_id row" "f_active (updated_row E row c cat' ts conf' r now)"
  "f_content (updated_row E row c cat' ts conf' r now) = c"
  "f_id (deactivated_row row r now) = f_id row" "\<not> f_active (deactivated_row row r now)"
  "f_id (row_to_fact row) = f_id row" "f_content (row_to_fact row) = f_content row" "f_active (row_to_fact row) = f_active row"
  by (simp_all add: new_row_def updated_row_def deactivated_row_def row_to_fact_def Let_def)

lemma insert_conn_iff:
  "insert_fact_conn E cfg c cat ts conf src r now db = Inr (f, db') \<longleftrightarrow>
   (\<exists>cleaned. check_content_size cfg c = Inr () \<and> check_tags (me_str E) ts = Inr cleaned \<and> check_active_limit cfg db = Inr () \<and>
      f = row_to_fact (new_row E c cat cleaned conf src r now db) \<and> insert_row (new_row E c cat cleaned conf src r now db) db = Some db')"
  by (auto simp: insert_fact_conn_def ebind_Inr_iff map_sum_Inr_iff Let_def)

lemma update_conn_elim:
  assumes "update_fact_conn E cfg i c cat ts conf r now db = Inr (f, db')"
  obtains row c' ts' where "fact_row i db = Some row" "c' = (case c of Some x \<Rightarrow> x | None \<Rightarrow> f_content row)"
    "check_content_size cfg c' = Inr ()" "f = row_to_fact (updated_row E row c' cat ts' conf r now)"
    "update_row (updated_row E row c' cat ts' conf r now) db = Some db'"
  using assms by (simp add: update_fact_conn_def ebind_Inr_iff map_sum_Inr_iff Let_def) blast

lemma deactivate_conn_elim:
  assumes "deactivate_fact_conn i r now db = Inr (f, db')"
  obtains row where "fact_row i db = Some row" "f = row_to_fact (deactivated_row row r now)"
    "update_row (deactivated_row row r now) db = Some db'"
  using assms by (simp add: deactivate_fact_conn_def ebind_Inr_iff map_sum_Inr_iff Let_def) blast

lemma insert_conn_ok:
  assumes "index_ok db" and "insert_fact_conn E cfg c cat ts conf src r now db = Inr (f, db')"
  shows "index_ok db'"
  using assms insert_row_ok [of db _ db'] unfolding insert_conn_iff by (metis row_fields(1))

lemma update_conn_ok:
  assumes "index_ok db" and "update_fact_conn E cfg i c cat ts conf r now db = Inr (f, db')"
  shows "index_ok db'"
proof -
  from assms(2) obtain row c' ts' where row: "fact_row i db = Some row"
    and up: "update_row (updated_row E row c' cat ts' conf r now) db = Some db'"
    by (rule update_conn_elim)
  show ?thesis by (rule update_row_ok [OF assms(1) _ up]) (simp add: fact_row_id [OF row] row)
qed

lemma deactivate_conn_ok:
  assumes "index_ok db" and "deactivate_fact_conn i r now db = Inr (f, db')"
  shows "index_ok db'"
proof -
  from assms(2) obtain row where row: "fact_row i db = Some row" and up: "update_row (deactivated_row row r now) db = Some db'"
    by (rule deactivate_conn_elim)
  show ?thesis by (rule update_row_ok [OF assms(1) _ up]) (simp add: fact_row_id [OF row] row)
qed

lemma apply_add_iff:
  "apply_add E cfg payload r now db = Inr (f, db') \<longleftrightarrow>
   (\<exists>tags conf. let c = payload_str E payload ''content'' [] in check_content_size cfg c = Inr () \<and> enforce_content (me_lib E) cfg c = Inr () \<and>
      insert_fact_conn E cfg c (payload_str E payload ''category'' ''general'') tags conf (payload_str E payload ''source'' ''human'') r now db = Inr (f, db') \<and>
      py_iter (let t = dget payload ''tags'' PNone in if py_truthy t then t else PList []) = Some tags \<and>
      to_float E (dget payload ''confidence'' (PFloat 1)) = Some conf)"
  by (simp add: apply_add_def ebind_Inr_iff Let_def) blast

lemma apply_update_elim:
  assumes "apply_update E cfg payload r now db = Inr (f, db')"
  obtains i c cat ts conf where "update_fact_conn E cfg i c cat ts conf r now db = Inr (f, db')"
    "\<forall>x. c = Some x \<longrightarrow> check_content_size cfg x = Inr () \<and> enforce_content (me_lib E) cfg x = Inr ()"
  using assms by (simp add: apply_update_def ebind_Inr_iff Let_def split: if_splits) blast+

lemma apply_action_ok:
  assumes "index_ok db" and "apply_action E cfg p r now db = Inr (f, db')"
  shows "index_ok db'"
proof (cases "mp_action p")
  case AddFact
  then show ?thesis using assms insert_conn_ok by (auto simp: apply_action_def apply_add_iff Let_def)
next
  case UpdateFact
  then have "apply_update E cfg (mp_payload p) r now db = Inr (f, db')" using assms(2) by (simp add: apply_action_def)
  then show ?thesis using apply_update_elim update_conn_ok [OF assms(1)] by metis
next
  case DeactivateFact
  then show ?thesis using assms deactivate_conn_ok [OF assms(1)]
    by (auto simp: apply_action_def apply_deactivate_def ebind_Inr_iff)
qed

lemma facts_frame: "facts db' = facts db \<Longrightarrow> facts_fts db' = facts_fts db \<Longrightarrow> index_ok db' = index_ok db"
  by (simp add: index_ok_def)

lemma prune_frame: "facts (snd (prune_episodes E cfg t db)) = facts db"
  "facts_fts (snd (prune_episodes E cfg t db)) = facts_fts db"
  "memory_proposals (snd (prune_episodes E cfg t db)) = memory_proposals db"
  by (simp_all add: prune_episodes_def split: option.split)

lemma discard_result: "snd (case x of (Inl e, d) \<Rightarrow> (Inl e, d) | (Inr _, d) \<Rightarrow> (Inr (), d)) = snd x"
  by (cases x; cases "fst x") auto

lemma stage_frame: "facts (snd (stage_episode E cfg s t now db)) = facts db"
  "facts_fts (snd (stage_episode E cfg s t now db)) = facts_fts db"
  "memory_proposals (snd (stage_episode E cfg s t now db)) = memory_proposals db"
  by (simp_all add: stage_episode_def Let_def discard_result prune_frame if_distrib [of snd] split: option.split sum.split if_split)

lemma resolve_frame [simp]: "facts (snd (resolve i st r now db)) = facts db" "facts_fts (snd (resolve i st r now db)) = facts_fts db"
  by (simp_all add: resolve_def Let_def)

lemma resolved_once: "(case x of (n, d) \<Rightarrow> if n \<noteq> 1 then Inl e else Inr (y, d)) = Inr (z, d') \<longleftrightarrow> x = (1, d') \<and> z = y"
  by (cases x) auto

lemma apply_proposal_iff:
  "apply_proposal E cfg i r now done db = (Inr res, db') \<longleftrightarrow>
   (\<exists>p f db1. require_reason r = Inr () \<and> get_proposal i db = Some p \<and> mp_status p = Pending \<and>
      apply_action E cfg p (py_strip r) now db = Inr (f, db1) \<and> resolve i Applied (py_strip r) done db1 = (1, db') \<and>
      res = (mp_action p, f_id f))"
  unfolding apply_proposal_def transact_Inr_iff ebind_Inr_iff
  by (auto simp: ebind_Inr_iff resolved_once simp del: One_nat_def split: if_splits)

lemma apply_proposal_fail: "apply_proposal E cfg i r now done db = (Inl e, db') \<Longrightarrow> db' = db"
  by (simp add: apply_proposal_def)

lemma apply_proposal_index: "index_ok db \<Longrightarrow> index_ok (snd (apply_proposal E cfg i r now done db))"
proof (cases "fst (apply_proposal E cfg i r now done db)")
  case (Inl e)
  assume "index_ok db"
  with Inl show ?thesis using apply_proposal_fail [of E cfg i r now "done" db e] by (metis prod.collapse)
next
  case (Inr res)
  assume ok: "index_ok db"
  obtain p f db1 db' where "apply_action E cfg p (py_strip r) now db = Inr (f, db1)" "resolve i Applied (py_strip r) done db1 = (1, db')"
    "snd (apply_proposal E cfg i r now done db) = db'"
    using Inr apply_proposal_iff [of E cfg i r now "done" db res] by (metis prod.collapse)
  then show ?thesis using apply_action_ok [OF ok] resolve_frame [of i Applied "py_strip r" "done" db1] facts_frame by (metis snd_conv)
qed

lemma create_elim:
  assumes "create_proposal E cfg a p r now db = (Inr x, db')"
  shows "db' = db\<lparr>memory_proposals := memory_proposals db @ [x]\<rparr> \<and> mp_id x = next_id mp_id (memory_proposals db) \<and> mp_status x = Pending"
  using assms unfolding create_proposal_def transact_Inr_iff ebind_Inr_iff Let_def by auto

lemma create_cases:
  obtains e where "create_proposal E cfg a p r now db = (Inl e, db)" | x db' where "create_proposal E cfg a p r now db = (Inr x, db')"
proof (cases "create_proposal E cfg a p r now db")
  case (Pair res db')
  then show ?thesis using that by (cases res) (simp_all add: create_proposal_def)
qed

lemma create_frame: "facts (snd (create_proposal E cfg a p r now db)) = facts db" "facts_fts (snd (create_proposal E cfg a p r now db)) = facts_fts db"
proof -
  have "facts (snd (create_proposal E cfg a p r now db)) = facts db \<and> facts_fts (snd (create_proposal E cfg a p r now db)) = facts_fts db"
  proof (rule create_cases [of E cfg a p r now db])
    fix x db'
    assume h: "create_proposal E cfg a p r now db = (Inr x, db')"
    show ?thesis using create_elim [OF h] h by simp
  qed simp
  then show "facts (snd (create_proposal E cfg a p r now db)) = facts db"
    "facts_fts (snd (create_proposal E cfg a p r now db)) = facts_fts db" by simp_all
qed

lemma rejected_once: "(case x of (n, d) \<Rightarrow> if n \<noteq> 1 then (case g of None \<Rightarrow> Inl e | Some p \<Rightarrow> Inl (h p))
    else ebind (of_option e' (k d)) (\<lambda>p. Inr (p, d))) = Inr (z, d') \<longleftrightarrow> x = (1, d') \<and> k d' = Some z"
  by (cases x) (auto simp: ebind_Inr_iff split: option.splits)

lemma reject_iff:
  "reject_proposal i r now db = (Inr p, db') \<longleftrightarrow> require_reason r = Inr () \<and> resolve i Rejected (py_strip r) now db = (1, db') \<and>
     get_proposal i db' = Some p"
  unfolding reject_proposal_def transact_Inr_iff ebind_Inr_iff rejected_once by simp

lemma reject_cases:
  obtains e where "reject_proposal i r now db = (Inl e, db)" | p db' where "reject_proposal i r now db = (Inr p, db')"
proof (cases "reject_proposal i r now db")
  case (Pair res db')
  then show ?thesis using that(1) that(2) [of _ db'] by (cases res) (simp_all add: reject_proposal_def)
qed

lemma reject_frame: "facts (snd (reject_proposal i r now db)) = facts db" "facts_fts (snd (reject_proposal i r now db)) = facts_fts db"
  by (rule reject_cases [of i r now db], simp,
      simp, use reject_iff resolve_frame [of i Rejected "py_strip r" now db] in \<open>metis snd_conv\<close>)+

interpretation index: stable "mem_step E" index_ok for E
proof
  fix opn :: "pyval \<times> mem_op" and db
  assume ok: "index_ok db"
  obtain cfg act where opn: "opn = (cfg, act)" by force
  show "index_ok (mem_step E opn db)"
  proof (cases act)
    case (OpInsert c cat ts conf src r now)
    then show ?thesis using insert_conn_ok ok by (auto simp: opn insert_fact_def intro: transact_inv)
  next
    case (OpUpdate i c cat ts conf r now)
    then show ?thesis using update_conn_ok ok by (auto simp: opn update_fact_def intro: transact_inv)
  next
    case (OpDeactivate i r now)
    then show ?thesis using deactivate_conn_ok ok by (auto simp: opn deactivate_fact_def intro: transact_inv)
  next
    case OpApply
    then show ?thesis using ok by (simp add: opn apply_proposal_index)
  qed (simp_all add: opn, (rule facts_frame [THEN iffD2, OF _ _ ok], simp_all add: create_frame reject_frame stage_frame prune_frame)+)
qed

text \<open>The specification of the search: no index is kept, the active facts are indexed on demand.\<close>

definition search_spec :: "mem_env \<Rightarrow> str \<Rightarrow> int \<Rightarrow> fact list \<Rightarrow> (int \<times> str \<times> rat) list" where
  "search_spec E query n fs =
     (let expr = match_expr (py_strip query);
          rows = (case me_match E expr (live_index fs) of None \<Rightarrow> [] | Some ms \<Rightarrow> join_active fs ms) in
      if expr = [] then [] else if n < 0 then rows else take (nat n) rows)"

lemma index_ok_empty: "index_ok empty_mem"
  by (simp add: index_ok_def empty_mem_def live_index_def)

lemma find_active: "find (\<lambda>f. f_id f = i \<and> f_active f) fs = Some f \<Longrightarrow> f \<in> set fs \<and> f_id f = i \<and> f_active f"
  by (auto simp: find_Some_iff)

lemma match_expr_Nil: "match_expr [] = []"
  by (simp add: match_expr_def)

text \<open>
  C31: the trigger-maintained full-text index refines the table of facts. After any sequence of
  inserts, updates, deactivations, proposals and episodes from an empty store, searching the
  maintained index gives what a search over an index built from the active facts would give; and
  whatever the engine returns, every hit is an active fact with its current content.
\<close>

theorem fts_index_refines_facts:
  "search_facts_fts E q n (fold (mem_step E) ops empty_mem) = search_spec E q n (facts (fold (mem_step E) ops empty_mem)) \<and>
   list_all (\<lambda>(i, content, _). list_ex (\<lambda>f. f_id f = i \<and> f_active f \<and> f_content f = content)
       (facts (fold (mem_step E) ops empty_mem)))
     (search_facts_fts E q n (fold (mem_step E) ops empty_mem))"
proof -
  let ?db = "fold (mem_step E) ops empty_mem"
  have ix: "facts_fts ?db = live_index (facts ?db)"
    using index.stable_run [OF index_ok_empty] by (simp add: index_ok_def)
  have eq: "search_facts_fts E q n ?db = search_spec E q n (facts ?db)"
    by (simp add: search_facts_fts_def search_spec_def ix Let_def match_expr_Nil split: option.split)
  have hit: "list_all (\<lambda>(i, content, _). list_ex (\<lambda>f. f_id f = i \<and> f_active f \<and> f_content f = content) fs) (join_active fs ms)" for fs ms
    by (induction ms) (auto simp: join_active_def List.map_filter_simps list_ex_iff dest!: find_active split: option.splits)
  have "list_all P (take k xs)" if "list_all P xs" for P :: "int \<times> str \<times> rat \<Rightarrow> bool" and k xs
    using that by (auto simp: list_all_iff dest: in_set_takeD)
  with hit show ?thesis by (simp only: eq) (auto simp: search_spec_def Let_def split: option.split)
qed

section \<open>Proposals\<close>

abbreviation prop_evolves :: "proposal list \<Rightarrow> proposal list \<Rightarrow> bool" where
  "prop_evolves \<equiv> evolves mp_id (\<lambda>p. mp_status p \<noteq> Pending)"

definition resolved :: "int \<Rightarrow> mem_db \<Rightarrow> bool" where
  "resolved i db = dead mp_id (\<lambda>p. mp_status p \<noteq> Pending) i (memory_proposals db)"

lemma conn_proposals:
  "insert_fact_conn E cfg c cat ts conf src r now db = Inr (f, db') \<Longrightarrow> memory_proposals db' = memory_proposals db"
  "update_fact_conn E cfg i c' cat' ts' conf' r now db = Inr (f, db') \<Longrightarrow> memory_proposals db' = memory_proposals db"
  "deactivate_fact_conn i r now db = Inr (f, db') \<Longrightarrow> memory_proposals db' = memory_proposals db"
  by (auto simp: insert_conn_iff insert_row_def update_row_def elim!: update_conn_elim deactivate_conn_elim split: if_splits)

lemma apply_action_proposals:
  assumes "apply_action E cfg p r now db = Inr (f, db')"
  shows "memory_proposals db' = memory_proposals db"
proof (cases "mp_action p")
  case AddFact
  then show ?thesis using assms conn_proposals(1) by (auto simp: apply_action_def apply_add_iff Let_def)
next
  case UpdateFact
  then have "apply_update E cfg (mp_payload p) r now db = Inr (f, db')" using assms by (simp add: apply_action_def)
  then show ?thesis using apply_update_elim conn_proposals(2) by metis
next
  case DeactivateFact
  then show ?thesis using assms conn_proposals(3) by (auto simp: apply_action_def apply_deactivate_def ebind_Inr_iff)
qed

lemma resolve_proposals:
  assumes "resolve i st r now db = (n, db')" and "st \<noteq> Pending"
  shows "prop_evolves (memory_proposals db) (memory_proposals db')"
    and "n = 1 \<Longrightarrow> resolved i db'"
proof -
  let ?P = "\<lambda>p. mp_id p = i \<and> mp_status p = Pending"
  let ?f = "\<lambda>p. p\<lparr>mp_status := st, mp_resolved_at := Some now, mp_resolved_reason := Some r\<rparr>"
  have n: "n = rowcount ?P (memory_proposals db)" and d: "memory_proposals db' = update_where ?P ?f (memory_proposals db)"
    using assms(1) by (auto simp: resolve_def Let_def)
  show "prop_evolves (memory_proposals db) (memory_proposals db')"
    unfolding d by (rule evolves_update) (simp_all add: assms(2))
  show "resolved i db'" if "n = 1"
  proof -
    have "rowcount ?P (memory_proposals db) \<noteq> 0" using n that by simp
    then obtain p where "p \<in> set (memory_proposals db)" "?P p" unfolding rowcount_zero by blast
    then have mem: "?f p \<in> set (memory_proposals db')" unfolding d set_update_where by force
    show ?thesis unfolding resolved_def
    proof (rule dead_revoked [OF mem])
      show "mp_id (?f p) = i" using \<open>?P p\<close> by simp
      fix r' assume "r' \<in> set (memory_proposals db')" and i: "mp_id r' = i"
      then obtain q where "r' = (if ?P q then ?f q else q)" unfolding d set_update_where by blast
      then show "mp_status r' \<noteq> Pending" using assms(2) i by (cases "?P q") auto
    qed
  qed
qed

lemma proposals_evolve: "prop_evolves (memory_proposals db) (memory_proposals (mem_step E opn db))"
proof -
  obtain cfg act where opn: "opn = (cfg, act)" by force
  have kept: "prop_evolves (memory_proposals db) (memory_proposals db')" if "memory_proposals db' = memory_proposals db" for db'
    using that by simp
  show ?thesis
  proof (cases act)
    case (OpInsert c cat ts conf src r now)
    show ?thesis unfolding opn OpInsert mem_step.simps insert_fact_def by (rule transact_inv) (simp_all add: conn_proposals(1))
  next
    case (OpUpdate i c cat ts conf r now)
    show ?thesis unfolding opn OpUpdate mem_step.simps update_fact_def by (rule transact_inv) (simp_all add: conn_proposals(2))
  next
    case (OpDeactivate i r now)
    show ?thesis unfolding opn OpDeactivate mem_step.simps deactivate_fact_def by (rule transact_inv) (simp_all add: conn_proposals(3))
  next
    case (OpPropose a p r now)
    have fresh: "\<not> list_ex (\<lambda>y. mp_id y = mp_id x) (memory_proposals db)" if "mp_id x = next_id mp_id (memory_proposals db)" for x
      using next_id_fresh [of _ "memory_proposals db" mp_id] that by (force simp: list_ex_iff)
    show ?thesis unfolding opn OpPropose mem_step.simps
    proof (rule create_cases [of E cfg a p r now db])
      fix x db'
      assume h: "create_proposal E cfg a p r now db = (Inr x, db')"
      show "prop_evolves (memory_proposals db) (memory_proposals (snd (create_proposal E cfg a p r now db)))"
        using create_elim [OF h] h evolves_insert [OF fresh [of x]] by simp
    qed simp
  next
    case (OpApply i r now fin)
    show ?thesis
    proof (cases "apply_proposal E cfg i r now fin db")
      case (Pair res db')
      show ?thesis
      proof (cases res)
        case (Inl e)
        then show ?thesis using apply_proposal_fail Pair by (simp add: opn OpApply) blast
      next
        case (Inr x)
        then obtain p f db1 where "apply_action E cfg p (py_strip r) now db = Inr (f, db1)"
          and res: "resolve i Applied (py_strip r) fin db1 = (1, db')"
          using Pair apply_proposal_iff by metis
        then show ?thesis using apply_action_proposals resolve_proposals(1) [OF res] Pair by (simp add: opn OpApply)
      qed
    qed
  next
    case (OpReject i r now)
    show ?thesis unfolding opn OpReject mem_step.simps
    proof (rule reject_cases [of i r now db])
      fix p db'
      assume h: "reject_proposal i r now db = (Inr p, db')"
      then have "resolve i Rejected (py_strip r) now db = (1, db')" by (simp add: reject_iff)
      from resolve_proposals(1) [OF this] h show "prop_evolves (memory_proposals db) (memory_proposals (snd (reject_proposal i r now db)))"
        by simp
    qed simp
  qed (simp_all add: opn stage_frame prune_frame)
qed

definition resolvable :: "mem_env \<Rightarrow> pyval \<times> str \<times> str \<times> str \<Rightarrow> int \<Rightarrow> mem_db \<Rightarrow> bool" where
  "resolvable E q i db = (case q of (cfg, r, now, fin) \<Rightarrow>
     \<not> isl (fst (apply_proposal E cfg i r now fin db)) \<or> \<not> isl (fst (reject_proposal i r now db)))"

lemma resolved_blocks:
  assumes "resolved i db"
  shows "\<not> resolvable E q i db"
proof -
  obtain cfg r now fin where q: "q = (cfg, r, now, fin)" by (metis surj_pair)
  have row: "mp_status p \<noteq> Pending" if "p \<in> set (memory_proposals db)" "mp_id p = i" for p
    using assms that by (auto simp: resolved_def dead_def list_all_iff)
  have "apply_proposal E cfg i r now fin db \<noteq> (Inr x, db')" for x db'
    using row by (auto simp: apply_proposal_iff get_proposal_def find_Some_iff)
  moreover have "resolve i Rejected (py_strip r) now db \<noteq> (1, db')" for db'
    using row rowcount_zero [of "\<lambda>p. mp_id p = i \<and> mp_status p = Pending" "memory_proposals db"]
    by (auto simp: resolve_def Let_def)
  then have "reject_proposal i r now db \<noteq> (Inr p, db')" for p db' by (simp add: reject_iff)
  ultimately have "isl (fst (apply_proposal E cfg i r now fin db))" "isl (fst (reject_proposal i r now db))"
    by (metis prod.collapse sum.collapse(2))+
  then show ?thesis by (simp add: resolvable_def q)
qed

interpretation proposals: revocable "mem_step E" resolved "resolvable E" for E
proof
  show "resolved k db \<Longrightarrow> resolved k (mem_step E opn db)" for k db opn
    using proposals_evolve [of db E opn] by (simp add: resolved_def evolves_def)
qed (rule resolved_blocks)

lemma apply_resolves:
  assumes "apply_proposal E cfg i r now fin db = (Inr x, db')"
  shows "resolved i db'"
proof -
  obtain db1 where "resolve i Applied (py_strip r) fin db1 = (1, db')" using assms apply_proposal_iff by metis
  then show ?thesis using resolve_proposals(2) by simp
qed

lemma reject_resolves: "reject_proposal i r now db = (Inr p, db') \<Longrightarrow> resolved i db'"
  using resolve_proposals(2) [of i Rejected "py_strip r" now db 1 db'] by (simp add: reject_iff)

text \<open>
  C32: a proposal is resolved once. After a proposal was applied or rejected, no later apply or
  reject of it succeeds, under any configuration and after any further operations, and such an
  attempt changes nothing: a concurrent second apply cannot insert the fact again.
\<close>

theorem proposal_resolved_once:
  assumes "apply_proposal E cfg i r now fin db = (Inr x, db') \<or> reject_proposal i r now db = (Inr p, db')"
  shows "let later = fold (mem_step E) ops db' in
    isl (fst (apply_proposal E cfg2 i r2 now2 fin2 later)) \<and> isl (fst (reject_proposal i r2 now2 later)) \<and>
    mem_step E (cfg2, OpApply i r2 now2 fin2) later = later \<and> mem_step E (cfg2, OpReject i r2 now2) later = later"
proof -
  let ?later = "fold (mem_step E) ops db'"
  have "resolved i db'" using assms apply_resolves reject_resolves by blast
  then have "\<not> resolvable E (cfg2, r2, now2, fin2) i ?later" by (rule proposals.never_again)
  then have fail: "isl (fst (apply_proposal E cfg2 i r2 now2 fin2 ?later))" "isl (fst (reject_proposal i r2 now2 ?later))"
    by (simp_all add: resolvable_def)
  moreover have "snd (apply_proposal E cfg2 i r2 now2 fin2 ?later) = ?later"
    using fail(1) apply_proposal_fail by (metis isl_def prod.collapse)
  moreover have "snd (reject_proposal i r2 now2 ?later) = ?later"
    using fail(2) reject_cases [of i r2 now2 ?later] by (metis fst_conv isl_def snd_conv sum.disc(2))
  ultimately show ?thesis by (simp add: Let_def)
qed

section \<open>Writes are checked and atomic\<close>

lemma limit_after_insert:
  assumes "insert_fact_conn E cfg c cat ts conf src r now db = Inr (f, db')" and "max_active_facts cfg = Inr (Some n)"
  shows "int (count_active_facts db') \<le> n"
  using assms by (auto simp: insert_conn_iff insert_row_def check_active_limit_def count_active_facts_def rowcount_def ebind_def split: if_splits)

lemma applied_row: "resolve i Applied r fin db = (1, db') \<Longrightarrow> facts db' = facts db"
  using resolve_frame(1) [of i Applied r fin db] by simp

text \<open>
  Applying a proposal to add a fact. It either fails and changes nothing, or the facts are the
  old ones with one new, active fact under a fresh id whose content is the proposed one, passes
  the enforced injection scan and the size limit, and keeps the number of active facts within
  the configured ceiling; the proposal is then resolved.
\<close>

theorem apply_add_checked:
  assumes "get_proposal i db = Some p" and "mp_action p = AddFact" and "apply_proposal E cfg i r now fin db = (out, db')"
  shows "case out of
      Inl e \<Rightarrow> db' = db
    | Inr (_, k) \<Rightarrow> \<exists>f. facts db' = facts db @ [f] \<and> f_id f = k \<and> k \<notin> f_id ` set (facts db) \<and> f_active f \<and>
        f_content f = payload_str E (mp_payload p) ''content'' [] \<and> enforce_content (me_lib E) cfg (f_content f) = Inr () \<and>
        check_content_size cfg (f_content f) = Inr () \<and> resolved i db' \<and>
        (\<forall>n. max_active_facts cfg = Inr (Some n) \<longrightarrow> int (count_active_facts db') \<le> n)"
proof (cases out)
  case (Inl e)
  then show ?thesis using assms(3) apply_proposal_fail by auto
next
  case (Inr x)
  then have app: "apply_proposal E cfg i r now fin db = (Inr x, db')" using assms(3) by simp
  then obtain f db1 where act: "apply_action E cfg p (py_strip r) now db = Inr (f, db1)"
    and res: "resolve i Applied (py_strip r) fin db1 = (1, db')" and x: "x = (AddFact, f_id f)"
    using assms(1,2) by (auto simp: apply_proposal_iff)
  let ?c = "payload_str E (mp_payload p) ''content'' []"
  obtain cat ts conf src where ins: "insert_fact_conn E cfg ?c cat ts conf src (py_strip r) now db = Inr (f, db1)"
    and ok: "check_content_size cfg ?c = Inr ()" "enforce_content (me_lib E) cfg ?c = Inr ()"
    using act assms(2) by (auto simp: apply_action_def apply_add_iff Let_def)
  then obtain row where row: "facts db1 = facts db @ [row]" "f = row_to_fact row" "f_id row = next_id f_id (facts db)"
      "f_active row" "f_content row = ?c"
    by (auto simp: insert_conn_iff insert_row_def split: if_splits)
  have "next_id f_id (facts db) \<notin> f_id ` set (facts db)" using next_id_fresh [of _ "facts db" f_id] by force
  moreover have "facts db' = facts db1" using applied_row [OF res] .
  moreover have "count_active_facts db' = count_active_facts db1" using applied_row [OF res] by (simp add: count_active_facts_def)
  ultimately show ?thesis
    using Inr x row ok apply_resolves [OF app] limit_after_insert [OF ins] by auto
qed

section \<open>Concrete stores\<close>

definition demo_mem_env :: mem_env where
  "demo_mem_env = \<lparr>me_lib = demo_lib, me_sha256 = (\<lambda>s. s), me_str = (\<lambda>_. []), me_float = (\<lambda>_. None), me_redact = (\<lambda>_ s. s),
     me_match = (\<lambda>_ _. None), me_iso = (\<lambda>_. None)\<rparr>"

definition demo_mem_cfg :: pyval where
  "demo_mem_cfg = PDict [(''memory'', PDict [(''facts'', PDict [(''max_active'', PInt 1)])])]"

definition demo_payload :: "(str, pyval) dict" where
  "demo_payload = [(''content'', PStr ''tea'')]"

definition demo_proposed :: mem_db where
  "demo_proposed = snd (create_proposal demo_mem_env demo_mem_cfg ''add_fact'' demo_payload ''why'' ''t0'' empty_mem)"

theorem proposal_resolved_once_witness:
  "let (out, db') = apply_proposal demo_mem_env demo_mem_cfg 1 ''ok'' ''t1'' ''t2'' demo_proposed in
     out = Inr (AddFact, 1) \<and> isl (fst (apply_proposal demo_mem_env demo_mem_cfg 1 ''again'' ''t3'' ''t4'' db'))"
proof -
  let ?r = "apply_proposal demo_mem_env demo_mem_cfg 1 ''ok'' ''t1'' ''t2'' demo_proposed"
  have "fst ?r = Inr (AddFact, 1)" by code_simp
  then have r: "?r = (Inr (AddFact, 1), snd ?r)" by (metis prod.collapse)
  from proposal_resolved_once [OF disjI1 [OF r], of "[]" demo_mem_cfg "''again''" "''t3''" "''t4''"]
  have "isl (fst (apply_proposal demo_mem_env demo_mem_cfg 1 ''again'' ''t3'' ''t4'' (snd ?r)))" by (simp add: Let_def)
  with \<open>fst ?r = Inr (AddFact, 1)\<close> show ?thesis by (simp add: case_prod_beta Let_def)
qed

theorem apply_add_checked_witness:
  "\<exists>f. facts (snd (apply_proposal demo_mem_env demo_mem_cfg 1 ''ok'' ''t1'' ''t2'' demo_proposed)) = [f] \<and> f_content f = ''tea'' \<and>
     int (count_active_facts (snd (apply_proposal demo_mem_env demo_mem_cfg 1 ''ok'' ''t1'' ''t2'' demo_proposed))) \<le> 1"
proof -
  let ?r = "apply_proposal demo_mem_env demo_mem_cfg 1 ''ok'' ''t1'' ''t2'' demo_proposed"
  have "fst ?r = Inr (AddFact, 1)" by code_simp
  then have r: "?r = (Inr (AddFact, 1), snd ?r)" by (metis prod.collapse)
  have "map_option mp_action (get_proposal 1 demo_proposed) = Some AddFact"
    "map_option (\<lambda>p. payload_str demo_mem_env (mp_payload p) ''content'' []) (get_proposal 1 demo_proposed) = Some ''tea''"
    "facts demo_proposed = []" "max_active_facts demo_mem_cfg = Inr (Some 1)"
    by code_simp+
  then show ?thesis using apply_add_checked [OF _ _ r] by auto
qed

text \<open>
  The ceiling on active facts is checked on insert only: an update reactivates a fact without
  counting. With a ceiling of one, insert, deactivate, insert and update leave two active facts.
\<close>

lemma reactivation_passes_ceiling:
  "max_active_facts demo_mem_cfg = Inr (Some 1) \<and>
   count_active_facts (fold (mem_step demo_mem_env)
     [(demo_mem_cfg, OpInsert ''tea'' [] [] 1 [] [] ''t0''), (demo_mem_cfg, OpDeactivate 1 [] ''t1''),
      (demo_mem_cfg, OpInsert ''milk'' [] [] 1 [] [] ''t2''), (demo_mem_cfg, OpUpdate 1 None None None None [] ''t3'')] empty_mem) = 2"
  by code_simp

end
