(* ===== verification/Ratelimit.thy ===== *)
theory Ratelimit
  imports Window_Contract
begin

text \<open>
  The gateway's per-IP rate limiter, \<open>utils/ratelimit.py\<close>: the class \<open>RateLimiter\<close> with its
  in-memory map, its policy stamp per IP and its write-through table \<open>rate_hits\<close>.

  The table is one value shared by every limiter instance that points at it. The
  \<open>timestamps\<close> column holds JSON text; the model holds the decoded list, or \<^const>\<open>None\<close> when
  the text does not parse. A statement on the backend can fail (\<open>db_faults\<close>); a failed
  statement raises and leaves the table as it was, which is what the rollback in
  \<open>_sqlite_txn\<close> provides. The lock makes every call atomic, so a call is one step; the clock
  reading is an argument.
\<close>

section \<open>State\<close>

datatype backend = Postgres | Sqlite

datatype rl_error = ValueError str | DbError

record db_faults =
  del_fault :: bool
  put_fault :: bool

record rate_row =
  row_timestamps :: "seconds list option"
  row_last_sweep :: seconds
  row_window :: seconds

record rate_table =
  has_window_column :: bool
  rate_rows :: "(str, rate_row) dict"

record limiter =
  max_requests :: int
  window_seconds :: seconds
  lim_hits :: "(str, seconds list) dict"
  stamped_ips :: "str set"
  last_sweep :: seconds
  lim_backend :: "backend option"

type_synonym rl_state = "limiter \<times> rate_table"

section \<open>Construction\<close>

definition is_pg_dsn :: "str option \<Rightarrow> bool" where
  "is_pg_dsn v = (case v of None \<Rightarrow> False
     | Some s \<Rightarrow> s \<noteq> [] \<and> (py_startswith s ''postgresql'' \<or> py_startswith s ''postgres''))"

definition resolve_backend :: "str option \<Rightarrow> str option \<Rightarrow> backend option" where
  "resolve_backend db_path db_url =
     (if is_pg_dsn db_url then Some Postgres
      else if db_path \<noteq> None \<and> db_path \<noteq> Some [] then Some Sqlite
      else None)"

text \<open>
  \<open>ALTER TABLE ... ADD COLUMN window_seconds ... DEFAULT 0\<close>; a table that has the column
  already is left alone (the duplicate-column error is swallowed).
\<close>

definition ensure_window_seconds_column :: "rate_table \<Rightarrow> rate_table" where
  "ensure_window_seconds_column t =
     (if has_window_column t then t
      else t\<lparr>has_window_column := True,
             rate_rows := map (\<lambda>(ip, r). (ip, r\<lparr>row_window := 0\<rparr>)) (rate_rows t)\<rparr>)"

definition init_db :: "rate_table option \<Rightarrow> rate_table" where
  "init_db t = ensure_window_seconds_column
     (case t of None \<Rightarrow> \<lparr>has_window_column = True, rate_rows = []\<rparr> | Some t \<Rightarrow> t)"

definition row_hits :: "rate_row \<Rightarrow> seconds list" where
  "row_hits r = (case row_timestamps r of None \<Rightarrow> [] | Some ts \<Rightarrow> ts)"

fun load_rows :: "(str, rate_row) dict \<Rightarrow> limiter \<Rightarrow> limiter" where
  "load_rows [] l = l"
| "load_rows ((ip, r) # rows) l =
     load_rows rows (l\<lparr>lim_hits := AList.update ip (row_hits r) (lim_hits l),
                       last_sweep := max (last_sweep l) (row_last_sweep r)\<rparr>)"

definition load_from_db :: "rl_state \<Rightarrow> rl_state" where
  "load_from_db s = (case s of (l, db) \<Rightarrow>
     (if lim_backend l = None then l else load_rows (rate_rows db) l, db))"

definition fresh_limiter :: "int \<Rightarrow> seconds \<Rightarrow> backend option \<Rightarrow> limiter" where
  "fresh_limiter m w b = \<lparr>max_requests = m, window_seconds = w, lim_hits = [],
     stamped_ips = {}, last_sweep = 0, lim_backend = b\<rparr>"

definition RateLimiter :: "int \<Rightarrow> seconds \<Rightarrow> str option \<Rightarrow> str option \<Rightarrow> rate_table option
    \<Rightarrow> rl_error + rl_state" where
  "RateLimiter m w db_path db_url t =
     (if w \<le> 0 then Inl (ValueError ''RateLimiter window_seconds must be positive'')
      else let b = resolve_backend db_path db_url; l = fresh_limiter m w b in
        if b = None then Inr (l, init_db None)
        else Inr (load_from_db (l, init_db t)))"

section \<open>Backend statements\<close>

definition persist :: "bool \<Rightarrow> str \<Rightarrow> seconds \<Rightarrow> rl_state \<Rightarrow> (rl_error + unit) \<times> rl_state" where
  "persist fault ip now s = (case s of (l, db) \<Rightarrow>
     if lim_backend l = None then (Inr (), s)
     else if fault then (Inl DbError, s)
     else (Inr (), l, db\<lparr>rate_rows := AList.update ip
             \<lparr>row_timestamps = Some (dget (lim_hits l) ip []), row_last_sweep = now,
              row_window = window_seconds l\<rparr> (rate_rows db)\<rparr>))"

text \<open>\<open>DELETE ... WHERE ip = ? AND window_seconds > 0 AND last_sweep + window_seconds <= ?\<close>\<close>

definition deletable :: "seconds \<Rightarrow> rate_row \<Rightarrow> bool" where
  "deletable now r \<longleftrightarrow> row_window r > 0 \<and> row_last_sweep r + row_window r \<le> now"

definition delete_rows :: "bool \<Rightarrow> str list \<Rightarrow> seconds \<Rightarrow> rl_state \<Rightarrow> (rl_error + str set) \<times> rl_state" where
  "delete_rows fault ips now s = (case s of (l, db) \<Rightarrow>
     if lim_backend l = None then (Inr {}, s)
     else if fault then (Inl DbError, s)
     else let rows = filter (\<lambda>(ip, r). \<not> (ip \<in> set ips \<and> deletable now r)) (rate_rows db) in
       (Inr (set ips \<inter> fst ` set rows), l, db\<lparr>rate_rows := rows\<rparr>))"

section \<open>Sweep, allow, retry\<close>

definition stale_ips :: "seconds \<Rightarrow> limiter \<Rightarrow> str list" where
  "stale_ips now l = map fst
     (filter (\<lambda>(ip, hs). \<forall>t \<in> set hs. window_seconds l \<le> now - t) (lim_hits l))"

definition sweep :: "bool \<Rightarrow> seconds \<Rightarrow> rl_state \<Rightarrow> (rl_error + unit) \<times> rl_state" where
  "sweep fault now s = (case s of (l, db) \<Rightarrow>
     if now - last_sweep l < window_seconds l then (Inr (), s)
     else let l1 = l\<lparr>last_sweep := now\<rparr>; stale = stale_ips now l1 in
       (case (if stale = [] then (Inr {}, (l1, db)) else delete_rows fault stale now (l1, db)) of
          (Inl e, s') \<Rightarrow> (Inl e, s')
        | (Inr survivors, (l2, db')) \<Rightarrow>
            (Inr (), l2\<lparr>lim_hits := filter (\<lambda>(ip, _). \<not> (ip \<in> set stale \<and> ip \<notin> survivors)) (lim_hits l2),
                        stamped_ips := stamped_ips l2 - (set stale - survivors)\<rparr>, db')))"

definition persist_and_stamp :: "bool \<Rightarrow> str \<Rightarrow> seconds \<Rightarrow> bool \<Rightarrow> rl_state \<Rightarrow> (rl_error + bool) \<times> rl_state" where
  "persist_and_stamp fault ip now verdict s =
     (case persist fault ip now s of
        (Inl e, s') \<Rightarrow> (Inl e, s')
      | (Inr _, (l, db)) \<Rightarrow> (Inr verdict, l\<lparr>stamped_ips := insert ip (stamped_ips l)\<rparr>, db))"

text \<open>The body of \<open>allow\<close> after the sweep: prune, decide, write through.\<close>

definition decide :: "bool \<Rightarrow> seconds \<Rightarrow> str \<Rightarrow> rl_state \<Rightarrow> (rl_error + bool) \<times> rl_state" where
  "decide fault now ip s = (case s of (l, db) \<Rightarrow>
     let prior = dget (lim_hits l) ip [];
         rec = recent (window_seconds l) now prior
     in if max_requests l \<le> int (length rec)
        then let l' = l\<lparr>lim_hits := AList.update ip rec (lim_hits l)\<rparr>
             in if length rec \<noteq> length prior \<or> ip \<notin> stamped_ips l'
                then persist_and_stamp fault ip now False (l', db)
                else (Inr False, l', db)
        else persist_and_stamp fault ip now True
               (l\<lparr>lim_hits := AList.update ip (rec @ [now]) (lim_hits l)\<rparr>, db))"

definition allow :: "db_faults \<Rightarrow> seconds \<Rightarrow> str \<Rightarrow> rl_state \<Rightarrow> (rl_error + bool) \<times> rl_state" where
  "allow faults now ip s =
     (case sweep (del_fault faults) now s of
        (Inl e, s') \<Rightarrow> (Inl e, s')
      | (Inr _, s') \<Rightarrow> decide (put_fault faults) now ip s')"

text \<open>
  Reading \<open>self._hits[client_ip]\<close> on the \<open>defaultdict\<close> inserts an empty list for an IP that
  is not tracked; \<open>min\<close> of an empty list raises.
\<close>

definition retry_after_sec :: "seconds \<Rightarrow> str \<Rightarrow> rl_state \<Rightarrow> (rl_error + seconds) \<times> rl_state" where
  "retry_after_sec now ip s = (case s of (l, db) \<Rightarrow>
     let hs = dget (lim_hits l) ip [];
         l' = l\<lparr>lim_hits := AList.update ip hs (lim_hits l)\<rparr>;
         rec = recent (window_seconds l) now hs
     in if int (length rec) < max_requests l then (Inr 0, l', db)
        else if rec = [] then (Inl (ValueError ''min() iterable argument is empty''), l', db)
        else (Inr (max 0 (window_seconds l - (now - Min (set rec)))), l', db))"

definition tracked_ips :: "rl_state \<Rightarrow> nat" where
  "tracked_ips s = length (lim_hits (fst s))"

section \<open>Invariant\<close>

text \<open>Both dictionaries have one entry per IP, and the window is positive.\<close>

definition rl_wf :: "rl_state \<Rightarrow> bool" where
  "rl_wf s = (case s of (l, db) \<Rightarrow>
     0 < window_seconds l \<and> distinct (map fst (lim_hits l)) \<and> distinct (map fst (rate_rows db)))"

lemma rl_wf_Pair [simp]: "rl_wf (l, db) \<longleftrightarrow>
    0 < window_seconds l \<and> distinct (map fst (lim_hits l)) \<and> distinct (map fst (rate_rows db))"
  by (simp add: rl_wf_def)

definition no_faults :: db_faults where
  "no_faults = \<lparr>del_fault = False, put_fault = False\<rparr>"

abbreviation hits_of :: "rl_state \<Rightarrow> str \<Rightarrow> seconds list" where
  "hits_of s ip \<equiv> dget (lim_hits (fst s)) ip []"

text \<open>The parts of the state that no operation changes.\<close>

definition same_policy :: "rl_state \<Rightarrow> rl_state \<Rightarrow> bool" where
  "same_policy s s' \<longleftrightarrow> max_requests (fst s') = max_requests (fst s) \<and>
     window_seconds (fst s') = window_seconds (fst s) \<and> lim_backend (fst s') = lim_backend (fst s)"

lemma same_policy_refl [simp]: "same_policy s s"
  by (simp add: same_policy_def)

lemma distinct_fst_filter: "distinct (map fst d) \<Longrightarrow> distinct (map fst (filter P d))"
  by (induction d) (auto simp: image_iff)

lemma stale_ips_dget:
  assumes "distinct (map fst (lim_hits l))" and "ip \<in> set (stale_ips now l)"
  shows "recent (window_seconds l) now (dget (lim_hits l) ip []) = []"
proof -
  from assms(2) obtain hs where "(ip, hs) \<in> set (lim_hits l)" and "recent (window_seconds l) now hs = []"
    by (auto simp: stale_ips_def recent_stale)
  with assms(1) show ?thesis by (simp add: dget_def map_of_is_SomeI)
qed

lemmas sweep_defs = sweep_def delete_rows_def Let_def

lemma sweep_wf: "rl_wf s \<Longrightarrow> rl_wf (snd (sweep f now s))"
  by (cases s) (auto simp: sweep_defs rl_wf_def distinct_fst_filter)

lemma sweep_policy: "same_policy s (snd (sweep f now s))"
  by (cases s) (auto simp: sweep_defs same_policy_def)

lemma sweep_no_fault: "fst (sweep False now s) = Inr ()"
  by (cases s) (auto simp: sweep_defs)

lemma sweep_recent:
  assumes "rl_wf s"
  shows "recent (window_seconds (fst s)) now (hits_of (snd (sweep f now s)) ip) =
         recent (window_seconds (fst s)) now (hits_of s ip)"
proof (cases s)
  case (Pair l db)
  let ?stale = "set (stale_ips now (l\<lparr>last_sweep := now\<rparr>))"
  have "ip \<in> ?stale \<Longrightarrow> recent (window_seconds l) now (dget (lim_hits l) ip []) = []"
    using assms stale_ips_dget [of "l\<lparr>last_sweep := now\<rparr>" ip now] by (simp add: Pair rl_wf_def)
  then show ?thesis
    by (auto simp: Pair sweep_defs dget_filter_keys)
qed

lemma persist_wf: "rl_wf s \<Longrightarrow> rl_wf (snd (persist f ip now s))"
  by (cases s) (auto simp: persist_def rl_wf_def distinct_update)

lemma persist_lim [simp]: "fst (snd (persist f ip now s)) = fst s"
  by (cases s) (auto simp: persist_def)

lemma persist_and_stamp_lim:
  "lim_hits (fst (snd (persist_and_stamp f ip now b s))) = lim_hits (fst s)"
  "same_policy s (snd (persist_and_stamp f ip now b s))"
  by (cases s; auto simp: persist_and_stamp_def persist_def same_policy_def)+

lemma persist_and_stamp_wf: "rl_wf s \<Longrightarrow> rl_wf (snd (persist_and_stamp f ip now b s))"
  by (cases s) (auto simp: persist_and_stamp_def persist_def rl_wf_def distinct_update)

lemma persist_and_stamp_no_fault: "fst (persist_and_stamp False ip now b s) = Inr b"
  by (cases s) (auto simp: persist_and_stamp_def persist_def)

lemma decide_wf: "rl_wf s \<Longrightarrow> rl_wf (snd (decide f now ip s))"
  by (cases s) (auto simp: decide_def Let_def distinct_update intro!: persist_and_stamp_wf)

lemma decide_policy: "same_policy s (snd (decide f now ip s))"
  using persist_and_stamp_lim(2) by (cases s) (auto simp: decide_def Let_def same_policy_def)

lemma decide_hits:
  "hits_of (snd (decide f now ip s)) ip' =
     (let rec = recent (window_seconds (fst s)) now (hits_of s ip) in
      if ip' \<noteq> ip then hits_of s ip'
      else if max_requests (fst s) \<le> int (length rec) then rec else rec @ [now])"
  by (cases s) (auto simp: decide_def Let_def persist_and_stamp_lim dict_simps)

lemma decide_verdict:
  "fst (decide False now ip s) =
     Inr (int (length (recent (window_seconds (fst s)) now (hits_of s ip))) < max_requests (fst s))"
  by (cases s) (auto simp: decide_def Let_def persist_and_stamp_no_fault)

text \<open>Every call of \<open>allow\<close>, faults included, keeps the state well formed and its policy.\<close>

lemma allow_wf: "rl_wf s \<Longrightarrow> rl_wf (snd (allow faults now ip s))"
  using sweep_wf [of s "del_fault faults" now]
  by (auto simp: allow_def decide_wf split: sum.splits prod.splits)

lemma same_policy_trans: "same_policy s s' \<Longrightarrow> same_policy s' s'' \<Longrightarrow> same_policy s s''"
  by (simp add: same_policy_def)

lemma allow_policy: "same_policy s (snd (allow faults now ip s))"
proof -
  obtain r s' where eq: "sweep (del_fault faults) now s = (r, s')" by (metis surj_pair)
  then have "same_policy s s'" using sweep_policy [of s "del_fault faults" now] by simp
  with same_policy_trans [OF _ decide_policy] show ?thesis
    by (cases r) (auto simp: eq allow_def)
qed

lemma allow_no_faults:
  "allow no_faults now ip s = decide False now ip (snd (sweep False now s))"
  using sweep_no_fault [of now s]
  by (auto simp: allow_def no_faults_def split: sum.splits prod.splits)

lemma sweep_width [simp]: "window_seconds (fst (snd (sweep f now s))) = window_seconds (fst s)"
  and sweep_max [simp]: "max_requests (fst (snd (sweep f now s))) = max_requests (fst s)"
  using sweep_policy by (auto simp: same_policy_def)

text \<open>The verdict depends on the requests of this IP in the window, and on nothing else.\<close>

lemma allow_verdict:
  assumes "rl_wf s"
  shows "fst (allow no_faults now ip s) =
     Inr (int (length (recent (window_seconds (fst s)) now (hits_of s ip))) < max_requests (fst s))"
  using sweep_recent [OF assms] by (simp add: allow_no_faults decide_verdict)

section \<open>The gateway limiter meets the contract\<close>

definition gw_admit :: "seconds \<Rightarrow> str \<Rightarrow> rl_state \<Rightarrow> bool \<times> rl_state" where
  "gw_admit now ip s = (case allow no_faults now ip s of (r, s') \<Rightarrow> (r = Inr True, s'))"

lemma gw_admit_fst:
  "rl_wf s \<Longrightarrow> fst (gw_admit now ip s) \<longleftrightarrow>
     int (length (recent (window_seconds (fst s)) now (hits_of s ip))) < max_requests (fst s)"
  using allow_verdict [of s now ip] by (auto simp: gw_admit_def split: prod.splits)

lemma gw_admit_snd: "snd (gw_admit now ip s) = snd (allow no_faults now ip s)"
  by (auto simp: gw_admit_def split: prod.splits)

lemma gw_admit_hits:
  assumes "rl_wf s"
  shows "recent (window_seconds (fst s)) now (hits_of (snd (gw_admit now ip s)) ip') =
     recent (window_seconds (fst s)) now (hits_of s ip') @
       (if ip' = ip \<and> fst (gw_admit now ip s) then [now] else [])"
proof -
  have "0 < window_seconds (fst s)" using assms by (auto simp: rl_wf_def)
  then show ?thesis
    using sweep_recent [OF assms, of now False] gw_admit_fst [OF assms, of now ip]
    by (auto simp: gw_admit_snd allow_no_faults decide_hits Let_def window_simps)
qed

interpretation gw: sliding_window
  "\<lambda>s. nat (max_requests (fst s))" "\<lambda>s. window_seconds (fst s)" hits_of gw_admit "\<lambda>_. rl_wf"
proof unfold_locales
  fix s :: rl_state and t ip
  show "nat (max_requests (fst (snd (gw_admit t ip s)))) = nat (max_requests (fst s))"
    and "window_seconds (fst (snd (gw_admit t ip s))) = window_seconds (fst s)"
    using allow_policy by (auto simp: gw_admit_snd same_policy_def)
  assume wf: "rl_wf s"
  show "0 < window_seconds (fst s)" and "rl_wf (snd (gw_admit t ip s))"
    using wf allow_wf by (cases s; simp add: gw_admit_snd)+
  show "fst (gw_admit t ip s) \<Longrightarrow>
      length (recent (window_seconds (fst s)) t (hits_of s ip)) < nat (max_requests (fst s))"
    using gw_admit_fst [OF wf] by simp
qed (simp_all add: gw_admit_hits)

section \<open>Restarts\<close>

text \<open>
  With a backend, the table mirrors the in-memory map: for every IP the stored list is the
  list in memory, and an IP without a row has no hits.
\<close>

definition row_view :: "rl_state \<Rightarrow> str \<Rightarrow> seconds list" where
  "row_view s ip = (case map_of (rate_rows (snd s)) ip of None \<Rightarrow> [] | Some r \<Rightarrow> row_hits r)"

definition synced :: "rl_state \<Rightarrow> bool" where
  "synced s \<longleftrightarrow> lim_backend (fst s) \<noteq> None \<and> (\<forall>ip. hits_of s ip = row_view s ip)"

lemma load_rows_hits:
  "distinct (map fst rows) \<Longrightarrow> dget (lim_hits (load_rows rows l)) ip [] =
     (case map_of rows ip of None \<Rightarrow> dget (lim_hits l) ip [] | Some r \<Rightarrow> row_hits r)"
  by (induction rows l rule: load_rows.induct)
     (auto simp: dict_simps in_keys_iff split: option.splits)

lemma load_rows_policy:
  "max_requests (load_rows rows l) = max_requests l"
  "window_seconds (load_rows rows l) = window_seconds l"
  "lim_backend (load_rows rows l) = lim_backend l"
  by (induction rows l rule: load_rows.induct) auto

lemma load_rows_distinct:
  "distinct (map fst (lim_hits l)) \<Longrightarrow> distinct (map fst (lim_hits (load_rows rows l)))"
  by (induction rows l rule: load_rows.induct) (auto simp: distinct_update)

definition table_wf :: "rate_table option \<Rightarrow> bool" where
  "table_wf t = (case t of None \<Rightarrow> True | Some t \<Rightarrow> distinct (map fst (rate_rows t)))"

lemma init_db_distinct: "table_wf t \<Longrightarrow> distinct (map fst (rate_rows (init_db t)))"
  by (auto simp: init_db_def ensure_window_seconds_column_def table_wf_def comp_def case_prod_beta
           split: option.splits)

lemmas construction_simps = RateLimiter_def load_from_db_def fresh_limiter_def Let_def
  load_rows_policy load_rows_distinct init_db_distinct

lemma RateLimiter_wf:
  assumes "RateLimiter m w p u t = Inr s" and "table_wf t"
  shows "rl_wf s" and "max_requests (fst s) = m" and "window_seconds (fst s) = w"
    and "lim_backend (fst s) = resolve_backend p u"
  using assms by (auto simp: construction_simps table_wf_def init_db_distinct [of None] split: if_splits)

lemma RateLimiter_synced:
  assumes "RateLimiter m w p u t = Inr s" and "table_wf t" and "resolve_backend p u \<noteq> None"
  shows "synced s"
  using assms
  by (auto simp: construction_simps synced_def row_view_def load_rows_hits split: if_splits option.splits)

lemma filter_eq_length: "length (filter P xs) = length xs \<Longrightarrow> filter P xs = xs"
  by (metis filter_id_conv length_filter_less nat_neq_iff)

text \<open>With a backend, a sweep evicts the same IPs from the map and from the table.\<close>

lemma sweep_evicts:
  assumes wf: "rl_wf s" and be: "lim_backend (fst s) \<noteq> None"
  obtains E where "\<And>ip. hits_of (snd (sweep f now s)) ip = (if ip \<in> E then [] else hits_of s ip)"
    and "\<And>ip. map_of (rate_rows (snd (snd (sweep f now s)))) ip =
           (if ip \<in> E then None else map_of (rate_rows (snd s)) ip)"
proof -
  obtain l db where s: "s = (l, db)" by force
  have d: "distinct (map fst (rate_rows db))" using wf s by simp
  let ?stale = "stale_ips now (l\<lparr>last_sweep := now\<rparr>)"
  let ?rows = "filter (\<lambda>(ip, r). \<not> (ip \<in> set ?stale \<and> deletable now r)) (rate_rows db)"
  let ?E = "if now - last_sweep l < window_seconds l \<or> f then {} else set ?stale - fst ` set ?rows"
  have rows: "map_of ?rows ip = (if ip \<in> set ?stale - fst ` set ?rows then None else map_of (rate_rows db) ip)" for ip
    by (auto simp del: set_filter simp: in_keys_iff map_of_filter_pair [OF d] split: option.splits)
  show ?thesis
    using be rows by (intro that [of ?E])
      (auto simp del: set_filter simp: s sweep_defs dget_filter_keys)
qed

lemma sweep_synced:
  assumes "rl_wf s" and "synced s"
  shows "synced (snd (sweep f now s))"
proof -
  have be: "lim_backend (fst s) \<noteq> None" using assms(2) by (simp add: synced_def)
  obtain E where "\<And>ip. hits_of (snd (sweep f now s)) ip = (if ip \<in> E then [] else hits_of s ip)"
    and "\<And>ip. map_of (rate_rows (snd (snd (sweep f now s)))) ip =
           (if ip \<in> E then None else map_of (rate_rows (snd s)) ip)"
    using sweep_evicts [OF assms(1) be] by metis
  then show ?thesis
    using assms(2) sweep_policy [of s f now] by (simp add: synced_def row_view_def same_policy_def)
qed

lemma persist_and_stamp_view:
  assumes "lim_backend (fst s) \<noteq> None"
  shows "row_view (snd (persist_and_stamp False ip now b s)) ip' =
     (if ip' = ip then hits_of s ip else row_view s ip')"
  using assms
  by (cases s) (auto simp: persist_and_stamp_def persist_def row_view_def row_hits_def update_conv')

lemma decide_synced:
  assumes "synced s"
  shows "synced (snd (decide False now ip s))"
proof -
  obtain l db where s: "s = (l, db)" by force
  let ?rec = "recent (window_seconds l) now (dget (lim_hits l) ip [])"
  have same: "length ?rec = length (dget (lim_hits l) ip []) \<Longrightarrow> ?rec = dget (lim_hits l) ip []"
    using filter_eq_length by (simp add: recent_def)
  have "row_view (l\<lparr>lim_hits := h\<rparr>, db) = row_view s" for h by (simp add: s row_view_def fun_eq_iff)
  then have "row_view (snd (decide False now ip s)) ip' = hits_of (snd (decide False now ip s)) ip'" for ip'
    using assms same unfolding synced_def
    by (auto simp: s decide_def Let_def persist_and_stamp_view persist_and_stamp_lim dict_simps)
  then show ?thesis
    using assms decide_policy [of s False now ip] by (simp add: synced_def same_policy_def)
qed

lemma gw_admit_synced: "rl_wf s \<Longrightarrow> synced s \<Longrightarrow> synced (snd (gw_admit now ip s))"
  by (simp add: gw_admit_snd allow_no_faults decide_synced sweep_synced)

lemma gw_admit_wf: "rl_wf s \<Longrightarrow> rl_wf (snd (gw_admit now ip s))"
  by (simp add: gw_admit_snd allow_wf)

lemma gw_admit_policy: "same_policy s (snd (gw_admit now ip s))"
  by (simp add: gw_admit_snd allow_policy)

lemma serve_synced:
  "rl_wf s \<Longrightarrow> synced s \<Longrightarrow>
   synced (snd (serve gw_admit rs s)) \<and> rl_wf (snd (serve gw_admit rs s)) \<and>
   same_policy s (snd (serve gw_admit rs s))"
proof (induction rs arbitrary: s)
  case (Cons r rs)
  obtain t ip where r: "r = (t, ip)" by force
  show ?case
    using Cons.IH [OF gw_admit_wf gw_admit_synced, OF Cons.prems(1) Cons.prems, of t ip]
      same_policy_trans [OF gw_admit_policy [of s t ip]] by (simp add: r)
qed simp

text \<open>Two limiters with the same policy and the same live windows give the same verdicts.\<close>

definition alike :: "seconds \<Rightarrow> rl_state \<Rightarrow> rl_state \<Rightarrow> bool" where
  "alike now s s' \<longleftrightarrow> rl_wf s \<and> rl_wf s' \<and>
     max_requests (fst s') = max_requests (fst s) \<and> window_seconds (fst s') = window_seconds (fst s) \<and>
     (\<forall>ip. recent (window_seconds (fst s)) now (hits_of s ip) =
           recent (window_seconds (fst s)) now (hits_of s' ip))"

lemma alike_step:
  assumes al: "alike now s s'" and le: "now \<le> t"
  shows "fst (gw_admit t ip s) = fst (gw_admit t ip s')"
    and "alike t (snd (gw_admit t ip s)) (snd (gw_admit t ip s'))"
proof -
  have r: "recent (window_seconds (fst s)) t (hits_of s ip') = recent (window_seconds (fst s)) t (hits_of s' ip')" for ip'
    using al le recent_eq_later unfolding alike_def by blast
  have wf: "rl_wf s" "rl_wf s'" and eq: "max_requests (fst s') = max_requests (fst s)"
    "window_seconds (fst s') = window_seconds (fst s)" using al by (auto simp: alike_def)
  show v: "fst (gw_admit t ip s) = fst (gw_admit t ip s')"
    using gw_admit_fst [OF wf(1)] gw_admit_fst [OF wf(2)] r eq by simp
  show "alike t (snd (gw_admit t ip s)) (snd (gw_admit t ip s'))"
    using gw_admit_wf wf gw_admit_policy [of s t ip] gw_admit_policy [of s' t ip]
      gw_admit_hits [OF wf(1), of t ip] gw_admit_hits [OF wf(2), of t ip] r v eq
    by (auto simp: alike_def same_policy_def)
qed

lemma alike_serve:
  "alike now s s' \<Longrightarrow> sorted (now # map fst rs) \<Longrightarrow> fst (serve gw_admit rs s) = fst (serve gw_admit rs s')"
proof (induction rs arbitrary: now s s')
  case (Cons r rs)
  obtain t ip where r: "r = (t, ip)" by force
  then have le: "now \<le> t" and srt: "sorted (t # map fst rs)" using Cons.prems(2) by auto
  show ?case
    using alike_step [OF Cons.prems(1) le] Cons.IH [OF _ srt] by (simp add: r)
qed simp

lemma serve_append:
  "fst (serve f (xs @ ys) s) = fst (serve f xs s) @ fst (serve f ys (snd (serve f xs s)))"
  by (induction xs arbitrary: s) auto

lemma init_db_again:
  assumes "has_window_column t"
  shows "init_db (Some t) = t"
  using assms by (simp add: init_db_def ensure_window_seconds_column_def)

lemma persist_and_stamp_column [simp]:
  "has_window_column (snd (snd (persist_and_stamp f ip now b s))) = has_window_column (snd s)"
  by (cases s) (simp add: persist_and_stamp_def persist_def)

lemma decide_column: "has_window_column (snd (snd (decide f now ip s))) = has_window_column (snd s)"
  by (cases s) (simp add: decide_def Let_def)

lemma sweep_column: "has_window_column (snd (snd (sweep f now s))) = has_window_column (snd s)"
  by (cases s) (simp add: sweep_defs)

lemma serve_column:
  "has_window_column (snd (snd (serve gw_admit rs s))) = has_window_column (snd s)"
proof (induction rs arbitrary: s)
  case (Cons r rs)
  then show ?case by (cases r) (simp add: gw_admit_snd allow_no_faults decide_column sweep_column)
qed simp

lemma RateLimiter_column:
  assumes "RateLimiter m w p u t = Inr s"
  shows "has_window_column (snd s)"
  using assms by (auto simp: construction_simps init_db_def ensure_window_seconds_column_def split: if_splits)

lemma restart_alike:
  assumes wf: "rl_wf s" and sy: "synced s" and pol: "max_requests (fst s) = m" "window_seconds (fst s) = w"
    "lim_backend (fst s) = resolve_backend p u" and col: "has_window_column (snd s)"
  obtains s' where "RateLimiter m w p u (Some (snd s)) = Inr s'" and "alike now s s'"
proof -
  have db: "table_wf (Some (snd s))" using wf by (cases s) (simp add: table_wf_def)
  have be: "resolve_backend p u \<noteq> None" using sy pol by (simp add: synced_def)
  have "0 < w" using wf pol by (cases s) auto
  then obtain s' where s': "RateLimiter m w p u (Some (snd s)) = Inr s'"
    using be by (auto simp: RateLimiter_def Let_def)
  have "snd s' = snd s"
    using s' be by (auto simp: construction_simps init_db_again [OF col] split: if_splits)
  moreover note RateLimiter_wf [OF s' db] RateLimiter_synced [OF s' db be]
  ultimately have "alike now s s'"
    using sy wf pol by (auto simp: alike_def synced_def row_view_def)
  with s' that show ?thesis by blast
qed

section \<open>Sweeps and rows\<close>

text \<open>Rows a sweep at \<open>now\<close> may not delete, and IPs whose rows are still there, are kept.\<close>

lemma sweep_keeps_row:
  assumes "rl_wf s" and "map_of (rate_rows (snd s)) ip = Some r" and "\<not> deletable now r"
  shows "map_of (rate_rows (snd (snd (sweep f now s)))) ip = Some r"
proof (cases s)
  case (Pair l db)
  then have d: "distinct (map fst (rate_rows db))" using assms(1) by simp
  with assms(2,3) show ?thesis
    by (simp add: Pair sweep_defs map_of_filter_pair [OF d] del: de_Morgan_conj)
qed

definition no_orphans :: "rl_state \<Rightarrow> bool" where
  "no_orphans s \<longleftrightarrow> lim_backend (fst s) = None \<or>
     fst ` set (rate_rows (snd s)) \<subseteq> fst ` set (lim_hits (fst s))"

lemma fst_filter_keys: "fst ` set (filter (\<lambda>(k, _). P k) d) = {k \<in> fst ` set d. P k}"
  by force

lemma sweep_no_orphans:
  assumes "no_orphans s"
  shows "no_orphans (snd (sweep f now s))"
proof (cases "lim_backend (fst s) = None")
  case True
  then show ?thesis using sweep_policy [of s f now] by (simp add: no_orphans_def same_policy_def)
next
  case False
  obtain l db where s: "s = (l, db)" by force
  have sub: "(ip, r) \<in> set (rate_rows db) \<Longrightarrow> ip \<in> fst ` set (lim_hits l)" for ip r
    using assms False by (force simp: s no_orphans_def)
  have sub': "(ip, r) \<in> set (filter P (rate_rows db)) \<Longrightarrow> ip \<in> fst ` set (lim_hits l)" for ip r P
    using sub [of ip r] by auto
  show ?thesis
    using False sub sub'
    by (auto simp: s no_orphans_def sweep_defs fst_filter_keys simp del: set_filter)
qed

lemma keys_update: "fst ` set (AList.update k v d) = insert k (fst ` set d)"
  by (metis dom_map_of_conv_image_fst dom_map_of_update)

lemma decide_no_orphans:
  assumes "no_orphans s"
  shows "no_orphans (snd (decide f now ip s))"
  using assms
  by (cases s)
     (auto simp: no_orphans_def decide_def Let_def persist_and_stamp_def persist_def keys_update)

lemma retry_after_no_orphans: "no_orphans s \<Longrightarrow> no_orphans (snd (retry_after_sec now ip s))"
  by (cases s) (auto simp: no_orphans_def retry_after_sec_def Let_def keys_update)

lemma load_rows_keys:
  "fst ` set (lim_hits (load_rows rows l)) = fst ` set (lim_hits l) \<union> fst ` set rows"
  by (induction rows l rule: load_rows.induct) (auto simp: keys_update)

section \<open>Retry-After\<close>

lemma recent_later_fewer:
  assumes "now \<le> t"
  shows "length (recent w t hs) \<le> length (recent w now hs)"
  unfolding recent_def using assms by (intro length_filter_mono) auto

lemma recent_same_until_expiry:
  assumes "now \<le> t" and "\<forall>h \<in> set (recent w now hs). t - h < w"
  shows "recent w t hs = recent w now hs"
  using assms by (auto simp: recent_def intro!: filter_cong)

lemma recent_drops_oldest:
  assumes "recent w now hs \<noteq> []" and "now \<le> t" and "w \<le> t - Min (set (recent w now hs))"
  shows "length (recent w t hs) < length (recent w now hs)"
proof -
  have "recent w t hs = recent w t (recent w now hs)" using recent_recent [OF assms(2)] by simp
  moreover have "Min (set (recent w now hs)) \<in> set (recent w now hs)" using assms(1) by simp
  then have "length (filter (\<lambda>h. t - h < w) (recent w now hs)) < length (recent w now hs)"
    using assms(3) by (intro length_filter_less) auto
  ultimately show ?thesis by (simp add: recent_def)
qed

section \<open>Properties\<close>

text \<open>
  C36: starting from a limiter that holds no hits of an IP, over any requests served in clock
  order, no window of \<open>window_seconds\<close> contains more than \<open>max_requests\<close> admitted requests of
  that IP, whatever the other IPs do and whichever backend is configured.
\<close>

theorem gateway_window_limit:
  assumes "rl_wf s" and "sorted (map fst rs)" and "hits_of s ip = []"
  shows "length (in_window (window_seconds (fst s)) x (admitted ip rs (fst (serve gw_admit rs s))))
    \<le> nat (max_requests (fst s))"
proof (cases rs)
  case Nil
  then show ?thesis by (simp add: in_window_def)
next
  case (Cons r rs')
  then have "sorted (fst r # map fst rs)" using assms(2) by simp
  then show ?thesis using gw.served_within_limit assms(1,3) by blast
qed

theorem gateway_window_limit_witness:
  "length (in_window 60 3 (admitted ''a'' [(1, ''a''), (2, ''a''), (3, ''a'')]
     (fst (serve gw_admit [(1, ''a''), (2, ''a''), (3, ''a'')] (fresh_limiter 2 60 None, init_db None))))) \<le> 2"
proof -
  let ?s = "(fresh_limiter 2 60 None, init_db None)"
  have "rl_wf ?s" and "hits_of ?s ''a'' = []"
    by (simp_all add: fresh_limiter_def init_db_def ensure_window_seconds_column_def)
  from gateway_window_limit [OF this(1) _ this(2), of "[(1, ''a''), (2, ''a''), (3, ''a'')]" 3]
  show ?thesis by (simp add: fresh_limiter_def)
qed

text \<open>
  A limiter with a backend survives a restart. Constructing a new limiter of the same
  policy on the table that the old one wrote, at any point of any sequence of requests served
  in clock order, changes no later verdict.
\<close>

theorem gateway_restart_transparent:
  assumes "RateLimiter m w p u t = Inr s" and "resolve_backend p u \<noteq> None" and "table_wf t"
    and "sorted (map fst (rs1 @ rs2))"
  shows "\<exists>s'. RateLimiter m w p u (Some (snd (snd (serve gw_admit rs1 s)))) = Inr s' \<and>
     fst (serve gw_admit (rs1 @ rs2) s) = fst (serve gw_admit rs1 s) @ fst (serve gw_admit rs2 s')"
proof -
  let ?s1 = "snd (serve gw_admit rs1 s)"
  have wf: "rl_wf s" and pol: "max_requests (fst s) = m" "window_seconds (fst s) = w"
    "lim_backend (fst s) = resolve_backend p u"
    using RateLimiter_wf [OF assms(1,3)] by auto
  have s1: "synced ?s1 \<and> rl_wf ?s1 \<and> same_policy s ?s1"
    by (rule serve_synced [OF wf RateLimiter_synced [OF assms(1,3,2)]])
  have col: "has_window_column (snd ?s1)"
    using RateLimiter_column [OF assms(1)] by (simp add: serve_column)
  let ?now = "if rs2 = [] then 0 else fst (hd rs2)"
  obtain s' where s': "RateLimiter m w p u (Some (snd ?s1)) = Inr s'" and al: "alike ?now ?s1 s'"
    using restart_alike [of ?s1 m w p u ?now] s1 pol col by (auto simp: same_policy_def)
  have "sorted (?now # map fst rs2)" using assms(4) by (cases rs2) (auto simp: sorted_append)
  with alike_serve [OF al] s' show ?thesis by (auto simp: serve_append)
qed

theorem gateway_restart_transparent_witness:
  "\<exists>s s'. RateLimiter 1 60 (Some ''rate.db'') None None = Inr s \<and>
     RateLimiter 1 60 (Some ''rate.db'') None (Some (snd (snd (serve gw_admit [(1, ''a'')] s)))) = Inr s' \<and>
     fst (serve gw_admit ([(1, ''a'')] @ [(2, ''a'')]) s) =
       fst (serve gw_admit [(1, ''a'')] s) @ fst (serve gw_admit [(2, ''a'')] s')"
proof -
  have be: "resolve_backend (Some ''rate.db'') None \<noteq> None"
    by (simp add: resolve_backend_def is_pg_dsn_def)
  then obtain s where s: "RateLimiter 1 60 (Some ''rate.db'') None None = Inr s"
    by (auto simp: RateLimiter_def Let_def)
  from gateway_restart_transparent [OF s be, of "[(1, ''a'')]" "[(2, ''a'')]"] s
  show ?thesis by (auto simp: table_wf_def)
qed

text \<open>
  A sweep judges every row by the policy stored with it. A row whose own window has not
  elapsed, or whose window is unknown (not positive), is still in the table with the same
  content after any call for another IP, whatever window the calling limiter has and whichever
  of its backend statements fail; and if the calling limiter tracks the row's IP, it keeps
  tracking it.
\<close>

theorem sweep_respects_row_policy:
  assumes "rl_wf s" and "map_of (rate_rows (snd s)) ip' = Some r"
    and "row_window r \<le> 0 \<or> now < row_last_sweep r + row_window r" and "ip' \<noteq> ip"
    and "no_orphans s" and "lim_backend (fst s) \<noteq> None"
  shows "map_of (rate_rows (snd (snd (allow faults now ip s)))) ip' = Some r \<and>
         ip' \<in> fst ` set (lim_hits (fst (snd (allow faults now ip s))))"
proof -
  let ?sw = "snd (sweep (del_fault faults) now s)"
  let ?s' = "snd (allow faults now ip s)"
  have "\<not> deletable now r" using assms(3) by (auto simp: deletable_def)
  then have row: "map_of (rate_rows (snd ?sw)) ip' = Some r" by (rule sweep_keeps_row [OF assms(1,2)])
  have dec: "map_of (rate_rows (snd (snd (decide f now ip q)))) ip' = map_of (rate_rows (snd q)) ip'" for f q
    using assms(4)
    by (cases q) (auto simp: decide_def Let_def persist_and_stamp_def persist_def update_conv')
  have s': "map_of (rate_rows (snd ?s')) ip' = Some r" and "no_orphans ?s'"
    using row dec sweep_no_orphans [OF assms(5), of "del_fault faults" now] decide_no_orphans
    by (auto simp: allow_def split: sum.splits prod.splits)
  moreover have "lim_backend (fst ?s') \<noteq> None" using allow_policy [of s faults now ip] assms(6)
    by (auto simp: same_policy_def)
  ultimately show ?thesis
    unfolding no_orphans_def using in_keys_iff [of ip' "rate_rows (snd ?s')"] by auto
qed

theorem sweep_respects_row_policy_witness:
  "\<exists>s r. rl_wf s \<and> map_of (rate_rows (snd s)) ''b'' = Some r \<and> row_window r = 3600 \<and>
     map_of (rate_rows (snd (snd (allow no_faults 100 ''a'' s)))) ''b'' = Some r"
proof -
  define r where "r = \<lparr>row_timestamps = Some [1], row_last_sweep = 1, row_window = 3600\<rparr>"
  define s where "s = (load_rows [(''b'', r)] (fresh_limiter 5 10 (Some Sqlite)),
     \<lparr>has_window_column = True, rate_rows = [(''b'', r)]\<rparr>)"
  have *: "rl_wf s" "map_of (rate_rows (snd s)) ''b'' = Some r" "row_window r = 3600"
    "no_orphans s" "lim_backend (fst s) \<noteq> None"
    by (simp_all add: s_def r_def fresh_limiter_def no_orphans_def)
  have "row_window r \<le> 0 \<or> 100 < row_last_sweep r + row_window r" by (simp add: r_def)
  from sweep_respects_row_policy [OF *(1,2) this _ *(4,5), of "''a''" no_faults]
  have "map_of (rate_rows (snd (snd (allow no_faults 100 ''a'' s)))) ''b'' = Some r" by simp
  with * show ?thesis by blast
qed

text \<open>
  No row is ever orphaned. If every stored IP is tracked in memory (as it is after
  construction), then it stays so after any call of \<open>allow\<close>, also when the delete or the
  write-through fails; since only tracked IPs are nominated for deletion, every row stays
  deletable.
\<close>

theorem allow_no_orphans:
  assumes "no_orphans s"
  shows "no_orphans (snd (allow faults now ip s))"
  using sweep_no_orphans [OF assms] decide_no_orphans
  by (auto simp: allow_def split: sum.splits prod.splits) (metis snd_conv)+

theorem allow_no_orphans_witness:
  "no_orphans (snd (allow \<lparr>del_fault = True, put_fault = True\<rparr> 5 ''a''
     (fresh_limiter 5 10 (Some Sqlite), init_db None)))"
  by (rule allow_no_orphans)
     (simp add: no_orphans_def init_db_def ensure_window_seconds_column_def)

text \<open>
  C36: \<open>retry_after_sec\<close> is exact. When an IP is at its limit, the value is positive and at most
  the window; a request of that IP at any earlier moment is refused, and a request at that
  moment is admitted, if no other request of the IP comes in between.
\<close>

theorem retry_after_exact:
  assumes wf: "rl_wf s" and past: "\<forall>t \<in> set (hits_of s ip). t \<le> now" and pos: "0 < max_requests (fst s)"
    and full: "int (length (recent (window_seconds (fst s)) now (hits_of s ip))) = max_requests (fst s)"
  shows "\<exists>d. fst (retry_after_sec now ip s) = Inr d \<and> 0 < d \<and> d \<le> window_seconds (fst s) \<and>
     (\<forall>t. now \<le> t \<and> t < now + d \<longrightarrow> fst (allow no_faults t ip s) = Inr False) \<and>
     fst (allow no_faults (now + d) ip s) = Inr True"
proof -
  define w m hs where "w = window_seconds (fst s)" and "m = max_requests (fst s)" and "hs = hits_of s ip"
  define rec where "rec = recent w now hs"
  define d where "d = w - (now - Min (set rec))"
  note defs = w_def [symmetric] m_def [symmetric] hs_def [symmetric] rec_def [symmetric]
  have len: "int (length rec) = m" and "0 < m" and past': "\<forall>t \<in> set hs. t \<le> now"
    using full pos past by (simp_all add: defs)
  then have ne: "rec \<noteq> []" by auto
  then have "Min (set rec) \<in> set rec" by simp
  then have "now - Min (set rec) < w" and "Min (set rec) \<le> now"
    using past' by (auto simp: rec_def recent_def)
  then have d: "0 < d" "d \<le> w" by (simp_all add: d_def)
  have ret: "fst (retry_after_sec now ip s) = Inr d"
    using ne len d by (cases s) (simp add: retry_after_sec_def Let_def w_def m_def hs_def rec_def d_def)
  have v: "fst (allow no_faults t ip s) = Inr (int (length (recent w t hs)) < m)" for t
    using allow_verdict [OF wf, of t ip] by (simp add: defs)
  have before: "fst (allow no_faults t ip s) = Inr False" if "now \<le> t" "t < now + d" for t
  proof -
    have "\<forall>h \<in> set (recent w now hs). t - h < w"
    proof
      fix h assume "h \<in> set (recent w now hs)"
      then have "Min (set rec) \<le> h" by (simp add: rec_def)
      with that(2) show "t - h < w" by (simp add: d_def)
    qed
    from recent_same_until_expiry [OF that(1) this] show ?thesis by (simp add: v rec_def [symmetric] len)
  qed
  have "now \<le> now + d" and "w \<le> now + d - Min (set (recent w now hs))"
    using d(1) by (simp_all add: d_def rec_def)
  from recent_drops_oldest [OF ne [unfolded rec_def] this]
  have "fst (allow no_faults (now + d) ip s) = Inr True" using len by (simp add: v rec_def)
  with ret d before show ?thesis by (auto simp: w_def)
qed

theorem retry_after_exact_witness:
  "\<exists>d. fst (retry_after_sec 4 ''a'' ((fresh_limiter 1 10 None)\<lparr>lim_hits := [(''a'', [1])]\<rparr>, init_db None)) = Inr d \<and>
     0 < d \<and> d \<le> 10"
  using retry_after_exact [of "((fresh_limiter 1 10 None)\<lparr>lim_hits := [(''a'', [1])]\<rparr>, init_db None)" "''a''" 4]
  by (auto simp: fresh_limiter_def init_db_def ensure_window_seconds_column_def dget_def recent_def)

text \<open>
  Rows of a table that predates the \<open>window_seconds\<close> column are never swept. The migration
  gives them the window 0, and no sequence of requests of other IPs, by a limiter of any
  policy, deletes such a row.
\<close>

theorem legacy_rows_never_swept:
  assumes "\<not> has_window_column t" and "table_wf (Some t)" and "map_of (rate_rows t) ip = Some r"
    and "RateLimiter m w p u (Some t) = Inr s" and "resolve_backend p u \<noteq> None"
    and "ip \<notin> snd ` set rs"
  shows "map_of (rate_rows (snd (snd (serve gw_admit rs s)))) ip = Some (r\<lparr>row_window := 0\<rparr>)"
proof -
  have "map_of (rate_rows (snd s)) ip = Some (r\<lparr>row_window := 0\<rparr>)"
    using assms(1,3,4,5)
    by (auto simp: construction_simps init_db_def ensure_window_seconds_column_def map_of_map_values
        split: if_splits)
  moreover have "rl_wf s" using RateLimiter_wf [OF assms(4,2)] by simp
  ultimately show ?thesis using assms(6)
  proof (induction rs arbitrary: s)
    case (Cons q rs)
    obtain t' ip' where q: "q = (t', ip')" by force
    have ne: "ip \<noteq> ip'" using Cons.prems(3) q by force
    have "map_of (rate_rows (snd (snd (sweep False t' s)))) ip = Some (r\<lparr>row_window := 0\<rparr>)"
      by (rule sweep_keeps_row [OF Cons.prems(2,1)]) (simp add: deletable_def)
    then have "map_of (rate_rows (snd (snd (gw_admit t' ip' s)))) ip = Some (r\<lparr>row_window := 0\<rparr>)"
      using ne by (cases "snd (sweep False t' s)")
        (simp add: gw_admit_snd allow_no_faults decide_def Let_def persist_and_stamp_def persist_def update_conv')
    with Cons.IH gw_admit_wf [OF Cons.prems(2)] Cons.prems(3) show ?case by (simp add: q)
  qed simp
qed

theorem legacy_rows_never_swept_witness:
  "\<exists>s. RateLimiter 5 10 (Some ''r.db'') None
       (Some \<lparr>has_window_column = False, rate_rows = [(''b'', \<lparr>row_timestamps = Some [], row_last_sweep = 0, row_window = 0\<rparr>)]\<rparr>) = Inr s \<and>
     map_of (rate_rows (snd (snd (serve gw_admit [(1000, ''a'')] s)))) ''b'' \<noteq> None"
proof -
  let ?r = "\<lparr>row_timestamps = Some [], row_last_sweep = 0, row_window = 0\<rparr>"
  let ?t = "\<lparr>has_window_column = False, rate_rows = [(''b'', ?r)]\<rparr>"
  have be: "resolve_backend (Some ''r.db'') None \<noteq> None" by (simp add: resolve_backend_def is_pg_dsn_def)
  then obtain s where s: "RateLimiter 5 10 (Some ''r.db'') None (Some ?t) = Inr s"
    by (auto simp: RateLimiter_def Let_def)
  from legacy_rows_never_swept [OF _ _ _ s be, of "''b''" ?r "[(1000, ''a'')]"] s show ?thesis
    by (auto simp: table_wf_def)
qed

end
