(* ===== verification/Gateway.thy ===== *)
theory Gateway
  imports Http Sanitizer Ratelimit Authn_Manager Graph "HOL-Library.While_Combinator"
begin

text \<open>
  Model of the parts of \<open>gate.py\<close> that every route shares: the configuration flags, the API key
  gate and its bypass, rate limiting with its throttled audit line, the redaction of error texts,
  the wiring of dependencies onto \<open>/query\<close>, and the start of the server with its bind guard.

  \<^item> \<open>gw_env\<close> holds what the process reads: the parsed configuration, the environment variables, the
    cryptographic and text functions, the clocks of this request (one reading of each) and the faults
    of the limiter's back end.
  \<^item> \<open>gw_state\<close> is what a request can change: the account database, the limiter, the map that
    throttles its audit line, and in order the audit events written and the effects of graph runs.
  \<^item> An audit event is the dictionary passed to \<open>audit_log\<close>. Log lines and printed banners are left out.
\<close>

type_synonym event = "(str, pyval) dict"

record gw_env =
  ge_cfg :: "(str, pyval) dict"
  ge_allowed_hosts :: "str list"
  ge_environ :: "str \<Rightarrow> str option"
  ge_auth_cfg :: auth_cfg
  ge_crypto :: crypto
  ge_ip_ok :: "str \<Rightarrow> bool"
  ge_loopback_ip :: "str \<Rightarrow> bool option"
  ge_text :: text_lib
  ge_re_sub :: "str \<Rightarrow> str \<Rightarrow> str"
  ge_limit_text :: str
  ge_faults :: db_faults
  ge_now :: seconds
  ge_monotonic :: seconds

record gw_state =
  gw_auth :: auth_db
  gw_limiter :: rl_state
  gw_rl_audit :: "(str, seconds) dict"
  gw_log :: "event list"
  gw_effects :: "effect list"

type_synonym 'a route = "(gw_state, 'a) handler"

section \<open>Configuration flags\<close>

definition flag_is_true :: "pyval \<Rightarrow> str \<Rightarrow> bool" where
  "flag_is_true sec key = (case sec of PDict d \<Rightarrow> is_literal_true (dget d key PNone) | _ \<Rightarrow> False)"

definition boot_personality_enabled :: "pyval \<Rightarrow> bool" where
  "boot_personality_enabled sec = (case sec of PDict d \<Rightarrow> is_literal_true (dget d ''enabled'' PNone) | _ \<Rightarrow> False)"

definition boot_auth_enabled :: "pyval \<Rightarrow> bool" where
  "boot_auth_enabled sec = (case sec of PDict d \<Rightarrow> is_literal_true (dget d ''enabled'' PNone) | _ \<Rightarrow> False)"

text \<open>\<open>auth_manager is not None\<close>\<close>

definition auth_on :: "gw_env \<Rightarrow> bool" where
  "auth_on E = boot_auth_enabled (dget (ge_cfg E) ''auth'' PNone)"

definition tls_section :: "gw_env \<Rightarrow> pyval" where
  "tls_section E = (case or_empty (dget (ge_cfg E) ''api'' PNone) of PDict api \<Rightarrow> dget api ''tls'' PNone | _ \<Rightarrow> PNone)"

definition auth_and_tls_enabled :: "gw_env \<Rightarrow> bool" where
  "auth_and_tls_enabled E =
     (flag_is_true (or_empty (dget (ge_cfg E) ''auth'' PNone)) ''enabled'' \<and> flag_is_true (tls_section E) ''enabled'')"

definition api_key_gate_bypassed :: "gw_env \<Rightarrow> bool" where
  "api_key_gate_bypassed E = flag_is_true (or_empty (dget (ge_cfg E) ''security'' PNone)) ''api_key_optional''"

text \<open>
  The construction guard of an online client: mode \<open>hybrid\<close> and the literal flag of its provider.
  The sections are mappings, as the boot validation demands.
\<close>

definition section_of :: "(str, pyval) dict \<Rightarrow> str \<Rightarrow> (str, pyval) dict" where
  "section_of d key = (case dget d key (PDict []) of PDict s \<Rightarrow> s | _ \<Rightarrow> [])"

definition boot_client :: "(str, pyval) dict \<Rightarrow> str \<Rightarrow> 'c \<Rightarrow> 'c option" where
  "boot_client cfg provider c =
     (if dget (section_of cfg ''app'') ''mode'' PNone = PStr ''hybrid'' \<and>
         is_literal_true (dget (section_of (section_of cfg ''models'') provider) ''enabled'' PNone)
      then Some c else None)"

section \<open>The API key gate\<close>

definition api_key_bypass_allowed :: "gw_env \<Rightarrow> http_request \<Rightarrow> bool" where
  "api_key_bypass_allowed E rq =
     (if \<not> api_key_gate_bypassed E then False
      else if \<not> is_loopback_peer (ge_loopback_ip E) rq then False
      else if looks_proxied rq then False
      else \<not> looks_cross_site (ge_ip_ok E) (ge_allowed_hosts E) rq)"

definition key_not_set :: http_error where
  "key_not_set = HTTPException 401 (PStr ''Soul mutation disabled: CYCLAW_API_KEY not set'')"

definition bad_key :: http_error where
  "bad_key = HTTPException 401 (PStr ''Invalid or missing API key'')"

definition require_api_key :: "gw_env \<Rightarrow> http_request \<Rightarrow> http_error + unit" where
  "require_api_key E rq =
     (if api_key_bypass_allowed E rq then Inr ()
      else let api_key = oget (ge_environ E ''CYCLAW_API_KEY'') [] in
        if api_key = [] then Inl key_not_set
        else (case rq_credentials rq of None \<Rightarrow> Inl bad_key
           | Some c \<Rightarrow> if utf8 c = utf8 api_key then Inr () else Inl bad_key))"

section \<open>Rate limiting\<close>

definition audit :: "event \<Rightarrow> unit route" where
  [handler_simps]: "audit ev s = (Inr (), s\<lparr>gw_log := gw_log s @ [ev]\<rparr>)"

definition RATE_LIMIT_AUDIT_CAP :: nat where "RATE_LIMIT_AUDIT_CAP = 1024"

text \<open>The pruning of the throttle map: stale entries first, then the oldest beyond the cap.\<close>

definition prune_audit_map :: "seconds \<Rightarrow> seconds \<Rightarrow> (str, seconds) dict \<Rightarrow> (str, seconds) dict" where
  "prune_audit_map window now d =
     (if length d \<le> RATE_LIMIT_AUDIT_CAP then d
      else let fresh = filter (\<lambda>(ip, ts). \<not> ts < now - window) d;
               oldest = map fst (take (length fresh - RATE_LIMIT_AUDIT_CAP) (sort_key snd fresh)) in
        filter (\<lambda>(ip, ts). ip \<notin> set oldest) fresh)"

definition should_audit_rate_limit :: "seconds \<Rightarrow> str \<Rightarrow> seconds \<Rightarrow> (str, seconds) dict \<Rightarrow> bool \<times> (str, seconds) dict" where
  "should_audit_rate_limit window ip now d =
     (if (case map_of d ip of Some t \<Rightarrow> now - t < window | None \<Rightarrow> False) then (False, d)
      else (True, prune_audit_map window now (AList.update ip now d)))"

definition client_ip :: "http_request \<Rightarrow> str" where
  "client_ip rq = oget (rq_client rq) ''unknown''"

definition rate_limit_error :: "gw_env \<Rightarrow> http_error" where
  "rate_limit_error E = HTTPException 429 (PDict
     [(''error'', PStr (''Rate limit exceeded ('' @ ge_limit_text E @ '')'')), (''code'', PStr ''RATE_LIMIT'')])"

definition rate_limit_event :: "str \<Rightarrow> event" where
  "rate_limit_event ip = [(''event'', PStr ''rate_limit_exceeded''), (''ip'', PStr ip)]"

definition enforce_rate_limit :: "gw_env \<Rightarrow> http_request \<Rightarrow> unit route" where
  "enforce_rate_limit E rq s =
     (let ip = client_ip rq in
      case allow (ge_faults E) (ge_now E) ip (gw_limiter s) of
        (Inl _, l) \<Rightarrow> (Inl Unhandled, s\<lparr>gw_limiter := l\<rparr>)
      | (Inr True, l) \<Rightarrow> (Inr (), s\<lparr>gw_limiter := l\<rparr>)
      | (Inr False, l) \<Rightarrow>
          (case should_audit_rate_limit (window_seconds (fst l)) ip (ge_monotonic E) (gw_rl_audit s) of (b, d) \<Rightarrow>
             let s' = s\<lparr>gw_limiter := l, gw_rl_audit := d\<rparr> in
             (Inl (rate_limit_error E), if b then s'\<lparr>gw_log := gw_log s' @ [rate_limit_event ip]\<rparr> else s')))"

section \<open>Middleware and validation errors\<close>

definition too_large :: "int \<Rightarrow> http_error" where
  "too_large n = HTTPException 413 (PDict [(''error'', PStr (''request body exceeds '' @ int_str n @ '' bytes'')), (''code'', PStr ''PAYLOAD_TOO_LARGE'')])"

text \<open>\<open>_MaxBodySizeMiddleware.dispatch\<close>: the declared length decides before anything is read.\<close>

definition check_body_size :: "int \<Rightarrow> http_request \<Rightarrow> http_error + unit" where
  "check_body_size max_bytes rq =
     (case map_of (rq_headers rq) ''content-length'' of None \<Rightarrow> Inr ()
      | Some declared \<Rightarrow> (case py_int declared of None \<Rightarrow> Inr () | Some n \<Rightarrow> ensure (n \<le> max_bytes) (too_large max_bytes)))"

text \<open>\<open>_on_validation_error\<close>: the locations of the errors, each a list of rendered parts.\<close>

definition on_validation_error :: "str list list \<Rightarrow> http_error" where
  "on_validation_error locs =
     (let names = map (\<lambda>loc. let n = py_join ''.'' loc in if n = [] then ''unknown field'' else n) locs;
          named = py_join '', '' names in
      HTTPException 422 (PDict [(''error'', PStr (''request body failed validation: '' @ (if named = [] then ''unknown field'' else named))),
        (''code'', PStr ''VALIDATION_ERROR'')]))"

section \<open>What the key gate accepts\<close>

text \<open>
  C8: the API key gate. A request passes exactly when it presents the configured nonempty key,
  or when all conditions of the bypass hold: the flag is the literal boolean true, the socket peer
  is loopback, no forwarding header is present, and the request is not cross-site. An unset key
  admits nobody else.
\<close>

theorem api_key_gate_exact:
  "require_api_key E rq = Inr () \<longleftrightarrow>
     (\<exists>key. ge_environ E ''CYCLAW_API_KEY'' = Some key \<and> key \<noteq> [] \<and> rq_credentials rq = Some key) \<or>
     (\<exists>sec. dget (ge_cfg E) ''security'' PNone = PDict sec \<and> map_of sec ''api_key_optional'' = Some (PBool True) \<and>
       (\<exists>host. rq_client rq = Some host \<and> (host = ''localhost'' \<or> host \<noteq> [] \<and> ge_loopback_ip E host = Some True)) \<and>
       list_all (\<lambda>h. map_of (rq_headers rq) h = None) FORWARDING_HEADERS \<and>
       \<not> looks_cross_site (ge_ip_ok E) (ge_allowed_hosts E) rq)"
proof -
  have flag: "api_key_gate_bypassed E \<longleftrightarrow>
      (\<exists>sec. dget (ge_cfg E) ''security'' PNone = PDict sec \<and> map_of sec ''api_key_optional'' = Some (PBool True))"
    by (auto simp: api_key_gate_bypassed_def flag_is_true_def or_empty_def is_literal_true_def dget_def split: pyval.splits if_splits option.splits)
  have peer: "is_loopback_peer (ge_loopback_ip E) rq \<longleftrightarrow>
      (\<exists>host. rq_client rq = Some host \<and> (host = ''localhost'' \<or> host \<noteq> [] \<and> ge_loopback_ip E host = Some True))"
    by (auto simp: is_loopback_peer_def is_loopback_host_def split: option.splits if_splits)
  have proxied: "looks_proxied rq \<longleftrightarrow> \<not> list_all (\<lambda>h. map_of (rq_headers rq) h = None) FORWARDING_HEADERS"
    by (auto simp: looks_proxied_def list_ex_iff list_all_iff)
  have key: "require_api_key E rq = Inr () \<longleftrightarrow> api_key_bypass_allowed E rq \<or>
      (\<exists>key. ge_environ E ''CYCLAW_API_KEY'' = Some key \<and> key \<noteq> [] \<and> rq_credentials rq = Some key)"
    using utf8_inject by (auto simp: require_api_key_def oget_def Let_def split: option.splits if_splits)
  show ?thesis
    unfolding key api_key_bypass_allowed_def flag [symmetric] peer proxied using flag peer by auto
qed

section \<open>The throttled audit line\<close>

lemma filter_not_in_length:
  assumes "distinct xs" and "distinct ys" and "set ys \<subseteq> set xs"
  shows "length (filter (\<lambda>x. x \<notin> set ys) xs) = length xs - length ys"
proof -
  have "length (filter (\<lambda>x. x \<notin> set ys) xs) = card (set xs - set ys)"
    using assms(1) by (simp add: distinct_card [symmetric] set_diff_eq)
  also have "\<dots> = length xs - length ys" using assms by (simp add: card_Diff_subset distinct_card)
  finally show ?thesis .
qed

lemma prune_bounded:
  assumes "distinct (map fst d)"
  shows "length (prune_audit_map w now d) \<le> RATE_LIMIT_AUDIT_CAP \<and> distinct (map fst (prune_audit_map w now d))"
proof (cases "length d \<le> RATE_LIMIT_AUDIT_CAP")
  case False
  let ?fresh = "filter (\<lambda>(ip, ts). \<not> ts < now - w) d"
  let ?k = "length ?fresh - RATE_LIMIT_AUDIT_CAP"
  let ?old = "map fst (take ?k (sort_key snd ?fresh))"
  have keys: "distinct (map fst ?fresh)" using assms by (simp add: distinct_map_filter)
  then have "distinct (map fst (sort_key snd ?fresh))" by (simp add: distinct_map)
  then have old: "distinct ?old" by (simp add: take_map [symmetric])
  have sub: "set ?old \<subseteq> set (map fst ?fresh)" by (auto dest!: in_set_takeD)
  have "length (filter (\<lambda>x. x \<notin> set ?old) (map fst ?fresh)) = length ?fresh - ?k"
    using filter_not_in_length [OF keys old sub] by simp
  moreover have "length (filter (\<lambda>(ip, ts). ip \<notin> set ?old) ?fresh) = length (filter (\<lambda>x. x \<notin> set ?old) (map fst ?fresh))"
    by (simp only: filter_map comp_def length_map case_prod_unfold)
  ultimately have "length (filter (\<lambda>(ip, ts). ip \<notin> set ?old) ?fresh) \<le> RATE_LIMIT_AUDIT_CAP" by simp
  moreover have "distinct (map fst (filter (\<lambda>(ip, ts). ip \<notin> set ?old) ?fresh))" using keys by (simp only: distinct_map_filter)
  ultimately show ?thesis using False by (simp only: prune_audit_map_def Let_def if_False)
qed (use assms in \<open>simp add: prune_audit_map_def\<close>)

text \<open>
  The throttle of the rate limit audit. The map never holds more than the cap of addresses, a
  line is written exactly when the address is not in the map with a time stamp inside the window,
  and after it is written the next refusal of that address within the window writes none, as long
  as the address has not been evicted.
\<close>

theorem rate_limit_audit_throttled:
  assumes "distinct (map fst d)" and "length d \<le> RATE_LIMIT_AUDIT_CAP" and "should_audit_rate_limit w ip now d = (b, d')"
  shows "distinct (map fst d') \<and> length d' \<le> RATE_LIMIT_AUDIT_CAP \<and>
    (b \<longleftrightarrow> \<not> (\<exists>t. map_of d ip = Some t \<and> now - t < w)) \<and>
    (b \<and> map_of d' ip \<noteq> None \<and> later < now + w \<longrightarrow> \<not> fst (should_audit_rate_limit w ip later d'))"
proof (cases "\<exists>t. map_of d ip = Some t \<and> now - t < w")
  case True
  then show ?thesis using assms by (auto simp: should_audit_rate_limit_def)
next
  case False
  then have b: "b" and d': "d' = prune_audit_map w now (AList.update ip now d)"
    using assms(3) by (auto simp: should_audit_rate_limit_def split: option.splits if_splits)
  have "distinct (map fst (AList.update ip now d))" using assms(1) by (simp add: distinct_update)
  note bound = prune_bounded [OF this, of w now]
  have kept: "map_of d' ip = Some now" if "map_of d' ip \<noteq> None"
  proof -
    obtain t where t: "map_of d' ip = Some t" using \<open>map_of d' ip \<noteq> None\<close> by blast
    then have "(ip, t) \<in> set (AList.update ip now d)"
      using map_of_SomeD by (fastforce simp: d' prune_audit_map_def Let_def split: if_splits)
    moreover have "map_of (AList.update ip now d) ip = Some now" by (simp add: update_conv')
    ultimately show ?thesis using t \<open>distinct (map fst (AList.update ip now d))\<close> by (metis map_of_is_SomeI)
  qed
  have "\<not> fst (should_audit_rate_limit w ip later d')" if "map_of d' ip \<noteq> None" "later < now + w"
    using kept [OF that(1)] that(2) by (simp add: should_audit_rate_limit_def)
  then show ?thesis using bound b False by (simp only: d') blast
qed

theorem rate_limit_audit_throttled_witness:
  "should_audit_rate_limit 60 ''a'' 10 [(''b'', 5)] = (True, [(''b'', 5), (''a'', 10)]) \<and>
   fst (should_audit_rate_limit 60 ''a'' 20 [(''b'', 5), (''a'', 10)]) = False"
proof -
  have "should_audit_rate_limit 60 ''a'' 10 [(''b'', 5)] = (True, [(''b'', 5), (''a'', 10)])"
    by (simp add: should_audit_rate_limit_def prune_audit_map_def RATE_LIMIT_AUDIT_CAP_def)
  with rate_limit_audit_throttled [OF _ _ this, of 20] show ?thesis by (simp add: RATE_LIMIT_AUDIT_CAP_def)
qed

end
