(* ===== verification/Gateway_Auth.thy ===== *)
theory Gateway_Auth
  imports Gateway
begin

text \<open>
  Model of \<open>gate_auth.py\<close>: the dependencies that authenticate a caller and every \<open>/auth\<close> route,
  on top of the account operations of \<open>Authn_Manager\<close>. A request body has passed its schema, so its
  fields are strings. The random values a request draws are the argument \<open>fresh\<close>. A database
  operation of the manager runs as one step; the handlers that check the target account first and
  write later are the composition of both, each also a definition of its own.
\<close>

record fresh =
  fr_salt :: str
  fr_session :: str
  fr_csrf :: str

record cookie =
  ck_value :: str
  ck_httponly :: bool
  ck_samesite :: str
  ck_secure :: bool
  ck_max_age :: int

section \<open>Errors\<close>

definition auth_exception :: "int \<Rightarrow> str \<Rightarrow> str \<Rightarrow> http_error" where
  "auth_exception status ecode message = HTTPException status (auth_detail ecode message [])"

definition auth_disabled :: http_error where
  "auth_disabled = auth_exception 503 ''AUTH_DISABLED'' ''authentication is not enabled''"

definition session_invalid :: http_error where
  "session_invalid = auth_exception 401 ''AUTH_SESSION_INVALID'' ''no valid session''"

definition csrf_invalid :: http_error where
  "csrf_invalid = auth_exception 403 ''CSRF_TOKEN_INVALID'' ''missing or invalid CSRF token''"

definition auth_required :: http_error where
  "auth_required = auth_exception 401 ''AUTH_REQUIRED'' ''authentication required''"

definition permission_denied :: "str \<Rightarrow> http_error" where
  "permission_denied message = auth_exception 403 ''AUTH_PERMISSION_DENIED'' message"

definition loopback_only :: http_error where
  "loopback_only = auth_exception 403 ''AUTH_LOOPBACK_ONLY''
     ''first password must be set from this machine without reverse-proxy forwarding headers''"

definition user_missing :: http_error where
  "user_missing = auth_exception 500 ''AUTH_ERROR'' ''created user missing''"

definition policy_error :: "str \<Rightarrow> http_error" where
  "policy_error message = auth_exception 422 ''AUTH_POLICY'' message"

fun raise_auth_error :: "auth_error \<Rightarrow> http_error" where
  "raise_auth_error (AuthLastAdmin name action) = HTTPException 403 (auth_detail ''AUTH_LAST_ADMIN''
     ''cannot modify the last enabled admin'' [(''username'', PStr name), (''action'', PStr action)])"
| "raise_auth_error (AuthUserExists name) = HTTPException 409 (auth_detail ''AUTH_USER_EXISTS''
     (''user already exists: '' @ name) [(''username'', PStr name)])"
| "raise_auth_error (AuthUserNotFound name) = HTTPException 404 (auth_detail ''AUTH_USER_NOT_FOUND''
     (''unknown user: '' @ name) [(''username'', PStr name)])"
| "raise_auth_error (PasswordPolicyError message) = policy_error message"
| "raise_auth_error _ = Unhandled"

fun bootstrap_error :: "auth_error \<Rightarrow> http_error" where
  "bootstrap_error (AuthBootstrapComplete name) = HTTPException 409 (auth_detail ''AUTH_BOOTSTRAP_COMPLETE''
     ''admin password is already set'' [(''username'', PStr name)])"
| "bootstrap_error (PasswordPolicyError message) = policy_error message"
| "bootstrap_error _ = Unhandled"

section \<open>Steps on the account database\<close>

definition on_auth :: "(auth_db \<Rightarrow> 'a \<times> auth_db) \<Rightarrow> 'a route" where
  [handler_simps]: "on_auth f s = (case f (gw_auth s) of (x, db) \<Rightarrow> (Inr x, s\<lparr>gw_auth := db\<rparr>))"

text \<open>An operation of the manager whose exceptions become responses.\<close>

definition try_auth :: "(auth_error \<Rightarrow> http_error) \<Rightarrow> (auth_db \<Rightarrow> (auth_error + 'a) \<times> auth_db) \<Rightarrow> 'a route" where
  [handler_simps]: "try_auth err f s = (case f (gw_auth s) of (Inl e, db) \<Rightarrow> (Inl (err e), s\<lparr>gw_auth := db\<rparr>)
     | (Inr x, db) \<Rightarrow> (Inr x, s\<lparr>gw_auth := db\<rparr>))"

definition read_auth :: "(auth_db \<Rightarrow> 'a) \<Rightarrow> 'a route" where
  [handler_simps]: "read_auth f s = (Inr (f (gw_auth s)), s)"

definition check :: "http_error + 'a \<Rightarrow> 'a route" where
  [handler_simps]: "check r s = (r, s)"

section \<open>Dependencies\<close>

definition require_enabled :: "gw_env \<Rightarrow> unit route" where
  "require_enabled E = hensure (auth_on E) auth_disabled"

definition validate_cookie :: "gw_env \<Rightarrow> str \<Rightarrow> session_info option route" where
  "validate_cookie E sid = on_auth (validate_session (ge_crypto E) (ge_auth_cfg E) sid (ge_now E))"

definition session_from_cookie :: "gw_env \<Rightarrow> http_request \<Rightarrow> session_info route" where
  "session_from_cookie E rq =
     hbind (require_enabled E) (\<lambda>_.
     hbind (validate_cookie E (oget (rq_session_cookie rq) [])) (\<lambda>info.
     check (of_option session_invalid info)))"

definition csrf_ok :: "gw_env \<Rightarrow> http_request \<Rightarrow> session_info \<Rightarrow> bool" where
  "csrf_ok E rq info =
     (utf8 (hash_token (ge_crypto E) (dget (rq_headers rq) ''x-cyclaw-csrf'' [])) = utf8 (si_csrf_token info))"

definition enforce_csrf :: "gw_env \<Rightarrow> http_request \<Rightarrow> session_info route" where
  "enforce_csrf E rq =
     hbind (session_from_cookie E rq) (\<lambda>info.
     hbind (hensure (csrf_ok E rq info) csrf_invalid) (\<lambda>_. hret info))"

definition bearer_token :: "http_request \<Rightarrow> str option" where
  "bearer_token rq = (case map_of (rq_headers rq) ''authorization'' of
       Some a \<Rightarrow> if a \<noteq> [] \<and> py_startswith (py_lower a) ''bearer '' then Some (py_strip (drop 7 a)) else None
     | None \<Rightarrow> None)"

text \<open>A session cookie that is present and valid.\<close>

definition cookie_session :: "gw_env \<Rightarrow> http_request \<Rightarrow> session_info option route" where
  "cookie_session E rq =
     (let sid = oget (rq_session_cookie rq) [] in if sid = [] then hret None else validate_cookie E sid)"

definition verify_bearer :: "gw_env \<Rightarrow> str \<Rightarrow> str option route" where
  "verify_bearer E token = on_auth (verify_device_token (ge_crypto E) token (ge_now E))"

definition rejected_event :: "http_request \<Rightarrow> event" where
  "rejected_event rq = [(''event'', PStr ''auth_credential_rejected''), (''path'', PStr (rq_path rq))]"

definition require_session_or_token :: "gw_env \<Rightarrow> http_request \<Rightarrow> str route" where
  "require_session_or_token E rq =
     hbind (require_enabled E) (\<lambda>_.
     hbind (cookie_session E rq) (\<lambda>info.
     hbind (case (info, bearer_token rq) of
         (Some i, _) \<Rightarrow> hret (Some (si_username i))
       | (None, Some token) \<Rightarrow> verify_bearer E token
       | (None, None) \<Rightarrow> hret None) (\<lambda>username.
     case username of
       Some u \<Rightarrow> hret u
     | None \<Rightarrow> hbind (enforce_rate_limit E rq) (\<lambda>_. hbind (audit (rejected_event rq)) (\<lambda>_. hraise auth_required)))))"

definition user_from_identity :: "gw_env \<Rightarrow> str \<Rightarrow> user_summary route" where
  "user_from_identity E username =
     hbind (require_enabled E) (\<lambda>_.
     hbind (read_auth (get_user (PStr username))) (\<lambda>user. check (of_option auth_required user)))"

definition require_write_actor :: "gw_env \<Rightarrow> http_request \<Rightarrow> user_summary route" where
  "require_write_actor E rq =
     hbind (require_enabled E) (\<lambda>_.
     hbind (cookie_session E rq) (\<lambda>info.
     case info of
       Some i \<Rightarrow> hbind (hensure (csrf_ok E rq i) csrf_invalid) (\<lambda>_. user_from_identity E (si_username i))
     | None \<Rightarrow>
         (case bearer_token rq of
            Some token \<Rightarrow>
              hbind (verify_bearer E token) (\<lambda>username.
              hbind (check (of_option auth_required username)) (\<lambda>u.
              hbind (user_from_identity E u) (\<lambda>user.
              hbind (hensure (us_role user = ''admin'') (permission_denied ''bearer admin writes require an admin token'')) (\<lambda>_.
                hret user))))
          | None \<Rightarrow> hraise auth_required)))"

text \<open>The dependencies every \<open>/auth\<close> route declares.\<close>

definition auth_route :: "gw_env \<Rightarrow> http_request \<Rightarrow> 'a route \<Rightarrow> 'a route" where
  "auth_route E rq body =
     hbind (enforce_rate_limit E rq) (\<lambda>_.
     hbind (check (enforce_same_origin (ge_ip_ok E) (ge_allowed_hosts E) rq)) (\<lambda>_. body))"

section \<open>Permissions\<close>

definition assert_can_list :: "user_summary \<Rightarrow> http_error + unit" where
  "assert_can_list actor = ensure (us_role actor \<in> {''admin'', ''operator''}) (permission_denied ''users list denied'')"

definition assert_can_create :: "user_summary \<Rightarrow> str \<Rightarrow> http_error + unit" where
  "assert_can_create actor new_role =
     (if us_role actor = ''admin'' \<and> new_role \<in> set ROLES then Inr ()
      else if us_role actor = ''operator'' \<and> new_role \<in> {''operator'', ''audit''} then Inr ()
      else Inl (permission_denied ''create user denied''))"

definition assert_can_touch :: "user_summary \<Rightarrow> user_summary \<Rightarrow> bool \<Rightarrow> bool \<Rightarrow> http_error + unit" where
  "assert_can_touch actor target del setr =
     (if us_role actor = ''admin'' then Inr ()
      else if us_role actor = ''operator'' then
        (if del \<or> setr \<or> us_role target = ''admin'' then Inl (permission_denied ''operator cannot perform this action'') else Inr ())
      else Inl (permission_denied ''admin write denied''))"

section \<open>Sessions\<close>

definition session_cookie :: "gw_env \<Rightarrow> str \<Rightarrow> cookie" where
  "session_cookie E sid = \<lparr>ck_value = sid, ck_httponly = True, ck_samesite = ''strict'',
     ck_secure = flag_is_true (tls_section E) ''enabled'', ck_max_age = \<lfloor>absolute_timeout_sec (ge_auth_cfg E)\<rfloor>\<rparr>"

definition event_of :: "str \<Rightarrow> (str \<times> str) list \<Rightarrow> event" where
  "event_of name kvs = (''event'', PStr name) # map (\<lambda>(k, v). (k, PStr v)) kvs"

definition auth_setup_status :: "gw_env \<Rightarrow> http_request \<Rightarrow> (bool \<times> str option) route" where
  "auth_setup_status E rq = auth_route E rq
     (hbind (require_enabled E) (\<lambda>_.
      hbind (read_auth needs_password_setup) (\<lambda>pending.
        hret (pending, if pending then Some BOOTSTRAP_USERNAME else None))))"

definition auth_bootstrap_password :: "gw_env \<Rightarrow> http_request \<Rightarrow> fresh \<Rightarrow> str \<Rightarrow> (login_result \<times> cookie) route" where
  "auth_bootstrap_password E rq R password = auth_route E rq
     (hbind (require_enabled E) (\<lambda>_.
      hbind (hensure (client_is_loopback (ge_loopback_ip E) rq \<and> \<not> looks_proxied rq) loopback_only) (\<lambda>_.
      hbind (try_auth bootstrap_error (bootstrap_set_password (ge_crypto E) (ge_auth_cfg E) (PStr password)
               (fr_salt R) (fr_session R) (fr_csrf R) (ge_now E))) (\<lambda>lr.
      hbind (audit (event_of ''auth_bootstrap_password_set'' [(''username'', lr_username lr)])) (\<lambda>_.
        hret (lr, session_cookie E (lr_session_id lr)))))))"

definition locked_error :: "seconds \<Rightarrow> http_error" where
  "locked_error retry = HTTPException 423 (auth_detail ''AUTH_ACCOUNT_LOCKED''
     (''account temporarily locked, retry in '' @ int_str (\<lfloor>retry\<rfloor> + 1) @ ''s'') [(''retry_after_sec'', PFloat retry)])"

definition login_failed_error :: http_error where
  "login_failed_error = auth_exception 401 ''AUTH_LOGIN_FAILED'' ''invalid username or password''"

definition auth_login :: "gw_env \<Rightarrow> http_request \<Rightarrow> fresh \<Rightarrow> str \<Rightarrow> str \<Rightarrow> (login_result \<times> cookie) route" where
  "auth_login E rq R username password = auth_route E rq
     (hbind (require_enabled E) (\<lambda>_.
      hbind (on_auth (login (ge_crypto E) (ge_auth_cfg E) (PStr username) (PStr password)
               (fr_salt R) (fr_session R) (fr_csrf R) (ge_now E))) (\<lambda>out.
      case out of
        Inl (AuthAccountLocked _ retry) \<Rightarrow>
          hbind (audit (event_of ''auth_login_locked'' [(''ip'', client_ip rq)])) (\<lambda>_. hraise (locked_error retry))
      | Inl AuthLoginFailed \<Rightarrow>
          hbind (audit (event_of ''auth_login_failed'' [(''ip'', client_ip rq)])) (\<lambda>_. hraise login_failed_error)
      | Inl _ \<Rightarrow> hraise Unhandled
      | Inr lr \<Rightarrow>
          hbind (audit (event_of ''auth_login_ok'' [(''ip'', client_ip rq), (''username'', lr_username lr)])) (\<lambda>_.
            hret (lr, session_cookie E (lr_session_id lr))))))"

definition auth_logout :: "gw_env \<Rightarrow> http_request \<Rightarrow> unit route" where
  "auth_logout E rq = auth_route E rq
     (hbind (enforce_csrf E rq) (\<lambda>info.
      hbind (require_enabled E) (\<lambda>_.
      hbind (on_auth (logout (ge_crypto E) (si_session_id info))) (\<lambda>_.
        audit (event_of ''auth_logout'' [(''username'', si_username info)])))))"

definition auth_whoami :: "gw_env \<Rightarrow> http_request \<Rightarrow> fresh \<Rightarrow> (str \<times> str \<times> str option) route" where
  "auth_whoami E rq R = auth_route E rq
     (hbind (require_session_or_token E rq) (\<lambda>username.
      hbind (require_enabled E) (\<lambda>_.
      hbind (read_auth (get_user (PStr username))) (\<lambda>user.
        let role = (case user of Some u \<Rightarrow> us_role u | None \<Rightarrow> DEFAULT_ROLE) in
      hbind (cookie_session E rq) (\<lambda>info.
      hbind (if (case info of Some i \<Rightarrow> si_username i = username | None \<Rightarrow> False)
             then on_auth (rotate_csrf (ge_crypto E) (ge_auth_cfg E) (oget (rq_session_cookie rq) []) (fr_csrf R) (ge_now E))
             else hret None) (\<lambda>csrf.
        hret (username, role, csrf)))))))"

section \<open>User administration\<close>

record user_record =
  ur_username :: str
  ur_role :: str
  ur_disabled :: bool
  ur_created_ts :: seconds
  ur_last_login_ts :: "seconds option"
  ur_locked :: bool

definition record_from_user :: "user_summary \<Rightarrow> user_record" where
  "record_from_user u = \<lparr>ur_username = us_username u, ur_role = us_role u, ur_disabled = us_disabled u,
     ur_created_ts = us_created_ts u, ur_last_login_ts = us_last_login_ts u, ur_locked = (us_locked_until_ts u \<noteq> None)\<rparr>"

definition auth_list_users :: "gw_env \<Rightarrow> http_request \<Rightarrow> user_record list route" where
  "auth_list_users E rq = auth_route E rq
     (hbind (require_session_or_token E rq) (\<lambda>username.
      hbind (user_from_identity E username) (\<lambda>actor.
      hbind (check (assert_can_list actor)) (\<lambda>_.
      hbind (require_enabled E) (\<lambda>_.
      hbind (read_auth list_users) (\<lambda>us. hret (map record_from_user us)))))))"

definition auth_create_user :: "gw_env \<Rightarrow> http_request \<Rightarrow> fresh \<Rightarrow> str \<Rightarrow> str \<Rightarrow> str \<Rightarrow> user_record route" where
  "auth_create_user E rq R username password role = auth_route E rq
     (hbind (require_write_actor E rq) (\<lambda>actor.
      hbind (check (case validate_role (PStr role) of Inl e \<Rightarrow> Inl (raise_auth_error e) | Inr r \<Rightarrow> Inr r)) (\<lambda>r.
      hbind (check (assert_can_create actor r)) (\<lambda>_.
      hbind (require_enabled E) (\<lambda>_.
      hbind (try_auth raise_auth_error (create_user (ge_crypto E) (PStr username) (PStr password) (PStr r) (fr_salt R) (ge_now E))) (\<lambda>created.
      hbind (audit (event_of ''auth_user_created'' [(''username'', us_username actor), (''target'', created), (''role'', r)])) (\<lambda>_.
      hbind (read_auth (get_user (PStr created))) (\<lambda>user.
      hbind (check (of_option user_missing user)) (\<lambda>u. hret (record_from_user u))))))))))"

text \<open>The first part of the handlers that work on a named account: who acts, on whom, and whether that is permitted.\<close>

definition touch_check :: "gw_env \<Rightarrow> http_request \<Rightarrow> str \<Rightarrow> (user_summary \<times> user_summary) route" where
  "touch_check E rq username =
     hbind (require_write_actor E rq) (\<lambda>actor.
     hbind (require_enabled E) (\<lambda>_.
     hbind (read_auth (get_user (PStr username))) (\<lambda>target.
     hbind (check (of_option (raise_auth_error (AuthUserNotFound username)) target)) (\<lambda>t.
     hbind (check (assert_can_touch actor t False False)) (\<lambda>_. hret (actor, t))))))"

definition touch_event :: "str \<Rightarrow> user_summary \<times> user_summary \<Rightarrow> event" where
  "touch_event name who = event_of name [(''username'', us_username (fst who)), (''target'', us_username (snd who))]"

definition set_password_write :: "gw_env \<Rightarrow> fresh \<Rightarrow> str \<Rightarrow> str \<Rightarrow> unit route" where
  "set_password_write E R username password =
     try_auth raise_auth_error (set_password (ge_crypto E) (PStr username) (PStr password) (fr_salt R))"

definition auth_set_password :: "gw_env \<Rightarrow> http_request \<Rightarrow> fresh \<Rightarrow> str \<Rightarrow> str \<Rightarrow> unit route" where
  "auth_set_password E rq R username password = auth_route E rq
     (hbind (touch_check E rq username) (\<lambda>who.
      hbind (set_password_write E R username password) (\<lambda>_. audit (touch_event ''auth_password_reset'' who))))"

definition auth_set_own_password :: "gw_env \<Rightarrow> http_request \<Rightarrow> fresh \<Rightarrow> str \<Rightarrow> unit route" where
  "auth_set_own_password E rq R password = auth_route E rq
     (hbind (require_write_actor E rq) (\<lambda>actor.
      hbind (require_enabled E) (\<lambda>_.
      hbind (set_password_write E R (us_username actor) password) (\<lambda>_.
        audit (touch_event ''auth_password_self'' (actor, actor))))))"

definition auth_set_role :: "gw_env \<Rightarrow> http_request \<Rightarrow> str \<Rightarrow> str \<Rightarrow> unit route" where
  "auth_set_role E rq username role = auth_route E rq
     (hbind (require_write_actor E rq) (\<lambda>actor.
      hbind (hensure (us_role actor = ''admin'') (permission_denied ''only admin can set roles'')) (\<lambda>_.
      hbind (check (case validate_role (PStr role) of Inl e \<Rightarrow> Inl (raise_auth_error e) | Inr r \<Rightarrow> Inr r)) (\<lambda>r.
      hbind (require_enabled E) (\<lambda>_.
      hbind (try_auth raise_auth_error (set_role (PStr username) (PStr r))) (\<lambda>_.
        audit (event_of ''auth_role_set'' [(''username'', us_username actor), (''target'', username), (''role'', role)])))))))"

definition auth_disable_user :: "gw_env \<Rightarrow> http_request \<Rightarrow> str \<Rightarrow> unit route" where
  "auth_disable_user E rq username = auth_route E rq
     (hbind (touch_check E rq username) (\<lambda>who.
      hbind (try_auth raise_auth_error (disable_user (PStr username))) (\<lambda>_. audit (touch_event ''auth_user_disabled'' who))))"

definition auth_enable_user :: "gw_env \<Rightarrow> http_request \<Rightarrow> str \<Rightarrow> unit route" where
  "auth_enable_user E rq username = auth_route E rq
     (hbind (touch_check E rq username) (\<lambda>who.
      hbind (try_auth raise_auth_error (enable_user (PStr username))) (\<lambda>_. audit (touch_event ''auth_user_enabled'' who))))"

definition auth_delete_user :: "gw_env \<Rightarrow> http_request \<Rightarrow> str \<Rightarrow> unit route" where
  "auth_delete_user E rq username = auth_route E rq
     (hbind (require_write_actor E rq) (\<lambda>actor.
      hbind (hensure (us_role actor = ''admin'') (permission_denied ''only admin can delete users'')) (\<lambda>_.
      hbind (require_enabled E) (\<lambda>_.
      hbind (try_auth raise_auth_error (delete_user (PStr username))) (\<lambda>_.
        audit (event_of ''auth_user_deleted'' [(''username'', us_username actor), (''target'', username)]))))))"

text \<open>\<open>summary\<close> is the aggregation of the audit file by \<open>metrics.py\<close>.\<close>

definition auth_audit_summary :: "gw_env \<Rightarrow> 'a \<Rightarrow> http_request \<Rightarrow> 'a route" where
  "auth_audit_summary E summary rq = auth_route E rq
     (hbind (require_session_or_token E rq) (\<lambda>username.
      hbind (user_from_identity E username) (\<lambda>actor.
      hbind (hensure (us_role actor \<in> {''admin'', ''audit''}) (permission_denied ''audit view denied'')) (\<lambda>_.
        hret summary))))"

end
