(* ===== verification/Error_Redaction.thy ===== *)
theory Error_Redaction
  imports Prelude "HOL-Library.Sublist"
begin

text \<open>
  Model of \<open>_sanitize_error\<close> of \<open>gate.py\<close>: what is left of an exception's text before it goes into
  a response or an audit line. \<open>re_sub p s\<close> is \<open>re.sub\<close> of the pattern \<open>p\<close> (with its flags) by the
  redaction mark; \<open>environ\<close> is \<open>os.environ.get\<close>.
\<close>

section \<open>Replacing a substring\<close>

text \<open>
  \<open>s.split(old)\<close> for a nonempty \<open>old\<close>: the pieces between its occurrences, found from the left
  without overlap. \<open>s.replace(old, new)\<close> joins them by \<open>new\<close>.
\<close>

function split_on :: "str \<Rightarrow> str \<Rightarrow> str list" where
  "split_on old [] = [[]]"
| "split_on old (c # cs) =
     (if old \<noteq> [] \<and> prefix old (c # cs) then [] # split_on old (drop (length old) (c # cs))
      else case split_on old cs of [] \<Rightarrow> [[c]] | y # ys \<Rightarrow> (c # y) # ys)"
  by pat_completeness auto

termination
  by (relation "measure (\<lambda>(old, s). length s)") (auto simp: neq_Nil_conv)

definition py_replace :: "str \<Rightarrow> str \<Rightarrow> str \<Rightarrow> str" where
  "py_replace old new s = py_join new (split_on old s)"

section \<open>The redaction\<close>

definition REDACTED :: str where "REDACTED = ''[REDACTED]''"

text \<open>A backslash.\<close>

definition bs :: str where "bs = [CHR 0x5C]"

definition SECRET_PATTERNS :: "str list" where
  "SECRET_PATTERNS =
     [''Bearer'' @ bs @ ''s+[A-Za-z0-9'' @ bs @ ''-_'' @ bs @ ''.]+'',
      ''[Aa][Pp][Ii][_-]?[Kk][Ee][Yy]['' @ [CHR 0x22] @ bs @ ''s:=]+['' @ bs @ ''w'' @ bs @ ''-'' @ bs @ ''.]+'',
      ''sk-[A-Za-z0-9]{20,}'',
      ''sk-ant-[A-Za-z0-9_'' @ bs @ ''-]{20,}'',
      ''xai-[A-Za-z0-9]{20,}'',
      ''ghp_[A-Za-z0-9]{36}'',
      ''xox[baprs]-[0-9a-zA-Z'' @ bs @ ''-]+'',
      ''AKIA[0-9A-Z]{16}'']"

definition CREDENTIAL_VARS :: "str list" where
  "CREDENTIAL_VARS = [''GROK_API_KEY'', ''ANTHROPIC_API_KEY'', ''LANGCHAIN_API_KEY'', ''LANGSMITH_API_KEY'', ''SSC_TOKEN'', ''CYCLAW_API_KEY'']"

definition redact_var :: "(str \<Rightarrow> str option) \<Rightarrow> str \<Rightarrow> str \<Rightarrow> str" where
  "redact_var environ var msg =
     (let val = oget (environ var) [] in if val \<noteq> [] \<and> 8 < length val then py_replace val REDACTED msg else msg)"

definition sanitize_error :: "(str \<Rightarrow> str \<Rightarrow> str) \<Rightarrow> (str \<Rightarrow> str option) \<Rightarrow> str \<Rightarrow> str" where
  "sanitize_error re_sub environ msg = fold (redact_var environ) CREDENTIAL_VARS (fold re_sub SECRET_PATTERNS msg)"

section \<open>No credential survives\<close>

lemma split_on_not_Nil: "split_on old s \<noteq> []"
  by (induction old s rule: split_on.induct) (auto split: list.split)

text \<open>Joining the pieces by \<open>old\<close> gives the text back, and no piece contains \<open>old\<close>.\<close>

lemma split_on_join: "py_join old (split_on old s) = s"
proof (induction old s rule: split_on.induct)
  case (2 old c cs)
  show ?case
  proof (cases "old \<noteq> [] \<and> prefix old (c # cs)")
    case True
    then have "py_join old (split_on old (c # cs)) = old @ py_join old (split_on old (drop (length old) (c # cs)))"
      using split_on_not_Nil [of old "drop (length old) (c # cs)"] by (cases "split_on old (drop (length old) (c # cs))") auto
    also have "\<dots> = old @ drop (length old) (c # cs)" using 2(1) True by simp
    also have "\<dots> = c # cs" using True by (metis append_eq_conv_conj prefixE)
    finally show ?thesis .
  next
    case False
    then have ih: "py_join old (split_on old cs) = cs" using 2(2) by blast
    obtain y ys where "split_on old cs = y # ys" using split_on_not_Nil by (cases "split_on old cs") auto
    with ih False show ?thesis by (cases ys) auto
  qed
qed simp

lemma split_on_head: "prefix (hd (split_on old s)) s"
proof -
  obtain y ys where "split_on old s = y # ys" using split_on_not_Nil by (cases "split_on old s") auto
  then show ?thesis using split_on_join [of old s] by (cases ys) auto
qed

lemma split_on_free: "old \<noteq> [] \<Longrightarrow> piece \<in> set (split_on old s) \<Longrightarrow> \<not> sublist old piece"
proof (induction old s arbitrary: piece rule: split_on.induct)
  case (2 old c cs)
  show ?case
  proof (cases "prefix old (c # cs)")
    case True
    then show ?thesis using 2 by auto
  next
    case False
    obtain y ys where sp: "split_on old cs = y # ys" using split_on_not_Nil by (cases "split_on old cs") auto
    have "prefix y cs" using split_on_head [of old cs] sp by simp
    then have "\<not> prefix old (c # y)" using False by (meson Cons_prefix_Cons prefix_order.trans)
    moreover have "\<not> sublist old p" if "p \<in> set (y # ys)" for p using 2(2) False 2(3) that sp by auto
    ultimately show ?thesis using 2(3,4) False sp by (auto simp: sublist_Cons_right)
  qed
qed auto

lemma sublist_avoid:
  assumes "c \<notin> set k" and "sublist k (x @ c # t)"
  shows "sublist k x \<or> sublist k t"
proof -
  have pre: "b = []" if "prefix b (c # t)" "set b \<subseteq> set k" for b
    using that assms(1) by (cases b) auto
  from assms(2) consider "sublist k x" | "sublist k (c # t)" | a b where "k = a @ b" "suffix a x" "prefix b (c # t)"
    by (auto simp: sublist_append)
  then show ?thesis
  proof cases
    case 2
    then show ?thesis using pre [of k] by (auto simp: sublist_Cons_right)
  next
    case 3
    then show ?thesis using pre [of b] by (auto simp: suffix_imp_sublist)
  qed simp
qed

text \<open>A text without brackets, longer than the word inside the mark, can only occur within one piece.\<close>

lemma sublist_join_redacted:
  assumes "CHR ''['' \<notin> set k" and "CHR '']'' \<notin> set k" and "8 < length k"
  shows "sublist k (py_join REDACTED ps) \<Longrightarrow> \<exists>p \<in> set ps. sublist k p"
proof (induction ps rule: induct_list012)
  case (3 x y xs)
  let ?rest = "py_join REDACTED (y # xs)"
  have "sublist k (x @ CHR ''['' # ''REDACTED'' @ CHR '']'' # ?rest)" using 3(3) by (simp add: REDACTED_def)
  then have "sublist k x \<or> sublist k (''REDACTED'' @ CHR '']'' # ?rest)" by (rule sublist_avoid [OF assms(1)])
  moreover have "length ''REDACTED'' = 8" by simp
  then have "\<not> sublist k ''REDACTED''" using assms(3) sublist_length_le [of k "''REDACTED''"] by linarith
  ultimately have "sublist k x \<or> sublist k ?rest" using sublist_avoid [OF assms(2), of "''REDACTED''" ?rest] by argo
  then show ?case using 3(2) by auto
next
  case 1
  then show ?case using assms(3) by simp
next
  case (2 x)
  then show ?case by simp
qed

lemma replace_removes:
  assumes "CHR ''['' \<notin> set k" and "CHR '']'' \<notin> set k" and "8 < length k"
  shows "\<not> sublist k (py_replace k REDACTED s)"
proof -
  have "k \<noteq> []" using assms(3) by auto
  then show ?thesis using sublist_join_redacted [OF assms] split_on_free unfolding py_replace_def by blast
qed

lemma piece_sublist: "p \<in> set ps \<Longrightarrow> sublist p (py_join sep ps)"
  by (induction sep ps rule: py_join.induct) (auto simp: sublist_append)

lemma replace_keeps:
  assumes "CHR ''['' \<notin> set k" and "CHR '']'' \<notin> set k" and "8 < length k" and "\<not> sublist k s"
  shows "\<not> sublist k (py_replace old REDACTED s)"
proof
  assume "sublist k (py_replace old REDACTED s)"
  then obtain p where p: "p \<in> set (split_on old s)" "sublist k p"
    using sublist_join_redacted [OF assms(1-3)] unfolding py_replace_def by blast
  then have "sublist p s" using piece_sublist [of p "split_on old s" old] by (simp add: split_on_join)
  with p(2) assms(4) show False using sublist_order.order_trans by blast
qed

lemma redact_vars_remove:
  assumes "CHR ''['' \<notin> set k" and "CHR '']'' \<notin> set k" and "8 < length k"
    and "\<not> sublist k msg \<or> (\<exists>var \<in> set vars. environ var = Some k)"
  shows "\<not> sublist k (fold (redact_var environ) vars msg)"
  using assms(4)
proof (induction vars arbitrary: msg)
  case (Cons var vars)
  have "\<not> sublist k (redact_var environ var msg) \<or> (\<exists>v \<in> set vars. environ v = Some k)"
  proof (cases "environ var = Some k")
    case True
    then have "redact_var environ var msg = py_replace k REDACTED msg"
      using assms(3) by (auto simp: redact_var_def oget_def)
    then show ?thesis using replace_removes [OF assms(1-3)] by simp
  next
    case False
    then have "\<not> sublist k msg \<or> (\<exists>v \<in> set vars. environ v = Some k)" using Cons.prems by auto
    then show ?thesis using replace_keeps [OF assms(1-3)] by (auto simp: redact_var_def Let_def)
  qed
  then show ?case using Cons.IH by simp
qed simp

text \<open>
  C39: no live credential in an error text. If one of the credential variables holds a value of
  more than eight characters without square brackets, that value does not occur in a sanitised
  error message, whatever the message was, whatever the pattern replacements did to it and
  whatever the other variables hold: neither a replacement for another variable nor the mark
  itself can put it together again. (The length guard of the code is what makes the mark safe.)
\<close>

theorem error_never_leaks_credential:
  assumes "var \<in> set CREDENTIAL_VARS" and "environ var = Some val" and "8 < length val"
    and "CHR ''['' \<notin> set val" and "CHR '']'' \<notin> set val"
  shows "\<not> sublist val (sanitize_error re_sub environ msg)"
  unfolding sanitize_error_def using redact_vars_remove [OF assms(4,5,3)] assms(1,2) by blast

theorem error_never_leaks_credential_witness:
  "\<not> sublist ''secret-key-1'' (sanitize_error (\<lambda>_ m. m) (\<lambda>v. if v = ''CYCLAW_API_KEY'' then Some ''secret-key-1'' else None)
     ''auth failed for secret-key-1'')"
  by (rule error_never_leaks_credential [of "''CYCLAW_API_KEY''"]) (simp_all add: CREDENTIAL_VARS_def)

end
