(* ===== verification/Gateway_Query.thy ===== *)
theory Gateway_Query
  imports Gateway_Auth Error_Redaction Graph_Claims
begin

text \<open>
  Model of \<open>POST /query\<close> in \<open>gate.py\<close>: the dependencies wired onto the route, the rate limit, the role
  check, the injection filter, the graph run with its deadline, and the two kinds of response. The
  body has passed its schema. Whether the deadline passes first and the text of an exception of the
  graph are arguments; the worker thread is not cancelled by the deadline, so the effects of the run
  happen in both cases. The optional monitor call after the run, whose failures are swallowed and whose
  result is not used, is left out.
\<close>

section \<open>Requests and responses\<close>

record query_request =
  q_query :: str
  q_user_confirmed_online :: "bool option"
  q_online_provider :: "str option"

record source_info =
  so_source :: str
  so_score :: rat
  so_chunk_id :: int
  so_source_sha256 :: str
  so_stem_tags :: "str list"
  so_semantic_score :: "rat option"
  so_semantic_rank :: "nat option"
  so_keyword_score :: "rat option"
  so_keyword_rank :: "nat option"
  so_rrf_score :: "rat option"
  so_rrf_semantic_contrib :: "rat option"
  so_rrf_keyword_contrib :: "rat option"

record query_response =
  qr_answer :: str
  qr_sources :: "source_info list"
  qr_retrieval_mode :: str
  qr_hit_count :: nat
  qr_model_used :: str
  qr_llm_model :: "str option"
  qr_needs_confirm :: bool
  qr_confirm_message :: "str option"
  qr_available_providers :: "str list"
  qr_error :: "str option"

definition gate_detail :: "str \<Rightarrow> str \<Rightarrow> pyval" where
  "gate_detail message ecode = PDict [(''error'', PStr message), (''code'', PStr ecode)]"

definition cross_site_query :: http_error where
  "cross_site_query = HTTPException 403 (gate_detail ''Cross-site request rejected'' ''CROSS_SITE_BLOCKED'')"

definition index_not_built :: http_error where
  "index_not_built = HTTPException 503 (gate_detail ''Index not built. Run: python -m retrieval.indexer'' ''INDEX_NOT_FOUND'')"

definition audit_role_denied :: http_error where
  "audit_role_denied = HTTPException 403 (gate_detail ''audit role cannot call /query'' ''AUTH_ROLE_DENIED'')"

definition reject_cross_site_query :: "gw_env \<Rightarrow> http_request \<Rightarrow> unit route" where
  "reject_cross_site_query E rq = hensure (\<not> looks_cross_site (ge_ip_ok E) (ge_allowed_hosts E) rq) cross_site_query"

definition forbid_audit_query :: "gw_env \<Rightarrow> str option \<Rightarrow> unit route" where
  "forbid_audit_query E username =
     (if username = None \<or> username = Some [] \<or> \<not> auth_on E then hret ()
      else hbind (read_auth (get_user (PStr (the username)))) (\<lambda>actor.
        hensure (case actor of Some u \<Rightarrow> us_role u \<noteq> ''audit'' | None \<Rightarrow> True) audit_role_denied))"

definition audit_query :: "str option \<Rightarrow> event \<Rightarrow> unit route" where
  "audit_query username e = audit (case username of Some u \<Rightarrow> if u \<noteq> [] then e @ [(''username'', PStr u)] else e | None \<Rightarrow> e)"

section \<open>The injection filter\<close>

text \<open>The error body of a \<open>PromptInjectionError\<close>; \<open>py_str\<close> renders the configured limit.\<close>

definition filter_response :: "(pyval \<Rightarrow> str) \<Rightarrow> filter_error \<Rightarrow> http_error" where
  "filter_response py_str e = (case e of
      InputTooLong n m \<Rightarrow> HTTPException 400 (PDict [(''error'', PStr (''Input exceeds maximum length: '' @ nat_str n @ '' chars (max '' @
          to_str py_str m @ '')'')), (''code'', PStr ''PROMPT_INJECTION_BLOCKED''),
        (''details'', PDict [(''length'', PInt (int n)), (''max'', m)])])
    | InjectionDetected \<Rightarrow> HTTPException 400 (PDict [(''error'', PStr ''Potential prompt injection detected''),
        (''code'', PStr ''PROMPT_INJECTION_BLOCKED''), (''details'', PDict [])])
    | FilterConfigError \<Rightarrow> Unhandled)"

definition query_filter :: "gw_env \<Rightarrow> (pyval \<Rightarrow> str) \<Rightarrow> str option \<Rightarrow> str \<Rightarrow> unit route" where
  "query_filter E py_str username query =
     (case check_input (ge_text E) (PDict (ge_cfg E)) None query of
        Inr _ \<Rightarrow> hret ()
      | Inl FilterConfigError \<Rightarrow> hraise Unhandled
      | Inl e \<Rightarrow> hbind (audit_query username [(''event'', PStr ''prompt_injection_blocked''), (''query'', PStr query)])
          (\<lambda>_. hraise (filter_response py_str e)))"

section \<open>Running the graph\<close>

definition initial_state :: "query_request \<Rightarrow> str option \<Rightarrow> graph_state" where
  "initial_state req username = \<lparr>st_query = q_query req,
     st_username = (if username = Some [] then None else username), st_retrieved_docs = None, st_top_score = None,
     st_retrieval_mode = None, st_needs_user_confirm = None, st_user_confirmed_online = q_user_confirmed_online req,
     st_online_provider = q_online_provider req, st_answer = None, st_answer_model = None, st_served_model = None,
     st_answer_sources = None, st_guardrail_blocked = None, st_guardrail_rails = None, st_guardrail_degraded = None,
     st_pre_action_hook_denied = None, st_error = None, st_audit_event = None\<rparr>"

definition graph_timeout :: "gw_env \<Rightarrow> pyval" where
  "graph_timeout E = dget (section_of (ge_cfg E) ''api'') ''graph_timeout_sec'' (PInt 780)"

definition timeout_text :: "str \<Rightarrow> str" where
  "timeout_text n = ''Request exceeded the '' @ n @ ''s server deadline. The local LLM or retrieval likely stalled '' @ [CHR 0x97] @
     '' check that Ollama is running (ollama serve) and that its loaded context length >= retrieval.max_context_tokens + models.local_llm.max_tokens + ~1500 headroom (see config.yaml), or it can stall at '' @
     [CHR 0x27] @ ''0% processing'' @ [CHR 0x27] @ ''.''"

definition timeout_error :: "(pyval \<Rightarrow> str) \<Rightarrow> gw_env \<Rightarrow> http_error" where
  "timeout_error py_str E = HTTPException 504 (gate_detail (timeout_text (to_str py_str (graph_timeout E))) ''GRAPH_TIMEOUT'')"

definition run_graph :: "gw_env \<Rightarrow> graph_env \<Rightarrow> bool \<Rightarrow> str \<Rightarrow> str option \<Rightarrow> query_request \<Rightarrow> graph_state route" where
  "run_graph E G timed_out err_text username req s =
     (case invoke G (initial_state req username) of (out, effs) \<Rightarrow>
        let s' = s\<lparr>gw_effects := gw_effects s @ effs\<rparr>; safe = sanitize_error (ge_re_sub E) (ge_environ E) err_text in
        if timed_out then
          hbind (audit_query username [(''event'', PStr ''graph_timeout''), (''query'', PStr (q_query req)), (''timeout_sec'', graph_timeout E)])
            (\<lambda>_. hraise (timeout_error (g_py_str G) E)) s'
        else (case out of
            Done st \<Rightarrow> (Inr st, s')
          | _ \<Rightarrow> hbind (audit_query username [(''event'', PStr ''graph_error''), (''query'', PStr (q_query req)), (''error'', PStr safe)])
              (\<lambda>_. hraise (HTTPException 500 (gate_detail safe ''GRAPH_ERROR''))) s'))"

section \<open>Responses\<close>

definition usable_online_providers :: "graph_env \<Rightarrow> str list" where
  "usable_online_providers G = (if usable (g_grok G) then [''grok''] else []) @ (if usable (g_claude G) then [''claude''] else [])"

definition PROVIDER_LABELS :: "(str \<times> str) list" where
  "PROVIDER_LABELS = [(''grok'', ''Send to Grok''), (''claude'', ''Send to Claude'')]"

definition confirm_choices :: "str list \<Rightarrow> str \<Rightarrow> str" where
  "confirm_choices providers local_tag =
     (if providers = [] then ''No external provider is available (offline mode, provider disabled, or its API key is unset), so '' @
        local_tag @ '' will answer from its own knowledge.''
      else ''Stay offline with '' @ local_tag @ '', or '' @ py_join '' or '' (map (\<lambda>p. dget PROVIDER_LABELS p []) providers) @ ''.'')"

definition model_provider_for :: "str \<Rightarrow> str" where
  "model_provider_for answer_model =
     (if py_startswith answer_model ''grok'' then ''xai''
      else if py_startswith answer_model ''claude'' then ''anthropic'' else ''ollama'')"

definition source_of :: "search_result \<Rightarrow> source_info" where
  "source_of d = \<lparr>so_source = sr_source d, so_score = sr_score d, so_chunk_id = sr_chunk_id d, so_source_sha256 = sr_sha256 d,
     so_stem_tags = sr_stem_tags d, so_semantic_score = sr_semantic_score d, so_semantic_rank = sr_semantic_rank d,
     so_keyword_score = sr_keyword_score d, so_keyword_rank = sr_keyword_rank d, so_rrf_score = sr_rrf_score d,
     so_rrf_semantic_contrib = sr_rrf_semantic d, so_rrf_keyword_contrib = sr_rrf_keyword d\<rparr>"

definition confirm_message :: "graph_env \<Rightarrow> graph_state \<Rightarrow> str" where
  "confirm_message G st =
     (let tag = (case snd (llm_identity G ''offline-best-effort'') of Some m \<Rightarrow> if m \<noteq> [] then m else ''the local model'' | None \<Rightarrow> ''the local model'');
          choices = confirm_choices (usable_online_providers G) tag in
      case st_error st of
        Some e \<Rightarrow> if e \<noteq> [] then ''Retrieval failed ('' @ e @ '') '' @ [CHR 0x97] @ '' no vault results available. '' @ choices
                  else ''I couldn'' @ [CHR 0x27] @ ''t find a confident match in your documents. Choose where to answer. '' @ choices
      | None \<Rightarrow> ''I couldn'' @ [CHR 0x27] @ ''t find a confident match in your documents. Choose where to answer. '' @ choices)"

definition pause_response :: "graph_env \<Rightarrow> graph_state \<Rightarrow> query_response" where
  "pause_response G st = \<lparr>qr_answer = [], qr_sources = [], qr_retrieval_mode = oget (st_retrieval_mode st) ''none'',
     qr_hit_count = length (oget (st_retrieved_docs st) []), qr_model_used = [], qr_llm_model = snd (llm_identity G []),
     qr_needs_confirm = True, qr_confirm_message = Some (confirm_message G st),
     qr_available_providers = usable_online_providers G, qr_error = st_error st\<rparr>"

definition answer_response :: "graph_env \<Rightarrow> graph_state \<Rightarrow> query_response" where
  "answer_response G st = \<lparr>qr_answer = oget (st_answer st) ''[No answer generated]'', qr_sources = map source_of (oget (st_answer_sources st) []),
     qr_retrieval_mode = oget (st_retrieval_mode st) ''none'', qr_hit_count = length (oget (st_retrieved_docs st) []),
     qr_model_used = oget (st_answer_model st) ''unknown'', qr_llm_model = snd (llm_identity G (oget (st_answer_model st) [])),
     qr_needs_confirm = False, qr_confirm_message = None, qr_available_providers = [], qr_error = st_error st\<rparr>"

definition query_result :: "graph_env \<Rightarrow> graph_state \<Rightarrow> query_response" where
  "query_result G st =
     (if oget (st_needs_user_confirm st) False \<and> oget (st_answer_model st) [] = [] then pause_response G st else answer_response G st)"

section \<open>The route\<close>

definition query_endpoint :: "gw_env \<Rightarrow> graph_env option \<Rightarrow> bool \<Rightarrow> str \<Rightarrow> http_request \<Rightarrow> query_request \<Rightarrow> str option \<Rightarrow> query_response route" where
  "query_endpoint E compiled_graph timed_out err_text rq req username =
     hbind (enforce_rate_limit E rq) (\<lambda>_.
     case compiled_graph of None \<Rightarrow> hraise index_not_built
     | Some G \<Rightarrow>
         hbind (forbid_audit_query E username) (\<lambda>_.
         hbind (query_filter E (g_py_str G) username (q_query req)) (\<lambda>_.
         hbind (run_graph E G timed_out err_text username req) (\<lambda>st. hret (query_result G st)))))"

text \<open>The endpoint behind the dependencies \<open>wire_query\<close> attaches, in their order.\<close>

definition serve_query :: "gw_env \<Rightarrow> graph_env option \<Rightarrow> bool \<Rightarrow> str \<Rightarrow> http_request \<Rightarrow> query_request \<Rightarrow> query_response route" where
  "serve_query E compiled_graph timed_out err_text rq req =
     hbind (reject_cross_site_query E rq) (\<lambda>_.
     hbind (if auth_on E then hbind (require_session_or_token E rq) (\<lambda>u. hret (Some u)) else hret None) (\<lambda>username.
     query_endpoint E compiled_graph timed_out err_text rq req username))"

end
