(* ===== verification/Gateway_Boot.thy ===== *)
theory Gateway_Boot
  imports Gateway
begin

text \<open>
  Model of how \<open>gate.py\<close> starts: the dependencies attached to \<open>POST /query\<close> (with
  \<open>attach_identity_to_query\<close> of \<open>gate_auth.py\<close>), the probe that looks for the authentication
  dependency in the tree FastAPI builds, the bind guard, the TLS settings and \<open>main\<close>. Files are an
  argument (\<open>host_files\<close>): the resolution of a configured path, whether it is a file, and the error
  of reading it. What \<open>uvicorn\<close> does with the settings is outside; a served socket is the outcome
  \<open>Serve\<close>. The probe's loop is the \<open>while_option\<close> of its body, so that its end is a theorem.
\<close>

section \<open>Routes and dependencies\<close>

datatype dependant = Dependant (dep_name: "str option") (dep_subs: "dependant list")

record api_route =
  ro_path :: "str option"
  ro_is_api :: bool
  ro_methods :: "str list"
  ro_dependant :: "dependant option"

definition AUTH_DEPENDENCY_NAME :: str where "AUTH_DEPENDENCY_NAME = ''require_session_or_token''"
definition CROSS_SITE_DEPENDENCY :: str where "CROSS_SITE_DEPENDENCY = ''_reject_cross_site_query''"

definition insert_dependency :: "str \<Rightarrow> dependant \<Rightarrow> dependant" where
  "insert_dependency name d = Dependant (dep_name d) (Dependant (Some name) [] # dep_subs d)"

definition is_query_route :: "api_route \<Rightarrow> bool" where
  "is_query_route r = (ro_is_api r \<and> ro_path r = Some ''/query'' \<and> ''POST'' \<in> set (ro_methods r))"

fun attach_identity_to_query :: "str \<Rightarrow> api_route list \<Rightarrow> api_route list" where
  "attach_identity_to_query name [] = []"
| "attach_identity_to_query name (r # rs) =
     (if is_query_route r then r\<lparr>ro_dependant := map_option (insert_dependency name) (ro_dependant r)\<rparr> # rs
      else r # attach_identity_to_query name rs)"

text \<open>The wiring at the end of the module: the session dependency only with a manager, the cross-site check always and last.\<close>

definition wire_query :: "gw_env \<Rightarrow> api_route list \<Rightarrow> api_route list" where
  "wire_query E routes =
     attach_identity_to_query CROSS_SITE_DEPENDENCY
       (if auth_on E then attach_identity_to_query AUTH_DEPENDENCY_NAME routes else routes)"

definition own_name :: "dependant \<Rightarrow> str set" where
  "own_name d = (case dep_name d of Some n \<Rightarrow> if n \<noteq> [] then {n} else {} | None \<Rightarrow> {})"

definition walk_step :: "dependant list \<times> str set \<Rightarrow> dependant list \<times> str set" where
  "walk_step st = (case st of (stack, names) \<Rightarrow>
     let node = last stack in (butlast stack @ dep_subs node, names \<union> own_name node))"

definition dependant_call_names :: "dependant \<Rightarrow> str set option" where
  "dependant_call_names dep = map_option snd (while_option (\<lambda>(stack, names). stack \<noteq> []) walk_step ([dep], {}))"

fun request_path_enforcement_active :: "api_route list \<Rightarrow> bool" where
  "request_path_enforcement_active [] = False"
| "request_path_enforcement_active (r # rs) =
     (if ro_path r \<noteq> Some ''/query'' then request_path_enforcement_active rs
      else case ro_dependant r of None \<Rightarrow> False
      | Some d \<Rightarrow> (case dependant_call_names d of Some names \<Rightarrow> AUTH_DEPENDENCY_NAME \<in> names | None \<Rightarrow> False))"

section \<open>Starting the server\<close>

record host_files =
  hf_resolve :: "str \<Rightarrow> str"
  hf_is_file :: "str \<Rightarrow> bool"
  hf_error :: "str \<Rightarrow> str option"

datatype serve_outcome =
    BindRefused
  | PortInUse
  | TlsRefused str
  | Serve str pyval "(str \<times> str) option"

definition ALLOW_NON_LOOPBACK_ENV :: str where "ALLOW_NON_LOOPBACK_ENV = ''CYCLAW_ALLOW_NON_LOOPBACK_BIND''"

definition bind_override :: "gw_env \<Rightarrow> bool" where
  "bind_override E = (py_lower (py_strip (oget (ge_environ E ALLOW_NON_LOOPBACK_ENV) [])) \<in> {''1'', ''true'', ''yes'', ''on''})"

definition require_loopback_bind :: "gw_env \<Rightarrow> api_route list \<Rightarrow> auth_db \<Rightarrow> str \<Rightarrow> bool" where
  "require_loopback_bind E routes db host =
     (if is_loopback_host (ge_loopback_ip E) host then True
      else if auth_and_tls_enabled E \<and> request_path_enforcement_active routes \<and> \<not> api_key_gate_bypassed E
      then \<not> (auth_on E \<and> needs_password_setup db)
      else bind_override E)"

definition file_problem :: "host_files \<Rightarrow> str \<Rightarrow> str \<Rightarrow> str option" where
  "file_problem F label path =
     (if \<not> hf_is_file F path then Some (''api.tls.'' @ label @ '' does not exist or is not a file: '' @ path)
      else map_option (\<lambda>e. ''api.tls.'' @ label @ '' is not readable: '' @ path @ '' ('' @ e @ '')'') (hf_error F path))"

definition tls_missing :: str where
  "tls_missing = ''api.tls.enabled is true but certfile/keyfile are missing''"

definition tls_ssl_kwargs :: "host_files \<Rightarrow> gw_env \<Rightarrow> (str \<times> str) option \<times> str option" where
  "tls_ssl_kwargs F E =
     (if \<not> flag_is_true (tls_section E) ''enabled'' then (None, None)
      else case tls_section E of
        PDict tls \<Rightarrow>
          (case (dget tls ''certfile'' PNone, dget tls ''keyfile'' PNone) of
             (PStr c, PStr k) \<Rightarrow>
               if py_strip c = [] \<or> py_strip k = [] then (None, Some tls_missing)
               else let cert = hf_resolve F c; key = hf_resolve F k in
                 (case file_problem F ''certfile'' cert of Some e \<Rightarrow> (None, Some e)
                  | None \<Rightarrow>
                 (case file_problem F ''keyfile'' key of Some e \<Rightarrow> (None, Some e)
                  | None \<Rightarrow> (Some (cert, key), None)))
           | _ \<Rightarrow> (None, Some tls_missing))
      | _ \<Rightarrow> (None, Some ''api.tls.enabled is true but api.tls is not a mapping''))"

definition serve_app :: "host_files \<Rightarrow> gw_env \<Rightarrow> str \<Rightarrow> pyval \<Rightarrow> serve_outcome" where
  "serve_app F E host port =
     (case tls_ssl_kwargs F E of
        (_, Some e) \<Rightarrow> TlsRefused e
      | (kwargs, None) \<Rightarrow> Serve host port kwargs)"

text \<open>\<open>main\<close> for a configured host that is a string.\<close>

definition main :: "host_files \<Rightarrow> gw_env \<Rightarrow> api_route list \<Rightarrow> auth_db \<Rightarrow> (str \<Rightarrow> pyval \<Rightarrow> bool) \<Rightarrow> str \<Rightarrow> serve_outcome" where
  "main F E routes db port_in_use host =
     (let port = dget (section_of (ge_cfg E) ''api'') ''port'' (PInt 8787) in
      if \<not> require_loopback_bind E routes db host then BindRefused
      else if port_in_use host port then PortInUse
      else serve_app F E host port)"

section \<open>The probe\<close>

fun all_names :: "dependant \<Rightarrow> str set" where
  "all_names (Dependant n ds) = own_name (Dependant n ds) \<union> (\<Union>d \<in> set ds. all_names d)"

lemma all_names_unfold: "all_names d = own_name d \<union> (\<Union>x \<in> set (dep_subs d). all_names x)"
  by (cases d) simp

definition weight :: "dependant list \<Rightarrow> nat" where
  "weight ds = sum_list (map size ds)"

lemma weight_subs: "weight (dep_subs d) < size d"
proof (cases d)
  case (Dependant n ds)
  have "weight xs \<le> size_list size xs" for xs :: "dependant list" by (induction xs) (auto simp: weight_def)
  then show ?thesis using Dependant by (simp add: le_imp_less_Suc)
qed

lemma weight_append: "weight (xs @ ys) = weight xs + weight ys"
  by (simp add: weight_def)

lemma walk_decreases:
  assumes "stack \<noteq> []"
  shows "weight (fst (walk_step (stack, names))) < weight stack"
proof -
  have "weight stack = weight (butlast stack) + size (last stack)"
    using assms weight_append [of "butlast stack" "[last stack]"] by (simp add: weight_def)
  then show ?thesis using weight_subs [of "last stack"] by (simp add: walk_step_def Let_def weight_append)
qed

lemma walk_names:
  assumes "stack \<noteq> []"
  shows "snd (walk_step (stack, names)) \<union> (\<Union>d \<in> set (fst (walk_step (stack, names))). all_names d) = names \<union> (\<Union>d \<in> set stack. all_names d)"
proof -
  have "set stack = insert (last stack) (set (butlast stack))"
    using assms by (metis append_butlast_last_id list.set(1,2) set_append Un_insert_right sup_bot.right_neutral)
  then show ?thesis using all_names_unfold [of "last stack"] by (auto simp: walk_step_def Let_def)
qed

lemma dependant_call_names_total: "dependant_call_names dep = Some (all_names dep)"
proof -
  let ?b = "\<lambda>(stack, names). stack \<noteq> []" and ?c = walk_step
  let ?P = "\<lambda>st. snd st \<union> (\<Union>d \<in> set (fst st). all_names d) = all_names dep"
  have step: "?P (?c st)" if "?P st" "?b st" for st using that walk_names by (cases st) auto
  have "weight (fst (?c st)) < weight (fst st)" if "?b st" for st using that walk_decreases by (cases st) auto
  then obtain t where t: "while_option ?b ?c ([dep], {}) = Some t"
    using measure_while_option_Some [of "\<lambda>_. True" ?b ?c "weight \<circ> fst" "([dep], {})"] by auto
  have "\<not> ?b t" using while_option_stop [OF t] .
  moreover have "?P t" using while_option_rule [of ?P, OF step t] by auto
  ultimately show ?thesis using t by (auto simp: dependant_call_names_def split: prod.splits)
qed

text \<open>
  The walk over a dependency tree ends for every tree and collects exactly the names of its
  nodes, leaving an empty stack.
\<close>

theorem dependant_walk_terminates:
  "dependant_call_names dep = Some (all_names dep) \<and>
   (\<exists>names. while_option (\<lambda>(stack, names). stack \<noteq> []) walk_step ([dep], {}) = Some ([], names))"
  using dependant_call_names_total [of dep] while_option_stop [of "\<lambda>(stack, names). stack \<noteq> []" walk_step "([dep], {})"]
  by (auto simp: dependant_call_names_def)

section \<open>What the probe and the guard prove\<close>

lemma attach_other: "\<forall>r \<in> set pre. ro_path r \<noteq> Some ''/query'' \<Longrightarrow>
    attach_identity_to_query name (pre @ rs) = pre @ attach_identity_to_query name rs"
  by (induction pre) (auto simp: is_query_route_def)

lemma probe_other: "\<forall>r \<in> set pre. ro_path r \<noteq> Some ''/query'' \<Longrightarrow>
    request_path_enforcement_active (pre @ rs) = request_path_enforcement_active rs"
  by (induction pre) auto

lemma names_differ: "AUTH_DEPENDENCY_NAME \<noteq> CROSS_SITE_DEPENDENCY" "AUTH_DEPENDENCY_NAME \<noteq> []" "CROSS_SITE_DEPENDENCY \<noteq> []"
  by (simp_all add: AUTH_DEPENDENCY_NAME_def CROSS_SITE_DEPENDENCY_def)

lemma all_names_insert: "name \<noteq> [] \<Longrightarrow> all_names (insert_dependency name d) = insert name (all_names d)"
  by (cases d) (auto simp: insert_dependency_def own_name_def)

lemma subs_insert: "map dep_name (dep_subs (insert_dependency name d)) = Some name # map dep_name (dep_subs d)"
  by (simp add: insert_dependency_def)

lemma query_route_after: "is_query_route r \<Longrightarrow> is_query_route (r\<lparr>ro_dependant := d\<rparr>)"
  by (simp add: is_query_route_def)

text \<open>The dependencies of \<open>/query\<close> after the wiring, in the order in which FastAPI resolves them.\<close>

lemma wire_query_route:
  assumes "\<forall>r \<in> set pre. ro_path r \<noteq> Some ''/query''" and "is_query_route q" and "ro_dependant q = Some d"
  shows "wire_query E (pre @ q # post) = pre @ q\<lparr>ro_dependant := Some (insert_dependency CROSS_SITE_DEPENDENCY
      (if auth_on E then insert_dependency AUTH_DEPENDENCY_NAME d else d))\<rparr> # post"
  using assms query_route_after by (simp add: wire_query_def attach_other)

text \<open>
  The probe reports what the wiring did. For every route table whose first \<open>/query\<close> route is
  the POST route, the probe answers true exactly when the authentication manager was constructed;
  the cross-site check runs first, then the session check, then the dependencies declared on the
  route.
\<close>

theorem probe_reports_enforcement:
  assumes "\<forall>r \<in> set pre. ro_path r \<noteq> Some ''/query''" and "is_query_route q" and "ro_dependant q = Some d"
    and "AUTH_DEPENDENCY_NAME \<notin> all_names d"
  shows "(request_path_enforcement_active (wire_query E (pre @ q # post)) \<longleftrightarrow> auth_on E) \<and>
    (\<exists>d'. ro_dependant (wire_query E (pre @ q # post) ! length pre) = Some d' \<and>
      map dep_name (dep_subs d') = Some CROSS_SITE_DEPENDENCY #
        (if auth_on E then [Some AUTH_DEPENDENCY_NAME] else []) @ map dep_name (dep_subs d))"
proof -
  have "ro_path q = Some ''/query''" using assms(2) by (simp add: is_query_route_def)
  then show ?thesis
    using assms(1,4) names_differ
    by (auto simp: wire_query_route [OF assms(1-3)] probe_other dependant_call_names_total all_names_insert subs_insert)
qed

lemma tls_kwargs_on:
  "flag_is_true (tls_section E) ''enabled'' \<Longrightarrow> tls_ssl_kwargs F E = (kwargs, None) \<Longrightarrow>
    \<exists>cert key. kwargs = Some (cert, key) \<and> hf_is_file F cert \<and> hf_is_file F key"
  by (auto simp: tls_ssl_kwargs_def file_problem_def Let_def split: pyval.splits if_splits option.splits)

lemma auth_tls_auth_on: "auth_and_tls_enabled E \<Longrightarrow> auth_on E"
  by (auto simp: auth_and_tls_enabled_def auth_on_def flag_is_true_def boot_auth_enabled_def or_empty_def is_literal_true_def
      split: pyval.splits if_splits)

text \<open>
  C10: no unprotected bind beyond this machine. If \<open>main\<close> starts serving on a host that is not
  loopback and the operator did not set the override variable, then authentication is on and
  enforced on \<open>/query\<close>, the first password is set, the API key gate is not bypassed, and the
  socket is a TLS socket with existing certificate and key files.
\<close>

theorem lan_bind_protected:
  assumes "main F E routes db port_in_use host = Serve h port tls"
    and "\<not> is_loopback_host (ge_loopback_ip E) host" and "\<not> bind_override E"
  shows "h = host \<and> auth_on E \<and> request_path_enforcement_active routes \<and> \<not> needs_password_setup db \<and>
    \<not> api_key_gate_bypassed E \<and> (\<exists>cert key. tls = Some (cert, key) \<and> hf_is_file F cert \<and> hf_is_file F key)"
proof -
  have bind: "require_loopback_bind E routes db host" and srv: "serve_app F E host (dget (section_of (ge_cfg E) ''api'') ''port'' (PInt 8787)) = Serve h port tls"
    using assms(1) by (auto simp: main_def Let_def split: if_splits)
  then have on: "auth_and_tls_enabled E" "request_path_enforcement_active routes" "\<not> api_key_gate_bypassed E"
      "\<not> (auth_on E \<and> needs_password_setup db)"
    using assms(2,3) by (auto simp: require_loopback_bind_def split: if_splits)
  have kw: "h = host \<and> tls_ssl_kwargs F E = (tls, None)"
    using srv by (auto simp: serve_app_def split: prod.splits option.splits)
  have "flag_is_true (tls_section E) ''enabled''" using on(1) by (simp add: auth_and_tls_enabled_def)
  with kw have "\<exists>cert key. tls = Some (cert, key) \<and> hf_is_file F cert \<and> hf_is_file F key" using tls_kwargs_on by blast
  with kw on auth_tls_auth_on show ?thesis by blast
qed

definition demo_files :: host_files where
  "demo_files = \<lparr>hf_resolve = (\<lambda>p. ''/srv/'' @ p), hf_is_file = (\<lambda>_. True), hf_error = (\<lambda>_. None)\<rparr>"

definition demo_gw_env :: "(str, pyval) dict \<Rightarrow> gw_env" where
  "demo_gw_env cfg = \<lparr>ge_cfg = cfg, ge_allowed_hosts = [''localhost''], ge_environ = (\<lambda>_. None),
     ge_auth_cfg = \<lparr>idle_timeout_sec = 600, absolute_timeout_sec = 3600\<rparr>,
     ge_crypto = \<lparr>kdf = (\<lambda>p s n r k. p), sha256_hex = (\<lambda>x. x)\<rparr>, ge_ip_ok = (\<lambda>_. False),
     ge_loopback_ip = (\<lambda>h. Some (h = ''127.0.0.1'')), ge_text = demo_lib, ge_re_sub = (\<lambda>_ m. m), ge_limit_text = ''2 req / 60s'',
     ge_faults = no_faults, ge_now = 1, ge_monotonic = 1\<rparr>"

definition demo_lan_cfg :: "(str, pyval) dict" where
  "demo_lan_cfg = [(''auth'', PDict [(''enabled'', PBool True)]),
     (''api'', PDict [(''tls'', PDict [(''enabled'', PBool True), (''certfile'', PStr ''c''), (''keyfile'', PStr ''k'')])])]"

definition demo_routes :: "api_route list" where
  "demo_routes = [\<lparr>ro_path = Some ''/'', ro_is_api = True, ro_methods = [''GET''], ro_dependant = Some (Dependant (Some ''page'') [])\<rparr>,
     \<lparr>ro_path = Some ''/query'', ro_is_api = True, ro_methods = [''POST''], ro_dependant = Some (Dependant (Some ''query_endpoint'') [])\<rparr>]"

definition empty_auth :: auth_db where
  "empty_auth = \<lparr>users = [], sessions = [], tokens = []\<rparr>"

theorem probe_reports_enforcement_witness:
  "request_path_enforcement_active (wire_query (demo_gw_env demo_lan_cfg) demo_routes) \<longleftrightarrow> auth_on (demo_gw_env demo_lan_cfg)"
proof -
  have r: "demo_routes = [hd demo_routes] @ (demo_routes ! 1) # []" by (simp add: demo_routes_def)
  have "\<forall>r \<in> set [hd demo_routes]. ro_path r \<noteq> Some ''/query''" "is_query_route (demo_routes ! 1)"
    "ro_dependant (demo_routes ! 1) = Some (Dependant (Some ''query_endpoint'') [])"
    "AUTH_DEPENDENCY_NAME \<notin> all_names (Dependant (Some ''query_endpoint'') [])"
    by (simp_all add: demo_routes_def is_query_route_def own_name_def AUTH_DEPENDENCY_NAME_def)
  from probe_reports_enforcement [OF this, of "demo_gw_env demo_lan_cfg" "[]"] r show ?thesis by metis
qed

theorem lan_bind_protected_witness:
  "main demo_files (demo_gw_env demo_lan_cfg) (wire_query (demo_gw_env demo_lan_cfg) demo_routes) empty_auth (\<lambda>_ _. False) ''10.0.0.5''
     = Serve ''10.0.0.5'' (PInt 8787) (Some (''/srv/c'', ''/srv/k'')) \<and> auth_on (demo_gw_env demo_lan_cfg)"
proof -
  let ?m = "main demo_files (demo_gw_env demo_lan_cfg) (wire_query (demo_gw_env demo_lan_cfg) demo_routes) empty_auth (\<lambda>_ _. False) ''10.0.0.5''"
  have m: "?m = Serve ''10.0.0.5'' (PInt 8787) (Some (''/srv/c'', ''/srv/k''))" by code_simp
  moreover have "\<not> is_loopback_host (ge_loopback_ip (demo_gw_env demo_lan_cfg)) ''10.0.0.5''" "\<not> bind_override (demo_gw_env demo_lan_cfg)"
    by code_simp+
  ultimately show ?thesis using lan_bind_protected [OF m] by blast
qed

end
