(* ===== verification/Gateway_Auth_Claims.thy ===== *)
theory Gateway_Auth_Claims
  imports Gateway_Auth Gateway_Boot
begin

text \<open>
  Properties of the routes of \<open>gate_auth.py\<close> that change accounts. The access control matrix of the
  routes is stated once (\<open>permitted\<close>), together with the operation of the manager a route stands
  for (\<open>manager_op\<close>); the handlers with all their dependencies are shown to follow it, and what an
  operator can do to administrators is read off the matrix.
\<close>

section \<open>The matrix\<close>

datatype admin_request =
    CreateReq str str str
  | PasswordReq str str
  | OwnPasswordReq str
  | RoleReq str str
  | DisableReq str
  | EnableReq str
  | DeleteReq str

fun serve_admin :: "gw_env \<Rightarrow> http_request \<Rightarrow> fresh \<Rightarrow> admin_request \<Rightarrow> unit route" where
  "serve_admin E rq R (CreateReq u p r) = hbind (auth_create_user E rq R u p r) (\<lambda>_. hret ())"
| "serve_admin E rq R (PasswordReq u p) = auth_set_password E rq R u p"
| "serve_admin E rq R (OwnPasswordReq p) = auth_set_own_password E rq R p"
| "serve_admin E rq R (RoleReq u r) = auth_set_role E rq u r"
| "serve_admin E rq R (DisableReq u) = auth_disable_user E rq u"
| "serve_admin E rq R (EnableReq u) = auth_enable_user E rq u"
| "serve_admin E rq R (DeleteReq u) = auth_delete_user E rq u"

definition may_touch :: "str \<Rightarrow> str \<Rightarrow> auth_db \<Rightarrow> bool" where
  "may_touch role u db = (\<exists>t. get_user (PStr u) db = Some t \<and> (role = ''admin'' \<or> role = ''operator'' \<and> us_role t \<noteq> ''admin''))"

fun permitted :: "user_summary \<Rightarrow> admin_request \<Rightarrow> auth_db \<Rightarrow> bool" where
  "permitted actor (CreateReq u p r) db = (\<exists>c. validate_role (PStr r) = Inr c \<and>
     (us_role actor = ''admin'' \<or> us_role actor = ''operator'' \<and> c \<in> {''operator'', ''audit''}))"
| "permitted actor (PasswordReq u p) db = may_touch (us_role actor) u db"
| "permitted actor (DisableReq u) db = may_touch (us_role actor) u db"
| "permitted actor (EnableReq u) db = may_touch (us_role actor) u db"
| "permitted actor (OwnPasswordReq p) db = True"
| "permitted actor (RoleReq u r) db = (us_role actor = ''admin'')"
| "permitted actor (DeleteReq u) db = (us_role actor = ''admin'')"

definition canonical_role :: "str \<Rightarrow> str" where
  "canonical_role r = (case validate_role (PStr r) of Inr c \<Rightarrow> c | Inl _ \<Rightarrow> [])"

fun manager_op :: "gw_env \<Rightarrow> fresh \<Rightarrow> user_summary \<Rightarrow> admin_request \<Rightarrow> auth_db \<Rightarrow> auth_db" where
  "manager_op E R actor (CreateReq u p r) db =
     snd (create_user (ge_crypto E) (PStr u) (PStr p) (PStr (canonical_role r)) (fr_salt R) (ge_now E) db)"
| "manager_op E R actor (PasswordReq u p) db = snd (set_password (ge_crypto E) (PStr u) (PStr p) (fr_salt R) db)"
| "manager_op E R actor (OwnPasswordReq p) db = snd (set_password (ge_crypto E) (PStr (us_username actor)) (PStr p) (fr_salt R) db)"
| "manager_op E R actor (RoleReq u r) db = snd (set_role (PStr u) (PStr (canonical_role r)) db)"
| "manager_op E R actor (DisableReq u) db = snd (disable_user (PStr u) db)"
| "manager_op E R actor (EnableReq u) db = snd (enable_user (PStr u) db)"
| "manager_op E R actor (DeleteReq u) db = snd (delete_user (PStr u) db)"

section \<open>Handlers that leave the accounts alone\<close>

definition keeps_users :: "'a route \<Rightarrow> bool" where
  "keeps_users h = (\<forall>s. users (gw_auth (snd (h s))) = users (gw_auth s))"

named_theorems keeps \<open>handlers that leave the accounts alone\<close>

lemma keeps_hbind [keeps]: "keeps_users f \<Longrightarrow> (\<And>x. keeps_users (g x)) \<Longrightarrow> keeps_users (hbind f g)"
  by (simp add: keeps_users_def hbind_def split: prod.split sum.split) (metis snd_conv)

lemma keeps_base [keeps]:
  "keeps_users (hret x)" "keeps_users (hraise e)" "keeps_users (hensure b e)" "keeps_users (check r)"
  "keeps_users (read_auth f)" "keeps_users (audit a)"
  by (simp_all add: keeps_users_def handler_simps)

lemma keeps_limit [keeps]: "keeps_users (enforce_rate_limit E rq)"
  by (auto simp: keeps_users_def enforce_rate_limit_def Let_def split: prod.split sum.split bool.split)

lemma keeps_cookie [keeps]: "keeps_users (validate_cookie E sid)"
  by (auto simp: keeps_users_def validate_cookie_def handler_simps validate_session_def revoke_session_def Let_def
      split: prod.split option.split)

lemma keeps_bearer [keeps]: "keeps_users (verify_bearer E token)"
  by (auto simp: keeps_users_def verify_bearer_def handler_simps verify_device_token_def Let_def split: prod.split option.split)

lemma keeps_enabled [keeps]: "keeps_users (require_enabled E)"
  unfolding require_enabled_def by (rule keeps)

lemma keeps_session [keeps]: "keeps_users (cookie_session E rq)"
  unfolding cookie_session_def Let_def by (auto intro: keeps)

lemma keeps_identity [keeps]: "keeps_users (user_from_identity E u)"
  unfolding user_from_identity_def by (intro keeps)

lemma keeps_actor [keeps]: "keeps_users (require_write_actor E rq)"
  unfolding require_write_actor_def by (intro keeps) (auto intro!: keeps split: option.split)

lemma keeps_touch [keeps]: "keeps_users (touch_check E rq u)"
  unfolding touch_check_def by (intro keeps)

lemma keeps_at: "keeps_users h \<Longrightarrow> h s = (r, s') \<Longrightarrow> users (gw_auth s') = users (gw_auth s)"
  by (metis keeps_users_def snd_conv)

lemma auth_route_cases:
  assumes "auth_route E rq body s = (r, s')"
  shows "users (gw_auth s') = users (gw_auth s) \<or>
    (\<exists>s0. enforce_rate_limit E rq s = (Inr (), s0) \<and> enforce_same_origin (ge_ip_ok E) (ge_allowed_hosts E) rq = Inr () \<and>
       body s0 = (r, s') \<and> users (gw_auth s0) = users (gw_auth s))"
  using assms unfolding auth_route_def
  by (auto elim!: hbind_cases dest: keeps_at [OF keeps_limit] simp: handler_simps)

text \<open>Binding a check leaves the state as it is; a write of the manager changes the database as the operation does.\<close>

lemma bind_simps:
  "hbind (check r) g s = (case r of Inl e \<Rightarrow> (Inl e, s) | Inr x \<Rightarrow> g x s)"
  "hbind (hensure b e) h s = (if b then h () s else (Inl e, s))"
  "hbind (require_enabled E) h s = (if auth_on E then h () s else (Inl auth_disabled, s))"
  "hbind (read_auth f) k s = k (f (gw_auth s)) s"
  "hbind (hret x) m s = m x s"
  by (auto simp: hbind_def handler_simps require_enabled_def split: sum.split)

lemma try_auth_users:
  assumes "hbind (try_auth err f) g s = (r, s')" and "\<And>x. keeps_users (g x)"
  shows "users (gw_auth s') = users (snd (f (gw_auth s)))"
proof -
  have "gw_auth (snd (try_auth err f s)) = snd (f (gw_auth s))" by (simp add: try_auth_def split: prod.split sum.split)
  with assms(1) show ?thesis using keeps_at [OF assms(2)] by (elim hbind_cases) auto
qed

lemma actor_tail:
  assumes "hbind (require_write_actor E rq) g s0 = (r, s')"
    and "\<And>actor s1. g actor s1 = (r, s') \<Longrightarrow> users (gw_auth s') = users (gw_auth s1) \<or>
      (permitted actor req (gw_auth s1) \<and> users (gw_auth s') = users (manager_op E R actor req (gw_auth s1)))"
  shows "users (gw_auth s') = users (gw_auth s0) \<or> (\<exists>actor s1. require_write_actor E rq s0 = (Inr actor, s1) \<and>
      permitted actor req (gw_auth s1) \<and> users (gw_auth s') = users (manager_op E R actor req (gw_auth s1)))"
  using assms(1)
proof (cases rule: hbind_cases)
  case (raises e)
  then show ?thesis using keeps_at [OF keeps_actor] by blast
next
  case (returns actor s1)
  then show ?thesis using assms(2) [of actor s1] keeps_at [OF keeps_actor] by metis
qed

lemma validate_role_canonical: "validate_role (PStr r) = Inr c \<Longrightarrow> canonical_role r = c"
  by (simp add: canonical_role_def)

lemma can_create_iff:
  "assert_can_create actor c = Inr u \<longleftrightarrow> us_role actor = ''admin'' \<and> c \<in> set ROLES \<or>
     us_role actor = ''operator'' \<and> c \<in> {''operator'', ''audit''}"
  by (auto simp: assert_can_create_def split: if_splits)

lemma can_touch_iff:
  "assert_can_touch actor t False False = Inr u \<longleftrightarrow> us_role actor = ''admin'' \<or> us_role actor = ''operator'' \<and> us_role t \<noteq> ''admin''"
  by (auto simp: assert_can_touch_def split: if_splits)

text \<open>What the handlers on a named account share.\<close>

lemma touch_refines:
  assumes "hbind (touch_check E rq u) (\<lambda>who. hbind (try_auth err f) (post who)) s0 = (r, s')"
    and "\<And>who x. keeps_users (post who x)"
    and "\<And>actor db. permitted actor req db = may_touch (us_role actor) u db"
    and "\<And>actor db. manager_op E R actor req db = snd (f db)"
  shows "users (gw_auth s') = users (gw_auth s0) \<or> (\<exists>actor s1. require_write_actor E rq s0 = (Inr actor, s1) \<and>
      permitted actor req (gw_auth s1) \<and> users (gw_auth s') = users (manager_op E R actor req (gw_auth s1)))"
  using assms(1) unfolding touch_check_def hbind_assoc
proof (rule actor_tail, goal_cases)
  case (1 actor s1)
  then show ?case
    using try_auth_users [of err f _ s1 r s', OF _ assms(2)] can_touch_iff [of actor]
    by (auto simp: bind_simps assms(3,4) may_touch_def of_option_def split: if_splits option.splits sum.splits)
qed

lemma auth_route_bind: "hbind (auth_route E rq b) g = auth_route E rq (hbind b g)"
  by (simp add: auth_route_def hbind_assoc)

lemma create_refines:
  assumes "hbind (require_write_actor E rq) (\<lambda>actor.
      hbind (check (case validate_role (PStr r0) of Inl e \<Rightarrow> Inl (raise_auth_error e) | Inr r \<Rightarrow> Inr r)) (\<lambda>r.
      hbind (check (assert_can_create actor r)) (\<lambda>_. hbind (require_enabled E) (\<lambda>_.
      hbind (try_auth raise_auth_error (create_user (ge_crypto E) (PStr u) (PStr p) (PStr r) (fr_salt R) (ge_now E))) (post actor r))))) s0 = (out, s')"
    and "\<And>actor r x. keeps_users (post actor r x)"
  shows "users (gw_auth s') = users (gw_auth s0) \<or> (\<exists>actor s1. require_write_actor E rq s0 = (Inr actor, s1) \<and>
      permitted actor (CreateReq u p r0) (gw_auth s1) \<and> users (gw_auth s') = users (manager_op E R actor (CreateReq u p r0) (gw_auth s1)))"
  using assms(1)
proof (rule actor_tail, goal_cases)
  case (1 actor s1)
  have "hbind (try_auth raise_auth_error f) (post actor c) s1 = (out, s') \<Longrightarrow> users (gw_auth s') = users (snd (f (gw_auth s1)))" for f c
    by (erule try_auth_users) (rule assms(2))
  with 1 show ?case
    using can_create_iff [of actor]
    by (auto simp: bind_simps canonical_role_def split: if_splits sum.splits)
qed

lemma role_refines:
  assumes "hbind (require_write_actor E rq) (\<lambda>actor.
      hbind (hensure (us_role actor = ''admin'') d) (\<lambda>_.
      hbind (check (case validate_role (PStr r0) of Inl e \<Rightarrow> Inl (raise_auth_error e) | Inr r \<Rightarrow> Inr r)) (\<lambda>r.
      hbind (require_enabled E) (\<lambda>_. hbind (try_auth raise_auth_error (set_role (PStr u) (PStr r))) (post actor r))))) s0 = (out, s')"
    and "\<And>actor r x. keeps_users (post actor r x)"
  shows "users (gw_auth s') = users (gw_auth s0) \<or> (\<exists>actor s1. require_write_actor E rq s0 = (Inr actor, s1) \<and>
      permitted actor (RoleReq u r0) (gw_auth s1) \<and> users (gw_auth s') = users (manager_op E R actor (RoleReq u r0) (gw_auth s1)))"
  using assms(1)
proof (rule actor_tail, goal_cases)
  case (1 actor s1)
  have "hbind (try_auth raise_auth_error f) (post actor c) s1 = (out, s') \<Longrightarrow> users (gw_auth s') = users (snd (f (gw_auth s1)))" for f c
    by (erule try_auth_users) (rule assms(2))
  with 1 show ?case
    by (auto simp: bind_simps canonical_role_def split: if_splits sum.splits)
qed

lemma delete_refines:
  assumes "hbind (require_write_actor E rq) (\<lambda>actor. hbind (hensure (us_role actor = ''admin'') d) (\<lambda>_.
      hbind (require_enabled E) (\<lambda>_. hbind (try_auth raise_auth_error (delete_user (PStr u))) (post actor)))) s0 = (out, s')"
    and "\<And>actor x. keeps_users (post actor x)"
  shows "users (gw_auth s') = users (gw_auth s0) \<or> (\<exists>actor s1. require_write_actor E rq s0 = (Inr actor, s1) \<and>
      permitted actor (DeleteReq u) (gw_auth s1) \<and> users (gw_auth s') = users (manager_op E R actor (DeleteReq u) (gw_auth s1)))"
  using assms(1)
proof (rule actor_tail, goal_cases)
  case (1 actor s1)
  have "hbind (try_auth raise_auth_error f) (post actor) s1 = (out, s') \<Longrightarrow> users (gw_auth s') = users (snd (f (gw_auth s1)))" for f :: "auth_db \<Rightarrow> (auth_error + unit) \<times> auth_db"
    by (erule try_auth_users) (rule assms(2))
  with 1 show ?case by (auto simp: bind_simps split: if_splits)
qed

lemma own_refines:
  assumes "hbind (require_write_actor E rq) (\<lambda>actor. hbind (require_enabled E) (\<lambda>_.
      hbind (set_password_write E R (us_username actor) p) (post actor))) s0 = (out, s')"
    and "\<And>actor x. keeps_users (post actor x)"
  shows "users (gw_auth s') = users (gw_auth s0) \<or> (\<exists>actor s1. require_write_actor E rq s0 = (Inr actor, s1) \<and>
      permitted actor (OwnPasswordReq p) (gw_auth s1) \<and> users (gw_auth s') = users (manager_op E R actor (OwnPasswordReq p) (gw_auth s1)))"
  using assms(1)
proof (rule actor_tail, goal_cases)
  case (1 actor s1)
  have "hbind (try_auth raise_auth_error f) (post actor) s1 = (out, s') \<Longrightarrow> users (gw_auth s') = users (snd (f (gw_auth s1)))" for f :: "auth_db \<Rightarrow> (auth_error + unit) \<times> auth_db"
    by (erule try_auth_users) (rule assms(2))
  with 1 show ?case
    by (auto simp: bind_simps set_password_write_def split: if_splits)
qed

lemma admin_routes_follow_matrix:
  assumes "serve_admin E rq R req s = (r, s')"
  shows "users (gw_auth s') = users (gw_auth s) \<or> (\<exists>s0 actor s1.
    enforce_rate_limit E rq s = (Inr (), s0) \<and> enforce_same_origin (ge_ip_ok E) (ge_allowed_hosts E) rq = Inr () \<and>
    require_write_actor E rq s0 = (Inr actor, s1) \<and> permitted actor req (gw_auth s1) \<and>
    users (gw_auth s') = users (manager_op E R actor req (gw_auth s1)))"
proof -
  have "\<exists>body. serve_admin E rq R req = auth_route E rq body \<and>
    (\<forall>s0. body s0 = (r, s') \<longrightarrow> users (gw_auth s') = users (gw_auth s0) \<or> (\<exists>actor s1. require_write_actor E rq s0 = (Inr actor, s1) \<and>
      permitted actor req (gw_auth s1) \<and> users (gw_auth s') = users (manager_op E R actor req (gw_auth s1))))"
  proof (cases req)
    case (CreateReq u p r0)
    show ?thesis unfolding CreateReq serve_admin.simps auth_create_user_def auth_route_bind hbind_assoc
      by (intro exI conjI allI impI, rule refl, erule create_refines) (intro keeps)
  next
    case (PasswordReq u p)
    show ?thesis unfolding PasswordReq serve_admin.simps auth_set_password_def set_password_write_def
      by (intro exI conjI allI impI, rule refl, erule touch_refines) (simp_all add: keeps)
  next
    case (OwnPasswordReq p)
    show ?thesis unfolding OwnPasswordReq serve_admin.simps auth_set_own_password_def
      by (intro exI conjI allI impI, rule refl, erule own_refines) (intro keeps)
  next
    case (RoleReq u r0)
    show ?thesis unfolding RoleReq serve_admin.simps auth_set_role_def
      by (intro exI conjI allI impI, rule refl, erule role_refines) (intro keeps)
  next
    case (DisableReq u)
    show ?thesis unfolding DisableReq serve_admin.simps auth_disable_user_def
      by (intro exI conjI allI impI, rule refl, erule touch_refines) (simp_all add: keeps)
  next
    case (EnableReq u)
    show ?thesis unfolding EnableReq serve_admin.simps auth_enable_user_def
      by (intro exI conjI allI impI, rule refl, erule touch_refines) (simp_all add: keeps)
  next
    case (DeleteReq u)
    show ?thesis unfolding DeleteReq serve_admin.simps auth_delete_user_def
      by (intro exI conjI allI impI, rule refl, erule delete_refines) (intro keeps)
  qed
  then show ?thesis using auth_route_cases assms by metis
qed

section \<open>Who may write\<close>

text \<open>The credential of a write: a live session with its CSRF token, or the device token of an administrator.\<close>

definition write_credential :: "gw_env \<Rightarrow> http_request \<Rightarrow> auth_db \<Rightarrow> user_summary \<Rightarrow> bool" where
  "write_credential E rq db actor \<longleftrightarrow>
     (\<exists>sid i. rq_session_cookie rq = Some sid \<and> fst (validate_session (ge_crypto E) (ge_auth_cfg E) sid (ge_now E) db) = Some i \<and>
        csrf_ok E rq i \<and> get_user (PStr (si_username i)) db = Some actor) \<or>
     (\<exists>token name. bearer_token rq = Some token \<and> fst (verify_device_token (ge_crypto E) token (ge_now E) db) = Some name \<and>
        get_user (PStr name) db = Some actor \<and> us_role actor = ''admin'')"

lemma get_user_users: "users db = users db' \<Longrightarrow> get_user u db = get_user u db'"
  by (simp add: get_user_def get_user_row_def)

lemma permitted_users: "users db = users db' \<Longrightarrow> permitted actor req db = permitted actor req db'"
  by (cases req) (simp_all add: may_touch_def get_user_users [of db db'])

lemma validate_keeps: "users (snd (validate_session C cfg sid now db)) = users db \<and> tokens (snd (validate_session C cfg sid now db)) = tokens db"
  by (simp add: validate_session_def revoke_session_def Let_def split: option.split)

lemma verify_token_tables:
  "users db = users db' \<Longrightarrow> tokens db = tokens db' \<Longrightarrow> fst (verify_device_token C t now db) = fst (verify_device_token C t now db')"
  by (simp add: verify_device_token_def get_token_row_def user_enabled_def Let_def split: option.split)

lemma identity_Inr: "user_from_identity E name s = (Inr actor, s1) \<longleftrightarrow> auth_on E \<and> s1 = s \<and> get_user (PStr name) (gw_auth s) = Some actor"
  by (auto simp: user_from_identity_def bind_simps check_def of_option_def split: option.split)

lemma cookie_session_Inr:
  assumes "cookie_session E rq s0 = (Inr info, s1)"
  shows "users (gw_auth s1) = users (gw_auth s0) \<and> tokens (gw_auth s1) = tokens (gw_auth s0) \<and>
    (\<forall>i. info = Some i \<longrightarrow> (\<exists>sid. rq_session_cookie rq = Some sid \<and>
       fst (validate_session (ge_crypto E) (ge_auth_cfg E) sid (ge_now E) (gw_auth s0)) = Some i))"
  using assms validate_keeps [of "ge_crypto E" "ge_auth_cfg E" "the (rq_session_cookie rq)" "ge_now E" "gw_auth s0"]
  by (cases "rq_session_cookie rq")
     (auto simp: cookie_session_def validate_cookie_def handler_simps oget_def split: prod.splits if_splits)

lemma actor_credential:
  assumes "require_write_actor E rq s0 = (Inr actor, s1)"
  shows "auth_on E \<and> write_credential E rq (gw_auth s0) actor \<and> users (gw_auth s1) = users (gw_auth s0)"
proof -
  obtain info s2 where on: "auth_on E" and ck: "cookie_session E rq s0 = (Inr info, s2)" and
    rest: "(case info of
       Some i \<Rightarrow> hbind (hensure (csrf_ok E rq i) csrf_invalid) (\<lambda>_. user_from_identity E (si_username i))
     | None \<Rightarrow> (case bearer_token rq of
            Some token \<Rightarrow> hbind (verify_bearer E token) (\<lambda>username. hbind (check (of_option auth_required username)) (\<lambda>u.
              hbind (user_from_identity E u) (\<lambda>user.
              hbind (hensure (us_role user = ''admin'') (permission_denied ''bearer admin writes require an admin token'')) (\<lambda>_. hret user))))
          | None \<Rightarrow> hraise auth_required)) s2 = (Inr actor, s1)"
    using assms by (auto simp: require_write_actor_def hbind_Inr_iff require_enabled_def)
  note keep = cookie_session_Inr [OF ck]
  have "write_credential E rq (gw_auth s0) actor"
  proof (cases info)
    case (Some i)
    with rest keep show ?thesis
      by (auto simp: bind_simps identity_Inr write_credential_def get_user_users [of "gw_auth s2" "gw_auth s0"] split: if_splits)
  next
    case None
    then obtain token where tok: "bearer_token rq = Some token" using rest by (cases "bearer_token rq") auto
    obtain name s3 where v: "verify_bearer E token s2 = (Inr (Some name), s3)" and u: "get_user (PStr name) (gw_auth s3) = Some actor"
      and adm: "us_role actor = ''admin''"
      using rest None tok by (auto simp: hbind_Inr_iff identity_Inr check_def)
    have "users (gw_auth s3) = users (gw_auth s0)" using keeps_at [OF keeps_bearer v] keep by simp
    moreover have "fst (verify_device_token (ge_crypto E) token (ge_now E) (gw_auth s2)) = Some name"
      using v by (simp add: verify_bearer_def handler_simps split: prod.splits)
    then have "fst (verify_device_token (ge_crypto E) token (ge_now E) (gw_auth s0)) = Some name"
      using keep verify_token_tables [of "gw_auth s2" "gw_auth s0"] by metis
    ultimately show ?thesis using tok u adm get_user_users [of "gw_auth s3" "gw_auth s0"] by (auto simp: write_credential_def)
  qed
  then show ?thesis using on keeps_at [OF keeps_actor assms] by blast
qed

lemma limit_admits:
  assumes "enforce_rate_limit E rq s = (Inr (), s0)"
  shows "fst (allow (ge_faults E) (ge_now E) (client_ip rq) (gw_limiter s)) = Inr True \<and> gw_auth s0 = gw_auth s"
  using assms by (auto simp: enforce_rate_limit_def Let_def split: prod.splits sum.splits bool.splits)

lemma admin_write_facts:
  assumes "serve_admin E rq R req s = (r, s')" and "users (gw_auth s') \<noteq> users (gw_auth s)"
  shows "auth_on E \<and> fst (allow (ge_faults E) (ge_now E) (client_ip rq) (gw_limiter s)) = Inr True \<and>
    \<not> looks_cross_site (ge_ip_ok E) (ge_allowed_hosts E) rq \<and>
    (\<exists>actor db. write_credential E rq (gw_auth s) actor \<and> permitted actor req (gw_auth s) \<and>
       users db = users (gw_auth s) \<and> users (gw_auth s') = users (manager_op E R actor req db))"
proof -
  obtain s0 actor s1 where lim: "enforce_rate_limit E rq s = (Inr (), s0)"
    and org: "enforce_same_origin (ge_ip_ok E) (ge_allowed_hosts E) rq = Inr ()"
    and act: "require_write_actor E rq s0 = (Inr actor, s1)" and per: "permitted actor req (gw_auth s1)"
    and op: "users (gw_auth s') = users (manager_op E R actor req (gw_auth s1))"
    using admin_routes_follow_matrix [OF assms(1)] assms(2) by blast
  have "users (gw_auth s1) = users (gw_auth s)" using limit_admits [OF lim] actor_credential [OF act] by simp
  then show ?thesis
    using limit_admits [OF lim] actor_credential [OF act] org per op permitted_users [of "gw_auth s1" "gw_auth s"]
    by (auto simp: enforce_same_origin_iff)
qed

text \<open>
  C7: account writes are gated. If any of the administration routes changes an account, then
  authentication is on, the rate limiter admitted the request, the request is not cross-site, and
  it carries a live session with the CSRF token of that session or the device token of an
  administrator, of an account whose role the access matrix permits to make this change; the
  resulting accounts are those of the one operation the route stands for.
\<close>

theorem admin_write_gated:
  assumes "serve_admin E rq R req s = (r, s')" and "users (gw_auth s') \<noteq> users (gw_auth s)"
  shows "auth_on E \<and> fst (allow (ge_faults E) (ge_now E) (client_ip rq) (gw_limiter s)) = Inr True \<and>
    \<not> looks_cross_site (ge_ip_ok E) (ge_allowed_hosts E) rq \<and>
    (\<exists>actor db. write_credential E rq (gw_auth s) actor \<and> permitted actor req (gw_auth s) \<and>
       users db = users (gw_auth s) \<and> users (gw_auth s') = users (manager_op E R actor req db))"
  using admin_write_facts [OF assms] .

section \<open>Administrators\<close>

text \<open>The accounts with the role of an administrator, and what protects them.\<close>

definition admin_rows :: "user_row list \<Rightarrow> (str \<times> str \<times> bool) list" where
  "admin_rows us = map (\<lambda>u. (u_name u, u_hash u, u_disabled u)) (filter (\<lambda>u. u_role u = ''admin'') us)"

lemma admin_rows_append: "admin_rows (xs @ ys) = admin_rows xs @ admin_rows ys"
  by (simp add: admin_rows_def)

lemma admin_rows_update:
  assumes "\<And>u. u \<in> set us \<Longrightarrow> P u \<Longrightarrow> u_role u \<noteq> ''admin''" and "\<And>u. u_role (f u) = u_role u"
  shows "admin_rows (update_where P f us) = admin_rows us"
  using assms(1) by (induction us) (auto simp: admin_rows_def update_where_def assms(2))

lemma lower_space: "py_isspace (py_lower_char c) = py_isspace c"
proof -
  have "code (char_of (code c + 32)) = code c + 32" if "code c \<le> 222" using that by (intro code_char_of) simp
  then show ?thesis by (auto simp: py_isspace_def py_lower_char_def Let_def)
qed

lemma lower_twice: "py_lower_char (py_lower_char c) = py_lower_char c"
proof -
  have "code (char_of (code c + 32)) = code c + 32" if "code c \<le> 222" using that by (intro code_char_of) simp
  then show ?thesis by (auto simp: py_lower_char_def Let_def)
qed

lemma strip_lower: "py_strip (py_lower s) = py_lower (py_strip s)"
  by (simp add: py_strip_def py_lstrip_def py_lower_def dropWhile_map rev_map comp_def lower_space)

lemma strip_strip: "py_strip (py_strip s) = py_strip s"
proof -
  have "dropWhile py_isspace (rev (dropWhile py_isspace (rev (dropWhile py_isspace s)))) = rev (dropWhile py_isspace (rev (dropWhile py_isspace s)))"
  proof (cases "dropWhile py_isspace s")
    case (Cons x xs)
    then have "\<not> py_isspace x" by (metis hd_dropWhile list.discI list.sel(1))
    then show ?thesis using Cons by (simp add: dropWhile_append)
  qed (simp only: rev.simps dropWhile.simps)
  then show ?thesis by (simp add: py_strip_def py_lstrip_def dropWhile_fixed)
qed

lemma canonical_twice: "canonical_of (PStr (canonical_of (PStr u))) = canonical_of (PStr u)"
  by (simp add: canonical_of_def strip_lower strip_strip) (simp add: py_lower_def lower_twice)

lemma get_user_name: "get_user (PStr u) db = Some t \<Longrightarrow> us_username t = canonical_of (PStr u)"
  by (auto simp: get_user_def get_user_row_def summary_from_row_def find_Some_iff)

lemma get_user_role:
  assumes "get_user (PStr u) db = Some t" and "us_role t \<noteq> ''admin''" and "distinct (map u_name (users db))"
    and "x \<in> set (users db)" and "u_name x = canonical_of (PStr u)"
  shows "u_role x \<noteq> ''admin''"
proof -
  obtain row where row: "row \<in> set (users db)" "u_name row = canonical_of (PStr u)" "t = summary_from_row row"
    using assms(1) by (auto simp: get_user_def get_user_row_def find_Some_iff in_set_conv_nth)
  then have "x = row" using assms(3-5) by (metis distinct_map inj_onD)
  then show ?thesis using row(3) assms(2) by (auto simp: summary_from_row_def)
qed

lemma admin_rows_update2:
  assumes "\<And>u. u \<in> set us \<Longrightarrow> P u \<Longrightarrow> u_role u \<noteq> ''admin''" and "\<And>u. u_role (f u) = u_role u" and "\<And>u. u_role (g u) = u_role u"
    and "\<And>u. P (f u) = P u"
  shows "admin_rows (update_where P g (update_where P f us)) = admin_rows us"
proof -
  have "admin_rows (update_where P g (update_where P f us)) = admin_rows (update_where P f us)"
    using assms by (intro admin_rows_update) (auto simp: set_update_where split: if_splits)
  also have "\<dots> = admin_rows us" using assms(1,2) by (rule admin_rows_update)
  finally show ?thesis .
qed

lemma set_password_admins:
  assumes "\<And>x. x \<in> set (users db) \<Longrightarrow> u_name x = canonical_of u \<Longrightarrow> u_role x \<noteq> ''admin''"
  shows "admin_rows (users (snd (set_password C u p salt db))) = admin_rows (users db)"
proof -
  let ?P = "\<lambda>x. u_name x = canonical_of u"
  have "admin_rows (update_where ?P (\<lambda>u. u\<lparr>u_hash := h\<rparr>) (users db)) = admin_rows (users db)"
    "admin_rows (update_where ?P (\<lambda>u. u\<lparr>u_failed := 0, u_locked := None\<rparr>) (update_where ?P (\<lambda>u. u\<lparr>u_hash := h\<rparr>) (users db))) = admin_rows (users db)" for h
    by (rule admin_rows_update admin_rows_update2; use assms in simp)+
  then show ?thesis
    by (simp add: set_password_def set_hash_def reset_lockout_def revoke_sessions_for_user_def Let_def split: sum.split)
qed

lemma disable_admins:
  assumes "\<And>x. x \<in> set (users db) \<Longrightarrow> u_name x = canonical_of u \<Longrightarrow> u_role x \<noteq> ''admin''"
  shows "admin_rows (users (snd (disable_user u db))) = admin_rows (users db)"
proof -
  have "admin_rows (update_where (\<lambda>x. u_name x = canonical_of u \<and> last_admin_guard db x) (\<lambda>u. u\<lparr>u_disabled := True\<rparr>) (users db)) = admin_rows (users db)"
    by (rule admin_rows_update) (use assms in simp_all)
  then show ?thesis
    by (simp add: disable_user_def revoke_tokens_for_user_def revoke_sessions_for_user_def Let_def)
qed

lemma enable_admins:
  assumes "\<And>x. x \<in> set (users db) \<Longrightarrow> u_name x = canonical_of u \<Longrightarrow> u_role x \<noteq> ''admin''"
  shows "admin_rows (users (snd (enable_user u db))) = admin_rows (users db)"
proof -
  let ?P = "\<lambda>x. u_name x = canonical_of u"
  have "admin_rows (update_where ?P (\<lambda>u. u\<lparr>u_disabled := False\<rparr>) (users db)) = admin_rows (users db)"
    "admin_rows (update_where ?P (\<lambda>u. u\<lparr>u_failed := 0, u_locked := None\<rparr>) (update_where ?P (\<lambda>u. u\<lparr>u_disabled := False\<rparr>) (users db))) = admin_rows (users db)"
    by (rule admin_rows_update admin_rows_update2; use assms in simp)+
  then show ?thesis by (simp add: enable_user_def reset_lockout_def Let_def)
qed

lemma create_admins:
  assumes "c = ''operator'' \<or> c = ''audit''"
  shows "admin_rows (users (snd (create_user C u p (PStr c) salt now db))) = admin_rows (users db)"
proof -
  have "validate_role (PStr c) = Inr c" using assms by (elim disjE) (simp_all only:, code_simp+)
  moreover have "c \<noteq> ''admin''" using assms by auto
  ultimately show ?thesis
    by (auto simp: create_user_def insert_user_def new_user_def admin_rows_append split: sum.split option.split) (simp add: admin_rows_def)
qed

text \<open>
  Only administrators change administrators, as long as requests do not overlap. Whatever administration request is served, if
  the list of administrator accounts, their password hashes or their enabled flags change, the
  request carried the credential of an administrator: an operator can neither create, promote,
  demote, disable, enable nor delete an administrator, nor reset an administrator's password.
\<close>

theorem only_admins_change_admins:
  assumes "serve_admin E rq R req s = (r, s')" and "distinct (map u_name (users (gw_auth s)))"
    and "admin_rows (users (gw_auth s')) \<noteq> admin_rows (users (gw_auth s))"
  shows "\<exists>actor. write_credential E rq (gw_auth s) actor \<and> us_role actor = ''admin''"
proof -
  obtain actor db where cred: "write_credential E rq (gw_auth s) actor" and per: "permitted actor req (gw_auth s)"
    and db: "users db = users (gw_auth s)" "users (gw_auth s') = users (manager_op E R actor req db)"
    using admin_write_facts [OF assms(1)] assms(3) by metis
  have "us_role actor = ''admin''"
  proof (rule ccontr)
    assume non: "us_role actor \<noteq> ''admin''"
    obtain name where name: "get_user (PStr name) db = Some actor"
      using cred get_user_users [OF db(1)] unfolding write_credential_def by metis
    then have self: "get_user (PStr (us_username actor)) db = Some actor"
      by (simp only: get_user_def get_user_name [OF name] canonical_twice)
    have names: "distinct (map u_name (users db))" using assms(2) db(1) by simp
    note safe = get_user_role [OF _ _ names]
    have touch: "\<And>x. x \<in> set (users db) \<Longrightarrow> u_name x = canonical_of (PStr u) \<Longrightarrow> u_role x \<noteq> ''admin''"
      if "may_touch (us_role actor) u db" for u
      using that non safe unfolding may_touch_def by metis
    have "permitted actor req db" using per permitted_users [OF db(1)] by simp
    then have "admin_rows (users (manager_op E R actor req db)) = admin_rows (users db)"
    proof (cases req)
      case (CreateReq u p r)
      with \<open>permitted actor req db\<close> non have "canonical_role r = ''operator'' \<or> canonical_role r = ''audit''"
        unfolding canonical_role_def by fastforce
      then show ?thesis using CreateReq create_admins by simp
    next
      case (OwnPasswordReq p)
      then show ?thesis using set_password_admins [OF safe [OF self non]] by simp
    qed (use \<open>permitted actor req db\<close> non set_password_admins [OF touch] disable_admins [OF touch] enable_admins [OF touch] in simp_all)
    then show False using assms(3) db by simp
  qed
  with cred show ?thesis by blast
qed

section \<open>A concrete database\<close>

definition demo_user :: "str \<Rightarrow> str \<Rightarrow> user_row" where
  "demo_user name role = new_user name ''h'' 0 role"

definition demo_session :: "str \<Rightarrow> str \<Rightarrow> str \<Rightarrow> session_row" where
  "demo_session name sid csrf = \<lparr>s_id = sid, s_user = name, s_csrf = csrf, s_created = 0, s_seen = 0, s_expires = 100, s_revoked = False\<rparr>"

definition demo_gw_state :: gw_state where
  "demo_gw_state = \<lparr>gw_auth = \<lparr>users = [demo_user ''root'' ''admin'', demo_user ''spare'' ''admin'', demo_user ''op'' ''operator'', demo_user ''bob'' ''operator''],
       sessions = [demo_session ''root'' ''sr'' ''cr'', demo_session ''op'' ''so'' ''co''], tokens = []\<rparr>,
     gw_limiter = (fresh_limiter 5 60 None, init_db None), gw_rl_audit = [], gw_log = [], gw_effects = []\<rparr>"

definition demo_auth_env :: gw_env where
  "demo_auth_env = demo_gw_env [(''auth'', PDict [(''enabled'', PBool True)])]"

definition demo_fresh :: fresh where
  "demo_fresh = \<lparr>fr_salt = ''salt'', fr_session = ''s9'', fr_csrf = ''c9''\<rparr>"

text \<open>A request with the session cookie \<open>sid\<close> and the CSRF token \<open>csrf\<close>.\<close>

definition demo_write :: "str \<Rightarrow> str \<Rightarrow> http_request" where
  "demo_write sid csrf = (demo_request [(''x-cyclaw-csrf'', csrf)])\<lparr>rq_session_cookie := Some sid\<rparr>"

theorem admin_write_gated_witness:
  "auth_on demo_auth_env \<and> (\<exists>actor. write_credential demo_auth_env (demo_write ''sr'' ''cr'') (gw_auth demo_gw_state) actor)"
proof -
  let ?o = "serve_admin demo_auth_env (demo_write ''sr'' ''cr'') demo_fresh (DisableReq ''spare'') demo_gw_state"
  have "map u_disabled (users (gw_auth (snd ?o))) \<noteq> map u_disabled (users (gw_auth demo_gw_state))" by code_simp
  then have "users (gw_auth (snd ?o)) \<noteq> users (gw_auth demo_gw_state)" by metis
  from admin_write_gated [OF _ this, of demo_auth_env "demo_write ''sr'' ''cr''" demo_fresh "DisableReq ''spare''" "fst ?o"]
  show ?thesis by auto
qed

theorem only_admins_change_admins_witness:
  "\<exists>actor. write_credential demo_auth_env (demo_write ''sr'' ''cr'') (gw_auth demo_gw_state) actor \<and> us_role actor = ''admin''"
proof -
  let ?o = "serve_admin demo_auth_env (demo_write ''sr'' ''cr'') demo_fresh (DisableReq ''spare'') demo_gw_state"
  have "admin_rows (users (gw_auth (snd ?o))) \<noteq> admin_rows (users (gw_auth demo_gw_state))"
    "distinct (map u_name (users (gw_auth demo_gw_state)))" by code_simp+
  with only_admins_change_admins [of demo_auth_env "demo_write ''sr'' ''cr''" demo_fresh "DisableReq ''spare''" demo_gw_state "fst ?o" "snd ?o"]
  show ?thesis by simp
qed

text \<open>
  The check of the target and the write are separate steps, and other requests are served in
  between (the write hashes a password on a worker thread). If the target is promoted after the
  check, an operator sets the password of an administrator.
\<close>

lemma in_update_where: "u \<in> set us \<Longrightarrow> P u \<Longrightarrow> f u \<in> set (update_where P f us)"
  by (auto simp: set_update_where)

lemma set_password_write_sets:
  assumes "u \<in> set (users (gw_auth s))" and "u_name u = canonical_of (PStr name)"
    and "hash_password (ge_crypto E) (PStr p) (fr_salt R) = Inr rec"
  shows "\<exists>v \<in> set (users (gw_auth (snd (set_password_write E R name p s)))). u_name v = u_name u \<and> u_role v = u_role u \<and> u_hash v = rec"
proof -
  let ?P = "\<lambda>v. u_name v = canonical_of (PStr name)"
  let ?v = "u\<lparr>u_hash := rec, u_failed := 0, u_locked := None\<rparr>"
  have "rowcount ?P (users (gw_auth s)) \<noteq> 0" using assms(1,2) by (auto simp: rowcount_zero)
  moreover have "?v \<in> set (update_where ?P (\<lambda>u. u\<lparr>u_failed := 0, u_locked := None\<rparr>) (update_where ?P (\<lambda>u. u\<lparr>u_hash := rec\<rparr>) (users (gw_auth s))))"
    using in_update_where [OF in_update_where [OF assms(1), of ?P "\<lambda>u. u\<lparr>u_hash := rec\<rparr>"], of ?P "\<lambda>u. u\<lparr>u_failed := 0, u_locked := None\<rparr>"] assms(2)
    by simp
  ultimately have "?v \<in> set (users (gw_auth (snd (set_password_write E R name p s))))"
    using assms(3)
    by (simp add: set_password_write_def try_auth_def set_password_def set_hash_def reset_lockout_def revoke_sessions_for_user_def Let_def)
  then show ?thesis by (rule rev_bexI) simp
qed

lemma touch_check_outrun:
  assumes "hash_password (ge_crypto demo_auth_env) (PStr pw) (fr_salt demo_fresh) = Inr rec"
  defines "c \<equiv> touch_check demo_auth_env (demo_write ''so'' ''co'') ''bob'' demo_gw_state"
  defines "s2 \<equiv> snd (auth_set_role demo_auth_env (demo_write ''sr'' ''cr'') ''bob'' ''admin'' (snd c))"
  shows "(\<exists>actor target. fst c = Inr (actor, target) \<and> us_role actor = ''operator'') \<and>
    (\<exists>u \<in> set (users (gw_auth (snd (set_password_write demo_auth_env demo_fresh ''bob'' pw s2)))).
       u_name u = ''bob'' \<and> u_role u = ''admin'' \<and> u_hash u = rec)"
proof -
  have "case fst c of Inr (actor, _) \<Rightarrow> us_role actor = ''operator'' | Inl _ \<Rightarrow> False" unfolding c_def by code_simp
  moreover have "list_ex (\<lambda>u. u_name u = ''bob'' \<and> u_role u = ''admin'') (users (gw_auth s2))" unfolding s2_def c_def by code_simp
  then obtain u where "u \<in> set (users (gw_auth s2))" "u_name u = ''bob''" "u_role u = ''admin''" by (auto simp: list_ex_iff)
  moreover have "canonical_of (PStr ''bob'') = ''bob''" by code_simp
  ultimately show ?thesis
    using set_password_write_sets [of u s2 "''bob''", OF _ _ assms(1)] by (auto split: sum.splits)
qed

end
