(* ===== verification/Gateway_Query_Claims.thy ===== *)
theory Gateway_Query_Claims
  imports Gateway_Query Gateway_Auth_Claims
begin

text \<open>
  Properties of \<open>POST /query\<close> that compose the gateway with the limiter, the accounts, the injection
  filter and the query graph: what stands in front of an external call, what a pause means, which
  providers it offers, and that an offline configuration never calls out.
\<close>

section \<open>What a request must pass\<close>

text \<open>The credential of a reader: a live session or a device token.\<close>

definition read_credential :: "gw_env \<Rightarrow> http_request \<Rightarrow> auth_db \<Rightarrow> str \<Rightarrow> bool" where
  "read_credential E rq db name \<longleftrightarrow>
     (\<exists>sid i. rq_session_cookie rq = Some sid \<and> fst (validate_session (ge_crypto E) (ge_auth_cfg E) sid (ge_now E) db) = Some i \<and>
        si_username i = name) \<or>
     (\<exists>token. bearer_token rq = Some token \<and> fst (verify_device_token (ge_crypto E) token (ge_now E) db) = Some name)"

definition filter_passes :: "gw_env \<Rightarrow> str \<Rightarrow> bool" where
  "filter_passes E query = (check_input (ge_text E) (PDict (ge_cfg E)) None query = Inr query)"

text \<open>What a handler before the graph leaves alone.\<close>

definition quiet :: "'a route \<Rightarrow> bool" where
  "quiet h = (\<forall>s. gw_effects (snd (h s)) = gw_effects s)"

named_theorems quiet \<open>handlers without effects of the graph\<close>

lemma quiet_hbind [quiet]: "quiet f \<Longrightarrow> (\<And>x. quiet (g x)) \<Longrightarrow> quiet (hbind f g)"
  by (simp add: quiet_def hbind_def split: prod.split sum.split) (metis snd_conv)

lemma quiet_base [quiet]:
  "quiet (hret x)" "quiet (hraise e)" "quiet (hensure b e)" "quiet (check r)" "quiet (read_auth f)" "quiet (audit a)" "quiet (on_auth g)"
  by (simp_all add: quiet_def handler_simps split: prod.split)

lemma quiet_limit [quiet]: "quiet (enforce_rate_limit E rq)"
  by (auto simp: quiet_def enforce_rate_limit_def Let_def split: prod.split sum.split bool.split)

lemma quiet_session [quiet]: "quiet (require_session_or_token E rq)"
  unfolding require_session_or_token_def require_enabled_def cookie_session_def validate_cookie_def verify_bearer_def Let_def
  by (intro quiet) (auto intro!: quiet split: option.split)

lemma quiet_filter [quiet]: "quiet (query_filter E py_str u q)"
  unfolding query_filter_def audit_query_def by (auto intro!: quiet split: sum.split filter_error.split)

lemma quiet_forbid [quiet]: "quiet (forbid_audit_query E u)"
  unfolding forbid_audit_query_def by (auto intro!: quiet)

lemma quiet_at: "quiet h \<Longrightarrow> h s = (r, s') \<Longrightarrow> gw_effects s' = gw_effects s"
  by (metis quiet_def snd_conv)

lemma session_Inr:
  assumes "require_session_or_token E rq s = (Inr u, s1)"
  shows "read_credential E rq (gw_auth s) u \<and> gw_limiter s1 = gw_limiter s \<and> users (gw_auth s1) = users (gw_auth s)"
proof -
  obtain info s2 name where ck: "cookie_session E rq s = (Inr info, s2)" and
    name: "(case (info, bearer_token rq) of (Some i, _) \<Rightarrow> hret (Some (si_username i)) | (None, Some token) \<Rightarrow> verify_bearer E token
       | (None, None) \<Rightarrow> hret None) s2 = (Inr name, s1)" and u: "name = Some u"
    using assms by (auto simp: require_session_or_token_def hbind_Inr_iff require_enabled_def split: option.splits)
  note keep = cookie_session_Inr [OF ck]
  have lim: "gw_limiter s2 = gw_limiter s"
    using ck by (auto simp: cookie_session_def validate_cookie_def handler_simps Let_def split: if_splits prod.splits)
  show ?thesis
  proof (cases info)
    case (Some i)
    with name u keep lim show ?thesis by (auto simp: read_credential_def)
  next
    case None
    then obtain token where tok: "bearer_token rq = Some token" and v: "verify_bearer E token s2 = (Inr (Some u), s1)"
      using name u by (cases "bearer_token rq") auto
    have "fst (verify_device_token (ge_crypto E) token (ge_now E) (gw_auth s2)) = Some u"
      using v by (simp add: verify_bearer_def handler_simps split: prod.splits)
    then have "fst (verify_device_token (ge_crypto E) token (ge_now E) (gw_auth s)) = Some u"
      using keep verify_token_tables [of "gw_auth s2" "gw_auth s"] by metis
    moreover have "gw_limiter s1 = gw_limiter s2"
      using v by (auto simp: verify_bearer_def handler_simps split: prod.splits)
    ultimately show ?thesis using tok lim keep keeps_at [OF keeps_bearer v] by (auto simp: read_credential_def)
  qed
qed

text \<open>The user of a request: the credential's owner when authentication is on.\<close>

definition query_user :: "gw_env \<Rightarrow> http_request \<Rightarrow> auth_db \<Rightarrow> str option \<Rightarrow> bool" where
  "query_user E rq db username \<longleftrightarrow> (if auth_on E then \<exists>u. username = Some u \<and> read_credential E rq db u \<and>
     (\<forall>x. get_user (PStr u) db = Some x \<and> u \<noteq> [] \<longrightarrow> us_role x \<noteq> ''audit'') else username = None)"

lemma run_graph_effects: "gw_effects (snd (run_graph E G t err u req s)) = gw_effects s @ snd (invoke G (initial_state req u))"
  by (simp add: run_graph_def Let_def hbind_def handler_simps audit_query_def split: prod.split run_result.split)

lemma filter_Inr: "query_filter E py_str u q s = (Inr x, s1) \<longleftrightarrow> filter_passes E q \<and> s1 = s"
  by (auto simp: query_filter_def filter_passes_def hbind_def handler_simps audit_query_def dest: check_input_unchanged
      split: sum.splits filter_error.splits option.splits)

lemma forbid_Inr:
  "forbid_audit_query E (Some u) s = (Inr x, s1) \<Longrightarrow> auth_on E \<Longrightarrow> u \<noteq> [] \<Longrightarrow>
     s1 = s \<and> (\<forall>y. get_user (PStr u) (gw_auth s) = Some y \<longrightarrow> us_role y \<noteq> ''audit'')"
  by (auto simp: forbid_audit_query_def bind_simps split: if_splits)

lemma endpoint_gates:
  assumes "query_endpoint E (Some G) timed_out err rq req username s = (r, s')"
  shows "gw_effects s' = gw_effects s \<or> (\<exists>s1. enforce_rate_limit E rq s = (Inr (), s1) \<and>
     (\<exists>s2. forbid_audit_query E username s1 = (Inr (), s2)) \<and> filter_passes E (q_query req) \<and>
     gw_effects s' = gw_effects s @ snd (invoke G (initial_state req username)))"
proof -
  from assms consider e where "enforce_rate_limit E rq s = (Inl e, s')"
    | s1 e where "enforce_rate_limit E rq s = (Inr (), s1)" "forbid_audit_query E username s1 = (Inl e, s')"
    | s1 s2 e where "enforce_rate_limit E rq s = (Inr (), s1)" "forbid_audit_query E username s1 = (Inr (), s2)"
        "query_filter E (g_py_str G) username (q_query req) s2 = (Inl e, s')"
    | s1 s2 s3 where "enforce_rate_limit E rq s = (Inr (), s1)" "forbid_audit_query E username s1 = (Inr (), s2)"
        "query_filter E (g_py_str G) username (q_query req) s2 = (Inr (), s3)"
        "hbind (run_graph E G timed_out err username req) (\<lambda>st. hret (query_result G st)) s3 = (r, s')"
    unfolding query_endpoint_def option.case by (auto elim!: hbind_cases)
  then show ?thesis
  proof cases
    case 1
    then show ?thesis using quiet_at [OF quiet_limit] by blast
  next
    case 2
    then show ?thesis using quiet_at [OF quiet_limit] quiet_at [OF quiet_forbid] by metis
  next
    case 3
    then show ?thesis using quiet_at [OF quiet_limit] quiet_at [OF quiet_forbid] quiet_at [OF quiet_filter] by metis
  next
    case 4
    have "gw_effects s3 = gw_effects s"
      using 4 quiet_at [OF quiet_limit] quiet_at [OF quiet_forbid] quiet_at [OF quiet_filter] by metis
    moreover have "gw_effects s' = gw_effects (snd (run_graph E G timed_out err username req s3))"
      using 4(4) by (auto elim!: hbind_cases simp: handler_simps)
    ultimately show ?thesis using 4 filter_Inr by (auto simp: run_graph_effects)
  qed
qed

lemma serve_query_gates:
  assumes "serve_query E (Some G) timed_out err rq req s = (r, s')"
  shows "gw_effects s' = gw_effects s \<or> (\<exists>username. \<not> looks_cross_site (ge_ip_ok E) (ge_allowed_hosts E) rq \<and>
     fst (allow (ge_faults E) (ge_now E) (client_ip rq) (gw_limiter s)) = Inr True \<and> query_user E rq (gw_auth s) username \<and>
     filter_passes E (q_query req) \<and> gw_effects s' = gw_effects s @ snd (invoke G (initial_state req username)))"
proof (cases "gw_effects s' = gw_effects s")
  case False
  then have site: "\<not> looks_cross_site (ge_ip_ok E) (ge_allowed_hosts E) rq"
    and rest: "hbind (if auth_on E then hbind (require_session_or_token E rq) (\<lambda>u. hret (Some u)) else hret None)
      (query_endpoint E (Some G) timed_out err rq req) s = (r, s')"
    using assms by (auto simp: serve_query_def reject_cross_site_query_def bind_simps split: if_splits)
  obtain username s1 where ident: "(if auth_on E then hbind (require_session_or_token E rq) (\<lambda>u. hret (Some u)) else hret None) s = (Inr username, s1)"
    and ep: "query_endpoint E (Some G) timed_out err rq req username s1 = (r, s')"
  proof -
    have "quiet (if auth_on E then hbind (require_session_or_token E rq) (\<lambda>u. hret (Some u)) else hret None)"
      by (auto intro!: quiet)
    note calm = quiet_at [OF this]
    from rest show ?thesis
    proof (cases rule: hbind_cases)
      case (raises e)
      then show ?thesis using calm False by blast
    next
      case (returns u s1)
      then show ?thesis using that by blast
    qed
  qed
  have user: "gw_limiter s1 = gw_limiter s \<and> gw_effects s1 = gw_effects s \<and> users (gw_auth s1) = users (gw_auth s) \<and>
      (if auth_on E then \<exists>u. username = Some u \<and> read_credential E rq (gw_auth s) u else username = None)"
    using ident session_Inr [of E rq s] quiet_at [OF quiet_session, of E rq s] by (auto simp: hbind_Inr_iff split: if_splits)
  then obtain s2 s3 where lim: "enforce_rate_limit E rq s1 = (Inr (), s2)" and fb: "forbid_audit_query E username s2 = (Inr (), s3)"
    and ok: "filter_passes E (q_query req)" "gw_effects s' = gw_effects s @ snd (invoke G (initial_state req username))"
    using endpoint_gates [OF ep] False by auto
  have "users (gw_auth s2) = users (gw_auth s)" using limit_admits [OF lim] user by simp
  then have "query_user E rq (gw_auth s) username"
    using user fb forbid_Inr [of E _ s2 "()" s3] get_user_users [of "gw_auth s2" "gw_auth s"] by (auto simp: query_user_def split: if_splits)
  with site ok limit_admits [OF lim] user show ?thesis by auto
qed simp

section \<open>What stands in front of an external call\<close>

text \<open>
  C1: no request makes the process call an external provider unless it passed every gate of the
  gateway and of the graph: it is not cross-site, the rate limiter admitted it, with
  authentication on it carries the live credential of an account that is not an auditor, its text
  passed the injection filter, its own body confirms the online call and selects the provider, the
  client of that provider exists and is available, the pre-action hook allowed the call, and the
  destination is allowlisted.
\<close>

theorem external_call_end_to_end:
  assumes "serve_query E (Some G) timed_out err rq req s = (r, s')" and "gw_effects s' = gw_effects s @ new"
    and "ExternalCall pv guarded prompt spend \<in> set new"
  shows "\<not> looks_cross_site (ge_ip_ok E) (ge_allowed_hosts E) rq \<and>
    fst (allow (ge_faults E) (ge_now E) (client_ip rq) (gw_limiter s)) = Inr True \<and>
    filter_passes E (q_query req) \<and> q_user_confirmed_online req = Some True \<and>
    (\<exists>username. query_user E rq (gw_auth s) username \<and> selected_provider (initial_state req username) = pv \<and>
       hook_allows G pv (initial_state req username)) \<and>
    usable (provider_client G pv) \<and> assert_online_destination (g_ip_ok G) pv (gc_base_url (g_cfg G) pv) (Some True) = Inr ()"
proof -
  obtain username where gates: "\<not> looks_cross_site (ge_ip_ok E) (ge_allowed_hosts E) rq"
    "fst (allow (ge_faults E) (ge_now E) (client_ip rq) (gw_limiter s)) = Inr True" "query_user E rq (gw_auth s) username"
    "filter_passes E (q_query req)" and new: "new = snd (invoke G (initial_state req username))"
    using serve_query_gates [OF assms(1)] assms(2,3) by auto
  have "ExternalCall pv guarded prompt spend \<in> set (snd (invoke G (initial_state req username)))" using assms(3) new by simp
  note facts = external_call_facts [OF this]
  moreover have "q_user_confirmed_online req = Some True" using facts by (simp add: initial_state_def)
  ultimately show ?thesis using gates by blast
qed

section \<open>Offline mode\<close>

text \<open>
  C2: a configuration that is not in hybrid mode, or does not enable a provider with a literal
  true, never calls that provider, whatever the requests are and whatever they confirm.
\<close>

theorem offline_never_external:
  assumes "serve_query E (Some (G\<lparr>g_grok := boot_client (ge_cfg E) ''grok'' c1, g_claude := boot_client (ge_cfg E) ''claude'' c2\<rparr>))
      timed_out err rq req s = (r, s')"
    and "gw_effects s' = gw_effects s @ new"
    and "dget (section_of (ge_cfg E) ''app'') ''mode'' PNone \<noteq> PStr ''hybrid'' \<or>
      dget (section_of (section_of (ge_cfg E) ''models'') pv) ''enabled'' PNone \<noteq> PBool True"
  shows "ExternalCall pv guarded prompt spend \<notin> set new"
proof
  let ?G = "G\<lparr>g_grok := boot_client (ge_cfg E) ''grok'' c1, g_claude := boot_client (ge_cfg E) ''claude'' c2\<rparr>"
  assume ex: "ExternalCall pv guarded prompt spend \<in> set new"
  then obtain username where "new = snd (invoke ?G (initial_state req username))"
    using serve_query_gates [OF assms(1)] assms(2) by auto
  with ex have "ExternalCall pv guarded prompt spend \<in> set (snd (invoke ?G (initial_state req username)))" by simp
  from external_call_facts [OF this] have "usable (provider_client ?G pv)" by blast
  then show False
    using assms(3) by (auto simp: usable_def provider_client_def boot_client_def is_literal_true_def split: if_splits option.splits)
qed

section \<open>The pause\<close>

fun is_call :: "effect \<Rightarrow> bool" where
  "is_call (LocalCall _ _) = True"
| "is_call (ExternalCall _ _ _ _) = True"
| "is_call _ = False"

definition answered :: "graph_state \<Rightarrow> bool" where
  "answered s = (oget (st_answer_model s) [] \<noteq> [])"

definition pause_inv :: "node \<Rightarrow> graph_state \<Rightarrow> effect list \<Rightarrow> bool" where
  "pause_inv n s es =
     (if n \<in> {GuardrailOutput, AuditLogger, End} then answered s \<or> st_user_confirmed_online s = None \<and> \<not> list_ex is_call es
      else \<not> list_ex is_call es \<and> \<not> oget (st_guardrail_blocked s) False)"

lemma early_no_call:
  "n \<notin> {LocalLlm, OfflineBestEffort, GrokFallback, ClaudeFallback} \<Longrightarrow> \<not> list_ex is_call (snd (exec_node env n s))"
  by (auto simp: list_ex_iff dest!: exec_effect_kind split: node.splits)

lemma local_answer_answered: "local_answer env s model prompt inc = (Some s', e) \<Longrightarrow> model \<noteq> [] \<Longrightarrow> answered s'"
  by (auto simp: local_answer_def answered_def oget_def with_error_def split: sum.splits option.splits prod.splits if_splits)

lemma external_answered: "external_fallback_node env cl pv label s = (Some s', e) \<Longrightarrow> pv \<noteq> [] \<Longrightarrow> answered s'"
  by (auto simp: external_fallback_node_def answered_def oget_def with_error_def Let_def split: sum.splits option.splits prod.splits if_splits)

lemma generator_answered:
  assumes "n \<in> {LocalLlm, OfflineBestEffort, GrokFallback, ClaudeFallback}" and "exec_node env n s = (Some s', e)"
  shows "answered s'"
  using assms
  by (auto simp: local_llm_node_def offline_best_effort_node_def grok_fallback_node_def claude_fallback_node_def Let_def
      split: prod.splits if_splits intro: local_answer_answered external_answered)

lemma tail_answer:
  assumes "n \<in> {GuardrailOutput, AuditLogger}" and "exec_node env n s = (Some s', e)"
  shows "answered s' = answered s"
  using assms audit_effects [of env s]
  by (auto simp: guardrail_output_node_def answered_def Let_def split: option.splits if_splits)

lemma blocked_unchanged:
  assumes "n \<in> {Retrieve, RouteByScore, UserGate, HookGrok, HookClaude}" and "exec_node env n s = (Some s', e)"
  shows "st_guardrail_blocked s' = st_guardrail_blocked s"
  using assms
  by (auto simp: retrieve_node_def route_by_score_node_def user_gate_node_def pre_action_hook_node_def Let_def
      split: sum.splits prod.splits search_error.splits option.splits hook_verdict.splits)

lemma guard_answered: "guardrail_input_node env s = (Some s', e) \<Longrightarrow> \<not> oget (st_guardrail_blocked s) False \<Longrightarrow>
    oget (st_guardrail_blocked s') False \<Longrightarrow> answered s'"
  by (auto simp: guardrail_input_node_def answered_def oget_def split: option.splits if_splits)

lemma hook_answered: "pre_action_hook_node env pv s = (Some s', e) \<Longrightarrow> oget (st_pre_action_hook_denied s') False \<Longrightarrow> answered s'"
  by (auto simp: pre_action_hook_node_def answered_def oget_def Let_def split: option.splits prod.splits hook_verdict.splits)

interpretation pause: graph_invariant env pause_inv for env
proof
  fix n s es s' e m
  assume inv: "pause_inv n s es" and ex: "exec_node env n s = (Some s', e)" and nx: "next_node env n s' = Some m"
  have conf: "st_user_confirmed_online s' = st_user_confirmed_online s" using exec_frame [OF ex] by (simp add: same_request_def)
  show "pause_inv m s' (es @ e)"
  proof (cases "n \<in> {LocalLlm, OfflineBestEffort, GrokFallback, ClaudeFallback}")
    case True
    then have "m = GuardrailOutput" using nx by auto
    then show ?thesis using generator_answered [OF True ex] by (simp add: pause_inv_def)
  next
    case False
    then have calls: "\<not> list_ex is_call e" using early_no_call [of n env s] ex by simp
    consider (tail) "n \<in> {GuardrailOutput, AuditLogger}" | (hook) pv where "exec_node env n s = pre_action_hook_node env pv s" "n \<in> {HookGrok, HookClaude}"
      | (rail) "n = GuardrailInput" | (early) "n \<in> {Retrieve, RouteByScore, UserGate}" | "n = End"
      using False by (cases n) auto
    then show ?thesis
    proof cases
      case tail
      then have "m \<in> {AuditLogger, End}" using nx by auto
      then show ?thesis using inv tail calls conf tail_answer [OF tail ex] by (auto simp: pause_inv_def)
    next
      case hook
      show ?thesis
      proof (cases "oget (st_pre_action_hook_denied s') False")
        case True
        then show ?thesis using hook ex nx hook_answered [of env pv s s' e] by (auto simp: pause_inv_def pre_action_hook_router_def)
      next
        case False
        then have "m \<in> {GrokFallback, ClaudeFallback}" using hook nx by (auto simp: pre_action_hook_router_def split: if_splits)
        then show ?thesis using hook inv calls blocked_unchanged [of n env s s' e] ex by (auto simp: pause_inv_def)
      qed
    next
      case rail
      then show ?thesis using inv ex nx calls guard_answered [of env s s' e]
        by (auto simp: pause_inv_def guardrail_router_def split: if_splits)
    next
      case early
      then have "oget (st_guardrail_blocked s') False = oget (st_guardrail_blocked s) False" using blocked_unchanged [of n env s s' e] ex by auto
      moreover have "st_user_confirmed_online s' = None" if "m = AuditLogger"
        using that early nx by (auto simp: user_gate_router_def split: option.splits bool.splits if_splits)
      moreover have "m \<notin> {GuardrailOutput, End}" using early nx by (auto split: if_splits)
      ultimately show ?thesis using inv early calls by (auto simp: pause_inv_def)
    qed (use nx in simp)
  qed
qed

interpretation request: graph_invariant env "\<lambda>n s es. same_request s0 s" for env s0
  by unfold_locales (use exec_frame same_request_trans in blast)

lemma pause_no_calls:
  assumes "invoke G (initial_state req u) = (Done st, effs)" and "\<not> answered st"
  shows "q_user_confirmed_online req = None \<and> \<not> list_ex is_call effs"
proof -
  have run: "run_from G Retrieve (initial_state req u) = (Done st, effs)" using assms(1) by (simp add: invoke_def)
  have "pause_inv Retrieve (initial_state req u) []" by (simp add: pause_inv_def initial_state_def oget_def)
  from pause.run_inv [OF this run] have "st_user_confirmed_online st = None \<and> \<not> list_ex is_call effs"
    using assms(2) by (simp add: pause_inv_def)
  moreover have "same_request (initial_state req u) st"
    using request.run_inv [OF same_request_refl run] by simp
  ultimately show ?thesis by (simp add: same_request_def initial_state_def)
qed

text \<open>
  A pause asks before anything is generated. If the response asks for confirmation, the
  request had not decided for or against an online call, neither the local model nor a provider was
  called for it, and the providers it offers are exactly those the graph would route a confirmed
  repetition of the request to.
\<close>

theorem pause_asks_first:
  assumes "serve_query E (Some G) timed_out err rq req s = (Inr resp, s')" and "qr_needs_confirm resp"
  shows "q_user_confirmed_online req = None \<and> qr_answer resp = [] \<and>
    (\<exists>new. gw_effects s' = gw_effects s @ new \<and> \<not> list_ex is_call new) \<and>
    (pv \<in> set (qr_available_providers resp) \<longleftrightarrow>
       user_gate_router G (st\<lparr>st_user_confirmed_online := Some True, st_online_provider := Some pv\<rparr>) \<in> {HookGrok, HookClaude} \<and> pv \<noteq> [])"
proof -
  obtain s1 username where ep: "query_endpoint E (Some G) timed_out err rq req username s1 = (Inr resp, s')"
    and eff: "gw_effects s1 = gw_effects s"
    using assms(1) quiet_at [OF quiet_session, of E rq s]
    by (auto simp: serve_query_def hbind_Inr_iff reject_cross_site_query_def split: if_splits)
  obtain s2 s3 s4 st0 where lim: "enforce_rate_limit E rq s1 = (Inr (), s2)" and fb: "forbid_audit_query E username s2 = (Inr (), s3)"
    and fl: "query_filter E (g_py_str G) username (q_query req) s3 = (Inr (), s4)"
    and run: "run_graph E G timed_out err username req s4 = (Inr st0, s')" and resp: "resp = query_result G st0"
    using ep by (auto simp: query_endpoint_def hbind_Inr_iff)
  have pause: "resp = pause_response G st0" "\<not> answered st0"
    using resp assms(2) by (auto simp: query_result_def answer_response_def answered_def split: if_splits)
  obtain effs where inv: "invoke G (initial_state req username) = (Done st0, effs)"
    using run by (auto simp: run_graph_def Let_def hbind_def handler_simps audit_query_def split: prod.splits run_result.splits if_splits)
  have "gw_effects s' = gw_effects s4 @ effs" using run_graph_effects [of E G timed_out err username req s4] run inv by simp
  moreover have "gw_effects s4 = gw_effects s"
    using eff quiet_at [OF quiet_limit lim] quiet_at [OF quiet_forbid fb] quiet_at [OF quiet_filter fl] by simp
  moreover have "pv \<in> set (qr_available_providers resp) \<longleftrightarrow>
       user_gate_router G (st\<lparr>st_user_confirmed_online := Some True, st_online_provider := Some pv\<rparr>) \<in> {HookGrok, HookClaude} \<and> pv \<noteq> []"
    using pause(1) by (auto simp: pause_response_def usable_online_providers_def user_gate_router_def selected_provider_def split: if_splits)
  ultimately show ?thesis using pause_no_calls [OF inv pause(2)] pause(1) by (simp add: pause_response_def)
qed

section \<open>A concrete gateway\<close>

definition demo_query :: "bool option \<Rightarrow> query_request" where
  "demo_query confirmed = \<lparr>q_query = ''q'', q_user_confirmed_online = confirmed, q_online_provider = None\<rparr>"

definition demo_served :: "graph_env \<Rightarrow> query_request \<Rightarrow> (http_error + query_response) \<times> gw_state" where
  "demo_served G req = serve_query (demo_gw_env []) (Some G) False [] (demo_request []) req demo_gw_state"

lemma demo_initial: "initial_state (demo_query c) None = demo_state c"
  by (simp add: initial_state_def demo_query_def demo_state_def)

lemma demo_serves:
  "gw_effects (snd (demo_served G (demo_query c))) = gw_effects demo_gw_state @ snd (invoke G (demo_state c))"
proof -
  have "fst (enforce_rate_limit (demo_gw_env []) (demo_request []) demo_gw_state) = Inr ()"
    "\<not> looks_cross_site (ge_ip_ok (demo_gw_env [])) (ge_allowed_hosts (demo_gw_env [])) (demo_request [])" "\<not> auth_on (demo_gw_env [])"
    "check_input (ge_text (demo_gw_env [])) (PDict (ge_cfg (demo_gw_env []))) None ''q'' = Inr ''q''"
    by code_simp+
  note gates = this
  obtain s1 where lim: "enforce_rate_limit (demo_gw_env []) (demo_request []) demo_gw_state = (Inr (), s1)"
    using gates(1) by (metis prod.collapse)
  have fl: "query_filter (demo_gw_env []) (g_py_str G) None ''q'' s1 = (Inr (), s1)"
    using gates(4) filter_Inr by (simp add: filter_passes_def)
  have "gw_effects (snd (demo_served G (demo_query c))) =
      gw_effects (snd (run_graph (demo_gw_env []) G False [] None (demo_query c) s1))"
    using gates fl lim
    by (simp add: demo_served_def serve_query_def query_endpoint_def bind_simps reject_cross_site_query_def forbid_audit_query_def demo_query_def)
       (simp add: hbind_def handler_simps split: prod.split sum.split)
  then show ?thesis using quiet_at [OF quiet_limit lim] by (simp add: run_graph_effects demo_initial)
qed

theorem external_call_end_to_end_witness:
  "filter_passes (demo_gw_env []) ''q'' \<and> usable (provider_client demo_env ''grok'')"
proof -
  obtain spend where "ExternalCall ''grok'' False (''USER QUERY: q'') spend \<in> set (snd (invoke demo_env (demo_state (Some True))))"
    using demo_external by blast
  from external_call_end_to_end [OF _ demo_serves this, of "demo_gw_env []" demo_env False "[]" "demo_request []" "demo_query (Some True)"
      "fst (demo_served demo_env (demo_query (Some True)))"]
  show ?thesis by (simp add: demo_served_def demo_query_def)
qed

definition demo_offline :: graph_env where
  "demo_offline = demo_env\<lparr>g_grok := boot_client (ge_cfg (demo_gw_env [])) ''grok'' demo_client,
     g_claude := boot_client (ge_cfg (demo_gw_env [])) ''claude'' demo_client\<rparr>"

theorem offline_never_external_witness:
  "ExternalCall ''grok'' False [] \<lparr>sp_route_path = [], sp_query_hash = None\<rparr> \<notin> set (snd (invoke demo_offline (demo_state (Some True))))"
proof -
  have "serve_query (demo_gw_env []) (Some (demo_env\<lparr>g_grok := boot_client (ge_cfg (demo_gw_env [])) ''grok'' demo_client,
      g_claude := boot_client (ge_cfg (demo_gw_env [])) ''claude'' demo_client\<rparr>)) False [] (demo_request []) (demo_query (Some True)) demo_gw_state =
    (fst (demo_served demo_offline (demo_query (Some True))), snd (demo_served demo_offline (demo_query (Some True))))"
    by (simp add: demo_served_def demo_offline_def)
  from offline_never_external [OF this demo_serves] show ?thesis by (simp add: demo_gw_env_def section_of_def)
qed

lemma demo_pause: "case fst (demo_served demo_env (demo_query None)) of Inr resp \<Rightarrow> qr_needs_confirm resp | Inl _ \<Rightarrow> False"
  by code_simp

theorem pause_asks_first_witness:
  "\<exists>new. gw_effects (snd (demo_served demo_env (demo_query None))) = gw_effects demo_gw_state @ new \<and> \<not> list_ex is_call new"
proof -
  obtain resp where "fst (demo_served demo_env (demo_query None)) = Inr resp" and confirm: "qr_needs_confirm resp"
    using demo_pause by (auto split: sum.splits)
  then have "serve_query (demo_gw_env []) (Some demo_env) False [] (demo_request []) (demo_query None) demo_gw_state =
      (Inr resp, snd (demo_served demo_env (demo_query None)))" by (simp add: demo_served_def prod_eq_iff)
  from pause_asks_first [OF this confirm] show ?thesis by blast
qed

end
