(* ===== verification/Gateway_Index.thy ===== *)
theory Gateway_Index
  imports Gateway
begin

text \<open>
  Model of the first-run index build of \<open>gate.py\<close>: the route that starts a build, the progress
  handler, the worker thread and the status. The build record is shared by the request handlers and
  the workers under a lock, so each locked section is one step. A worker has two of them: one that
  publishes the outcome (\<open>Building\<close> to \<open>Finishing\<close>) and one, in its \<open>finally\<close> block, that writes the
  finish time. Building the index itself and loading it are an outcome of the first.
\<close>

datatype build_status = Idle | Running | DoneBuild | ErrorBuild
datatype build_phase = Building | Finishing

record index_state =
  ix_state :: build_status
  ix_started_at :: "seconds option"
  ix_finished_at :: "seconds option"
  ix_error :: "str option"
  ix_chunks_done :: int
  ix_chunks_total :: int
  ix_ready :: bool
  ix_workers :: "build_phase list"

definition index_boot :: "bool \<Rightarrow> index_state" where
  "index_boot ready = \<lparr>ix_state = Idle, ix_started_at = None, ix_finished_at = None, ix_error = None,
     ix_chunks_done = 0, ix_chunks_total = 0, ix_ready = ready, ix_workers = []\<rparr>"

record index_status =
  is_state :: build_status
  is_elapsed_sec :: "seconds option"
  is_chunks_done :: int
  is_chunks_total :: int
  is_error :: "str option"
  is_index_ready :: bool

text \<open>\<open>round(x, 1)\<close>\<close>

definition round1 :: "rat \<Rightarrow> rat" where
  "round1 x = (if x < 0 then - of_nat (round_half_even (- x * 10)) / 10 else of_nat (round_half_even (x * 10)) / 10)"

definition index_status_payload :: "seconds \<Rightarrow> index_state \<Rightarrow> index_status" where
  "index_status_payload now ix = \<lparr>is_state = ix_state ix,
     is_elapsed_sec = (case ix_started_at ix of None \<Rightarrow> None | Some t \<Rightarrow> Some (round1 (oget (ix_finished_at ix) now - t))),
     is_chunks_done = ix_chunks_done ix, is_chunks_total = ix_chunks_total ix, is_error = ix_error ix, is_index_ready = ix_ready ix\<rparr>"

section \<open>The steps\<close>

definition build_in_progress :: http_error where
  "build_in_progress = HTTPException 409 (PDict [(''error'', PStr ''An index build is already running''), (''code'', PStr ''INDEX_BUILD_IN_PROGRESS'')])"

definition start_build :: "seconds \<Rightarrow> index_state \<Rightarrow> http_error + index_state" where
  "start_build now ix =
     (if ix_state ix = Running then Inl build_in_progress
      else Inr (ix\<lparr>ix_state := Running, ix_started_at := Some now, ix_finished_at := None, ix_error := None,
                   ix_chunks_done := 0, ix_chunks_total := 0, ix_workers := ix_workers ix @ [Building]\<rparr>))"

text \<open>\<open>_IndexProgressHandler.emit\<close>\<close>

definition record_progress :: "int \<Rightarrow> int \<Rightarrow> index_state \<Rightarrow> index_state" where
  "record_progress n m ix = ix\<lparr>ix_chunks_done := n, ix_chunks_total := m\<rparr>"

text \<open>The outcome of the build and of \<open>_init_retrieval\<close>: an index, none, or an exception with its sanitised text.\<close>

datatype build_outcome = Built | NoIndex | BuildFailed str

definition no_index_message :: str where
  "no_index_message = ''Build finished but no index was produced.''"

definition publish_outcome :: "nat \<Rightarrow> build_outcome \<Rightarrow> index_state \<Rightarrow> index_state" where
  "publish_outcome i out ix = (let ix' = ix\<lparr>ix_workers := (ix_workers ix)[i := Finishing]\<rparr> in
     case out of
       Built \<Rightarrow> ix'\<lparr>ix_state := DoneBuild, ix_ready := True\<rparr>
     | NoIndex \<Rightarrow> ix'\<lparr>ix_state := ErrorBuild, ix_error := Some no_index_message, ix_ready := False\<rparr>
     | BuildFailed e \<Rightarrow> ix'\<lparr>ix_state := ErrorBuild, ix_error := Some e\<rparr>)"

definition stamp_finish :: "nat \<Rightarrow> seconds \<Rightarrow> index_state \<Rightarrow> index_state" where
  "stamp_finish i now ix = ix\<lparr>ix_finished_at := Some now, ix_workers := take i (ix_workers ix) @ drop (Suc i) (ix_workers ix)\<rparr>"

inductive index_step :: "index_state \<Rightarrow> index_state \<Rightarrow> bool" where
  start: "start_build now ix = Inr ix' \<Longrightarrow> index_step ix ix'"
| progress: "i < length (ix_workers ix) \<Longrightarrow> ix_workers ix ! i = Building \<Longrightarrow> index_step ix (record_progress d t ix)"
| publish: "i < length (ix_workers ix) \<Longrightarrow> ix_workers ix ! i = Building \<Longrightarrow> index_step ix (publish_outcome i out ix)"
| stamp: "i < length (ix_workers ix) \<Longrightarrow> ix_workers ix ! i = Finishing \<Longrightarrow> index_step ix (stamp_finish i now ix)"

inductive_cases index_stepE: "index_step ix ix'"

definition index_reachable :: "index_state \<Rightarrow> bool" where
  "index_reachable ix = (\<exists>ready. index_step\<^sup>*\<^sup>* (index_boot ready) ix)"

section \<open>The route\<close>

definition loopback_required :: http_error where
  "loopback_required = HTTPException 403 (PDict [(''error'', PStr ''Index builds must be started from this machine''), (''code'', PStr ''INDEX_BUILD_LOOPBACK_ONLY'')])"

definition cross_site_rejected :: http_error where
  "cross_site_rejected = HTTPException 403 (PDict [(''error'', PStr ''Cross-site request rejected''), (''code'', PStr ''CROSS_SITE_BLOCKED'')])"

definition index_event :: "str \<Rightarrow> (str \<times> str) list \<Rightarrow> event" where
  "index_event name kvs = (''event'', PStr name) # map (\<lambda>(k, v). (k, PStr v)) kvs"

definition index_admit :: "gw_env \<Rightarrow> http_request \<Rightarrow> unit route" where
  "index_admit E rq =
     (let host = oget (rq_client rq) [] in
      hbind (enforce_rate_limit E rq) (\<lambda>_.
      if \<not> is_loopback_host (ge_loopback_ip E) host then
        hbind (audit (index_event ''index_build_rejected'' [(''reason'', ''non_loopback''), (''ip'', host)])) (\<lambda>_. hraise loopback_required)
      else if looks_cross_site (ge_ip_ok E) (ge_allowed_hosts E) rq then
        hbind (audit (index_event ''index_build_rejected'' [(''reason'', ''cross_site''), (''ip'', host)])) (\<lambda>_. hraise cross_site_rejected)
      else hret ()))"

definition index_build :: "gw_env \<Rightarrow> http_request \<Rightarrow> gw_state \<times> index_state \<Rightarrow> (http_error + index_status) \<times> gw_state \<times> index_state" where
  "index_build E rq = (\<lambda>(s, ix).
     case index_admit E rq s of
       (Inl e, s1) \<Rightarrow> (Inl e, s1, ix)
     | (Inr _, s1) \<Rightarrow>
         (case start_build (ge_monotonic E) ix of
            Inl e \<Rightarrow> (Inl e, s1, ix)
          | Inr ix' \<Rightarrow> (Inr (index_status_payload (ge_monotonic E) ix'),
               s1\<lparr>gw_log := gw_log s1 @ [index_event ''index_build_started'' [(''ip'', oget (rq_client rq) [])]]\<rparr>, ix')))"

section \<open>One build at a time\<close>

definition builders :: "index_state \<Rightarrow> nat" where
  "builders ix = count_list (ix_workers ix) Building"

definition index_inv :: "index_state \<Rightarrow> bool" where
  "index_inv ix = (builders ix = (if ix_state ix = Running then 1 else 0))"

lemma count_split: "i < length xs \<Longrightarrow> count_list xs a = count_list (take i xs) a + count_list [xs ! i] a + count_list (drop (Suc i) xs) a"
  using id_take_nth_drop [of i xs] count_list_append by (metis append_Cons append_Nil add.assoc)

lemma count_update: "i < length xs \<Longrightarrow> xs ! i = a \<Longrightarrow> a \<noteq> b \<Longrightarrow> Suc (count_list (xs[i := b]) a) = count_list xs a"
  using count_split [of i xs a] by (simp add: upd_conv_take_nth_drop)

lemma count_remove: "i < length xs \<Longrightarrow> xs ! i \<noteq> a \<Longrightarrow> count_list (take i xs @ drop (Suc i) xs) a = count_list xs a"
  using count_split [of i xs a] by simp

lemma index_inv_step:
  assumes "index_step ix ix'" and "index_inv ix"
  shows "index_inv ix'"
  using assms(1)
proof (cases rule: index_step.cases)
  case (start now)
  then show ?thesis using assms(2) by (auto simp: start_build_def index_inv_def builders_def split: if_splits)
next
  case (publish i out)
  have "Suc (count_list ((ix_workers ix)[i := Finishing]) Building) = builders ix"
    using count_update [of i "ix_workers ix" Building Finishing] publish(2,3) by (simp add: builders_def)
  then have "count_list ((ix_workers ix)[i := Finishing]) Building = 0"
    using assms(2) by (simp add: index_inv_def split: if_splits)
  then show ?thesis using publish by (cases out) (simp_all add: publish_outcome_def index_inv_def builders_def Let_def)
next
  case (stamp i now)
  then show ?thesis using assms(2) count_remove [of i "ix_workers ix" Building] by (simp add: stamp_finish_def index_inv_def builders_def)
qed (use assms(2) in \<open>simp add: record_progress_def index_inv_def builders_def\<close>)

lemma index_inv_reachable: "index_reachable ix \<Longrightarrow> index_inv ix"
proof -
  assume "index_reachable ix"
  then obtain ready where "index_step\<^sup>*\<^sup>* (index_boot ready) ix" by (auto simp: index_reachable_def)
  then show ?thesis
  proof (induction rule: rtranclp_induct)
    case base
    show ?case by (simp add: index_inv_def builders_def index_boot_def)
  qed (rule index_inv_step)
qed

text \<open>
  One index build at a time. In every reachable state at most one worker is building, one is
  building exactly while the status says running, a start is refused exactly then, and the worker
  that is building can always end the build, after which a new one can be started.
\<close>

theorem one_build_at_a_time:
  assumes "index_reachable ix"
  shows "builders ix \<le> 1 \<and> (builders ix = 1 \<longleftrightarrow> ix_state ix = Running) \<and>
    (isl (start_build now ix) \<longleftrightarrow> ix_state ix = Running) \<and>
    (ix_state ix = Running \<longrightarrow> (\<exists>ix'. index_step ix ix' \<and> \<not> isl (start_build now ix') \<and> builders ix' = 0))"
proof -
  have inv: "index_inv ix" by (rule index_inv_reachable [OF assms])
  have "\<exists>ix'. index_step ix ix' \<and> \<not> isl (start_build now ix') \<and> builders ix' = 0" if "ix_state ix = Running"
  proof -
    have "Building \<in> set (ix_workers ix)" using inv that by (auto simp: index_inv_def builders_def count_list_0_iff intro: ccontr)
    then obtain i where i: "i < length (ix_workers ix)" "ix_workers ix ! i = Building" by (auto simp: in_set_conv_nth)
    let ?ix = "publish_outcome i Built ix"
    have st: "index_step ix ?ix" using i by (rule index_step.publish)
    moreover have "ix_state ?ix = DoneBuild" by (simp add: publish_outcome_def Let_def)
    moreover from this have "builders ?ix = 0" using index_inv_step [OF st inv] by (simp add: index_inv_def)
    ultimately show ?thesis by (intro exI [of _ ?ix]) (simp add: start_build_def)
  qed
  then show ?thesis using inv by (auto simp: index_inv_def start_build_def)
qed

definition demo_running :: index_state where
  "demo_running = (index_boot False)\<lparr>ix_state := Running, ix_started_at := Some 1, ix_workers := [Building]\<rparr>"

lemma demo_running_reachable: "index_reachable demo_running"
proof -
  have "start_build 1 (index_boot False) = Inr demo_running" by (simp add: start_build_def index_boot_def demo_running_def)
  then show ?thesis unfolding index_reachable_def by (blast intro: index_step.start)
qed

theorem one_build_at_a_time_witness: "builders demo_running = 1 \<and> isl (start_build 2 demo_running)"
  using one_build_at_a_time [OF demo_running_reachable, of 2] by (simp add: demo_running_def)

text \<open>
  The finish time is written after the outcome is published, in a section of its own. A build
  started in between is stamped as finished by the worker of the previous one: the status is
  running while a finish time is set, so the elapsed time it reports stands still.
\<close>

lemma stale_finish_stamp: "\<exists>ix. index_reachable ix \<and> ix_state ix = Running \<and> ix_finished_at ix = Some 4 \<and> ix_started_at ix = Some 3"
proof -
  let ?a = "publish_outcome 0 Built demo_running"
  let ?b = "?a\<lparr>ix_state := Running, ix_started_at := Some 3, ix_finished_at := None, ix_error := None, ix_chunks_done := 0, ix_chunks_total := 0,
     ix_workers := [Finishing, Building]\<rparr>"
  have "index_step demo_running ?a" by (rule index_step.publish) (simp_all add: demo_running_def)
  moreover have "start_build 3 ?a = Inr ?b" by (simp add: start_build_def publish_outcome_def demo_running_def)
  then have "index_step ?a ?b" by (rule index_step.start)
  moreover have "index_step ?b (stamp_finish 0 4 ?b)" by (rule index_step.stamp) simp_all
  ultimately have "index_step\<^sup>*\<^sup>* demo_running (stamp_finish 0 4 ?b)"
    by (rule converse_rtranclp_into_rtranclp [OF _ converse_rtranclp_into_rtranclp [OF _ r_into_rtranclp]])
  then have "index_reachable (stamp_finish 0 4 ?b)"
    using demo_running_reachable unfolding index_reachable_def by (meson rtranclp_trans)
  then show ?thesis by (intro exI [of _ "stamp_finish 0 4 ?b"]) (simp add: stamp_finish_def)
qed

end
