(* ===== verification/Posix.thy ===== *)
theory Posix
  imports Py_Path
begin

text \<open>
  The part of a POSIX file system that the filesystem connector calls through Python's \<open>os\<close>
  module. A store maps inode numbers to nodes; a directory has its parent and its entries, so a
  file may have several names (hard links), and a symbolic link is a node of its own with an
  arbitrary target. Path resolution follows \<open>path_resolution(7)\<close>: \<open>..\<close> goes to the parent, a symbolic
  link in the middle of a path is always followed, the last component unless \<open>O_NOFOLLOW\<close> is given,
  and more than 40 links are \<open>ELOOP\<close>.

  The calls are functions of the store; which of them fail for other reasons (permissions, a full
  or failing disk) and what other processes do between two calls is decided where they are used.
\<close>

section \<open>The store\<close>

type_synonym ino = nat

datatype node = Dir ino "(str \<times> ino) list" | Reg str | Link str | Special

datatype errno =
    ENOENT | ENOTDIR | EISDIR | ELOOP | EEXIST | ENOTEMPTY | EINVAL
  | EACCES | EPERM | EIO | ENOSPC | ENAMETOOLONG | EMFILE

record store =
  st_nodes :: "ino \<rightharpoonup> node"
  st_mtime :: "ino \<Rightarrow> int"
  st_dir_size :: "ino \<Rightarrow> nat"
  st_dataless :: "ino \<Rightarrow> bool"
  st_next :: ino
  st_now :: int

text \<open>The inode of the directory \<open>/\<close>.\<close>

definition SLASH :: ino where "SLASH = 0"

definition MAX_LINKS :: nat where "MAX_LINKS = 40"

definition entry :: "store \<Rightarrow> ino \<Rightarrow> str \<Rightarrow> ino option" where
  "entry st d name = (case st_nodes st d of Some (Dir _ es) \<Rightarrow> map_of es name | _ \<Rightarrow> None)"

section \<open>Path resolution\<close>

text \<open>
  The position is an inode together with the names that lead to it from \<open>/\<close>; the names are only
  meaningful for a walk that starts at \<open>/\<close>.
\<close>

function walk :: "store \<Rightarrow> nat \<Rightarrow> bool \<Rightarrow> ino \<times> str list \<Rightarrow> str list \<Rightarrow> errno + ino \<times> str list" where
  "walk st links follow pos [] = Inr pos"
| "walk st links follow (d, names) (c # cs) = (case st_nodes st d of
     Some (Dir parent es) \<Rightarrow>
       (if c = [] \<or> c = ''.'' then walk st links follow (d, names) cs
        else if c = ''..'' then walk st links follow (parent, butlast names) cs
        else (case map_of es c of
          None \<Rightarrow> Inl ENOENT
        | Some i \<Rightarrow> (case st_nodes st i of
            Some (Link target) \<Rightarrow>
              (if cs = [] \<and> \<not> follow then Inr (i, names @ [c])
               else (case links of
                   0 \<Rightarrow> Inl ELOOP
                 | Suc left \<Rightarrow> walk st left follow (if py_isabs target then (SLASH, []) else (d, names))
                     (py_split (CHR ''/'') target @ cs)))
          | _ \<Rightarrow> walk st links follow (i, names @ [c]) cs)))
   | Some _ \<Rightarrow> Inl ENOTDIR
   | None \<Rightarrow> Inl ENOENT)"
  by pat_completeness auto
termination
  by (relation "inv_image (less_than <*lex*> less_than) (\<lambda>(_, links, _, _, cs). (links, length cs))") auto

definition resolve :: "store \<Rightarrow> bool \<Rightarrow> ino \<times> str list \<Rightarrow> str \<Rightarrow> errno + ino \<times> str list" where
  "resolve st follow start path =
     (if path = [] then Inl ENOENT
      else walk st MAX_LINKS follow (if py_isabs path then (SLASH, []) else start) (py_split (CHR ''/'') path))"

text \<open>The directory and the name that a call creates, removes or renames.\<close>

definition parent_of :: "store \<Rightarrow> ino \<Rightarrow> str \<Rightarrow> errno + ino \<times> str" where
  "parent_of st d path =
     (let comps = filter (\<lambda>c. c \<noteq> []) (py_split (CHR ''/'') path) in
      if comps = [] then Inl ENOENT
      else if last comps = ''.'' \<or> last comps = ''..'' then Inl EINVAL
      else (case walk st MAX_LINKS True (if py_isabs path then (SLASH, []) else (d, [])) (butlast comps) of
          Inl e \<Rightarrow> Inl e
        | Inr (p, _) \<Rightarrow> (case st_nodes st p of
            Some (Dir _ _) \<Rightarrow> Inr (p, last comps)
          | Some _ \<Rightarrow> Inl ENOTDIR
          | None \<Rightarrow> Inl ENOENT)))"

section \<open>Attributes\<close>

datatype kind = KDir | KFile | KSymlink | KOther

record stat_result =
  s_kind :: kind
  s_size :: nat
  s_mtime :: int
  s_dataless :: bool
  s_ino :: ino

definition fstat :: "store \<Rightarrow> ino \<Rightarrow> errno + stat_result" where
  "fstat st i = (case st_nodes st i of
     None \<Rightarrow> Inl ENOENT
   | Some n \<Rightarrow> Inr \<lparr>
       s_kind = (case n of Dir _ _ \<Rightarrow> KDir | Reg _ \<Rightarrow> KFile | Link _ \<Rightarrow> KSymlink | Special \<Rightarrow> KOther),
       s_size = (case n of Dir _ _ \<Rightarrow> st_dir_size st i | Reg b \<Rightarrow> length b | Link t \<Rightarrow> length t | Special \<Rightarrow> 0),
       s_mtime = st_mtime st i, s_dataless = st_dataless st i, s_ino = i\<rparr>)"

definition fstatat :: "store \<Rightarrow> bool \<Rightarrow> ino \<times> str list \<Rightarrow> str \<Rightarrow> errno + stat_result" where
  "fstatat st follow start path = (case resolve st follow start path of Inl e \<Rightarrow> Inl e | Inr (i, _) \<Rightarrow> fstat st i)"

definition listdir :: "store \<Rightarrow> ino \<Rightarrow> errno + str list" where
  "listdir st d = (case st_nodes st d of Some (Dir _ es) \<Rightarrow> Inr (map fst es) | _ \<Rightarrow> Inl ENOTDIR)"

section \<open>Changes\<close>

definition set_node :: "ino \<Rightarrow> node \<Rightarrow> store \<Rightarrow> store" where
  "set_node i n st = st\<lparr>st_nodes := (st_nodes st)(i \<mapsto> n), st_mtime := (st_mtime st)(i := st_now st)\<rparr>"

definition set_entry :: "ino \<Rightarrow> str \<Rightarrow> ino \<Rightarrow> store \<Rightarrow> store" where
  "set_entry d name i st = (case st_nodes st d of
     Some (Dir p es) \<Rightarrow> set_node d (Dir p (AList.update name i es)) st | _ \<Rightarrow> st)"

definition del_entry :: "ino \<Rightarrow> str \<Rightarrow> store \<Rightarrow> store" where
  "del_entry d name st = (case st_nodes st d of
     Some (Dir p es) \<Rightarrow> set_node d (Dir p (filter (\<lambda>e. fst e \<noteq> name) es)) st | _ \<Rightarrow> st)"

text \<open>A new node under a name.\<close>

definition create :: "ino \<Rightarrow> str \<Rightarrow> node \<Rightarrow> store \<Rightarrow> store" where
  "create d name n st =
     (let i = st_next st in set_entry d name i (set_node i n (st\<lparr>st_next := Suc i\<rparr>)))"

record oflags =
  o_write :: bool
  o_creat :: bool
  o_excl :: bool
  o_nofollow :: bool
  o_directory :: bool

definition open_existing :: "store \<Rightarrow> oflags \<Rightarrow> ino \<times> str list \<Rightarrow> str \<Rightarrow> errno + ino" where
  "open_existing st fl start path = (case resolve st (\<not> o_nofollow fl) start path of
     Inl e \<Rightarrow> Inl e
   | Inr (i, _) \<Rightarrow> (case st_nodes st i of
       None \<Rightarrow> Inl ENOENT
     | Some (Link _) \<Rightarrow> Inl (if o_directory fl then ENOTDIR else ELOOP)
     | Some (Dir _ _) \<Rightarrow> if o_write fl then Inl EISDIR else Inr i
     | Some _ \<Rightarrow> if o_directory fl then Inl ENOTDIR else Inr i))"

text \<open>
  \<open>openat(2)\<close>. The result is the inode the descriptor refers to. The code creates files only
  with \<open>O_NOFOLLOW\<close>; creation through a dangling link is left out.
\<close>

definition openat :: "store \<Rightarrow> oflags \<Rightarrow> ino \<times> str list \<Rightarrow> str \<Rightarrow> errno + ino \<times> store" where
  "openat st fl start path =
     (if o_creat fl then (case parent_of st (fst start) path of
        Inl e \<Rightarrow> Inl e
      | Inr (d, name) \<Rightarrow> (case entry st d name of
          None \<Rightarrow> Inr (st_next st, create d name (Reg []) st)
        | Some _ \<Rightarrow> if o_excl fl then Inl EEXIST else map_sum id (\<lambda>i. (i, st)) (open_existing st fl start path)))
      else map_sum id (\<lambda>i. (i, st)) (open_existing st fl start path))"

definition write_node :: "ino \<Rightarrow> str \<Rightarrow> store \<Rightarrow> store" where
  "write_node i data st = (case st_nodes st i of Some (Reg b) \<Rightarrow> set_node i (Reg (b @ data)) st | _ \<Rightarrow> st)"

definition mkdirat :: "store \<Rightarrow> ino \<Rightarrow> str \<Rightarrow> errno + store" where
  "mkdirat st d path = (case parent_of st d path of
     Inl e \<Rightarrow> Inl e
   | Inr (p, name) \<Rightarrow> (case entry st p name of
       Some _ \<Rightarrow> Inl EEXIST | None \<Rightarrow> Inr (create p name (Dir p []) st)))"

definition unlinkat :: "store \<Rightarrow> ino \<Rightarrow> str \<Rightarrow> errno + store" where
  "unlinkat st d path = (case parent_of st d path of
     Inl e \<Rightarrow> Inl e
   | Inr (p, name) \<Rightarrow> (case entry st p name of
       None \<Rightarrow> Inl ENOENT
     | Some i \<Rightarrow> (case st_nodes st i of Some (Dir _ _) \<Rightarrow> Inl EISDIR | _ \<Rightarrow> Inr (del_entry p name st))))"

definition rmdirat :: "store \<Rightarrow> ino \<Rightarrow> str \<Rightarrow> errno + store" where
  "rmdirat st d path = (case parent_of st d path of
     Inl e \<Rightarrow> Inl e
   | Inr (p, name) \<Rightarrow> (case entry st p name of
       None \<Rightarrow> Inl ENOENT
     | Some i \<Rightarrow> (case st_nodes st i of
         Some (Dir _ es) \<Rightarrow> if es = [] then Inr (del_entry p name st) else Inl ENOTEMPTY
       | _ \<Rightarrow> Inl ENOTDIR)))"

text \<open>Is \<open>a\<close> the directory \<open>d\<close> or above it? A path upwards visits every directory at most once.\<close>

fun above :: "store \<Rightarrow> nat \<Rightarrow> ino \<Rightarrow> ino \<Rightarrow> bool" where
  "above st 0 a d = (a = d)"
| "above st (Suc n) a d = (a = d \<or> (case st_nodes st d of Some (Dir p _) \<Rightarrow> p \<noteq> d \<and> above st n a p | _ \<Rightarrow> False))"

definition is_dir :: "store \<Rightarrow> ino \<Rightarrow> bool" where
  "is_dir st i = (case st_nodes st i of Some (Dir _ _) \<Rightarrow> True | _ \<Rightarrow> False)"

definition set_parent :: "ino \<Rightarrow> ino \<Rightarrow> store \<Rightarrow> store" where
  "set_parent i d st = (case st_nodes st i of
     Some (Dir _ es) \<Rightarrow> st\<lparr>st_nodes := (st_nodes st)(i \<mapsto> Dir d es)\<rparr> | _ \<Rightarrow> st)"

text \<open>What \<open>rename(2)\<close> refuses about the two names.\<close>

definition rename_error :: "store \<Rightarrow> ino \<Rightarrow> ino option \<Rightarrow> ino \<Rightarrow> errno option" where
  "rename_error st i j d =
     (if is_dir st i \<and> above st (st_next st) i d then Some EINVAL
      else (case j of None \<Rightarrow> None
        | Some j \<Rightarrow> if is_dir st i \<and> \<not> is_dir st j then Some ENOTDIR
            else if \<not> is_dir st i \<and> is_dir st j then Some EISDIR
            else if is_dir st i \<and> listdir st j \<noteq> Inr [] then Some ENOTEMPTY
            else None))"

definition renameat :: "store \<Rightarrow> ino \<Rightarrow> str \<Rightarrow> ino \<Rightarrow> str \<Rightarrow> errno + store" where
  "renameat st d1 path1 d2 path2 = (case (parent_of st d1 path1, parent_of st d2 path2) of
     (Inl e, _) \<Rightarrow> Inl e
   | (_, Inl e) \<Rightarrow> Inl e
   | (Inr (p1, a), Inr (p2, b)) \<Rightarrow> (case entry st p1 a of
       None \<Rightarrow> Inl ENOENT
     | Some i \<Rightarrow> (if entry st p2 b = Some i then Inr st
         else (case rename_error st i (entry st p2 b) p2 of
             Some e \<Rightarrow> Inl e
           | None \<Rightarrow> Inr (set_parent i p2 (set_entry p2 b i (del_entry p1 a st)))))))"

section \<open>Trees\<close>

text \<open>
  Every entry below a directory, by its relative path, links not followed: what \<open>os.walk\<close> and a
  recursive \<open>os.scandir\<close> visit. A chain of directories has at most as many as there are inodes.
\<close>

fun tree :: "store \<Rightarrow> nat \<Rightarrow> ino \<Rightarrow> (str list \<times> ino) list" where
  "tree st 0 d = []"
| "tree st (Suc n) d = (case st_nodes st d of
     Some (Dir _ es) \<Rightarrow>
       concat (map (\<lambda>(name, i). ([name], i) # map (\<lambda>(p, j). (name # p, j)) (tree st n i)) es)
   | _ \<Rightarrow> [])"

definition below :: "store \<Rightarrow> ino \<Rightarrow> (str list \<times> ino) list" where
  "below st d = tree st (st_next st) d"

section \<open>Names and directories\<close>

text \<open>A name that resolution takes as one directory entry.\<close>

definition plain :: "str \<Rightarrow> bool" where
  "plain c \<longleftrightarrow> c \<noteq> [] \<and> c \<noteq> ''.'' \<and> c \<noteq> ''..'' \<and> CHR ''/'' \<notin> set c"

lemma plain_relative: "plain c \<Longrightarrow> \<not> py_isabs c"
  by (cases c) (auto simp: plain_def py_isabs_def py_startswith_def)

lemma entry_Some_iff: "entry st d name = Some i \<longleftrightarrow> (\<exists>p es. st_nodes st d = Some (Dir p es) \<and> map_of es name = Some i)"
  by (auto simp: entry_def split: option.splits node.splits)

text \<open>Without following links a plain name is looked up in its directory, whatever it names.\<close>

lemma resolve_plain:
  assumes "plain c" and "resolve st False (d, names) c = Inr (i, names')"
  shows "entry st d c = Some i"
  using assms plain_relative [OF assms(1)]
  by (auto simp: resolve_def plain_def py_split_free MAX_LINKS_def entry_Some_iff
      split: option.splits node.splits if_splits)

lemma parent_of_plain:
  assumes "plain c" and "parent_of st d c = Inr (p, name)"
  shows "p = d \<and> name = c"
  using assms plain_relative [OF assms(1)]
  by (auto simp: parent_of_def plain_def py_split_free split: option.splits node.splits if_splits)

section \<open>Protected inodes\<close>

text \<open>
  A set of inodes is apart in a store if no directory outside of it has an entry in it: it can
  be reached from outside only by way of \<open>..\<close> or a symbolic link.
\<close>

definition apart :: "ino set \<Rightarrow> store \<Rightarrow> bool" where
  "apart P st \<longleftrightarrow> (\<forall>i \<in> P. i < st_next st) \<and> (\<forall>d name i. d \<notin> P \<longrightarrow> entry st d name = Some i \<longrightarrow> i \<notin> P)"

definition same_on :: "ino set \<Rightarrow> store \<Rightarrow> store \<Rightarrow> bool" where
  "same_on P st st' \<longleftrightarrow> (\<forall>i \<in> P. st_nodes st' i = st_nodes st i)"

text \<open>A step of the file system that spares a protected set.\<close>

definition spares :: "ino set \<Rightarrow> store \<Rightarrow> store \<Rightarrow> bool" where
  "spares P st st' \<longleftrightarrow> apart P st \<longrightarrow> apart P st' \<and> same_on P st st'"

lemma spares_refl [simp]: "spares P st st"
  by (simp add: spares_def same_on_def)

lemma spares_trans: "spares P s t \<Longrightarrow> spares P t u \<Longrightarrow> spares P s u"
  by (simp add: spares_def same_on_def)

lemma apart_entry: "apart P st \<Longrightarrow> entry st d name = Some i \<Longrightarrow> d \<notin> P \<Longrightarrow> i \<notin> P"
  by (auto simp: apart_def)

lemma set_node_spares:
  assumes "i \<notin> P" and "\<And>p es name j. n = Dir p es \<Longrightarrow> map_of es name = Some j \<Longrightarrow> j \<notin> P"
  shows "spares P st (set_node i n st)"
  using assms unfolding spares_def apart_def same_on_def set_node_def entry_Some_iff
  by (auto split: if_splits)

lemma set_entry_spares:
  assumes "d \<notin> P" and "i \<notin> P"
  shows "spares P st (set_entry d name i st)"
proof (cases "apart P st")
  case True
  show ?thesis
    unfolding set_entry_def
    using assms apart_entry [OF True, of d] set_node_spares [OF assms(1)]
    by (auto simp: entry_Some_iff update_conv split: option.splits node.splits if_splits intro!: set_node_spares)
qed (simp add: spares_def)

lemma map_sum_Inr_cases: "map_sum id f r = Inr y \<longleftrightarrow> (\<exists>x. r = Inr x \<and> y = f x)"
  by (cases r) auto

lemma map_of_drop_name: "map_of (filter (\<lambda>e. fst e \<noteq> name) es) c = (if c = name then None else map_of es c)"
  by (induction es) auto

lemma del_entry_spares:
  assumes "d \<notin> P"
  shows "spares P st (del_entry d name st)"
proof (cases "apart P st")
  case True
  show ?thesis
    unfolding del_entry_def
    using assms apart_entry [OF True, of d]
    by (auto simp: entry_Some_iff map_of_drop_name split: option.splits node.splits if_splits intro!: set_node_spares)
qed (simp add: spares_def)

lemma set_parent_spares: "i \<notin> P \<Longrightarrow> spares P st (set_parent i d st)"
  unfolding spares_def apart_def same_on_def set_parent_def entry_Some_iff
  by (auto split: option.splits node.splits if_splits)

lemma create_spares:
  assumes "d \<notin> P" and "\<And>p es. n = Dir p es \<Longrightarrow> es = []" and "apart P st"
  shows "spares P st (create d name n st)"
proof -
  have fresh: "st_next st \<notin> P" using assms(3) by (auto simp: apart_def)
  have bump: "spares P st (st\<lparr>st_next := Suc (st_next st)\<rparr>)"
    by (auto simp: spares_def apart_def same_on_def entry_def less_Suc_eq)
  show ?thesis
    unfolding create_def Let_def
    by (rule spares_trans [OF bump spares_trans [OF set_node_spares set_entry_spares]])
      (use assms fresh in auto)
qed

lemma write_node_spares: "i \<notin> P \<Longrightarrow> spares P st (write_node i data st)"
  unfolding write_node_def by (auto intro: set_node_spares split: option.splits node.splits)

text \<open>The calls on a plain name below an unprotected directory.\<close>

lemma create_spares': "d \<notin> P \<Longrightarrow> (\<And>p es. n = Dir p es \<Longrightarrow> es = []) \<Longrightarrow> spares P st (create d name n st)"
  using create_spares [of d P n st] by (auto simp: spares_def)

lemma open_existing_plain:
  assumes "plain c" and "o_nofollow fl" and "open_existing st fl (d, names) c = Inr i"
  shows "entry st d c = Some i"
  using assms resolve_plain [OF assms(1)]
  by (auto simp: open_existing_def split: sum.splits prod.splits option.splits node.splits if_splits)

lemma openat_spares:
  assumes "plain c" and "o_nofollow fl" and "d \<notin> P" and "openat st fl (d, names) c = Inr (i, st')"
  shows "spares P st st' \<and> (apart P st \<longrightarrow> i \<notin> P)"
proof -
  have old: "open_existing st fl (d, names) c = Inr j \<Longrightarrow> apart P st \<Longrightarrow> j \<notin> P" for j
    using open_existing_plain [OF assms(1,2)] apart_entry assms(3) by blast
  have "apart P st \<Longrightarrow> st_next st \<notin> P" by (auto simp: apart_def)
  with old assms(3,4) show ?thesis
    by (auto simp: openat_def map_sum_Inr_cases intro!: create_spares' dest!: parent_of_plain [OF assms(1)]
        split: sum.splits prod.splits option.splits if_splits)
qed

lemma mkdirat_spares: "plain c \<Longrightarrow> d \<notin> P \<Longrightarrow> mkdirat st d c = Inr st' \<Longrightarrow> spares P st st'"
  using parent_of_plain [of c st d] create_spares' [of d P "Dir d []"]
  by (auto simp: mkdirat_def split: sum.splits prod.splits option.splits)

lemma unlinkat_spares: "plain c \<Longrightarrow> d \<notin> P \<Longrightarrow> unlinkat st d c = Inr st' \<Longrightarrow> spares P st st'"
  using parent_of_plain [of c st d] del_entry_spares [of d P]
  by (auto simp: unlinkat_def split: sum.splits prod.splits option.splits node.splits)

lemma rmdirat_spares: "plain c \<Longrightarrow> d \<notin> P \<Longrightarrow> rmdirat st d c = Inr st' \<Longrightarrow> spares P st st'"
  using parent_of_plain [of c st d] del_entry_spares [of d P]
  by (auto simp: rmdirat_def split: sum.splits prod.splits option.splits node.splits if_splits)

lemma rename_step_spares:
  assumes "d1 \<notin> P" and "d2 \<notin> P" and "entry st d1 a = Some i"
  shows "spares P st (set_parent i d2 (set_entry d2 b i (del_entry d1 a st)))"
proof (cases "apart P st")
  case True
  then have "i \<notin> P" using assms apart_entry by blast
  then show ?thesis
    using spares_trans [OF del_entry_spares [OF assms(1)] spares_trans [OF set_entry_spares set_parent_spares]] assms(2)
    by blast
qed (simp add: spares_def)

lemma renameat_spares:
  assumes "plain a" "plain b" "d1 \<notin> P" "d2 \<notin> P" "renameat st d1 a d2 b = Inr st'"
  shows "spares P st st'"
  using assms parent_of_plain [OF assms(1), of st d1] parent_of_plain [OF assms(2), of st d2]
    rename_step_spares [OF assms(3,4), of st a _ b]
  by (auto simp: renameat_def split: sum.splits prod.splits option.splits if_splits)

end
