(* ===== verification/Fs_Pathsafe.thy ===== *)
theory Fs_Pathsafe
  imports Posix Effect Ratelimit
begin

text \<open>
  The path-validation core of the filesystem connector on POSIX
  (\<open>agentic/fsconnect/pathsafe.py\<close>) and the process it runs in.

  The state \<open>world\<close> holds the file system and what the outside will do to it: for each coming
  system call the script \<open>w_script\<close> says what other processes did to the store since the last one
  (any function) and whether the call fails, and if so after how many bytes of a write; once it is
  used up nothing more happens. The theorems quantify over the script, so every interleaving with
  other processes and every failure is covered. A file descriptor is the inode it refers to;
  \<open>w_fds\<close> counts the open ones and \<open>w_opened\<close> lists what was opened. \<open>w_log\<close> records the audit events,
  \<open>w_times\<close> the coming readings of the clock (the last one stays), \<open>w_rate\<close> the table of the rate
  limiter, \<open>w_ids\<close> the number of random identifiers drawn.

  Expansion of \<open>~\<close> and environment variables, SHA-256, the JSON codec, the date format and the
  platform are an argument (\<open>fs_env\<close>). Resolving a root is one step. The fields \<open>mode\<close> of a listing
  and the messages of exceptions are not modelled.
\<close>

section \<open>The process\<close>

datatype fs_exc =
    OSErr errno
  | FsPath "errno option"
  | FsMacOS errno
  | FsRuntime str
  | FsRefused str
  | FsError str
  | PyErr str

text \<open>The exceptions that are instances of \<open>FsConnectError\<close>.\<close>

fun is_fs_error :: "fs_exc \<Rightarrow> bool" where
  "is_fs_error (OSErr _) = False"
| "is_fs_error (PyErr _) = False"
| "is_fs_error _ = True"

datatype fs_event =
    EvIntent str str str nat
  | EvApplied str str str nat nat
  | EvWriteRefused str str
  | EvDryrun str str
  | EvRootFallback str str
  | EvSkippedStat str nat "str list"
  | EvRead str str nat

record fs_env =
  fe_darwin :: bool
  fe_pid :: str
  fe_expand :: "str \<Rightarrow> str"
  fe_sha256 :: "str \<Rightarrow> str"
  fe_dumps :: "pyval \<Rightarrow> str"
  fe_loads :: "str \<Rightarrow> pyval option"
  fe_str :: "pyval \<Rightarrow> str"
  fe_iso :: "int \<Rightarrow> str"
  fe_parse_iso :: "str \<Rightarrow> int option"
  fe_stamp :: "int \<Rightarrow> str"
  fe_token :: "nat \<Rightarrow> str"
  fe_decode :: "str \<Rightarrow> str"
  fe_db_faults :: "db_faults \<times> db_faults"

record world =
  w_store :: store
  w_script :: "((store \<Rightarrow> store) \<times> (errno \<times> nat) option) list"
  w_cwd :: "ino \<times> str list"
  w_fds :: int
  w_opened :: "ino list"
  w_log :: "fs_event list"
  w_times :: "seconds list"
  w_rate :: "rate_table option"
  w_ids :: nat

type_synonym 'a io = "(fs_exc, world, 'a) action"

definition audit :: "fs_event \<Rightarrow> unit io" where
  "audit e = hmodify (\<lambda>s. s\<lparr>w_log := w_log s @ [e]\<rparr>)"

definition read_clock :: "seconds io" where
  "read_clock s = (case w_times s of [] \<Rightarrow> (Inr 0, s) | [t] \<Rightarrow> (Inr t, s) | t # u # ts \<Rightarrow> (Inr t, s\<lparr>w_times := u # ts\<rparr>))"

definition draw_id :: "nat io" where
  "draw_id s = (Inr (w_ids s), s\<lparr>w_ids := Suc (w_ids s)\<rparr>)"

text \<open>What happens before a system call: the other processes run, and the call may be due to fail.\<close>

definition interference :: "world \<Rightarrow> (errno \<times> nat) option \<times> world" where
  "interference s = (case w_script s of
     [] \<Rightarrow> (None, s)
   | (g, fault) # rest \<Rightarrow> (fault, s\<lparr>w_store := g (w_store s), w_script := rest\<rparr>))"

definition syscall :: "(store \<Rightarrow> errno + 'a \<times> store) \<Rightarrow> 'a io" where
  "syscall f s = (case interference s of
     (Some (e, _), s') \<Rightarrow> (Inl (OSErr e), s')
   | (None, s') \<Rightarrow> (case f (w_store s') of
       Inl e \<Rightarrow> (Inl (OSErr e), s')
     | Inr (x, st) \<Rightarrow> (Inr x, s'\<lparr>w_store := st\<rparr>)))"

text \<open>A call that only reads, and one that only changes the store.\<close>

definition query_call :: "(store \<Rightarrow> errno + 'a) \<Rightarrow> 'a io" where
  "query_call f = syscall (\<lambda>st. map_sum id (\<lambda>x. (x, st)) (f st))"

definition change_call :: "(store \<Rightarrow> errno + store) \<Rightarrow> unit io" where
  "change_call f = syscall (\<lambda>st. map_sum id (\<lambda>st'. ((), st')) (f st))"

definition os_open :: "oflags \<Rightarrow> ino \<times> str list \<Rightarrow> str \<Rightarrow> ino io" where
  "os_open fl start path =
     hbind (syscall (\<lambda>st. openat st fl start path)) (\<lambda>i.
     hbind (hmodify (\<lambda>s. s\<lparr>w_fds := w_fds s + 1, w_opened := w_opened s @ [i]\<rparr>)) (\<lambda>_.
     hret i))"

definition os_close :: "unit io" where
  "os_close = hmodify (\<lambda>s. s\<lparr>w_fds := w_fds s - 1\<rparr>)"

text \<open>Writing to a descriptor: a failure may come after any prefix of the data.\<close>

definition os_write :: "ino \<Rightarrow> str \<Rightarrow> unit io" where
  "os_write i data s = (case interference s of
     (Some (e, n), s') \<Rightarrow> (Inl (OSErr e), s'\<lparr>w_store := write_node i (take n data) (w_store s')\<rparr>)
   | (None, s') \<Rightarrow> (Inr (), s'\<lparr>w_store := write_node i data (w_store s')\<rparr>))"

definition os_read :: "ino \<Rightarrow> nat \<Rightarrow> str io" where
  "os_read i n = query_call (\<lambda>st. case st_nodes st i of Some (Reg b) \<Rightarrow> Inr (take n b) | _ \<Rightarrow> Inl EISDIR)"

definition os_fsync :: "unit io" where
  "os_fsync = query_call (\<lambda>st. Inr ())"

definition RDONLY :: oflags where
  "RDONLY = \<lparr>o_write = False, o_creat = False, o_excl = False, o_nofollow = False, o_directory = False\<rparr>"

section \<open>Handlers\<close>

text \<open>\<open>_raise_macos_permission\<close>, then the typed error.\<close>

definition raise_macos_permission :: "fs_env \<Rightarrow> errno \<Rightarrow> unit io" where
  "raise_macos_permission env e =
     (if fe_darwin env \<and> e \<in> {EACCES, EPERM} then hraise (FsMacOS e) else hret ())"

definition on_oserror :: "'a io \<Rightarrow> (errno \<Rightarrow> 'a io) \<Rightarrow> 'a io" where
  "on_oserror act h = hcatch act (\<lambda>e. case e of OSErr n \<Rightarrow> h n | _ \<Rightarrow> hraise e)"

definition as_path_error :: "fs_env \<Rightarrow> 'a io \<Rightarrow> 'a io" where
  "as_path_error env act =
     on_oserror act (\<lambda>n. hbind (raise_macos_permission env n) (\<lambda>_. hraise (FsPath (Some n))))"

text \<open>The same without the macOS case, where the source has none.\<close>

definition as_plain_path_error :: "'a io \<Rightarrow> 'a io" where
  "as_plain_path_error act = on_oserror act (\<lambda>n. hraise (FsPath (Some n)))"

definition as_runtime_error :: "'a io \<Rightarrow> 'a io" where
  "as_runtime_error act = on_oserror act (\<lambda>n. hraise (FsRuntime []))"

definition suppress_oserror :: "unit io \<Rightarrow> unit io" where
  "suppress_oserror act = on_oserror act (\<lambda>_. hret ())"

definition suppress_fs_error :: "unit io \<Rightarrow> unit io" where
  "suppress_fs_error act = hcatch act (\<lambda>e. if is_fs_error e then hret () else hraise e)"

section \<open>Targets\<close>

definition is_sep :: "char \<Rightarrow> bool" where
  "is_sep c = (c = CHR ''/'' \<or> c = CHR 0x5C)"

fun check_components :: "str list \<Rightarrow> fs_exc + str list" where
  "check_components [] = Inr []"
| "check_components (raw # rest) =
     (if raw = [] \<or> raw = ''.'' then check_components rest
      else if raw = ''..'' then Inl (FsPath None)
      else if CHR '':'' \<in> set raw then Inl (FsPath None)
      else if raw \<noteq> py_rstrip_chars {CHR '' '', CHR ''.''} raw then Inl (FsPath None)
      else ebind (check_components rest) (\<lambda>comps. Inr (raw # comps)))"

definition BACKSLASHES :: str where "BACKSLASHES = [CHR 0x5C, CHR 0x5C]"

definition split_components :: "str \<Rightarrow> fs_exc + str list" where
  "split_components target =
     (if CHR 0x00 \<in> set target then Inl (FsPath None)
      else if target = [] \<or> target = ''.'' then Inr []
      else if py_startswith target BACKSLASHES \<or> py_startswith target ''//'' then Inl (FsPath None)
      else if py_isabs target then Inl (FsPath None)
      else if py_contains (BACKSLASHES @ ''?'' @ [CHR 0x5C]) target \<or> py_contains (BACKSLASHES @ ''.'' @ [CHR 0x5C]) target
      then Inl (FsPath None)
      else check_components (split_by is_sep target))"

definition norm_contains :: "str \<Rightarrow> str \<Rightarrow> bool" where
  "norm_contains parent child =
     (parent = child \<or>
      py_startswith child (if py_endswith parent ''/'' then parent else parent @ ''/''))"

section \<open>Roots\<close>

record safe_root =
  sr_requested :: str
  sr_path :: str
  sr_normcase :: str
  sr_dir :: ino

definition os_stat :: "str \<Rightarrow> stat_result io" where
  "os_stat path s = query_call (\<lambda>st. fstatat st True (w_cwd s) path) s"

definition is_same_entity :: "str \<Rightarrow> str \<Rightarrow> bool io" where
  "is_same_entity a b =
     on_oserror (hbind (os_stat a) (\<lambda>x. hbind (os_stat b) (\<lambda>y. hret (s_ino x = s_ino y)))) (\<lambda>_. hret False)"

text \<open>The chain \<open>p\<close>, \<open>dirname(p)\<close>, ... up to its fixed point.\<close>

function dirname_chain :: "str \<Rightarrow> str list" where
  "dirname_chain p = p # (if py_dirname p = p then [] else dirname_chain (py_dirname p))"
  by pat_completeness auto
termination
  by (relation "measure length") (auto dest: py_dirname_shorter)

declare dirname_chain.simps [simp del]

fun climb :: "ino \<Rightarrow> str list \<Rightarrow> bool io" where
  "climb outer [] = hret False"
| "climb outer (current # rest) =
     hbind (on_oserror (hbind (os_stat current) (\<lambda>x. hret (Some (s_ino x)))) (\<lambda>_. hret None)) (\<lambda>x.
     if x = None then hret False
     else if x = Some outer then hret True
     else climb outer rest)"

definition is_real_descendant :: "str \<Rightarrow> str \<Rightarrow> bool io" where
  "is_real_descendant inner outer =
     hbind (on_oserror (hbind (os_stat outer) (\<lambda>x. hret (Some (s_ino x)))) (\<lambda>_. hret None)) (\<lambda>x. case x of
       None \<Rightarrow> hret False
     | Some o_ino \<Rightarrow> climb o_ino (dirname_chain inner))"

definition is_macos_volume_path :: "fs_env \<Rightarrow> str \<Rightarrow> bool io" where
  "is_macos_volume_path env resolved =
     (if \<not> fe_darwin env \<or> \<not> py_isabs resolved then hret False else is_real_descendant resolved ''/Volumes'')"

text \<open>\<open>Path.mkdir(parents=True, exist_ok=True)\<close> on the path and its parents, innermost first.\<close>

definition path_chain :: "str \<Rightarrow> str list" where
  "path_chain p = map (\<lambda>k. let s = path_anchor p @ py_join ''/'' (take k (path_parts p)) in if s = [] then ''.'' else s)
     (rev [0..<Suc (length (path_parts p))])"

definition path_is_dir :: "str \<Rightarrow> bool io" where
  "path_is_dir p = on_oserror (hbind (os_stat p) (\<lambda>x. hret (s_kind x = KDir))) (\<lambda>_. hret False)"

definition os_mkdir :: "str \<Rightarrow> unit io" where
  "os_mkdir p s = change_call (\<lambda>st. mkdirat st (fst (w_cwd s)) p) s"

definition mkdir_exist_ok :: "str \<Rightarrow> (errno \<Rightarrow> unit io) \<Rightarrow> unit io" where
  "mkdir_exist_ok p missing = on_oserror (os_mkdir p) (\<lambda>n.
     if n = ENOENT then missing n
     else hbind (path_is_dir p) (\<lambda>b. if b then hret () else hraise (OSErr n)))"

fun mkdir_parents :: "str list \<Rightarrow> unit io" where
  "mkdir_parents [] = hret ()"
| "mkdir_parents (p # ps) = mkdir_exist_ok p (\<lambda>n.
     if ps = [] then hraise (OSErr n)
     else hbind (mkdir_parents ps) (\<lambda>_. mkdir_exist_ok p (\<lambda>n. hraise (OSErr n))))"

definition os_resolve :: "str \<Rightarrow> str io" where
  "os_resolve path s = query_call (\<lambda>st. map_sum id (\<lambda>(_, names). abs_path names) (resolve st True (w_cwd s) path)) s"

definition FALLBACK_ROOT :: str where "FALLBACK_ROOT = ''~/CyClaw-FS''"

definition create_root :: "fs_env \<Rightarrow> bool \<Rightarrow> str \<Rightarrow> str io" where
  "create_root env strict raw =
     (let path = path_str (fe_expand env raw) in
      on_oserror (hbind (mkdir_parents (path_chain path)) (\<lambda>_. hret path)) (\<lambda>n.
        if n \<notin> {EACCES, EPERM} then hraise (OSErr n)
        else hbind (raise_macos_permission env n) (\<lambda>_.
          if strict then hraise (FsPath None)
          else let fallback = path_str (fe_expand env FALLBACK_ROOT) in
            hbind (mkdir_parents (path_chain fallback)) (\<lambda>_.
            hbind (audit (EvRootFallback raw fallback)) (\<lambda>_.
            hret fallback)))))"

definition prepare_root :: "fs_env \<Rightarrow> bool \<Rightarrow> bool \<Rightarrow> bool \<Rightarrow> str \<Rightarrow> str io" where
  "prepare_root env strict volumes fresh raw =
     hbind (if fresh then create_root env strict raw else hret (path_str (fe_expand env raw))) (\<lambda>path.
     hbind (as_path_error env (os_resolve path)) (\<lambda>resolved.
     hbind (is_macos_volume_path env resolved) (\<lambda>on_volume.
     hbind (hensure (\<not> on_volume \<or> volumes) (FsPath None)) (\<lambda>_.
     hbind (as_path_error env (os_stat resolved)) (\<lambda>info.
     hbind (hensure (s_kind info = KDir) (FsPath None)) (\<lambda>_.
     hret resolved))))))"

text \<open>The short-circuit test of a root against those already accepted.\<close>

definition or_else :: "bool io \<Rightarrow> bool io \<Rightarrow> bool io" where
  "or_else a b = hbind a (\<lambda>x. if x then hret True else b)"

definition overlaps :: "str \<Rightarrow> str \<Rightarrow> bool io" where
  "overlaps new other =
     or_else (hret (norm_contains other new)) (or_else (hret (norm_contains new other))
       (or_else (is_real_descendant new other) (is_real_descendant other new)))"

fun check_overlaps :: "str \<Rightarrow> str list \<Rightarrow> unit io" where
  "check_overlaps new [] = hret ()"
| "check_overlaps new (other # seen) =
     hbind (overlaps new other) (\<lambda>b. if b then hraise (FsPath None) else check_overlaps new seen)"

definition open_root :: "fs_env \<Rightarrow> bool \<Rightarrow> bool \<Rightarrow> bool \<Rightarrow> safe_root list \<Rightarrow> str \<Rightarrow> safe_root io" where
  "open_root env strict volumes fresh roots raw =
     hbind (prepare_root env strict volumes fresh raw) (\<lambda>resolved.
     hbind (check_overlaps resolved (map sr_path roots)) (\<lambda>_.
     hbind (as_path_error env (os_open (RDONLY\<lparr>o_directory := True\<rparr>) (SLASH, []) resolved)) (\<lambda>dir.
     hret \<lparr>sr_requested = raw, sr_path = resolved, sr_normcase = resolved, sr_dir = dir\<rparr>)))"

fun close_roots :: "safe_root list \<Rightarrow> unit io" where
  "close_roots [] = hret ()"
| "close_roots (r # rs) = hbind os_close (\<lambda>_. close_roots rs)"

text \<open>\<open>ScopedRoots.__init__\<close>: a root that fails closes those opened before it.\<close>

fun open_roots :: "fs_env \<Rightarrow> bool \<Rightarrow> bool \<Rightarrow> bool \<Rightarrow> safe_root list \<Rightarrow> str list \<Rightarrow> safe_root list io" where
  "open_roots env strict volumes fresh roots [] = hret roots"
| "open_roots env strict volumes fresh roots (raw # rest) =
     hbind (hcatch (open_root env strict volumes fresh roots raw) (\<lambda>e. hbind (close_roots roots) (\<lambda>_. hraise e))) (\<lambda>sr.
     open_roots env strict volumes fresh (roots @ [sr]) rest)"

fun find_root :: "str \<Rightarrow> str \<Rightarrow> safe_root list \<Rightarrow> safe_root io" where
  "find_root root_arg expanded [] = hraise (FsPath None)"
| "find_root root_arg expanded (r # rs) =
     hbind (or_else (hret (sr_requested r = root_arg \<or> sr_normcase r = expanded)) (is_same_entity expanded (sr_path r))) (\<lambda>b.
     if b then hret r else find_root root_arg expanded rs)"

definition pick_root :: "fs_env \<Rightarrow> safe_root list \<Rightarrow> str option \<Rightarrow> safe_root io" where
  "pick_root env roots root_arg = (case roots of
     [] \<Rightarrow> hraise (FsPath None)
   | r # rs \<Rightarrow> (case root_arg of
       None \<Rightarrow> if rs = [] then hret r else hraise (FsPath None)
     | Some a \<Rightarrow> find_root a (path_str (fe_expand env a)) roots))"

section \<open>Descending\<close>

text \<open>
  \<open>_descend_posix\<close>: every directory on the way is opened relative to the one above it, without
  following links; all of them are closed when the body is done.
\<close>

fun descend :: "fs_env \<Rightarrow> ino \<Rightarrow> str list \<Rightarrow> (ino \<Rightarrow> str \<Rightarrow> 'a io) \<Rightarrow> 'a io" where
  "descend env d [] body = hraise (FsPath None)"
| "descend env d [leaf] body = body d leaf"
| "descend env d (dir # c # cs) body =
     hbind (as_path_error env (os_open (RDONLY\<lparr>o_nofollow := True, o_directory := True\<rparr>) (d, []) dir)) (\<lambda>nfd.
     hfinally (descend env nfd (c # cs) body) os_close)"

section \<open>Reading\<close>

definition is_macos_artifact_name :: "fs_env \<Rightarrow> str \<Rightarrow> bool" where
  "is_macos_artifact_name env name =
     (fe_darwin env \<and> (name \<in> {''.DS_Store'', ''.localized''} \<or> py_startswith name ''._''))"

definition is_macos_dataless :: "fs_env \<Rightarrow> stat_result \<Rightarrow> bool" where
  "is_macos_dataless env info = (fe_darwin env \<and> s_dataless info)"

definition stat_at :: "ino \<Rightarrow> str \<Rightarrow> stat_result io" where
  "stat_at d leaf = query_call (\<lambda>st. fstatat st False (d, []) leaf)"

definition stat_fd :: "ino \<Rightarrow> stat_result io" where
  "stat_fd i = query_call (\<lambda>st. fstat st i)"

definition read_fd :: "fs_env \<Rightarrow> ino \<Rightarrow> nat \<Rightarrow> bool \<Rightarrow> str io" where
  "read_fd env i max_bytes skip =
     hfinally
       (hbind (as_path_error env (stat_fd i)) (\<lambda>info.
        hbind (hensure (s_kind info = KFile) (FsPath None)) (\<lambda>_.
        hbind (hensure (\<not> (skip \<and> is_macos_dataless env info)) (FsPath None)) (\<lambda>_.
        hbind (hensure (s_size info \<le> max_bytes) (FsRuntime ''max_file_bytes'')) (\<lambda>_.
        hbind (on_oserror (os_read i (max_bytes + 1)) (\<lambda>n.
          hbind (raise_macos_permission env n) (\<lambda>_. hraise (FsRuntime [])))) (\<lambda>data.
        hbind (hensure (length data \<le> max_bytes) (FsRuntime ''max_file_bytes'')) (\<lambda>_.
        hret data)))))))
       os_close"

definition read_bytes :: "fs_env \<Rightarrow> safe_root list \<Rightarrow> str \<Rightarrow> str option \<Rightarrow> nat \<Rightarrow> bool \<Rightarrow> str io" where
  "read_bytes env roots target rt max_bytes skip =
     hbind (hlift (split_components target)) (\<lambda>comps.
     hbind (pick_root env roots rt) (\<lambda>sr.
     hbind (hensure (\<not> (skip \<and> comps \<noteq> [] \<and> is_macos_artifact_name env (last comps))) (FsPath None)) (\<lambda>_.
     descend env (sr_dir sr) comps (\<lambda>pfd leaf.
       hbind (if skip then hbind (as_path_error env (stat_at pfd leaf)) (\<lambda>pre.
           hensure (\<not> is_macos_dataless env pre) (FsPath None)) else hret ()) (\<lambda>_.
       hbind (as_path_error env (os_open (RDONLY\<lparr>o_nofollow := True\<rparr>) (pfd, []) leaf)) (\<lambda>fd.
       read_fd env fd max_bytes skip))))))"

record stat_info =
  si_name :: str
  si_type :: kind
  si_size :: nat
  si_mtime :: int

definition stat_to_dict :: "str \<Rightarrow> stat_result \<Rightarrow> stat_info" where
  "stat_to_dict name info = \<lparr>si_name = name, si_type = s_kind info, si_size = s_size info, si_mtime = s_mtime info\<rparr>"

definition stat_op :: "fs_env \<Rightarrow> safe_root list \<Rightarrow> str \<Rightarrow> str option \<Rightarrow> stat_info io" where
  "stat_op env roots target rt =
     hbind (hlift (split_components target)) (\<lambda>comps.
     hbind (pick_root env roots rt) (\<lambda>sr.
     if comps = [] then hbind (as_path_error env (stat_fd (sr_dir sr))) (\<lambda>info. hret (stat_to_dict ''.'' info))
     else descend env (sr_dir sr) comps (\<lambda>pfd leaf.
       hbind (as_path_error env (stat_at pfd leaf)) (\<lambda>info. hret (stat_to_dict leaf info)))))"

text \<open>The entries of a directory: those whose attributes cannot be read are counted and reported.\<close>

fun collect_entries :: "fs_env \<Rightarrow> ino \<Rightarrow> bool \<Rightarrow> str list \<Rightarrow> stat_info list \<Rightarrow> str list \<Rightarrow> (stat_info list \<times> str list) io" where
  "collect_entries env d skip [] acc skipped = hret (acc, skipped)"
| "collect_entries env d skip (name # names) acc skipped =
     (if skip \<and> is_macos_artifact_name env name then collect_entries env d skip names acc skipped
      else hbind (on_oserror (hbind (stat_at d name) (\<lambda>info. hret (Some info)))
          (\<lambda>n. hbind (raise_macos_permission env n) (\<lambda>_. hret None))) (\<lambda>r. case r of
        None \<Rightarrow> collect_entries env d skip names acc (skipped @ [name])
      | Some info \<Rightarrow>
          if skip \<and> is_macos_dataless env info then collect_entries env d skip names acc skipped
          else collect_entries env d skip names (acc @ [stat_to_dict name info]) skipped))"

definition SKIP_LOG_SAMPLE :: nat where "SKIP_LOG_SAMPLE = 5"

definition report_skipped_entries :: "str \<Rightarrow> str list \<Rightarrow> unit io" where
  "report_skipped_entries loc skipped =
     (if skipped = [] then hret ()
      else audit (EvSkippedStat loc (length skipped) (take SKIP_LOG_SAMPLE skipped)))"

definition listdir_fd :: "fs_env \<Rightarrow> ino \<Rightarrow> bool \<Rightarrow> stat_info list io" where
  "listdir_fd env d skip =
     hbind (as_path_error env (query_call (\<lambda>st. listdir st d))) (\<lambda>names.
     hbind (collect_entries env d skip (sorted_by id names) [] []) (\<lambda>(entries, skipped).
     hbind (report_skipped_entries (if skip then ''the macOS entry filter'' else ''list_dir'') skipped) (\<lambda>_.
     hret entries)))"

definition list_dir :: "fs_env \<Rightarrow> safe_root list \<Rightarrow> str \<Rightarrow> str option \<Rightarrow> bool \<Rightarrow> stat_info list io" where
  "list_dir env roots target rt skip =
     hbind (hlift (split_components target)) (\<lambda>comps.
     hbind (pick_root env roots rt) (\<lambda>sr.
     if comps = [] then listdir_fd env (sr_dir sr) skip
     else descend env (sr_dir sr) comps (\<lambda>pfd leaf.
       hbind (as_path_error env (os_open (RDONLY\<lparr>o_nofollow := True, o_directory := True\<rparr>) (pfd, []) leaf)) (\<lambda>lfd.
       hfinally (listdir_fd env lfd skip) os_close))))"

section \<open>Writing\<close>

definition guard_clobber_posix :: "ino \<Rightarrow> str \<Rightarrow> bool \<Rightarrow> unit io" where
  "guard_clobber_posix pfd leaf overwrite =
     (if overwrite then hret ()
      else hbind (on_oserror (hbind (stat_at pfd leaf) (\<lambda>_. hret True))
          (\<lambda>n. if n = ENOENT then hret False else hraise (OSErr n))) (\<lambda>exists.
        hensure (\<not> exists) (FsRuntime ''clobber'')))"

definition fsync_dir :: "unit io" where
  "fsync_dir = suppress_oserror os_fsync"

definition TMP_SUFFIX :: str where "TMP_SUFFIX = ''.cyclaw-tmp''"

definition tmp_name :: "fs_env \<Rightarrow> str \<Rightarrow> str" where
  "tmp_name env leaf = ''.'' @ leaf @ ''.'' @ fe_pid env @ TMP_SUFFIX"

definition atomic_write_posix :: "fs_env \<Rightarrow> ino \<Rightarrow> str \<Rightarrow> str \<Rightarrow> unit io" where
  "atomic_write_posix env pfd leaf data =
     (let tmp = tmp_name env leaf in
      hbind (as_runtime_error (os_open (RDONLY\<lparr>o_write := True, o_creat := True, o_excl := True, o_nofollow := True\<rparr>) (pfd, []) tmp)) (\<lambda>fd.
      hcatch
        (hbind (hfinally (hbind (os_write fd data) (\<lambda>_. os_fsync)) os_close) (\<lambda>_.
         hbind (change_call (\<lambda>st. renameat st pfd tmp pfd leaf)) (\<lambda>_.
         fsync_dir)))
        (\<lambda>e. hbind (suppress_oserror (change_call (\<lambda>st. unlinkat st pfd tmp))) (\<lambda>_.
           case e of OSErr _ \<Rightarrow> hraise (FsRuntime []) | _ \<Rightarrow> hraise e))))"

definition display :: "safe_root \<Rightarrow> str list \<Rightarrow> str" where
  "display sr comps = (if comps = [] then sr_path sr else joinpath (sr_path sr) comps)"

definition write_bytes :: "fs_env \<Rightarrow> safe_root list \<Rightarrow> str \<Rightarrow> str \<Rightarrow> str option \<Rightarrow> bool \<Rightarrow> str io" where
  "write_bytes env roots target data rt overwrite =
     hbind (hlift (split_components target)) (\<lambda>comps.
     hbind (hensure (comps \<noteq> []) (FsPath None)) (\<lambda>_.
     hbind (pick_root env roots rt) (\<lambda>sr.
     hbind (descend env (sr_dir sr) comps (\<lambda>pfd leaf.
       hbind (guard_clobber_posix pfd leaf overwrite) (\<lambda>_.
       atomic_write_posix env pfd leaf data))) (\<lambda>_.
     hret (display sr comps)))))"

definition append_bytes :: "fs_env \<Rightarrow> safe_root list \<Rightarrow> str \<Rightarrow> str \<Rightarrow> str option \<Rightarrow> str io" where
  "append_bytes env roots target data rt =
     hbind (hlift (split_components target)) (\<lambda>comps.
     hbind (hensure (comps \<noteq> []) (FsPath None)) (\<lambda>_.
     hbind (pick_root env roots rt) (\<lambda>sr.
     hbind (descend env (sr_dir sr) comps (\<lambda>pfd leaf.
       hbind (as_plain_path_error (os_open (RDONLY\<lparr>o_write := True, o_creat := True, o_nofollow := True\<rparr>) (pfd, []) leaf)) (\<lambda>fd.
       hfinally (os_write fd data) os_close))) (\<lambda>_.
     hret (display sr comps)))))"

definition mkdir :: "fs_env \<Rightarrow> safe_root list \<Rightarrow> str \<Rightarrow> str option \<Rightarrow> str io" where
  "mkdir env roots target rt =
     hbind (hlift (split_components target)) (\<lambda>comps.
     hbind (hensure (comps \<noteq> []) (FsPath None)) (\<lambda>_.
     hbind (pick_root env roots rt) (\<lambda>sr.
     hbind (descend env (sr_dir sr) comps (\<lambda>pfd leaf.
       on_oserror (change_call (\<lambda>st. mkdirat st pfd leaf)) (\<lambda>n.
         hraise (if n = EEXIST then FsRuntime ''exists'' else FsPath (Some n))))) (\<lambda>_.
     hret (display sr comps)))))"

definition move :: "fs_env \<Rightarrow> safe_root list \<Rightarrow> str \<Rightarrow> str \<Rightarrow> str option \<Rightarrow> bool \<Rightarrow> (str \<times> str) io" where
  "move env roots src dst rt overwrite =
     hbind (hlift (split_components src)) (\<lambda>scomps.
     hbind (hlift (split_components dst)) (\<lambda>dcomps.
     hbind (hensure (scomps \<noteq> [] \<and> dcomps \<noteq> []) (FsPath None)) (\<lambda>_.
     hbind (pick_root env roots rt) (\<lambda>sr.
     hbind (descend env (sr_dir sr) scomps (\<lambda>spfd sleaf.
       descend env (sr_dir sr) dcomps (\<lambda>dpfd dleaf.
         hbind (guard_clobber_posix dpfd dleaf overwrite) (\<lambda>_.
         hbind (as_runtime_error (change_call (\<lambda>st. renameat st spfd sleaf dpfd dleaf))) (\<lambda>_.
         fsync_dir))))) (\<lambda>_.
     hret (display sr scomps, display sr dcomps))))))"

text \<open>
  If the leaf that \<open>os.stat\<close> saw as a regular file is a directory when it is opened, \<open>os.fdopen\<close> raises before the \<open>with\<close> block is
  entered, and nothing closes the descriptor.
\<close>

definition sha_leaf_posix :: "fs_env \<Rightarrow> ino \<Rightarrow> str \<Rightarrow> stat_result \<Rightarrow> nat option \<Rightarrow> str option io" where
  "sha_leaf_posix env pfd leaf info sha_max_bytes =
     (if s_kind info \<noteq> KFile then hret None
      else if (case sha_max_bytes of None \<Rightarrow> False | Some m \<Rightarrow> m < s_size info) then hret None
      else hbind (on_oserror (hbind (os_open (RDONLY\<lparr>o_nofollow := True\<rparr>) (pfd, []) leaf) (\<lambda>fd. hret (Some fd))) (\<lambda>_. hret None)) (\<lambda>r.
        case r of None \<Rightarrow> hret None
        | Some fd \<Rightarrow> hbind (hget (\<lambda>s. is_dir (w_store s) fd)) (\<lambda>d.
            if d then hraise (OSErr EISDIR)
            else hfinally
              (hbind (query_call (\<lambda>st. case st_nodes st fd of Some (Reg b) \<Rightarrow> Inr b | _ \<Rightarrow> Inl EISDIR)) (\<lambda>data.
               hret (Some (fe_sha256 env data)))) os_close)))"

definition unlink :: "fs_env \<Rightarrow> safe_root list \<Rightarrow> str \<Rightarrow> str option \<Rightarrow> nat option \<Rightarrow> (str \<times> nat \<times> str option) io" where
  "unlink env roots target rt sha_max_bytes =
     hbind (hlift (split_components target)) (\<lambda>comps.
     hbind (hensure (comps \<noteq> []) (FsPath None)) (\<lambda>_.
     hbind (pick_root env roots rt) (\<lambda>sr.
     hbind (descend env (sr_dir sr) comps (\<lambda>pfd leaf.
       hbind (as_plain_path_error (stat_at pfd leaf)) (\<lambda>info.
       hbind (hensure (s_kind info \<noteq> KDir) (FsPath None)) (\<lambda>_.
       hbind (sha_leaf_posix env pfd leaf info sha_max_bytes) (\<lambda>sha.
       hbind (as_plain_path_error (change_call (\<lambda>st. unlinkat st pfd leaf))) (\<lambda>_.
       hbind fsync_dir (\<lambda>_.
       hret (s_size info, sha)))))))) (\<lambda>(size, sha).
     hret (display sr comps, size, sha)))))"

definition rmdir :: "fs_env \<Rightarrow> safe_root list \<Rightarrow> str \<Rightarrow> str option \<Rightarrow> str io" where
  "rmdir env roots target rt =
     hbind (hlift (split_components target)) (\<lambda>comps.
     hbind (hensure (comps \<noteq> []) (FsPath None)) (\<lambda>_.
     hbind (pick_root env roots rt) (\<lambda>sr.
     hbind (descend env (sr_dir sr) comps (\<lambda>pfd leaf.
       hbind (as_plain_path_error (stat_at pfd leaf)) (\<lambda>info.
       hbind (hensure (s_kind info = KDir) (FsPath None)) (\<lambda>_.
       hbind (on_oserror (change_call (\<lambda>st. rmdirat st pfd leaf)) (\<lambda>n.
         hraise (if n = ENOTEMPTY then FsRuntime ''non_empty'' else FsPath (Some n)))) (\<lambda>_.
       fsync_dir))))) (\<lambda>_.
     hret (display sr comps)))))"

end
