(* ===== verification/Fs_Config.thy ===== *)
theory Fs_Config
  imports Py_Path
begin

text \<open>
  The configuration of the filesystem connector (\<open>agentic/fsconnect/config.py\<close>) on Linux. The YAML
  block is a Python value; every failure, also a \<open>TypeError\<close> of the constructor, is
  \<open>FsConnectConfigError\<close> with the name of the field. The value of \<open>os.access\<close> and the home
  directory are arguments.
\<close>

datatype fs_config_error = FsConnectConfigError str

record quota_spec =
  quota_bytes :: "int option"
  max_files :: "int option"

record fs_config =
  fc_allowed_roots :: "str list"
  fc_allowed_fs_ops :: "str list"
  fc_allow_unc_roots :: bool
  fc_allow_macos_volume_roots :: bool
  fc_max_file_bytes :: int
  fc_largest_max_entries :: int
  fc_follow_symlinks :: bool
  fc_scan_content :: bool
  fc_writes_enabled :: bool
  fc_writable_roots :: "str list"
  fc_max_write_bytes :: int
  fc_require_confirm_destructive :: bool
  fc_strict_roots :: bool
  fc_block_on_injection_flags :: bool
  fc_allow_hard_delete :: bool
  fc_trash_retention_days :: int
  fc_quota_recompute_hours :: int
  fc_write_rate_limit :: "(str \<times> pyval) list"
  fc_write_root_quotas :: "(str, quota_spec) dict"
  fc_index_enabled :: bool
  fc_index_root :: "str option"
  fc_index_extensions :: "str list"
  fc_index_max_file_bytes :: int
  fc_index_incremental :: bool
  fc_enabled :: bool

definition DEFAULT_TRASH_RETENTION_DAYS :: int where "DEFAULT_TRASH_RETENTION_DAYS = 30"
definition DEFAULT_QUOTA_RECOMPUTE_HOURS :: int where "DEFAULT_QUOTA_RECOMPUTE_HOURS = 24"
definition DEFAULT_RATE_MAX_OPS :: int where "DEFAULT_RATE_MAX_OPS = 30"
definition DEFAULT_RATE_WINDOW_SECONDS :: rat where "DEFAULT_RATE_WINDOW_SECONDS = 60"
definition DEFAULT_RATE_DB_PATH :: str where "DEFAULT_RATE_DB_PATH = ''data/fsconnect_rate.db''"
definition DEFAULT_MAX_FILE_BYTES :: int where "DEFAULT_MAX_FILE_BYTES = 5 * 1024 * 1024"
definition DEFAULT_LARGEST_MAX_ENTRIES :: int where "DEFAULT_LARGEST_MAX_ENTRIES = 100000"
definition DEFAULT_MAX_WRITE_BYTES :: int where "DEFAULT_MAX_WRITE_BYTES = 10 * 1024 * 1024"
definition DEFAULT_INDEX_MAX_FILE_BYTES :: int where "DEFAULT_INDEX_MAX_FILE_BYTES = 10 * 1024 * 1024"

definition VALID_FS_OPS :: "str list" where
  "VALID_FS_OPS = [''fs_list'', ''fs_stat'', ''fs_read'', ''fs_grep'', ''fs_glob'', ''fs_largest'']"

definition DEFAULT_INDEX_EXTENSIONS :: "str list" where
  "DEFAULT_INDEX_EXTENSIONS = [''.md'', ''.txt'', ''.pdf'', ''.docx'', ''.csv'']"

definition os_default_writable_root :: "bool \<Rightarrow> (str \<Rightarrow> str) \<Rightarrow> str" where
  "os_default_writable_root var_lib_writable expanduser =
     (if var_lib_writable then ''/var/lib/cyclaw-fs'' else expanduser ''~/CyClaw-FS'')"

definition is_unc :: "str \<Rightarrow> bool" where
  "is_unc p = (py_startswith p [CHR 0x5C, CHR 0x5C] \<or> py_startswith p ''//'')"

section \<open>Fields\<close>

definition bool_field :: "(str \<times> pyval) list \<Rightarrow> str \<Rightarrow> bool \<Rightarrow> fs_config_error + bool" where
  "bool_field block name d = (case dget block name (PBool d) of PBool b \<Rightarrow> Inr b | _ \<Rightarrow> Inl (FsConnectConfigError name))"

definition positive_int :: "str \<Rightarrow> pyval \<Rightarrow> fs_config_error + int" where
  "positive_int name v = (case v of PInt i \<Rightarrow> if 0 < i then Inr i else Inl (FsConnectConfigError name)
     | _ \<Rightarrow> Inl (FsConnectConfigError name))"

definition int_field :: "(str \<times> pyval) list \<Rightarrow> str \<Rightarrow> int \<Rightarrow> fs_config_error + int" where
  "int_field block name d = positive_int name (dget block name (PInt d))"

text \<open>Iteration over a field: a value that cannot be iterated is a \<open>TypeError\<close>.\<close>

definition iter_field :: "(str \<times> pyval) list \<Rightarrow> str \<Rightarrow> pyval list \<Rightarrow> fs_config_error + pyval list" where
  "iter_field block name d = of_option (FsConnectConfigError name) (py_iter (dget block name (PList d)))"

fun check_ops :: "pyval list \<Rightarrow> fs_config_error + str list" where
  "check_ops [] = Inr []"
| "check_ops (v # vs) = (case v of
     PStr op \<Rightarrow> if op \<in> set VALID_FS_OPS then ebind (check_ops vs) (\<lambda>ops. Inr (op # ops))
       else Inl (FsConnectConfigError ''allowed_fs_ops'')
   | _ \<Rightarrow> Inl (FsConnectConfigError ''allowed_fs_ops''))"

fun check_root_list :: "str \<Rightarrow> bool \<Rightarrow> pyval list \<Rightarrow> fs_config_error + str list" where
  "check_root_list name allow_unc [] = Inr []"
| "check_root_list name allow_unc (v # vs) = (case v of
     PStr r \<Rightarrow>
       if py_strip r = [] \<or> CHR 0x00 \<in> set r \<or> is_unc r \<and> \<not> allow_unc then Inl (FsConnectConfigError name)
       else ebind (check_root_list name allow_unc vs) (\<lambda>rs. Inr (r # rs))
   | _ \<Rightarrow> Inl (FsConnectConfigError name))"

definition validate_quota_field :: "str \<Rightarrow> pyval \<Rightarrow> fs_config_error + int option" where
  "validate_quota_field name v = (if v = PNone then Inr None else map_sum id Some (positive_int name v))"

definition writable_root :: "str \<Rightarrow> pyval \<Rightarrow> fs_config_error + str \<times> quota_spec option" where
  "writable_root dflt v = (case v of
     PNone \<Rightarrow> Inr (dflt, None)
   | PStr p \<Rightarrow> Inr (p, None)
   | PDict d \<Rightarrow>
       ebind (case dget d ''path'' PNone of
           PNone \<Rightarrow> Inr dflt
         | PStr p \<Rightarrow> if py_strip p \<noteq> [] then Inr p else Inl (FsConnectConfigError ''writable_roots'')
         | _ \<Rightarrow> Inl (FsConnectConfigError ''writable_roots'')) (\<lambda>path.
       ebind (validate_quota_field ''quota_bytes'' (dget d ''quota_bytes'' PNone)) (\<lambda>qb.
       ebind (validate_quota_field ''max_files'' (dget d ''max_files'' PNone)) (\<lambda>mf.
       Inr (path, Some \<lparr>quota_bytes = qb, max_files = mf\<rparr>))))
   | _ \<Rightarrow> Inl (FsConnectConfigError ''writable_roots''))"

fun normalize_writable_roots :: "str \<Rightarrow> pyval list \<Rightarrow> str list \<Rightarrow> (str, quota_spec) dict \<Rightarrow>
    fs_config_error + str list \<times> (str, quota_spec) dict" where
  "normalize_writable_roots dflt [] paths quotas = Inr (paths, quotas)"
| "normalize_writable_roots dflt (v # vs) paths quotas =
     ebind (writable_root dflt v) (\<lambda>(path, spec).
     normalize_writable_roots dflt vs (paths @ [path])
       (case spec of
          Some q \<Rightarrow> if quota_bytes q \<noteq> None \<or> max_files q \<noteq> None then AList.update path q quotas else quotas
        | None \<Rightarrow> quotas))"

definition validate_rate_limit :: "pyval \<Rightarrow> fs_config_error + (str \<times> pyval) list" where
  "validate_rate_limit v = (case v of
     PDict rl \<Rightarrow>
       ebind (case map_of rl ''max_ops'' of None \<Rightarrow> Inr 0 | Some x \<Rightarrow> positive_int ''max_ops'' x) (\<lambda>_.
       ebind (case map_of rl ''global_max_ops'' of None \<Rightarrow> Inr 0 | Some x \<Rightarrow> positive_int ''global_max_ops'' x) (\<lambda>_.
       ebind (case map_of rl ''window_seconds'' of
           None \<Rightarrow> Inr ()
         | Some (PInt i) \<Rightarrow> ensure (0 < i) (FsConnectConfigError ''window_seconds'')
         | Some (PFloat r) \<Rightarrow> ensure (0 < r) (FsConnectConfigError ''window_seconds'')
         | Some _ \<Rightarrow> Inl (FsConnectConfigError ''window_seconds'')) (\<lambda>_.
       Inr rl)))
   | _ \<Rightarrow> Inl (FsConnectConfigError ''write_rate_limit''))"

fun check_extensions :: "pyval list \<Rightarrow> fs_config_error + str list" where
  "check_extensions [] = Inr []"
| "check_extensions (v # vs) = (case v of
     PStr e \<Rightarrow>
       if py_strip e = [] then Inl (FsConnectConfigError ''index_extensions'')
       else ebind (check_extensions vs) (\<lambda>es. Inr (py_lower (if py_startswith e ''.'' then e else CHR ''.'' # e) # es))
   | _ \<Rightarrow> Inl (FsConnectConfigError ''index_extensions''))"

definition index_root_field :: "(str \<times> pyval) list \<Rightarrow> bool \<Rightarrow> str list \<Rightarrow> fs_config_error + str option" where
  "index_root_field block allow_unc write_roots = (case dget block ''index_root'' PNone of
     PNone \<Rightarrow> (case write_roots of [] \<Rightarrow> Inr None
       | r # _ \<Rightarrow> map_sum id (\<lambda>_. Some r) (check_root_list ''index_root'' allow_unc [PStr r]))
   | v \<Rightarrow> map_sum id (\<lambda>rs. Some (hd rs)) (check_root_list ''index_root'' allow_unc [v]))"

section \<open>The loader\<close>

definition fs_config_of_block :: "str \<Rightarrow> (str \<times> pyval) list \<Rightarrow> fs_config_error + fs_config" where
  "fs_config_of_block dflt block =
     ebind (bool_field block ''allow_unc_roots'' False) (\<lambda>unc.
     ebind (bool_field block ''allow_macos_volume_roots'' False) (\<lambda>volumes.
     ebind (bool_field block ''follow_symlinks'' False) (\<lambda>follow.
     ebind (bool_field block ''scan_content'' True) (\<lambda>scan.
     ebind (bool_field block ''writes_enabled'' False) (\<lambda>writes.
     ebind (bool_field block ''require_confirm_destructive'' True) (\<lambda>req_confirm.
     ebind (bool_field block ''strict_roots'' False) (\<lambda>strict.
     ebind (bool_field block ''block_on_injection_flags'' False) (\<lambda>flags.
     ebind (bool_field block ''allow_hard_delete'' False) (\<lambda>hard.
     ebind (bool_field block ''index_enabled'' False) (\<lambda>index.
     ebind (bool_field block ''index_incremental'' False) (\<lambda>incremental.
     ebind (ebind (iter_field block ''allowed_fs_ops'' (map PStr VALID_FS_OPS)) check_ops) (\<lambda>ops.
     ebind (int_field block ''max_file_bytes'' DEFAULT_MAX_FILE_BYTES) (\<lambda>max_file.
     ebind (int_field block ''largest_max_entries'' DEFAULT_LARGEST_MAX_ENTRIES) (\<lambda>largest.
     ebind (int_field block ''max_write_bytes'' DEFAULT_MAX_WRITE_BYTES) (\<lambda>max_write.
     ebind (int_field block ''index_max_file_bytes'' DEFAULT_INDEX_MAX_FILE_BYTES) (\<lambda>index_max.
     ebind (ensure (\<not> follow) (FsConnectConfigError ''follow_symlinks'')) (\<lambda>_.
     ebind (int_field block ''trash_retention_days'' DEFAULT_TRASH_RETENTION_DAYS) (\<lambda>retention.
     ebind (int_field block ''quota_recompute_hours'' DEFAULT_QUOTA_RECOMPUTE_HOURS) (\<lambda>recompute.
     ebind (ebind (iter_field block ''allowed_roots'' []) (check_root_list ''allowed_roots'' unc)) (\<lambda>roots.
     ebind (ebind (iter_field block ''writable_roots'' [PNone]) (\<lambda>vs. normalize_writable_roots dflt vs [] [])) (\<lambda>(paths, quotas).
     ebind (check_root_list ''writable_roots'' unc (map PStr paths)) (\<lambda>write_roots.
     ebind (validate_rate_limit (dget block ''write_rate_limit'' (PDict []))) (\<lambda>rl.
     ebind (index_root_field block unc write_roots) (\<lambda>index_root.
     ebind (ebind (iter_field block ''index_extensions'' (map PStr DEFAULT_INDEX_EXTENSIONS)) check_extensions) (\<lambda>exts.
     ebind (bool_field block ''enabled'' False) (\<lambda>enabled.
     Inr \<lparr>fc_allowed_roots = roots, fc_allowed_fs_ops = ops, fc_allow_unc_roots = unc, fc_allow_macos_volume_roots = volumes,
       fc_max_file_bytes = max_file, fc_largest_max_entries = largest, fc_follow_symlinks = follow, fc_scan_content = scan,
       fc_writes_enabled = writes, fc_writable_roots = write_roots, fc_max_write_bytes = max_write,
       fc_require_confirm_destructive = req_confirm, fc_strict_roots = strict, fc_block_on_injection_flags = flags,
       fc_allow_hard_delete = hard, fc_trash_retention_days = retention, fc_quota_recompute_hours = recompute,
       fc_write_rate_limit = rl, fc_write_root_quotas = quotas, fc_index_enabled = index, fc_index_root = index_root,
       fc_index_extensions = exts, fc_index_max_file_bytes = index_max, fc_index_incremental = incremental,
       fc_enabled = enabled\<rparr>))))))))))))))))))))))))))"

definition load_fsconnect_config :: "bool \<Rightarrow> (str \<Rightarrow> str) \<Rightarrow> (str \<times> pyval) list \<Rightarrow> fs_config_error + fs_config" where
  "load_fsconnect_config var_lib_writable expanduser cfg =
     (let block = dget cfg ''fsconnect'' PNone in
      if \<not> py_truthy block then Inl (FsConnectConfigError ''fsconnect'')
      else (case block of
          PDict b \<Rightarrow> fs_config_of_block (os_default_writable_root var_lib_writable expanduser) b
        | _ \<Rightarrow> Inl (FsConnectConfigError ''fsconnect'')))"

text \<open>\<open>rate_limit_settings\<close>: enabled, operations per root and window, window, global operations, database.\<close>

record rate_settings =
  rs_enabled :: bool
  rs_max_ops :: int
  rs_window :: rat
  rs_global_max_ops :: int
  rs_db_path :: str

definition rate_limit_settings :: "fs_config \<Rightarrow> rate_settings" where
  "rate_limit_settings cfg =
     (let rl = fc_write_rate_limit cfg;
          max_ops = (case dget rl ''max_ops'' PNone of PInt i \<Rightarrow> i | _ \<Rightarrow> DEFAULT_RATE_MAX_OPS) in
      \<lparr>rs_enabled = py_truthy (dget rl ''enabled'' (PBool False)),
       rs_max_ops = max_ops,
       rs_window = oget (py_num (dget rl ''window_seconds'' PNone)) DEFAULT_RATE_WINDOW_SECONDS,
       rs_global_max_ops = (case dget rl ''global_max_ops'' PNone of PInt i \<Rightarrow> i | _ \<Rightarrow> 2 * max_ops),
       rs_db_path = (case dget rl ''db_path'' PNone of PStr p \<Rightarrow> p | _ \<Rightarrow> DEFAULT_RATE_DB_PATH)\<rparr>)"

end
