(* ===== verification/Fs_Trash.thy ===== *)
theory Fs_Trash
  imports Fs_Pathsafe Fs_Config
begin

text \<open>
  The capacity ledger (\<open>agentic/fsconnect/quota.py\<close>) and the trash (\<open>agentic/fsconnect/trash.py\<close>).
  Both keep their files below the root through the path-validation core. The recomputing walk of
  the ledger reads the tree as one step; that the code skips a sub-directory it cannot scan is left
  out. Warnings in the process log are not modelled.
\<close>

section \<open>The ledger\<close>

definition QUOTA_FILE :: str where "QUOTA_FILE = ''.cyclaw-quota.json''"
definition MAX_LEDGER_BYTES :: nat where "MAX_LEDGER_BYTES = 64 * 1024"

record quota_ledger =
  ql_used_bytes :: int
  ql_file_count :: int
  ql_computed_at :: str
  ql_generation :: int

definition ledger_value :: "quota_ledger \<Rightarrow> pyval" where
  "ledger_value l = PDict [(''computed_at'', PStr (ql_computed_at l)), (''file_count'', PInt (ql_file_count l)),
     (''generation'', PInt (ql_generation l)), (''used_bytes'', PInt (ql_used_bytes l))]"

definition parse_ledger :: "fs_env \<Rightarrow> pyval \<Rightarrow> quota_ledger option" where
  "parse_ledger env v = (case v of
     PDict raw \<Rightarrow> (case (Option.bind (map_of raw ''used_bytes'') py_to_int, Option.bind (map_of raw ''file_count'') py_to_int,
         py_to_int (dget raw ''generation'' (PInt 0))) of
       (Some used, Some files, Some gen) \<Rightarrow> Some \<lparr>ql_used_bytes = used, ql_file_count = files,
         ql_computed_at = to_str (fe_str env) (dget raw ''computed_at'' (PStr [])), ql_generation = gen\<rparr>
     | _ \<Rightarrow> None)
   | _ \<Rightarrow> None)"

definition load_ledger :: "fs_env \<Rightarrow> safe_root list \<Rightarrow> str option \<Rightarrow> quota_ledger option io" where
  "load_ledger env roots rt =
     hbind (hcatch (hbind (read_bytes env roots QUOTA_FILE rt MAX_LEDGER_BYTES False) (\<lambda>d. hret (Some d))) (\<lambda>_. hret None)) (\<lambda>data.
     hret (Option.bind (Option.bind data (fe_loads env)) (parse_ledger env)))"

definition save_ledger :: "fs_env \<Rightarrow> safe_root list \<Rightarrow> str option \<Rightarrow> quota_ledger \<Rightarrow> unit io" where
  "save_ledger env roots rt ledger =
     hbind (write_bytes env roots QUOTA_FILE (fe_dumps env (ledger_value ledger)) rt True) (\<lambda>_. hret ())"

text \<open>\<open>with suppress(FsConnectError, OSError)\<close>.\<close>

definition suppress_both :: "unit io \<Rightarrow> unit io" where
  "suppress_both act = hcatch act (\<lambda>e. case e of PyErr _ \<Rightarrow> hraise e | _ \<Rightarrow> hret ())"

definition counted :: "fs_env \<Rightarrow> str \<Rightarrow> bool" where
  "counted env name \<longleftrightarrow> name \<noteq> QUOTA_FILE \<and> \<not> py_endswith name TMP_SUFFIX \<and> \<not> is_macos_artifact_name env name"

definition usage :: "fs_env \<Rightarrow> store \<Rightarrow> ino \<Rightarrow> int \<times> int" where
  "usage env st base =
     (let files = [length b. (p, i) \<leftarrow> below st base, counted env (last p),
        b \<leftarrow> (case st_nodes st i of Some (Reg b) \<Rightarrow> [b] | _ \<Rightarrow> [])]
      in (int (sum_list files), int (length files)))"

definition walk_usage :: "fs_env \<Rightarrow> str \<Rightarrow> (int \<times> int) io" where
  "walk_usage env base s = query_call (\<lambda>st. case resolve st True (w_cwd s) base of
     Inl e \<Rightarrow> Inl e | Inr (d, _) \<Rightarrow> if is_dir st d then Inr (usage env st d) else Inl ENOTDIR) s"

definition recompute :: "fs_env \<Rightarrow> safe_root \<Rightarrow> seconds \<Rightarrow> int \<Rightarrow> quota_ledger io" where
  "recompute env sr now generation =
     hbind (walk_usage env (sr_path sr)) (\<lambda>(used, files).
     hret \<lparr>ql_used_bytes = used, ql_file_count = files, ql_computed_at = fe_iso env \<lfloor>now\<rfloor>, ql_generation = generation\<rparr>)"

definition is_stale :: "fs_env \<Rightarrow> quota_ledger option \<Rightarrow> seconds \<Rightarrow> int \<Rightarrow> bool" where
  "is_stale env ledger now recompute_hours = (case ledger of
     None \<Rightarrow> True
   | Some l \<Rightarrow> (case fe_parse_iso env (ql_computed_at l) of
       None \<Rightarrow> True
     | Some dt \<Rightarrow> of_int recompute_hours \<le> (now - of_int dt) / 3600))"

section \<open>The trash\<close>

definition TRASH_DIR :: str where "TRASH_DIR = ''.cyclaw-trash''"
definition META_SUFFIX :: str where "META_SUFFIX = ''.meta.json''"
definition MAX_META_BYTES :: nat where "MAX_META_BYTES = 64 * 1024"

definition entry_name :: "fs_env \<Rightarrow> str \<Rightarrow> seconds \<Rightarrow> str io" where
  "entry_name env original now =
     (let stamp = fe_stamp env \<lfloor>now\<rfloor> in
      hbind (hlift (split_components original)) (\<lambda>comps.
      hbind draw_id (\<lambda>n.
      hret (stamp @ ''__'' @ (if comps = [] then ''root'' else py_join ''__'' comps) @ ''__'' @
        take 8 (fe_sha256 env (utf8 (original @ stamp))) @ fe_token env n))))"

record trash_entry =
  tr_name :: str
  tr_original_path :: str
  tr_deleted_at :: str
  tr_reason :: str
  tr_sha256 :: pyval
  tr_size :: int
  tr_kind :: str
  tr_retention_expires_at :: str
  tr_sha256_skipped :: pyval

definition meta_value :: "trash_entry \<Rightarrow> pyval" where
  "meta_value e = PDict [(''deleted_at'', PStr (tr_deleted_at e)), (''kind'', PStr (tr_kind e)), (''name'', PStr (tr_name e)),
     (''original_path'', PStr (tr_original_path e)), (''reason'', PStr (tr_reason e)),
     (''retention_expires_at'', PStr (tr_retention_expires_at e)), (''sha256'', tr_sha256 e),
     (''sha256_skipped'', tr_sha256_skipped e), (''size'', PInt (tr_size e))]"

definition opt_str :: "str option \<Rightarrow> pyval" where
  "opt_str x = (case x of None \<Rightarrow> PNone | Some s \<Rightarrow> PStr s)"

definition make_entry :: "fs_env \<Rightarrow> str \<Rightarrow> seconds \<Rightarrow> str \<Rightarrow> str option \<Rightarrow> int \<Rightarrow> str \<Rightarrow> int \<Rightarrow> str option \<Rightarrow> trash_entry io" where
  "make_entry env original now reason sha sz kind retention_days skipped =
     hbind (entry_name env original now) (\<lambda>name.
     hret \<lparr>tr_name = name, tr_original_path = original, tr_deleted_at = fe_iso env \<lfloor>now\<rfloor>, tr_reason = reason,
       tr_sha256 = opt_str sha, tr_size = sz, tr_kind = kind,
       tr_retention_expires_at = fe_iso env (\<lfloor>now\<rfloor> + retention_days * 86400), tr_sha256_skipped = opt_str skipped\<rparr>)"

text \<open>The file name of the sidecar is authoritative for the name of the entry.\<close>

definition parse_meta :: "fs_env \<Rightarrow> str \<Rightarrow> str \<Rightarrow> trash_entry option" where
  "parse_meta env name data = (case fe_loads env data of
     Some (PDict raw) \<Rightarrow> (case (map_of raw ''original_path'', py_to_int (dget raw ''size'' (PInt 0))) of
       (Some orig, Some sz) \<Rightarrow> Some \<lparr>tr_name = py_removesuffix name META_SUFFIX,
         tr_original_path = to_str (fe_str env) orig,
         tr_deleted_at = to_str (fe_str env) (dget raw ''deleted_at'' (PStr [])),
         tr_reason = to_str (fe_str env) (dget raw ''reason'' (PStr [])),
         tr_sha256 = dget raw ''sha256'' PNone, tr_size = sz,
         tr_kind = to_str (fe_str env) (dget raw ''kind'' (PStr ''file'')),
         tr_retention_expires_at = to_str (fe_str env) (dget raw ''retention_expires_at'' (PStr [])),
         tr_sha256_skipped = dget raw ''sha256_skipped'' PNone\<rparr>
     | _ \<Rightarrow> None)
   | _ \<Rightarrow> None)"

fun read_sidecars :: "fs_env \<Rightarrow> safe_root list \<Rightarrow> str option \<Rightarrow> str list \<Rightarrow> trash_entry list \<Rightarrow> trash_entry list io" where
  "read_sidecars env roots rt [] acc = hret acc"
| "read_sidecars env roots rt (name # names) acc =
     (if \<not> py_endswith name META_SUFFIX then read_sidecars env roots rt names acc
      else hbind (hcatch (hbind (read_bytes env roots (TRASH_DIR @ ''/'' @ name) rt MAX_META_BYTES False) (\<lambda>d. hret (Some d)))
          (\<lambda>_. hret None)) (\<lambda>data.
        read_sidecars env roots rt names
          (acc @ (case Option.bind data (parse_meta env name) of None \<Rightarrow> [] | Some e \<Rightarrow> [e]))))"

definition list_entries :: "fs_env \<Rightarrow> safe_root list \<Rightarrow> str option \<Rightarrow> trash_entry list io" where
  "list_entries env roots rt =
     hbind (hcatch (hbind (list_dir env roots TRASH_DIR rt False) (\<lambda>l. hret (Some l))) (\<lambda>_. hret None)) (\<lambda>listing.
     case listing of
       None \<Rightarrow> hret []
     | Some items \<Rightarrow> hbind (read_sidecars env roots rt (map si_name items) []) (\<lambda>out. hret (sorted_by tr_name out)))"

definition expired :: "fs_env \<Rightarrow> trash_entry list \<Rightarrow> seconds \<Rightarrow> trash_entry list" where
  "expired env entries now = filter (\<lambda>e. case fe_parse_iso env (tr_retention_expires_at e) of
     None \<Rightarrow> True | Some t \<Rightarrow> of_int t \<le> now) entries"

definition find_entry :: "trash_entry list \<Rightarrow> str \<Rightarrow> fs_exc + trash_entry" where
  "find_entry entries name = of_option (FsRuntime ''entry'') (find (\<lambda>e. tr_name e = name) entries)"

end
