(* ===== verification/Fs_Writer.thy ===== *)
theory Fs_Writer
  imports Fs_Trash
begin

text \<open>
  The gated write operations of the filesystem connector (\<open>agentic/fsconnect/writer.py\<close>). An
  operation validates its target, passes the gates (writes enabled, a human reason, a confirmation of
  destructive operations, the opt-in for hard deletion), the capacity check and the rate limit, records its
  intent, changes the file system through the path-validation core and records that it was applied. Results are reduced to
  whether the operation was a dry run or applied, with the names it reports.

  The rate limiter is the one of \<open>Ratelimit\<close> on a table shared by the limiter of the root and the
  global one, both constructed for the call. The plain-language rules of the audit events are not modelled.
\<close>

datatype fs_result = DryRun "str list" | Applied "str list"

definition FS_WRITE_HARD_DISABLE :: bool where "FS_WRITE_HARD_DISABLE = False"

section \<open>Gates\<close>

definition refuse :: "str \<Rightarrow> str \<Rightarrow> 'a io" where
  "refuse op failed_gate = hbind (audit (EvWriteRefused op failed_gate)) (\<lambda>_. hraise (FsRefused failed_gate))"

definition executable :: "fs_config \<Rightarrow> str \<Rightarrow> str \<Rightarrow> bool \<Rightarrow> bool \<Rightarrow> bool io" where
  "executable cfg op reason confirm destructive =
     (if FS_WRITE_HARD_DISABLE \<or> \<not> fc_writes_enabled cfg then hret False
      else if py_strip reason = [] then refuse op ''reason''
      else if destructive \<and> fc_require_confirm_destructive cfg \<and> \<not> confirm then refuse op ''confirm''
      else hret True)"

definition reserve_check :: "str \<Rightarrow> str list \<Rightarrow> unit io" where
  "reserve_check op comps =
     (if comps = [] then hret ()
      else if hd comps = TRASH_DIR then refuse op ''reserved_name''
      else if last comps = QUOTA_FILE \<or> py_endswith (last comps) TMP_SUFFIX then refuse op ''reserved_name''
      else hret ())"

definition enforce_payload_cap :: "fs_config \<Rightarrow> str \<Rightarrow> unit io" where
  "enforce_payload_cap cfg data = hensure (int (length data) \<le> fc_max_write_bytes cfg) (FsRefused ''max_write_bytes'')"

text \<open>The advisory scan: the sources of the patterns that occur in the decoded text.\<close>

type_synonym patterns = "(str \<times> (str \<Rightarrow> bool)) list"

definition scan :: "fs_env \<Rightarrow> patterns \<Rightarrow> str \<Rightarrow> str list" where
  "scan env pats data = map fst (filter (\<lambda>p. snd p (fe_decode env data)) pats)"

definition check_injection :: "fs_config \<Rightarrow> str \<Rightarrow> str list \<Rightarrow> unit io" where
  "check_injection cfg op flags =
     (if flags \<noteq> [] \<and> fc_block_on_injection_flags cfg then refuse op ''injection_scan'' else hret ())"

section \<open>Capacity\<close>

definition quota_spec_of :: "fs_config \<Rightarrow> safe_root \<Rightarrow> quota_spec option" where
  "quota_spec_of cfg sr = (case map_of (fc_write_root_quotas cfg) (sr_requested sr) of
     Some q \<Rightarrow> if quota_bytes q = None \<and> max_files q = None then None else Some q | None \<Rightarrow> None)"

definition next_generation :: "quota_ledger option \<Rightarrow> int" where
  "next_generation l = (case l of None \<Rightarrow> 1 | Some l \<Rightarrow> ql_generation l + 1)"

definition quota_ledger_of :: "fs_env \<Rightarrow> fs_config \<Rightarrow> safe_root list \<Rightarrow> str \<Rightarrow> safe_root \<Rightarrow> quota_ledger io" where
  "quota_ledger_of env cfg roots op sr =
     hbind read_clock (\<lambda>now.
     hbind (load_ledger env roots (Some (sr_requested sr))) (\<lambda>ledger.
     case (if is_stale env ledger now (fc_quota_recompute_hours cfg) then None else ledger) of
       Some l \<Rightarrow> hret l
     | None \<Rightarrow>
         hbind (on_oserror (recompute env sr now (next_generation ledger)) (\<lambda>_. refuse op ''quota'')) (\<lambda>l.
         hbind (suppress_both (save_ledger env roots (Some (sr_requested sr)) l)) (\<lambda>_.
         hret l))))"

definition exceeds :: "int option \<Rightarrow> int \<Rightarrow> bool" where
  "exceeds bound x = (case bound of None \<Rightarrow> False | Some b \<Rightarrow> b < x)"

definition check_quota :: "fs_env \<Rightarrow> fs_config \<Rightarrow> safe_root list \<Rightarrow> str \<Rightarrow> safe_root \<Rightarrow> int \<Rightarrow> int \<Rightarrow> quota_ledger option io" where
  "check_quota env cfg roots op sr delta_bytes delta_files = (case quota_spec_of cfg sr of
     None \<Rightarrow> hret None
   | Some spec \<Rightarrow>
       hbind (quota_ledger_of env cfg roots op sr) (\<lambda>ledger.
       if exceeds (quota_bytes spec) (ql_used_bytes ledger + delta_bytes) then refuse op ''quota''
       else if exceeds (max_files spec) (ql_file_count ledger + delta_files) then refuse op ''quota''
       else hret (Some ledger)))"

definition credit :: "quota_ledger \<Rightarrow> int \<Rightarrow> int \<Rightarrow> quota_ledger" where
  "credit l delta_bytes delta_files = \<lparr>ql_used_bytes = max 0 (ql_used_bytes l + delta_bytes),
     ql_file_count = max 0 (ql_file_count l + delta_files), ql_computed_at = ql_computed_at l,
     ql_generation = ql_generation l + 1\<rparr>"

definition update_ledger :: "fs_env \<Rightarrow> fs_config \<Rightarrow> safe_root list \<Rightarrow> safe_root \<Rightarrow> int \<Rightarrow> int \<Rightarrow> quota_ledger option \<Rightarrow> unit io" where
  "update_ledger env cfg roots sr delta_bytes delta_files given = (case quota_spec_of cfg sr of
     None \<Rightarrow> hret ()
   | Some _ \<Rightarrow>
       hbind read_clock (\<lambda>now.
       hbind (case given of None \<Rightarrow> load_ledger env roots (Some (sr_requested sr)) | Some _ \<Rightarrow> hret given) (\<lambda>ledger.
       hbind (case (if is_stale env ledger now (fc_quota_recompute_hours cfg) then None else ledger) of
           None \<Rightarrow> on_oserror (hbind (recompute env sr now (next_generation ledger)) (\<lambda>l. hret (Some l))) (\<lambda>_. hret None)
         | Some l \<Rightarrow> hret (Some (credit l delta_bytes delta_files))) (\<lambda>r.
       case r of None \<Rightarrow> hret ()
       | Some l \<Rightarrow> suppress_both (save_ledger env roots (Some (sr_requested sr)) l)))))"

section \<open>The rate limit\<close>

definition of_rate_error :: "rl_error + 'a \<Rightarrow> fs_exc + 'a" where
  "of_rate_error r = map_sum (\<lambda>e. PyErr ''RateLimiter'') id r"

definition check_rate :: "fs_env \<Rightarrow> fs_config \<Rightarrow> str \<Rightarrow> safe_root \<Rightarrow> unit io" where
  "check_rate env cfg op sr =
     (let rs = rate_limit_settings cfg in
      if \<not> rs_enabled rs then hret ()
      else hbind (hget w_rate) (\<lambda>table.
        hbind (hlift (of_rate_error (RateLimiter (rs_max_ops rs) (rs_window rs) (Some (rs_db_path rs)) None table))) (\<lambda>per_root.
        hbind (hlift (of_rate_error (RateLimiter (rs_global_max_ops rs) (rs_window rs) (Some (rs_db_path rs)) None (Some (snd per_root))))) (\<lambda>global.
        hbind read_clock (\<lambda>now.
        case allow (fst (fe_db_faults env)) now (''fs:'' @ sr_normcase sr) per_root of (r1, l1) \<Rightarrow>
        hbind (hmodify (\<lambda>s. s\<lparr>w_rate := Some (snd l1)\<rparr>)) (\<lambda>_.
        hbind (hlift (of_rate_error r1)) (\<lambda>ok1.
        if \<not> ok1 then refuse op ''rate_limit''
        else hbind read_clock (\<lambda>now2.
          case allow (snd (fe_db_faults env)) now2 ''fs:*'' (fst global, snd l1) of (r2, l2) \<Rightarrow>
          hbind (hmodify (\<lambda>s. s\<lparr>w_rate := Some (snd l2)\<rparr>)) (\<lambda>_.
          hbind (hlift (of_rate_error r2)) (\<lambda>ok2.
          if \<not> ok2 then refuse op ''rate_limit'' else hret ()))))))))))"

definition dryrun :: "str \<Rightarrow> str \<Rightarrow> str list \<Rightarrow> fs_result io" where
  "dryrun op reason extra = hbind (audit (EvDryrun op reason)) (\<lambda>_. hret (DryRun extra))"

definition pre_size :: "fs_env \<Rightarrow> safe_root list \<Rightarrow> str \<Rightarrow> str option \<Rightarrow> stat_info option io" where
  "pre_size env roots target rt =
     hcatch (hbind (stat_op env roots target rt) (\<lambda>i. hret (Some i)))
       (\<lambda>e. if is_fs_error e then hret None else hraise e)"

section \<open>Write, append, mkdir, move\<close>

definition fs_write :: "fs_env \<Rightarrow> fs_config \<Rightarrow> patterns \<Rightarrow> safe_root list \<Rightarrow> str \<Rightarrow> str \<Rightarrow> str \<Rightarrow> bool \<Rightarrow> bool \<Rightarrow> str option \<Rightarrow> fs_result io" where
  "fs_write env cfg pats roots target data reason confirm overwrite rt =
     hbind (hlift (split_components target)) (\<lambda>comps.
     hbind (pick_root env roots rt) (\<lambda>sr.
     hbind (reserve_check ''fs_write'' comps) (\<lambda>_.
     hbind (enforce_payload_cap cfg data) (\<lambda>_.
     hbind (executable cfg ''fs_write'' reason confirm overwrite) (\<lambda>go.
     if \<not> go then dryrun ''fs_write'' reason [target]
     else let flags = scan env pats data in
       hbind (check_injection cfg ''fs_write'' flags) (\<lambda>_.
       hbind (pre_size env roots target rt) (\<lambda>pre.
       let (d_bytes, d_files) = (case pre of
           Some i \<Rightarrow> if overwrite then (int (length data) - int (si_size i), 0) else (int (length data), 1)
         | None \<Rightarrow> (int (length data), 1)) in
       hbind (check_quota env cfg roots ''fs_write'' sr d_bytes d_files) (\<lambda>qledger.
       hbind (check_rate env cfg ''fs_write'' sr) (\<lambda>_.
       hbind draw_id (\<lambda>intent_id.
       hbind (audit (EvIntent ''fs_write'' reason target intent_id)) (\<lambda>_.
       hbind (write_bytes env roots target data rt overwrite) (\<lambda>path.
       hbind (update_ledger env cfg roots sr d_bytes d_files qledger) (\<lambda>_.
       hbind (audit (EvApplied ''fs_write'' reason path intent_id (length flags))) (\<lambda>_.
       hret (Applied [path])))))))))))))))"

definition fs_append :: "fs_env \<Rightarrow> fs_config \<Rightarrow> patterns \<Rightarrow> safe_root list \<Rightarrow> str \<Rightarrow> str \<Rightarrow> str \<Rightarrow> bool \<Rightarrow> str option \<Rightarrow> fs_result io" where
  "fs_append env cfg pats roots target data reason confirm rt =
     hbind (hlift (split_components target)) (\<lambda>comps.
     hbind (pick_root env roots rt) (\<lambda>sr.
     hbind (reserve_check ''fs_append'' comps) (\<lambda>_.
     hbind (enforce_payload_cap cfg data) (\<lambda>_.
     hbind (executable cfg ''fs_append'' reason confirm False) (\<lambda>go.
     if \<not> go then dryrun ''fs_append'' reason [target]
     else let flags = scan env pats data in
       hbind (check_injection cfg ''fs_append'' flags) (\<lambda>_.
       hbind (pre_size env roots target rt) (\<lambda>pre.
       let d_bytes = int (length data); d_files = (if pre = None then 1 else 0) in
       hbind (check_quota env cfg roots ''fs_append'' sr d_bytes d_files) (\<lambda>qledger.
       hbind (check_rate env cfg ''fs_append'' sr) (\<lambda>_.
       hbind draw_id (\<lambda>intent_id.
       hbind (audit (EvIntent ''fs_append'' reason target intent_id)) (\<lambda>_.
       hbind (append_bytes env roots target data rt) (\<lambda>path.
       hbind (update_ledger env cfg roots sr d_bytes d_files qledger) (\<lambda>_.
       hbind (audit (EvApplied ''fs_append'' reason path intent_id (length flags))) (\<lambda>_.
       hret (Applied [path])))))))))))))))"

definition fs_mkdir :: "fs_env \<Rightarrow> fs_config \<Rightarrow> safe_root list \<Rightarrow> str \<Rightarrow> str \<Rightarrow> bool \<Rightarrow> str option \<Rightarrow> fs_result io" where
  "fs_mkdir env cfg roots target reason confirm rt =
     hbind (hlift (split_components target)) (\<lambda>comps.
     hbind (pick_root env roots rt) (\<lambda>sr.
     hbind (reserve_check ''fs_mkdir'' comps) (\<lambda>_.
     hbind (executable cfg ''fs_mkdir'' reason confirm False) (\<lambda>go.
     if \<not> go then dryrun ''fs_mkdir'' reason [target]
     else
       hbind (check_quota env cfg roots ''fs_mkdir'' sr 0 0) (\<lambda>_.
       hbind (check_rate env cfg ''fs_mkdir'' sr) (\<lambda>_.
       hbind draw_id (\<lambda>intent_id.
       hbind (audit (EvIntent ''fs_mkdir'' reason target intent_id)) (\<lambda>_.
       hbind (mkdir env roots target rt) (\<lambda>path.
       hbind (audit (EvApplied ''fs_mkdir'' reason path intent_id 0)) (\<lambda>_.
       hret (Applied [path])))))))))))"

definition fs_move :: "fs_env \<Rightarrow> fs_config \<Rightarrow> safe_root list \<Rightarrow> str \<Rightarrow> str \<Rightarrow> str \<Rightarrow> bool \<Rightarrow> bool \<Rightarrow> str option \<Rightarrow> fs_result io" where
  "fs_move env cfg roots src dst reason confirm overwrite rt =
     hbind (hlift (split_components src)) (\<lambda>scomps.
     hbind (hlift (split_components dst)) (\<lambda>dcomps.
     hbind (pick_root env roots rt) (\<lambda>sr.
     hbind (reserve_check ''fs_move'' scomps) (\<lambda>_.
     hbind (reserve_check ''fs_move'' dcomps) (\<lambda>_.
     hbind (executable cfg ''fs_move'' reason confirm True) (\<lambda>go.
     if \<not> go then dryrun ''fs_move'' reason [src, dst]
     else
       hbind (check_quota env cfg roots ''fs_move'' sr 0 0) (\<lambda>_.
       hbind (check_rate env cfg ''fs_move'' sr) (\<lambda>_.
       hbind draw_id (\<lambda>intent_id.
       hbind (audit (EvIntent ''fs_move'' reason dst intent_id)) (\<lambda>_.
       hbind (move env roots src dst rt overwrite) (\<lambda>(from_path, to_path).
       hbind (audit (EvApplied ''fs_move'' reason to_path intent_id 0)) (\<lambda>_.
       hret (Applied [from_path, to_path])))))))))))))"

section \<open>Delete\<close>

definition purge :: "fs_env \<Rightarrow> fs_config \<Rightarrow> safe_root list \<Rightarrow> str \<Rightarrow> kind \<Rightarrow> str option \<Rightarrow> str io" where
  "purge env cfg roots target kind rt =
     (if kind = KDir then
        hcatch (rmdir env roots target rt)
          (\<lambda>e. if e = FsRuntime ''non_empty'' then refuse ''fs_delete'' ''non_empty_dir'' else hraise e)
      else hbind (unlink env roots target rt (Some (nat (fc_max_file_bytes cfg)))) (\<lambda>r. hret (fst r)))"

definition ensure_trash :: "fs_env \<Rightarrow> safe_root list \<Rightarrow> str option \<Rightarrow> unit io" where
  "ensure_trash env roots rt =
     hcatch (hbind (mkdir env roots TRASH_DIR rt) (\<lambda>_. hret ()))
       (\<lambda>e. case e of FsRuntime _ \<Rightarrow> hret () | _ \<Rightarrow> hraise e)"

definition content_sha :: "fs_env \<Rightarrow> fs_config \<Rightarrow> safe_root list \<Rightarrow> str \<Rightarrow> kind \<Rightarrow> nat \<Rightarrow> str option \<Rightarrow> str option io" where
  "content_sha env cfg roots target kind sz rt =
     (if kind = KDir \<or> fc_max_file_bytes cfg < int sz then hret None
      else hcatch (hbind (read_bytes env roots target rt (nat (fc_max_file_bytes cfg)) False) (\<lambda>d. hret (Some (fe_sha256 env d))))
        (\<lambda>e. if is_fs_error e then hret None else hraise e))"

definition to_trash :: "fs_env \<Rightarrow> fs_config \<Rightarrow> safe_root list \<Rightarrow> str \<Rightarrow> kind \<Rightarrow> nat \<Rightarrow> str \<Rightarrow> seconds \<Rightarrow> str option \<Rightarrow> (str \<times> str) io" where
  "to_trash env cfg roots target kind sz reason now rt =
     hbind (ensure_trash env roots rt) (\<lambda>_.
     hbind (content_sha env cfg roots target kind sz rt) (\<lambda>sha.
     hbind (make_entry env target now reason sha (int sz) (if kind = KDir then ''dir'' else ''file'')
       (fc_trash_retention_days cfg) (if kind \<noteq> KDir \<and> fc_max_file_bytes cfg < int sz then Some ''size'' else None)) (\<lambda>entry.
     let dst = TRASH_DIR @ ''/'' @ tr_name entry; meta = dst @ META_SUFFIX in
     hbind (write_bytes env roots meta (fe_dumps env (meta_value entry)) rt False) (\<lambda>_.
     hbind (hcatch (move env roots target dst rt False)
         (\<lambda>e. hbind (suppress_fs_error (hbind (unlink env roots meta rt (Some 0)) (\<lambda>_. hret ()))) (\<lambda>_. hraise e))) (\<lambda>moved.
     hret (fst moved, tr_name entry))))))"

definition fs_delete :: "fs_env \<Rightarrow> fs_config \<Rightarrow> safe_root list \<Rightarrow> str \<Rightarrow> str \<Rightarrow> bool \<Rightarrow> bool \<Rightarrow> str option \<Rightarrow> fs_result io" where
  "fs_delete env cfg roots target reason confirm hard rt =
     hbind (hlift (split_components target)) (\<lambda>comps.
     hbind (hensure (comps \<noteq> []) (FsPath None)) (\<lambda>_.
     hbind (pick_root env roots rt) (\<lambda>sr.
     hbind (reserve_check ''fs_delete'' comps) (\<lambda>_.
     hbind read_clock (\<lambda>now.
     hbind (pre_size env roots target rt) (\<lambda>pre.
     hbind (executable cfg ''fs_delete'' reason confirm True) (\<lambda>go.
     if \<not> go then
       hbind (if hard then hret [target] else hbind (entry_name env target now) (\<lambda>name. hret [target, name]))
         (dryrun ''fs_delete'' reason)
     else if hard \<and> \<not> fc_allow_hard_delete cfg then refuse ''fs_delete'' ''allow_hard_delete''
     else case pre of
       None \<Rightarrow> hraise (FsPath None)
     | Some i \<Rightarrow>
       (let (d_bytes, d_files) = (if hard \<and> si_type i \<noteq> KDir then (- int (si_size i), - 1) else (0, 0)) in
        hbind (check_quota env cfg roots ''fs_delete'' sr d_bytes d_files) (\<lambda>qledger.
        hbind (check_rate env cfg ''fs_delete'' sr) (\<lambda>_.
        hbind draw_id (\<lambda>intent_id.
        hbind (audit (EvIntent ''fs_delete'' reason target intent_id)) (\<lambda>_.
        hbind (if hard then
            hbind (purge env cfg roots target (si_type i) rt) (\<lambda>removed.
            hbind (update_ledger env cfg roots sr d_bytes d_files qledger) (\<lambda>_.
            hret [removed]))
          else hbind (to_trash env cfg roots target (si_type i) (si_size i) reason now rt) (\<lambda>(removed, name).
            hret [removed, name])) (\<lambda>names.
        hbind (audit (EvApplied ''fs_delete'' reason (hd names) intent_id 0)) (\<lambda>_.
        hret (Applied names)))))))))))))))"

section \<open>The life of trash\<close>

definition hforeach :: "('a \<Rightarrow> unit io) \<Rightarrow> 'a list \<Rightarrow> unit io" where
  "hforeach f xs = foldr (\<lambda>x rest. hbind (f x) (\<lambda>_. rest)) xs (hret ())"

definition MAX_PURGE_DEPTH :: nat where "MAX_PURGE_DEPTH = 64"

text \<open>The recursive removal of a payload; the first argument is the depth that is left.\<close>

fun purge_tree :: "nat \<Rightarrow> fs_env \<Rightarrow> safe_root list \<Rightarrow> str option \<Rightarrow> str \<Rightarrow> unit io" where
  "purge_tree 0 env roots rt rel = hraise (FsError ''FSCONNECT_ERROR'')"
| "purge_tree (Suc left) env roots rt rel =
     hbind (pre_size env roots rel rt) (\<lambda>pre. case pre of
       None \<Rightarrow> hret ()
     | Some st \<Rightarrow>
         if si_type st = KDir then
           hbind (list_dir env roots rel rt False) (\<lambda>items.
           hbind (hforeach (\<lambda>item. purge_tree left env roots rt (rel @ ''/'' @ si_name item)) items) (\<lambda>_.
           hbind (rmdir env roots rel rt) (\<lambda>_. hret ())))
         else hbind (unlink env roots rel rt (Some 0)) (\<lambda>_. hret ()))"

definition purge_trash_entry :: "fs_env \<Rightarrow> safe_root list \<Rightarrow> trash_entry \<Rightarrow> str option \<Rightarrow> (bool \<times> bool) io" where
  "purge_trash_entry env roots e rt =
     (let payload = TRASH_DIR @ ''/'' @ tr_name e;
          drop_sidecar = suppress_fs_error (hbind (unlink env roots (payload @ META_SUFFIX) rt (Some 0)) (\<lambda>_. hret ())) in
      hbind (pre_size env roots payload rt) (\<lambda>pre. case pre of
        None \<Rightarrow> hbind drop_sidecar (\<lambda>_. hret (True, False))
      | Some _ \<Rightarrow>
          hbind (hcatch (hbind (purge_tree MAX_PURGE_DEPTH env roots rt payload) (\<lambda>_. hret True))
              (\<lambda>e. if is_fs_error e then hret False else hraise e)) (\<lambda>ok.
          if ok then hbind drop_sidecar (\<lambda>_. hret (True, True)) else hret (False, False))))"

definition tmp_candidates :: "store \<Rightarrow> ino \<Rightarrow> seconds \<Rightarrow> str list" where
  "tmp_candidates st d cutoff = sorted_by id
     (map (\<lambda>(p, _). py_join ''/'' p) (filter (\<lambda>(p, i). py_endswith (last p) TMP_SUFFIX \<and>
        (case fstatat st True (d, []) (py_join ''/'' p) of Inr x \<Rightarrow> s_kind x \<noteq> KDir | Inl _ \<Rightarrow> True) \<and>
        of_int (st_mtime st i) < cutoff) (below st d)))"

definition find_orphan_tmp :: "safe_root \<Rightarrow> str list io" where
  "find_orphan_tmp sr =
     hbind read_clock (\<lambda>now.
     on_oserror (\<lambda>s. query_call (\<lambda>st. case resolve st True (w_cwd s) (sr_path sr) of
       Inl e \<Rightarrow> Inl e | Inr (d, _) \<Rightarrow> Inr (tmp_candidates st d (now - 24 * 3600))) s) (\<lambda>_. hret []))"

fun sweep_tmp :: "fs_env \<Rightarrow> safe_root list \<Rightarrow> str option \<Rightarrow> str list \<Rightarrow> str list \<Rightarrow> str list io" where
  "sweep_tmp env roots rt [] swept = hret swept"
| "sweep_tmp env roots rt (rel # rels) swept =
     hbind (hcatch (hbind (unlink env roots rel rt (Some 0)) (\<lambda>_. hret True))
         (\<lambda>e. if is_fs_error e then hret False else hraise e)) (\<lambda>ok.
     sweep_tmp env roots rt rels (if ok then swept @ [rel] else swept))"

definition sweep_orphan_tmp :: "fs_env \<Rightarrow> safe_root list \<Rightarrow> safe_root \<Rightarrow> str option \<Rightarrow> str list io" where
  "sweep_orphan_tmp env roots sr rt = hbind (find_orphan_tmp sr) (\<lambda>rels. sweep_tmp env roots rt rels [])"

text \<open>One pass over the entries: the names purged, the bytes and files freed.\<close>

fun purge_entries :: "fs_env \<Rightarrow> safe_root list \<Rightarrow> str \<Rightarrow> str option \<Rightarrow> trash_entry list \<Rightarrow> str list \<Rightarrow> int \<Rightarrow> int \<Rightarrow> (str list \<times> int \<times> int) io" where
  "purge_entries env roots reason rt [] purged freed_bytes freed_files = hret (purged, freed_bytes, freed_files)"
| "purge_entries env roots reason rt (e # es) purged freed_bytes freed_files =
     hbind draw_id (\<lambda>intent_id.
     hbind (audit (EvIntent ''trash_empty'' reason (tr_name e) intent_id)) (\<lambda>_.
     hbind (purge_trash_entry env roots e rt) (\<lambda>(reclaimed, had_payload).
     if \<not> reclaimed then purge_entries env roots reason rt es purged freed_bytes freed_files
     else hbind (audit (EvApplied ''trash_empty'' reason (tr_name e) intent_id 0)) (\<lambda>_.
       let f = tr_kind e \<noteq> ''dir'' \<and> had_payload in
       purge_entries env roots reason rt es (purged @ [tr_name e])
         (if f then freed_bytes + tr_size e else freed_bytes) (if f then freed_files + 1 else freed_files)))))"

definition trash_empty :: "fs_env \<Rightarrow> fs_config \<Rightarrow> safe_root list \<Rightarrow> str \<Rightarrow> bool \<Rightarrow> bool \<Rightarrow> str option \<Rightarrow> fs_result io" where
  "trash_empty env cfg roots reason confirm all_entries rt =
     hbind (pick_root env roots rt) (\<lambda>sr.
     hbind read_clock (\<lambda>now.
     hbind (list_entries env roots rt) (\<lambda>entries.
     let targets = (if all_entries then entries else expired env entries now) in
     hbind (executable cfg ''trash_empty'' reason confirm True) (\<lambda>go.
     if \<not> go then hbind (find_orphan_tmp sr) (\<lambda>tmps. dryrun ''trash_empty'' reason (map tr_name targets @ tmps))
     else if \<not> fc_allow_hard_delete cfg then refuse ''trash_empty'' ''allow_hard_delete''
     else
       hbind (check_rate env cfg ''trash_empty'' sr) (\<lambda>_.
       hbind (purge_entries env roots reason rt targets [] 0 0) (\<lambda>(purged, freed_bytes, freed_files).
       hbind (sweep_orphan_tmp env roots sr rt) (\<lambda>swept.
       hbind (update_ledger env cfg roots sr (- freed_bytes) (- freed_files) None) (\<lambda>_.
       hret (Applied (purged @ swept))))))))))"

definition trash_restore :: "fs_env \<Rightarrow> fs_config \<Rightarrow> safe_root list \<Rightarrow> str \<Rightarrow> str \<Rightarrow> bool \<Rightarrow> bool \<Rightarrow> str option \<Rightarrow> fs_result io" where
  "trash_restore env cfg roots name reason confirm overwrite rt =
     hbind (pick_root env roots rt) (\<lambda>sr.
     hbind (list_entries env roots rt) (\<lambda>entries.
     hbind (hlift (find_entry entries name)) (\<lambda>te.
     hbind (executable cfg ''trash_restore'' reason confirm True) (\<lambda>go.
     if \<not> go then dryrun ''trash_restore'' reason [name, tr_original_path te]
     else
       hbind (check_rate env cfg ''trash_restore'' sr) (\<lambda>_.
       hbind draw_id (\<lambda>intent_id.
       hbind (audit (EvIntent ''trash_restore'' reason (tr_original_path te) intent_id)) (\<lambda>_.
       hbind (move env roots (TRASH_DIR @ ''/'' @ name) (tr_original_path te) rt overwrite) (\<lambda>(from_path, to_path).
       hbind (suppress_fs_error (hbind (unlink env roots (TRASH_DIR @ ''/'' @ name @ META_SUFFIX) rt (Some 0)) (\<lambda>_. hret ()))) (\<lambda>_.
       hbind (audit (EvApplied ''trash_restore'' reason to_path intent_id 0)) (\<lambda>_.
       hret (Applied [tr_original_path te])))))))))))"

definition quota_status :: "fs_env \<Rightarrow> fs_config \<Rightarrow> safe_root list \<Rightarrow> str option \<Rightarrow> bool \<Rightarrow> (quota_ledger \<times> nat) io" where
  "quota_status env cfg roots rt force =
     hbind (pick_root env roots rt) (\<lambda>sr.
     hbind read_clock (\<lambda>now.
     hbind (load_ledger env roots (Some (sr_requested sr))) (\<lambda>ledger.
     hbind (case (if force \<or> is_stale env ledger now (fc_quota_recompute_hours cfg) then None else ledger) of
         Some l \<Rightarrow> hret l
       | None \<Rightarrow> hbind (recompute env sr now (next_generation ledger)) (\<lambda>l.
           hbind (suppress_both (save_ledger env roots (Some (sr_requested sr)) l)) (\<lambda>_. hret l))) (\<lambda>l.
     hbind (list_entries env roots rt) (\<lambda>entries.
     hret (l, length entries))))))"

section \<open>A session\<close>

text \<open>The operations a caller may request, and \<open>with FsWriter(...) as w\<close> around one of them.\<close>

datatype request =
    RWrite str str str bool bool "str option"
  | RAppend str str str bool "str option"
  | RMkdir str str bool "str option"
  | RMove str str str bool bool "str option"
  | RDelete str str bool bool "str option"
  | RTrashEmpty str bool bool "str option"
  | RTrashRestore str str bool bool "str option"

fun run_request :: "fs_env \<Rightarrow> fs_config \<Rightarrow> patterns \<Rightarrow> safe_root list \<Rightarrow> request \<Rightarrow> fs_result io" where
  "run_request env cfg pats roots (RWrite target data reason confirm overwrite rt) =
     fs_write env cfg pats roots target data reason confirm overwrite rt"
| "run_request env cfg pats roots (RAppend target data reason confirm rt) =
     fs_append env cfg pats roots target data reason confirm rt"
| "run_request env cfg pats roots (RMkdir target reason confirm rt) = fs_mkdir env cfg roots target reason confirm rt"
| "run_request env cfg pats roots (RMove src dst reason confirm overwrite rt) =
     fs_move env cfg roots src dst reason confirm overwrite rt"
| "run_request env cfg pats roots (RDelete target reason confirm hard rt) =
     fs_delete env cfg roots target reason confirm hard rt"
| "run_request env cfg pats roots (RTrashEmpty reason confirm all_entries rt) =
     trash_empty env cfg roots reason confirm all_entries rt"
| "run_request env cfg pats roots (RTrashRestore name reason confirm overwrite rt) =
     trash_restore env cfg roots name reason confirm overwrite rt"

definition with_writer :: "fs_env \<Rightarrow> fs_config \<Rightarrow> (safe_root list \<Rightarrow> 'a io) \<Rightarrow> 'a io" where
  "with_writer env cfg body =
     hbind (open_roots env (fc_strict_roots cfg) (fc_allow_macos_volume_roots cfg) True [] (fc_writable_roots cfg)) (\<lambda>roots.
     hfinally (body roots) (close_roots roots))"

end
