(* ===== verification/Fs_Demo.thy ===== *)
theory Fs_Demo
  imports Fs_Writer
begin

text \<open>
  A small file system for the witnesses: \<open>/srv\<close> with a file and a symbolic link to \<open>/etc\<close>, and \<open>/etc\<close>
  with a file; a configuration with writes enabled.
\<close>

definition demo_store :: store where
  "demo_store = \<lparr>st_nodes = [0 \<mapsto> Dir 0 [(''srv'', 1), (''etc'', 4)], 1 \<mapsto> Dir 0 [(''a.txt'', 2), (''link'', 3)],
       2 \<mapsto> Reg ''old'', 3 \<mapsto> Link ''/etc'', 4 \<mapsto> Dir 0 [(''passwd'', 5)], 5 \<mapsto> Reg ''root''],
     st_mtime = (\<lambda>_. 0), st_dir_size = (\<lambda>_. 0), st_dataless = (\<lambda>_. False), st_next = 6, st_now = 0\<rparr>"

definition demo_world :: world where
  "demo_world = \<lparr>w_store = demo_store, w_script = [], w_cwd = (0, []), w_fds = 1, w_opened = [1], w_log = [],
     w_times = [100], w_rate = None, w_ids = 0\<rparr>"

definition demo_env :: fs_env where
  "demo_env = \<lparr>fe_darwin = False, fe_pid = ''7'', fe_expand = id, fe_sha256 = (\<lambda>_. ''0123456789''), fe_dumps = (\<lambda>_. ''{}''),
     fe_loads = (\<lambda>_. None), fe_str = (\<lambda>_. []), fe_iso = (\<lambda>_. ''t''), fe_parse_iso = (\<lambda>_. None), fe_stamp = (\<lambda>_. ''T''),
     fe_token = (\<lambda>_. ''x''), fe_decode = id,
     fe_db_faults = (\<lparr>del_fault = False, put_fault = False\<rparr>, \<lparr>del_fault = False, put_fault = False\<rparr>)\<rparr>"

definition demo_fs_config :: fs_config where
  "demo_fs_config = \<lparr>fc_allowed_roots = [''/srv''], fc_allowed_fs_ops = VALID_FS_OPS, fc_allow_unc_roots = False,
     fc_allow_macos_volume_roots = False, fc_max_file_bytes = 100, fc_largest_max_entries = 10, fc_follow_symlinks = False,
     fc_scan_content = True, fc_writes_enabled = True, fc_writable_roots = [''/srv''], fc_max_write_bytes = 100,
     fc_require_confirm_destructive = True, fc_strict_roots = True, fc_block_on_injection_flags = False,
     fc_allow_hard_delete = True, fc_trash_retention_days = 30, fc_quota_recompute_hours = 24, fc_write_rate_limit = [],
     fc_write_root_quotas = [], fc_index_enabled = False, fc_index_root = None, fc_index_extensions = [],
     fc_index_max_file_bytes = 1, fc_index_incremental = False, fc_enabled = True\<rparr>"

definition demo_roots :: "safe_root list" where
  "demo_roots = [\<lparr>sr_requested = ''/srv'', sr_path = ''/srv'', sr_normcase = ''/srv'', sr_dir = 1\<rparr>]"

definition demo_write :: request where
  "demo_write = RWrite ''b.txt'' ''new'' ''because'' False False None"

lemma demo_write_entry:
  "entry (w_store (snd (run_request demo_env demo_fs_config [] demo_roots demo_write demo_world))) 1 ''b.txt'' = Some 6"
  by code_simp

lemma demo_write_result:
  "fst (run_request demo_env demo_fs_config [] demo_roots demo_write demo_world) = Inr (Applied [''/srv/b.txt''])"
  by code_simp

end
