(* ===== verification/Effect_Contract.thy ===== *)
theory Effect_Contract
  imports Effect
begin

text \<open>
  Contracts of actions with results. Under an invariant \<open>I\<close> of the state, an action keeps the
  invariant, relates the states before and after by \<open>R\<close> whether it returns or raises, and what it
  returns satisfies \<open>Q\<close>. The locale \<open>contract\<close> is the interface of such a pair of invariant and relation:
  its rules reduce a program to its primitive statements. The filesystem connector interprets it
  for containment and for its audit trail.
\<close>

definition ensures :: "('s \<Rightarrow> bool) \<Rightarrow> ('s \<Rightarrow> 's \<Rightarrow> bool) \<Rightarrow> ('e, 's, 'a) action \<Rightarrow> ('a \<Rightarrow> bool) \<Rightarrow> bool" where
  "ensures I R f Q \<longleftrightarrow> (\<forall>s r t. I s \<longrightarrow> f s = (r, t) \<longrightarrow> I t \<and> R s t \<and> (\<forall>x. r = Inr x \<longrightarrow> Q x))"

lemma ensuresI:
  assumes "\<And>s r t. I s \<Longrightarrow> f s = (r, t) \<Longrightarrow> I t \<and> R s t \<and> (\<forall>x. r = Inr x \<longrightarrow> Q x)"
  shows "ensures I R f Q"
  using assms by (auto simp: ensures_def)

lemma ensuresD:
  assumes "ensures I R f Q" and "I s" and "f s = (r, t)"
  shows "I t" and "R s t" and "r = Inr x \<Longrightarrow> Q x"
  using assms by (auto simp: ensures_def)

lemma ensures_weaken: "ensures I R f Q \<Longrightarrow> (\<And>x. Q x \<Longrightarrow> Q' x) \<Longrightarrow> ensures I R f Q'"
  by (auto simp: ensures_def)

lemma ensures_any: "ensures I R f Q \<Longrightarrow> ensures I R f (\<lambda>_. True)"
  by (auto simp: ensures_def)

locale contract =
  fixes I :: "'s \<Rightarrow> bool" and R :: "'s \<Rightarrow> 's \<Rightarrow> bool"
  assumes contract_refl: "I s \<Longrightarrow> R s s"
    and contract_trans: "I s \<Longrightarrow> R s t \<Longrightarrow> I t \<Longrightarrow> R t u \<Longrightarrow> R s u"
begin

lemma ensures_ret_any: "ensures I R (hret x) (\<lambda>_. True)"
  and ensures_raise: "ensures I R (hraise e) Q"
  and ensures_get: "ensures I R (hget g) (\<lambda>_. True)"
  and ensures_ensure: "ensures I R (hensure b e) (\<lambda>_. b)"
  by (auto simp: ensures_def handler_simps contract_refl split: if_splits)

lemma ensures_ret: "Q x \<Longrightarrow> ensures I R (hret x) Q"
  and ensures_lift: "(\<And>x. r = Inr x \<Longrightarrow> Q x) \<Longrightarrow> ensures I R (hlift r) Q"
  by (auto simp: ensures_def handler_simps contract_refl)

lemma ensures_modify: "(\<And>s. I s \<Longrightarrow> I (f s) \<and> R s (f s)) \<Longrightarrow> ensures I R (hmodify f) (\<lambda>_. True)"
  by (auto simp: ensures_def handler_simps)

lemma ensures_bind:
  assumes "ensures I R f Q" and "\<And>x. Q x \<Longrightarrow> ensures I R (g x) Q'"
  shows "ensures I R (hbind f g) Q'"
proof (rule ensuresI)
  fix s r t assume I: "I s" and "hbind f g s = (r, t)"
  from this(2) show "I t \<and> R s t \<and> (\<forall>x. r = Inr x \<longrightarrow> Q' x)"
  proof (cases rule: hbind_cases)
    case (raises e)
    then show ?thesis using ensuresD [OF assms(1) I raises(1)] by simp
  next
    case (returns x u)
    note f = ensuresD [OF assms(1) I returns(1)]
    note g = ensuresD [OF assms(2) f(1) returns(2), OF f(3) [OF refl]]
    show ?thesis using g contract_trans [OF I f(2) f(1)] by blast
  qed
qed

lemma ensures_seq: "ensures I R f (\<lambda>_. True) \<Longrightarrow> (\<And>x. ensures I R (g x) Q) \<Longrightarrow> ensures I R (hbind f g) Q"
  by (rule ensures_bind)

lemma ensures_check: "ensures I R (hensure b e) (\<lambda>_. True)"
  by (rule ensures_any [OF ensures_ensure])

lemma ensures_catch:
  assumes "ensures I R f Q" and "\<And>e. ensures I R (h e) Q"
  shows "ensures I R (hcatch f h) Q"
proof (rule ensuresI)
  fix s r t assume I: "I s" and c: "hcatch f h s = (r, t)"
  obtain r1 u where f: "f s = (r1, u)" by force
  note fu = ensuresD [OF assms(1) I f]
  show "I t \<and> R s t \<and> (\<forall>x. r = Inr x \<longrightarrow> Q x)"
  proof (cases r1)
    case (Inl e)
    then have "h e u = (r, t)" using c f by (simp add: hcatch_def)
    note hu = ensuresD [OF assms(2) fu(1) this]
    show ?thesis using hu contract_trans [OF I fu(2) fu(1)] by blast
  next
    case (Inr x)
    then show ?thesis using c f fu by (simp add: hcatch_def)
  qed
qed

lemma ensures_finally:
  assumes "ensures I R f Q" and "ensures I R c (\<lambda>_. True)"
  shows "ensures I R (hfinally f c) Q"
proof (rule ensuresI)
  fix s r t assume I: "I s" and c: "hfinally f c s = (r, t)"
  obtain r1 u where f: "f s = (r1, u)" by force
  obtain r2 v where c2: "c u = (r2, v)" by force
  note fu = ensuresD [OF assms(1) I f]
  note cu = ensuresD [OF assms(2) fu(1) c2]
  show "I t \<and> R s t \<and> (\<forall>x. r = Inr x \<longrightarrow> Q x)"
    using c f c2 fu cu contract_trans [OF I fu(2) fu(1)] by (cases r2) (auto simp: hfinally_def)
qed

lemmas ensures_basic = ensures_ret_any ensures_raise ensures_get ensures_check
lemmas ensures_rules = ensures_seq ensures_catch ensures_finally

end

end
