(* ===== verification/Fs_Confine.thy ===== *)
theory Fs_Confine
  imports Fs_Pathsafe Effect_Contract
begin

text \<open>
  Containment of the path-validation core. A set \<open>P\<close> of inodes is protected: no directory outside of \<open>P\<close>
  has an entry in \<open>P\<close>, and the other processes keep it so and leave the nodes of \<open>P\<close> alone. They may do
  anything else between two system calls of an operation: create, remove, rename, replace a
  directory on the way by a symbolic link to any place. Then an operation that starts from
  roots outside of \<open>P\<close> changes no node of \<open>P\<close> and opens none.
\<close>

section \<open>The contract of containment\<close>

definition fair :: "ino set \<Rightarrow> world \<Rightarrow> bool" where
  "fair P s \<longleftrightarrow> apart P (w_store s) \<and> (\<forall>e \<in> set (w_script s). \<forall>st. spares P st (fst e st))"

definition confined :: "ino set \<Rightarrow> world \<Rightarrow> world \<Rightarrow> bool" where
  "confined P s t \<longleftrightarrow> same_on P (w_store s) (w_store t) \<and> (\<forall>i \<in> set (w_opened t). i \<in> P \<longrightarrow> i \<in> set (w_opened s))"

interpretation conf: contract "fair P" "confined P" for P
  by unfold_locales (auto simp: confined_def same_on_def)

abbreviation contains :: "ino set \<Rightarrow> 'a io \<Rightarrow> ('a \<Rightarrow> bool) \<Rightarrow> bool" where
  "contains P \<equiv> ensures (fair P) (confined P)"

lemmas contains_rules = conf.ensures_rules
lemmas contains_basic = conf.ensures_basic
lemmas contains_bind = conf.ensures_bind
lemmas contains_lift = conf.ensures_lift
lemmas contains_ret = conf.ensures_ret

text \<open>A change of the rest of the state.\<close>

lemma contains_modify:
  assumes "\<And>s. w_store (f s) = w_store s" "\<And>s. w_script (f s) = w_script s" "\<And>s. w_opened (f s) = w_opened s"
  shows "contains P (hmodify f) (\<lambda>_. True)"
  by (rule conf.ensures_modify) (auto simp: fair_def confined_def same_on_def assms)

lemma interference_fair:
  assumes "fair P s" and "interference s = (fault, s')"
  shows "fair P s'" and "same_on P (w_store s) (w_store s')" and "w_opened s' = w_opened s"
proof -
  have "fair P s' \<and> same_on P (w_store s) (w_store s') \<and> w_opened s' = w_opened s"
  proof (cases "w_script s")
    case Nil
    then show ?thesis using assms by (auto simp: interference_def same_on_def)
  next
    case (Cons e rest)
    then have s': "s' = s\<lparr>w_store := fst e (w_store s), w_script := rest\<rparr>"
      using assms(2) by (auto simp: interference_def split: prod.splits)
    have "spares P (w_store s) (fst e (w_store s))" using assms(1) Cons by (simp add: fair_def)
    then show ?thesis using assms(1) Cons by (simp add: s' fair_def spares_def)
  qed
  then show "fair P s'" and "same_on P (w_store s) (w_store s')" and "w_opened s' = w_opened s" by auto
qed

lemma fair_store: "fair P s \<Longrightarrow> spares P (w_store s) st \<Longrightarrow> fair P (s\<lparr>w_store := st\<rparr>)"
  by (auto simp: fair_def spares_def)

lemma same_on_spares: "fair P s \<Longrightarrow> spares P (w_store s) st \<Longrightarrow> same_on P (w_store s) st"
  by (auto simp: fair_def spares_def)

lemma same_on_trans: "same_on P a b \<Longrightarrow> same_on P b c \<Longrightarrow> same_on P a c"
  by (simp add: same_on_def)

lemma contains_syscall:
  assumes "\<And>st x st'. apart P st \<Longrightarrow> f st = Inr (x, st') \<Longrightarrow> spares P st st' \<and> Q x"
  shows "contains P (syscall f) Q"
proof (rule ensuresI)
  fix s r t assume I: "fair P s" and r: "syscall f s = (r, t)"
  obtain fault s' where i: "interference s = (fault, s')" by force
  note s' = interference_fair [OF I i]
  have ap: "apart P (w_store s')" using s'(1) by (simp add: fair_def)
  show "fair P t \<and> confined P s t \<and> (\<forall>x. r = Inr x \<longrightarrow> Q x)"
  proof (cases "fault = None \<and> (\<exists>x st. f (w_store s') = Inr (x, st))")
    case True
    then obtain x st where f: "f (w_store s') = Inr (x, st)" by blast
    note fx = assms [OF ap f]
    have t: "r = Inr x" "t = s'\<lparr>w_store := st\<rparr>" using r True i f by (auto simp: syscall_def)
    show ?thesis
      using t fx s' fair_store [OF s'(1)] same_on_trans [OF s'(2) same_on_spares [OF s'(1)]]
      by (auto simp: confined_def)
  next
    case False
    then have "t = s' \<and> (\<exists>e. r = Inl e)"
      using r i by (auto simp: syscall_def split: option.splits sum.splits)
    then show ?thesis using s' by (auto simp: confined_def)
  qed
qed

lemma contains_query: "contains P (query_call f) (\<lambda>_. True)"
  unfolding query_call_def by (rule contains_syscall) (auto simp: map_sum_Inr_cases)

lemma contains_change: "(\<And>st st'. f st = Inr st' \<Longrightarrow> spares P st st') \<Longrightarrow> contains P (change_call f) (\<lambda>_. True)"
  unfolding change_call_def by (rule contains_syscall) (auto simp: map_sum_Inr_cases)

lemma contains_write: "i \<notin> P \<Longrightarrow> contains P (os_write i data) (\<lambda>_. True)"
proof (rule ensuresI)
  fix s r t assume i: "i \<notin> P" and I: "fair P s" and r: "os_write i data s = (r, t)"
  obtain fault s' where s: "interference s = (fault, s')" by force
  note s' = interference_fair [OF I s]
  obtain d where t: "t = s'\<lparr>w_store := write_node i d (w_store s')\<rparr>"
    using r s by (auto simp: os_write_def split: option.splits)
  note w = write_node_spares [OF i, of "w_store s'" d]
  show "fair P t \<and> confined P s t \<and> (\<forall>x. r = Inr x \<longrightarrow> True)"
    using t s' fair_store [OF s'(1) w] same_on_trans [OF s'(2) same_on_spares [OF s'(1) w]]
    by (simp add: confined_def)
qed

lemma contains_open:
  assumes "plain c" and "o_nofollow fl" and "d \<notin> P"
  shows "contains P (os_open fl (d, names) c) (\<lambda>i. i \<notin> P)"
proof -
  have 1: "contains P (syscall (\<lambda>st. openat st fl (d, names) c)) (\<lambda>i. i \<notin> P)"
    by (rule contains_syscall) (use openat_spares [OF assms] in blast)
  have 2: "contains P (hmodify (\<lambda>s. s\<lparr>w_fds := w_fds s + 1, w_opened := w_opened s @ [i]\<rparr>)) (\<lambda>_. True)"
    if "i \<notin> P" for i
      by (rule conf.ensures_modify) (use that in \<open>auto simp: fair_def confined_def same_on_def\<close>)
  show ?thesis
    unfolding os_open_def by (rule contains_bind [OF 1 contains_bind [OF 2]]) (auto intro: contains_ret)
qed

lemma contains_close: "contains P os_close (\<lambda>_. True)"
  and contains_audit: "contains P (audit e) (\<lambda>_. True)"
  unfolding os_close_def audit_def by (rule contains_modify; simp)+

lemma contains_keeps_result:
  assumes "\<And>s r t. f s = (r, t) \<Longrightarrow> w_store t = w_store s \<and> w_script t = w_script s \<and> w_opened t = w_opened s"
  shows "contains P f (\<lambda>_. True)"
proof (rule ensuresI)
  fix s r t assume "fair P s" and "f s = (r, t)"
  then show "fair P t \<and> confined P s t \<and> (\<forall>x. r = Inr x \<longrightarrow> True)"
    using assms [of s r t] by (simp add: fair_def confined_def same_on_def)
qed

lemma contains_clock: "contains P read_clock (\<lambda>_. True)"
  and contains_id: "contains P draw_id (\<lambda>_. True)"
  by (rule contains_keeps_result; auto simp: read_clock_def draw_id_def split: list.splits)+

lemma contains_on_oserror:
  "contains P f Q \<Longrightarrow> (\<And>n. contains P (h n) Q) \<Longrightarrow> contains P (on_oserror f h) Q"
  unfolding on_oserror_def
  by (rule conf.ensures_catch) (auto split: fs_exc.split intro: conf.ensures_raise)

lemma contains_macos: "contains P (raise_macos_permission env n) (\<lambda>_. True)"
  unfolding raise_macos_permission_def by (auto intro: contains_basic)

lemma contains_errors:
  "contains P f Q \<Longrightarrow> contains P (as_path_error env f) Q"
  "contains P f Q \<Longrightarrow> contains P (as_plain_path_error f) Q"
  "contains P f Q \<Longrightarrow> contains P (as_runtime_error f) Q"
  "contains P g (\<lambda>_. True) \<Longrightarrow> contains P (suppress_oserror g) (\<lambda>_. True)"
  unfolding as_path_error_def as_plain_path_error_def as_runtime_error_def suppress_oserror_def
  by (rule contains_on_oserror; auto intro!: contains_basic contains_bind [OF contains_macos])+

lemma contains_if: "contains P f Q \<Longrightarrow> contains P g Q \<Longrightarrow> contains P (if b then f else g) Q"
  by simp

lemmas contains_calls = contains_query contains_close contains_audit contains_clock contains_id contains_macos

lemmas contains_struct = contains_errors contains_on_oserror contains_calls contains_basic contains_rules contains_if

section \<open>Names and roots\<close>

lemma check_components_plain:
  "check_components raws = Inr comps \<Longrightarrow> \<forall>raw \<in> set raws. CHR ''/'' \<notin> set raw \<Longrightarrow> list_all plain comps"
  by (induction raws arbitrary: comps) (auto simp: plain_def ebind_Inr_iff split: if_splits)

lemma split_components_plain: "split_components target = Inr comps \<Longrightarrow> list_all plain comps"
  unfolding split_components_def
  using check_components_plain [of "split_by is_sep target"] split_by_free [of _ is_sep target "CHR ''/''"]
  by (auto simp: is_sep_def split: if_splits)

lemma contains_split: "contains P (hlift (split_components target)) (list_all plain)"
  by (rule contains_lift) (rule split_components_plain)

lemma contains_stat: "contains P (os_stat p) (\<lambda>_. True)"
proof (rule ensuresI)
  fix s r t assume "fair P s" and "os_stat p s = (r, t)"
  then show "fair P t \<and> confined P s t \<and> (\<forall>x. r = Inr x \<longrightarrow> True)"
    using ensuresD [OF contains_query] unfolding os_stat_def by blast
qed

lemma contains_find_root: "contains P (find_root a expanded rs) (\<lambda>r. r \<in> set rs)"
proof (induction rs)
  case (Cons r rs)
  have "contains P (or_else (hret (sr_requested r = a \<or> sr_normcase r = expanded)) (is_same_entity expanded (sr_path r))) (\<lambda>_. True)"
    unfolding or_else_def is_same_entity_def by (intro contains_struct contains_stat)
  then show ?case
    unfolding find_root.simps
    by (rule contains_bind) (use Cons.IH in \<open>auto intro: contains_ret elim: ensures_weaken\<close>)
qed (simp add: contains_basic)

lemma contains_pick: "contains P (pick_root env roots rt) (\<lambda>r. r \<in> set roots)"
  unfolding pick_root_def using contains_find_root [of P _ _ roots]
  by (auto intro: contains_basic contains_ret split: list.split option.split)

lemma contains_descend:
  "d \<notin> P \<Longrightarrow> list_all plain comps \<Longrightarrow> (\<And>d leaf. d \<notin> P \<Longrightarrow> plain leaf \<Longrightarrow> contains P (body d leaf) Q) \<Longrightarrow>
   contains P (descend env d comps body) Q"
proof (induction env d comps body rule: descend.induct)
  case (3 env d comp c cs body)
  show ?case
    unfolding descend.simps
  proof (rule contains_bind)
    show "contains P (as_path_error env (os_open (RDONLY\<lparr>o_nofollow := True, o_directory := True\<rparr>) (d, []) comp)) (\<lambda>i. i \<notin> P)"
      using 3 by (intro contains_errors contains_open) auto
  qed (use 3 in \<open>auto intro: contains_rules contains_close\<close>)
qed (auto intro: contains_basic)

section \<open>The operations\<close>

text \<open>
  An operation validates its target, picks a root and descends: it is contained if its body is,
  for every unprotected directory and plain name.
\<close>

definition outside :: "ino set \<Rightarrow> safe_root list \<Rightarrow> bool" where
  "outside P roots \<longleftrightarrow> (\<forall>r \<in> set roots. sr_dir r \<notin> P)"

lemma contains_pick_outside: "outside P roots \<Longrightarrow> contains P (pick_root env roots rt) (\<lambda>r. sr_dir r \<notin> P)"
  by (rule ensures_weaken [OF contains_pick]) (auto simp: outside_def)

lemma contains_stat_at: "contains P (stat_at d leaf) (\<lambda>_. True)"
  and contains_stat_fd: "contains P (stat_fd i) (\<lambda>_. True)"
  and contains_read: "contains P (os_read i n) (\<lambda>_. True)"
  and contains_fsync: "contains P os_fsync (\<lambda>_. True)"
  unfolding stat_at_def stat_fd_def os_read_def os_fsync_def by (rule contains_query)+

lemmas contains_stats = contains_stat contains_stat_at contains_stat_fd contains_read contains_fsync

lemma contains_read_fd: "contains P (read_fd env i n skip) (\<lambda>_. True)"
  unfolding read_fd_def by (intro contains_struct contains_stats)

lemma contains_read_bytes:
  assumes "outside P roots"
  shows "contains P (read_bytes env roots target rt n skip) (\<lambda>_. True)"
  unfolding read_bytes_def
proof (intro contains_bind [OF contains_split] contains_bind [OF contains_pick_outside [OF assms]] contains_rules(1)
    contains_descend)
  fix d leaf assume "d \<notin> P" and "plain leaf"
  then show "contains P (as_path_error env (os_open (RDONLY\<lparr>o_nofollow := True\<rparr>) (d, []) leaf)) (\<lambda>_. True)"
    by (intro contains_errors ensures_any [OF contains_open]) auto
qed (auto intro!: contains_struct contains_stats contains_read_fd)

lemma contains_stat_op:
  assumes "outside P roots"
  shows "contains P (stat_op env roots target rt) (\<lambda>_. True)"
  unfolding stat_op_def
  by (intro contains_bind [OF contains_split] contains_bind [OF contains_pick_outside [OF assms]] contains_if
      contains_descend contains_struct contains_stats)

lemma contains_collect: "contains P (collect_entries env d skip names acc skipped) (\<lambda>_. True)"
proof (induction env d skip names acc skipped rule: collect_entries.induct)
  case (2 env d skip name names acc skipped)
  then show ?case
    by (auto intro!: contains_struct contains_stats split: option.split)
qed (auto intro: contains_basic)

lemma contains_listdir_fd: "contains P (listdir_fd env d skip) (\<lambda>_. True)"
  unfolding listdir_fd_def report_skipped_entries_def
  by (auto intro!: contains_struct contains_collect split: prod.split)

lemma contains_list_dir:
  assumes "outside P roots"
  shows "contains P (list_dir env roots target rt skip) (\<lambda>_. True)"
  unfolding list_dir_def
proof (intro contains_bind [OF contains_split] contains_bind [OF contains_pick_outside [OF assms]] contains_if
    contains_descend contains_listdir_fd contains_rules(1))
  fix d leaf assume "d \<notin> P" and "plain leaf"
  then show "contains P (as_path_error env (os_open (RDONLY\<lparr>o_nofollow := True, o_directory := True\<rparr>) (d, []) leaf)) (\<lambda>_. True)"
    by (intro contains_errors ensures_any [OF contains_open]) auto
qed (auto intro!: contains_struct contains_listdir_fd)

text \<open>The changes of one entry.\<close>

lemma plain_tmp: "plain leaf \<Longrightarrow> CHR ''/'' \<notin> set (fe_pid env) \<Longrightarrow> plain (tmp_name env leaf)"
  by (auto simp: plain_def tmp_name_def TMP_SUFFIX_def)

lemma contains_guard: "contains P (guard_clobber_posix d leaf overwrite) (\<lambda>_. True)"
  unfolding guard_clobber_posix_def by (intro contains_struct contains_stats)

lemma contains_fsync_dir: "contains P fsync_dir (\<lambda>_. True)"
  unfolding fsync_dir_def by (intro contains_struct contains_stats)

lemma contains_rename: "plain a \<Longrightarrow> plain b \<Longrightarrow> d1 \<notin> P \<Longrightarrow> d2 \<notin> P \<Longrightarrow>
    contains P (change_call (\<lambda>st. renameat st d1 a d2 b)) (\<lambda>_. True)"
  and contains_unlinkat: "plain a \<Longrightarrow> d1 \<notin> P \<Longrightarrow> contains P (change_call (\<lambda>st. unlinkat st d1 a)) (\<lambda>_. True)"
  and contains_rmdirat: "plain a \<Longrightarrow> d1 \<notin> P \<Longrightarrow> contains P (change_call (\<lambda>st. rmdirat st d1 a)) (\<lambda>_. True)"
  and contains_mkdirat: "plain a \<Longrightarrow> d1 \<notin> P \<Longrightarrow> contains P (change_call (\<lambda>st. mkdirat st d1 a)) (\<lambda>_. True)"
  by (rule contains_change; blast intro: renameat_spares unlinkat_spares rmdirat_spares mkdirat_spares)+

lemmas contains_changes = contains_rename contains_unlinkat contains_rmdirat contains_mkdirat contains_guard
  contains_fsync_dir contains_write

lemma contains_atomic_write:
  assumes d: "d \<notin> P" and leaf: "plain leaf" and pid: "CHR ''/'' \<notin> set (fe_pid env)"
  shows "contains P (atomic_write_posix env d leaf data) (\<lambda>_. True)"
proof -
  note tmp = plain_tmp [OF leaf pid]
  have "contains P (as_runtime_error (os_open (RDONLY\<lparr>o_write := True, o_creat := True, o_excl := True, o_nofollow := True\<rparr>)
      (d, []) (tmp_name env leaf))) (\<lambda>i. i \<notin> P)"
    by (intro contains_errors contains_open tmp d) simp
  then show ?thesis
    unfolding atomic_write_posix_def Let_def
    by (rule contains_bind) (auto intro!: contains_struct contains_stats contains_changes tmp d leaf split: fs_exc.split)
qed

lemma contains_write_bytes:
  assumes "outside P roots" and "CHR ''/'' \<notin> set (fe_pid env)"
  shows "contains P (write_bytes env roots target data rt overwrite) (\<lambda>_. True)"
  unfolding write_bytes_def
  by (intro contains_bind [OF contains_split] contains_rules(1) contains_basic(4)
      contains_bind [OF contains_pick_outside [OF assms(1)]] contains_descend contains_struct
      contains_atomic_write contains_changes assms(2))

lemma contains_append_bytes:
  assumes "outside P roots"
  shows "contains P (append_bytes env roots target data rt) (\<lambda>_. True)"
  unfolding append_bytes_def
proof (intro contains_bind [OF contains_split] contains_rules(1) [OF contains_basic(4)]
    contains_bind [OF contains_pick_outside [OF assms]] contains_bind [OF contains_descend, where Q' = "\<lambda>_. True"] contains_basic)
  fix d leaf assume "d \<notin> P" and "plain leaf"
  then have "contains P (as_plain_path_error (os_open (RDONLY\<lparr>o_write := True, o_creat := True, o_nofollow := True\<rparr>) (d, []) leaf))
      (\<lambda>i. i \<notin> P)"
    by (intro contains_errors contains_open) auto
  then show "contains P (hbind (as_plain_path_error (os_open (RDONLY\<lparr>o_write := True, o_creat := True, o_nofollow := True\<rparr>) (d, []) leaf))
      (\<lambda>fd. hfinally (os_write fd data) os_close)) (\<lambda>_. True)"
    by (rule contains_bind) (intro contains_struct contains_changes)
qed

lemma contains_mkdir:
  assumes "outside P roots"
  shows "contains P (mkdir env roots target rt) (\<lambda>_. True)"
  unfolding mkdir_def
  by (intro contains_bind [OF contains_split] contains_rules(1) contains_basic(4)
      contains_bind [OF contains_pick_outside [OF assms]] contains_descend contains_struct contains_changes)

lemma contains_move:
  assumes "outside P roots"
  shows "contains P (move env roots src dst rt overwrite) (\<lambda>_. True)"
  unfolding move_def
  by (intro contains_bind [OF contains_split] contains_rules(1) contains_basic(4)
      contains_bind [OF contains_pick_outside [OF assms]] contains_descend contains_struct contains_changes)

lemma contains_sha_leaf:
  assumes "d \<notin> P" and "plain leaf"
  shows "contains P (sha_leaf_posix env d leaf info m) (\<lambda>_. True)"
proof -
  have "contains P (os_open (RDONLY\<lparr>o_nofollow := True\<rparr>) (d, []) leaf) (\<lambda>_. True)"
    using assms by (intro ensures_any [OF contains_open]) auto
  then show ?thesis
    unfolding sha_leaf_posix_def by (auto intro!: contains_struct split: option.split)
qed

lemma contains_unlink:
  assumes "outside P roots"
  shows "contains P (unlink env roots target rt m) (\<lambda>_. True)"
  unfolding unlink_def split_def
  by (intro contains_bind [OF contains_split] contains_rules(1) contains_basic(4)
      contains_bind [OF contains_pick_outside [OF assms]] contains_descend contains_sha_leaf contains_struct
      contains_stats contains_changes)

lemma contains_rmdir:
  assumes "outside P roots"
  shows "contains P (rmdir env roots target rt) (\<lambda>_. True)"
  unfolding rmdir_def
  by (intro contains_bind [OF contains_split] contains_rules(1) contains_basic(4)
      contains_bind [OF contains_pick_outside [OF assms]] contains_descend contains_struct contains_stats contains_changes)

lemmas contains_ops = contains_read_bytes contains_stat_op contains_list_dir contains_write_bytes contains_append_bytes
  contains_mkdir contains_move contains_unlink contains_rmdir

end
