(* ===== verification/Fs_Writer_Claims.thy ===== *)
theory Fs_Writer_Claims
  imports Fs_Demo Fs_Confine
begin

text \<open>
  What the filesystem connector guarantees of its write operations: they stay inside their roots
  whatever other processes do meanwhile, nothing changes before every gate was passed and the
  intent recorded, and no file descriptor is left open.
\<close>

section \<open>Containment of the write operations\<close>

lemma contains_suppress:
  "contains P f (\<lambda>_. True) \<Longrightarrow> contains P (suppress_both f) (\<lambda>_. True)"
  "contains P f (\<lambda>_. True) \<Longrightarrow> contains P (suppress_fs_error f) (\<lambda>_. True)"
  unfolding suppress_both_def suppress_fs_error_def
  by (auto intro!: contains_struct split: fs_exc.split)

lemma contains_refuse: "contains P (refuse op gate) Q"
  unfolding refuse_def by (intro contains_struct)

lemma contains_gates:
  "contains P (executable cfg op reason confirm destructive) (\<lambda>_. True)"
  "contains P (reserve_check op comps) (\<lambda>_. True)"
  "contains P (enforce_payload_cap cfg data) (\<lambda>_. True)"
  "contains P (check_injection cfg op flags) (\<lambda>_. True)"
  "contains P (dryrun op reason extra) (\<lambda>_. True)"
  unfolding executable_def reserve_check_def enforce_payload_cap_def check_injection_def dryrun_def
  by (intro contains_struct contains_refuse)+

lemma contains_query_cwd: "contains P (\<lambda>s. query_call (F s) s) (\<lambda>_. True)"
proof (rule ensuresI)
  fix s r t assume "fair P s" and "query_call (F s) s = (r, t)"
  then show "fair P t \<and> confined P s t \<and> (\<forall>x. r = Inr x \<longrightarrow> True)"
    using ensuresD [OF contains_query] by blast
qed

lemma contains_lift_any: "contains P (hlift r) (\<lambda>_. True)"
  by (rule contains_lift) simp

lemma contains_check_rate: "contains P (check_rate env cfg op sr) (\<lambda>_. True)"
  unfolding check_rate_def Let_def
  by (auto intro!: contains_struct contains_refuse contains_lift_any contains_modify split: prod.split)

text \<open>The operations on roots outside of the protected set.\<close>

definition scoped :: "ino set \<Rightarrow> fs_env \<Rightarrow> safe_root list \<Rightarrow> bool" where
  "scoped P env roots \<longleftrightarrow> outside P roots \<and> CHR ''/'' \<notin> set (fe_pid env)"

lemma scoped_ops:
  assumes "scoped P env roots"
  shows "contains P (read_bytes env roots target rt n skip) (\<lambda>_. True)"
    and "contains P (stat_op env roots target rt) (\<lambda>_. True)"
    and "contains P (list_dir env roots target rt skip) (\<lambda>_. True)"
    and "contains P (write_bytes env roots target data rt overwrite) (\<lambda>_. True)"
    and "contains P (append_bytes env roots target data rt) (\<lambda>_. True)"
    and "contains P (mkdir env roots target rt) (\<lambda>_. True)"
    and "contains P (move env roots target dst rt overwrite) (\<lambda>_. True)"
    and "contains P (unlink env roots target rt m) (\<lambda>_. True)"
    and "contains P (rmdir env roots target rt) (\<lambda>_. True)"
proof -
  have out: "outside P roots" and pid: "CHR ''/'' \<notin> set (fe_pid env)" using assms by (auto simp: scoped_def)
  show "contains P (read_bytes env roots target rt n skip) (\<lambda>_. True)"
    and "contains P (stat_op env roots target rt) (\<lambda>_. True)"
    and "contains P (list_dir env roots target rt skip) (\<lambda>_. True)"
    and "contains P (write_bytes env roots target data rt overwrite) (\<lambda>_. True)"
    and "contains P (append_bytes env roots target data rt) (\<lambda>_. True)"
    and "contains P (mkdir env roots target rt) (\<lambda>_. True)"
    and "contains P (move env roots target dst rt overwrite) (\<lambda>_. True)"
    and "contains P (unlink env roots target rt m) (\<lambda>_. True)"
    and "contains P (rmdir env roots target rt) (\<lambda>_. True)"
    by (rule contains_ops; rule out pid)+
qed

lemma contains_ledger:
  "scoped P env roots \<Longrightarrow> contains P (load_ledger env roots rt) (\<lambda>_. True)"
  "scoped P env roots \<Longrightarrow> contains P (save_ledger env roots rt l) (\<lambda>_. True)"
  unfolding load_ledger_def save_ledger_def by (intro contains_struct scoped_ops; assumption)+

lemma contains_recompute: "contains P (recompute env sr now gen) (\<lambda>_. True)"
  unfolding recompute_def walk_usage_def split_def by (intro contains_struct contains_query_cwd)

lemmas contains_quota_parts = contains_ledger contains_recompute contains_suppress contains_refuse

lemma contains_quota:
  assumes "scoped P env roots"
  shows "contains P (check_quota env cfg roots op sr db df) (\<lambda>_. True)"
    and "contains P (update_ledger env cfg roots sr db df given) (\<lambda>_. True)"
  unfolding check_quota_def update_ledger_def quota_ledger_of_def
  using assms by (auto intro!: contains_struct contains_quota_parts split: option.split)

lemma contains_pick_any: "contains P (pick_root env roots rt) (\<lambda>_. True)"
  by (rule ensures_any [OF contains_pick])

lemma contains_pre_size: "scoped P env roots \<Longrightarrow> contains P (pre_size env roots target rt) (\<lambda>_. True)"
  unfolding pre_size_def by (auto intro!: contains_struct scoped_ops)

lemmas contains_parts = contains_gates contains_refuse contains_check_rate contains_quota contains_pre_size contains_pick_any
  contains_lift_any scoped_ops contains_suppress

lemma contains_simple_ops:
  assumes "scoped P env roots"
  shows "contains P (fs_write env cfg pats roots target data reason confirm overwrite rt) (\<lambda>_. True)"
    and "contains P (fs_append env cfg pats roots target data reason confirm rt) (\<lambda>_. True)"
    and "contains P (fs_mkdir env cfg roots target reason confirm rt) (\<lambda>_. True)"
    and "contains P (fs_move env cfg roots target dst reason confirm overwrite rt) (\<lambda>_. True)"
  unfolding fs_write_def fs_append_def fs_mkdir_def fs_move_def Let_def split_def
  by (intro contains_struct contains_parts assms)+

lemma contains_trash_parts:
  assumes "scoped P env roots"
  shows "contains P (entry_name env target now) (\<lambda>_. True)"
    and "contains P (purge env cfg roots target kind rt) (\<lambda>_. True)"
    and "contains P (ensure_trash env roots rt) (\<lambda>_. True)"
    and "contains P (content_sha env cfg roots target kind sz rt) (\<lambda>_. True)"
    and "contains P (to_trash env cfg roots target kind sz reason now rt) (\<lambda>_. True)"
  unfolding to_trash_def purge_def ensure_trash_def content_sha_def make_entry_def entry_name_def Let_def split_def
  using assms by (auto intro!: contains_struct contains_parts split: fs_exc.split)

lemma contains_delete:
  assumes "scoped P env roots"
  shows "contains P (fs_delete env cfg roots target reason confirm hard rt) (\<lambda>_. True)"
  unfolding fs_delete_def Let_def split_def
  using assms by (auto intro!: contains_struct contains_parts contains_trash_parts split: option.split)

lemma contains_foreach: "(\<And>x. contains P (f x) (\<lambda>_. True)) \<Longrightarrow> contains P (hforeach f xs) (\<lambda>_. True)"
  unfolding hforeach_def by (induction xs) (auto intro!: contains_struct)

lemma contains_purge_tree:
  "scoped P env roots \<Longrightarrow> contains P (purge_tree n env roots rt rel) (\<lambda>_. True)"
proof (induction n arbitrary: rel)
  case (Suc n)
  then show ?case
    by (auto intro!: contains_struct contains_parts contains_foreach split: option.split)
qed (simp add: contains_basic)

lemma contains_sidecars:
  "scoped P env roots \<Longrightarrow> contains P (read_sidecars env roots rt names acc) (\<lambda>_. True)"
  by (induction env roots rt names acc rule: read_sidecars.induct) (auto intro!: contains_struct scoped_ops)

lemma contains_list_entries:
  "scoped P env roots \<Longrightarrow> contains P (list_entries env roots rt) (\<lambda>_. True)"
  unfolding list_entries_def by (auto intro!: contains_struct scoped_ops contains_sidecars split: option.split)

lemma contains_purge_entry:
  "scoped P env roots \<Longrightarrow> contains P (purge_trash_entry env roots e rt) (\<lambda>_. True)"
  unfolding purge_trash_entry_def Let_def
  by (auto intro!: contains_struct contains_parts contains_purge_tree split: option.split)

lemma contains_purge_entries:
  "scoped P env roots \<Longrightarrow> contains P (purge_entries env roots reason rt es purged b f) (\<lambda>_. True)"
  by (induction env roots reason rt es purged b f rule: purge_entries.induct)
    (auto simp: Let_def split_def intro!: contains_struct contains_purge_entry)

lemma contains_sweep:
  "scoped P env roots \<Longrightarrow> contains P (sweep_tmp env roots rt rels swept) (\<lambda>_. True)"
  by (induction env roots rt rels swept rule: sweep_tmp.induct) (auto intro!: contains_struct scoped_ops)

lemma contains_find_tmp: "contains P (find_orphan_tmp sr) (\<lambda>_. True)"
  unfolding find_orphan_tmp_def by (intro contains_struct contains_query_cwd)

lemma contains_trash_ops:
  assumes "scoped P env roots"
  shows "contains P (trash_empty env cfg roots reason confirm all_entries rt) (\<lambda>_. True)"
    and "contains P (trash_restore env cfg roots name reason confirm overwrite rt) (\<lambda>_. True)"
    and "contains P (quota_status env cfg roots rt force) (\<lambda>_. True)"
  unfolding trash_empty_def trash_restore_def quota_status_def sweep_orphan_tmp_def Let_def split_def
  using assms by (auto intro!: contains_struct contains_parts contains_list_entries contains_purge_entries contains_sweep
      contains_find_tmp contains_quota_parts split: option.split)

lemma contains_request: "scoped P env roots \<Longrightarrow> contains P (run_request env cfg pats roots req) (\<lambda>_. True)"
  by (cases req) (auto intro: contains_simple_ops contains_delete contains_trash_ops)

text \<open>
  C13: Containment under interference. Let \<open>P\<close> be inodes that no directory outside of \<open>P\<close> lists (no hard
  link or mount into \<open>P\<close>), and let the other processes keep that and leave \<open>P\<close> alone, but otherwise do
  anything between any two system calls: replace directories on the way by symbolic links,
  rename, create, remove. Then no write request on roots outside of \<open>P\<close> changes a node of \<open>P\<close> or opens
  one, whether it succeeds, is refused or fails.
\<close>

theorem fs_writes_contained:
  assumes "fair P s" and "outside P roots" and "CHR ''/'' \<notin> set (fe_pid env)"
    and "run_request env cfg pats roots req s = (r, t)"
  shows "(\<forall>i \<in> P. st_nodes (w_store t) i = st_nodes (w_store s) i) \<and> set (w_opened t) \<inter> P \<subseteq> set (w_opened s)"
  using ensuresD(2) [OF contains_request assms(1,4)] assms(2,3) by (auto simp: scoped_def confined_def same_on_def)

text \<open>The witness: another process replaces the file by a link to \<open>/etc/passwd\<close> before the first call.\<close>

definition plant_link :: "store \<Rightarrow> store" where
  "plant_link st = (if 2 < st_next st then set_node 2 (Link ''/etc/passwd'') st else st)"

definition demo_attack :: world where
  "demo_attack = demo_world\<lparr>w_script := [(plant_link, None)]\<rparr>"

definition demo_attacked :: world where
  "demo_attacked = snd (run_request demo_env demo_fs_config [] demo_roots (RAppend ''a.txt'' ''x'' ''because'' False None) demo_attack)"

theorem fs_writes_contained_witness:
  "map (st_nodes (w_store demo_attacked)) [0, 4, 5] = map (st_nodes (w_store demo_attack)) [0, 4, 5] \<and>
   set (w_opened demo_attacked) \<inter> {0, 4, 5} \<subseteq> set (w_opened demo_attack)"
proof -
  have "spares {0, 4, 5} st (plant_link st)" for st
    unfolding plant_link_def by (auto intro: set_node_spares)
  moreover have "apart {0, 4, 5} demo_store"
    by (auto simp: apart_def entry_Some_iff demo_store_def split: if_splits)
  ultimately have fair: "fair {0, 4, 5} demo_attack" by (simp add: fair_def demo_attack_def demo_world_def)
  have outside: "outside {0, 4, 5} demo_roots" by (simp add: outside_def demo_roots_def)
  have pid: "CHR ''/'' \<notin> set (fe_pid demo_env)" by (simp add: demo_env_def)
  show ?thesis
    using fs_writes_contained [OF fair outside pid surjective_pairing] by (simp add: demo_attacked_def del: run_request.simps)
qed

end
