(* ===== verification/Fs_Audit_Claims.thy ===== *)
theory Fs_Audit_Claims
  imports Fs_Demo Effect_Contract
begin

text \<open>
  The gates and the audit trail of the write operations. While no other process interferes, the
  file system changes only after every gate of the request was passed and, up to the ledger of
  a root with a quota, only after the intent was recorded.
\<close>

section \<open>The contract\<close>

text \<open>No other process runs; the calls may still fail.\<close>

definition undisturbed :: "world \<Rightarrow> bool" where
  "undisturbed s \<longleftrightarrow> (\<forall>e \<in> set (w_script s). fst e = id)"

text \<open>
  The log only grows, and if the store changed then \<open>ok\<close> holds, and either \<open>free\<close> holds or one of the
  new events satisfies \<open>ev\<close>.
\<close>

definition gated :: "bool \<Rightarrow> bool \<Rightarrow> (fs_event \<Rightarrow> bool) \<Rightarrow> world \<Rightarrow> world \<Rightarrow> bool" where
  "gated ok free ev s t \<longleftrightarrow> (\<exists>new. w_log t = w_log s @ new \<and>
     (w_store t = w_store s \<or> ok \<and> (free \<or> (\<exists>e \<in> set new. ev e))))"

interpretation gate: contract undisturbed "gated ok free ev" for ok free ev
proof
  fix s t u
  show "gated ok free ev s s" by (auto simp: gated_def)
  assume "gated ok free ev s t" and "gated ok free ev t u"
  then obtain n m where "w_log t = w_log s @ n" "w_log u = w_log t @ m"
    and "w_store t = w_store s \<or> ok \<and> (free \<or> (\<exists>e \<in> set n. ev e))"
    and "w_store u = w_store t \<or> ok \<and> (free \<or> (\<exists>e \<in> set m. ev e))"
    unfolding gated_def by blast
  then show "gated ok free ev s u"
    unfolding gated_def by (intro exI [of _ "n @ m"]) auto
qed

abbreviation tracks :: "bool \<Rightarrow> bool \<Rightarrow> (fs_event \<Rightarrow> bool) \<Rightarrow> 'a io \<Rightarrow> ('a \<Rightarrow> bool) \<Rightarrow> bool" where
  "tracks ok free ev \<equiv> ensures undisturbed (gated ok free ev)"

lemmas tracks_rules = gate.ensures_rules
lemmas tracks_basic = gate.ensures_basic
lemmas tracks_bind = gate.ensures_bind
lemmas tracks_lift = gate.ensures_lift
lemmas tracks_ret = gate.ensures_ret

lemma tracks_modify:
  assumes "\<And>s. w_store (f s) = w_store s" "\<And>s. w_script (f s) = w_script s" "\<And>s. w_log (f s) = w_log s"
  shows "tracks ok free ev (hmodify f) (\<lambda>_. True)"
  by (rule gate.ensures_modify) (auto simp: undisturbed_def gated_def assms)

lemma tracks_audit: "tracks ok free ev (audit e) (\<lambda>_. True)"
  unfolding audit_def by (rule gate.ensures_modify) (auto simp: undisturbed_def gated_def)

lemma interference_undisturbed:
  "undisturbed s \<Longrightarrow> interference s = (fault, s') \<Longrightarrow> undisturbed s' \<and> w_store s' = w_store s \<and> w_log s' = w_log s"
  by (auto simp: interference_def undisturbed_def split: list.splits)

text \<open>A call that reads, and any call where changes are allowed.\<close>

lemma tracks_query: "tracks ok free ev (query_call f) (\<lambda>_. True)"
proof (rule ensuresI)
  fix s r t assume I: "undisturbed s" and "query_call f s = (r, t)"
  moreover obtain fault s' where i: "interference s = (fault, s')" by force
  ultimately have "w_store t = w_store s'" "w_log t = w_log s'" "w_script t = w_script s'"
    by (auto simp: query_call_def syscall_def map_sum_Inr_cases split: option.splits sum.splits)
  then show "undisturbed t \<and> gated ok free ev s t \<and> (\<forall>x. r = Inr x \<longrightarrow> True)"
    using interference_undisturbed [OF I i] by (auto simp: gated_def undisturbed_def)
qed

lemma tracks_syscall: "tracks True True ev (syscall f) (\<lambda>_. True)"
proof (rule ensuresI)
  fix s r t assume I: "undisturbed s" and "syscall f s = (r, t)"
  moreover obtain fault s' where i: "interference s = (fault, s')" by force
  ultimately have "w_log t = w_log s'" "w_script t = w_script s'"
    by (auto simp: syscall_def split: option.splits sum.splits)
  then show "undisturbed t \<and> gated True True ev s t \<and> (\<forall>x. r = Inr x \<longrightarrow> True)"
    using interference_undisturbed [OF I i] by (auto simp: gated_def undisturbed_def)
qed

lemma tracks_change: "tracks True True ev (change_call f) (\<lambda>_. True)"
  unfolding change_call_def by (rule tracks_syscall)

lemma tracks_write: "tracks True True ev (os_write i data) (\<lambda>_. True)"
proof (rule ensuresI)
  fix s r t assume I: "undisturbed s" and "os_write i data s = (r, t)"
  moreover obtain fault s' where i: "interference s = (fault, s')" by force
  ultimately have "w_log t = w_log s'" "w_script t = w_script s'"
    by (auto simp: os_write_def split: option.splits)
  then show "undisturbed t \<and> gated True True ev s t \<and> (\<forall>x. r = Inr x \<longrightarrow> True)"
    using interference_undisturbed [OF I i] by (auto simp: gated_def undisturbed_def)
qed

lemma tracks_query_at: "tracks ok free ev (\<lambda>s. query_call (F s) s) (\<lambda>_. True)"
proof (rule ensuresI)
  fix s r t assume "undisturbed s" and "query_call (F s) s = (r, t)"
  then show "undisturbed t \<and> gated ok free ev s t \<and> (\<forall>x. r = Inr x \<longrightarrow> True)"
    using ensuresD [OF tracks_query] by blast
qed

text \<open>Opening without \<open>O_CREAT\<close> reads.\<close>

lemma open_is_query: "\<not> o_creat fl \<Longrightarrow> syscall (\<lambda>st. openat st fl start path) = query_call (\<lambda>st. open_existing st fl start path)"
  by (rule ext) (simp add: query_call_def openat_def syscall_def)

lemma tracks_count: "tracks ok free ev (hmodify (\<lambda>s. s\<lparr>w_fds := w_fds s + 1, w_opened := w_opened s @ [i]\<rparr>)) (\<lambda>_. True)"
  and tracks_close: "tracks ok free ev os_close (\<lambda>_. True)"
  unfolding os_close_def by (rule tracks_modify; simp)+

lemma tracks_open: "\<not> o_creat fl \<Longrightarrow> tracks ok free ev (os_open fl start path) (\<lambda>_. True)"
  and tracks_create: "tracks True True ev (os_open fl start path) (\<lambda>_. True)"
  unfolding os_open_def by (auto simp: open_is_query intro!: tracks_rules tracks_basic tracks_query tracks_syscall tracks_count)

lemma tracks_keeps:
  assumes "\<And>s r t. f s = (r, t) \<Longrightarrow> w_store t = w_store s \<and> w_script t = w_script s \<and> w_log t = w_log s"
  shows "tracks ok free ev f (\<lambda>_. True)"
proof (rule ensuresI)
  fix s r t assume "undisturbed s" and "f s = (r, t)"
  then show "undisturbed t \<and> gated ok free ev s t \<and> (\<forall>x. r = Inr x \<longrightarrow> True)"
    using assms [of s r t] by (simp add: undisturbed_def gated_def)
qed

lemma tracks_clock: "tracks ok free ev read_clock (\<lambda>_. True)"
  and tracks_id: "tracks ok free ev draw_id (\<lambda>_. True)"
  by (rule tracks_keeps; auto simp: read_clock_def draw_id_def split: list.splits)+

lemma tracks_on_oserror:
  "tracks ok free ev f Q \<Longrightarrow> (\<And>n. tracks ok free ev (h n) Q) \<Longrightarrow> tracks ok free ev (on_oserror f h) Q"
  unfolding on_oserror_def
  by (rule gate.ensures_catch) (auto split: fs_exc.split intro: gate.ensures_raise)

lemma tracks_macos: "tracks ok free ev (raise_macos_permission env n) (\<lambda>_. True)"
  unfolding raise_macos_permission_def by (auto intro: tracks_basic)

lemma tracks_if: "tracks ok free ev f Q \<Longrightarrow> tracks ok free ev g Q \<Longrightarrow> tracks ok free ev (if b then f else g) Q"
  by simp

lemma tracks_lift_any: "tracks ok free ev (hlift r) (\<lambda>_. True)"
  by (rule tracks_lift) simp

lemma tracks_errors:
  "tracks ok free ev f Q \<Longrightarrow> tracks ok free ev (as_path_error env f) Q"
  "tracks ok free ev f Q \<Longrightarrow> tracks ok free ev (as_plain_path_error f) Q"
  "tracks ok free ev f Q \<Longrightarrow> tracks ok free ev (as_runtime_error f) Q"
  "tracks ok free ev g (\<lambda>_. True) \<Longrightarrow> tracks ok free ev (suppress_oserror g) (\<lambda>_. True)"
  "tracks ok free ev g (\<lambda>_. True) \<Longrightarrow> tracks ok free ev (suppress_fs_error g) (\<lambda>_. True)"
  "tracks ok free ev g (\<lambda>_. True) \<Longrightarrow> tracks ok free ev (suppress_both g) (\<lambda>_. True)"
  unfolding as_path_error_def as_plain_path_error_def as_runtime_error_def suppress_oserror_def suppress_fs_error_def suppress_both_def
  by (auto intro!: tracks_on_oserror tracks_basic tracks_rules tracks_macos split: fs_exc.split)

lemmas tracks_struct = tracks_errors tracks_on_oserror tracks_query tracks_query_at tracks_close tracks_audit tracks_clock tracks_id
  tracks_macos tracks_lift_any tracks_basic tracks_rules tracks_if

section \<open>Operations that read\<close>

lemma tracks_stats:
  "tracks ok free ev (os_stat p) (\<lambda>_. True)"
  "tracks ok free ev (stat_at d leaf) (\<lambda>_. True)"
  "tracks ok free ev (stat_fd i) (\<lambda>_. True)"
  "tracks ok free ev (os_read i n) (\<lambda>_. True)"
  "tracks ok free ev os_fsync (\<lambda>_. True)"
  "tracks ok free ev fsync_dir (\<lambda>_. True)"
  unfolding os_stat_def [abs_def] stat_at_def stat_fd_def os_read_def os_fsync_def fsync_dir_def
  by (auto intro!: tracks_struct)

lemma tracks_find_root: "tracks ok free ev (find_root a expanded rs) (\<lambda>_. True)"
  by (induction rs) (auto simp: or_else_def is_same_entity_def intro!: tracks_struct tracks_stats)

lemma tracks_pick: "tracks ok free ev (pick_root env roots rt) (\<lambda>_. True)"
  unfolding pick_root_def by (auto simp del: find_root.simps intro!: tracks_struct tracks_find_root split: list.split option.split)

lemma tracks_descend:
  "(\<And>d leaf. tracks ok free ev (body d leaf) Q) \<Longrightarrow> tracks ok free ev (descend env d comps body) Q"
  by (induction env d comps body rule: descend.induct)
    (auto simp: RDONLY_def intro!: tracks_rules tracks_basic tracks_close tracks_errors tracks_open)

lemma tracks_collect: "tracks ok free ev (collect_entries env d skip names acc skipped) (\<lambda>_. True)"
  by (induction env d skip names acc skipped rule: collect_entries.induct)
    (auto intro!: tracks_struct tracks_stats split: option.split)

lemma tracks_listdir_fd: "tracks ok free ev (listdir_fd env d skip) (\<lambda>_. True)"
  unfolding listdir_fd_def report_skipped_entries_def
  by (auto intro!: tracks_struct tracks_collect split: prod.split)

lemma tracks_reads:
  "tracks ok free ev (read_bytes env roots target rt n skip) (\<lambda>_. True)"
  "tracks ok free ev (stat_op env roots target rt) (\<lambda>_. True)"
  "tracks ok free ev (list_dir env roots target rt skip) (\<lambda>_. True)"
  unfolding read_bytes_def stat_op_def list_dir_def read_fd_def
  by (auto simp: RDONLY_def intro!: tracks_struct tracks_pick tracks_descend tracks_stats tracks_open tracks_listdir_fd)

lemma tracks_load: "tracks ok free ev (load_ledger env roots rt) (\<lambda>_. True)"
  unfolding load_ledger_def by (auto intro!: tracks_struct tracks_reads)

lemma tracks_pre_size: "tracks ok free ev (pre_size env roots target rt) (\<lambda>_. True)"
  unfolding pre_size_def by (auto intro!: tracks_struct tracks_reads)

lemma tracks_sidecars: "tracks ok free ev (read_sidecars env roots rt names acc) (\<lambda>_. True)"
  by (induction env roots rt names acc rule: read_sidecars.induct) (auto intro!: tracks_struct tracks_reads)

lemma tracks_list_entries: "tracks ok free ev (list_entries env roots rt) (\<lambda>_. True)"
  unfolding list_entries_def by (auto intro!: tracks_struct tracks_reads tracks_sidecars split: option.split)

lemma tracks_find_tmp: "tracks ok free ev (find_orphan_tmp sr) (\<lambda>_. True)"
  unfolding find_orphan_tmp_def by (intro tracks_struct)

lemma tracks_entry_name: "tracks ok free ev (entry_name env original now) (\<lambda>_. True)"
  unfolding entry_name_def Let_def by (intro tracks_struct)

lemma tracks_recompute: "tracks ok free ev (recompute env sr now gen) (\<lambda>_. True)"
  unfolding recompute_def walk_usage_def split_def by (intro tracks_struct)

lemma tracks_refuse: "tracks ok free ev (refuse op gate) Q"
  unfolding refuse_def by (intro tracks_struct)

lemma tracks_gates:
  "tracks ok free ev (reserve_check op comps) (\<lambda>_. True)"
  "tracks ok free ev (enforce_payload_cap cfg data) (\<lambda>_. True)"
  "tracks ok free ev (check_injection cfg op flags) (\<lambda>_. True)"
  "tracks ok free ev (dryrun op reason extra) (\<lambda>_. True)"
  unfolding reserve_check_def enforce_payload_cap_def check_injection_def dryrun_def
  by (intro tracks_struct tracks_refuse)+

lemma tracks_check_rate: "tracks ok free ev (check_rate env cfg op sr) (\<lambda>_. True)"
  unfolding check_rate_def Let_def
  by (auto intro!: tracks_struct tracks_refuse tracks_modify split: prod.split)

lemmas tracks_reading = tracks_reads tracks_load tracks_pre_size tracks_list_entries tracks_find_tmp tracks_entry_name
  tracks_recompute tracks_refuse tracks_gates tracks_check_rate tracks_pick

section \<open>Operations that write\<close>

lemma tracks_guard: "tracks ok free ev (guard_clobber_posix pfd leaf overwrite) (\<lambda>_. True)"
  unfolding guard_clobber_posix_def by (intro tracks_struct tracks_stats)

lemma tracks_atomic: "tracks True True ev (atomic_write_posix env pfd leaf data) (\<lambda>_. True)"
  unfolding atomic_write_posix_def Let_def
  by (auto intro!: tracks_struct tracks_create tracks_write tracks_stats tracks_change split: fs_exc.split)

lemma tracks_sha: "tracks ok free ev (sha_leaf_posix env pfd leaf info m) (\<lambda>_. True)"
  unfolding sha_leaf_posix_def by (auto simp: RDONLY_def intro!: tracks_struct tracks_open split: option.split)

lemma tracks_writes:
  "tracks True True ev (write_bytes env roots target data rt overwrite) (\<lambda>_. True)"
  "tracks True True ev (append_bytes env roots target data rt) (\<lambda>_. True)"
  "tracks True True ev (mkdir env roots target rt) (\<lambda>_. True)"
  "tracks True True ev (move env roots target dst rt overwrite) (\<lambda>_. True)"
  "tracks True True ev (unlink env roots target rt m) (\<lambda>_. True)"
  "tracks True True ev (rmdir env roots target rt) (\<lambda>_. True)"
  unfolding write_bytes_def append_bytes_def mkdir_def move_def unlink_def rmdir_def split_def
  by (intro tracks_struct tracks_pick tracks_descend tracks_guard tracks_atomic tracks_stats tracks_change tracks_create
      tracks_write tracks_sha)+

lemma tracks_save: "tracks True True ev (save_ledger env roots rt l) (\<lambda>_. True)"
  unfolding save_ledger_def by (intro tracks_struct tracks_writes)

lemma tracks_quota_any:
  "tracks True True ev (check_quota env cfg roots op sr db df) (\<lambda>_. True)"
  "tracks True True ev (update_ledger env cfg roots sr db df given) (\<lambda>_. True)"
  unfolding check_quota_def update_ledger_def quota_ledger_of_def
  by (auto intro!: tracks_struct tracks_reading tracks_save split: option.split)

lemma tracks_trash_parts:
  "tracks True True ev (purge env cfg roots target kind rt) (\<lambda>_. True)"
  "tracks True True ev (to_trash env cfg roots target kind sz reason now rt) (\<lambda>_. True)"
  unfolding to_trash_def purge_def ensure_trash_def content_sha_def make_entry_def Let_def
  by (auto intro!: tracks_struct tracks_reading tracks_writes split: fs_exc.split)

lemma tracks_foreach: "(\<And>x. tracks ok free ev (f x) (\<lambda>_. True)) \<Longrightarrow> tracks ok free ev (hforeach f xs) (\<lambda>_. True)"
  unfolding hforeach_def by (induction xs) (auto intro!: tracks_struct)

lemma tracks_purge_tree: "tracks True True ev (purge_tree n env roots rt rel) (\<lambda>_. True)"
  by (induction n arbitrary: rel) (auto intro!: tracks_struct tracks_reading tracks_writes tracks_foreach split: option.split)

lemma tracks_purge_entry: "tracks True True ev (purge_trash_entry env roots e rt) (\<lambda>_. True)"
  unfolding purge_trash_entry_def Let_def
  by (auto intro!: tracks_struct tracks_reading tracks_writes tracks_purge_tree split: option.split)

lemma tracks_purge_entries: "tracks True True ev (purge_entries env roots reason rt es purged b f) (\<lambda>_. True)"
  by (induction env roots reason rt es purged b f rule: purge_entries.induct)
    (auto simp: Let_def split_def intro!: tracks_struct tracks_purge_entry)

lemma tracks_sweep: "tracks True True ev (sweep_tmp env roots rt rels swept) (\<lambda>_. True)"
  by (induction env roots rt rels swept rule: sweep_tmp.induct) (auto intro!: tracks_struct tracks_writes)

lemmas tracks_writing = tracks_writes tracks_quota_any tracks_trash_parts tracks_purge_entries tracks_sweep

section \<open>The gates of a request\<close>

fun request_op :: "request \<Rightarrow> str" where
  "request_op (RWrite _ _ _ _ _ _) = ''fs_write''"
| "request_op (RAppend _ _ _ _ _) = ''fs_append''"
| "request_op (RMkdir _ _ _ _) = ''fs_mkdir''"
| "request_op (RMove _ _ _ _ _ _) = ''fs_move''"
| "request_op (RDelete _ _ _ _ _) = ''fs_delete''"
| "request_op (RTrashEmpty _ _ _ _) = ''trash_empty''"
| "request_op (RTrashRestore _ _ _ _ _) = ''trash_restore''"

fun request_reason :: "request \<Rightarrow> str" where
  "request_reason (RWrite _ _ reason _ _ _) = reason"
| "request_reason (RAppend _ _ reason _ _) = reason"
| "request_reason (RMkdir _ reason _ _) = reason"
| "request_reason (RMove _ _ reason _ _ _) = reason"
| "request_reason (RDelete _ reason _ _ _) = reason"
| "request_reason (RTrashEmpty reason _ _ _) = reason"
| "request_reason (RTrashRestore _ reason _ _ _) = reason"

text \<open>Destructive requests, those that were confirmed, and those that delete for good.\<close>

fun destructive :: "request \<Rightarrow> bool" where
  "destructive (RWrite _ _ _ _ overwrite _) = overwrite"
| "destructive (RAppend _ _ _ _ _) = False"
| "destructive (RMkdir _ _ _ _) = False"
| "destructive _ = True"

fun confirmed :: "request \<Rightarrow> bool" where
  "confirmed (RWrite _ _ _ confirm _ _) = confirm"
| "confirmed (RAppend _ _ _ confirm _) = confirm"
| "confirmed (RMkdir _ _ confirm _) = confirm"
| "confirmed (RMove _ _ _ confirm _ _) = confirm"
| "confirmed (RDelete _ _ confirm _ _) = confirm"
| "confirmed (RTrashEmpty _ confirm _ _) = confirm"
| "confirmed (RTrashRestore _ _ confirm _ _) = confirm"

fun irreversible :: "request \<Rightarrow> bool" where
  "irreversible (RDelete _ _ _ hard _) = hard"
| "irreversible (RTrashEmpty _ _ _ _) = True"
| "irreversible _ = False"

definition gates_open :: "fs_config \<Rightarrow> request \<Rightarrow> bool" where
  "gates_open cfg req \<longleftrightarrow> fc_writes_enabled cfg \<and> py_strip (request_reason req) \<noteq> [] \<and>
     (destructive req \<and> fc_require_confirm_destructive cfg \<longrightarrow> confirmed req) \<and>
     (irreversible req \<longrightarrow> fc_allow_hard_delete cfg)"

definition intent_of :: "request \<Rightarrow> fs_event \<Rightarrow> bool" where
  "intent_of req e \<longleftrightarrow> (\<exists>path n. e = EvIntent (request_op req) (request_reason req) path n)"

text \<open>Changes that need no intent: a ledger where there is a quota, and the sweep of temporary files.\<close>

fun is_trash_empty :: "request \<Rightarrow> bool" where
  "is_trash_empty (RTrashEmpty _ _ _ _) = True"
| "is_trash_empty _ = False"

definition no_intent_needed :: "fs_config \<Rightarrow> request \<Rightarrow> bool" where
  "no_intent_needed cfg req \<longleftrightarrow> fc_write_root_quotas cfg \<noteq> [] \<or> is_trash_empty req"

section \<open>Composing\<close>

lemma tracks_executable:
  "tracks ok free ev (executable cfg op reason confirm destr)
     (\<lambda>go. go \<longrightarrow> fc_writes_enabled cfg \<and> py_strip reason \<noteq> [] \<and> (destr \<and> fc_require_confirm_destructive cfg \<longrightarrow> confirm))"
  unfolding executable_def FS_WRITE_HARD_DISABLE_def by (auto intro!: tracks_refuse tracks_ret)

text \<open>Once changes are allowed, anything that lets the log grow will do.\<close>

lemma tracks_allowed: "ok \<Longrightarrow> free \<Longrightarrow> tracks True True ev f Q \<Longrightarrow> tracks ok free ev f Q"
  by simp

lemma tracks_after_intent:
  assumes "ok" and "ev e" and "tracks True True ev g Q"
  shows "tracks ok free ev (hbind (audit e) (\<lambda>_. g)) Q"
proof (rule ensuresI)
  fix s r t assume I: "undisturbed s" and b: "hbind (audit e) (\<lambda>_. g) s = (r, t)"
  define u where "u = s\<lparr>w_log := w_log s @ [e]\<rparr>"
  have a: "audit e s = (Inr (), u)" by (simp add: audit_def handler_simps u_def)
  then have g: "g u = (r, t)" using b by simp
  have "undisturbed u" using I by (simp add: u_def undisturbed_def)
  note gu = ensuresD [OF assms(3) this g]
  from gu(2) obtain new where "w_log t = w_log u @ new" unfolding gated_def by blast
  then have "gated ok free ev s t"
    unfolding gated_def using assms(1,2) by (intro exI [of _ "e # new"]) (simp add: u_def)
  with gu show "undisturbed t \<and> gated ok free ev s t \<and> (\<forall>x. r = Inr x \<longrightarrow> Q x)" by blast
qed

lemma tracks_quota:
  assumes ok and "fc_write_root_quotas cfg \<noteq> [] \<Longrightarrow> free"
  shows "tracks ok free ev (check_quota env cfg roots op sr db df) (\<lambda>_. True)"
proof (cases "fc_write_root_quotas cfg = []")
  case True
  then show ?thesis by (simp add: check_quota_def quota_spec_of_def tracks_basic)
next
  case False
  then show ?thesis using assms tracks_allowed [OF _ _ tracks_quota_any(1)] by blast
qed

text \<open>The common end of the operations: identifier, intent, change, applied.\<close>

lemma tracks_body:
  assumes ok and "\<And>n. ev (I n)" and "\<And>n. tracks True True ev (g n) Q"
  shows "tracks ok free ev (hbind draw_id (\<lambda>n. hbind (audit (I n)) (\<lambda>_. g n))) Q"
  by (rule tracks_rules(1) [OF tracks_id]) (rule tracks_after_intent; fact assms)

lemma tracks_gate:
  assumes "tracks ok free ev d Q"
    and "fc_writes_enabled cfg \<Longrightarrow> py_strip reason \<noteq> [] \<Longrightarrow>
      (destr \<and> fc_require_confirm_destructive cfg \<longrightarrow> confirm) \<Longrightarrow> tracks ok free ev g Q"
  shows "tracks ok free ev (hbind (executable cfg op reason confirm destr) (\<lambda>go. if \<not> go then d else g)) Q"
  by (rule tracks_bind [OF tracks_executable]) (use assms in auto)

lemmas tracks_op = tracks_gate tracks_body tracks_writing tracks_quota tracks_reading tracks_struct

lemma tracks_simple_ops:
  assumes ok: "fc_writes_enabled cfg \<Longrightarrow> py_strip reason \<noteq> [] \<Longrightarrow>
      (destr \<and> fc_require_confirm_destructive cfg \<longrightarrow> confirm) \<Longrightarrow> ok"
    and free: "fc_write_root_quotas cfg \<noteq> [] \<Longrightarrow> free"
  shows "destr = overwrite \<Longrightarrow> (\<And>p n. ev (EvIntent ''fs_write'' reason p n)) \<Longrightarrow>
      tracks ok free ev (fs_write env cfg pats roots target data reason confirm overwrite rt) (\<lambda>_. True)"
    and "\<not> destr \<Longrightarrow> (\<And>p n. ev (EvIntent ''fs_append'' reason p n)) \<Longrightarrow>
      tracks ok free ev (fs_append env cfg pats roots target data reason confirm rt) (\<lambda>_. True)"
    and "\<not> destr \<Longrightarrow> (\<And>p n. ev (EvIntent ''fs_mkdir'' reason p n)) \<Longrightarrow>
      tracks ok free ev (fs_mkdir env cfg roots target reason confirm rt) (\<lambda>_. True)"
    and "destr \<Longrightarrow> (\<And>p n. ev (EvIntent ''fs_move'' reason p n)) \<Longrightarrow>
      tracks ok free ev (fs_move env cfg roots target dst reason confirm overwrite rt) (\<lambda>_. True)"
    and "destr \<Longrightarrow> (\<And>p n. ev (EvIntent ''trash_restore'' reason p n)) \<Longrightarrow>
      tracks ok free ev (trash_restore env cfg roots name reason confirm overwrite rt) (\<lambda>_. True)"
  unfolding fs_write_def fs_append_def fs_mkdir_def fs_move_def trash_restore_def Let_def split_def
  by ((intro tracks_op; use ok free in auto)+)

lemma tracks_cond:
  "(b \<Longrightarrow> tracks ok free ev f Q) \<Longrightarrow> (\<not> b \<Longrightarrow> tracks ok free ev g Q) \<Longrightarrow> tracks ok free ev (if b then f else g) Q"
  by simp

lemma tracks_delete:
  assumes ok: "fc_writes_enabled cfg \<Longrightarrow> py_strip reason \<noteq> [] \<Longrightarrow>
      (fc_require_confirm_destructive cfg \<longrightarrow> confirm) \<Longrightarrow> (hard \<longrightarrow> fc_allow_hard_delete cfg) \<Longrightarrow> ok"
    and free: "fc_write_root_quotas cfg \<noteq> [] \<Longrightarrow> free"
    and ev: "\<And>p n. ev (EvIntent ''fs_delete'' reason p n)"
  shows "tracks ok free ev (fs_delete env cfg roots target reason confirm hard rt) (\<lambda>_. True)"
  unfolding fs_delete_def Let_def split_def
  apply (intro tracks_gate tracks_cond tracks_rules(1) tracks_reading tracks_struct)
  subgoal premises prems for comps u sr v now pre
  proof -
    have ok': ok using prems ok by auto
    show ?thesis
    proof (cases pre)
      case (Some i)
      show ?thesis
        unfolding Some option.case by (intro tracks_op; use ok' free ev in auto)
    qed (simp add: tracks_basic)
  qed
  done

lemma tracks_trash_empty:
  assumes ok: "fc_writes_enabled cfg \<Longrightarrow> py_strip reason \<noteq> [] \<Longrightarrow>
      (fc_require_confirm_destructive cfg \<longrightarrow> confirm) \<Longrightarrow> fc_allow_hard_delete cfg \<Longrightarrow> ok"
  shows "tracks ok True ev (trash_empty env cfg roots reason confirm all_entries rt) (\<lambda>_. True)"
  unfolding trash_empty_def sweep_orphan_tmp_def Let_def split_def
  apply (intro tracks_gate tracks_cond tracks_rules(1) tracks_reading tracks_struct)
  apply (auto intro!: tracks_allowed [OF _ TrueI] tracks_writing ok)
  done

lemma request_gated:
  "tracks (gates_open cfg req) (no_intent_needed cfg req) (intent_of req) (run_request env cfg pats roots req) (\<lambda>_. True)"
proof (cases req)
  case (RWrite target data reason confirm overwrite rt)
  show ?thesis unfolding RWrite run_request.simps
    by (rule tracks_simple_ops(1) [where destr = overwrite]) (auto simp: gates_open_def no_intent_needed_def intent_of_def)
next
  case (RAppend target data reason confirm rt)
  show ?thesis unfolding RAppend run_request.simps
    by (rule tracks_simple_ops(2) [where destr = False]) (auto simp: gates_open_def no_intent_needed_def intent_of_def)
next
  case (RMkdir target reason confirm rt)
  show ?thesis unfolding RMkdir run_request.simps
    by (rule tracks_simple_ops(3) [where destr = False]) (auto simp: gates_open_def no_intent_needed_def intent_of_def)
next
  case (RMove src dst reason confirm overwrite rt)
  show ?thesis unfolding RMove run_request.simps
    by (rule tracks_simple_ops(4) [where destr = True]) (auto simp: gates_open_def no_intent_needed_def intent_of_def)
next
  case (RDelete target reason confirm hard rt)
  show ?thesis unfolding RDelete run_request.simps
    by (rule tracks_delete) (auto simp: gates_open_def no_intent_needed_def intent_of_def)
next
  case (RTrashEmpty reason confirm all_entries rt)
  show ?thesis unfolding RTrashEmpty run_request.simps
    using tracks_trash_empty [where ok = "gates_open cfg req" and ev = "intent_of req"]
    by (simp add: RTrashEmpty gates_open_def no_intent_needed_def)
next
  case (RTrashRestore name reason confirm overwrite rt)
  show ?thesis unfolding RTrashRestore run_request.simps
    by (rule tracks_simple_ops(5) [where destr = True]) (auto simp: gates_open_def no_intent_needed_def intent_of_def)
qed

text \<open>
  C15: While no other process interferes, a request that changes the file system has passed four gates: writes are
  enabled, the reason is not blank, a destructive request was confirmed if the configuration asks for it,
  and an irreversible one is opted in. If moreover no quotas are configured and the request is not the emptying of the trash, its
  intent is among the audit events it recorded: with a quota the ledger may be written before the intent, and emptying the trash sweeps
  temporary files without one. This covers failing system calls and requests that raise. The gates on rate, quota and reserved
  names are not part of this statement.
\<close>

theorem fs_changes_gated:
  assumes "undisturbed s"
    and "run_request env cfg pats roots req s = (r, t)"
    and "w_store t \<noteq> w_store s"
  shows "gates_open cfg req \<and> (no_intent_needed cfg req \<or>
    (\<exists>path n. EvIntent (request_op req) (request_reason req) path n \<in> set (drop (length (w_log s)) (w_log t))))"
  using ensuresD(2) [OF request_gated assms(1,2)] assms(3) by (auto simp: gated_def intent_of_def)

theorem fs_changes_gated_witness:
  "gates_open demo_fs_config demo_write \<and> (no_intent_needed demo_fs_config demo_write \<or>
    (\<exists>path n. EvIntent (request_op demo_write) (request_reason demo_write) path n \<in> set (drop (length (w_log demo_world))
      (w_log (snd (run_request demo_env demo_fs_config [] demo_roots demo_write demo_world))))))"
proof (rule fs_changes_gated [OF _ surjective_pairing])
  show "undisturbed demo_world" by (simp add: undisturbed_def demo_world_def)
  have "entry (w_store demo_world) 1 ''b.txt'' = None" by (simp add: demo_world_def demo_store_def entry_def)
  then show "w_store (snd (run_request demo_env demo_fs_config [] demo_roots demo_write demo_world)) \<noteq> w_store demo_world"
    using demo_write_entry by auto
qed

end
