(* ===== verification/Fs_Atomic_Claims.thy ===== *)
theory Fs_Atomic_Claims
  imports Fs_Audit_Claims Fs_Confine
begin

text \<open>
  Atomicity of writes: whatever system call fails and after however many bytes, a name that is written
  either leads to the file it led to before, or to a file with all of the new content, and no existing file is changed in place.
\<close>

section \<open>Files\<close>

definition content :: "store \<Rightarrow> ino \<Rightarrow> str \<Rightarrow> str option" where
  "content st d name = (case Option.bind (entry st d name) (st_nodes st) of Some (Reg b) \<Rightarrow> Some b | _ \<Rightarrow> None)"

fun locate :: "store \<Rightarrow> ino \<Rightarrow> str list \<Rightarrow> ino option" where
  "locate st d [] = Some d"
| "locate st d (c # cs) = Option.bind (entry st d c) (\<lambda>i. locate st i cs)"

text \<open>Inodes in use are allocated.\<close>

definition allocated :: "store \<Rightarrow> bool" where
  "allocated st \<longleftrightarrow> (\<forall>i n. st_nodes st i = Some n \<longrightarrow> i < st_next st) \<and>
     (\<forall>d name i. entry st d name = Some i \<longrightarrow> i < st_next st)"

text \<open>Every regular file keeps its content; a name leads to the same inode in every directory.\<close>

definition files_kept :: "store \<Rightarrow> store \<Rightarrow> bool" where
  "files_kept st st' \<longleftrightarrow> (\<forall>i b. st_nodes st i = Some (Reg b) \<longrightarrow> st_nodes st' i = Some (Reg b))"

definition untouched :: "str \<Rightarrow> store \<Rightarrow> store \<Rightarrow> bool" where
  "untouched leaf st st' \<longleftrightarrow> (\<forall>d. entry st' d leaf = entry st d leaf) \<and> files_kept st st'"

section \<open>Without interference\<close>

lemma undisturbed_query:
  assumes "undisturbed s" and "query_call f s = (r, t)"
  shows "undisturbed t" and "w_store t = w_store s" and "r = Inr x \<Longrightarrow> f (w_store s) = Inr x"
proof -
  obtain fault s' where i: "interference s = (fault, s')" by force
  note s' = interference_undisturbed [OF assms(1) i]
  show "undisturbed t" and "w_store t = w_store s" and "r = Inr x \<Longrightarrow> f (w_store s) = Inr x"
    using assms(2) i s'
    by (auto simp: query_call_def syscall_def undisturbed_def map_sum_Inr_cases split: option.splits sum.splits)
qed

lemma undisturbed_syscall:
  assumes "undisturbed s" and "syscall f s = (r, t)"
  shows "undisturbed t"
    and "(\<exists>e. r = Inl (OSErr e) \<and> w_store t = w_store s) \<or> (\<exists>x. r = Inr x \<and> f (w_store s) = Inr (x, w_store t))"
proof -
  obtain fault s' where i: "interference s = (fault, s')" by force
  note s' = interference_undisturbed [OF assms(1) i]
  show "undisturbed t"
    and "(\<exists>e. r = Inl (OSErr e) \<and> w_store t = w_store s) \<or> (\<exists>x. r = Inr x \<and> f (w_store s) = Inr (x, w_store t))"
    using assms(2) i s' by (auto simp: syscall_def undisturbed_def split: option.splits sum.splits)
qed

lemma undisturbed_write:
  assumes "undisturbed s" and "os_write i data s = (r, t)"
  shows "undisturbed t" and "\<exists>p. w_store t = write_node i p (w_store s) \<and> (r = Inr () \<longrightarrow> p = data)"
proof -
  obtain fault s' where i: "interference s = (fault, s')" by force
  note s' = interference_undisturbed [OF assms(1) i]
  show "undisturbed t" and "\<exists>p. w_store t = write_node i p (w_store s) \<and> (r = Inr () \<longrightarrow> p = data)"
    using assms(2) i s' by (auto simp: os_write_def undisturbed_def split: option.splits)
qed

lemma undisturbed_open:
  assumes "undisturbed s" and "os_open fl start path s = (r, t)"
  shows "undisturbed t"
    and "(\<exists>e. r = Inl (OSErr e) \<and> w_store t = w_store s) \<or> (\<exists>i. r = Inr i \<and> openat (w_store s) fl start path = Inr (i, w_store t))"
proof -
  obtain q u where q: "syscall (\<lambda>st. openat st fl start path) s = (q, u)" by force
  note u = undisturbed_syscall [OF assms(1) q]
  have t: "w_script t = w_script u \<and> w_store t = w_store u \<and> r = q"
    using assms(2) q unfolding os_open_def by (cases q) (auto simp: hbind_def handler_simps)
  show "undisturbed t" using u(1) t by (simp add: undisturbed_def)
  show "(\<exists>e. r = Inl (OSErr e) \<and> w_store t = w_store s) \<or> (\<exists>i. r = Inr i \<and> openat (w_store s) fl start path = Inr (i, w_store t))"
    using u(2) t by auto
qed

text \<open>Error mappings keep state and success.\<close>

lemma on_oserror_raises:
  assumes "on_oserror f h s = (r, t)" and "\<And>n u. \<exists>e. h n u = (Inl e, u)"
  shows "\<exists>q. f s = (q, t) \<and> (\<forall>x. r = Inr x \<longleftrightarrow> q = Inr x)"
proof -
  obtain q u where f: "f s = (q, u)" by force
  show ?thesis
  proof (cases q)
    case (Inl e)
    have "u = t \<and> (\<exists>e. r = Inl e)"
      using assms(1) f Inl assms(2) by (cases e) (auto simp: on_oserror_def hcatch_def handler_simps, (metis prod.inject)+)
    then show ?thesis using f Inl by auto
  next
    case (Inr x)
    then show ?thesis using assms(1) f by (auto simp: on_oserror_def hcatch_def)
  qed
qed

lemma as_errors_raise:
  "as_path_error env f s = (r, t) \<Longrightarrow> \<exists>q. f s = (q, t) \<and> (\<forall>x. r = Inr x \<longleftrightarrow> q = Inr x)"
  "as_runtime_error f s = (r, t) \<Longrightarrow> \<exists>q. f s = (q, t) \<and> (\<forall>x. r = Inr x \<longleftrightarrow> q = Inr x)"
  unfolding as_path_error_def as_runtime_error_def
  by (erule on_oserror_raises; auto simp: raise_macos_permission_def hbind_def handler_simps)+

section \<open>Descending\<close>

lemma openat_dir_plain:
  assumes "plain c" and "openat st (RDONLY\<lparr>o_nofollow := True, o_directory := True\<rparr>) (d, []) c = Inr (i, st')"
  shows "st' = st" and "entry st d c = Some i"
proof -
  let ?fl = "RDONLY\<lparr>o_nofollow := True, o_directory := True\<rparr>"
  have "open_existing st ?fl (d, []) c = Inr i \<and> st' = st"
    using assms(2) by (auto simp: openat_def RDONLY_def map_sum_Inr_cases)
  then show "st' = st" and "entry st d c = Some i"
    using open_existing_plain [OF assms(1), of ?fl] by auto
qed

lemma hfinally_close:
  "hfinally f os_close s = (r, t) \<Longrightarrow> \<exists>v. f s = (r, v) \<and> w_store t = w_store v"
  by (auto simp: hfinally_def os_close_def handler_simps split: prod.splits)

lemma descend_result:
  assumes "list_all plain comps" and "undisturbed s" and "descend env d comps body s = (r, t)"
  shows "((\<exists>e. r = Inl e) \<and> w_store t = w_store s) \<or>
    (\<exists>D u v. locate (w_store s) d (butlast comps) = Some D \<and> undisturbed u \<and> w_store u = w_store s \<and>
       body D (last comps) u = (r, v) \<and> w_store t = w_store v)"
  using assms
proof (induction env d comps body arbitrary: s t rule: descend.induct)
  case (3 env d dir c cs body)
  from 3(4) show ?case
    unfolding descend.simps
  proof (cases rule: hbind_cases)
    case (raises e)
    obtain q where q: "os_open (RDONLY\<lparr>o_nofollow := True, o_directory := True\<rparr>) (d, []) dir s = (q, t)" "\<forall>x. q \<noteq> Inr x"
      using as_errors_raise(1) [OF raises(1)] by auto
    then show ?thesis using undisturbed_open(2) [OF 3(3) q(1)] raises(2) by blast
  next
    case (returns i u)
    have "os_open (RDONLY\<lparr>o_nofollow := True, o_directory := True\<rparr>) (d, []) dir s = (Inr i, u)"
      using as_errors_raise(1) [OF returns(1)] by auto
    note o = undisturbed_open [OF 3(3) this]
    have i: "w_store u = w_store s" "entry (w_store s) d dir = Some i"
      using o(2) openat_dir_plain 3(2) by (auto dest: openat_dir_plain)
    obtain v where v: "descend env i (c # cs) body u = (r, v)" "w_store t = w_store v"
      using hfinally_close [OF returns(2)] by blast
    show ?thesis using 3(1) [OF _ o(1) v(1)] 3(2) i v(2) by auto
  qed
qed (auto simp: handler_simps)

section \<open>Replacing a file\<close>

text \<open>
  The store while a temporary file is written: it differs from the original one by the entry of the
  temporary file and its fresh inode.
\<close>

definition staged :: "ino \<Rightarrow> str \<Rightarrow> str \<Rightarrow> store \<Rightarrow> store \<Rightarrow> bool" where
  "staged D tmp b st st' \<longleftrightarrow> (\<exists>p es. st_nodes st D = Some (Dir p es) \<and>
     st_nodes st' = (st_nodes st)(st_next st \<mapsto> Reg b, D \<mapsto> Dir p (AList.update tmp (st_next st) es)))"

lemma allocated_fresh: "allocated st \<Longrightarrow> st_nodes st (st_next st) = None"
  by (cases "st_nodes st (st_next st)") (auto simp: allocated_def)

lemma staged_create:
  assumes "allocated st" and "st_nodes st D = Some (Dir p es)"
  shows "staged D tmp [] st (create D tmp (Reg []) st)"
  using assms allocated_fresh [OF assms(1)]
  unfolding staged_def create_def set_entry_def set_node_def Let_def by (auto intro!: exI simp: fun_eq_iff)

lemma staged_write:
  assumes "allocated st" and "staged D tmp b st st'"
  shows "staged D tmp (b @ data) st (write_node (st_next st) data st')"
  using assms allocated_fresh [OF assms(1)]
  unfolding staged_def write_node_def set_node_def by (auto simp: fun_eq_iff)

lemma staged_untouched:
  assumes "allocated st" and "staged D tmp b st st'" and "leaf \<noteq> tmp"
  shows "untouched leaf st st'"
  using assms allocated_fresh [OF assms(1)]
  unfolding staged_def untouched_def files_kept_def entry_def by (auto simp: update_conv')

lemma unstage_untouched:
  assumes "allocated st" and "staged D tmp b st st'" and "leaf \<noteq> tmp"
  shows "untouched leaf st (del_entry D tmp st')"
  using assms allocated_fresh [OF assms(1)]
  unfolding staged_def untouched_def files_kept_def entry_def del_entry_def set_node_def
  by (auto simp: update_conv' map_of_drop_name)

lemma staged_rename:
  assumes st: "allocated st" "staged D tmp b st st'" "leaf \<noteq> tmp" and names: "plain tmp" "plain leaf"
    and rename: "renameat st' D tmp D leaf = Inr st2"
  shows "content st2 D leaf = Some b \<and> files_kept st st2"
proof -
  obtain p es where p: "st_nodes st D = Some (Dir p es)"
    and st': "st_nodes st' = (st_nodes st)(st_next st \<mapsto> Reg b, D \<mapsto> Dir p (AList.update tmp (st_next st) es))"
    using st(2) unfolding staged_def by blast
  have D: "D \<noteq> st_next st" using p allocated_fresh [OF st(1)] by auto
  have tmp: "entry st' D tmp = Some (st_next st)" by (simp add: entry_def st' update_conv')
  have "entry st D leaf \<noteq> Some (st_next st)" using st(1) unfolding allocated_def by force
  then have leaf: "entry st' D leaf \<noteq> Some (st_next st)" using st(3) p by (auto simp: entry_def st' update_conv')
  have "st2 = set_parent (st_next st) D (set_entry D leaf (st_next st) (del_entry D tmp st'))"
    using rename tmp leaf parent_of_plain [OF names(1), of st' D] parent_of_plain [OF names(2), of st' D]
    by (auto simp: renameat_def split: sum.splits prod.splits option.splits if_splits)
  moreover have "st_nodes st (st_next st) = None" by (rule allocated_fresh [OF st(1)])
  ultimately show ?thesis
    using D p st(3)
    by (auto simp: content_def files_kept_def entry_def set_parent_def set_entry_def del_entry_def set_node_def st'
        update_conv' map_of_drop_name)
qed

text \<open>What an attempt to write may leave behind.\<close>

definition atomic_outcome :: "ino \<Rightarrow> str \<Rightarrow> str \<Rightarrow> store \<Rightarrow> (fs_exc + 'a) \<Rightarrow> store \<Rightarrow> bool" where
  "atomic_outcome D leaf data st r st' \<longleftrightarrow>
     (case r of Inr _ \<Rightarrow> content st' D leaf = Some data \<and> files_kept st st' | Inl _ \<Rightarrow> untouched leaf st st')"

lemma untouched_refl: "untouched leaf st st"
  by (simp add: untouched_def files_kept_def)

lemma unlinkat_plain:
  assumes "plain tmp" and "unlinkat st D tmp = Inr st'"
  shows "st' = del_entry D tmp st"
  using assms parent_of_plain [OF assms(1), of st D]
  by (auto simp: unlinkat_def split: sum.splits prod.splits option.splits node.splits)

text \<open>The cleanup after a failure.\<close>

lemma cleanup_untouched:
  assumes "allocated st" "staged D tmp b st (w_store s)" "leaf \<noteq> tmp" "plain tmp" "undisturbed s"
    and "hbind (suppress_oserror (change_call (\<lambda>st. unlinkat st D tmp))) (\<lambda>_. case e of OSErr _ \<Rightarrow> hraise (FsRuntime []) | _ \<Rightarrow> hraise e) s = (r, t)"
  shows "(\<exists>e. r = Inl e) \<and> untouched leaf st (w_store t)"
proof -
  obtain q u where q: "change_call (\<lambda>st. unlinkat st D tmp) s = (q, u)" by force
  have "(\<exists>e. q = Inl (OSErr e)) \<and> w_store u = w_store s \<or> q = Inr () \<and> w_store u = del_entry D tmp (w_store s)"
    using undisturbed_syscall(2) [OF assms(5) q [unfolded change_call_def]] unlinkat_plain [OF assms(4)]
    by (auto simp: map_sum_Inr_cases)
  then have "untouched leaf st (w_store u)"
    using staged_untouched [OF assms(1-3)] unstage_untouched [OF assms(1-3)] by auto
  moreover have "(\<exists>e. r = Inl e) \<and> t = u"
  proof -
    have "suppress_oserror (change_call (\<lambda>st. unlinkat st D tmp)) s = (Inr (), u)"
      using q undisturbed_syscall(2) [OF assms(5) q [unfolded change_call_def]]
      by (auto simp: suppress_oserror_def on_oserror_def hcatch_def handler_simps)
    then show ?thesis using assms(6) by (cases e) (auto simp: handler_simps)
  qed
  ultimately show ?thesis by simp
qed

lemma open_tmp_staged:
  assumes "allocated st" "plain tmp"
    and "openat st (RDONLY\<lparr>o_write := True, o_creat := True, o_excl := True, o_nofollow := True\<rparr>) (D, []) tmp = Inr (i, st')"
  shows "i = st_next st \<and> staged D tmp [] st st'"
proof -
  obtain d name where pn: "parent_of st D tmp = Inr (d, name)" "entry st d name = None"
      "i = st_next st" "st' = create d name (Reg []) st"
    using assms(3) by (auto simp: openat_def RDONLY_def split: sum.splits prod.splits option.splits)
  have eq: "d = D \<and> name = tmp" using parent_of_plain [OF assms(2) pn(1)] .
  obtain p es where "st_nodes st D = Some (Dir p es)"
    using pn(1) eq by (auto simp: parent_of_def Let_def split: if_splits sum.splits prod.splits option.splits node.splits)
  then show ?thesis using pn eq staged_create [OF assms(1)] by simp
qed

lemma fsync_undisturbed: "undisturbed s \<Longrightarrow> os_fsync s = (r, t) \<Longrightarrow> undisturbed t \<and> w_store t = w_store s"
  unfolding os_fsync_def using undisturbed_query(1,2) by blast

lemma fsync_dir_result: "undisturbed s \<Longrightarrow> fsync_dir s = (r, t) \<Longrightarrow> r = Inr () \<and> w_store t = w_store s"
proof -
  assume u: "undisturbed s" and r: "fsync_dir s = (r, t)"
  obtain q v where q: "os_fsync s = (q, v)" by force
  have "(\<exists>e. q = Inl (OSErr e)) \<or> q = Inr ()"
    using q by (auto simp: os_fsync_def query_call_def syscall_def split: prod.splits option.splits sum.splits)
  then show ?thesis
    using r q fsync_undisturbed [OF u q]
    by (auto simp: fsync_dir_def suppress_oserror_def on_oserror_def hcatch_def handler_simps)
qed

text \<open>Writing and syncing the temporary file.\<close>

lemma fill_tmp:
  assumes "allocated st" "staged D tmp [] st (w_store s)" "undisturbed s"
    and "hfinally (hbind (os_write (st_next st) data) (\<lambda>_. os_fsync)) os_close s = (r, t)"
  shows "undisturbed t \<and> (\<exists>b. staged D tmp b st (w_store t) \<and> (r = Inr () \<longrightarrow> b = data))"
proof -
  obtain v where v: "hbind (os_write (st_next st) data) (\<lambda>_. os_fsync) s = (r, v)" "w_store t = w_store v"
    using hfinally_close [OF assms(4)] by blast
  have script: "w_script t = w_script v"
    using assms(4) v(1) by (auto simp: hfinally_def os_close_def handler_simps)
  from v(1) have "undisturbed v \<and> (\<exists>b. staged D tmp b st (w_store v) \<and> (r = Inr () \<longrightarrow> b = data))"
  proof (cases rule: hbind_cases)
    case (raises e)
    then show ?thesis using undisturbed_write [OF assms(3) raises(1)] staged_write [OF assms(1,2)] by fastforce
  next
    case (returns x u)
    then show ?thesis
      using undisturbed_write [OF assms(3) returns(1)] staged_write [OF assms(1,2), of data] fsync_undisturbed [OF _ returns(2)] by fastforce
  qed
  then show ?thesis using v(2) script by (simp add: undisturbed_def)
qed

lemma atomic_write_outcome:
  assumes st: "allocated (w_store s)" and u: "undisturbed s" and leaf: "plain leaf" and pid: "CHR ''/'' \<notin> set (fe_pid env)"
    and run: "atomic_write_posix env D leaf data s = (r, t)"
  shows "atomic_outcome D leaf data (w_store s) r (w_store t)"
proof -
  define tmp where "tmp = tmp_name env leaf"
  have tmp: "plain tmp" "leaf \<noteq> tmp" unfolding tmp_def using plain_tmp [OF leaf pid] by (auto simp: tmp_name_def)
  from run [unfolded atomic_write_posix_def Let_def, folded tmp_def] show ?thesis
  proof (cases rule: hbind_cases)
    case (raises e)
    then obtain q where "os_open (RDONLY\<lparr>o_write := True, o_creat := True, o_excl := True, o_nofollow := True\<rparr>) (D, []) tmp s = (q, t)"
      "\<forall>x. q \<noteq> Inr x" using as_errors_raise(2) [OF raises(1)] by auto
    note q = this
    have "w_store t = w_store s" using undisturbed_open(2) [OF u q(1)] q(2) by blast
    then show ?thesis using raises(2) untouched_refl by (simp add: atomic_outcome_def)
  next
    case (returns i v)
    have "os_open (RDONLY\<lparr>o_write := True, o_creat := True, o_excl := True, o_nofollow := True\<rparr>) (D, []) tmp s = (Inr i, v)"
      using as_errors_raise(2) [OF returns(1)] by auto
    note v = undisturbed_open [OF u this]
    have i: "i = st_next (w_store s)" "staged D tmp [] (w_store s) (w_store v)"
      using v(2) open_tmp_staged [OF st tmp(1)] by auto
    define act where "act = hbind (hfinally (hbind (os_write i data) (\<lambda>_. os_fsync)) os_close) (\<lambda>_.
         hbind (change_call (\<lambda>st. renameat st D tmp D leaf)) (\<lambda>_. fsync_dir))"
    obtain q w where q: "act v = (q, w)" by force
    have acted: "(\<exists>e b. q = Inl e \<and> undisturbed w \<and> staged D tmp b (w_store s) (w_store w)) \<or>
        q = Inr () \<and> content (w_store w) D leaf = Some data \<and> files_kept (w_store s) (w_store w)"
      using q unfolding act_def
    proof (cases rule: hbind_cases)
      case (raises e)
      then show ?thesis using fill_tmp [OF st i(2) v(1)] i(1) by blast
    next
      case (returns x u1)
      then have f: "undisturbed u1" "staged D tmp data (w_store s) (w_store u1)"
        using fill_tmp [OF st i(2) v(1)] i(1) by auto
      from returns(2) show ?thesis
      proof (cases rule: hbind_cases)
        case (raises e)
        then show ?thesis using undisturbed_syscall [OF f(1) raises(1) [unfolded change_call_def]] f(2) by auto
      next
        case (returns y u2)
        have "undisturbed u2" "renameat (w_store u1) D tmp D leaf = Inr (w_store u2)"
          using undisturbed_syscall [OF f(1) returns(1) [unfolded change_call_def]] by (auto simp: map_sum_Inr_cases)
        then show ?thesis
          using staged_rename [OF st f(2) tmp(2) tmp(1) leaf] fsync_dir_result [OF _ returns(2)] by auto
      qed
    qed
    show ?thesis
    proof (cases q)
      case (Inl e)
      then have "hbind (suppress_oserror (change_call (\<lambda>st. unlinkat st D tmp)))
          (\<lambda>_. case e of OSErr _ \<Rightarrow> hraise (FsRuntime []) | _ \<Rightarrow> hraise e) w = (r, t)"
        using returns(2) q by (simp add: hcatch_def act_def)
      note c = this
      obtain b where "undisturbed w" "staged D tmp b (w_store s) (w_store w)" using acted Inl by auto
      then show ?thesis
        using cleanup_untouched [OF st _ tmp(2,1) _ c] by (fastforce simp: atomic_outcome_def)
    next
      case (Inr x)
      then show ?thesis using returns(2) q acted by (auto simp: hcatch_def act_def atomic_outcome_def)
    qed
  qed
qed

section \<open>A write request\<close>

lemma guard_clobber_undisturbed:
  assumes "undisturbed s" and "guard_clobber_posix pfd leaf overwrite s = (r, t)"
  shows "undisturbed t" and "w_store t = w_store s"
proof -
  obtain q u where q: "stat_at pfd leaf s = (q, u)" by force
  note u = undisturbed_query(1,2) [OF assms(1) q [unfolded stat_at_def]]
  have "t = s \<or> t = u"
    using assms(2) q unfolding guard_clobber_posix_def
    by (auto simp: hbind_def handler_simps on_oserror_def hcatch_def split: if_splits sum.splits fs_exc.splits)
  then show "undisturbed t" and "w_store t = w_store s" using u assms(1) by auto
qed

lemma guarded_write_outcome:
  assumes "allocated (w_store s)" "undisturbed s" "plain leaf" "CHR ''/'' \<notin> set (fe_pid env)"
    and "hbind (guard_clobber_posix D leaf overwrite) (\<lambda>_. atomic_write_posix env D leaf data) s = (r, t)"
  shows "atomic_outcome D leaf data (w_store s) r (w_store t)"
  using assms(5)
proof (cases rule: hbind_cases)
  case (raises e)
  then show ?thesis using guard_clobber_undisturbed [OF assms(2) raises(1)] untouched_refl by (simp add: atomic_outcome_def)
next
  case (returns x u)
  then show ?thesis
    using guard_clobber_undisturbed [OF assms(2) returns(1)] atomic_write_outcome [OF _ _ assms(3,4) returns(2)] assms(1) by simp
qed

text \<open>
  C16: A write is atomic. Any system call of it may fail, and the write of the data after any number of
  bytes. If the write returns, the name leads to a file with all of the data, in the directory the path names; if it
  raises, the name leads to the file it led to before, in every directory. In both cases every file that
  existed keeps its content: it is replaced, never changed in place.
\<close>

theorem fs_write_atomic:
  assumes "undisturbed s" and "allocated (w_store s)" and "CHR ''/'' \<notin> set (fe_pid env)"
    and "split_components target = Inr comps"
    and "write_bytes env [sr] target data None overwrite s = (r, t)"
  shows "case r of
      Inr _ \<Rightarrow> (\<exists>D. locate (w_store s) (sr_dir sr) (butlast comps) = Some D \<and>
        content (w_store t) D (last comps) = Some data) \<and> files_kept (w_store s) (w_store t)
    | Inl _ \<Rightarrow> (\<forall>D. entry (w_store t) D (last comps) = entry (w_store s) D (last comps)) \<and> files_kept (w_store s) (w_store t)"
proof (cases "comps = []")
  case True
  then show ?thesis
    using assms(4,5) by (auto simp: write_bytes_def handler_simps hlift_def hensure_def files_kept_def)
next
  case False
  define body where "body D leaf = hbind (guard_clobber_posix D leaf overwrite) (\<lambda>_. atomic_write_posix env D leaf data)" for D leaf
  have plains: "list_all plain comps" "plain (last comps)"
    using split_components_plain [OF assms(4)] False by (auto simp: list_all_iff)
  obtain q where q: "descend env (sr_dir sr) comps body s = (q, t)" and r: "r = map_sum id (\<lambda>_. display sr comps) q"
    using assms(4,5) False
    by (cases "descend env (sr_dir sr) comps body s")
      (auto simp: write_bytes_def handler_simps pick_root_def body_def [abs_def] hbind_def split: sum.splits)
  from descend_result [OF plains(1) assms(1) q] show ?thesis
  proof (elim disjE exE conjE)
    fix e assume "q = Inl e" and "w_store t = w_store s"
    then show ?thesis using r by (simp add: files_kept_def)
  next
    fix D u v
    assume D: "locate (w_store s) (sr_dir sr) (butlast comps) = Some D" and u: "undisturbed u" "w_store u = w_store s"
      and b: "body D (last comps) u = (q, v)" and t: "w_store t = w_store v"
    have "atomic_outcome D (last comps) data (w_store s) q (w_store t)"
      using guarded_write_outcome [OF _ u(1) plains(2) assms(3) b [unfolded body_def]] assms(2) u(2) t by simp
    then show ?thesis using r D by (cases q) (auto simp: atomic_outcome_def untouched_def)
  qed
qed

text \<open>The witness: the disk is full after one byte.\<close>

definition demo_full :: world where
  "demo_full = demo_world\<lparr>w_script := [(id, None), (id, Some (ENOSPC, 1))]\<rparr>"

definition demo_overwrite :: "(fs_exc + str) \<times> world" where
  "demo_overwrite = write_bytes demo_env demo_roots ''a.txt'' ''new'' None True demo_full"

lemma demo_overwrite_raises: "fst demo_overwrite = Inl (FsRuntime [])"
  by code_simp

lemma demo_allocated: "allocated demo_store"
  by (auto simp: allocated_def entry_Some_iff demo_store_def split: if_splits)

theorem fs_write_atomic_witness:
  "fst demo_overwrite = Inl (FsRuntime []) \<and>
   (\<forall>D. entry (w_store (snd demo_overwrite)) D ''a.txt'' = entry demo_store D ''a.txt'') \<and>
   files_kept demo_store (w_store (snd demo_overwrite))"
proof -
  have start: "undisturbed demo_full" "w_store demo_full = demo_store" "allocated (w_store demo_full)"
    using demo_allocated by (simp_all add: undisturbed_def demo_full_def demo_world_def)
  have comps: "split_components ''a.txt'' = Inr [''a.txt'']" by code_simp
  have pid: "CHR ''/'' \<notin> set (fe_pid demo_env)" by (simp add: demo_env_def)
  show ?thesis
    using fs_write_atomic [OF start(1,3) pid comps surjective_pairing, of "hd demo_roots" "''new''" True]
      demo_overwrite_raises start(2)
    by (simp add: demo_overwrite_def demo_roots_def)
qed

end
