(* ===== verification/Fs_Descriptor_Claims.thy ===== *)
theory Fs_Descriptor_Claims
  imports Fs_Atomic_Claims
begin

text \<open>
  File descriptors: a request closes what it opened, however it ends, and a session closes its roots, also if opening one of
  them fails. Removing a file is the exception: it leaves a descriptor open if another process puts a directory in the
  place of the file between \<open>os.stat\<close> and \<open>os.open\<close>.
\<close>

section \<open>Balanced actions\<close>

text \<open>The flag says whether the statement is only about a run that other processes do not disturb.\<close>

definition calm :: "bool \<Rightarrow> world \<Rightarrow> bool" where
  "calm q s \<longleftrightarrow> (q \<longrightarrow> undisturbed s)"

definition same_fds :: "bool \<Rightarrow> world \<Rightarrow> world \<Rightarrow> bool" where
  "same_fds q s t \<longleftrightarrow> (calm q s \<longrightarrow> calm q t \<and> w_fds t = w_fds s)"

interpretation fd: frame "same_fds q" for q
  by unfold_locales (auto simp: same_fds_def)

abbreviation balanced :: "bool \<Rightarrow> 'a io \<Rightarrow> bool" where
  "balanced q \<equiv> keeps (same_fds q)"

text \<open>Actions that leave one more descriptor open if they return, and actions that close one however they end.\<close>

definition opens :: "bool \<Rightarrow> 'a io \<Rightarrow> bool" where
  "opens q f \<longleftrightarrow> (\<forall>s r t. calm q s \<longrightarrow> f s = (r, t) \<longrightarrow> calm q t \<and> w_fds t = w_fds s + (case r of Inl _ \<Rightarrow> 0 | Inr _ \<Rightarrow> 1))"

definition closes :: "bool \<Rightarrow> 'a io \<Rightarrow> bool" where
  "closes q f \<longleftrightarrow> (\<forall>s r t. calm q s \<longrightarrow> f s = (r, t) \<longrightarrow> calm q t \<and> w_fds t = w_fds s - 1)"

lemma balanced_result:
  assumes "balanced q f" "calm q s" "f s = (r, t)"
  shows "calm q t \<and> w_fds t = w_fds s"
  using keepsD [OF assms(1,3)] assms(2) unfolding same_fds_def by blast

lemma balancedI: "(\<And>s r t. calm q s \<Longrightarrow> f s = (r, t) \<Longrightarrow> calm q t \<and> w_fds t = w_fds s) \<Longrightarrow> balanced q f"
  unfolding same_fds_def by (rule keepsI) blast

lemma opens_result: "opens q f \<Longrightarrow> calm q s \<Longrightarrow> f s = (r, t) \<Longrightarrow> calm q t \<and> w_fds t = w_fds s + (case r of Inl _ \<Rightarrow> 0 | Inr _ \<Rightarrow> 1)"
  unfolding opens_def by blast

lemma closes_result: "closes q f \<Longrightarrow> calm q s \<Longrightarrow> f s = (r, t) \<Longrightarrow> calm q t \<and> w_fds t = w_fds s - 1"
  unfolding closes_def by blast

lemma balanced_open_close:
  assumes "opens q f" and "\<And>x. closes q (g x)"
  shows "balanced q (hbind f g)"
proof (rule balancedI)
  fix s r t assume "calm q s" "hbind f g s = (r, t)"
  from this(2) show "calm q t \<and> w_fds t = w_fds s"
    using opens_result [OF assms(1) \<open>calm q s\<close>] closes_result [OF assms(2)]
    by (cases rule: hbind_cases) fastforce+
qed

lemma closes_finally:
  assumes "balanced q f"
  shows "closes q (hfinally f os_close)"
  unfolding closes_def
proof (intro allI impI)
  fix s r t assume c: "calm q s" and h: "hfinally f os_close s = (r, t)"
  obtain p u where f: "f s = (p, u)" by force
  show "calm q t \<and> w_fds t = w_fds s - 1"
    using h f balanced_result [OF assms c f] by (auto simp: hfinally_def os_close_def handler_simps calm_def undisturbed_def)
qed

lemma closes_bind:
  assumes "closes q f" and "\<And>x. balanced q (g x)"
  shows "closes q (hbind f g)"
  unfolding closes_def
proof (intro allI impI)
  fix s r t assume c: "calm q s" and "hbind f g s = (r, t)"
  from this(2) show "calm q t \<and> w_fds t = w_fds s - 1"
    using closes_result [OF assms(1) c] balanced_result [OF assms(2)]
    by (cases rule: hbind_cases) fastforce+
qed

lemma closes_catch:
  assumes "closes q f" and "\<And>e. balanced q (h e)"
  shows "closes q (hcatch f h)"
  unfolding closes_def
proof (intro allI impI)
  fix s r t assume c: "calm q s" and h: "hcatch f h s = (r, t)"
  obtain p u where f: "f s = (p, u)" by force
  show "calm q t \<and> w_fds t = w_fds s - 1"
    using h f closes_result [OF assms(1) c f] balanced_result [OF assms(2), of u _ r t]
    by (cases p) (auto simp: hcatch_def)
qed

section \<open>Calls\<close>

lemma calm_script: "w_script t = w_script s \<Longrightarrow> calm q t = calm q s"
  by (simp add: calm_def undisturbed_def)

lemma interference_fds: "interference s = (fault, s') \<Longrightarrow> calm q s \<Longrightarrow> calm q s' \<and> w_fds s' = w_fds s"
  by (auto simp: interference_def calm_def undisturbed_def split: list.splits)

lemma balanced_syscall: "balanced q (syscall f)"
proof (rule balancedI)
  fix s r t assume c: "calm q s" and run: "syscall f s = (r, t)"
  obtain fault s' where i: "interference s = (fault, s')" by force
  have "w_fds t = w_fds s'" "w_script t = w_script s'"
    using run i by (auto simp: syscall_def split: option.splits sum.splits prod.splits)
  then show "calm q t \<and> w_fds t = w_fds s" using interference_fds [OF i c] calm_script by metis
qed

lemma balanced_write: "balanced q (os_write i data)"
proof (rule balancedI)
  fix s r t assume c: "calm q s" and run: "os_write i data s = (r, t)"
  obtain fault s' where i: "interference s = (fault, s')" by force
  have "w_fds t = w_fds s'" "w_script t = w_script s'"
    using run i by (auto simp: os_write_def split: option.splits prod.splits)
  then show "calm q t \<and> w_fds t = w_fds s" using interference_fds [OF i c] calm_script by metis
qed

lemma balanced_plain: "(\<And>s. w_fds (snd (f s)) = w_fds s \<and> w_script (snd (f s)) = w_script s) \<Longrightarrow> balanced q f"
  by (simp add: keeps_def same_fds_def calm_def undisturbed_def)

lemma balanced_calls:
  "balanced q (query_call p)" "balanced q (change_call c)" "balanced q (os_write i data)" "balanced q (audit e)"
  "balanced q read_clock" "balanced q draw_id"
  unfolding query_call_def change_call_def
  by (rule balanced_syscall, rule balanced_syscall, rule balanced_write)
    (rule balanced_plain, auto simp: audit_def read_clock_def draw_id_def handler_simps split: list.splits)+

lemma balanced_query_at: "balanced q (\<lambda>s. query_call (F s) s)"
  by (rule keepsI) (rule keepsD [OF balanced_calls(1)])

lemma opens_open: "opens q (os_open fl start path)"
  unfolding opens_def
proof (intro allI impI)
  fix s r t assume c: "calm q s" and "os_open fl start path s = (r, t)"
  from this(2) [unfolded os_open_def] show "calm q t \<and> w_fds t = w_fds s + (case r of Inl _ \<Rightarrow> 0 | Inr _ \<Rightarrow> 1)"
  proof (cases rule: hbind_cases)
    case (raises e)
    then show ?thesis using balanced_result [OF balanced_syscall c raises(1)] by simp
  next
    case (returns i u)
    then show ?thesis using balanced_result [OF balanced_syscall c returns(1)] calm_script [of t u]
      by (auto simp: handler_simps hbind_def)
  qed
qed

lemma opens_on_oserror:
  assumes "opens q f" and "\<And>n s. \<exists>e. h n s = (Inl e, s)"
  shows "opens q (on_oserror f h)"
  unfolding opens_def
proof (intro allI impI)
  fix s r t assume c: "calm q s" and run: "on_oserror f h s = (r, t)"
  obtain p u where f: "f s = (p, u)" by force
  have "t = u \<and> ((\<exists>e. r = Inl e) \<longleftrightarrow> (\<exists>e. p = Inl e))"
  proof (cases p)
    case (Inl e)
    show ?thesis
    proof (cases e)
      case (OSErr n)
      then show ?thesis using run f Inl assms(2) [of n u] by (auto simp: on_oserror_def hcatch_def)
    qed (use run f Inl in \<open>auto simp: on_oserror_def hcatch_def handler_simps\<close>)
  qed (use run f in \<open>auto simp: on_oserror_def hcatch_def\<close>)
  then show "calm q t \<and> w_fds t = w_fds s + (case r of Inl _ \<Rightarrow> 0 | Inr _ \<Rightarrow> 1)"
    using opens_result [OF assms(1) c f] by (auto split: sum.splits)
qed

lemma opens_errors: "opens q f \<Longrightarrow> opens q (as_path_error env f)" "opens q f \<Longrightarrow> opens q (as_plain_path_error f)" "opens q f \<Longrightarrow> opens q (as_runtime_error f)"
  unfolding as_path_error_def as_plain_path_error_def as_runtime_error_def
  by (rule opens_on_oserror; auto simp: raise_macos_permission_def hbind_def handler_simps)+

lemma balanced_on_oserror: "balanced q f \<Longrightarrow> (\<And>n. balanced q (h n)) \<Longrightarrow> balanced q (on_oserror f h)"
  unfolding on_oserror_def by (rule fd.keeps_catch) (auto split: fs_exc.split intro: fd.keeps_raise)

lemma balanced_macos: "balanced q (raise_macos_permission env n)"
  unfolding raise_macos_permission_def by (auto intro: fd.keeps_basic)

lemma balanced_if: "balanced q f \<Longrightarrow> balanced q g \<Longrightarrow> balanced q (if b then f else g)"
  by simp

lemma balanced_errors:
  "balanced q f \<Longrightarrow> balanced q (as_path_error env f)" "balanced q f \<Longrightarrow> balanced q (as_plain_path_error f)"
  "balanced q f \<Longrightarrow> balanced q (as_runtime_error f)" "balanced q u \<Longrightarrow> balanced q (suppress_oserror u)"
  "balanced q u \<Longrightarrow> balanced q (suppress_fs_error u)" "balanced q u \<Longrightarrow> balanced q (suppress_both u)"
  unfolding as_path_error_def as_plain_path_error_def as_runtime_error_def suppress_oserror_def suppress_fs_error_def suppress_both_def
  by (auto intro!: balanced_on_oserror fd.keeps_rules balanced_macos split: fs_exc.split)

lemmas balanced_struct = balanced_errors balanced_on_oserror balanced_calls balanced_query_at balanced_macos
  fd.keeps_basic balanced_if fd.keeps_bind fd.keeps_catch

lemma balanced_modify: "(\<And>s. w_fds (f s) = w_fds s \<and> w_script (f s) = w_script s) \<Longrightarrow> balanced q (hmodify f)"
  by (rule balanced_plain) (simp add: handler_simps)

section \<open>Operations\<close>

lemma balanced_stats:
  "balanced q (os_stat p)" "balanced q (stat_at d leaf)" "balanced q (stat_fd i)" "balanced q (os_read i n)" "balanced q os_fsync" "balanced q fsync_dir"
  unfolding os_stat_def [abs_def] stat_at_def stat_fd_def os_read_def os_fsync_def fsync_dir_def
  by (intro balanced_struct)+

lemma balanced_find_root: "balanced q (find_root a expanded rs)"
  by (induction rs) (auto simp: or_else_def is_same_entity_def intro!: balanced_struct balanced_stats)

lemma balanced_pick: "balanced q (pick_root env roots rt)"
  unfolding pick_root_def by (auto simp del: find_root.simps intro!: balanced_struct balanced_find_root split: list.split option.split)

lemma balanced_descend: "(\<And>d leaf. balanced q (body d leaf)) \<Longrightarrow> balanced q (descend env d comps body)"
  by (induction env d comps body rule: descend.induct)
    (auto intro!: balanced_open_close opens_errors opens_open closes_finally fd.keeps_basic)

lemma closes_read_fd: "closes q (read_fd env i n skip)"
  unfolding read_fd_def by (intro closes_finally balanced_struct balanced_stats)

lemma balanced_collect: "balanced q (collect_entries env d skip names acc skipped)"
  by (induction env d skip names acc skipped rule: collect_entries.induct)
    (auto intro!: balanced_struct balanced_stats split: option.split)

lemma balanced_listdir_fd: "balanced q (listdir_fd env d skip)"
  unfolding listdir_fd_def report_skipped_entries_def split_def
  by (intro balanced_struct balanced_collect)

lemma balanced_guard: "balanced q (guard_clobber_posix pfd leaf overwrite)"
  unfolding guard_clobber_posix_def by (intro balanced_struct balanced_stats)

lemma balanced_atomic: "balanced q (atomic_write_posix env pfd leaf data)"
  unfolding atomic_write_posix_def Let_def
  by (rule balanced_open_close)
    (auto intro!: opens_errors opens_open closes_catch closes_bind closes_finally balanced_struct balanced_stats split: fs_exc.split)

lemma balanced_ops:
  "balanced q (read_bytes env roots target rt n skip)"
  "balanced q (stat_op env roots target rt)"
  "balanced q (list_dir env roots target rt skip)"
  "balanced q (write_bytes env roots target data rt overwrite)"
  "balanced q (append_bytes env roots target data rt)"
  "balanced q (mkdir env roots target rt)"
  "balanced q (move env roots target dst rt overwrite)"
  "balanced q (rmdir env roots target rt)"
  unfolding read_bytes_def stat_op_def list_dir_def write_bytes_def append_bytes_def mkdir_def move_def rmdir_def split_def
  by (intro balanced_open_close opens_errors opens_open closes_read_fd closes_finally balanced_descend balanced_pick balanced_stats
      balanced_listdir_fd balanced_guard balanced_atomic balanced_struct)+

section \<open>Removing a file\<close>

text \<open>Without interference the leaf that was a regular file is the one that is opened.\<close>

lemma reopened_leaf:
  assumes "fstatat st False (pfd, []) leaf = Inr info" "s_kind info = KFile" "openat st (RDONLY\<lparr>o_nofollow := True\<rparr>) (pfd, []) leaf = Inr (i, st')"
  shows "st' = st \<and> \<not> is_dir st i"
  using assms
  by (auto simp: openat_def open_existing_def RDONLY_def fstatat_def fstat_def is_dir_def map_sum_Inr_cases
      split: sum.splits option.splits node.splits if_splits)

lemma sha_undisturbed:
  assumes "undisturbed s" "fstatat (w_store s) False (pfd, []) leaf = Inr info" "sha_leaf_posix env pfd leaf info m s = (r, t)"
  shows "undisturbed t \<and> w_fds t = w_fds s"
proof (cases "s_kind info \<noteq> KFile \<or> (case m of None \<Rightarrow> False | Some n \<Rightarrow> n < s_size info)")
  case True
  then show ?thesis using assms by (auto simp: sha_leaf_posix_def handler_simps split: if_splits)
next
  case False
  let ?fl = "RDONLY\<lparr>o_nofollow := True\<rparr>"
  obtain p u where o: "os_open ?fl (pfd, []) leaf s = (p, u)" by force
  note fds = opens_result [OF opens_open [of True] _ o, unfolded calm_def, simplified, OF assms(1)]
  show ?thesis
  proof (cases p)
    case (Inl e)
    then obtain n where "e = OSErr n" using undisturbed_open(2) [OF assms(1) o] by auto
    then show ?thesis using assms(3) False o Inl fds
      by (auto simp: sha_leaf_posix_def on_oserror_def hcatch_def hbind_def handler_simps split: if_splits)
  next
    case (Inr i)
    let ?rest = "hfinally (hbind (query_call (\<lambda>st. case st_nodes st i of Some (Reg b) \<Rightarrow> Inr b | _ \<Rightarrow> Inl EISDIR)) (\<lambda>data.
        hret (Some (fe_sha256 env data)))) os_close"
    have "openat (w_store s) ?fl (pfd, []) leaf = Inr (i, w_store u)" using undisturbed_open(2) [OF assms(1) o] Inr by auto
    then have "\<not> is_dir (w_store u) i" using reopened_leaf [OF assms(2)] False by auto
    then have "?rest u = (r, t)" using assms(3) False o Inr
      by (auto simp: sha_leaf_posix_def on_oserror_def hcatch_def hbind_def handler_simps split: if_splits)
    moreover have "closes True ?rest" by (intro closes_finally balanced_struct)
    ultimately show ?thesis using closes_result [of True ?rest u r t] fds Inr by (simp add: calm_def)
  qed
qed

lemma balanced_stat_sha:
  assumes "\<And>info x. balanced True (g info x)"
  shows "balanced True (hbind (as_plain_path_error (stat_at pfd leaf)) (\<lambda>info. hbind (hensure (ok info) e) (\<lambda>_.
    hbind (sha_leaf_posix env pfd leaf info m) (g info))))"
proof (rule balancedI)
  fix s r t
  assume c: "calm True s" and run: "hbind (as_plain_path_error (stat_at pfd leaf)) (\<lambda>info. hbind (hensure (ok info) e) (\<lambda>_.
    hbind (sha_leaf_posix env pfd leaf info m) (g info))) s = (r, t)"
  obtain p u where p: "stat_at pfd leaf s = (p, u)" by force
  have us: "undisturbed s" using c by (simp add: calm_def)
  have u: "undisturbed u" "w_store u = w_store s" "w_fds u = w_fds s"
    using undisturbed_query(1,2) [OF us p [unfolded stat_at_def]] balanced_result [OF balanced_stats(2) c p] by simp_all
  show "calm True t \<and> w_fds t = w_fds s"
  proof (cases p)
    case (Inl x)
    then show ?thesis using run p u
      by (cases x) (auto simp: as_plain_path_error_def on_oserror_def hcatch_def handler_simps calm_def)
  next
    case (Inr info)
    have stat: "fstatat (w_store u) False (pfd, []) leaf = Inr info" using undisturbed_query(3) [OF us p [unfolded stat_at_def] Inr] u(2) by simp
    have "hbind (hensure (ok info) e) (\<lambda>_. hbind (sha_leaf_posix env pfd leaf info m) (g info)) u = (r, t)"
      using run p Inr by (simp add: as_plain_path_error_def on_oserror_def hcatch_def)
    then consider "t = u" | "hbind (sha_leaf_posix env pfd leaf info m) (g info) u = (r, t)"
      by (auto simp: handler_simps split: if_splits)
    then show ?thesis
    proof cases
      case 2
      then show ?thesis
      proof (cases rule: hbind_cases)
        case (raises y)
        then show ?thesis using sha_undisturbed [OF u(1) stat raises(1)] u(3) by (simp add: calm_def)
      next
        case (returns x v)
        then show ?thesis using sha_undisturbed [OF u(1) stat returns(1)] balanced_result [OF assms _ returns(2)] u(3) by (simp add: calm_def)
      qed
    qed (use u in \<open>simp add: calm_def\<close>)
  qed
qed

lemma balanced_unlink: "balanced True (unlink env roots target rt m)"
  unfolding unlink_def split_def
  by (intro balanced_stat_sha balanced_descend balanced_pick balanced_stats balanced_struct)

section \<open>Requests\<close>

lemma balanced_refuse: "balanced q (refuse op gate)"
  unfolding refuse_def by (intro balanced_struct)

lemma balanced_gates:
  "balanced q (executable cfg op reason confirm destr)" "balanced q (reserve_check op comps)" "balanced q (enforce_payload_cap cfg data)"
  "balanced q (check_injection cfg op flags)" "balanced q (dryrun op reason extra)"
  unfolding executable_def reserve_check_def enforce_payload_cap_def check_injection_def dryrun_def
  by (intro balanced_struct balanced_refuse)+

lemma balanced_check_rate: "balanced q (check_rate env cfg op sr)"
  unfolding check_rate_def Let_def
  by (auto intro!: balanced_struct balanced_refuse balanced_modify split: prod.split)

lemma balanced_quota:
  "balanced q (check_quota env cfg roots op sr db df)" "balanced q (update_ledger env cfg roots sr db df given)"
  unfolding check_quota_def update_ledger_def quota_ledger_of_def load_ledger_def save_ledger_def recompute_def walk_usage_def split_def
  by (auto intro!: balanced_struct balanced_ops balanced_refuse split: option.split)

lemma balanced_pre_size: "balanced q (pre_size env roots target rt)"
  unfolding pre_size_def by (intro balanced_struct balanced_ops)

lemmas balanced_parts = balanced_gates balanced_refuse balanced_check_rate balanced_quota balanced_pre_size balanced_pick balanced_ops

lemma balanced_trash_parts:
  "balanced True (entry_name env target now)" "balanced True (purge env cfg roots target kind rt)"
  "balanced True (to_trash env cfg roots target kind sz reason now rt)"
  unfolding to_trash_def purge_def ensure_trash_def content_sha_def make_entry_def entry_name_def Let_def
  by (auto intro!: balanced_struct balanced_parts balanced_unlink split: fs_exc.split)

lemma balanced_foreach: "(\<And>x. balanced True (f x)) \<Longrightarrow> balanced True (hforeach f xs)"
  unfolding hforeach_def by (induction xs) (auto intro!: balanced_struct)

lemma balanced_purge_tree: "balanced True (purge_tree n env roots rt rel)"
  by (induction n arbitrary: rel) (auto intro!: balanced_struct balanced_parts balanced_unlink balanced_foreach split: option.split)

lemma balanced_purge_entries: "balanced True (purge_entries env roots reason rt es purged b f)"
proof -
  have "balanced True (purge_trash_entry env roots e rt)" for e
    unfolding purge_trash_entry_def Let_def
    by (auto intro!: balanced_struct balanced_parts balanced_unlink balanced_purge_tree split: option.split)
  then show ?thesis
    by (induction env roots reason rt es purged b f rule: purge_entries.induct) (auto simp: Let_def split_def intro!: balanced_struct)
qed

lemma balanced_sweep: "balanced True (sweep_tmp env roots rt rels swept)"
  by (induction env roots rt rels swept rule: sweep_tmp.induct) (auto intro!: balanced_struct balanced_ops balanced_unlink)

lemma balanced_sidecars: "balanced True (read_sidecars env roots rt names acc)"
  by (induction env roots rt names acc rule: read_sidecars.induct) (auto intro!: balanced_struct balanced_ops balanced_unlink)

lemma balanced_list_entries: "balanced True (list_entries env roots rt)"
  unfolding list_entries_def by (auto intro!: balanced_struct balanced_ops balanced_unlink balanced_sidecars split: option.split)

lemma balanced_find_tmp: "balanced True (find_orphan_tmp sr)"
  unfolding find_orphan_tmp_def by (intro balanced_struct)

lemma balanced_requests:
  "balanced q (fs_write env cfg pats roots target data reason confirm overwrite rt)"
  "balanced q (fs_append env cfg pats roots target data reason confirm rt)"
  "balanced q (fs_mkdir env cfg roots target reason confirm rt)"
  "balanced q (fs_move env cfg roots target dst reason confirm overwrite rt)"
  unfolding fs_write_def fs_append_def fs_mkdir_def fs_move_def Let_def split_def
  by (auto intro!: balanced_struct balanced_parts split: option.split)

lemma balanced_removals:
  "balanced True (fs_delete env cfg roots target reason confirm hard rt)"
  "balanced True (trash_empty env cfg roots reason confirm all_entries rt)"
  "balanced True (trash_restore env cfg roots name reason confirm overwrite rt)"
  unfolding fs_delete_def trash_empty_def trash_restore_def
    sweep_orphan_tmp_def Let_def split_def
  by (auto intro!: balanced_struct balanced_parts balanced_unlink balanced_trash_parts balanced_purge_entries balanced_sweep balanced_list_entries
      balanced_find_tmp split: option.split)

text \<open>The requests that may remove a file: deleting, and what works on the trash.\<close>

fun may_remove :: "request \<Rightarrow> bool" where
  "may_remove (RDelete _ _ _ _ _) = True"
| "may_remove (RTrashEmpty _ _ _ _) = True"
| "may_remove (RTrashRestore _ _ _ _ _) = True"
| "may_remove _ = False"

lemma balanced_request: "balanced (may_remove req) (run_request env cfg pats roots req)"
  by (cases req) (simp_all add: balanced_requests balanced_removals)

section \<open>Sessions\<close>

lemma close_roots_fds: "close_roots rs s = (Inr (), s\<lparr>w_fds := w_fds s - int (length rs)\<rparr>)"
  by (induction rs arbitrary: s) (simp_all add: handler_simps os_close_def hbind_def)

lemma balanced_climb: "balanced q (climb o_ino ps)"
  by (induction ps) (auto intro!: balanced_struct balanced_stats)

lemma balanced_descendant: "balanced q (is_real_descendant a b)"
  unfolding is_real_descendant_def by (auto intro!: balanced_struct balanced_stats balanced_climb split: option.split)

lemma balanced_mkdir_ok: "(\<And>n. balanced q (m n)) \<Longrightarrow> balanced q (mkdir_exist_ok p m)"
proof -
  have "balanced q (os_mkdir p)" for p
    by (rule keepsI) (unfold os_mkdir_def, rule keepsD [OF balanced_calls(2)])
  then show "(\<And>n. balanced q (m n)) \<Longrightarrow> balanced q (mkdir_exist_ok p m)"
    unfolding mkdir_exist_ok_def path_is_dir_def by (auto intro!: balanced_struct balanced_stats)
qed

lemma balanced_mkdir_parents: "balanced q (mkdir_parents ps)"
  by (induction ps) (auto intro!: balanced_struct balanced_mkdir_ok)

lemma balanced_prepare: "balanced q (prepare_root env strict volumes fresh raw)"
  unfolding prepare_root_def create_root_def is_macos_volume_path_def os_resolve_def [abs_def] Let_def
  by (intro balanced_struct balanced_stats balanced_mkdir_parents balanced_descendant)

lemma balanced_overlaps: "balanced q (check_overlaps p seen)"
  by (induction seen) (auto simp: overlaps_def or_else_def intro!: balanced_struct balanced_descendant)

lemma opens_root: "opens q (open_root env strict volumes fresh roots raw)"
proof -
  have 1: "opens q (hbind f g)" if "balanced q f" "\<And>x. opens q (g x)" for f :: "'b io" and g :: "'b \<Rightarrow> 'a io"
    unfolding opens_def
  proof (intro allI impI)
    fix s r t assume c: "calm q s" and "hbind f g s = (r, t)"
    from this(2) show "calm q t \<and> w_fds t = w_fds s + (case r of Inl _ \<Rightarrow> 0 | Inr _ \<Rightarrow> 1)"
      using balanced_result [OF that(1) c] opens_result [OF that(2)] by (cases rule: hbind_cases) auto
  qed
  have 2: "opens q (hbind f (\<lambda>x. hret (g x)))" if "opens q f" for f :: "ino io" and g
    unfolding opens_def
  proof (intro allI impI)
    fix s r t assume c: "calm q s" and "hbind f (\<lambda>x. hret (g x)) s = (r, t)"
    from this(2) show "calm q t \<and> w_fds t = w_fds s + (case r of Inl _ \<Rightarrow> 0 | Inr _ \<Rightarrow> 1)"
      using opens_result [OF that c] by (cases rule: hbind_cases) (auto simp: handler_simps)
  qed
  show ?thesis
    unfolding open_root_def
    by (intro 1 2 balanced_prepare balanced_overlaps opens_errors opens_open)
qed

lemma open_roots_fds:
  "open_roots env strict volumes fresh roots raws s = (r, t) \<Longrightarrow> calm q s \<Longrightarrow>
   calm q t \<and> w_fds t = w_fds s - int (length roots) + (case r of Inl _ \<Rightarrow> 0 | Inr rs \<Rightarrow> int (length rs))"
proof (induction raws arbitrary: roots s)
  case (Cons raw raws)
  obtain p u where o: "open_root env strict volumes fresh roots raw s = (p, u)" by force
  note fds = opens_result [OF opens_root Cons.prems(2) o]
  show ?case
  proof (cases p)
    case (Inl e)
    then show ?thesis using Cons.prems o fds
      by (auto simp: hcatch_def hbind_def close_roots_fds handler_simps calm_def undisturbed_def)
  next
    case (Inr sr)
    have "open_roots env strict volumes fresh (roots @ [sr]) raws u = (r, t)"
      using Cons.prems o Inr by (simp add: hcatch_def hbind_def)
    then show ?thesis using Cons.IH [of "roots @ [sr]" u] fds Inr by simp
  qed
qed (auto simp: handler_simps)

text \<open>
  C17: A session (opening the writable roots, one request, closing) leaves exactly as many file descriptors open as before it. For
  writing, appending, making a directory and moving this holds whatever fails and whatever other processes do between two system calls. For deleting,
  emptying the trash and restoring from it, it holds if no other process changes the file system meanwhile; any call may still fail. It also holds
  if a root cannot be opened.
\<close>

theorem fs_no_descriptor_leak:
  assumes "may_remove req \<Longrightarrow> undisturbed s"
  shows "w_fds (snd (with_writer env cfg (\<lambda>roots. run_request env cfg pats roots req) s)) = w_fds s"
proof -
  obtain p u where o: "open_roots env (fc_strict_roots cfg) (fc_allow_macos_volume_roots cfg) True [] (fc_writable_roots cfg) s = (p, u)"
    by force
  have c: "calm (may_remove req) s" using assms by (simp add: calm_def)
  note roots_fds = open_roots_fds [OF o c]
  show ?thesis
  proof (cases p)
    case (Inr roots)
    obtain r v where run: "run_request env cfg pats roots req u = (r, v)" by force
    have "w_fds v = w_fds u" using balanced_result [OF balanced_request _ run] roots_fds by blast
    then show ?thesis
      using o Inr run roots_fds by (simp add: with_writer_def hfinally_def close_roots_fds)
  qed (use o roots_fds in \<open>simp add: with_writer_def\<close>)
qed

text \<open>A deletion whose calls may fail, and an overwrite while another process interferes.\<close>

theorem fs_no_descriptor_leak_witness:
  "w_fds (snd (with_writer demo_env demo_fs_config (\<lambda>roots. run_request demo_env demo_fs_config [] roots (RDelete ''a.txt'' ''because'' True True None))
     (demo_world\<lparr>w_script := [(id, None), (id, Some (EIO, 0))]\<rparr>))) = 1 \<and>
   w_fds (snd (with_writer demo_env demo_fs_config (\<lambda>roots. run_request demo_env demo_fs_config [] roots demo_write)
     (demo_world\<lparr>w_script := [(id, None), (\<lambda>st. st\<lparr>st_nodes := Map.empty\<rparr>, None)]\<rparr>))) = 1"
proof -
  let ?s = "demo_world\<lparr>w_script := [(id, None), (id, Some (EIO, 0))]\<rparr>" and ?t = "demo_world\<lparr>w_script := [(id, None), (\<lambda>st. st\<lparr>st_nodes := Map.empty\<rparr>, None)]\<rparr>"
  have "undisturbed ?s" by (simp add: undisturbed_def)
  moreover have "\<not> may_remove demo_write" by (simp add: demo_write_def)
  ultimately show ?thesis
    using fs_no_descriptor_leak [of "RDelete ''a.txt'' ''because'' True True None" ?s demo_env demo_fs_config "[]"]
      fs_no_descriptor_leak [of demo_write ?t demo_env demo_fs_config "[]"]
    by (simp add: demo_world_def)
qed

section \<open>A leak\<close>

text \<open>Another process replaces the file by a directory between the two calls: a deletion leaves a descriptor open.\<close>

definition swapped_world :: world where
  "swapped_world = demo_world\<lparr>w_script := [(id, None), (set_node 2 (Dir 1 []), None)]\<rparr>"

lemma deletion_leaks_descriptor:
  "w_fds (snd (unlink demo_env demo_roots ''a.txt'' None None swapped_world)) = w_fds swapped_world + 1"
  by code_simp

end
