(* ===== verification/Fs_Findings.thy ===== *)
theory Fs_Findings
  imports Fs_Demo "HOL-Library.Code_Target_Nat"
begin

text \<open>
  Runs of the filesystem connector that do not do what its comments promise, on concrete stores.
\<close>

section \<open>A sidecar without a name\<close>

text \<open>
  A root with two trashed files: the sidecar of \<open>keep\<close> has not expired, and there is a stray sidecar
  whose file name is only the suffix.
\<close>

definition stray_store :: store where
  "stray_store = \<lparr>st_nodes = [0 \<mapsto> Dir 0 [(''srv'', 1)], 1 \<mapsto> Dir 0 [(TRASH_DIR, 2)],
       2 \<mapsto> Dir 1 [(''keep'', 3), (''keep.meta.json'', 4), (''.meta.json'', 5)],
       3 \<mapsto> Reg ''data'', 4 \<mapsto> Reg ''later'', 5 \<mapsto> Reg ''now''],
     st_mtime = (\<lambda>_. 0), st_dir_size = (\<lambda>_. 0), st_dataless = (\<lambda>_. False), st_next = 6, st_now = 0\<rparr>"

definition stray_world :: world where
  "stray_world = demo_world\<lparr>w_store := stray_store\<rparr>"

definition stray_env :: fs_env where
  "stray_env = demo_env\<lparr>
     fe_loads := (\<lambda>data. Some (PDict [(''original_path'', PStr ''f''), (''retention_expires_at'', PStr data)])),
     fe_parse_iso := (\<lambda>t. if t = ''later'' then Some 1000 else Some 0)\<rparr>"

text \<open>Emptying the expired part of the trash removes the unexpired file and the trash itself.\<close>

definition names_of :: "(fs_exc + trash_entry list) \<times> world \<Rightarrow> str list" where
  "names_of r = (case fst r of Inr es \<Rightarrow> map tr_name es | Inl _ \<Rightarrow> [])"

definition expired_of :: "(fs_exc + trash_entry list) \<times> world \<Rightarrow> str list" where
  "expired_of r = (case fst r of Inr es \<Rightarrow> map tr_name (expired stray_env es 100) | Inl _ \<Rightarrow> [])"

lemma stray_sidecar_entries:
  "names_of (list_entries stray_env demo_roots None stray_world) = [[], ''keep''] \<and>
   expired_of (list_entries stray_env demo_roots None stray_world) = [[]]"
  by code_simp

lemma stray_sidecar_purges_trash:
  "entry (w_store (snd (trash_empty stray_env demo_fs_config demo_roots ''because'' True False None stray_world))) 1 TRASH_DIR = None"
  by code_simp

section \<open>Orphaned temporary files\<close>

definition orphan_world :: world where
  "orphan_world = demo_world\<lparr>w_store := demo_store\<lparr>st_nodes := (st_nodes demo_store)(1 \<mapsto> Dir 0 [(''.a.1.cyclaw-tmp'', 2)])\<rparr>,
     w_times := [100000]\<rparr>"

text \<open>They are removed with no audit event at all.\<close>

lemma orphan_sweep_unaudited:
  "fst (trash_empty demo_env demo_fs_config demo_roots ''because'' True False None orphan_world) =
     Inr (Applied [''.a.1.cyclaw-tmp'']) \<and>
   w_log (snd (trash_empty demo_env demo_fs_config demo_roots ''because'' True False None orphan_world)) = []"
  by code_simp

section \<open>A failing append\<close>

text \<open>The disk is full: the stat before the write and the open succeed.\<close>

lemma append_leaks_oserror:
  "fst (fs_append demo_env demo_fs_config [] demo_roots ''a.txt'' ''new'' ''because'' True None
     (demo_world\<lparr>w_script := [(id, None), (id, None), (id, Some (ENOSPC, 1))]\<rparr>)) = Inl (OSErr ENOSPC) \<and>
   fst (fs_write demo_env demo_fs_config [] demo_roots ''a.txt'' ''new'' ''because'' True True None
     (demo_world\<lparr>w_script := [(id, None), (id, None), (id, Some (ENOSPC, 1))]\<rparr>)) = Inl (FsRuntime [])"
  by code_simp

section \<open>An oversized payload\<close>

lemma payload_refusal_unaudited:
  "fst (fs_write demo_env (demo_fs_config\<lparr>fc_max_write_bytes := 2\<rparr>) [] demo_roots ''b.txt'' ''new'' ''because'' True False None demo_world) =
     Inl (FsRefused ''max_write_bytes'') \<and>
   w_log (snd (fs_write demo_env (demo_fs_config\<lparr>fc_max_write_bytes := 2\<rparr>) [] demo_roots ''b.txt'' ''new'' ''because'' True False None demo_world)) = []"
  by code_simp

end
