(* ===== verification/Fs_Client.thy ===== *)
theory Fs_Client
  imports Fs_Writer Py_Text
begin

text \<open>
  The read operations of the filesystem connector (\<open>agentic/fsconnect/client.py\<close>) over the
  path-validation core: list, stat, read, grep, glob and the largest files. Results keep the fields that are
  computed; the operation name and the arguments that are echoed are left out. The Numbat event that
  accompanies the audit record is not modelled.

  The injection patterns are arguments, as in \<open>Fs_Writer\<close>; so is the compiler of regular expressions
  (\<open>None\<close> is \<open>re.error\<close>), which \<open>fs_grep\<close> uses when asked for one. A heap of \<open>heapq\<close> is the list of its elements in ascending order.
\<close>

section \<open>Text\<close>

text \<open>
  \<open>fnmatch.fnmatch\<close> on POSIX. A set \<open>[...]\<close> ends at the first \<open>]\<close> after its first character and is a
  literal \<open>[\<close> if there is none; \<open>!\<close> complements it. That CPython also complements a set in which a reversed range
  precedes the \<open>!\<close> is left out.
\<close>

datatype glob_item = GStar | GAny | GLit char | GSet bool "(char \<times> char) list"

definition split_set :: "str \<Rightarrow> (str \<times> str) option" where
  "split_set s =
     (let neg = (if py_startswith s ''!'' then ''!'' else []); r = drop (length neg) s;
          fst_char = (if py_startswith r '']'' then '']'' else []); r2 = drop (length fst_char) r in
      if CHR '']'' \<in> set r2
      then Some (neg @ fst_char @ takeWhile (\<lambda>c. c \<noteq> CHR '']'') r2, tl (dropWhile (\<lambda>c. c \<noteq> CHR '']'') r2)) else None)"

fun set_ranges :: "str \<Rightarrow> (char \<times> char) list" where
  "set_ranges (a # b # c # r) =
     (if b = CHR ''-'' then (a, c) # set_ranges r else (a, a) # set_ranges (b # c # r))"
| "set_ranges s = map (\<lambda>a. (a, a)) s"

definition glob_set :: "str \<Rightarrow> glob_item" where
  "glob_set stuff = (if py_startswith stuff ''!'' then GSet True (set_ranges (tl stuff)) else GSet False (set_ranges stuff))"

lemma split_set_shorter: "split_set s = Some (stuff, rest) \<Longrightarrow> length rest < length s"
proof -
  assume a: "split_set s = Some (stuff, rest)"
  have *: "CHR '']'' \<in> set r2 \<Longrightarrow> length (tl (dropWhile (\<lambda>c. c \<noteq> CHR '']'') r2)) < length r2" for r2
    by (induction r2) auto
  have d: "length (drop n r) \<le> length r" for n and r :: str by simp
  from a show ?thesis
    unfolding split_set_def Let_def by (auto split: if_splits dest: * intro: less_le_trans [OF *])
qed

function glob_items :: "str \<Rightarrow> glob_item list" where
  "glob_items [] = []"
| "glob_items (c # cs) =
     (if c = CHR ''*'' then GStar # glob_items cs
      else if c = CHR ''?'' then GAny # glob_items cs
      else if c = CHR ''['' then (case split_set cs of
          None \<Rightarrow> GLit c # glob_items cs
        | Some (stuff, rest) \<Rightarrow> glob_set stuff # glob_items rest)
      else GLit c # glob_items cs)"
  by pat_completeness auto
termination
  by (relation "measure length") (auto dest: split_set_shorter)

fun item_matches :: "glob_item \<Rightarrow> char \<Rightarrow> bool" where
  "item_matches GStar c = True"
| "item_matches GAny c = True"
| "item_matches (GLit d) c = (c = d)"
| "item_matches (GSet neg rs) c = ((\<exists>r \<in> set rs. code (fst r) \<le> code c \<and> code c \<le> code (snd r)) \<noteq> neg)"

function glob_match :: "glob_item list \<Rightarrow> str \<Rightarrow> bool" where
  "glob_match [] s = (s = [])"
| "glob_match (p # ps) [] = (p = GStar \<and> glob_match ps [])"
| "glob_match (p # ps) (c # s) =
     (if p = GStar then glob_match ps (c # s) \<or> glob_match (p # ps) s
      else item_matches p c \<and> glob_match ps s)"
  by pat_completeness auto
termination
  by (relation "measure (\<lambda>(ps, s). length ps + length s)") auto

definition fnmatch :: "str \<Rightarrow> str \<Rightarrow> bool" where
  "fnmatch name pattern = glob_match (glob_items pattern) name"

section \<open>Operations on one entry\<close>

definition guard_op :: "fs_config \<Rightarrow> str \<Rightarrow> unit io" where
  "guard_op cfg op = hensure (op \<in> set (fc_allowed_fs_ops cfg)) (FsError ''FSCONNECT_OP_NOT_ALLOWED'')"

definition or_dot :: "str \<Rightarrow> str" where
  "or_dot target = (if target = [] then ''.'' else target)"

definition fs_list :: "fs_env \<Rightarrow> fs_config \<Rightarrow> safe_root list \<Rightarrow> str \<Rightarrow> str option \<Rightarrow> stat_info list io" where
  "fs_list env cfg roots target rt =
     hbind (guard_op cfg ''fs_list'') (\<lambda>_.
     hbind (list_dir env roots target rt True) (\<lambda>entries.
     hbind (audit (EvRead ''fs_list'' (or_dot target) (length entries))) (\<lambda>_.
     hret entries)))"

definition fs_stat :: "fs_env \<Rightarrow> fs_config \<Rightarrow> safe_root list \<Rightarrow> str \<Rightarrow> str option \<Rightarrow> stat_info io" where
  "fs_stat env cfg roots target rt =
     hbind (guard_op cfg ''fs_stat'') (\<lambda>_.
     hbind (stat_op env roots target rt) (\<lambda>info.
     hbind (audit (EvRead ''fs_stat'' target 0)) (\<lambda>_.
     hret info)))"

definition looks_binary :: "str \<Rightarrow> bool" where
  "looks_binary data = (CHR 0x00 \<in> set (take 4096 data))"

record read_result =
  rd_size :: nat
  rd_is_binary :: bool
  rd_content :: "str option"
  rd_injection_flags :: "str list"

definition read_capped :: "fs_env \<Rightarrow> fs_config \<Rightarrow> safe_root list \<Rightarrow> str \<Rightarrow> str option \<Rightarrow> str io" where
  "read_capped env cfg roots target rt = read_bytes env roots target rt (nat (fc_max_file_bytes cfg)) True"

definition fs_read :: "fs_env \<Rightarrow> fs_config \<Rightarrow> patterns \<Rightarrow> safe_root list \<Rightarrow> str \<Rightarrow> str option \<Rightarrow> read_result io" where
  "fs_read env cfg pats roots target rt =
     hbind (guard_op cfg ''fs_read'') (\<lambda>_.
     hbind (read_capped env cfg roots target rt) (\<lambda>data.
     let binary = looks_binary data;
         flags = (if \<not> binary \<and> fc_scan_content cfg then scan env pats data else []) in
     hbind (audit (EvRead ''fs_read'' target (length data))) (\<lambda>_.
     hret \<lparr>rd_size = length data, rd_is_binary = binary,
       rd_content = (if binary then None else Some (fe_decode env data)), rd_injection_flags = flags\<rparr>)))"

definition MAX_GREP_MATCHES :: nat where "MAX_GREP_MATCHES = 200"
definition MAX_GREP_LINE_CHARS :: nat where "MAX_GREP_LINE_CHARS = 4096"

definition clip_line :: "str \<Rightarrow> str" where
  "clip_line line = (if MAX_GREP_LINE_CHARS < length line
     then take MAX_GREP_LINE_CHARS line @ ''...[truncated, '' @ nat_str (length line) @ '' chars total]'' else line)"

fun grep_lines :: "(str \<Rightarrow> bool) \<Rightarrow> nat \<Rightarrow> str list \<Rightarrow> (nat \<times> str) list \<Rightarrow> bool \<times> (nat \<times> str) list" where
  "grep_lines rx n [] acc = (False, acc)"
| "grep_lines rx n (line # ls) acc =
     (if rx line then
        if MAX_GREP_MATCHES \<le> length acc then (True, acc)
        else grep_lines rx (Suc n) ls (acc @ [(n, clip_line line)])
      else grep_lines rx (Suc n) ls acc)"

text \<open>A literal pattern is searched without regard to case.\<close>

definition grep_matcher :: "(str \<Rightarrow> (str \<Rightarrow> bool) option) \<Rightarrow> str \<Rightarrow> bool \<Rightarrow> (str \<Rightarrow> bool) option" where
  "grep_matcher re_compile pattern regex =
     (if regex then re_compile pattern else Some (\<lambda>line. py_contains (py_lower pattern) (py_lower line)))"

definition fs_grep :: "fs_env \<Rightarrow> fs_config \<Rightarrow> (str \<Rightarrow> (str \<Rightarrow> bool) option) \<Rightarrow> safe_root list \<Rightarrow> str \<Rightarrow> str \<Rightarrow> bool \<Rightarrow> str option \<Rightarrow>
    (bool \<times> (nat \<times> str) list) io" where
  "fs_grep env cfg re_compile roots target pattern regex rt =
     hbind (guard_op cfg ''fs_grep'') (\<lambda>_.
     hbind (hensure (pattern \<noteq> []) (FsError ''FSCONNECT_BAD_ARG'')) (\<lambda>_.
     hbind (read_capped env cfg roots target rt) (\<lambda>data.
     hbind (hensure (\<not> looks_binary data) (FsError ''FSCONNECT_BINARY'')) (\<lambda>_.
     hbind (hlift (of_option (FsError ''FSCONNECT_BAD_ARG'') (grep_matcher re_compile pattern regex))) (\<lambda>rx.
     let found = grep_lines rx 1 (py_splitlines (fe_decode env data)) [] in
     hbind (audit (EvRead ''fs_grep'' target (length (snd found)))) (\<lambda>_.
     hret found))))))"

section \<open>Glob\<close>

definition MAX_GLOB_MATCHES :: nat where "MAX_GLOB_MATCHES = 1000"
definition MAX_GLOB_DEPTH :: nat where "MAX_GLOB_DEPTH = 64"

definition child_path :: "str \<Rightarrow> str \<Rightarrow> str" where
  "child_path rel name = (if rel = [] then name else rel @ ''/'' @ name)"

definition relative_to :: "str \<Rightarrow> str \<Rightarrow> str" where
  "relative_to prefix child = (if prefix \<noteq> [] \<and> py_startswith child prefix then drop (length prefix) child else child)"

record glob_query =
  gq_target :: str
  gq_pattern :: str
  gq_recursive :: bool

definition gq_prefix :: "glob_query \<Rightarrow> str" where
  "gq_prefix q = (if gq_target q = [] then [] else gq_target q @ ''/'')"

record glob_state =
  gs_matches :: "(str \<times> kind \<times> nat) list"
  gs_depth_capped :: bool

definition glob_hit :: "glob_query \<Rightarrow> str \<Rightarrow> bool" where
  "glob_hit q child = fnmatch (relative_to (gq_prefix q) child) (gq_pattern q)"

text \<open>
  The loop of \<open>_walk\<close> over the entries of \<open>rel\<close>; \<open>left\<close> is the number of levels it may still descend. The
  result says whether to go on.
\<close>

function glob_entries :: "fs_env \<Rightarrow> safe_root list \<Rightarrow> str option \<Rightarrow> glob_query \<Rightarrow> nat \<Rightarrow> str \<Rightarrow> stat_info list \<Rightarrow> glob_state \<Rightarrow>
    (bool \<times> glob_state) io" where
  "glob_entries env roots rt q left rel [] acc = hret (True, acc)"
| "glob_entries env roots rt q left rel (e # es) acc =
     (let child = child_path rel (si_name e); hit = glob_hit q child in
      if hit \<and> MAX_GLOB_MATCHES \<le> length (gs_matches acc) then hret (False, acc)
      else let acc' = (if hit then acc\<lparr>gs_matches := gs_matches acc @ [(child, si_type e, si_size e)]\<rparr> else acc) in
        if gq_recursive q \<and> si_type e = KDir then
          (case left of
            0 \<Rightarrow> glob_entries env roots rt q left rel es (acc'\<lparr>gs_depth_capped := True\<rparr>)
          | Suc l \<Rightarrow>
              hbind (list_dir env roots child rt True) (\<lambda>sub.
              hbind (glob_entries env roots rt q l child sub acc') (\<lambda>(go, acc'').
              if go then glob_entries env roots rt q left rel es acc'' else hret (False, acc''))))
        else glob_entries env roots rt q left rel es acc')"
  by pat_completeness auto
termination
  by (relation "inv_image (less_than <*lex*> less_than) (\<lambda>(_, _, _, _, left, _, es, _). (left, length es))") auto

definition fs_glob :: "fs_env \<Rightarrow> fs_config \<Rightarrow> safe_root list \<Rightarrow> glob_query \<Rightarrow> str option \<Rightarrow> (bool \<times> (str \<times> kind \<times> nat) list) io" where
  "fs_glob env cfg roots q rt =
     hbind (guard_op cfg ''fs_glob'') (\<lambda>_.
     hbind (hensure (gq_pattern q \<noteq> []) (FsError ''FSCONNECT_BAD_ARG'')) (\<lambda>_.
     hbind (list_dir env roots (gq_target q) rt True) (\<lambda>entries.
     hbind (glob_entries env roots rt q MAX_GLOB_DEPTH (gq_target q) entries \<lparr>gs_matches = [], gs_depth_capped = False\<rparr>) (\<lambda>(go, acc).
     hbind (audit (EvRead ''fs_glob'' (or_dot (gq_target q)) (length (gs_matches acc)))) (\<lambda>_.
     hret (\<not> go \<or> gs_depth_capped acc, gs_matches acc))))))"

section \<open>The largest files\<close>

type_synonym candidate = "nat \<times> str \<times> int"

fun cand_less :: "candidate \<Rightarrow> candidate \<Rightarrow> bool" where
  "cand_less (n, p, m) (n', p', m') = (n < n' \<or> n = n' \<and> (str_less p p' \<or> p = p' \<and> m < m'))"

text \<open>\<open>heappush\<close>, and the whole selection of a candidate.\<close>

fun heap_push :: "candidate \<Rightarrow> candidate list \<Rightarrow> candidate list" where
  "heap_push c [] = [c]"
| "heap_push c (d # ds) = (if cand_less d c then d # heap_push c ds else c # d # ds)"

definition keep_largest :: "nat \<Rightarrow> candidate \<Rightarrow> candidate list \<Rightarrow> candidate list" where
  "keep_largest top_n c ranked =
     (if length ranked < top_n then heap_push c ranked
      else if cand_less (hd ranked) c then heap_push c (tl ranked)
      else ranked)"

text \<open>The state of the traversal; the head of the stack is popped first.\<close>

record largest_state =
  ls_stack :: "str list"
  ls_scanned :: nat
  ls_truncated :: bool
  ls_ranked :: "candidate list"

fun scan_entries :: "nat \<Rightarrow> nat \<Rightarrow> nat \<Rightarrow> str \<Rightarrow> stat_info list \<Rightarrow> largest_state \<Rightarrow> largest_state" where
  "scan_entries max_entries top_n min_bytes rel [] ls = ls"
| "scan_entries max_entries top_n min_bytes rel (e # es) ls =
     (if max_entries \<le> ls_scanned ls then ls\<lparr>ls_truncated := True\<rparr>
      else let child = child_path rel (si_name e); ls' = ls\<lparr>ls_scanned := Suc (ls_scanned ls)\<rparr> in
        scan_entries max_entries top_n min_bytes rel es
          (if si_type e = KDir then ls'\<lparr>ls_stack := child # ls_stack ls'\<rparr>
           else if si_type e \<noteq> KFile \<or> si_size e < min_bytes then ls'
           else ls'\<lparr>ls_ranked := keep_largest top_n (si_size e, child, si_mtime e) (ls_ranked ls')\<rparr>))"

text \<open>The loop, with a bound on its rounds; \<open>None\<close> if the bound is used up.\<close>

fun largest_loop :: "nat \<Rightarrow> (str \<Rightarrow> stat_info list io) \<Rightarrow> nat \<Rightarrow> nat \<Rightarrow> nat \<Rightarrow> largest_state \<Rightarrow> largest_state option io" where
  "largest_loop 0 lister max_entries top_n min_bytes ls =
     hret (if ls_stack ls = [] \<or> ls_truncated ls then Some ls else None)"
| "largest_loop (Suc fuel) lister max_entries top_n min_bytes ls =
     (if ls_stack ls = [] \<or> ls_truncated ls then hret (Some ls)
      else let rel = hd (ls_stack ls) in
        hbind (lister rel) (\<lambda>entries.
        largest_loop fuel lister max_entries top_n min_bytes
          (scan_entries max_entries top_n min_bytes rel entries (ls\<lparr>ls_stack := tl (ls_stack ls)\<rparr>))))"

text \<open>\<open>sorted(ranked, key=lambda item: (-item[0], item[1]))\<close>.\<close>

fun before :: "candidate \<Rightarrow> candidate \<Rightarrow> bool" where
  "before (n, p, m) (n', p', m') = (n' < n \<or> n = n' \<and> str_less p p')"

fun insert_cand :: "candidate \<Rightarrow> candidate list \<Rightarrow> candidate list" where
  "insert_cand c [] = [c]"
| "insert_cand c (d # ds) = (if before d c then d # insert_cand c ds else c # d # ds)"

definition sort_ranked :: "candidate list \<Rightarrow> candidate list" where
  "sort_ranked ranked = foldr insert_cand ranked []"

text \<open>A positive or a non-negative integer argument; booleans are refused.\<close>

definition int_arg :: "int \<Rightarrow> pyval \<Rightarrow> nat io" where
  "int_arg least v = (case v of
     PInt i \<Rightarrow> if least \<le> i then hret (nat i) else hraise (FsError ''FSCONNECT_BAD_ARG'')
   | _ \<Rightarrow> hraise (FsError ''FSCONNECT_BAD_ARG''))"

definition fs_largest :: "fs_env \<Rightarrow> fs_config \<Rightarrow> safe_root list \<Rightarrow> str \<Rightarrow> str option \<Rightarrow> pyval \<Rightarrow> pyval \<Rightarrow>
    (nat \<times> bool \<times> candidate list) option io" where
  "fs_largest env cfg roots target rt top_n min_bytes =
     hbind (guard_op cfg ''fs_largest'') (\<lambda>_.
     hbind (int_arg 1 top_n) (\<lambda>k.
     hbind (hensure (int k \<le> fc_largest_max_entries cfg) (FsError ''FSCONNECT_BAD_ARG'')) (\<lambda>_.
     hbind (int_arg 0 min_bytes) (\<lambda>least.
     let max_entries = nat (fc_largest_max_entries cfg) in
     hbind (largest_loop (Suc max_entries) (\<lambda>rel. list_dir env roots rel rt True) max_entries k least
       \<lparr>ls_stack = [target], ls_scanned = 0, ls_truncated = False, ls_ranked = []\<rparr>) (\<lambda>r. case r of
       None \<Rightarrow> hret None
     | Some ls \<Rightarrow>
         hbind (audit (EvRead ''fs_largest'' (or_dot target) (length (ls_ranked ls)))) (\<lambda>_.
         hret (Some (ls_scanned ls, ls_truncated ls, sort_ranked (ls_ranked ls)))))))))"

section \<open>A session\<close>

datatype read_request =
    QList str
  | QStat str
  | QRead str
  | QGrep str str bool
  | QGlob glob_query
  | QLargest str pyval pyval

datatype read_reply =
    AList "stat_info list"
  | AStat stat_info
  | ARead read_result
  | AGrep "bool \<times> (nat \<times> str) list"
  | AGlob "bool \<times> (str \<times> kind \<times> nat) list"
  | ALargest "(nat \<times> bool \<times> candidate list) option"

definition hmap :: "('a \<Rightarrow> 'b) \<Rightarrow> 'a io \<Rightarrow> 'b io" where
  "hmap g f = hbind f (\<lambda>x. hret (g x))"

fun run_read :: "fs_env \<Rightarrow> fs_config \<Rightarrow> patterns \<Rightarrow> (str \<Rightarrow> (str \<Rightarrow> bool) option) \<Rightarrow> safe_root list \<Rightarrow> str option \<Rightarrow> read_request \<Rightarrow> read_reply io" where
  "run_read env cfg pats re_compile roots rt (QList target) = hmap AList (fs_list env cfg roots target rt)"
| "run_read env cfg pats re_compile roots rt (QStat target) = hmap AStat (fs_stat env cfg roots target rt)"
| "run_read env cfg pats re_compile roots rt (QRead target) = hmap ARead (fs_read env cfg pats roots target rt)"
| "run_read env cfg pats re_compile roots rt (QGrep target pattern regex) =
     hmap AGrep (fs_grep env cfg re_compile roots target pattern regex rt)"
| "run_read env cfg pats re_compile roots rt (QGlob q) = hmap AGlob (fs_glob env cfg roots q rt)"
| "run_read env cfg pats re_compile roots rt (QLargest target top_n min_bytes) =
     hmap ALargest (fs_largest env cfg roots target rt top_n min_bytes)"

definition with_client :: "fs_env \<Rightarrow> fs_config \<Rightarrow> (safe_root list \<Rightarrow> 'a io) \<Rightarrow> 'a io" where
  "with_client env cfg body =
     hbind (open_roots env False (fc_allow_macos_volume_roots cfg) False [] (fc_allowed_roots cfg)) (\<lambda>roots.
     hfinally (body roots) (close_roots roots))"

end
