(* ===== verification/Fs_Confidential.thy ===== *)
theory Fs_Confidential
  imports Fs_Client Fs_Demo Fs_Confine
begin

text \<open>
  Confidentiality of the read operations: what lies outside of the roots does not influence what
  they return. Two runs from states that agree except on a protected set of inodes return the same and stay in such
  states.
\<close>

section \<open>Runs in lockstep\<close>

definition lockstep :: "('s \<Rightarrow> 's \<Rightarrow> bool) \<Rightarrow> ('e, 's, 'a) action \<Rightarrow> ('a \<Rightarrow> bool) \<Rightarrow> bool" where
  "lockstep R f Q \<longleftrightarrow> (\<forall>s t. R s t \<longrightarrow>
     fst (f s) = fst (f t) \<and> R (snd (f s)) (snd (f t)) \<and> (\<forall>x. fst (f s) = Inr x \<longrightarrow> Q x))"

lemma lockstepD:
  assumes "lockstep R f Q" and "R s t"
  obtains r s' t' where "f s = (r, s')" "f t = (r, t')" "R s' t'" "\<forall>x. r = Inr x \<longrightarrow> Q x"
proof -
  have "fst (f s) = fst (f t) \<and> R (snd (f s)) (snd (f t)) \<and> (\<forall>x. fst (f s) = Inr x \<longrightarrow> Q x)"
    using assms unfolding lockstep_def by blast
  then show ?thesis using that [of "fst (f s)" "snd (f s)" "snd (f t)"] by (cases "f s"; cases "f t") simp
qed

lemma lockstepI:
  assumes "\<And>s t. R s t \<Longrightarrow> \<exists>r s' t'. f s = (r, s') \<and> f t = (r, t') \<and> R s' t' \<and> (\<forall>x. r = Inr x \<longrightarrow> Q x)"
  shows "lockstep R f Q"
  unfolding lockstep_def using assms by fastforce

lemma lockstep_weaken: "lockstep R f Q \<Longrightarrow> (\<And>x. Q x \<Longrightarrow> Q' x) \<Longrightarrow> lockstep R f Q'"
  by (auto simp: lockstep_def)

lemma lockstep_bind:
  assumes "lockstep R f Q" and "\<And>x. Q x \<Longrightarrow> lockstep R (g x) Q'"
  shows "lockstep R (hbind f g) Q'"
proof (rule lockstepI)
  fix s t assume "R s t"
  from assms(1) this obtain r s' t' where f: "f s = (r, s')" "f t = (r, t')" "R s' t'" "\<forall>x. r = Inr x \<longrightarrow> Q x"
    by (rule lockstepD)
  show "\<exists>r s' t'. hbind f g s = (r, s') \<and> hbind f g t = (r, t') \<and> R s' t' \<and> (\<forall>x. r = Inr x \<longrightarrow> Q' x)"
  proof (cases r)
    case (Inl e)
    then show ?thesis using f by (auto simp: hbind_def)
  next
    case (Inr x)
    then have "Q x" using f(4) by simp
    from assms(2) [OF this] f(3) obtain q u v
      where "g x s' = (q, u)" "g x t' = (q, v)" "R u v" "\<forall>y. q = Inr y \<longrightarrow> Q' y" by (rule lockstepD)
    then show ?thesis using f Inr by (auto simp: hbind_def)
  qed
qed

lemma lockstep_basic:
  "lockstep R (hret x) (\<lambda>_. True)"
  "lockstep R (hraise e) Q"
  "lockstep R (hensure b e) (\<lambda>_. True)"
  by (auto simp: lockstep_def handler_simps)

lemma lockstep_ret: "Q x \<Longrightarrow> lockstep R (hret x) Q"
  and lockstep_lift: "(\<And>x. r = Inr x \<Longrightarrow> Q x) \<Longrightarrow> lockstep R (hlift r) Q"
  by (auto simp: lockstep_def handler_simps)

lemma lockstep_seq: "lockstep R f (\<lambda>_. True) \<Longrightarrow> (\<And>x. lockstep R (g x) Q) \<Longrightarrow> lockstep R (hbind f g) Q"
  by (rule lockstep_bind)

lemma lockstep_catch:
  assumes "lockstep R f Q" and "\<And>e. lockstep R (h e) Q"
  shows "lockstep R (hcatch f h) Q"
proof (rule lockstepI)
  fix s t assume "R s t"
  from assms(1) this obtain r s' t' where f: "f s = (r, s')" "f t = (r, t')" "R s' t'" "\<forall>x. r = Inr x \<longrightarrow> Q x"
    by (rule lockstepD)
  show "\<exists>r s' t'. hcatch f h s = (r, s') \<and> hcatch f h t = (r, t') \<and> R s' t' \<and> (\<forall>x. r = Inr x \<longrightarrow> Q x)"
  proof (cases r)
    case (Inl e)
    from assms(2) f(3) obtain q u v
      where "h e s' = (q, u)" "h e t' = (q, v)" "R u v" "\<forall>y. q = Inr y \<longrightarrow> Q y" by (rule lockstepD)
    then show ?thesis using f Inl by (auto simp: hcatch_def)
  next
    case (Inr x)
    then show ?thesis using f by (auto simp: hcatch_def)
  qed
qed

lemma lockstep_finally:
  assumes "lockstep R f Q" and "lockstep R c (\<lambda>_. True)"
  shows "lockstep R (hfinally f c) Q"
proof (rule lockstepI)
  fix s t assume "R s t"
  from assms(1) this obtain r s' t' where f: "f s = (r, s')" "f t = (r, t')" "R s' t'" "\<forall>x. r = Inr x \<longrightarrow> Q x"
    by (rule lockstepD)
  from assms(2) f(3) obtain q u v where "c s' = (q, u)" "c t' = (q, v)" "R u v" by (rule lockstepD)
  then show "\<exists>r s' t'. hfinally f c s = (r, s') \<and> hfinally f c t = (r, t') \<and> R s' t' \<and> (\<forall>x. r = Inr x \<longrightarrow> Q x)"
    using f by (cases q) (auto simp: hfinally_def)
qed

lemma lockstep_if: "lockstep R f Q \<Longrightarrow> lockstep R g Q \<Longrightarrow> lockstep R (if b then f else g) Q"
  by simp

section \<open>States that differ on a protected set\<close>

text \<open>The entries of a directory have plain names, as an operating system keeps them.\<close>

definition plain_names :: "node option \<Rightarrow> bool" where
  "plain_names n \<longleftrightarrow> (case n of Some (Dir _ es) \<Rightarrow> list_all (\<lambda>e. plain (fst e)) es | _ \<Rightarrow> True)"

definition similar :: "ino set \<Rightarrow> store \<Rightarrow> store \<Rightarrow> bool" where
  "similar P a b \<longleftrightarrow> apart P a \<and> apart P b \<and>
     (\<forall>i. i \<notin> P \<longrightarrow> plain_names (st_nodes a i) \<and> st_nodes a i = st_nodes b i \<and> st_mtime a i = st_mtime b i \<and>
        st_dir_size a i = st_dir_size b i \<and> st_dataless a i = st_dataless b i)"

text \<open>What other processes do is the same in both runs, up to the protected set.\<close>

definition alike :: "ino set \<Rightarrow> world \<Rightarrow> world \<Rightarrow> bool" where
  "alike P s t \<longleftrightarrow> similar P (w_store s) (w_store t) \<and> w_script t = w_script s \<and> w_cwd t = w_cwd s \<and> w_fds t = w_fds s \<and>
     w_opened t = w_opened s \<and> w_log t = w_log s \<and> w_times t = w_times s \<and> w_rate t = w_rate s \<and> w_ids t = w_ids s \<and>
     list_all (\<lambda>e. \<forall>a b. similar P a b \<longrightarrow> similar P (fst e a) (fst e b)) (w_script s)"

abbreviation blind :: "ino set \<Rightarrow> 'a io \<Rightarrow> ('a \<Rightarrow> bool) \<Rightarrow> bool" where
  "blind P \<equiv> lockstep (alike P)"

lemma blind_syscall:
  assumes "\<And>a b. similar P a b \<Longrightarrow>
      (\<exists>e. f a = Inl e \<and> f b = Inl e) \<or> (\<exists>x a' b'. f a = Inr (x, a') \<and> f b = Inr (x, b') \<and> similar P a' b' \<and> Q x)"
  shows "blind P (syscall f) Q"
proof (rule lockstepI)
  fix s t assume st: "alike P s t"
  obtain fault s' where i: "interference s = (fault, s')" by force
  define t' where "t' = snd (interference t)"
  have t': "interference t = (fault, t')" and al: "alike P s' t'"
    using st i unfolding t'_def by (auto simp: interference_def alike_def split: list.splits prod.splits)
  have "similar P (w_store s') (w_store t')" using al by (simp add: alike_def)
  from assms [OF this] show "\<exists>r u v. syscall f s = (r, u) \<and> syscall f t = (r, v) \<and> alike P u v \<and> (\<forall>x. r = Inr x \<longrightarrow> Q x)"
    using i t' al by (cases fault) (auto simp: syscall_def alike_def)
qed

lemma blind_query:
  assumes "\<And>a b. similar P a b \<Longrightarrow> f a = f b" and "\<And>a b x. similar P a b \<Longrightarrow> f a = Inr x \<Longrightarrow> Q x"
  shows "blind P (query_call f) Q"
  unfolding query_call_def
proof (rule blind_syscall)
  fix a b assume "similar P a b"
  then show "(\<exists>e. map_sum id (\<lambda>x. (x, a)) (f a) = Inl e \<and> map_sum id (\<lambda>x. (x, b)) (f b) = Inl e) \<or>
      (\<exists>x a' b'. map_sum id (\<lambda>x. (x, a)) (f a) = Inr (x, a') \<and> map_sum id (\<lambda>x. (x, b)) (f b) = Inr (x, b') \<and> similar P a' b' \<and> Q x)"
    using assms [of a b] by (cases "f b") auto
qed

lemma blind_modify: "(\<And>s t. alike P s t \<Longrightarrow> alike P (f s) (f t)) \<Longrightarrow> blind P (hmodify f) (\<lambda>_. True)"
  by (auto simp: lockstep_def handler_simps)

lemma blind_close: "blind P os_close (\<lambda>_. True)"
  and blind_audit: "blind P (audit e) (\<lambda>_. True)"
  unfolding os_close_def audit_def by (rule blind_modify; simp add: alike_def)+

section \<open>Looking up a name\<close>

lemma resolve_plain_eq:
  assumes "plain c"
  shows "resolve st False (d, names) c = (case st_nodes st d of
     Some (Dir _ es) \<Rightarrow> (case map_of es c of None \<Rightarrow> Inl ENOENT | Some i \<Rightarrow> Inr (i, names @ [c]))
   | Some _ \<Rightarrow> Inl ENOTDIR | None \<Rightarrow> Inl ENOENT)"
  using assms plain_relative [OF assms]
  by (auto simp: resolve_def plain_def py_split_free MAX_LINKS_def split: option.splits node.splits)

lemma similarD:
  assumes "similar P a b"
  shows "apart P a" and "i \<notin> P \<Longrightarrow> plain_names (st_nodes a i)"
    and "i \<notin> P \<Longrightarrow> st_nodes a i = st_nodes b i" and "i \<notin> P \<Longrightarrow> st_mtime a i = st_mtime b i"
    and "i \<notin> P \<Longrightarrow> st_dir_size a i = st_dir_size b i" and "i \<notin> P \<Longrightarrow> st_dataless a i = st_dataless b i"
  using assms unfolding similar_def by blast+

lemma similar_fstat: "similar P a b \<Longrightarrow> i \<notin> P \<Longrightarrow> fstat a i = fstat b i"
  unfolding fstat_def using similarD(3-6) [of P a b i] by (auto split: option.split node.split)

lemma similar_entry:
  "similar P a b \<Longrightarrow> d \<notin> P \<Longrightarrow> st_nodes a d = Some (Dir p es) \<Longrightarrow> map_of es c = Some i \<Longrightarrow> i \<notin> P"
  using similarD(1) apart_entry [of P a d c i] by (auto simp: entry_Some_iff)

lemma similar_resolve:
  assumes "similar P a b" "d \<notin> P" "plain c"
  shows "resolve a False (d, names) c = resolve b False (d, names) c"
  unfolding resolve_plain_eq [OF assms(3)] similarD(3) [OF assms(1,2)] ..

lemma resolve_unprotected:
  "similar P a b \<Longrightarrow> d \<notin> P \<Longrightarrow> plain c \<Longrightarrow> resolve a False (d, names) c = Inr (i, ns) \<Longrightarrow> i \<notin> P"
  by (auto simp: resolve_plain_eq split: option.splits node.splits dest: similar_entry)

lemma similar_fstatat: "similar P a b \<Longrightarrow> d \<notin> P \<Longrightarrow> plain c \<Longrightarrow> fstatat a False (d, names) c = fstatat b False (d, names) c"
  unfolding fstatat_def
  using similar_resolve [of P a b d c names] resolve_unprotected [of P a b d c names] similar_fstat
  by (auto split: sum.split prod.split)

lemma similar_open:
  assumes "similar P a b" "d \<notin> P" "plain c" "o_nofollow fl"
  shows "open_existing a fl (d, names) c = open_existing b fl (d, names) c"
  unfolding open_existing_def
  using assms similar_resolve [of P a b d c names] resolve_unprotected [of P a b d c names] similarD(3) [of P a b]
  by (auto split: sum.split prod.split)

lemma blind_open:
  assumes "plain c" "o_nofollow fl" "\<not> o_creat fl" "d \<notin> P"
  shows "blind P (os_open fl (d, names) c) (\<lambda>i. i \<notin> P)"
  unfolding os_open_def
proof (rule lockstep_bind)
  show "blind P (syscall (\<lambda>st. openat st fl (d, names) c)) (\<lambda>i. i \<notin> P)"
  proof (rule blind_syscall)
    fix a b assume ab: "similar P a b"
    have "open_existing a fl (d, names) c = Inr i \<Longrightarrow> i \<notin> P" for i
      using openat_spares [OF assms(1,2,4), of a names i a] assms(3) ab by (auto simp: openat_def similar_def)
    then show "(\<exists>e. openat a fl (d, names) c = Inl e \<and> openat b fl (d, names) c = Inl e) \<or>
        (\<exists>x a' b'. openat a fl (d, names) c = Inr (x, a') \<and> openat b fl (d, names) c = Inr (x, b') \<and> similar P a' b' \<and> x \<notin> P)"
      using similar_open [OF ab assms(4,1,2), of names] assms(3) ab
      by (cases "open_existing b fl (d, names) c") (auto simp: openat_def)
  qed
  fix i assume "i \<notin> P"
  then show "blind P (hbind (hmodify (\<lambda>s. s\<lparr>w_fds := w_fds s + 1, w_opened := w_opened s @ [i]\<rparr>)) (\<lambda>_. hret i)) (\<lambda>i. i \<notin> P)"
    by (intro lockstep_bind [OF blind_modify] lockstep_ret) (auto simp: alike_def)
qed

lemma blind_on_oserror: "blind P f Q \<Longrightarrow> (\<And>n. blind P (h n) Q) \<Longrightarrow> blind P (on_oserror f h) Q"
  unfolding on_oserror_def by (rule lockstep_catch) (auto split: fs_exc.split intro: lockstep_basic)

lemma blind_macos: "blind P (raise_macos_permission env n) (\<lambda>_. True)"
  unfolding raise_macos_permission_def by (auto intro: lockstep_basic)

lemma blind_path_error: "blind P f Q \<Longrightarrow> blind P (as_path_error env f) Q"
  unfolding as_path_error_def
  by (rule blind_on_oserror) (auto intro!: lockstep_basic lockstep_bind [OF blind_macos])

lemma blind_stat_fd: "i \<notin> P \<Longrightarrow> blind P (stat_fd i) (\<lambda>_. True)"
  unfolding stat_fd_def by (rule blind_query) (auto intro: similar_fstat)

lemma blind_stat_at: "d \<notin> P \<Longrightarrow> plain leaf \<Longrightarrow> blind P (stat_at d leaf) (\<lambda>_. True)"
  unfolding stat_at_def by (rule blind_query) (auto intro: similar_fstatat)

lemma blind_read: "i \<notin> P \<Longrightarrow> blind P (os_read i n) (\<lambda>_. True)"
  unfolding os_read_def by (rule blind_query) (auto dest: similarD(3))

lemmas blind_struct = blind_path_error blind_on_oserror blind_macos blind_close blind_audit lockstep_basic
  lockstep_seq lockstep_catch lockstep_finally lockstep_if

section \<open>The read operations of the path-validation core\<close>

lemma blind_split: "blind P (hlift (split_components target)) (list_all plain)"
  by (rule lockstep_lift) (rule split_components_plain)

text \<open>
  A request names no root, or the first one by its configured or its resolved text. Any other root is found by comparing
  inodes, for which \<open>pick_root\<close> stats the named path and the paths of the roots.
\<close>

definition literal_root :: "fs_env \<Rightarrow> safe_root list \<Rightarrow> str option \<Rightarrow> bool" where
  "literal_root env roots rt = (case rt of
     None \<Rightarrow> True
   | Some a \<Rightarrow> (case roots of
       [] \<Rightarrow> True
     | r # _ \<Rightarrow> sr_requested r = a \<or> sr_normcase r = path_str (fe_expand env a)))"

definition picks :: "ino set \<Rightarrow> fs_env \<Rightarrow> safe_root list \<Rightarrow> str option \<Rightarrow> bool" where
  "picks P env roots rt \<longleftrightarrow> outside P roots \<and> literal_root env roots rt"

lemma blind_pick: "picks P env roots rt \<Longrightarrow> blind P (pick_root env roots rt) (\<lambda>r. sr_dir r \<notin> P)"
  unfolding pick_root_def picks_def literal_root_def
  by (cases roots; cases rt)
    (auto simp: outside_def or_else_def hbind_def handler_simps lockstep_def)

lemma blind_descend:
  "d \<notin> P \<Longrightarrow> list_all plain comps \<Longrightarrow> (\<And>d leaf. d \<notin> P \<Longrightarrow> plain leaf \<Longrightarrow> blind P (body d leaf) Q) \<Longrightarrow>
   blind P (descend env d comps body) Q"
proof (induction env d comps body rule: descend.induct)
  case (3 env d dir c cs body)
  show ?case
    unfolding descend.simps
  proof (rule lockstep_bind)
    show "blind P (as_path_error env (os_open (RDONLY\<lparr>o_nofollow := True, o_directory := True\<rparr>) (d, []) dir)) (\<lambda>i. i \<notin> P)"
      using 3 by (intro blind_path_error blind_open) (auto simp: RDONLY_def)
  qed (use 3 in \<open>auto intro: lockstep_finally blind_close\<close>)
qed (auto intro: lockstep_basic)

lemma blind_read_fd: "i \<notin> P \<Longrightarrow> blind P (read_fd env i n skip) (\<lambda>_. True)"
  unfolding read_fd_def by (intro blind_struct blind_stat_fd blind_read)

lemma blind_read_bytes:
  assumes "picks P env roots rt"
  shows "blind P (read_bytes env roots target rt n skip) (\<lambda>_. True)"
  unfolding read_bytes_def
proof (intro lockstep_bind [OF blind_split] lockstep_bind [OF blind_pick [OF assms]] lockstep_bind [OF lockstep_basic(3)] blind_descend)
  fix d leaf assume d: "d \<notin> P" "plain leaf"
  show "blind P (hbind (if skip then hbind (as_path_error env (stat_at d leaf)) (\<lambda>pre. hensure (\<not> is_macos_dataless env pre) (FsPath None)) else hret ())
      (\<lambda>_. hbind (as_path_error env (os_open (RDONLY\<lparr>o_nofollow := True\<rparr>) (d, []) leaf)) (\<lambda>fd. read_fd env fd n skip))) (\<lambda>_. True)"
  proof (rule lockstep_seq)
    show "blind P (hbind (as_path_error env (os_open (RDONLY\<lparr>o_nofollow := True\<rparr>) (d, []) leaf)) (\<lambda>fd. read_fd env fd n skip)) (\<lambda>_. True)"
      by (rule lockstep_bind [OF blind_path_error [OF blind_open]]) (use d in \<open>auto simp: RDONLY_def intro: blind_read_fd\<close>)
  qed (intro blind_struct blind_stat_at d)
qed

lemma blind_stat_op:
  assumes "picks P env roots rt"
  shows "blind P (stat_op env roots target rt) (\<lambda>_. True)"
  unfolding stat_op_def
  by (intro lockstep_bind [OF blind_split] lockstep_bind [OF blind_pick [OF assms]] lockstep_if
      blind_descend blind_struct blind_stat_fd blind_stat_at)

lemma blind_listdir: "d \<notin> P \<Longrightarrow> blind P (query_call (\<lambda>st. listdir st d)) (list_all plain)"
proof (rule blind_query)
  fix a b x assume d: "d \<notin> P" and ab: "similar P a b"
  show "listdir a d = listdir b d" unfolding listdir_def similarD(3) [OF ab d] ..
  assume "listdir a d = Inr x"
  then show "list_all plain x"
    using similarD(2) [OF ab d] by (auto simp: listdir_def plain_names_def list_all_iff split: option.splits node.splits)
qed

lemma blind_collect:
  "d \<notin> P \<Longrightarrow> list_all plain names \<Longrightarrow> blind P (collect_entries env d skip names acc skipped) (\<lambda>_. True)"
proof (induction env d skip names acc skipped rule: collect_entries.induct)
  case (2 env d skip name names acc skipped)
  then show ?case
    by (auto intro!: blind_struct blind_stat_at split: option.split)
qed (auto intro: lockstep_basic)

lemma blind_listdir_fd: "d \<notin> P \<Longrightarrow> blind P (listdir_fd env d skip) (\<lambda>_. True)"
  unfolding listdir_fd_def report_skipped_entries_def
  by (rule lockstep_bind [OF blind_path_error [OF blind_listdir]])
    (auto intro!: blind_struct blind_collect simp: list_all_iff split: prod.split)

lemma blind_list_dir:
  assumes "picks P env roots rt"
  shows "blind P (list_dir env roots target rt skip) (\<lambda>_. True)"
  unfolding list_dir_def
proof (intro lockstep_bind [OF blind_split] lockstep_bind [OF blind_pick [OF assms]] lockstep_if blind_descend)
  fix d leaf assume "d \<notin> P" and "plain leaf"
  then show "blind P (hbind (as_path_error env (os_open (RDONLY\<lparr>o_nofollow := True, o_directory := True\<rparr>) (d, []) leaf))
      (\<lambda>lfd. hfinally (listdir_fd env lfd skip) os_close)) (\<lambda>_. True)"
    by (intro lockstep_bind [OF blind_path_error [OF blind_open]] lockstep_finally blind_listdir_fd blind_close)
      (auto simp: RDONLY_def)
qed (auto intro: blind_listdir_fd)

section \<open>The client\<close>

lemma blind_guard: "blind P (guard_op cfg op) (\<lambda>_. True)"
  unfolding guard_op_def by (rule lockstep_basic)

lemma blind_lift: "blind P (hlift r) (\<lambda>_. True)"
  by (rule lockstep_lift) simp

lemmas blind_parts = blind_guard blind_lift blind_read_bytes blind_stat_op blind_list_dir

lemma blind_simple:
  assumes "picks P env roots rt"
  shows "blind P (fs_list env cfg roots target rt) (\<lambda>_. True)"
    and "blind P (fs_stat env cfg roots target rt) (\<lambda>_. True)"
    and "blind P (fs_read env cfg pats roots target rt) (\<lambda>_. True)"
    and "blind P (fs_grep env cfg re_compile roots target pattern regex rt) (\<lambda>_. True)"
  unfolding fs_list_def fs_stat_def fs_read_def fs_grep_def read_capped_def Let_def
  by (intro blind_struct blind_parts assms)+

lemma blind_glob_entries:
  assumes "picks P env roots rt"
  shows "blind P (glob_entries env roots rt q left rel es acc) (\<lambda>_. True)"
proof (induction left arbitrary: rel es acc)
  case 0
  show ?case by (induction es arbitrary: acc) (auto simp: Let_def intro!: blind_struct)
next
  case (Suc left)
  show ?case
    by (induction es arbitrary: acc) (auto simp: Let_def split_def intro!: blind_struct blind_list_dir Suc.IH assms)
qed

lemma blind_loop:
  "(\<And>rel. blind P (lister rel) (\<lambda>_. True)) \<Longrightarrow> blind P (largest_loop fuel lister m k least ls) (\<lambda>_. True)"
  by (induction fuel arbitrary: ls) (auto simp: Let_def intro!: blind_struct)

lemma blind_int_arg: "blind P (int_arg least v) (\<lambda>_. True)"
  unfolding int_arg_def by (auto intro: lockstep_basic split: pyval.split)

lemma blind_walks:
  assumes "picks P env roots rt"
  shows "blind P (fs_glob env cfg roots q rt) (\<lambda>_. True)"
    and "blind P (fs_largest env cfg roots target rt top_n min_bytes) (\<lambda>_. True)"
  unfolding fs_glob_def fs_largest_def Let_def split_def
  using assms by (auto intro!: blind_struct blind_parts blind_glob_entries blind_loop blind_int_arg split: option.split)

lemma blind_run_read: "picks P env roots rt \<Longrightarrow> blind P (run_read env cfg pats re_compile roots rt req) (\<lambda>_. True)"
  by (cases req) (auto simp: hmap_def intro!: blind_struct blind_simple blind_walks)

text \<open>
  C14: Confidentiality of reads. Two file systems agree except on a set \<open>P\<close> of inodes that no directory
  outside of \<open>P\<close> lists, and other processes act alike in both. Then every read request (list, stat, read, grep, glob, largest)
  on roots outside of \<open>P\<close> that names no root, or the first root literally, returns the same reply or error in both, and records the same events: nothing in
  \<open>P\<close> influences it, whatever symbolic links lead there. (A request that names a root in another way makes \<open>pick_root\<close> stat
  the path it gives, wherever that leads, and is not covered.)
\<close>

theorem fs_reads_confidential:
  assumes "alike P s t" and "outside P roots" and "literal_root env roots rt"
  shows "fst (run_read env cfg pats re_compile roots rt req s) = fst (run_read env cfg pats re_compile roots rt req t) \<and>
    w_log (snd (run_read env cfg pats re_compile roots rt req s)) = w_log (snd (run_read env cfg pats re_compile roots rt req t))"
  using blind_run_read [of P env roots rt cfg pats re_compile req] assms
  by (auto simp: lockstep_def alike_def picks_def)

text \<open>The witness: the content of \<open>/etc/passwd\<close> differs, and the root has a link to \<open>/etc\<close>.\<close>

definition demo_secret :: world where
  "demo_secret = demo_world\<lparr>w_store := demo_store\<lparr>st_nodes := (st_nodes demo_store)(5 \<mapsto> Reg ''other'')\<rparr>\<rparr>"

theorem fs_reads_confidential_witness:
  "fst (run_read demo_env demo_fs_config [] (\<lambda>_. None) demo_roots (Some ''/srv'') (QRead ''link/passwd'') demo_world) =
   fst (run_read demo_env demo_fs_config [] (\<lambda>_. None) demo_roots (Some ''/srv'') (QRead ''link/passwd'') demo_secret)"
proof -
  have a: "apart {0, 4, 5} demo_store" "apart {0, 4, 5} (w_store demo_secret)"
    by (auto simp: apart_def entry_Some_iff demo_store_def demo_secret_def split: if_splits)
  then have "similar {0, 4, 5} demo_store (w_store demo_secret)"
    by (auto simp: similar_def demo_secret_def demo_store_def plain_names_def plain_def)
  then have "alike {0, 4, 5} demo_world demo_secret"
    by (simp add: alike_def demo_world_def demo_secret_def)
  moreover have "outside {0, 4, 5} demo_roots" "literal_root demo_env demo_roots (Some ''/srv'')"
    by (simp_all add: outside_def literal_root_def demo_roots_def)
  ultimately show ?thesis
    using fs_reads_confidential [of "{0, 4, 5}" demo_world demo_secret] by blast
qed

end
