(* ===== verification/Fs_Largest.thy ===== *)
theory Fs_Largest
  imports Fs_Confidential Fs_Atomic_Claims
begin

text \<open>
  The search for the largest files: it ends within the configured number of entries, and what it
  returns are the largest files below the target.
\<close>

section \<open>Termination\<close>

text \<open>Every directory on the stack was paid for by an entry that was scanned.\<close>

definition rounds_left :: "nat \<Rightarrow> largest_state \<Rightarrow> nat" where
  "rounds_left m ls = length (ls_stack ls) + (m - ls_scanned ls)"

lemma scan_entries_bounded:
  assumes "ls_scanned ls \<le> m"
  shows "rounds_left m (scan_entries m k least rel es ls) \<le> rounds_left m ls \<and> ls_scanned (scan_entries m k least rel es ls) \<le> m"
  using assms
proof (induction es arbitrary: ls)
  case (Cons e es)
  define ls' where "ls' = (let child = child_path rel (si_name e); ls' = ls\<lparr>ls_scanned := Suc (ls_scanned ls)\<rparr> in
      if si_type e = KDir then ls'\<lparr>ls_stack := child # ls_stack ls'\<rparr>
      else if si_type e \<noteq> KFile \<or> si_size e < least then ls'
      else ls'\<lparr>ls_ranked := keep_largest k (si_size e, child, si_mtime e) (ls_ranked ls')\<rparr>)"
  show ?case
  proof (cases "m \<le> ls_scanned ls")
    case True
    then show ?thesis using Cons.prems by (simp add: rounds_left_def)
  next
    case False
    then have "rounds_left m ls' \<le> rounds_left m ls" and "ls_scanned ls' \<le> m"
      by (auto simp: rounds_left_def ls'_def Let_def)
    then show ?thesis using Cons.IH [of ls'] False by (simp add: ls'_def Let_def)
  qed
qed (simp add: rounds_left_def)

lemma largest_loop_ends:
  assumes "ls_scanned ls \<le> m" and "rounds_left m ls \<le> fuel"
  shows "fst (largest_loop fuel lister m k least ls s) \<noteq> Inr None"
  using assms
proof (induction fuel arbitrary: ls s)
  case 0
  then show ?case by (cases "ls_stack ls") (auto simp: rounds_left_def handler_simps)
next
  case (Suc fuel)
  show ?case
  proof (cases "ls_stack ls = [] \<or> ls_truncated ls")
    case False
    define ls0 where "ls0 = ls\<lparr>ls_stack := tl (ls_stack ls)\<rparr>"
    have "ls_scanned ls0 \<le> m" and "rounds_left m ls0 \<le> fuel"
      using Suc.prems False by (cases "ls_stack ls"; simp add: ls0_def rounds_left_def)+
    then have "fst (largest_loop fuel lister m k least (scan_entries m k least rel es ls0) u) \<noteq> Inr None" for rel es u
      using Suc.IH scan_entries_bounded [of ls0 m k least rel es] by (meson le_trans)
    then show ?thesis
      using False unfolding ls0_def by (auto simp: Let_def hbind_def split: prod.split sum.split)
  qed (auto simp: handler_simps)
qed

lemma largest_loop_scanned:
  assumes "ls_scanned ls \<le> m" and "largest_loop fuel lister m k least ls s = (Inr (Some ls'), t)"
  shows "ls_scanned ls' \<le> m"
  using assms
proof (induction fuel arbitrary: ls s)
  case (Suc fuel)
  then show ?case
    using scan_entries_bounded [of "ls\<lparr>ls_stack := tl (ls_stack ls)\<rparr>" m k least]
    by (auto simp: Let_def hbind_Inr_iff handler_simps split: if_splits)
qed (auto simp: handler_simps split: if_splits)

section \<open>Selection\<close>

lemma cand_less_irrefl [simp]: "\<not> cand_less c c"
  by (cases c) simp

lemma cand_less_trans: "cand_less a b \<Longrightarrow> cand_less b c \<Longrightarrow> cand_less a c"
  by (cases a; cases b; cases c) (auto intro: str_less_trans)

lemma cand_less_linear: "cand_less a b \<or> a = b \<or> cand_less b a"
  using str_less_linear by (cases a; cases b) force

text \<open>The candidates kept are in ascending order, and those left out are smaller than all of them.\<close>

definition ascending :: "candidate list \<Rightarrow> bool" where
  "ascending cs \<longleftrightarrow> sorted_wrt (\<lambda>a b. \<not> cand_less b a) cs"

definition best :: "nat \<Rightarrow> candidate set \<Rightarrow> candidate list \<Rightarrow> bool" where
  "best k seen cs \<longleftrightarrow> ascending cs \<and> set cs \<subseteq> seen \<and> length cs \<le> k \<and>
     (\<forall>c \<in> seen - set cs. length cs = k \<and> (\<forall>d \<in> set cs. cand_less c d))"

lemma set_heap_push [simp]: "set (heap_push c cs) = insert c (set cs)"
  by (induction cs) auto

lemma length_heap_push [simp]: "length (heap_push c cs) = Suc (length cs)"
  by (induction cs) auto

lemma ascending_heap_push: "ascending cs \<Longrightarrow> ascending (heap_push c cs)"
proof (induction cs)
  case (Cons d ds)
  have d: "\<forall>x \<in> set ds. \<not> cand_less x d" "ascending ds" using Cons.prems by (auto simp: ascending_def)
  show ?case
  proof (cases "cand_less d c")
    case True
    then have "\<not> cand_less c d" using cand_less_trans cand_less_irrefl by blast
    then show ?thesis using True d Cons.IH by (auto simp: ascending_def)
  next
    case False
    have "\<not> cand_less x c" if "x \<in> set ds" for x
      using False d(1) that cand_less_linear [of x d] cand_less_trans [of d x c] by blast
    then show ?thesis using False d by (auto simp: ascending_def)
  qed
qed (simp add: ascending_def)

lemma best_step:
  assumes b: "best k seen cs" and k: "0 < k"
  shows "best k (insert c seen) (keep_largest k c cs)"
proof (cases "length cs < k")
  case True
  then show ?thesis
    using b ascending_heap_push [of cs c] unfolding best_def keep_largest_def by auto
next
  case full: False
  then have len: "length cs = k" using b by (simp add: best_def)
  then obtain d ds where cs: "cs = d # ds" using k by (cases cs) auto
  have asc: "ascending ds" "\<forall>x \<in> set ds. \<not> cand_less x d" using b cs by (auto simp: best_def ascending_def)
  have min: "x \<in> set ds \<Longrightarrow> x = d \<or> cand_less d x" for x using asc(2) cand_less_linear by blast
  have out: "\<And>x y. x \<in> seen \<Longrightarrow> x \<notin> set cs \<Longrightarrow> y \<in> set cs \<Longrightarrow> cand_less x y" using b by (auto simp: best_def)
  show ?thesis
  proof (cases "cand_less d c")
    case True
    have "cand_less x y" if "x \<in> seen" "x \<notin> insert c (set ds)" "y \<in> insert c (set ds)" for x y
    proof (cases "x = d")
      case xd: True
      then show ?thesis using that min [of y] True by auto
    next
      case False
      then have "cand_less x d" and "y \<in> set ds \<Longrightarrow> cand_less x y" using out [of x] that cs by auto
      then show ?thesis using that True cand_less_trans by blast
    qed
    then show ?thesis
      using True full b cs len ascending_heap_push [OF asc(1)] unfolding best_def keep_largest_def by auto
  next
    case False
    have "cand_less c y" if "c \<notin> set cs" "y \<in> set cs" for y
      using that False cs min [of y] cand_less_linear [of c d] cand_less_trans [of c d y] by auto
    then have "\<forall>x \<in> insert c seen - set cs. length cs = k \<and> (\<forall>y \<in> set cs. cand_less x y)" using out len by blast
    moreover have "keep_largest k c cs = cs" using False full cs by (simp add: keep_largest_def)
    ultimately show ?thesis using b unfolding best_def by auto
  qed
qed

section \<open>Paths\<close>

lemma py_contains_split:
  "py_contains pat (a @ c # b) \<Longrightarrow> c \<notin> set pat \<Longrightarrow> py_contains pat a \<or> py_contains pat b"
proof (induction a)
  case Nil
  then show ?case by (cases pat) (auto simp: py_startswith_def)
next
  case (Cons x a)
  have "py_startswith (x # a) pat" if "py_startswith (x # a @ c # b) pat"
  proof -
    have t: "take (length pat) (x # a @ c # b) = pat" using that by (simp add: py_startswith_def)
    have "length pat \<le> length (x # a)"
    proof (rule ccontr)
      assume "\<not> ?thesis"
      then have "c \<in> set (take (length pat) ((x # a) @ c # b))" by (auto simp: take_Cons')
      then show False using t Cons.prems(2) by simp
    qed
    then have "take (length pat) ((x # a) @ c # b) = take (length pat) (x # a)" unfolding take_append by simp
    then show ?thesis using t by (simp add: py_startswith_def)
  qed
  then show ?case using Cons by auto
qed

lemma split_by_append: "P c \<Longrightarrow> split_by P (a @ c # b) = split_by P a @ split_by P b"
  by (induction a) (auto split: list.splits)

lemma split_by_single: "\<forall>c \<in> set b. \<not> P c \<Longrightarrow> split_by P b = [b]"
  by (induction b) auto

lemma check_components_append:
  "check_components xs = Inr a \<Longrightarrow> check_components ys = Inr b \<Longrightarrow> check_components (xs @ ys) = Inr (a @ b)"
  by (induction xs arbitrary: a) (auto simp: ebind_Inr_iff split: if_splits)

text \<open>A name that the connector accepts as one component.\<close>

definition tidy :: "str \<Rightarrow> bool" where
  "tidy name \<longleftrightarrow> split_components name = Inr [name]"

lemma tidyD:
  assumes "tidy name"
  shows "CHR 0x00 \<notin> set name" and "check_components [name] = Inr [name]" and "\<forall>c \<in> set name. \<not> is_sep c" and "name \<noteq> []"
    and "plain name" and "\<not> py_contains (BACKSLASHES @ ''?'' @ [CHR 0x5C]) name \<and> \<not> py_contains (BACKSLASHES @ ''.'' @ [CHR 0x5C]) name"
proof -
  note s = assms [unfolded tidy_def]
  show pl: "plain name" using split_components_plain [OF s] by simp
  have c: "check_components (split_by is_sep name) = Inr [name]" and "CHR 0x00 \<notin> set name"
    and "\<not> py_contains (BACKSLASHES @ ''?'' @ [CHR 0x5C]) name \<and> \<not> py_contains (BACKSLASHES @ ''.'' @ [CHR 0x5C]) name"
    using s by (auto simp: split_components_def split: if_splits)
  then show "CHR 0x00 \<notin> set name"
    and "\<not> py_contains (BACKSLASHES @ ''?'' @ [CHR 0x5C]) name \<and> \<not> py_contains (BACKSLASHES @ ''.'' @ [CHR 0x5C]) name" by auto
  have mem: "check_components xs = Inr ys \<Longrightarrow> set ys \<subseteq> set xs" for xs ys
    by (induction xs arbitrary: ys) (auto simp: ebind_Inr_iff split: if_splits)
  have "name \<in> set (split_by is_sep name)" using mem [OF c] by simp
  then show nosep: "\<forall>c \<in> set name. \<not> is_sep c" using split_by_free by blast
  show "check_components [name] = Inr [name]" using c split_by_single [of name is_sep] nosep by simp
  show "name \<noteq> []" using pl by (simp add: plain_def)
qed

lemma child_components:
  assumes rel: "split_components rel = Inr comps" and name: "tidy name"
  shows "split_components (child_path rel name) = Inr (comps @ [name])"
proof (cases "rel = []")
  case True
  then have "comps = []" using rel by (auto simp: split_components_def split: if_splits)
  then show ?thesis using True name by (simp add: child_path_def tidy_def)
next
  case False
  let ?u = "rel @ CHR ''/'' # name"
  note t = tidyD [OF name]
  have r: "CHR 0x00 \<notin> set rel" "check_components (split_by is_sep rel) = Inr comps" "\<not> py_startswith rel BACKSLASHES" "\<not> py_isabs rel"
    "\<not> py_contains (BACKSLASHES @ ''?'' @ [CHR 0x5C]) rel" "\<not> py_contains (BACKSLASHES @ ''.'' @ [CHR 0x5C]) rel"
    using rel False
    by (auto simp: split_components_def is_sep_def BACKSLASHES_def py_startswith_def py_isabs_def split: if_splits)
  have con: "\<not> py_contains (BACKSLASHES @ ''?'' @ [CHR 0x5C]) ?u \<and> \<not> py_contains (BACKSLASHES @ ''.'' @ [CHR 0x5C]) ?u"
    using t(6) r(5,6) py_contains_split [of _ rel "CHR ''/''" name] by (fastforce simp: BACKSLASHES_def)
  have start: "\<not> py_startswith ?u BACKSLASHES" "\<not> py_startswith ?u ''//''" "\<not> py_isabs ?u"
    using False r(3,4) by (cases rel; cases "tl rel"; auto simp: py_startswith_def BACKSLASHES_def py_isabs_def)+
  have "check_components (split_by is_sep ?u) = Inr (comps @ [name])"
    using split_by_append [of is_sep "CHR ''/''" rel name] check_components_append [OF r(2) t(2)] split_by_single [OF t(3)]
    by (simp add: is_sep_def)
  moreover have "?u \<noteq> ''.''" using False by (cases rel) auto
  ultimately show ?thesis
    using False r(1) t(1) start con by (simp add: child_path_def split_components_def)
qed

section \<open>Listing a directory without interference or failures\<close>

definition quiet :: "world \<Rightarrow> store \<Rightarrow> bool" where
  "quiet s st \<longleftrightarrow> w_script s = [] \<and> w_store s = st"

lemma quiet_undisturbed: "quiet s st \<Longrightarrow> undisturbed s"
  by (simp add: quiet_def undisturbed_def)

lemma quiet_syscall:
  "quiet s st \<Longrightarrow> syscall f s = (case f st of Inl e \<Rightarrow> (Inl (OSErr e), s) | Inr (x, st') \<Rightarrow> (Inr x, s\<lparr>w_store := st'\<rparr>))"
  by (simp add: quiet_def syscall_def interference_def)

lemma quiet_query: "quiet s st \<Longrightarrow> query_call f s = (map_sum OSErr id (f st), s)"
  by (auto simp: query_call_def quiet_syscall quiet_def map_sum_def split: sum.split)

lemma hbind_InrE:
  assumes "hbind f g s = (Inr y, t)"
  obtains x u where "f s = (Inr x, u)" "g x u = (Inr y, t)"
  using assms hbind_Inr_iff [of f g s y t] by blast

lemma as_path_error_Inr: "as_path_error env f s = (Inr x, t) \<Longrightarrow> f s = (Inr x, t)"
  by (frule as_errors_raise(1), elim exE conjE, drule spec [of _ x]) simp

text \<open>The attributes of the entries, with the protection of macOS entries off.\<close>

definition stats_of :: "store \<Rightarrow> ino \<Rightarrow> str list \<Rightarrow> stat_info list" where
  "stats_of st d names = concat (map (\<lambda>name. case fstatat st False (d, []) name of Inr x \<Rightarrow> [stat_to_dict name x] | Inl _ \<Rightarrow> []) names)"

lemma collect_quiet:
  assumes "quiet s st" and "\<not> fe_darwin env"
  shows "\<exists>sk. collect_entries env d skip names acc skipped s = (Inr (acc @ stats_of st d names, sk), s)"
proof (induction names arbitrary: acc skipped)
  case (Cons name names)
  have st: "stat_at d name s = (map_sum OSErr id (fstatat st False (d, []) name), s)"
    unfolding stat_at_def using assms(1) by (rule quiet_query)
  show ?case
  proof (cases "fstatat st False (d, []) name")
    case (Inl n)
    then show ?thesis
      using Cons.IH [of acc "skipped @ [name]"] st assms(2)
      by (auto simp: is_macos_artifact_name_def on_oserror_def hcatch_def hbind_def handler_simps raise_macos_permission_def stats_of_def)
  next
    case (Inr x)
    then show ?thesis
      using Cons.IH [of "acc @ [stat_to_dict name x]" skipped] st assms(2)
      by (auto simp: is_macos_artifact_name_def is_macos_dataless_def on_oserror_def hcatch_def hbind_def handler_simps stats_of_def)
  qed
qed (simp add: handler_simps stats_of_def)

lemma listdir_fd_quiet:
  assumes "quiet s st" and "\<not> fe_darwin env" and "listdir_fd env d skip s = (Inr out, t)"
  shows "quiet t st" and "\<exists>names. listdir st d = Inr names \<and> out = stats_of st d (sorted_by id names)"
proof -
  obtain names u where n: "as_path_error env (query_call (\<lambda>st. listdir st d)) s = (Inr names, u)"
    and rest: "hbind (collect_entries env d skip (sorted_by id names) [] []) (\<lambda>(entries, skipped).
      hbind (report_skipped_entries (if skip then ''the macOS entry filter'' else ''list_dir'') skipped) (\<lambda>_. hret entries)) u = (Inr out, t)"
    using assms(3) unfolding listdir_fd_def by (rule hbind_InrE)
  have "query_call (\<lambda>st. listdir st d) s = (Inr names, u)" by (rule as_path_error_Inr [OF n])
  then have "(map_sum OSErr id (listdir st d) :: fs_exc + str list, s) = (Inr names, u)"
    using quiet_query [OF assms(1), of "\<lambda>st. listdir st d"] by simp
  then have ls: "listdir st d = Inr names" and u: "u = s" by (cases "listdir st d"; simp)+
  obtain sk where "collect_entries env d skip (sorted_by id names) [] [] s = (Inr (stats_of st d (sorted_by id names), sk), s)"
    using collect_quiet [OF assms(1,2), of d skip "sorted_by id names" "[]" "[]"] by auto
  then have "out = stats_of st d (sorted_by id names) \<and> w_script t = w_script s \<and> w_store t = w_store s"
    using rest u by (auto simp: hbind_def handler_simps report_skipped_entries_def audit_def split: if_splits)
  then show "quiet t st" and "\<exists>names. listdir st d = Inr names \<and> out = stats_of st d (sorted_by id names)"
    using assms(1) ls by (auto simp: quiet_def)
qed

definition dir_at :: "store \<Rightarrow> ino \<Rightarrow> str \<Rightarrow> ino \<Rightarrow> bool" where
  "dir_at st D rel d \<longleftrightarrow> (\<exists>comps. split_components rel = Inr comps \<and> locate st D comps = Some d)"

lemma locate_snoc: "locate st d (xs @ [x]) = Option.bind (locate st d xs) (\<lambda>i. entry st i x)"
  by (induction xs arbitrary: d) (auto split: bind_split)

lemma open_dir_quiet:
  assumes "quiet s st" "plain c"
    and "as_path_error env (os_open (RDONLY\<lparr>o_nofollow := True, o_directory := True\<rparr>) (d, []) c) s = (Inr i, u)"
  shows "quiet u st" and "entry st d c = Some i"
proof -
  have o: "os_open (RDONLY\<lparr>o_nofollow := True, o_directory := True\<rparr>) (d, []) c s = (Inr i, u)"
    by (rule as_path_error_Inr [OF assms(3)])
  obtain st' where st': "openat st (RDONLY\<lparr>o_nofollow := True, o_directory := True\<rparr>) (d, []) c = Inr (i, st')"
      "w_script u = w_script s" "w_store u = st'"
    using o unfolding os_open_def hbind_Inr_iff quiet_syscall [OF assms(1)]
    by (auto simp: handler_simps split: sum.splits prod.splits)
  note e = openat_dir_plain [OF assms(2) st'(1)]
  show "quiet u st" and "entry st d c = Some i" using e st' assms(1) by (auto simp: quiet_def)
qed

lemma finally_close_quiet: "hfinally f os_close s = (Inr x, t) \<Longrightarrow> \<exists>v. f s = (Inr x, v) \<and> (quiet v st \<longrightarrow> quiet t st)"
  by (auto simp: hfinally_def os_close_def handler_simps quiet_def split: prod.splits)

lemma descend_quiet:
  assumes "list_all plain comps" "quiet s st" "descend env d comps body s = (Inr x, t)"
  shows "\<exists>D u v. locate st d (butlast comps) = Some D \<and> quiet u st \<and> body D (last comps) u = (Inr x, v) \<and> (quiet v st \<longrightarrow> quiet t st)"
  using assms
proof (induction env d comps body arbitrary: s t rule: descend.induct)
  case (3 env d dir c cs body)
  obtain i u where u: "as_path_error env (os_open (RDONLY\<lparr>o_nofollow := True, o_directory := True\<rparr>) (d, []) dir) s = (Inr i, u)"
    and v: "hfinally (descend env i (c # cs) body) os_close u = (Inr x, t)"
    using 3(4) unfolding descend.simps by (rule hbind_InrE)
  have "quiet u st" "entry st d dir = Some i" using open_dir_quiet [OF 3(3) _ u] 3(2) by auto
  then show ?case
    using finally_close_quiet [OF v] 3(1) [of u] 3(2) by fastforce
qed (auto simp: handler_simps)

lemma list_dir_quiet:
  assumes q: "quiet s st" and mac: "\<not> fe_darwin env" and run: "list_dir env [sr] rel None skip s = (Inr out, t)"
  shows "quiet t st" and "\<exists>d names. dir_at st (sr_dir sr) rel d \<and> listdir st d = Inr names \<and> out = stats_of st d (sorted_by id names)"
proof -
  obtain comps where comps: "split_components rel = Inr comps"
    using run by (cases "split_components rel") (auto simp: list_dir_def hbind_def handler_simps)
  define body where "body pfd leaf = hbind (as_path_error env (os_open (RDONLY\<lparr>o_nofollow := True, o_directory := True\<rparr>) (pfd, []) leaf)) (\<lambda>lfd.
       hfinally (listdir_fd env lfd skip) os_close)" for pfd leaf
  have run': "(if comps = [] then listdir_fd env (sr_dir sr) skip else descend env (sr_dir sr) comps body) s = (Inr out, t)"
    using run comps by (auto simp: list_dir_def hbind_def handler_simps pick_root_def body_def [abs_def] split: if_splits)
  have "quiet t st \<and> (\<exists>d names. dir_at st (sr_dir sr) rel d \<and> listdir st d = Inr names \<and> out = stats_of st d (sorted_by id names))"
  proof (cases "comps = []")
    case True
    then show ?thesis
      using listdir_fd_quiet [OF q mac] run' comps by (auto simp: dir_at_def)
  next
    case False
    have plains: "list_all plain comps" by (rule split_components_plain [OF comps])
    obtain D u v where D: "locate st (sr_dir sr) (butlast comps) = Some D" "quiet u st" "body D (last comps) u = (Inr out, v)"
        "quiet v st \<longrightarrow> quiet t st"
      using descend_quiet [OF plains q, of env "sr_dir sr" body out t] run' False by auto
    have leaf: "plain (last comps)" using plains False by (simp add: list_all_iff)
    obtain i w where w: "as_path_error env (os_open (RDONLY\<lparr>o_nofollow := True, o_directory := True\<rparr>) (D, []) (last comps)) u = (Inr i, w)"
      and v: "hfinally (listdir_fd env i skip) os_close w = (Inr out, v)"
      using D(3) unfolding body_def by (rule hbind_InrE)
    note o = open_dir_quiet [OF D(2) leaf w]
    obtain x where x: "listdir_fd env i skip w = (Inr out, x)" "quiet x st \<longrightarrow> quiet v st" using finally_close_quiet [OF v] by blast
    have "locate st (sr_dir sr) comps = Some i"
      using locate_snoc [of st "sr_dir sr" "butlast comps" "last comps"] D(1) o(2) False by simp
    then show ?thesis using listdir_fd_quiet [OF o(1) mac x(1)] x(2) D(4) comps by (auto simp: dir_at_def)
  qed
  then show "quiet t st" and "\<exists>d names. dir_at st (sr_dir sr) rel d \<and> listdir st d = Inr names \<and> out = stats_of st d (sorted_by id names)"
    by auto
qed

section \<open>The files below a directory\<close>

text \<open>A regular file of at least the given size, somewhere below the directory \<open>d\<close> with the path \<open>rel\<close>.\<close>

inductive found :: "store \<Rightarrow> nat \<Rightarrow> str \<Rightarrow> ino \<Rightarrow> candidate \<Rightarrow> bool" for st least where
  here: "entry st d name = Some i \<Longrightarrow> st_nodes st i = Some (Reg b) \<Longrightarrow> least \<le> length b \<Longrightarrow>
    found st least rel d (length b, child_path rel name, st_mtime st i)"
| deeper: "entry st d name = Some i \<Longrightarrow> is_dir st i \<Longrightarrow> found st least (child_path rel name) i c \<Longrightarrow> found st least rel d c"

inductive_simps found_iff: "found st least rel d c"

definition below_path :: "store \<Rightarrow> ino \<Rightarrow> nat \<Rightarrow> str \<Rightarrow> candidate set" where
  "below_path st D least rel = {c. \<exists>d. dir_at st D rel d \<and> found st least rel d c}"

definition tidy_store :: "store \<Rightarrow> bool" where
  "tidy_store st \<longleftrightarrow> (\<forall>d p es. st_nodes st d = Some (Dir p es) \<longrightarrow> list_all tidy (map fst es))"

lemma dir_at_unique: "dir_at st D rel d \<Longrightarrow> dir_at st D rel d' \<Longrightarrow> d = d'"
  by (auto simp: dir_at_def)

lemma tidy_entry: "tidy_store st \<Longrightarrow> entry st d name = Some i \<Longrightarrow> tidy name"
  by (force simp: tidy_store_def entry_Some_iff list_all_iff dest: map_of_SomeD)

lemma dir_at_child:
  "tidy_store st \<Longrightarrow> dir_at st D rel d \<Longrightarrow> entry st d name = Some i \<Longrightarrow> dir_at st D (child_path rel name) i"
  using child_components tidy_entry by (fastforce simp: dir_at_def locate_snoc)

lemma stats_of_entries:
  assumes "tidy_store st" and "listdir st d = Inr names"
  shows "set (stats_of st d (sorted_by id names)) = {stat_to_dict name x | name i x. entry st d name = Some i \<and> fstat st i = Inr x}"
proof -
  obtain p es where d: "st_nodes st d = Some (Dir p es)" "names = map fst es"
    using assms(2) by (auto simp: listdir_def split: option.splits node.splits)
  have ent: "entry st d name = map_of es name" for name using d(1) by (simp add: entry_def)
  have stat: "fstatat st False (d, []) name = (case map_of es name of None \<Rightarrow> Inl ENOENT | Some i \<Rightarrow> fstat st i)"
    if "name \<in> set names" for name
  proof -
    have "list_all tidy names" using assms(1) d unfolding tidy_store_def by blast
    then have "plain name" using that tidyD(5) by (simp add: list_all_iff)
    then show ?thesis using d(1) by (auto simp: fstatat_def resolve_plain_eq split: option.split)
  qed
  have mem: "name \<in> set names" if "map_of es name = Some i" for name i
    using that d(2) by (force dest: map_of_SomeD)
  show ?thesis
    using mem unfolding stats_of_def ent by (auto simp: stat split: sum.splits option.splits) (force simp: stat)+
qed

section \<open>The traversal\<close>

definition files_in :: "nat \<Rightarrow> str \<Rightarrow> stat_info set \<Rightarrow> candidate set" where
  "files_in least rel es = {(si_size e, child_path rel (si_name e), si_mtime e) | e. e \<in> es \<and> si_type e = KFile \<and> least \<le> si_size e}"

definition dirs_in :: "str \<Rightarrow> stat_info set \<Rightarrow> str set" where
  "dirs_in rel es = {child_path rel (si_name e) | e. e \<in> es \<and> si_type e = KDir}"

lemma scan_truncated: "ls_truncated ls \<Longrightarrow> ls_truncated (scan_entries m k least rel es ls)"
  by (induction es arbitrary: ls) (auto simp: Let_def)

lemma files_in_insert: "files_in least rel (insert e es) = (if si_type e = KFile \<and> least \<le> si_size e
    then insert (si_size e, child_path rel (si_name e), si_mtime e) (files_in least rel es) else files_in least rel es)"
  by (auto simp: files_in_def)

lemma dirs_in_insert: "dirs_in rel (insert e es) = (if si_type e = KDir then insert (child_path rel (si_name e)) (dirs_in rel es) else dirs_in rel es)"
  by (auto simp: dirs_in_def)

lemma in_dir_empty [simp]: "files_in least rel {} = {}" "dirs_in rel {} = {}"
  by (auto simp: files_in_def dirs_in_def)

lemma scan_entries_complete:
  assumes "\<not> ls_truncated (scan_entries m k least rel es ls)" and "best k seen (ls_ranked ls)" and "0 < k"
  shows "best k (seen \<union> files_in least rel (set es)) (ls_ranked (scan_entries m k least rel es ls))"
    and "set (ls_stack (scan_entries m k least rel es ls)) = dirs_in rel (set es) \<union> set (ls_stack ls)"
proof -
  have "best k (seen \<union> files_in least rel (set es)) (ls_ranked (scan_entries m k least rel es ls)) \<and>
      set (ls_stack (scan_entries m k least rel es ls)) = dirs_in rel (set es) \<union> set (ls_stack ls)"
    using assms
  proof (induction es arbitrary: ls seen)
    case (Cons e es)
    define child where "child = child_path rel (si_name e)"
    consider (dir) "si_type e = KDir" | (hit) "si_type e = KFile" "least \<le> si_size e" | (skip) "si_type e \<noteq> KDir" "\<not> (si_type e = KFile \<and> least \<le> si_size e)"
      by blast
    then show ?case
    proof cases
      case dir
      show ?thesis
        using Cons.IH [of "ls\<lparr>ls_scanned := Suc (ls_scanned ls), ls_stack := child # ls_stack ls\<rparr>" seen] Cons.prems dir
        by (auto simp: Let_def child_def files_in_insert dirs_in_insert split: if_splits)
    next
      case hit
      show ?thesis
        using Cons.IH [of "ls\<lparr>ls_scanned := Suc (ls_scanned ls), ls_ranked := keep_largest k (si_size e, child, si_mtime e) (ls_ranked ls)\<rparr>"
            "insert (si_size e, child, si_mtime e) seen"] Cons.prems hit best_step
        by (auto simp: Let_def child_def files_in_insert dirs_in_insert split: if_splits)
    next
      case skip
      show ?thesis
        using Cons.IH [of "ls\<lparr>ls_scanned := Suc (ls_scanned ls)\<rparr>" seen] Cons.prems skip
        by (auto simp: Let_def child_def files_in_insert dirs_in_insert split: if_splits)
    qed
  qed simp
  then show "best k (seen \<union> files_in least rel (set es)) (ls_ranked (scan_entries m k least rel es ls))"
    and "set (ls_stack (scan_entries m k least rel es ls)) = dirs_in rel (set es) \<union> set (ls_stack ls)" by auto
qed

lemma fstat_file: "fstat st i = Inr x \<and> s_kind x = KFile \<longleftrightarrow> (\<exists>b. st_nodes st i = Some (Reg b) \<and>
    x = \<lparr>s_kind = KFile, s_size = length b, s_mtime = st_mtime st i, s_dataless = st_dataless st i, s_ino = i\<rparr>)"
  by (auto simp: fstat_def split: option.splits node.splits)

lemma fstat_dir: "(\<exists>x. fstat st i = Inr x \<and> s_kind x = KDir) \<longleftrightarrow> is_dir st i"
  by (auto simp: fstat_def is_dir_def split: option.splits node.splits)

text \<open>What is below a directory: its own files and what is below its sub-directories.\<close>

lemma below_path_step:
  assumes tidy: "tidy_store st" and d: "dir_at st D rel d" and ls: "listdir st d = Inr names"
    and es: "es = set (stats_of st d (sorted_by id names))"
  shows "below_path st D least rel = files_in least rel es \<union> (\<Union>r \<in> dirs_in rel es. below_path st D least r)"
proof -
  have e: "es = {stat_to_dict name x | name i x. entry st d name = Some i \<and> fstat st i = Inr x}"
    unfolding es by (rule stats_of_entries [OF tidy ls])
  have "files_in least rel es = {(s_size x, child_path rel name, s_mtime x) | name i x.
      entry st d name = Some i \<and> (fstat st i = Inr x \<and> s_kind x = KFile) \<and> least \<le> s_size x}"
    unfolding files_in_def e by (auto simp: stat_to_dict_def) (blast, metis stat_info.select_convs)
  also have "\<dots> = {(length b, child_path rel name, st_mtime st i) | name i b.
      entry st d name = Some i \<and> st_nodes st i = Some (Reg b) \<and> least \<le> length b}"
    unfolding fstat_file by auto (blast, metis stat_result.select_convs(2,3))
  finally have files: "files_in least rel es = \<dots>" .
  have "dirs_in rel es = {child_path rel name | name i. entry st d name = Some i \<and> (\<exists>x. fstat st i = Inr x \<and> s_kind x = KDir)}"
    unfolding dirs_in_def e by (auto simp: stat_to_dict_def) (metis stat_info.select_convs)
  then have dirs: "dirs_in rel es = {child_path rel name | name i. entry st d name = Some i \<and> is_dir st i}"
    unfolding fstat_dir .
  have one: "below_path st D least rel = {c. found st least rel d c}"
    unfolding below_path_def using d dir_at_unique by blast
  have sub: "below_path st D least (child_path rel name) = {c. found st least (child_path rel name) i c}"
    if "entry st d name = Some i" for name i
    unfolding below_path_def using dir_at_child [OF tidy d that] dir_at_unique by blast
  show ?thesis
  proof (rule set_eqI)
    fix c
    have "c \<in> (\<Union>r \<in> dirs_in rel es. below_path st D least r) \<longleftrightarrow>
        (\<exists>name i. entry st d name = Some i \<and> is_dir st i \<and> found st least (child_path rel name) i c)"
      unfolding dirs using sub by blast
    moreover have "found st least rel d c \<longleftrightarrow> c \<in> files_in least rel es \<or>
        (\<exists>name i. entry st d name = Some i \<and> is_dir st i \<and> found st least (child_path rel name) i c)"
      unfolding files by (subst found_iff) blast
    ultimately show "c \<in> below_path st D least rel \<longleftrightarrow> c \<in> files_in least rel es \<union> (\<Union>r \<in> dirs_in rel es. below_path st D least r)"
      unfolding one by blast
  qed
qed

lemma largest_loop_complete:
  assumes run: "largest_loop fuel (\<lambda>rel. list_dir env [sr] rel None True) m k least ls s = (Inr (Some ls'), t)"
    and q: "quiet s st" and mac: "\<not> fe_darwin env" and tidy: "tidy_store st" and k: "0 < k"
    and best: "best k seen (ls_ranked ls)" and fin: "\<not> ls_truncated ls'"
  shows "best k (seen \<union> (\<Union>r \<in> set (ls_stack ls). below_path st (sr_dir sr) least r)) (ls_ranked ls')"
  using run q best
proof (induction fuel arbitrary: ls s seen)
  case 0
  then show ?case using fin by (auto simp: handler_simps split: if_splits)
next
  case (Suc fuel)
  show ?case
  proof (cases "ls_stack ls = [] \<or> ls_truncated ls")
    case True
    then show ?thesis using Suc.prems fin by (auto simp: handler_simps)
  next
    case False
    define rel where "rel = hd (ls_stack ls)"
    define ls0 where "ls0 = ls\<lparr>ls_stack := tl (ls_stack ls)\<rparr>"
    have "hbind (list_dir env [sr] rel None True) (\<lambda>es. largest_loop fuel (\<lambda>rel. list_dir env [sr] rel None True) m k least
        (scan_entries m k least rel es ls0)) s = (Inr (Some ls'), t)"
      using Suc.prems(1) False unfolding rel_def ls0_def by (simp add: Let_def)
    then obtain es u where u: "list_dir env [sr] rel None True s = (Inr es, u)"
      and rest: "largest_loop fuel (\<lambda>rel. list_dir env [sr] rel None True) m k least (scan_entries m k least rel es ls0) u = (Inr (Some ls'), t)"
      by (rule hbind_InrE)
    note l = list_dir_quiet [OF Suc.prems(2) mac u]
    obtain d names where d: "dir_at st (sr_dir sr) rel d" "listdir st d = Inr names" "es = stats_of st d (sorted_by id names)"
      using l(2) by blast
    have open': "\<not> ls_truncated (scan_entries m k least rel es ls0)"
    proof
      assume "ls_truncated (scan_entries m k least rel es ls0)"
      then have "ls' = scan_entries m k least rel es ls0" using rest by (cases fuel) (auto simp: handler_simps)
      then show False using fin \<open>ls_truncated (scan_entries m k least rel es ls0)\<close> by simp
    qed
    have "best k seen (ls_ranked ls0)" using Suc.prems(3) by (simp add: ls0_def)
    note sc = scan_entries_complete [OF open' this k]
    have "best k (seen \<union> files_in least rel (set es) \<union> (\<Union>r \<in> dirs_in rel (set es) \<union> set (ls_stack ls0). below_path st (sr_dir sr) least r)) (ls_ranked ls')"
      using Suc.IH [OF rest l(1) sc(1)] unfolding sc(2) .
    moreover have "set (ls_stack ls) = insert rel (set (ls_stack ls0))"
      using False by (cases "ls_stack ls") (auto simp: rel_def ls0_def)
    moreover have "below_path st (sr_dir sr) least rel = files_in least rel (set es) \<union> (\<Union>r \<in> dirs_in rel (set es). below_path st (sr_dir sr) least r)"
      by (rule below_path_step [OF tidy d(1,2)]) (simp add: d(3))
    ultimately show ?thesis by (simp add: Un_ac)
  qed
qed

section \<open>The result\<close>

declare largest_loop.simps [simp del]

definition descending :: "candidate list \<Rightarrow> bool" where
  "descending cs \<longleftrightarrow> sorted_wrt (\<lambda>a b. \<not> before b a) cs"

lemma set_insert_cand [simp]: "set (insert_cand c cs) = insert c (set cs)"
  and length_insert_cand [simp]: "length (insert_cand c cs) = Suc (length cs)"
  by (induction cs) auto

lemma before_trans: "before a b \<Longrightarrow> before b c \<Longrightarrow> before a c"
  by (cases a; cases b; cases c) (auto intro: str_less_trans)

lemma before_weak: "\<not> before b a \<Longrightarrow> \<not> before c b \<Longrightarrow> \<not> before c a"
proof -
  have "\<not> str_less q p \<Longrightarrow> \<not> str_less r q \<Longrightarrow> \<not> str_less r p" for p q r
    using str_less_linear [of q r] str_less_trans [of q r p] by blast
  then show "\<not> before b a \<Longrightarrow> \<not> before c b \<Longrightarrow> \<not> before c a" by (cases a; cases b; cases c) auto
qed

lemma descending_insert: "descending cs \<Longrightarrow> descending (insert_cand c cs)"
proof (induction cs)
  case (Cons d ds)
  have d: "\<forall>x \<in> set ds. \<not> before x d" "descending ds" using Cons.prems by (auto simp: descending_def)
  show ?case
  proof (cases "before d c")
    case True
    then have "\<not> before c d" using before_trans [of d c d] by (cases d) auto
    then show ?thesis using True d Cons.IH by (auto simp: descending_def)
  next
    case False
    then have "\<not> before x c" if "x \<in> set ds" for x using d(1) that before_weak by blast
    then show ?thesis using False d by (auto simp: descending_def)
  qed
qed (simp add: descending_def)

lemma sort_ranked_props: "set (sort_ranked cs) = set cs \<and> length (sort_ranked cs) = length cs \<and> descending (sort_ranked cs)"
  unfolding sort_ranked_def by (induction cs) (auto simp: descending_insert, simp add: descending_def)

lemma int_arg_Inr: "int_arg l v s = (Inr n, t) \<longleftrightarrow> (\<exists>i. v = PInt i \<and> l \<le> i \<and> n = nat i \<and> t = s)"
  by (auto simp: int_arg_def handler_simps split: pyval.splits)

lemma guard_op_Inr: "guard_op cfg op s = (Inr x, t) \<longleftrightarrow> op \<in> set (fc_allowed_fs_ops cfg) \<and> t = s"
  by (simp add: guard_op_def)

lemma fs_largest_Inr:
  assumes "fs_largest env cfg roots target rt top_n min_bytes s = (Inr r, t)"
  obtains k least q u where "top_n = PInt k" "min_bytes = PInt least" "1 \<le> k" "k \<le> fc_largest_max_entries cfg"
    and "largest_loop (Suc (nat (fc_largest_max_entries cfg))) (\<lambda>rel. list_dir env roots rel rt True) (nat (fc_largest_max_entries cfg)) (nat k) (nat least)
      \<lparr>ls_stack = [target], ls_scanned = 0, ls_truncated = False, ls_ranked = []\<rparr> s = (Inr q, u)"
    and "r = map_option (\<lambda>ls. (ls_scanned ls, ls_truncated ls, sort_ranked (ls_ranked ls))) q"
  using assms unfolding fs_largest_def Let_def
  by (cases r) (auto simp: hbind_Inr_iff guard_op_Inr int_arg_Inr audit_def hmodify_def split: option.splits)

text \<open>
  C18: The largest files. With one root, on a platform other than macOS, without interference and failing calls, and on a store whose names the
  connector accepts, a search that is not cut off returns files below the target of at least the given size, in descending order, and every
  such file that it leaves out is smaller than all it returns, of which there are as many as asked for. (An entry whose \<open>stat\<close> fails and,
  on macOS, a placeholder or metadata file is left out without a mark that the search was cut off.)
\<close>

theorem fs_largest_correct:
  assumes "w_script s = []" and "tidy_store (w_store s)" and "\<not> fe_darwin env"
    and "fs_largest env cfg [sr] target None (PInt k) (PInt least) s = (Inr (Some (scanned, False, out)), t)"
  shows "descending out \<and> set out \<subseteq> below_path (w_store s) (sr_dir sr) (nat least) target \<and> length out \<le> nat k \<and>
    (\<forall>c \<in> below_path (w_store s) (sr_dir sr) (nat least) target. c \<in> set out \<or>
      length out = nat k \<and> (\<forall>d \<in> set out. cand_less c d))"
proof -
  obtain k' l' q u where r: "PInt k = PInt k'" "PInt least = PInt l'" "1 \<le> k'"
    and loop: "largest_loop (Suc (nat (fc_largest_max_entries cfg))) (\<lambda>rel. list_dir env [sr] rel None True)
      (nat (fc_largest_max_entries cfg)) (nat k') (nat l')
      \<lparr>ls_stack = [target], ls_scanned = 0, ls_truncated = False, ls_ranked = []\<rparr> s = (Inr q, u)"
    and q: "Some (scanned, False, out) = map_option (\<lambda>ls. (ls_scanned ls, ls_truncated ls, sort_ranked (ls_ranked ls))) q"
    by (rule fs_largest_Inr [OF assms(4)])
  obtain ls where ls: "q = Some ls" and out: "out = sort_ranked (ls_ranked ls)" "\<not> ls_truncated ls" using q by (cases q) auto
  have k: "0 < nat k" using r by simp
  note run = loop [unfolded ls, folded r(1,2) [unfolded pyval.inject]]
  have "best (nat k) ({} \<union> (\<Union>r \<in> set [target]. below_path (w_store s) (sr_dir sr) (nat least) r)) (ls_ranked ls)"
    using largest_loop_complete [OF run _ assms(3,2) k _ out(2), of "{}"] assms(1)
    by (auto simp: quiet_def best_def ascending_def)
  then have "best (nat k) (below_path (w_store s) (sr_dir sr) (nat least) target) (ls_ranked ls)" by simp
  note b = this [unfolded best_def]
  have eqs: "set out = set (ls_ranked ls)" "length out = length (ls_ranked ls)" "descending out"
    using sort_ranked_props [of "ls_ranked ls"] out(1) by auto
  show ?thesis
    unfolding eqs(1,2) using eqs(3) b by blast
qed

text \<open>The witness: the two files of a small tree.\<close>

definition deep_store :: store where
  "deep_store = \<lparr>st_nodes = [0 \<mapsto> Dir 0 [(''srv'', 1)], 1 \<mapsto> Dir 0 [(''a'', 2), (''d'', 3)], 2 \<mapsto> Reg ''xy'', 3 \<mapsto> Dir 1 [(''b'', 4)], 4 \<mapsto> Reg ''xyz''],
     st_mtime = (\<lambda>_. 0), st_dir_size = (\<lambda>_. 0), st_dataless = (\<lambda>_. False), st_next = 5, st_now = 0\<rparr>"

definition deep_world :: world where
  "deep_world = demo_world\<lparr>w_store := deep_store\<rparr>"

definition demo_largest :: "(fs_exc + (nat \<times> bool \<times> candidate list) option) \<times> world" where
  "demo_largest = fs_largest demo_env demo_fs_config demo_roots [] None (PInt 1) (PInt 0) deep_world"

lemma demo_largest_result: "fst demo_largest = Inr (Some (3, False, [(3, ''d/b'', 0)]))"
  by code_simp

theorem fs_largest_correct_witness:
  "set [(3, ''d/b'', 0)] \<subseteq> below_path deep_store 1 0 []"
proof -
  have run: "fs_largest demo_env demo_fs_config [hd demo_roots] [] None (PInt 1) (PInt 0) deep_world =
      (Inr (Some (3, False, [(3, ''d/b'', 0)])), snd demo_largest)"
    using demo_largest_result by (simp add: demo_largest_def demo_roots_def prod_eq_iff)
  have names: "tidy ''srv''" "tidy ''a''" "tidy ''d''" "tidy ''b''" unfolding tidy_def by code_simp+
  have "tidy_store (w_store deep_world)"
    using names by (auto simp: tidy_store_def deep_world_def deep_store_def split: if_splits)
  moreover have "w_script deep_world = []" "\<not> fe_darwin demo_env" "w_store deep_world = deep_store" "sr_dir (hd demo_roots) = 1"
    by (simp_all add: deep_world_def demo_world_def demo_env_def demo_roots_def)
  ultimately show ?thesis using fs_largest_correct [OF _ _ _ run] by simp
qed

text \<open>
  C40: The search for the largest files ends: it runs for at most as many rounds as it may scan entries, and
  one, whatever the file system looks like and other processes do; it scans at most the configured number.
\<close>

theorem fs_largest_terminates:
  "case fst (fs_largest env cfg roots target rt top_n least s) of
     Inr None \<Rightarrow> False
   | Inr (Some (scanned, truncated, out)) \<Rightarrow> int scanned \<le> fc_largest_max_entries cfg
   | Inl e \<Rightarrow> True"
proof -
  obtain r t where r: "fs_largest env cfg roots target rt top_n least s = (r, t)" by force
  show ?thesis
  proof (cases r)
    case (Inr x)
    obtain k l q u where q: "1 \<le> k" "k \<le> fc_largest_max_entries cfg"
      "largest_loop (Suc (nat (fc_largest_max_entries cfg))) (\<lambda>rel. list_dir env roots rel rt True) (nat (fc_largest_max_entries cfg)) (nat k) (nat l)
      \<lparr>ls_stack = [target], ls_scanned = 0, ls_truncated = False, ls_ranked = []\<rparr> s = (Inr q, u)"
      "x = map_option (\<lambda>ls. (ls_scanned ls, ls_truncated ls, sort_ranked (ls_ranked ls))) q"
      by (rule fs_largest_Inr [OF r [unfolded Inr]])
    let ?init = "\<lparr>ls_stack = [target], ls_scanned = 0, ls_truncated = False, ls_ranked = []\<rparr>"
    have "q \<noteq> None"
      using largest_loop_ends [of ?init "nat (fc_largest_max_entries cfg)" "Suc (nat (fc_largest_max_entries cfg))"
          "\<lambda>rel. list_dir env roots rel rt True" "nat k" "nat l" s] q(3)
      by (auto simp: rounds_left_def)
    then obtain ls where "q = Some ls" by blast
    then show ?thesis
      using largest_loop_scanned [of ?init, OF _ q(3) [unfolded \<open>q = Some ls\<close>]] q r Inr by auto
  qed (simp add: r)
qed

end
