(* ===== verification/Spend.thy ===== *)
theory Spend
  imports Py_Codec
begin

text \<open>
  The token ledger of the external providers (\<open>utils/spend.py\<close>): what is recorded of a call, what it
  cost, and the warning about an outdated price table.

  A ledger row is the dictionary that is written as one line of JSON; the file is the list of its
  rows. Amounts of money are exact rationals. The path of the file and the text of the time stamp are
  arguments.
\<close>

section \<open>The price table\<close>

definition STALE_AFTER_DAYS :: int where "STALE_AFTER_DAYS = 30"
definition TICKS_PER_USD :: rat where "TICKS_PER_USD = 10000000000"

definition RATES :: "(str \<times> (str \<times> rat) list) list" where
  "RATES = [
     (''grok-4.5'', [(''input'', 2), (''output'', 6), (''cached_input'', 3 / 10), (''long_input'', 4),
       (''long_cached_input'', 6 / 10), (''long_output'', 12), (''long_prompt_threshold'', 200000)]),
     (''claude-sonnet-5'', [(''input'', 2), (''output'', 10), (''cache_creation'', 5 / 2), (''cache_creation_1h'', 4),
       (''cache_read'', 2 / 10)]),
     (''grok-4.3'', [(''input'', 5 / 4), (''output'', 5 / 2), (''cached_input'', 2 / 10), (''long_input'', 5 / 2),
       (''long_cached_input'', 4 / 10), (''long_output'', 5), (''long_prompt_threshold'', 200000)]),
     (''grok-4.6'', [(''input'', 2), (''output'', 6), (''cached_input'', 1 / 2), (''long_input'', 4),
       (''long_cached_input'', 1), (''long_output'', 12), (''long_prompt_threshold'', 200000)])]"

definition RATE_VERIFIED :: "(str \<times> str) list" where
  "RATE_VERIFIED = [(''grok-4.5'', ''2026-08-19''), (''claude-sonnet-5'', ''2026-08-19''), (''grok-4.3'', ''2026-08-27''),
     (''grok-4.6'', ''2026-09-02'')]"

definition str_min :: "str \<Rightarrow> str \<Rightarrow> str" where
  "str_min a b = (if str_less b a then b else a)"

definition PRICED_AS_OF :: str where
  "PRICED_AS_OF = foldr str_min (map snd (tl RATE_VERIFIED)) (snd (hd RATE_VERIFIED))"

text \<open>\<open>date.fromisoformat\<close> on \<open>YYYY-MM-DD\<close>, as the proleptic Gregorian ordinal.\<close>

definition leap :: "nat \<Rightarrow> bool" where
  "leap y = (y mod 4 = 0 \<and> (y mod 100 \<noteq> 0 \<or> y mod 400 = 0))"

definition days_in_month :: "nat \<Rightarrow> nat \<Rightarrow> nat" where
  "days_in_month y m = (if m = 2 then (if leap y then 29 else 28) else if m \<in> {4, 6, 9, 11} then 30 else 31)"

definition to_ordinal :: "nat \<Rightarrow> nat \<Rightarrow> nat \<Rightarrow> int" where
  "to_ordinal y m d =
     (let z = y - 1 in int (z * 365 + z div 4 - z div 100 + z div 400 + sum_list (map (days_in_month y) [1..<m]) + d))"

definition digits :: "str \<Rightarrow> nat option" where
  "digits s = (if s \<noteq> [] \<and> list_all is_digit s then parse_digits False 0 s else None)"

definition date_of :: "str \<Rightarrow> int option" where
  "date_of s = (case py_split (CHR ''-'') s of
     [ys, ms, ds] \<Rightarrow>
       if length ys = 4 \<and> length ms = 2 \<and> length ds = 2 then (case (digits ys, digits ms, digits ds) of
         (Some y, Some m, Some d) \<Rightarrow>
           if 1 \<le> y \<and> 1 \<le> m \<and> m \<le> 12 \<and> 1 \<le> d \<and> d \<le> days_in_month y m then Some (to_ordinal y m d) else None
       | _ \<Rightarrow> None) else None
   | _ \<Rightarrow> None)"

text \<open>The argument is the current date.\<close>

definition rates_are_stale :: "int \<Rightarrow> bool" where
  "rates_are_stale today = (case date_of PRICED_AS_OF of None \<Rightarrow> True | Some priced \<Rightarrow> STALE_AFTER_DAYS < today - priced)"

section \<open>Token counts\<close>

definition TOKEN_KEYS :: "str list" where
  "TOKEN_KEYS = [''input_tokens'', ''output_tokens'', ''cached_input_tokens'', ''cache_creation_input_tokens'',
     ''cache_read_input_tokens'', ''cache_creation_5m_tokens'', ''cache_creation_1h_tokens'', ''reasoning_tokens'', ''vendor_cost_ticks'']"

definition TOKEN_COUNT_KEYS :: "str list" where
  "TOKEN_COUNT_KEYS = filter (\<lambda>k. k \<noteq> ''vendor_cost_ticks'') TOKEN_KEYS"

type_synonym tokens = "(str \<times> pyval) list"

definition as_int :: "pyval \<Rightarrow> pyval" where
  "as_int v = (case v of PInt i \<Rightarrow> if 0 \<le> i then v else PNone | _ \<Rightarrow> PNone)"

definition empty_tokens :: tokens where
  "empty_tokens = map (\<lambda>k. (k, PNone)) TOKEN_KEYS"

definition from_map :: "pyval \<Rightarrow> (str \<times> str) list \<Rightarrow> tokens \<Rightarrow> tokens" where
  "from_map v fs tokens = (case v of
     PDict d \<Rightarrow> foldl (\<lambda>t (key, field). AList.update key (as_int (dget d field PNone)) t) tokens fs
   | _ \<Rightarrow> tokens)"

text \<open>The value of a field of a mapping.\<close>

definition field_of :: "pyval \<Rightarrow> str \<Rightarrow> pyval" where
  "field_of v k = (case v of PDict d \<Rightarrow> dget d k PNone | _ \<Rightarrow> PNone)"

definition parse_grok_usage :: "pyval \<Rightarrow> tokens" where
  "parse_grok_usage usage =
     from_map usage [(''vendor_cost_ticks'', ''cost_in_usd_ticks'')]
     (from_map (field_of usage ''completion_tokens_details'') [(''reasoning_tokens'', ''reasoning_tokens'')]
     (from_map (field_of usage ''prompt_tokens_details'') [(''cached_input_tokens'', ''cached_tokens'')]
     (from_map usage [(''input_tokens'', ''prompt_tokens''), (''output_tokens'', ''completion_tokens'')] empty_tokens)))"

definition parse_claude_usage :: "pyval \<Rightarrow> tokens" where
  "parse_claude_usage usage =
     from_map (field_of usage ''cache_creation'')
       [(''cache_creation_5m_tokens'', ''ephemeral_5m_input_tokens''), (''cache_creation_1h_tokens'', ''ephemeral_1h_input_tokens'')]
     (from_map usage [(''input_tokens'', ''input_tokens''), (''output_tokens'', ''output_tokens''),
       (''cache_creation_input_tokens'', ''cache_creation_input_tokens''), (''cache_read_input_tokens'', ''cache_read_input_tokens'')]
       empty_tokens)"

definition tokens_for_provider :: "str \<Rightarrow> pyval \<Rightarrow> tokens" where
  "tokens_for_provider provider usage =
     (if provider = ''claude'' then parse_claude_usage usage else parse_grok_usage usage)"

definition usage_is_missing :: "pyval \<Rightarrow> tokens \<Rightarrow> bool" where
  "usage_is_missing usage tokens = (case usage of
     PDict _ \<Rightarrow> dget tokens ''input_tokens'' PNone = PNone \<or> dget tokens ''output_tokens'' PNone = PNone
   | _ \<Rightarrow> True)"

section \<open>Rows\<close>

definition ALLOWED_SOURCES :: "str set" where
  "ALLOWED_SOURCES = {''query'', ''agentic'', ''eval''}"

definition MAX_ROUTE_HOPS :: nat where "MAX_ROUTE_HOPS = 16"

definition hex_lower :: "char \<Rightarrow> bool" where
  "hex_lower c = (is_digit c \<or> c \<in> set ''abcdef'')"

definition query_hash_re :: "str \<Rightarrow> bool" where
  "query_hash_re s = (length s = 64 \<and> list_all hex_lower s)"

definition az :: "char \<Rightarrow> bool" where
  "az c = (97 \<le> code c \<and> code c \<le> 122)"

definition route_token_re :: "str \<Rightarrow> bool" where
  "route_token_re s = (case s of [] \<Rightarrow> False
     | c # cs \<Rightarrow> az c \<and> length cs \<le> 63 \<and> list_all (\<lambda>c. az c \<or> is_digit c \<or> c = CHR ''_'') cs)"

definition normalize_provider :: "pyval \<Rightarrow> str" where
  "normalize_provider v = (case v of
     PStr s \<Rightarrow> (let n = py_lower (py_strip s) in if n \<noteq> [] then n else ''unknown'') | _ \<Rightarrow> ''unknown'')"

definition normalize_source :: "pyval \<Rightarrow> str" where
  "normalize_source v = (case v of
     PStr s \<Rightarrow> (let n = py_lower (py_strip s) in if n \<in> ALLOWED_SOURCES then n else ''unknown'') | _ \<Rightarrow> ''unknown'')"

definition normalized_query_hash :: "pyval \<Rightarrow> str option" where
  "normalized_query_hash v = (case v of PStr s \<Rightarrow> if query_hash_re s then Some s else None | _ \<Rightarrow> None)"

fun route_hops :: "pyval list \<Rightarrow> str list option" where
  "route_hops [] = Some []"
| "route_hops (v # vs) = (case v of
     PStr s \<Rightarrow> if route_token_re s then map_option (Cons s) (route_hops vs) else None
   | _ \<Rightarrow> None)"

definition normalized_route_path :: "pyval \<Rightarrow> str list option" where
  "normalized_route_path v = (case v of
     PList vs \<Rightarrow> if vs = [] \<or> MAX_ROUTE_HOPS < length vs then None else route_hops vs | _ \<Rightarrow> None)"

definition nonblank_field :: "str \<Rightarrow> pyval \<Rightarrow> (str \<times> pyval) list" where
  "nonblank_field k v = (case v of PStr s \<Rightarrow> if py_strip s \<noteq> [] then [(k, v)] else [] | _ \<Rightarrow> [])"

text \<open>The keyword arguments of \<open>record_external_usage\<close>.\<close>

record usage_call =
  uc_provider :: pyval
  uc_model :: pyval
  uc_usage :: pyval
  uc_source :: pyval
  uc_query_hash :: pyval
  uc_route_path :: pyval
  uc_served_model :: pyval
  uc_outcome :: pyval

definition usage_row :: "str \<Rightarrow> usage_call \<Rightarrow> (str \<times> pyval) list" where
  "usage_row timestamp c =
     (let provider = normalize_provider (uc_provider c); tokens = tokens_for_provider provider (uc_usage c) in
      [(''timestamp'', PStr timestamp), (''provider'', PStr provider), (''model'', uc_model c)] @ tokens @
      [(''usage_missing'', PBool (usage_is_missing (uc_usage c) tokens)), (''source'', PStr (normalize_source (uc_source c)))] @
      (case normalized_query_hash (uc_query_hash c) of None \<Rightarrow> [] | Some h \<Rightarrow> [(''query_hash'', PStr h)]) @
      (case normalized_route_path (uc_route_path c) of None \<Rightarrow> [] | Some hops \<Rightarrow> [(''route_path'', PList (map PStr hops))]) @
      nonblank_field ''served_model'' (uc_served_model c) @ nonblank_field ''outcome'' (uc_outcome c))"

text \<open>The process: the rows of the ledger, whether the warning was emitted, and the log.\<close>

datatype spend_log = StaleRates | WriteFailed

record spend_state =
  sp_rows :: "(str \<times> pyval) list list"
  sp_latched :: bool
  sp_log :: "spend_log list"

definition warn_once_if_stale :: "int \<Rightarrow> spend_state \<Rightarrow> spend_state" where
  "warn_once_if_stale today s =
     (if rates_are_stale today \<and> \<not> sp_latched s then s\<lparr>sp_latched := True, sp_log := sp_log s @ [StaleRates]\<rparr> else s)"

text \<open>The last argument says whether the write fails.\<close>

definition record_external_usage :: "int \<Rightarrow> str \<Rightarrow> usage_call \<Rightarrow> bool \<Rightarrow> spend_state \<Rightarrow> spend_state" where
  "record_external_usage today timestamp c fault s0 =
     (let s = warn_once_if_stale today s0; row = usage_row timestamp c in
      if fault then s\<lparr>sp_log := sp_log s @ [WriteFailed]\<rparr> else s\<lparr>sp_rows := sp_rows s @ [row]\<rparr>)"

section \<open>Cost\<close>

definition token_count :: "tokens \<Rightarrow> str \<Rightarrow> int" where
  "token_count tokens key = (case dget tokens key PNone of PInt i \<Rightarrow> if 0 \<le> i then i else 0 | _ \<Rightarrow> 0)"

definition token_fields_missing :: "tokens \<Rightarrow> bool" where
  "token_fields_missing tokens = list_all (\<lambda>k. dget tokens k PNone = PNone) TOKEN_COUNT_KEYS"

definition is_int :: "pyval \<Rightarrow> bool" where
  "is_int v = (case v of PInt _ \<Rightarrow> True | _ \<Rightarrow> False)"

definition billed_output_tokens :: "tokens \<Rightarrow> int" where
  "billed_output_tokens tokens = token_count tokens ''output_tokens'' + token_count tokens ''reasoning_tokens''"

record estimate =
  es_usd :: "rat option"
  es_rate_unknown :: bool
  es_source :: "str option"

definition per_million :: "int \<Rightarrow> rat \<Rightarrow> rat" where
  "per_million n rate = of_int n * rate / 1000000"

definition rate_of :: "(str \<times> rat) list \<Rightarrow> str \<Rightarrow> rat" where
  "rate_of rates k = dget rates k 0"

definition grok_usd :: "(str \<times> rat) list \<Rightarrow> tokens \<Rightarrow> rat" where
  "grok_usd rates tokens =
     (let prompt = token_count tokens ''input_tokens'';
          long = (case map_of rates ''long_prompt_threshold'' of None \<Rightarrow> False | Some t \<Rightarrow> t \<le> of_int prompt);
          cached = token_count tokens ''cached_input_tokens'' in
      per_million (max (prompt - cached) 0) (rate_of rates (if long then ''long_input'' else ''input'')) +
      per_million cached (rate_of rates (if long then ''long_cached_input'' else ''cached_input'')) +
      per_million (billed_output_tokens tokens) (rate_of rates (if long then ''long_output'' else ''output'')))"

definition cache_write_usd :: "(str \<times> rat) list \<Rightarrow> tokens \<Rightarrow> rat" where
  "cache_write_usd rates tokens =
     (if is_int (dget tokens ''cache_creation_5m_tokens'' PNone) \<or> is_int (dget tokens ''cache_creation_1h_tokens'' PNone) then
        let split_5m = token_count tokens ''cache_creation_5m_tokens'';
            split_1h = token_count tokens ''cache_creation_1h_tokens'';
            residual = max (token_count tokens ''cache_creation_input_tokens'' - split_5m - split_1h) 0 in
        per_million split_5m (rate_of rates ''cache_creation'') + per_million split_1h (rate_of rates ''cache_creation_1h'') +
        per_million residual (rate_of rates ''cache_creation'')
      else per_million (token_count tokens ''cache_creation_input_tokens'') (rate_of rates ''cache_creation''))"

definition claude_usd :: "(str \<times> rat) list \<Rightarrow> tokens \<Rightarrow> rat" where
  "claude_usd rates tokens =
     per_million (token_count tokens ''input_tokens'') (rate_of rates ''input'') + cache_write_usd rates tokens +
     per_million (token_count tokens ''cache_read_input_tokens'') (rate_of rates ''cache_read'') +
     per_million (billed_output_tokens tokens) (rate_of rates ''output'')"

text \<open>The dollars of the vendor, if it sent any.\<close>

definition vendor_usd_of :: "tokens \<Rightarrow> rat option" where
  "vendor_usd_of tokens = (case dget tokens ''vendor_cost_ticks'' PNone of
     PInt i \<Rightarrow> if 0 \<le> i then Some (of_int i / TICKS_PER_USD) else None | _ \<Rightarrow> None)"

definition estimate_usd :: "str \<Rightarrow> tokens \<Rightarrow> estimate" where
  "estimate_usd model tokens = (case vendor_usd_of tokens of
     Some usd \<Rightarrow> \<lparr>es_usd = Some usd, es_rate_unknown = False, es_source = Some ''vendor_ticks''\<rparr>
   | None \<Rightarrow>
       if token_fields_missing tokens then \<lparr>es_usd = None, es_rate_unknown = False, es_source = Some ''incomplete''\<rparr>
       else (case map_of RATES model of
           None \<Rightarrow> \<lparr>es_usd = None, es_rate_unknown = True, es_source = None\<rparr>
         | Some rates \<Rightarrow> \<lparr>es_usd = Some (if map_of rates ''cached_input'' \<noteq> None then grok_usd rates tokens else claude_usd rates tokens),
             es_rate_unknown = False, es_source = Some ''rate_table''\<rparr>))"

record comparison =
  cmp_table_usd :: "rat option"
  cmp_vendor_usd :: "rat option"
  cmp_delta_usd :: "rat option"
  cmp_rate_unknown :: bool

definition compare_vendor_cost :: "str \<Rightarrow> tokens \<Rightarrow> comparison" where
  "compare_vendor_cost model tokens =
     (let est = estimate_usd model (AList.update ''vendor_cost_ticks'' PNone tokens); vendor = vendor_usd_of tokens in
      \<lparr>cmp_table_usd = es_usd est, cmp_vendor_usd = vendor,
       cmp_delta_usd = (case (vendor, es_usd est) of (Some v, Some t) \<Rightarrow> Some (t - v) | _ \<Rightarrow> None),
       cmp_rate_unknown = es_rate_unknown est\<rparr>)"

definition DELTA_REL_FAIL :: rat where "DELTA_REL_FAIL = 5 / 100"
definition DELTA_ABS_FLOOR :: rat where "DELTA_ABS_FLOOR = 1 / 100000000"
definition DELTA_ABS_CAP :: rat where "DELTA_ABS_CAP = 1 / 100"

text \<open>A number that is not a boolean.\<close>

definition number_of :: "pyval \<Rightarrow> rat option" where
  "number_of v = (case v of PBool _ \<Rightarrow> None | _ \<Rightarrow> py_num v)"

definition ticks_mismatch :: "pyval \<Rightarrow> pyval \<Rightarrow> bool" where
  "ticks_mismatch delta_usd vendor_usd = (case (number_of delta_usd, number_of vendor_usd) of
     (Some delta, Some vendor) \<Rightarrow>
       if \<bar>delta\<bar> \<le> DELTA_ABS_FLOOR then False
       else if DELTA_ABS_CAP < \<bar>delta\<bar> then True
       else 0 < vendor \<and> DELTA_REL_FAIL < \<bar>delta\<bar> / vendor
   | _ \<Rightarrow> False)"

section \<open>What a row may hold\<close>

definition count_ok :: "pyval \<Rightarrow> bool" where
  "count_ok v = (v = PNone \<or> (\<exists>i. v = PInt i \<and> 0 \<le> i))"

lemma as_int_ok [simp]: "count_ok (as_int v)"
  by (auto simp: as_int_def count_ok_def split: pyval.split)

definition counts :: "tokens \<Rightarrow> bool" where
  "counts t \<longleftrightarrow> (\<forall>k v. (k, v) \<in> set t \<longrightarrow> count_ok v)"

lemma counts_update: "counts t \<Longrightarrow> count_ok v \<Longrightarrow> counts (AList.update k v t)"
  unfolding counts_def by (induction t) (auto split: if_splits)

lemma from_map_step:
  assumes "map fst t = TOKEN_KEYS" "counts t" "set (map fst fs) \<subseteq> set TOKEN_KEYS"
  shows "map fst (from_map v fs t) = TOKEN_KEYS \<and> counts (from_map v fs t)"
proof (cases v)
  case (PDict d)
  have "map fst (foldl (\<lambda>t (key, field). AList.update key (as_int (dget d field PNone)) t) t fs) = TOKEN_KEYS \<and>
      counts (foldl (\<lambda>t (key, field). AList.update key (as_int (dget d field PNone)) t) t fs)"
    using assms
  proof (induction fs arbitrary: t)
    case (Cons f fs)
    obtain key field where f: "f = (key, field)" by force
    let ?t = "AList.update key (as_int (dget d field PNone)) t"
    have "map fst ?t = TOKEN_KEYS" using Cons.prems f by (auto simp: update_keys)
    moreover have "counts ?t"
      using Cons.prems(2) by (simp add: counts_update)
    ultimately show ?case using Cons.IH [of ?t] Cons.prems(3) f by auto
  qed auto
  then show ?thesis using PDict by (simp add: from_map_def)
qed (use assms in \<open>auto simp: from_map_def\<close>)

lemma tokens_shape:
  "map fst (tokens_for_provider p u) = TOKEN_KEYS" "counts (tokens_for_provider p u)"
proof -
  have e: "map fst empty_tokens = TOKEN_KEYS" "counts empty_tokens"
    by (auto simp: empty_tokens_def counts_def count_ok_def comp_def)
  have "map fst (tokens_for_provider p u) = TOKEN_KEYS \<and> counts (tokens_for_provider p u)"
    unfolding tokens_for_provider_def parse_claude_usage_def parse_grok_usage_def
    by (cases "p = ''claude''") (simp_all add: from_map_step e TOKEN_KEYS_def)
  then show "map fst (tokens_for_provider p u) = TOKEN_KEYS" "counts (tokens_for_provider p u)" by auto
qed

definition FIXED_KEYS :: "str list" where
  "FIXED_KEYS = [''timestamp'', ''provider'', ''model''] @ TOKEN_KEYS @ [''usage_missing'', ''source'']"

definition OPTIONAL_KEYS :: "str list" where
  "OPTIONAL_KEYS = [''query_hash'', ''route_path'', ''served_model'', ''outcome'']"

text \<open>The type of a ledger row: its keys, the fixed ones in their order and then some of the optional ones, and the values. The model is
  what the caller passed.\<close>

definition hop_ok :: "pyval \<Rightarrow> bool" where
  "hop_ok v = (\<exists>s. v = PStr s \<and> route_token_re s)"

fun value_ok :: "str \<times> pyval \<Rightarrow> bool" where
  "value_ok (k, v) \<longleftrightarrow>
     (k \<in> set TOKEN_KEYS \<longrightarrow> count_ok v) \<and>
     (k = ''source'' \<longrightarrow> v \<in> PStr ` {''query'', ''agentic'', ''eval'', ''unknown''}) \<and>
     (k = ''query_hash'' \<longrightarrow> (\<exists>h. v = PStr h \<and> query_hash_re h)) \<and>
     (k = ''route_path'' \<longrightarrow> (\<exists>hs. v = PList hs \<and> length hs \<le> 16 \<and> list_all hop_ok hs)) \<and>
     (k = ''usage_missing'' \<longrightarrow> (\<exists>b. v = PBool b)) \<and>
     (k \<in> {''timestamp'', ''provider'', ''served_model'', ''outcome''} \<longrightarrow> (\<exists>s. v = PStr s))"

definition row_ok :: "pyval \<Rightarrow> (str \<times> pyval) list \<Rightarrow> bool" where
  "row_ok model row \<longleftrightarrow> distinct (map fst row) \<and>
     (\<exists>rest. map fst row = FIXED_KEYS @ rest \<and> rest \<in> set (subseqs OPTIONAL_KEYS)) \<and>
     map_of row ''model'' = Some model \<and> list_all value_ok row"

lemma route_hops_ok: "route_hops vs = Some hs \<Longrightarrow> length hs = length vs \<and> list_all hop_ok (map PStr hs)"
  by (induction vs arbitrary: hs) (auto simp: hop_ok_def split: pyval.splits if_splits)

lemma value_ok_tokens: "list_all value_ok (tokens_for_provider p u)"
proof -
  have "k \<in> set TOKEN_KEYS \<and> count_ok v" if "(k, v) \<in> set (tokens_for_provider p u)" for k v
    using that tokens_shape(2) [of p u] arg_cong [OF tokens_shape(1) [of p u], of set] by (force simp: counts_def)
  moreover have "k \<in> set TOKEN_KEYS \<Longrightarrow> count_ok v \<Longrightarrow> value_ok (k, v)" for k v
    by (auto simp: TOKEN_KEYS_def)
  ultimately show ?thesis by (auto simp: list_all_iff simp del: value_ok.simps)
qed

lemma route_path_ok: "normalized_route_path v = Some hs \<Longrightarrow> length hs \<le> 16 \<and> list_all hop_ok (map PStr hs)"
  by (auto simp: normalized_route_path_def MAX_ROUTE_HOPS_def dest!: route_hops_ok split: pyval.splits if_splits)

lemma normalize_source_ok: "normalize_source v \<in> {''query'', ''agentic'', ''eval'', ''unknown''}"
  by (auto simp: normalize_source_def ALLOWED_SOURCES_def Let_def split: pyval.split)

lemma query_hash_ok: "normalized_query_hash v = Some h \<Longrightarrow> query_hash_re h"
  by (auto simp: normalized_query_hash_def split: pyval.splits if_splits)

lemma value_ok_fields:
  "value_ok (''timestamp'', PStr x)" "value_ok (''provider'', PStr x)" "value_ok (''model'', v)" "value_ok (''usage_missing'', PBool b)"
  "value_ok (''served_model'', PStr x)" "value_ok (''outcome'', PStr x)" "value_ok (''source'', PStr (normalize_source v))"
  "normalized_query_hash v = Some h \<Longrightarrow> value_ok (''query_hash'', PStr h)"
  "normalized_route_path v = Some hs \<Longrightarrow> value_ok (''route_path'', PList (map PStr hs))"
  using normalize_source_ok [of v] query_hash_ok [of v h] route_path_ok [of v hs] by (auto simp: TOKEN_KEYS_def)

lemma value_ok_optional:
  "list_all value_ok (case normalized_query_hash v of None \<Rightarrow> [] | Some h \<Rightarrow> [(''query_hash'', PStr h)])"
  "list_all value_ok (case normalized_route_path v of None \<Rightarrow> [] | Some hops \<Rightarrow> [(''route_path'', PList (map PStr hops))])"
  "list_all value_ok (nonblank_field ''served_model'' v)" "list_all value_ok (nonblank_field ''outcome'' v)"
  using value_ok_fields
  by (auto simp: nonblank_field_def simp del: value_ok.simps split: option.split pyval.split)

text \<open>The keys of a row, in order.\<close>

lemma usage_row_keys: "\<exists>rest. map fst (usage_row ts c) = FIXED_KEYS @ rest \<and> rest \<in> set (subseqs OPTIONAL_KEYS)"
  unfolding usage_row_def Let_def nonblank_field_def FIXED_KEYS_def OPTIONAL_KEYS_def
  by (auto simp: tokens_shape(1) split: option.split pyval.split)

lemma distinct_rows: "rest \<in> set (subseqs OPTIONAL_KEYS) \<Longrightarrow> distinct (FIXED_KEYS @ rest)"
  by (auto simp: TOKEN_KEYS_def FIXED_KEYS_def OPTIONAL_KEYS_def)

lemma usage_row_ok: "row_ok (uc_model c) (usage_row ts c)"
proof -
  have "list_all value_ok (usage_row ts c)"
    unfolding usage_row_def Let_def
    by (simp add: value_ok_tokens value_ok_fields value_ok_optional del: value_ok.simps)
  moreover have "map_of (usage_row ts c) ''model'' = Some (uc_model c)"
    by (simp add: usage_row_def Let_def)
  ultimately show ?thesis using usage_row_keys [of ts c] distinct_rows unfolding row_ok_def by metis
qed

text \<open>
  C25: The type of the ledger. A recorded call, whatever the provider returned and the caller passed, appends exactly one row, or
  none if the write fails, and changes no earlier row. The row has each of the fixed keys exactly once and no keys but these and four optional ones.
  Its counts are absent or non-negative integers, its source is one of four words, its hash, if there is one, has 64 hexadecimal digits, its
  route, if there is one, is short and made of identifiers, and its model is what the caller passed. There is no key for a query, a
  prompt or an answer.
\<close>

theorem spend_rows_typed:
  "\<exists>row. row_ok (uc_model c) row \<and>
     sp_rows (record_external_usage today ts c fault s) = sp_rows s @ (if fault then [] else [row])"
  using usage_row_ok [of c ts] by (auto simp: record_external_usage_def warn_once_if_stale_def Let_def)

definition demo_call :: usage_call where
  "demo_call = \<lparr>uc_provider = PStr '' Grok '', uc_model = PStr ''grok-4.5'',
     uc_usage = PDict [(''prompt_tokens'', PInt 300000), (''completion_tokens'', PInt 10), (''secret'', PStr ''text'')],
     uc_source = PStr ''query'', uc_query_hash = PStr (replicate 64 (CHR ''a'')), uc_route_path = PNone, uc_served_model = PNone, uc_outcome = PNone\<rparr>"

definition demo_spend :: spend_state where
  "demo_spend = \<lparr>sp_rows = [], sp_latched = False, sp_log = []\<rparr>"

theorem spend_rows_typed_witness:
  "\<exists>row. row_ok (PStr ''grok-4.5'') row \<and> sp_rows (record_external_usage 0 ''t'' demo_call False demo_spend) = [row]"
  using spend_rows_typed [of demo_call 0 "''t''" False demo_spend] by (simp add: demo_call_def demo_spend_def)

section \<open>Prices\<close>

lemma token_count_nonneg [simp]: "0 \<le> token_count t k"
  by (auto simp: token_count_def split: pyval.split)

lemma per_million_nonneg: "0 \<le> n \<Longrightarrow> 0 \<le> r \<Longrightarrow> 0 \<le> per_million n r"
  by (simp add: per_million_def)

lemma rates_nonneg: "map_of RATES m = Some rates \<Longrightarrow> 0 \<le> rate_of rates k"
  by (auto simp: RATES_def rate_of_def dget_def split: if_splits option.split)

lemma dget_row:
  assumes "k \<in> set TOKEN_KEYS"
  shows "dget (usage_row ts c) k PNone = dget (tokens_for_provider (normalize_provider (uc_provider c)) (uc_usage c)) k PNone"
proof -
  let ?t = "tokens_for_provider (normalize_provider (uc_provider c)) (uc_usage c)"
  have "k \<in> fst ` set ?t" using assms arg_cong [OF tokens_shape(1), of set] by simp
  then obtain v where "map_of ?t k = Some v" by (metis map_of_eq_None_iff not_Some_eq)
  moreover have "k \<notin> {''timestamp'', ''provider'', ''model''}" using assms by (auto simp: TOKEN_KEYS_def)
  ultimately show ?thesis by (auto simp: dget_def usage_row_def Let_def map_add_def)
qed

text \<open>A price depends on the counts only.\<close>

lemma estimate_cong:
  assumes "\<And>k. k \<in> set TOKEN_KEYS \<Longrightarrow> dget a k PNone = dget b k PNone"
  shows "estimate_usd m a = estimate_usd m b"
proof -
  have k: "dget a k PNone = dget b k PNone" if "k \<in> set TOKEN_KEYS" for k using assms that .
  have t: "token_count a k = token_count b k" if "k \<in> set TOKEN_KEYS" for k using k [OF that] by (simp add: token_count_def)
  have m: "token_fields_missing a = token_fields_missing b"
    unfolding token_fields_missing_def TOKEN_COUNT_KEYS_def using k by (auto simp: list_all_iff)
  have "vendor_usd_of a = vendor_usd_of b" using k by (simp add: vendor_usd_of_def TOKEN_KEYS_def)
  moreover have "billed_output_tokens a = billed_output_tokens b"
    unfolding billed_output_tokens_def using t [of "''output_tokens''"] t [of "''reasoning_tokens''"] by (simp add: TOKEN_KEYS_def)
  moreover have "grok_usd rates a = grok_usd rates b" for rates
    unfolding grok_usd_def calculation(2)
    using t [of "''input_tokens''"] t [of "''cached_input_tokens''"] by (simp add: TOKEN_KEYS_def)
  moreover have "cache_write_usd rates a = cache_write_usd rates b" for rates
    unfolding cache_write_usd_def
    using t [of "''cache_creation_5m_tokens''"] t [of "''cache_creation_1h_tokens''"] t [of "''cache_creation_input_tokens''"]
      k [of "''cache_creation_5m_tokens''"] k [of "''cache_creation_1h_tokens''"] by (simp add: TOKEN_KEYS_def)
  moreover have "claude_usd rates a = claude_usd rates b" for rates
    unfolding claude_usd_def calculation(2,4)
    using t [of "''input_tokens''"] t [of "''cache_read_input_tokens''"] by (simp add: TOKEN_KEYS_def)
  ultimately show ?thesis unfolding estimate_usd_def m by (simp split: option.split)
qed

text \<open>
  Pricing. A ledger row is priced by its counts alone: as the usage that was recorded. A price is never negative; it is the amount
  the vendor reported if there is one, and there is none exactly if the vendor reported none and every count is absent or the model
  is not in the table.
\<close>

theorem spend_estimate_exact:
  "estimate_usd m (usage_row ts c) = estimate_usd m (tokens_for_provider (normalize_provider (uc_provider c)) (uc_usage c)) \<and>
   (case es_usd (estimate_usd m t) of
      Some usd \<Rightarrow> 0 \<le> usd \<and> (case vendor_usd_of t of Some v \<Rightarrow> usd = v | None \<Rightarrow> map_of RATES m \<noteq> None)
    | None \<Rightarrow> vendor_usd_of t = None \<and> (token_fields_missing t \<or> map_of RATES m = None))"
proof
  show "estimate_usd m (usage_row ts c) = estimate_usd m (tokens_for_provider (normalize_provider (uc_provider c)) (uc_usage c))"
    by (rule estimate_cong) (rule dget_row)
  have vendor: "vendor_usd_of t = Some v \<Longrightarrow> 0 \<le> v" for v
    by (auto simp: vendor_usd_of_def TICKS_PER_USD_def split: pyval.splits if_splits)
  have table: "0 \<le> grok_usd rates t" "0 \<le> claude_usd rates t" if "map_of RATES m = Some rates" for rates
    using rates_nonneg [OF that]
    by (auto simp: grok_usd_def claude_usd_def cache_write_usd_def billed_output_tokens_def Let_def intro!: add_nonneg_nonneg per_million_nonneg)
  show "case es_usd (estimate_usd m t) of
      Some usd \<Rightarrow> 0 \<le> usd \<and> (case vendor_usd_of t of Some v \<Rightarrow> usd = v | None \<Rightarrow> map_of RATES m \<noteq> None)
    | None \<Rightarrow> vendor_usd_of t = None \<and> (token_fields_missing t \<or> map_of RATES m = None)"
    using vendor table by (auto simp: estimate_usd_def split: option.split)
qed

section \<open>The warning\<close>

definition run_calls :: "(int \<times> str \<times> usage_call \<times> bool) list \<Rightarrow> spend_state \<Rightarrow> spend_state" where
  "run_calls calls s = foldl (\<lambda>s (today, ts, c, fault). record_external_usage today ts c fault s) s calls"

lemma run_calls_warned:
  "sp_latched s = (StaleRates \<in> set (sp_log s)) \<Longrightarrow> count_list (sp_log s) StaleRates \<le> 1 \<Longrightarrow>
   count_list (sp_log (run_calls calls s)) StaleRates =
     (if StaleRates \<in> set (sp_log s) \<or> (\<exists>c \<in> set calls. rates_are_stale (fst c)) then 1 else 0)"
proof (induction calls arbitrary: s)
  case Nil
  then show ?case using count_list_0_iff [of "sp_log s" StaleRates] by (auto simp: run_calls_def)
next
  case (Cons c calls)
  obtain today ts call fault where c: "c = (today, ts, call, fault)" by (cases c)
  let ?s = "record_external_usage today ts call fault s"
  have "sp_latched ?s = (StaleRates \<in> set (sp_log ?s))" "count_list (sp_log ?s) StaleRates \<le> 1"
    "StaleRates \<in> set (sp_log ?s) \<longleftrightarrow> StaleRates \<in> set (sp_log s) \<or> rates_are_stale today"
    using Cons.prems count_list_0_iff [of "sp_log s" StaleRates]
    by (auto simp: record_external_usage_def warn_once_if_stale_def Let_def)
  then show ?case using Cons.IH [of ?s] c by (auto simp: run_calls_def)
qed

text \<open>
  The outdated price table is reported exactly once per process, at the first call that finds it outdated: the test is made on
  every call, so a long-running process does not miss the day.
\<close>

theorem stale_warning_once:
  "count_list (sp_log (run_calls calls \<lparr>sp_rows = rows, sp_latched = False, sp_log = []\<rparr>)) StaleRates =
     (if \<exists>c \<in> set calls. rates_are_stale (fst c) then 1 else 0)"
  using run_calls_warned [of "\<lparr>sp_rows = rows, sp_latched = False, sp_log = []\<rparr>" calls] by simp

end
