(* ===== verification/Sequence_Detect.thy ===== *)
theory Sequence_Detect
  imports Spend
begin

text \<open>
  Sequence detection over the audit log and the spend ledger (\<open>utils/sequence_detect.py\<close>): injections that are followed
  by online answers or spending, repeated queries, and rows that cannot be joined. The parser and the printer
  of time stamps are arguments; a time stamp is its number of seconds.
\<close>

section \<open>Rows\<close>

definition DEFAULT_WINDOW :: rat where "DEFAULT_WINDOW = 15 * 60"
definition DEFAULT_MIN_REPEAT :: int where "DEFAULT_MIN_REPEAT = 3"

definition INJECTION_EVENTS :: "pyval list" where
  "INJECTION_EVENTS = map PStr [''prompt_injection_blocked'', ''memory_apply_injection_blocked'', ''soul_apply_injection_blocked'']"

definition RAG_EVENTS :: "pyval list" where
  "RAG_EVENTS = map PStr [''rag_query'', ''mcp_rag_query'']"

definition ONLINE_MODELS :: "str list" where
  "ONLINE_MODELS = [''grok'', ''claude'']"

definition SAFE_KEYS :: "str list" where
  "SAFE_KEYS = [''event'', ''timestamp'', ''query_hash'', ''model_used'', ''online_escalated'', ''pre_action_hook_denied'',
     ''provider'', ''model'', ''source'']"

type_synonym row = "(str \<times> pyval) list"

text \<open>
  \<open>datetime.fromisoformat\<close> is the argument \<open>fromiso\<close>: the seconds on the local calendar, counted from the day before
  1 January of year 1, and the offset of the zone if the text has one. Its result is the time in UTC; the conversion raises
  \<open>OverflowError\<close> if that is not a date of the years 1 to 9999.
\<close>

type_synonym isoparser = "str \<Rightarrow> (rat \<times> rat option) option"

definition utc_of :: "rat \<times> rat option \<Rightarrow> rat" where
  "utc_of p = fst p - (case snd p of None \<Rightarrow> 0 | Some offset \<Rightarrow> offset)"

definition representable :: "rat \<Rightarrow> bool" where
  "representable t = (86400 \<le> t \<and> t < 86400 * 3652060)"

fun replace_z :: "str \<Rightarrow> str" where
  "replace_z [] = []"
| "replace_z (c # cs) = (if c = CHR ''Z'' then ''+00:00'' @ replace_z cs else c # replace_z cs)"

definition iso_value :: "isoparser \<Rightarrow> pyval \<Rightarrow> rat option" where
  "iso_value fromiso v = (case v of
     PStr s \<Rightarrow> if py_strip s \<noteq> [] then map_option utc_of (fromiso (replace_z s)) else None
   | _ \<Rightarrow> None)"

definition ts_overflows :: "isoparser \<Rightarrow> pyval \<Rightarrow> bool" where
  "ts_overflows fromiso v = (case iso_value fromiso v of None \<Rightarrow> False | Some t \<Rightarrow> \<not> representable t)"

text \<open>The value when no exception is raised.\<close>

definition parse_ts :: "isoparser \<Rightarrow> pyval \<Rightarrow> rat option" where
  "parse_ts fromiso v = (case iso_value fromiso v of None \<Rightarrow> None | Some t \<Rightarrow> if representable t then Some t else None)"

text \<open>A value that is no member of a \<open>frozenset\<close> because it has no hash: \<open>in\<close> raises \<open>TypeError\<close>.\<close>

definition unhashable :: "pyval \<Rightarrow> bool" where
  "unhashable v = (case v of PList _ \<Rightarrow> True | PDict _ \<Rightarrow> True | _ \<Rightarrow> False)"

definition safe_event :: "str \<Rightarrow> row \<Rightarrow> row" where
  "safe_event kind r = (''kind'', PStr kind) # concat (map (\<lambda>k. case map_of r k of None \<Rightarrow> [] | Some v \<Rightarrow> [(k, v)]) SAFE_KEYS)"

definition is_online_rag :: "row \<Rightarrow> bool" where
  "is_online_rag r =
     (dget r ''event'' PNone \<in> set RAG_EVENTS \<and>
      (dget r ''online_escalated'' PNone = PBool True \<or>
       (case dget r ''model_used'' PNone of
          PStr m \<Rightarrow> (let lowered = py_lower (py_strip m) in
            lowered \<in> set ONLINE_MODELS \<or> py_startswith lowered ''grok'' \<or> py_startswith lowered ''claude'')
        | _ \<Rightarrow> False)))"

definition is_injection :: "row \<Rightarrow> bool" where
  "is_injection r = (dget r ''event'' PNone \<in> set INJECTION_EVENTS)"

definition is_hook_denied :: "row \<Rightarrow> bool" where
  "is_hook_denied r = (dget r ''pre_action_hook_denied'' PNone = PBool True)"

record finding =
  fi_rule :: str
  fi_query_hash :: "str option"
  fi_start :: "rat option"
  fi_end :: "rat option"
  fi_count :: nat
  fi_events :: "row list"

definition mk_finding :: "str \<Rightarrow> str option \<Rightarrow> row list \<Rightarrow> rat option \<Rightarrow> rat option \<Rightarrow> finding" where
  "mk_finding rule h events start stop =
     \<lparr>fi_rule = rule, fi_query_hash = h, fi_start = start, fi_end = stop, fi_count = length events, fi_events = events\<rparr>"

section \<open>Joining\<close>

type_synonym timed = "rat \<times> str option \<times> row"

definition audit_rows :: "isoparser \<Rightarrow> pyval list \<Rightarrow> timed list" where
  "audit_rows fromiso events = concat (map (\<lambda>v. case v of
     PDict raw \<Rightarrow> (case parse_ts fromiso (dget raw ''timestamp'' PNone) of
         None \<Rightarrow> [] | Some ts \<Rightarrow> [(ts, normalized_query_hash (dget raw ''query_hash'' PNone), raw)])
   | _ \<Rightarrow> []) events)"

definition source_is :: "str \<Rightarrow> row \<Rightarrow> bool" where
  "source_is name raw = (case dget raw ''source'' PNone of PStr s \<Rightarrow> py_lower (py_strip s) = name | _ \<Rightarrow> False)"

definition query_rows :: "pyval list \<Rightarrow> row list" where
  "query_rows events = concat (map (\<lambda>v. case v of PDict raw \<Rightarrow> if source_is ''query'' raw then [raw] else [] | _ \<Rightarrow> []) events)"

definition agentic_skipped :: "pyval list \<Rightarrow> nat" where
  "agentic_skipped events = length (filter (\<lambda>v. case v of PDict raw \<Rightarrow> source_is ''agentic'' raw | _ \<Rightarrow> False) events)"

definition unjoinable :: "pyval list \<Rightarrow> nat" where
  "unjoinable events = length (filter (\<lambda>raw. normalized_query_hash (dget raw ''query_hash'' PNone) = None) (query_rows events))"

definition spend_rows :: "isoparser \<Rightarrow> pyval list \<Rightarrow> timed list" where
  "spend_rows fromiso events = concat (map (\<lambda>raw.
     case (normalized_query_hash (dget raw ''query_hash'' PNone), parse_ts fromiso (dget raw ''timestamp'' PNone)) of
       (Some h, Some ts) \<Rightarrow> [(ts, Some h, raw)] | _ \<Rightarrow> []) (query_rows events))"

text \<open>The rows of one hash in chronological order.\<close>

definition rows_of :: "str \<Rightarrow> timed list \<Rightarrow> (rat \<times> row) list" where
  "rows_of h rows = sort_key fst (map (\<lambda>(ts, _, r). (ts, r)) (filter (\<lambda>(_, h', _). h' = Some h) rows))"

fun str_insert :: "str \<Rightarrow> str list \<Rightarrow> str list" where
  "str_insert x [] = [x]"
| "str_insert x (y # ys) = (if x = y then y # ys else if str_less x y then x # y # ys else y # str_insert x ys)"

definition all_hashes :: "timed list \<Rightarrow> str list" where
  "all_hashes rows = foldr str_insert (concat (map (\<lambda>(_, h, _). case h of None \<Rightarrow> [] | Some h \<Rightarrow> [h]) rows)) []"

section \<open>Rules for one hash\<close>

text \<open>The first of \<open>firsts\<close> and the first of \<open>seconds\<close> that is later.\<close>

definition chain :: "str \<Rightarrow> str \<Rightarrow> (rat \<times> row) list \<Rightarrow> (rat \<times> row) list \<Rightarrow> str \<Rightarrow> finding list" where
  "chain rule h firsts seconds kind = (case firsts of
     [] \<Rightarrow> []
   | (t0, r0) # _ \<Rightarrow> (case filter (\<lambda>(ts, _). t0 < ts) seconds of
       [] \<Rightarrow> []
     | (t1, r1) # _ \<Rightarrow> [mk_finding rule (Some h) [safe_event ''audit'' r0, safe_event kind r1] (Some t0) (Some t1)]))"

definition repeat_finding :: "int \<Rightarrow> str \<Rightarrow> (rat \<times> row) list \<Rightarrow> finding list" where
  "repeat_finding min_repeat h rows =
     (if min_repeat \<le> int (length rows)
      then [mk_finding ''repeat_hash'' (Some h) (map (\<lambda>(_, r). safe_event ''audit'' r) rows)
        (Some (fst (hd rows))) (Some (fst (last rows)))] else [])"

definition hash_findings :: "int \<Rightarrow> timed list \<Rightarrow> timed list \<Rightarrow> str \<Rightarrow> finding list" where
  "hash_findings min_repeat audit spend h =
     (let a_rows = rows_of h audit; s_rows = rows_of h spend;
          injections = filter (\<lambda>(_, r). is_injection r) a_rows;
          online = filter (\<lambda>(_, r). is_online_rag r) a_rows;
          denied = filter (\<lambda>(_, r). is_hook_denied r) a_rows in
      repeat_finding min_repeat h a_rows @
      chain ''injection_then_online_rag'' h injections online ''audit'' @
      chain ''injection_then_external_spend'' h injections s_rows ''spend'' @
      chain ''hook_denied_then_spend'' h denied s_rows ''spend'')"

section \<open>The window rule\<close>

text \<open>\<open>bisect.bisect_right\<close>.\<close>

function bisect_right :: "rat list \<Rightarrow> rat \<Rightarrow> nat \<Rightarrow> nat \<Rightarrow> nat" where
  "bisect_right a x lo hi =
     (if lo < hi then let mid = (lo + hi) div 2 in
        if x < a ! mid then bisect_right a x lo mid else bisect_right a x (Suc mid) hi
      else lo)"
  by pat_completeness auto
termination
  by (relation "measure (\<lambda>(a, x, lo, hi). hi - lo)") auto

declare bisect_right.simps [simp del]

record escalation =
  ec_ts :: rat
  ec_hash :: str
  ec_row :: row
  ec_kind :: str

definition escalations_of :: "timed list \<Rightarrow> timed list \<Rightarrow> escalation list" where
  "escalations_of audit spend = sort_key ec_ts
     (concat (map (\<lambda>(ts, h, r). case h of Some h \<Rightarrow> if is_online_rag r then [\<lparr>ec_ts = ts, ec_hash = h, ec_row = r, ec_kind = ''audit''\<rparr>] else [] | None \<Rightarrow> []) audit) @
      concat (map (\<lambda>(ts, h, r). case h of Some h \<Rightarrow> [\<lparr>ec_ts = ts, ec_hash = h, ec_row = r, ec_kind = ''spend''\<rparr>] | None \<Rightarrow> []) spend))"

text \<open>The loop over the escalations from an index on.\<close>

fun first_match :: "rat \<Rightarrow> rat \<Rightarrow> str \<Rightarrow> escalation list \<Rightarrow> escalation option" where
  "first_match window t h [] = None"
| "first_match window t h (e # es) =
     (if ec_hash e = h then first_match window t h es
      else if window < ec_ts e - t then None
      else Some e)"

definition window_match :: "rat \<Rightarrow> rat \<Rightarrow> str \<Rightarrow> escalation list \<Rightarrow> escalation option" where
  "window_match window t h es = first_match window t h (drop (bisect_right (map ec_ts es) t 0 (length es)) es)"

text \<open>The findings of one row.\<close>

definition row_findings :: "rat \<Rightarrow> escalation list \<Rightarrow> timed \<Rightarrow> finding list" where
  "row_findings window es = (\<lambda>(ts, h, r). case h of
       None \<Rightarrow> []
     | Some h \<Rightarrow> if is_injection r then (case window_match window ts h es of
           None \<Rightarrow> []
         | Some e \<Rightarrow> [mk_finding ''window_injection_to_escalation'' None
             [safe_event ''audit'' r, safe_event (ec_kind e) (ec_row e)] (Some ts) (Some (ec_ts e))]) else [])"

definition window_findings :: "rat \<Rightarrow> timed list \<Rightarrow> escalation list \<Rightarrow> finding list" where
  "window_findings window audit es = concat (map (row_findings window es) audit)"

section \<open>The report\<close>

text \<open>The order of the findings: by the printed start, the rule and the hash.\<close>

definition lex3 :: "str \<times> str \<times> str \<Rightarrow> str \<times> str \<times> str \<Rightarrow> bool" where
  "lex3 x y = (case (x, y) of ((a, b, c), (a', b', c')) \<Rightarrow>
     str_less a a' \<or> a = a' \<and> (str_less b b' \<or> b = b' \<and> str_less c c'))"

definition finding_key :: "(rat \<Rightarrow> str) \<Rightarrow> finding \<Rightarrow> str \<times> str \<times> str" where
  "finding_key isoformat f = (case fi_start f of None \<Rightarrow> [] | Some t \<Rightarrow> isoformat t, fi_rule f, oget (fi_query_hash f) [])"

fun insert_finding :: "(rat \<Rightarrow> str) \<Rightarrow> finding \<Rightarrow> finding list \<Rightarrow> finding list" where
  "insert_finding isoformat f [] = [f]"
| "insert_finding isoformat f (g # gs) =
     (if lex3 (finding_key isoformat g) (finding_key isoformat f) then g # insert_finding isoformat f gs else f # g # gs)"

definition unjoinable_finding :: "nat \<Rightarrow> finding list" where
  "unjoinable_finding n = (if n = 0 then [] else [(mk_finding ''unjoinable_query_spend'' None [] None None)\<lparr>fi_count := n\<rparr>])"

record detection =
  dt_findings :: "finding list"
  dt_agentic_spend_skipped :: nat
  dt_unjoinable_query_spend :: nat

text \<open>The three exceptions that the detection lets through.\<close>

definition time_overflows :: "isoparser \<Rightarrow> pyval list \<Rightarrow> pyval list \<Rightarrow> bool" where
  "time_overflows fromiso audit_events spend_events =
     (list_ex (\<lambda>v. case v of PDict raw \<Rightarrow> ts_overflows fromiso (dget raw ''timestamp'' PNone) | _ \<Rightarrow> False) audit_events \<or>
      list_ex (\<lambda>raw. ts_overflows fromiso (dget raw ''timestamp'' PNone)) (query_rows spend_events))"

definition event_unhashable :: "timed list \<Rightarrow> bool" where
  "event_unhashable audit = list_ex (\<lambda>(_, h, r). h \<noteq> None \<and> unhashable (dget r ''event'' PNone)) audit"

definition index_fails :: "int \<Rightarrow> timed list \<Rightarrow> str list \<Rightarrow> bool" where
  "index_fails min_repeat audit hashes = (min_repeat \<le> 0 \<and> list_ex (\<lambda>h. rows_of h audit = []) hashes)"

text \<open>\<open>None\<close> is an exception.\<close>

definition detect_sequences :: "isoparser \<Rightarrow> (rat \<Rightarrow> str) \<Rightarrow> pyval list \<Rightarrow> pyval list \<Rightarrow> rat \<Rightarrow> int \<Rightarrow> detection option" where
  "detect_sequences fromiso isoformat audit_events spend_events window min_repeat =
     (let audit = audit_rows fromiso audit_events; spend = spend_rows fromiso spend_events;
          hashes = all_hashes (audit @ spend);
          found = concat (map (hash_findings min_repeat audit spend) hashes) @
            window_findings window audit (escalations_of audit spend) @
            unjoinable_finding (unjoinable spend_events) in
      if time_overflows fromiso audit_events spend_events \<or> event_unhashable audit \<or> index_fails min_repeat audit hashes then None
      else Some \<lparr>dt_findings = foldr (insert_finding isoformat) found [],
        dt_agentic_spend_skipped = agentic_skipped spend_events,
        dt_unjoinable_query_spend = unjoinable spend_events\<rparr>)"

section \<open>The window rule against a reference\<close>

lemma bisect_right_correct:
  assumes "sorted a" "lo \<le> hi" "hi \<le> length a" "\<And>i. i < lo \<Longrightarrow> a ! i \<le> x" "\<And>i. hi \<le> i \<Longrightarrow> i < length a \<Longrightarrow> x < a ! i"
  shows "bisect_right a x lo hi \<le> length a \<and> (\<forall>i < bisect_right a x lo hi. a ! i \<le> x) \<and>
    (\<forall>i. bisect_right a x lo hi \<le> i \<longrightarrow> i < length a \<longrightarrow> x < a ! i)"
  using assms
proof (induction a x lo hi rule: bisect_right.induct)
  case (1 a x lo hi)
  show ?case
  proof (cases "lo < hi")
    case True
    define mid where "mid = (lo + hi) div 2"
    have m: "lo \<le> mid" "mid < hi" using True by (auto simp: mid_def)
    show ?thesis
    proof (cases "x < a ! mid")
      case less: True
      have above: "x < a ! i" if "mid \<le> i" "i < length a" for i
        using less sorted_nth_mono [OF 1(3) that] by simp
      have mid: "mid \<le> length a" using m(2) 1(5) by simp
      have "bisect_right a x lo mid \<le> length a \<and> (\<forall>i < bisect_right a x lo mid. a ! i \<le> x) \<and>
          (\<forall>i. bisect_right a x lo mid \<le> i \<longrightarrow> i < length a \<longrightarrow> x < a ! i)"
        by (rule 1(1) [OF True mid_def less 1(3) m(1) mid 1(6)]) (simp_all add: above)
      then show ?thesis using True less by (simp add: bisect_right.simps [of a x lo hi] Let_def mid_def)
    next
      case False
      have below: "a ! i \<le> x" if "i < Suc mid" for i
        using False that m 1(5) sorted_nth_mono [OF 1(3), of i mid] by auto
      have mid: "Suc mid \<le> hi" using m(2) by simp
      have "bisect_right a x (Suc mid) hi \<le> length a \<and> (\<forall>i < bisect_right a x (Suc mid) hi. a ! i \<le> x) \<and>
          (\<forall>i. bisect_right a x (Suc mid) hi \<le> i \<longrightarrow> i < length a \<longrightarrow> x < a ! i)"
        by (rule 1(2) [OF True mid_def False 1(3) mid 1(5)]) (simp_all add: below 1(7))
      then show ?thesis using True False by (simp add: bisect_right.simps [of a x lo hi] Let_def mid_def)
    qed
  next
    case False
    then show ?thesis using 1(3-7) by (simp add: bisect_right.simps)
  qed
qed

lemma first_match_reference:
  "sorted (map ec_ts es) \<Longrightarrow> first_match window t h es = find (\<lambda>e. ec_hash e \<noteq> h \<and> ec_ts e - t \<le> window) es"
proof (induction es)
  case (Cons e es)
  have "find (\<lambda>e. ec_hash e \<noteq> h \<and> ec_ts e - t \<le> window) es = None" if "window < ec_ts e - t"
    using Cons.prems that by (force simp: find_None_iff)
  then show ?case using Cons by auto
qed simp

lemma find_drop: "(\<And>x. x \<in> set (take n xs) \<Longrightarrow> \<not> P x) \<Longrightarrow> find P (drop n xs) = find P xs"
  by (induction xs arbitrary: n) (auto simp: drop_Cons' take_Cons' split: if_splits)

lemma find_cong_set: "(\<And>x. x \<in> set xs \<Longrightarrow> P x = Q x) \<Longrightarrow> find P xs = find Q xs"
  by (induction xs) auto

lemma window_match_reference:
  assumes "sorted (map ec_ts es)"
  shows "window_match window t h es = find (\<lambda>e. ec_hash e \<noteq> h \<and> t < ec_ts e \<and> ec_ts e - t \<le> window) es"
proof -
  define n where "n = bisect_right (map ec_ts es) t 0 (length es)"
  have n: "n \<le> length es" "\<And>i. i < n \<Longrightarrow> ec_ts (es ! i) \<le> t" "\<And>i. n \<le> i \<Longrightarrow> i < length es \<Longrightarrow> t < ec_ts (es ! i)"
    using bisect_right_correct [OF assms, of 0 "length es" t] unfolding n_def by auto
  have before: "ec_ts e \<le> t" if "e \<in> set (take n es)" for e
    using that n(1,2) by (auto simp: in_set_conv_nth)
  have after: "t < ec_ts e" if "e \<in> set (drop n es)" for e
    using that n(1,3) by (auto simp: in_set_conv_nth)
  have "window_match window t h es = find (\<lambda>e. ec_hash e \<noteq> h \<and> ec_ts e - t \<le> window) (drop n es)"
    unfolding window_match_def n_def [symmetric] by (rule first_match_reference) (metis assms drop_map sorted_wrt_drop)
  also have "\<dots> = find (\<lambda>e. ec_hash e \<noteq> h \<and> t < ec_ts e \<and> ec_ts e - t \<le> window) (drop n es)"
    by (rule find_cong_set) (auto dest: after)
  also have "\<dots> = find (\<lambda>e. ec_hash e \<noteq> h \<and> t < ec_ts e \<and> ec_ts e - t \<le> window) es"
    by (rule find_drop) (auto dest: before)
  finally show ?thesis .
qed

lemma set_insert_finding [simp]: "set (insert_finding isoformat f fs) = insert f (set fs)"
  by (induction fs) auto

lemma set_sort_findings [simp]: "set (foldr (insert_finding isoformat) fs gs) = set fs \<union> set gs"
  by (induction fs) auto

definition WINDOW_RULE :: str where "WINDOW_RULE = ''window_injection_to_escalation''"

lemma other_rules: "f \<in> set (hash_findings n a s h) \<Longrightarrow> fi_rule f \<noteq> WINDOW_RULE"
  by (auto simp: hash_findings_def Let_def repeat_finding_def chain_def mk_finding_def WINDOW_RULE_def split: list.splits if_splits)

lemma other_rules_unjoinable: "f \<in> set (unjoinable_finding n) \<Longrightarrow> fi_rule f \<noteq> WINDOW_RULE"
  by (auto simp: unjoinable_finding_def mk_finding_def WINDOW_RULE_def split: if_splits)

lemma row_findings_mem:
  "f \<in> set (row_findings window es (ts, ho, r)) \<longleftrightarrow>
   (\<exists>h e. ho = Some h \<and> is_injection r \<and> window_match window ts h es = Some e \<and>
      f = mk_finding WINDOW_RULE None [safe_event ''audit'' r, safe_event (ec_kind e) (ec_row e)] (Some ts) (Some (ec_ts e)))"
proof (cases ho)
  case (Some h)
  then show ?thesis
    by (cases "is_injection r"; cases "window_match window ts h es") (simp_all add: row_findings_def WINDOW_RULE_def)
qed (simp add: row_findings_def)

lemma window_findings_mem:
  "f \<in> set (window_findings window a es) \<longleftrightarrow>
   (\<exists>ts h r e. (ts, Some h, r) \<in> set a \<and> is_injection r \<and> window_match window ts h es = Some e \<and>
      f = mk_finding WINDOW_RULE None [safe_event ''audit'' r, safe_event (ec_kind e) (ec_row e)] (Some ts) (Some (ec_ts e)))"
proof -
  have "f \<in> set (window_findings window a es) \<longleftrightarrow> (\<exists>ts ho r. (ts, ho, r) \<in> set a \<and> f \<in> set (row_findings window es (ts, ho, r)))"
    by (simp add: window_findings_def Bex_def)
  then show ?thesis unfolding row_findings_mem by blast
qed

lemma window_findings_rule: "f \<in> set (window_findings window a es) \<Longrightarrow> fi_rule f = WINDOW_RULE"
  by (auto simp: window_findings_mem mk_finding_def)

lemma detected:
  assumes "detect_sequences fromiso isoformat audit_events spend_events window min_repeat = Some d"
  defines "a \<equiv> audit_rows fromiso audit_events" and "s \<equiv> spend_rows fromiso spend_events"
  shows "set (dt_findings d) = (\<Union>h \<in> set (all_hashes (a @ s)). set (hash_findings min_repeat a s h)) \<union>
    set (window_findings window a (escalations_of a s)) \<union> set (unjoinable_finding (unjoinable spend_events))"
  using assms(1) by (auto simp: detect_sequences_def a_def s_def Let_def split: if_splits)

text \<open>
  C26: The rule that crosses hashes is exact. It reports an injection together with the earliest escalation of another hash that is later
  by at most the window, for each injection that has one and for no other: the binary search and the early exits of the loop change
  nothing against a search of all escalations.
\<close>

theorem window_rule_exact:
  assumes "detect_sequences fromiso isoformat audit_events spend_events window min_repeat = Some d"
  shows "f \<in> set (dt_findings d) \<and> fi_rule f = WINDOW_RULE \<longleftrightarrow>
   (\<exists>ts h r e. (ts, Some h, r) \<in> set (audit_rows fromiso audit_events) \<and> is_injection r \<and>
      find (\<lambda>e. ec_hash e \<noteq> h \<and> ts < ec_ts e \<and> ec_ts e - ts \<le> window)
        (escalations_of (audit_rows fromiso audit_events) (spend_rows fromiso spend_events)) = Some e \<and>
      f = mk_finding WINDOW_RULE None [safe_event ''audit'' r, safe_event (ec_kind e) (ec_row e)] (Some ts) (Some (ec_ts e)))"
proof -
  let ?a = "audit_rows fromiso audit_events" and ?s = "spend_rows fromiso spend_events"
  have sorted: "sorted (map ec_ts (escalations_of ?a ?s))" unfolding escalations_of_def by (rule sorted_sort_key)
  have "f \<in> set (dt_findings d) \<and> fi_rule f = WINDOW_RULE \<longleftrightarrow> f \<in> set (window_findings window ?a (escalations_of ?a ?s))"
    unfolding detected [OF assms] by (auto dest: other_rules other_rules_unjoinable window_findings_rule)
  then show ?thesis unfolding window_findings_mem window_match_reference [OF sorted] .
qed

definition demo_iso :: isoparser where
  "demo_iso s = (if s = ''a'' then Some (100000, None) else if s = ''b'' then Some (107300, Some 7200) else None)"

definition demo_audit :: "pyval list" where
  "demo_audit = [PDict [(''timestamp'', PStr ''a''), (''query_hash'', PStr (replicate 64 (CHR ''a''))), (''event'', PStr ''prompt_injection_blocked'')]]"

definition demo_ledger :: "pyval list" where
  "demo_ledger = map PDict (sp_rows (record_external_usage 0 ''b'' demo_call False demo_spend))"

definition demo_other_ledger :: "pyval list" where
  "demo_other_ledger = [PDict [(''timestamp'', PStr ''b''), (''source'', PStr ''query''), (''query_hash'', PStr (replicate 64 (CHR ''b'')))]]"

theorem window_rule_exact_witness:
  "dt_findings (the (detect_sequences demo_iso (\<lambda>_. []) demo_audit demo_other_ledger DEFAULT_WINDOW DEFAULT_MIN_REPEAT)) \<noteq> []"
proof -
  have "detect_sequences demo_iso (\<lambda>_. []) demo_audit demo_other_ledger DEFAULT_WINDOW DEFAULT_MIN_REPEAT \<noteq> None" by code_simp
  then obtain d where d: "detect_sequences demo_iso (\<lambda>_. []) demo_audit demo_other_ledger DEFAULT_WINDOW DEFAULT_MIN_REPEAT = Some d"
    by blast
  have "find (\<lambda>e. ec_hash e \<noteq> replicate 64 (CHR ''a'') \<and> 100000 < ec_ts e \<and> ec_ts e - 100000 \<le> DEFAULT_WINDOW)
      (escalations_of (audit_rows demo_iso demo_audit) (spend_rows demo_iso demo_other_ledger)) \<noteq> None" by code_simp
  moreover have "(100000, Some (replicate 64 (CHR ''a'')), [(''timestamp'', PStr ''a''), (''query_hash'', PStr (replicate 64 (CHR ''a''))), (''event'', PStr ''prompt_injection_blocked'')])
      \<in> set (audit_rows demo_iso demo_audit)" by code_simp
  moreover have "is_injection [(''timestamp'', PStr ''a''), (''query_hash'', PStr (replicate 64 (CHR ''a''))), (''event'', PStr ''prompt_injection_blocked'')]" by code_simp
  ultimately have "\<exists>f. f \<in> set (dt_findings d)" using window_rule_exact [OF d] by blast
  then show ?thesis unfolding d by force
qed

section \<open>The ledger and the detection together\<close>

lemma recorded: "sp_rows (record_external_usage today ts c False s) = sp_rows s @ [usage_row ts c]"
  by (simp add: record_external_usage_def warn_once_if_stale_def Let_def)

lemma spend_rows_append: "spend_rows fromiso (xs @ ys) = spend_rows fromiso xs @ spend_rows fromiso ys"
  by (simp add: spend_rows_def query_rows_def)

lemma row_values:
  "dget (usage_row ts c) ''timestamp'' PNone = PStr ts"
  "dget (usage_row ts c) ''source'' PNone = PStr (normalize_source (uc_source c))"
  "normalized_query_hash (dget (usage_row ts c) ''query_hash'' PNone) = normalized_query_hash (uc_query_hash c)"
proof -
  let ?t = "tokens_for_provider (normalize_provider (uc_provider c)) (uc_usage c)"
  have "map_of ?t k = None" if "k \<notin> set TOKEN_KEYS" for k
    using that arg_cong [OF tokens_shape(1), of set] by (simp add: map_of_eq_None_iff)
  then have n: "map_of ?t ''source'' = None" "map_of ?t ''query_hash'' = None" by (simp_all add: TOKEN_KEYS_def)
  show "dget (usage_row ts c) ''timestamp'' PNone = PStr ts" by (simp add: dget_def usage_row_def Let_def)
  show "dget (usage_row ts c) ''source'' PNone = PStr (normalize_source (uc_source c))"
    using n(1) by (simp add: dget_def usage_row_def Let_def map_add_def)
  show "normalized_query_hash (dget (usage_row ts c) ''query_hash'' PNone) = normalized_query_hash (uc_query_hash c)"
  proof (cases "normalized_query_hash (uc_query_hash c)")
    case None
    have "map_of (nonblank_field ''served_model'' v @ nonblank_field ''outcome'' w) ''query_hash'' = None" for v w
      by (auto simp: nonblank_field_def split: pyval.split)
    with None n(2) show ?thesis
      by (simp add: dget_def usage_row_def Let_def map_add_def normalized_query_hash_def [of PNone] split: option.split)
  next
    case (Some h)
    then have "dget (usage_row ts c) ''query_hash'' PNone = PStr h"
      using n(2) by (simp add: dget_def usage_row_def Let_def map_add_def)
    then show ?thesis using Some query_hash_ok [OF Some] by (simp add: normalized_query_hash_def [of "PStr h"])
  qed
qed

lemma spend_rows_mono: "x \<in> set xs \<Longrightarrow> set (spend_rows fromiso [x]) \<subseteq> set (spend_rows fromiso xs)"
  by (auto simp: spend_rows_def query_rows_def)

lemma recorded_row_joined:
  assumes "normalize_source (uc_source c) = ''query''" "normalized_query_hash (uc_query_hash c) = Some h" "parse_ts fromiso (PStr ts) = Some t"
    and "set (map PDict (sp_rows (record_external_usage today ts c False s))) \<subseteq> set spend_events"
  shows "(t, Some h, usage_row ts c) \<in> set (spend_rows fromiso spend_events)"
proof -
  have "source_is ''query'' (usage_row ts c)" by (simp add: source_is_def row_values assms) code_simp
  then have "(t, Some h, usage_row ts c) \<in> set (spend_rows fromiso [PDict (usage_row ts c)])"
    by (simp add: spend_rows_def query_rows_def row_values assms)
  moreover have "PDict (usage_row ts c) \<in> set spend_events" using assms(4) by (auto simp: recorded)
  ultimately show ?thesis using spend_rows_mono by blast
qed

lemma set_str_insert [simp]: "set (str_insert x ys) = insert x (set ys)"
  by (induction ys) auto

lemma set_all_hashes: "(t, Some h, r) \<in> set rows \<Longrightarrow> h \<in> set (all_hashes rows)"
proof -
  have "set (foldr str_insert hs []) = set hs" for hs by (induction hs) auto
  moreover assume "(t, Some h, r) \<in> set rows"
  ultimately show ?thesis unfolding all_hashes_def by force
qed

lemma rows_of_mem: "(t, Some h, r) \<in> set rows \<Longrightarrow> (t, r) \<in> set (rows_of h rows)"
  unfolding rows_of_def by force

lemma chain_found:
  assumes "(t0, r0) \<in> set firsts" "sorted (map fst firsts)" "(t1, r1) \<in> set seconds" "t0 < t1"
  shows "\<exists>f \<in> set (chain rule h firsts seconds kind). fi_rule f = rule \<and> fi_query_hash f = Some h"
proof -
  obtain x xs where firsts: "firsts = x # xs" using assms(1) by (cases firsts) auto
  have "fst x \<le> t0" using assms(1,2) unfolding firsts by auto
  then have "(t1, r1) \<in> set (filter (\<lambda>(ts, _). fst x < ts) seconds)" using assms(3,4) by auto
  then obtain y ys where "filter (\<lambda>(ts, _). fst x < ts) seconds = y # ys" by (cases "filter (\<lambda>(ts, _). fst x < ts) seconds") auto
  then show ?thesis unfolding chain_def firsts by (cases x; cases y) (simp add: mk_finding_def)
qed

lemma sorted_rows_of: "sorted (map fst (filter P (rows_of h rows)))"
  unfolding rows_of_def by (rule sorted_filter) (rule sorted_sort_key)

text \<open>
  C27: From the call to the report. A call of an external provider is recorded with the source \<open>query\<close>, a valid hash and a readable time, and the audit
  log has an injection with the same hash and an earlier time. Then the detection over any ledger that holds the rows of that moment, whatever was
  recorded or written to it since, reports that the injection was followed by spending, unless it raises and reports nothing. It
  raises only if some row has a time outside of the calendar, an audit row with a hash has an event that cannot be hashed, or the configured
  number of repetitions is not positive.
\<close>

theorem spend_after_injection_reported:
  assumes "set (map PDict (sp_rows (record_external_usage today ts c False s))) \<subseteq> set spend_events"
    and "normalize_source (uc_source c) = ''query''" "normalized_query_hash (uc_query_hash c) = Some h" "parse_ts fromiso (PStr ts) = Some t"
    and "(t0, Some h, r) \<in> set (audit_rows fromiso audit_events)" "is_injection r" "t0 < t"
  shows "case detect_sequences fromiso isoformat audit_events spend_events window min_repeat of
      Some d \<Rightarrow> \<exists>f \<in> set (dt_findings d). fi_rule f = ''injection_then_external_spend'' \<and> fi_query_hash f = Some h
    | None \<Rightarrow> time_overflows fromiso audit_events spend_events \<or> event_unhashable (audit_rows fromiso audit_events) \<or> min_repeat \<le> 0"
proof (cases "detect_sequences fromiso isoformat audit_events spend_events window min_repeat")
  case None
  then show ?thesis by (auto simp: detect_sequences_def index_fails_def Let_def split: if_splits)
next
  case (Some d)
  let ?a = "audit_rows fromiso audit_events" and ?s = "spend_rows fromiso spend_events"
  have "(t0, r) \<in> set (filter (\<lambda>(_, r). is_injection r) (rows_of h ?a))" using rows_of_mem [OF assms(5)] assms(6) by simp
  from chain_found [OF this sorted_rows_of rows_of_mem [OF recorded_row_joined [OF assms(2-4,1)]] assms(7)]
  obtain f where f: "f \<in> set (hash_findings min_repeat ?a ?s h)" "fi_rule f = ''injection_then_external_spend''" "fi_query_hash f = Some h"
    unfolding hash_findings_def Let_def set_append by blast
  have "h \<in> set (all_hashes (?a @ ?s))" using assms(5) by (intro set_all_hashes [of t0 h r]) simp
  with f have "\<exists>f \<in> set (dt_findings d). fi_rule f = ''injection_then_external_spend'' \<and> fi_query_hash f = Some h"
    unfolding detected [OF Some] by blast
  then show ?thesis using Some by simp
qed

text \<open>The row of the call is followed by another one and by a line that is not a mapping.\<close>

definition demo_grown :: "pyval list" where
  "demo_grown = demo_ledger @ [PStr ''torn'', PDict (usage_row ''c'' demo_call)]"

theorem spend_after_injection_reported_witness:
  "\<exists>f \<in> set (dt_findings (the (detect_sequences demo_iso (\<lambda>_. []) demo_audit demo_grown DEFAULT_WINDOW DEFAULT_MIN_REPEAT))).
     fi_rule f = ''injection_then_external_spend'' \<and> fi_query_hash f = Some (replicate 64 (CHR ''a''))"
proof -
  have "demo_grown = [PDict (usage_row ''b'' demo_call), PStr ''torn'', PDict (usage_row ''c'' demo_call)]"
    by (simp add: demo_grown_def demo_ledger_def recorded demo_spend_def)
  moreover have "detect_sequences demo_iso (\<lambda>_. []) demo_audit [PDict (usage_row ''b'' demo_call), PStr ''torn'', PDict (usage_row ''c'' demo_call)]
      DEFAULT_WINDOW DEFAULT_MIN_REPEAT \<noteq> None"
    by code_simp
  ultimately obtain d where d: "detect_sequences demo_iso (\<lambda>_. []) demo_audit demo_grown DEFAULT_WINDOW DEFAULT_MIN_REPEAT = Some d"
    by auto
  have ledger: "set (map PDict (sp_rows (record_external_usage 0 ''b'' demo_call False demo_spend))) \<subseteq> set demo_grown"
    by (auto simp: demo_grown_def demo_ledger_def)
  have "case detect_sequences demo_iso (\<lambda>_. []) demo_audit demo_grown DEFAULT_WINDOW DEFAULT_MIN_REPEAT of
      Some d \<Rightarrow> \<exists>f \<in> set (dt_findings d). fi_rule f = ''injection_then_external_spend'' \<and> fi_query_hash f = Some (replicate 64 (CHR ''a''))
    | None \<Rightarrow> time_overflows demo_iso demo_audit demo_grown \<or> event_unhashable (audit_rows demo_iso demo_audit) \<or> DEFAULT_MIN_REPEAT \<le> 0"
    by (rule spend_after_injection_reported [OF ledger, of _ _ 100100 100000 "[(''timestamp'', PStr ''a''), (''query_hash'', PStr (replicate 64 (CHR ''a''))), (''event'', PStr ''prompt_injection_blocked'')]"];
      code_simp)
  then show ?thesis unfolding d by simp
qed

text \<open>Which keys an event of a finding may have.\<close>

definition event_safe :: "row \<Rightarrow> bool" where
  "event_safe ev = list_all (\<lambda>e. fst e = ''kind'' \<or> fst e \<in> set SAFE_KEYS) ev"

lemma safe_event_safe: "event_safe (safe_event kind r)"
  by (auto simp: event_safe_def safe_event_def list_all_iff split: option.splits)

lemma chain_safe: "f \<in> set (chain rule h firsts seconds kind) \<Longrightarrow> list_all event_safe (fi_events f)"
  by (auto simp: chain_def mk_finding_def safe_event_safe split: list.splits)

lemma hash_findings_safe: "f \<in> set (hash_findings n a s h) \<Longrightarrow> list_all event_safe (fi_events f)"
  by (auto simp: hash_findings_def Let_def repeat_finding_def mk_finding_def safe_event_safe list_all_iff [of _ "map _ _"]
      dest: chain_safe split: if_splits)

text \<open>
  The report is private. Every event that a finding shows has a kind and the listed fields only: no field that could hold the
  text of a query, an address or a secret is copied from the logs, whatever fields their rows have.
\<close>

theorem findings_private:
  "case detect_sequences fromiso isoformat audit_events spend_events window min_repeat of
     None \<Rightarrow> True
   | Some d \<Rightarrow> list_all (\<lambda>f. list_all event_safe (fi_events f)) (dt_findings d)"
proof (cases "detect_sequences fromiso isoformat audit_events spend_events window min_repeat")
  case (Some d)
  have "list_all event_safe (fi_events f)" if "f \<in> set (dt_findings d)" for f
    using that unfolding detected [OF Some]
    by (auto simp: window_findings_mem mk_finding_def safe_event_safe unjoinable_finding_def dest: hash_findings_safe split: if_splits)
  then show ?thesis using Some by (simp add: list_all_iff)
qed simp

end
