(* ===== verification/Sync_Config.thy ===== *)
theory Sync_Config
  imports Py_Text
begin

text \<open>
  The configuration of the corpus synchronisation (\<open>sync/config.py\<close>). The values of the YAML block are Python values and
  stay so in the record, since the constructor does not convert them. The arguments are the resolution of
  a local path to the components of an absolute path, the corpus directory in the same form, the expansion of
  variables and of the home directory, and the state directory of rclone.

  The constructor raises \<open>SyncConfigError\<close> or a \<open>TypeError\<close>, which the loader turns into
  \<open>SyncConfigError\<close>; an \<open>AttributeError\<close> passes through the loader.
\<close>

datatype sync_config_error = SyncConfigError str | SyncAttributeError str

record rclone_config =
  rc_local_path :: pyval
  rc_remote_name :: pyval
  rc_remote_path :: pyval
  rc_direction :: pyval
  rc_include_soul :: pyval
  rc_reindex_on_change :: pyval
  rc_auto_reindex :: pyval
  rc_post_sync_check :: pyval
  rc_checksum :: pyval
  rc_max_delete :: pyval
  rc_max_transfer :: pyval
  rc_sync_timeout_sec :: pyval
  rc_sync_retries :: pyval
  rc_retry_backoff_sec :: pyval
  rc_fast_list :: pyval
  rc_bwlimit :: pyval
  rc_conflict_resolve :: pyval
  rc_conflict_loser :: pyval
  rc_schedule_hour :: pyval
  rc_schedule_min :: pyval
  rc_scheduler_backend :: pyval
  rc_schedule_frequency :: pyval
  rc_schedule_weekday :: pyval
  rc_schedule_day :: pyval
  rc_workdir :: pyval
  rc_filter_file :: pyval
  rc_log_dir :: pyval
  rc_extra_excludes :: pyval

definition SYNC_METACHARS :: "char set" where
  "SYNC_METACHARS = set '';|&$`<>(){}[]!*?'' \<union> {CHR 0x22, CHR 0x27, CHR 0x5C, LF, CR, CHR 0x09, CHR '' ''}"

definition VALID_DIRECTIONS :: "str list" where "VALID_DIRECTIONS = [''pull'', ''bisync'']"
definition VALID_CONFLICT_RESOLVE :: "str list" where
  "VALID_CONFLICT_RESOLVE = [''newer'', ''older'', ''larger'', ''smaller'', ''none'']"
definition VALID_SCHEDULER_BACKENDS :: "str list" where "VALID_SCHEDULER_BACKENDS = [''cron'', ''launchd'']"
definition VALID_SCHEDULE_FREQUENCIES :: "str list" where "VALID_SCHEDULE_FREQUENCIES = [''daily'', ''weekly'', ''monthly'']"

definition BOOL_FIELDS :: "str list" where
  "BOOL_FIELDS = [''include_soul'', ''reindex_on_change'', ''auto_reindex'', ''post_sync_check'', ''checksum'', ''fast_list'']"

section \<open>Patterns\<close>

definition ascii_letter :: "char \<Rightarrow> bool" where
  "ascii_letter c = (65 \<le> code c \<and> code c \<le> 90 \<or> 97 \<le> code c \<and> code c \<le> 122)"

text \<open>\<open>re.match\<close> of a class of characters repeated to \<open>$\<close>, which also matches before a final line feed.\<close>

definition match_dollar :: "(str \<Rightarrow> bool) \<Rightarrow> str \<Rightarrow> bool" where
  "match_dollar P s = (P s \<or> s \<noteq> [] \<and> last s = LF \<and> P (butlast s))"

definition remote_name_char :: "char \<Rightarrow> bool" where
  "remote_name_char c = (ascii_letter c \<or> is_digit c \<or> c \<in> set ''_.-'')"

definition remote_name_re :: "str \<Rightarrow> bool" where
  "remote_name_re = match_dollar (\<lambda>s. s \<noteq> [] \<and> list_all remote_name_char s)"

text \<open>A number with an optional fraction and letters of units, or \<open>off\<close>, in any case.\<close>

definition rate_text :: "str \<Rightarrow> bool" where
  "rate_text s =
     (let r = dropWhile is_digit s;
          r2 = (case r of c # t \<Rightarrow> if c = CHR ''.'' \<and> takeWhile is_digit t \<noteq> [] then dropWhile is_digit t else r | [] \<Rightarrow> [])
      in py_lower s = ''off'' \<or> takeWhile is_digit s \<noteq> [] \<and> list_all (\<lambda>c. c \<in> set ''bkmgtpi'') (py_lower r2))"

definition bwlimit_re :: "str \<Rightarrow> bool" where
  "bwlimit_re = match_dollar rate_text"

section \<open>Validation\<close>

text \<open>The components of a path that contain another: \<open>p == d or d in p.parents\<close>.\<close>

definition inside :: "str list \<Rightarrow> str list \<Rightarrow> bool" where
  "inside d p = (take (length d) p = d)"

definition path_text :: "str list \<Rightarrow> str" where
  "path_text p = CHR ''/'' # py_join ''/'' p"

definition validate_local_path :: "(str \<Rightarrow> str list) \<Rightarrow> str list \<Rightarrow> pyval \<Rightarrow> sync_config_error + pyval" where
  "validate_local_path resolve corpus_root v =
     (if \<not> py_truthy v then Inl (SyncConfigError ''local_path'')
      else (case v of
          PStr s \<Rightarrow> if inside corpus_root (resolve s) then Inr (PStr (path_text (resolve s))) else Inl (SyncConfigError ''local_path'')
        | _ \<Rightarrow> Inl (SyncConfigError ''TypeError'')))"

definition check_remote_name :: "pyval \<Rightarrow> sync_config_error option" where
  "check_remote_name v = (case v of
     PStr s \<Rightarrow> if py_startswith s ''-'' \<or> \<not> remote_name_re s then Some (SyncConfigError ''remote_name'') else None
   | _ \<Rightarrow> Some (SyncAttributeError ''remote_name''))"

definition check_remote_path :: "pyval \<Rightarrow> sync_config_error option" where
  "check_remote_path v = (case v of
     PStr s \<Rightarrow> if py_startswith s ''-'' \<or> list_ex (\<lambda>c. c \<in> SYNC_METACHARS) s then Some (SyncConfigError ''remote_path'') else None
   | _ \<Rightarrow> Some (SyncAttributeError ''remote_path''))"

definition check_member :: "str \<Rightarrow> str list \<Rightarrow> pyval \<Rightarrow> sync_config_error option" where
  "check_member name valid v = (if v \<in> set (map PStr valid) then None else Some (SyncConfigError name))"

text \<open>A comparison of a number with bounds; of another value it raises \<open>TypeError\<close>.\<close>

definition check_range :: "str \<Rightarrow> rat \<Rightarrow> rat option \<Rightarrow> pyval \<Rightarrow> sync_config_error option" where
  "check_range name lo hi v = (case py_num v of
     None \<Rightarrow> Some (SyncConfigError ''TypeError'')
   | Some r \<Rightarrow> if lo \<le> r \<and> (case hi of None \<Rightarrow> True | Some h \<Rightarrow> r \<le> h) then None else Some (SyncConfigError name))"

text \<open>\<open>(v or "").strip()\<close>.\<close>

definition stripped :: "str \<Rightarrow> pyval \<Rightarrow> sync_config_error + str" where
  "stripped name v =
     (if \<not> py_truthy v then Inr [] else (case v of PStr s \<Rightarrow> Inr (py_strip s) | _ \<Rightarrow> Inl (SyncAttributeError name)))"

definition validate_bwlimit :: "pyval \<Rightarrow> sync_config_error + pyval" where
  "validate_bwlimit v = (case stripped ''bwlimit'' v of
     Inl e \<Rightarrow> Inl e
   | Inr value \<Rightarrow>
       if value = [] then Inr (PStr [])
       else if py_startswith value ''-'' \<or> \<not> bwlimit_re value then Inl (SyncConfigError ''bwlimit'')
       else Inr (PStr value))"

text \<open>One of the three paths: its default if it is blank.\<close>

definition fill_path :: "str \<Rightarrow> str \<Rightarrow> pyval \<Rightarrow> sync_config_error + str" where
  "fill_path name default_path v = (case stripped name v of
     Inl e \<Rightarrow> Inl e
   | Inr s \<Rightarrow> Inr (if s = [] then default_path else (case v of PStr t \<Rightarrow> t | _ \<Rightarrow> [])))"

definition fill_default_paths :: "(str \<Rightarrow> str) \<Rightarrow> str \<Rightarrow> rclone_config \<Rightarrow> sync_config_error + rclone_config" where
  "fill_default_paths expand state_dir c =
     (case fill_path ''workdir'' (state_dir @ ''/bisync_state'') (rc_workdir c) of Inl e \<Rightarrow> Inl e | Inr w \<Rightarrow>
     (case fill_path ''filter_file'' (state_dir @ ''/cyclaw_filters.txt'') (rc_filter_file c) of Inl e \<Rightarrow> Inl e | Inr f \<Rightarrow>
     (case fill_path ''log_dir'' (state_dir @ ''/logs'') (rc_log_dir c) of Inl e \<Rightarrow> Inl e | Inr l \<Rightarrow>
      if py_strip (expand w) = [] then Inl (SyncConfigError ''workdir'')
      else if py_strip (expand f) = [] then Inl (SyncConfigError ''filter_file'')
      else if py_strip (expand l) = [] then Inl (SyncConfigError ''log_dir'')
      else Inr (c\<lparr>rc_workdir := PStr (expand w), rc_filter_file := PStr (expand f), rc_log_dir := PStr (expand l)\<rparr>))))"

text \<open>The first failing check.\<close>

fun first_error :: "sync_config_error option list \<Rightarrow> sync_config_error option" where
  "first_error [] = None"
| "first_error (None # es) = first_error es"
| "first_error (Some e # es) = Some e"

definition early_checks :: "rclone_config \<Rightarrow> sync_config_error option list" where
  "early_checks c = [
     check_remote_name (rc_remote_name c), check_remote_path (rc_remote_path c),
     check_member ''direction'' VALID_DIRECTIONS (rc_direction c),
     check_range ''max_delete'' 0 None (rc_max_delete c), check_range ''sync_timeout_sec'' 0 None (rc_sync_timeout_sec c),
     check_range ''sync_retries'' 0 None (rc_sync_retries c), check_range ''retry_backoff_sec'' 0 None (rc_retry_backoff_sec c)]"

definition late_checks :: "rclone_config \<Rightarrow> sync_config_error option list" where
  "late_checks c = [
     check_range ''schedule_hour'' 0 (Some 23) (rc_schedule_hour c), check_range ''schedule_min'' 0 (Some 59) (rc_schedule_min c),
     check_member ''scheduler_backend'' VALID_SCHEDULER_BACKENDS (rc_scheduler_backend c),
     check_member ''schedule_frequency'' VALID_SCHEDULE_FREQUENCIES (rc_schedule_frequency c),
     check_range ''schedule_weekday'' 0 (Some 7) (rc_schedule_weekday c), check_range ''schedule_day'' 1 (Some 31) (rc_schedule_day c),
     check_member ''conflict_resolve'' VALID_CONFLICT_RESOLVE (rc_conflict_resolve c)]"

record sync_host =
  sh_resolve :: "str \<Rightarrow> str list"
  sh_corpus_root :: "str list"
  sh_expand :: "str \<Rightarrow> str"
  sh_state_dir :: str

definition sync_post_init :: "sync_host \<Rightarrow> rclone_config \<Rightarrow> sync_config_error + rclone_config" where
  "sync_post_init H c = (case validate_local_path (sh_resolve H) (sh_corpus_root H) (rc_local_path c) of Inl e \<Rightarrow> Inl e | Inr lp \<Rightarrow>
     (case first_error (early_checks c) of Some e \<Rightarrow> Inl e | None \<Rightarrow>
     (case validate_bwlimit (rc_bwlimit c) of Inl e \<Rightarrow> Inl e | Inr bw \<Rightarrow>
     (case first_error (late_checks c) of Some e \<Rightarrow> Inl e | None \<Rightarrow>
      fill_default_paths (sh_expand H) (sh_state_dir H) (c\<lparr>rc_local_path := lp, rc_bwlimit := bw\<rparr>)))))"

section \<open>The loader\<close>

definition SYNC_DEFAULTS :: "(str \<times> pyval) list" where
  "SYNC_DEFAULTS = [
     (''remote_name'', PStr ''dropbox_cyclaw''), (''remote_path'', PStr ''CyClaw/corpus''), (''direction'', PStr ''pull''),
     (''include_soul'', PBool False), (''reindex_on_change'', PBool True), (''auto_reindex'', PBool False),
     (''post_sync_check'', PBool False), (''checksum'', PBool True), (''max_delete'', PInt 20), (''max_transfer'', PStr ''1G''),
     (''sync_timeout_sec'', PInt 3600), (''sync_retries'', PInt 0), (''retry_backoff_sec'', PFloat 5), (''fast_list'', PBool False),
     (''bwlimit'', PStr []), (''conflict_resolve'', PStr ''newer''), (''conflict_loser'', PStr ''rename''), (''schedule_hour'', PInt 2),
     (''schedule_min'', PInt 0), (''scheduler_backend'', PStr ''cron''), (''schedule_frequency'', PStr ''daily''),
     (''schedule_weekday'', PInt 1), (''schedule_day'', PInt 1), (''workdir'', PStr []), (''filter_file'', PStr []),
     (''log_dir'', PStr []), (''extra_excludes'', PList [])]"

definition KNOWN_FIELDS :: "str list" where
  "KNOWN_FIELDS = ''local_path'' # map fst SYNC_DEFAULTS"

text \<open>The constructor with keyword arguments: the fields that are absent take their defaults.\<close>

definition config_of :: "(str \<times> pyval) list \<Rightarrow> rclone_config" where
  "config_of b = (let g = (\<lambda>k. dget b k (dget SYNC_DEFAULTS k PNone)) in
     \<lparr>rc_local_path = g ''local_path'', rc_remote_name = g ''remote_name'', rc_remote_path = g ''remote_path'',
      rc_direction = g ''direction'', rc_include_soul = g ''include_soul'', rc_reindex_on_change = g ''reindex_on_change'',
      rc_auto_reindex = g ''auto_reindex'', rc_post_sync_check = g ''post_sync_check'', rc_checksum = g ''checksum'',
      rc_max_delete = g ''max_delete'', rc_max_transfer = g ''max_transfer'', rc_sync_timeout_sec = g ''sync_timeout_sec'',
      rc_sync_retries = g ''sync_retries'', rc_retry_backoff_sec = g ''retry_backoff_sec'', rc_fast_list = g ''fast_list'',
      rc_bwlimit = g ''bwlimit'', rc_conflict_resolve = g ''conflict_resolve'', rc_conflict_loser = g ''conflict_loser'',
      rc_schedule_hour = g ''schedule_hour'', rc_schedule_min = g ''schedule_min'', rc_scheduler_backend = g ''scheduler_backend'',
      rc_schedule_frequency = g ''schedule_frequency'', rc_schedule_weekday = g ''schedule_weekday'', rc_schedule_day = g ''schedule_day'',
      rc_workdir = g ''workdir'', rc_filter_file = g ''filter_file'', rc_log_dir = g ''log_dir'', rc_extra_excludes = g ''extra_excludes''\<rparr>)"

definition is_bool :: "pyval \<Rightarrow> bool" where
  "is_bool v = (case v of PBool _ \<Rightarrow> True | _ \<Rightarrow> False)"

text \<open>The block checked, and the flag \<open>enabled\<close>. The first argument is the parsed file, or nothing if it cannot be read or parsed.\<close>

definition load_block :: "sync_host \<Rightarrow> (str \<times> pyval) list \<Rightarrow> sync_config_error + rclone_config \<times> bool" where
  "load_block H b =
     (if \<not> list_all (\<lambda>k. k = ''enabled'' \<or> k \<in> set KNOWN_FIELDS) (map fst b) then Inl (SyncConfigError ''unknown'')
      else if \<not> list_all (\<lambda>k. case map_of b k of None \<Rightarrow> True | Some v \<Rightarrow> is_bool v) (BOOL_FIELDS @ [''enabled'']) then Inl (SyncConfigError ''boolean'')
      else if map_of b ''local_path'' = None then Inl (SyncConfigError ''TypeError'')
      else (case sync_post_init H (config_of b) of Inl e \<Rightarrow> Inl e
         | Inr c \<Rightarrow> Inr (c, dget b ''enabled'' (PBool True) = PBool True)))"

definition load_sync_config :: "sync_host \<Rightarrow> pyval option \<Rightarrow> sync_config_error + rclone_config \<times> bool" where
  "load_sync_config H parsed = (case parsed of
     None \<Rightarrow> Inl (SyncConfigError ''load'')
   | Some v \<Rightarrow> (case if py_truthy v then v else PDict [] of
       PDict root_block \<Rightarrow> (let block = dget root_block ''sync'' PNone in
         if \<not> py_truthy block then Inl (SyncConfigError ''missing'')
         else (case block of PDict b \<Rightarrow> load_block H b | _ \<Rightarrow> Inl (SyncConfigError ''mapping'')))
     | _ \<Rightarrow> Inl (SyncConfigError ''root'')))"

text \<open>\<open>remote\<close> and \<open>log_path\<close>.\<close>

definition text_of :: "pyval \<Rightarrow> str" where
  "text_of v = (case v of PStr s \<Rightarrow> s | _ \<Rightarrow> [])"

definition remote :: "rclone_config \<Rightarrow> str" where
  "remote c = text_of (rc_remote_name c) @ '':'' @ text_of (rc_remote_path c)"

text \<open>\<open>os.path.join\<close> of the directory, which is not empty, and a file name.\<close>

definition join_dir :: "str \<Rightarrow> str \<Rightarrow> str" where
  "join_dir d name = (if d = [] then name else if last d = CHR ''/'' then d @ name else d @ ''/'' @ name)"

definition log_path :: "rclone_config \<Rightarrow> str" where
  "log_path c = join_dir (text_of (rc_log_dir c)) ''rclone_cyclaw.log''"

end
