(* ===== verification/Sync_Filters.thy ===== *)
theory Sync_Filters
  imports Sync_Config
begin

text \<open>
  The filter file of the corpus synchronisation (\<open>sync/filters.py\<close>): the text that is written for rclone and its
  physical lines.
\<close>

definition SOUL_RULE :: str where "SOUL_RULE = ''- data/personality/**''"

definition HARDENED_EXCLUDES :: "str list" where
  "HARDENED_EXCLUDES = SOUL_RULE # map (\<lambda>p. ''- '' @ p) [
     ''*.gguf'', ''*.bin'', ''*.safetensors'', ''*.onnx'', ''*.pt'', ''*.pth'',
     ''index/**'', ''.emb_cache/**'', ''.chroma/**'', ''**/.fsindex_cache.json'', ''.fsindex_cache.json'',
     ''venv/**'', ''.venv/**'', ''env/**'', ''__pycache__/**'', ''*.pyc'', ''*.pyo'', ''*.egg-info/**'',
     ''logs/**'', ''*.log'', ''*.jsonl'',
     ''.env'', ''.env.*'', ''*.env'', ''*.pem'', ''*.key'', ''*_secret*'', ''credentials*'',
     ''*.db'', ''*.db-wal'', ''*.db-shm'', ''.git/**'', ''.gitignore'',
     ''.DS_Store'', ''Thumbs.db'', ''desktop.ini'', ''*.swp'', ''.idea/**'', ''.vscode/**'',
     ''.rclone-state/**'', ''*.rclone.lst'', ''*.rclone.lst-new'', ''*.rclone.lst-prev'']"

text \<open>The lines of the header; the text is these, each ended by a line feed.\<close>

definition HEADER_LINES :: "str list" where
  "HEADER_LINES = [
     ''# CyClaw rclone filter file'',
     ''# Auto-generated by sync.filters -- DO NOT EDIT BY HAND.'',
     ''# To customise: add `extra_excludes` to the sync: block in config.yaml.'',
     ''# Format: rclone filter rules -- '' @ [CHR 0x27] @ ''-'' @ [CHR 0x27] @ '' excludes, '' @ [CHR 0x27] @ ''+'' @ [CHR 0x27] @ '' includes, first match wins.'',
     ''# https://rclone.org/filtering/'']"

definition HEADER :: str where
  "HEADER = concat (map (\<lambda>l. l @ [LF]) HEADER_LINES)"

definition IGNORED :: str where
  "IGNORED = ''# IGNORED (rclone '' @ [CHR 0x27] @ ''!'' @ [CHR 0x27] @ '' would reset hardened filters): ''"

text \<open>What one line of an entry becomes.\<close>

definition extra_line :: "str \<Rightarrow> str list" where
  "extra_line l = (let pat = py_strip l in
     if pat = [] then []
     else if py_startswith pat ''!'' then [IGNORED @ pat]
     else if py_startswith pat ''- '' \<or> py_startswith pat ''+ '' then [pat]
     else [''- '' @ pat])"

text \<open>The entries of \<open>extra_excludes\<close>: iterating over a text gives its characters, over a mapping its keys; another value, or an
  entry that is not a text, raises (\<open>None\<close>).\<close>

fun entry_texts :: "pyval list \<Rightarrow> str list option" where
  "entry_texts [] = Some []"
| "entry_texts (v # vs) = (case v of PStr s \<Rightarrow> map_option (Cons s) (entry_texts vs) | _ \<Rightarrow> None)"

definition extra_entries :: "pyval \<Rightarrow> str list option" where
  "extra_entries v = (case v of
     PList vs \<Rightarrow> entry_texts vs
   | PStr s \<Rightarrow> Some (map (\<lambda>c. [c]) s)
   | PDict d \<Rightarrow> Some (map fst d)
   | _ \<Rightarrow> None)"

definition extra_block :: "pyval \<Rightarrow> str list option" where
  "extra_block v =
     (if \<not> py_truthy v then Some []
      else map_option (\<lambda>entries. [[], ''# --- extra_excludes from config.yaml ---''] @
        concat (map (\<lambda>raw. concat (map extra_line (py_splitlines raw))) entries)) (extra_entries v))"

definition py_rstrip :: "str \<Rightarrow> str" where
  "py_rstrip s = rev (dropWhile py_isspace (rev s))"

definition generate_filters :: "rclone_config \<Rightarrow> str option" where
  "generate_filters c = map_option (\<lambda>extra. py_join [LF] ([py_rstrip HEADER, []] @ HARDENED_EXCLUDES @ extra) @ [LF])
     (extra_block (rc_extra_excludes c))"

text \<open>The lines that rclone reads.\<close>

definition physical_lines :: "str \<Rightarrow> str list" where
  "physical_lines s = py_split LF s"

definition filter_rules :: "rclone_config \<Rightarrow> str list option" where
  "filter_rules c = map_option (\<lambda>t. filter (\<lambda>r. r \<noteq> [] \<and> \<not> py_startswith r ''#'') (py_splitlines t)) (generate_filters c)"

text \<open>\<open>filter_summary\<close>: the number of rules.\<close>

definition total_rules :: "rclone_config \<Rightarrow> nat option" where
  "total_rules c = map_option length (filter_rules c)"

text \<open>\<open>write_filter_file\<close>: the states of the target and its temporary file, one after each system call and after each
  prefix of the text is written.\<close>

record filter_files =
  ff_target :: "str option"
  ff_tmp :: "str option"

definition write_filter_file :: "str \<Rightarrow> filter_files \<Rightarrow> filter_files list" where
  "write_filter_file t s = s # map (\<lambda>n. s\<lparr>ff_tmp := Some (take n t)\<rparr>) [0..<Suc (length t)] @ [\<lparr>ff_target = Some t, ff_tmp = None\<rparr>]"

section \<open>What rclone sees\<close>

lemma split_concat_lines:
  "(\<And>l. l \<in> set ls \<Longrightarrow> LF \<notin> set l) \<Longrightarrow> py_split LF (concat (map (\<lambda>l. l @ [LF]) ls)) = ls @ [[]]"
  by (induction ls) (simp_all add: py_split_append)

lemma join_lines: "ls \<noteq> [] \<Longrightarrow> py_join [LF] ls @ [LF] = concat (map (\<lambda>l. l @ [LF]) ls)"
  by (induction ls rule: induct_list012) simp_all

lemma header_rstrip: "py_rstrip HEADER @ [LF] = HEADER"
  by code_simp

lemma no_lf_fixed: "l \<in> set (HEADER_LINES @ [] # HARDENED_EXCLUDES) \<Longrightarrow> LF \<notin> set l"
proof -
  have "list_all (\<lambda>l. list_all (\<lambda>c. c \<noteq> LF) l) (HEADER_LINES @ [] # HARDENED_EXCLUDES)" by code_simp
  then show "l \<in> set (HEADER_LINES @ [] # HARDENED_EXCLUDES) \<Longrightarrow> LF \<notin> set l" by (auto simp: list_all_iff)
qed

lemma extra_line_no_lf: "l \<in> set (extra_line r) \<Longrightarrow> LF \<notin> set r \<Longrightarrow> LF \<notin> set l"
proof -
  have "LF \<notin> set IGNORED" "LF \<notin> set ''- ''" by code_simp+
  then show "l \<in> set (extra_line r) \<Longrightarrow> LF \<notin> set r \<Longrightarrow> LF \<notin> set l"
    by (auto simp: extra_line_def Let_def split: if_splits dest: py_strip_subset)
qed

lemma extra_block_mem:
  assumes "extra_block v = Some ls" "l \<in> set ls"
  shows "l = [] \<or> l = ''# --- extra_excludes from config.yaml ---'' \<or> (\<exists>r raw. r \<in> set (py_splitlines raw) \<and> l \<in> set (extra_line r))"
  using assms by (auto 0 4 simp: extra_block_def split: if_splits)

lemma extra_block_no_lf: "extra_block v = Some ls \<Longrightarrow> l \<in> set ls \<Longrightarrow> LF \<notin> set l"
proof (drule (1) extra_block_mem, elim disjE exE conjE)
  fix r raw
  assume "r \<in> set (py_splitlines raw)" "l \<in> set (extra_line r)"
  moreover from this(1) have "LF \<notin> set r" using py_splitlines_free [of r raw LF] by (auto simp: is_line_break_def)
  ultimately show ?thesis using extra_line_no_lf by blast
next
  assume "l = ''# --- extra_excludes from config.yaml ---''"
  then show ?thesis by (simp add: LF_def)
qed simp

text \<open>The lines of the file: header, blank line, hardened rules, extra lines and the end.\<close>

lemma lines_of_filters:
  assumes "generate_filters c = Some t"
  obtains extra where "extra_block (rc_extra_excludes c) = Some extra"
    "physical_lines t = HEADER_LINES @ [[]] @ HARDENED_EXCLUDES @ extra @ [[]]"
proof -
  obtain extra where e: "extra_block (rc_extra_excludes c) = Some extra"
    "t = py_join [LF] ([py_rstrip HEADER, []] @ HARDENED_EXCLUDES @ extra) @ [LF]"
    using assms by (auto simp: generate_filters_def)
  have "t = concat (map (\<lambda>l. l @ [LF]) ([py_rstrip HEADER, []] @ HARDENED_EXCLUDES @ extra))"
    unfolding e(2) by (rule join_lines) simp
  also have "\<dots> = (py_rstrip HEADER @ [LF]) @ concat (map (\<lambda>l. l @ [LF]) ([] # HARDENED_EXCLUDES @ extra))" by simp
  also have "\<dots> = concat (map (\<lambda>l. l @ [LF]) (HEADER_LINES @ [] # HARDENED_EXCLUDES @ extra))"
    unfolding header_rstrip unfolding HEADER_def by simp
  finally have t: "t = concat (map (\<lambda>l. l @ [LF]) (HEADER_LINES @ [] # HARDENED_EXCLUDES @ extra))" .
  have "LF \<notin> set l" if "l \<in> set (HEADER_LINES @ [] # HARDENED_EXCLUDES @ extra)" for l
    using that no_lf_fixed [of l] extra_block_no_lf [OF e(1), of l] by auto
  then have "physical_lines t = (HEADER_LINES @ [] # HARDENED_EXCLUDES @ extra) @ [[]]"
    unfolding physical_lines_def t by (rule split_concat_lines)
  then show ?thesis using that [OF e(1)] by simp
qed

text \<open>A line that resets all rules.\<close>

definition is_reset :: "str \<Rightarrow> bool" where
  "is_reset l = py_startswith (py_strip l) ''!''"

definition is_include :: "str \<Rightarrow> bool" where
  "is_include l = py_startswith (py_strip l) ''+''"

lemma startswith_exists: "py_startswith s p \<Longrightarrow> \<exists>r. s = p @ r"
  unfolding py_startswith_def by (metis append_take_drop_id)

lemma extra_line_kinds: "l \<in> set (extra_line r) \<Longrightarrow> \<exists>c p. l = c # p \<and> c \<in> set ''#-+''"
proof -
  have "\<exists>c p. py_strip r = c # p \<and> c \<in> set ''#-+''" if "py_startswith (py_strip r) ''- '' \<or> py_startswith (py_strip r) ''+ ''"
    using that startswith_exists [of "py_strip r" "''- ''"] startswith_exists [of "py_strip r" "''+ ''"] by auto
  then show "l \<in> set (extra_line r) \<Longrightarrow> ?thesis"
    by (auto simp: extra_line_def IGNORED_def Let_def split: if_splits)
qed

lemma strip_head: "\<not> py_isspace c \<Longrightarrow> \<exists>q. py_strip (c # p) = c # q"
  by (auto simp: py_strip_def py_lstrip_def dropWhile_append) (metis rev_rev_ident)

lemma mark_not_space: "\<not> py_isspace (CHR ''#'')" "\<not> py_isspace (CHR ''-'')" "\<not> py_isspace (CHR ''+'')"
  by code_simp+

lemma lines_no_reset:
  assumes "generate_filters c = Some t"
  shows "list_all (\<lambda>l. \<not> is_reset l) (physical_lines t)"
proof -
  obtain extra where extra: "extra_block (rc_extra_excludes c) = Some extra"
    "physical_lines t = HEADER_LINES @ [[]] @ HARDENED_EXCLUDES @ extra @ [[]]" by (rule lines_of_filters [OF assms])
  have "\<not> is_reset (x # p)" if "x \<in> set ''#-+''" for x p
  proof -
    have "\<not> py_isspace x" using that mark_not_space by auto
    then obtain q where "py_strip (x # p) = x # q" using strip_head by blast
    then show ?thesis using that by (auto simp: is_reset_def py_startswith_def)
  qed
  then have marked: "\<not> is_reset l" if "\<exists>c p. l = c # p \<and> c \<in> set ''#-+''" for l using that by blast
  have "\<not> is_reset []" by (simp add: is_reset_def py_startswith_def)
  then have "\<not> is_reset l" if "l \<in> set extra" for l
    using extra_block_mem [OF extra(1) that] extra_line_kinds [of l] marked [of l] by fastforce
  moreover have "list_all (\<lambda>l. \<not> is_reset l) (HEADER_LINES @ [[]] @ HARDENED_EXCLUDES @ [[]])" by code_simp
  ultimately show ?thesis unfolding extra(2) by (auto simp: list_all_iff)
qed

text \<open>
  rclone's documented reading of a filter file, as far as it is used: with no reset line, the first rule that matches decides, so
  a path that matches an exclude rule with no include rule before it is excluded. \<open>glob\<close> is the matching of a pattern.
\<close>

definition first_match_wins :: "(str \<Rightarrow> str \<Rightarrow> bool) \<Rightarrow> (str list \<Rightarrow> str \<Rightarrow> bool) \<Rightarrow> bool" where
  "first_match_wins glob excluded \<longleftrightarrow> (\<forall>pre p post path.
     list_all (\<lambda>l. \<not> is_reset l) (pre @ post) \<longrightarrow> list_all (\<lambda>l. \<not> is_include l) pre \<longrightarrow> glob p path \<longrightarrow>
     excluded (pre @ (''- '' @ p) # post) path)"

text \<open>
  C19: The hardened exclusions hold. Whatever \<open>extra_excludes\<close> are configured, the filter file has no line that resets the rules,
  also when an entry spans several lines, and a path that a hardened rule names (the soul layer, databases, keys,
  secrets, logs, indices) is excluded: no configured rule comes before it.
\<close>

theorem hardened_filters_hold:
  assumes "first_match_wins glob excluded" "generate_filters c = Some t" "''- '' @ p \<in> set HARDENED_EXCLUDES" "glob p path"
  shows "list_all (\<lambda>l. \<not> is_reset l) (physical_lines t) \<and> excluded (physical_lines t) path"
proof
  show reset: "list_all (\<lambda>l. \<not> is_reset l) (physical_lines t)" by (rule lines_no_reset [OF assms(2)])
  obtain extra where extra: "physical_lines t = HEADER_LINES @ [[]] @ HARDENED_EXCLUDES @ extra @ [[]]"
    by (rule lines_of_filters [OF assms(2)])
  obtain before after where h: "HARDENED_EXCLUDES = before @ (''- '' @ p) # after" using split_list [OF assms(3)] by blast
  have "list_all (\<lambda>l. \<not> is_include l) (HEADER_LINES @ [[]] @ HARDENED_EXCLUDES)" by code_simp
  then have "list_all (\<lambda>l. \<not> is_include l) (HEADER_LINES @ [[]] @ before)" by (simp add: h)
  moreover have lines: "physical_lines t = (HEADER_LINES @ [[]] @ before) @ (''- '' @ p) # after @ extra @ [[]]" by (simp add: extra h)
  moreover from reset have "list_all (\<lambda>l. \<not> is_reset l) ((HEADER_LINES @ [[]] @ before) @ after @ extra @ [[]])"
    unfolding lines by simp
  ultimately show "excluded (physical_lines t) path"
    using assms(1,4) unfolding first_match_wins_def lines by blast
qed

text \<open>A reading of the rules that satisfies the law: literal patterns, the first rule that matches.\<close>

fun demo_excluded :: "str list \<Rightarrow> str \<Rightarrow> bool" where
  "demo_excluded [] path = False"
| "demo_excluded (l # ls) path =
     (if is_reset l then demo_excluded ls path
      else if l = ''- '' @ path then True
      else if is_include l \<and> l = ''+ '' @ path then False
      else demo_excluded ls path)"

lemma demo_first_match: "first_match_wins (=) demo_excluded"
proof -
  have "list_all (\<lambda>l. \<not> is_reset l) (pre @ post) \<Longrightarrow> list_all (\<lambda>l. \<not> is_include l) pre \<Longrightarrow> demo_excluded (pre @ (''- '' @ p) # post) p" for pre p post
  proof (induction pre)
    case Nil
    have "\<not> is_reset (''- '' @ p)" using strip_head [OF mark_not_space(2), of "CHR '' '' # p"] by (auto simp: is_reset_def py_startswith_def)
    then show ?case by simp
  qed simp
  then show ?thesis unfolding first_match_wins_def by blast
qed

definition demo_host :: sync_host where
  "demo_host = \<lparr>sh_resolve = (\<lambda>s. if s = ''data/corpus/notes'' then [''repo'', ''data'', ''corpus'', ''notes''] else [''etc'']),
     sh_corpus_root = [''repo'', ''data'', ''corpus''], sh_expand = id, sh_state_dir = ''/s''\<rparr>"

definition demo_block :: "(str \<times> pyval) list" where
  "demo_block = [(''local_path'', PStr ''data/corpus/notes''),
     (''extra_excludes'', PList [PStr (''scratch/**'' @ [LF] @ ''!''), PStr ''+ *.db''])]"

theorem hardened_filters_hold_witness:
  "\<exists>t. generate_filters (config_of demo_block) = Some t \<and> demo_excluded (physical_lines t) ''*.db''"
proof -
  have "generate_filters (config_of demo_block) \<noteq> None" by code_simp
  then obtain t where t: "generate_filters (config_of demo_block) = Some t" by blast
  have "''- '' @ ''*.db'' \<in> set HARDENED_EXCLUDES" by code_simp
  from hardened_filters_hold [OF demo_first_match t this] t show ?thesis by blast
qed

end
