(* ===== verification/Py_Re.thy ===== *)
theory Py_Re
  imports Py_Text
begin

text \<open>
  The part of Python's \<open>re\<close> that the synchronisation uses: a pattern is a list of elements that is matched with
  backtracking, in the order in which \<open>re\<close> tries the alternatives. The result of a search is the list of the groups of the
  leftmost match, in the order in which they close; a group that takes no part is absent.
\<close>

datatype rx =
    RChar "char \<Rightarrow> bool"
  | RRep bool nat "char \<Rightarrow> bool"
  | RAlt "rx list list"
  | ROpen
  | RClose
  | RBound
  | REnd

text \<open>A repetition is greedy or lazy and has a minimal length; the numbers of characters it may take, in the order of trying.\<close>

definition rep_lengths :: "bool \<Rightarrow> nat \<Rightarrow> (char \<Rightarrow> bool) \<Rightarrow> str \<Rightarrow> nat list" where
  "rep_lengths greedy n P s =
     (let ks = [n..<Suc (length (takeWhile P s))] in if greedy then rev ks else ks)"

fun first_some :: "'a option list \<Rightarrow> 'a option" where
  "first_some [] = None"
| "first_some (Some x # xs) = Some x"
| "first_some (None # xs) = first_some xs"

definition word_before :: "char option \<Rightarrow> bool" where
  "word_before c = (case c of None \<Rightarrow> False | Some c \<Rightarrow> re_word_char c)"

definition word_at :: "str \<Rightarrow> bool" where
  "word_at s = (case s of [] \<Rightarrow> False | c # _ \<Rightarrow> re_word_char c)"

definition last_taken :: "char option \<Rightarrow> str \<Rightarrow> char option" where
  "last_taken prev t = (if t = [] then prev else Some (last t))"

lemma size_branch: "b \<in> set bs \<Longrightarrow> size_list size b \<le> size_list (size_list size) bs" for b :: "rx list"
  by (induction bs) auto

text \<open>The pattern, the character before, the text, the open group and the closed groups.\<close>

function rx_match :: "rx list \<Rightarrow> char option \<Rightarrow> str \<Rightarrow> str option \<Rightarrow> str list \<Rightarrow> str list option" where
  "rx_match [] prev s cur caps = Some caps"
| "rx_match (RChar P # k) prev s cur caps = (case s of [] \<Rightarrow> None
     | c # t \<Rightarrow> if P c then rx_match k (Some c) t (map_option (\<lambda>b. b @ [c]) cur) caps else None)"
| "rx_match (RRep greedy n P # k) prev s cur caps =
     first_some (map (\<lambda>i. rx_match k (last_taken prev (take i s)) (drop i s) (map_option (\<lambda>b. b @ take i s) cur) caps)
       (rep_lengths greedy n P s))"
| "rx_match (RAlt bs # k) prev s cur caps = first_some (map (\<lambda>b. rx_match (b @ k) prev s cur caps) bs)"
| "rx_match (ROpen # k) prev s cur caps = rx_match k prev s (Some []) caps"
| "rx_match (RClose # k) prev s cur caps = rx_match k prev s None (caps @ [oget cur []])"
| "rx_match (RBound # k) prev s cur caps = (if word_before prev \<noteq> word_at s then rx_match k prev s cur caps else None)"
| "rx_match (REnd # k) prev s cur caps = (if s = [] \<or> s = [LF] then rx_match k prev s cur caps else None)"
  by pat_completeness auto

termination
  by (relation "measure (\<lambda>(k, prev, s, cur, caps). size_list size k)") (auto dest!: size_branch simp: size_list_append)

definition rx_prefix :: "rx list \<Rightarrow> str \<Rightarrow> str list option" where
  "rx_prefix r s = rx_match r None s None []"

fun rx_search_from :: "rx list \<Rightarrow> char option \<Rightarrow> str \<Rightarrow> str list option" where
  "rx_search_from r prev [] = rx_match r prev [] None []"
| "rx_search_from r prev (c # cs) = (case rx_match r prev (c # cs) None [] of
     Some caps \<Rightarrow> Some caps | None \<Rightarrow> rx_search_from r (Some c) cs)"

definition rx_search :: "rx list \<Rightarrow> str \<Rightarrow> str list option" where
  "rx_search r s = rx_search_from r None s"

text \<open>A literal under \<open>re.IGNORECASE\<close>, written in lower case; the usual classes.\<close>

definition lit :: "str \<Rightarrow> rx list" where
  "lit p = map (\<lambda>c. RChar (\<lambda>d. py_lower_char d = c)) p"

definition rx_ws0 :: rx where "rx_ws0 = RRep True 0 py_isspace"
definition rx_ws1 :: rx where "rx_ws1 = RRep True 1 py_isspace"
definition digits1 :: "rx list" where "digits1 = [ROpen, RRep True 1 is_digit, RClose]"

definition dec_value :: "str \<Rightarrow> nat" where
  "dec_value s = foldl (\<lambda>n c. 10 * n + (code c - 48)) 0 s"

end
