(* ===== verification/Sync_Log.thy ===== *)
theory Sync_Log
  imports Py_Re Sync_Config
begin

text \<open>
  Reading rclone's output (\<open>sync/runner.py\<close>): the version, the log of a run, the safety fuses, the integrity check, and the
  hashes of changed files. A log file is the list of its lines, each with its line feed.
\<close>

section \<open>Version\<close>

definition MIN_RCLONE :: "nat \<times> nat \<times> nat" where "MIN_RCLONE = (1, 68, 2)"

definition RCLONE_VERSION_RE :: "rx list" where
  "RCLONE_VERSION_RE = lit ''rclone'' @ [rx_ws1, RAlt [lit ''v'', []]] @ digits1 @ lit ''.'' @ digits1 @ [RAlt [lit ''.'' @ digits1, []]]"

definition version_less :: "nat \<times> nat \<times> nat \<Rightarrow> nat \<times> nat \<times> nat \<Rightarrow> bool" where
  "version_less v w = (case (v, w) of ((a, b, c), (a', b', c')) \<Rightarrow> a < a' \<or> a = a' \<and> (b < b' \<or> b = b' \<and> c < c'))"

datatype sync_exc = SyncRuntimeError str | RcloneNotInstalledError | RcloneVersionError | RcloneTimeoutError | PyOSError | PyTypeError | PyAttributeError

definition is_sync_error :: "sync_exc \<Rightarrow> bool" where
  "is_sync_error e = (e \<notin> {PyOSError, PyTypeError, PyAttributeError})"

definition parse_version :: "str \<Rightarrow> (nat \<times> nat \<times> nat) option" where
  "parse_version output = (case rx_search RCLONE_VERSION_RE output of
     Some [a, b] \<Rightarrow> Some (dec_value a, dec_value b, 0)
   | Some [a, b, c] \<Rightarrow> Some (dec_value a, dec_value b, dec_value c)
   | _ \<Rightarrow> None)"

text \<open>What the binary prints, \<open>None\<close> if it hangs; the outer option is \<open>shutil.which\<close>.\<close>

definition check_rclone_version :: "str option option \<Rightarrow> sync_exc + nat \<times> nat \<times> nat" where
  "check_rclone_version found = (case found of
     None \<Rightarrow> Inl RcloneNotInstalledError
   | Some None \<Rightarrow> Inl RcloneTimeoutError
   | Some (Some output) \<Rightarrow> (case parse_version output of
       None \<Rightarrow> Inl RcloneVersionError
     | Some v \<Rightarrow> if version_less v MIN_RCLONE then Inl RcloneVersionError else Inr v))"

section \<open>The log\<close>

definition not_colon :: "char \<Rightarrow> bool" where "not_colon c = (c \<noteq> CHR '':'')"

text \<open>A colon, the path, a colon.\<close>

definition LOG_PATH_RE :: "rx list" where
  "LOG_PATH_RE = lit '':'' @ [rx_ws0, ROpen, RRep False 1 not_colon, RClose] @ lit '':'' @ [rx_ws0]"

definition LOG_ADDED_RE :: "rx list" where
  "LOG_ADDED_RE = LOG_PATH_RE @ lit ''copied'' @ [rx_ws0] @ lit ''(new)''"
definition LOG_MODIFIED_RE :: "rx list" where
  "LOG_MODIFIED_RE = LOG_PATH_RE @ [RAlt [lit ''copied (replaced existing)'', lit ''updated modification time'']]"
definition LOG_DELETED_RE :: "rx list" where
  "LOG_DELETED_RE = LOG_PATH_RE @ lit ''deleted'' @ [RAlt [[RChar py_isspace], [REnd]]]"
definition LOG_ERROR_RE :: "rx list" where
  "LOG_ERROR_RE = [RBound] @ lit ''error'' @ [RBound, rx_ws0] @ lit '':'' @ [rx_ws0, ROpen, RRep True 1 (\<lambda>c. c \<noteq> LF), RClose]"

definition RCLONE_INTERNAL_PREFIXES :: "str list" where
  "RCLONE_INTERNAL_PREFIXES = [''.rclone-'', ''bisync-'', ''.tmp-'', ''RCLONE_TEST'']"

definition is_rclone_internal :: "str \<Rightarrow> bool" where
  "is_rclone_internal path = list_ex (\<lambda>part. list_ex (py_startswith part) RCLONE_INTERNAL_PREFIXES)
     (filter (\<lambda>p. p \<noteq> []) (split_by (\<lambda>c. c = CHR ''/'' \<or> c = CHR 0x5C) path))"

datatype ev_kind = Added | Modified | Deleted

record file_event =
  fe_kind :: ev_kind
  fe_path :: str
  fe_sha256 :: "str option"

definition file_event_of :: "ev_kind \<Rightarrow> str \<Rightarrow> file_event" where
  "file_event_of k p = \<lparr>fe_kind = k, fe_path = p, fe_sha256 = None\<rparr>"

definition group1 :: "str list \<Rightarrow> str" where
  "group1 caps = py_strip (hd caps)"

text \<open>What a line adds to the events and to the errors.\<close>

definition parse_line :: "str \<Rightarrow> file_event list \<times> str list" where
  "parse_line l =
     (case rx_search LOG_ADDED_RE l of Some caps \<Rightarrow> ([file_event_of Added (group1 caps)], []) | None \<Rightarrow>
     (case rx_search LOG_MODIFIED_RE l of Some caps \<Rightarrow> ([file_event_of Modified (group1 caps)], []) | None \<Rightarrow>
     (case rx_search LOG_DELETED_RE l of Some caps \<Rightarrow> ([file_event_of Deleted (group1 caps)], []) | None \<Rightarrow>
     (case rx_search LOG_ERROR_RE l of Some caps \<Rightarrow> ([], [group1 caps]) | None \<Rightarrow> ([], [])))))"

fun dedupe_events :: "(ev_kind \<times> str) list \<Rightarrow> file_event list \<Rightarrow> file_event list" where
  "dedupe_events seen [] = []"
| "dedupe_events seen (e # es) =
     (if (fe_kind e, fe_path e) \<in> set seen then dedupe_events seen es else e # dedupe_events ((fe_kind e, fe_path e) # seen) es)"

datatype log_read = LogMissing | LogUnreadable | LogLines "str list"

text \<open>A missing file is an empty log; another failure to read it raises.\<close>

definition parse_log :: "log_read \<Rightarrow> sync_exc + file_event list \<times> str list" where
  "parse_log r = (case r of
     LogMissing \<Rightarrow> Inr ([], [])
   | LogUnreadable \<Rightarrow> Inl PyOSError
   | LogLines ls \<Rightarrow> Inr (dedupe_events [] (concat (map (fst \<circ> parse_line) ls)), concat (map (snd \<circ> parse_line) ls)))"

section \<open>Hashes\<close>

text \<open>The arguments are \<open>os.path.realpath\<close>, as components, and the hash of a file, if it can be read.\<close>

definition hash_event :: "(str \<Rightarrow> str list) \<Rightarrow> (str list \<Rightarrow> str option) \<Rightarrow> str \<Rightarrow> file_event \<Rightarrow> file_event" where
  "hash_event realpath sha local_root e =
     (if fe_kind e = Deleted then e
      else let r = realpath local_root;
          p = realpath (if py_startswith (fe_path e) ''/'' then fe_path e else join_dir (path_text r) (fe_path e)) in
        if inside r p then e\<lparr>fe_sha256 := (case sha p of None \<Rightarrow> fe_sha256 e | Some h \<Rightarrow> Some h)\<rparr> else e)"

definition hash_changed_files :: "(str \<Rightarrow> str list) \<Rightarrow> (str list \<Rightarrow> str option) \<Rightarrow> str \<Rightarrow> file_event list \<Rightarrow> file_event list" where
  "hash_changed_files realpath sha local_root es = map (hash_event realpath sha local_root) es"

section \<open>Safety fuses\<close>

definition SAFETY_ABORT_LINE_RE :: "rx list" where
  "SAFETY_ABORT_LINE_RE = lit ''max'' @ [RAlt [lit ''imum'', []], RRep True 1 (\<lambda>c. py_isspace c \<or> c = CHR ''-''),
     RAlt [lit ''delete'', lit ''transfer''], RAlt [lit ''s'', []], RBound, RRep False 0 (\<lambda>c. c \<noteq> CR \<and> c \<noteq> LF),
     RAlt (map lit [''limit'', ''reached'', ''exceeded'', ''threshold'', ''abort''])]"

definition SAFETY_ABORT_TOO_MANY_DELETES_RE :: "rx list" where
  "SAFETY_ABORT_TOO_MANY_DELETES_RE = lit ''too'' @ [rx_ws1] @ lit ''many'' @ [rx_ws1] @ lit ''deletes''"

definition detect_safety_abort :: "str list \<Rightarrow> str \<Rightarrow> bool" where
  "detect_safety_abort errors stderr =
     list_ex (\<lambda>h. rx_search SAFETY_ABORT_LINE_RE h \<noteq> None \<or> rx_search SAFETY_ABORT_TOO_MANY_DELETES_RE h \<noteq> None)
       (errors @ (if stderr \<noteq> [] then [stderr] else []))"

section \<open>The integrity check\<close>

definition CHECK_MISSING_LOCAL_RE :: "rx list" where
  "CHECK_MISSING_LOCAL_RE = lit ''found '' @ digits1 @ lit '' missing on local''"
definition CHECK_MISSING_REMOTE_RE :: "rx list" where
  "CHECK_MISSING_REMOTE_RE = lit ''found '' @ digits1 @ lit '' missing on remote''"
definition CHECK_DIFFS_RE :: "rx list" where
  "CHECK_DIFFS_RE = digits1 @ lit '' difference'' @ [RAlt [lit ''s'', []], rx_ws1] @ lit ''found''"
definition CHECK_MISMATCH_RE :: "rx list" where
  "CHECK_MISMATCH_RE = [RAlt [lit ''notice'', lit ''error''], rx_ws0] @ lit '':'' @
     [rx_ws0, ROpen, RRep False 1 (\<lambda>c. c \<noteq> LF), RClose] @ lit '':'' @ [rx_ws0, ROpen, RRep True 1 (\<lambda>c. c \<noteq> LF), RClose]"

record check_result =
  ck_ok :: bool
  ck_missing_local :: nat
  ck_missing_remote :: nat
  ck_differences :: nat
  ck_errors :: "str list"

definition check_line :: "str \<Rightarrow> check_result \<Rightarrow> check_result" where
  "check_line l r =
     (case rx_search CHECK_MISSING_LOCAL_RE l of Some caps \<Rightarrow> r\<lparr>ck_missing_local := dec_value (hd caps)\<rparr> | None \<Rightarrow>
     (case rx_search CHECK_MISSING_REMOTE_RE l of Some caps \<Rightarrow> r\<lparr>ck_missing_remote := dec_value (hd caps)\<rparr> | None \<Rightarrow>
     (case rx_search CHECK_DIFFS_RE l of Some caps \<Rightarrow> r\<lparr>ck_differences := dec_value (hd caps)\<rparr> | None \<Rightarrow>
     (case rx_search CHECK_MISMATCH_RE l of
        Some [a, b] \<Rightarrow> r\<lparr>ck_errors := ck_errors r @ [take 200 (py_strip a @ '': '' @ py_strip b)]\<rparr>
      | _ \<Rightarrow> r))))"

definition no_check :: "str \<Rightarrow> check_result" where
  "no_check why = \<lparr>ck_ok = False, ck_missing_local = 0, ck_missing_remote = 0, ck_differences = 0, ck_errors = [why]\<rparr>"

definition check_output :: "int \<Rightarrow> str \<Rightarrow> check_result" where
  "check_output rcode out =
     (let r = foldl (\<lambda>r l. check_line l r) ((no_check [])\<lparr>ck_errors := []\<rparr>) (py_splitlines out) in
      r\<lparr>ck_ok := (rcode = 0 \<and> ck_differences r = 0), ck_errors := take 20 (ck_errors r)\<rparr>)"

section \<open>What the log gives\<close>

text \<open>A path with a colon is recorded under its last part.\<close>

lemma colon_in_path_lost:
  "fst (parse_line (''INFO  : Re: a.md: Copied (new)'' @ [LF])) = [file_event_of Added ''a.md'']"
  by code_simp

lemma dedupe_events_paths: "fe_path ` set (dedupe_events seen es) \<union> snd ` set seen = fe_path ` set es \<union> snd ` set seen"
proof (induction es arbitrary: seen)
  case (Cons e es)
  show ?case
  proof (cases "(fe_kind e, fe_path e) \<in> set seen")
    case True
    then have "fe_path e \<in> snd ` set seen" by force
    then show ?thesis using Cons.IH [of seen] True by auto
  next
    case False
    then show ?thesis using Cons.IH [of "(fe_kind e, fe_path e) # seen"] by auto
  qed
qed simp

end
