(* ===== verification/Sync_Runner.thy ===== *)
theory Sync_Runner
  imports Sync_Filters Sync_Log Effect
begin

text \<open>
  One synchronisation (\<open>sync/runner.py\<close>) under the lock: the command lines, the retry loop with its time budget, the
  integrity check, the audit records, and the exit code. Time stamps and durations in the records are left out.

  The host is an argument: the readings of the monotonic clock by the number of the call, the outcome of a run of rclone and the
  lines it appends to its log by the number of the run, whether the log can be cleared before it, and what goes wrong with a reading of the log by
  the number of the reading. The log file itself is part of the state: a run appends to it, clearing empties it, and a reading
  returns what it holds. The audit log takes every record; that \<open>audit_log\<close> only warns when the file system refuses a record is left out.
\<close>

section \<open>Command lines\<close>

text \<open>\<open>fmt\<close> is \<open>str\<close> on values that are not texts.\<close>

definition common_args :: "(pyval \<Rightarrow> str) \<Rightarrow> rclone_config \<Rightarrow> str list" where
  "common_args fmt c =
     [''--filter-from'', text_of (rc_filter_file c), ''--max-transfer='' @ to_str fmt (rc_max_transfer c), ''--check-first'',
      ''--log-file'', log_path c, ''--log-level'', ''INFO''] @
     (if py_truthy (rc_checksum c) then [''--checksum''] else []) @
     (if py_truthy (rc_fast_list c) then [''--fast-list''] else []) @
     (if py_truthy (rc_bwlimit c) then [''--bwlimit='' @ text_of (rc_bwlimit c)] else [])"

definition build_pull_argv :: "(pyval \<Rightarrow> str) \<Rightarrow> rclone_config \<Rightarrow> bool \<Rightarrow> str \<Rightarrow> str list" where
  "build_pull_argv fmt c dry_run rclone_bin =
     [rclone_bin, ''copy'', remote c, text_of (rc_local_path c)] @ common_args fmt c @ (if dry_run then [''--dry-run''] else [])"

definition build_bisync_argv :: "(pyval \<Rightarrow> str) \<Rightarrow> rclone_config \<Rightarrow> bool \<Rightarrow> bool \<Rightarrow> str \<Rightarrow> str list" where
  "build_bisync_argv fmt c dry_run resync rclone_bin =
     [rclone_bin, ''bisync'', remote c, text_of (rc_local_path c), ''--conflict-resolve='' @ text_of (rc_conflict_resolve c),
      ''--conflict-loser='' @ to_str fmt (rc_conflict_loser c), ''--workdir'', text_of (rc_workdir c),
      ''--max-delete='' @ to_str fmt (rc_max_delete c)] @ common_args fmt c @
     (if resync then [''--resync''] else []) @ (if dry_run then [''--dry-run''] else [])"

definition build_check_argv :: "rclone_config \<Rightarrow> str \<Rightarrow> str list" where
  "build_check_argv c rclone_bin =
     [rclone_bin, ''check'', remote c, text_of (rc_local_path c), ''--filter-from'', text_of (rc_filter_file c)] @
     (if py_truthy (rc_checksum c) then [''--checksum''] else []) @ (if py_truthy (rc_fast_list c) then [''--fast-list''] else [])"

definition sync_argv :: "(pyval \<Rightarrow> str) \<Rightarrow> rclone_config \<Rightarrow> bool \<Rightarrow> bool \<Rightarrow> str \<Rightarrow> str list" where
  "sync_argv fmt c dry_run resync rclone_bin =
     (if rc_direction c = PStr ''bisync'' then build_bisync_argv fmt c dry_run resync rclone_bin
      else build_pull_argv fmt c dry_run rclone_bin)"

section \<open>State\<close>

definition RCLONE_TRANSIENT_EXIT :: int where "RCLONE_TRANSIENT_EXIT = 5"
definition RCLONE_SAFETY_FUSE_EXIT :: int where "RCLONE_SAFETY_FUSE_EXIT = 8"

text \<open>How a child process ends: its exit code and what it printed (to the error stream; of the check, all of it), or an exception.\<close>

datatype proc = Finished int str | TimedOut | BinaryMissing | SubprocFailed str | OsFailed

text \<open>A reading of the log file finds it, or finds that it has gone, or cannot read it.\<close>

datatype log_fault = Intact | Removed | Unreadable

record sync_env =
  en_fmt :: "pyval \<Rightarrow> str"
  en_mono :: "nat \<Rightarrow> rat"
  en_proc :: "nat \<Rightarrow> proc"
  en_check :: proc
  en_output :: "nat \<Rightarrow> str list"
  en_fault :: "nat \<Rightarrow> log_fault"
  en_truncates :: "nat \<Rightarrow> bool"
  en_writes_filter :: bool
  en_realpath :: "str \<Rightarrow> str list"
  en_sha :: "str list \<Rightarrow> str option"

record sync_summary =
  sm_code :: "int option"
  sm_counts :: "nat \<times> nat \<times> nat"
  sm_errors_n :: nat
  sm_aborted_for_safety :: bool
  sm_corpus_changed :: bool
  sm_check :: "check_result option"
  sm_error_type :: "sync_exc option"

datatype sync_audit =
    SyncStarted
  | SyncRetry nat int
  | SyncFile file_event
  | SyncCheck str check_result
  | SyncCompleted sync_summary
  | SyncFailed sync_summary

text \<open>A run of rclone: its command line, its timeout and the number of readings of the clock before it.\<close>

record rclone_run =
  rn_argv :: "str list"
  rn_timeout :: "rat option"
  rn_clock :: nat

text \<open>The local variables that survive an exception are part of the state, and so is the log file (\<open>None\<close> if there is none);
  \<open>ss_reads\<close> is what its readings found, in their order.\<close>

record sync_state =
  ss_audit :: "sync_audit list"
  ss_runs :: "rclone_run list"
  ss_clock :: nat
  ss_log :: "str list option"
  ss_reads :: "log_read list"
  ss_slept :: "rat list"
  ss_completed :: "(int \<times> str) option"
  ss_events :: "(str \<times> file_event) list"
  ss_errors :: "str list"
  ss_filter :: "str option"

type_synonym 'a sync_act = "(sync_exc, sync_state, 'a) action"

definition sync_emit :: "bool \<Rightarrow> sync_audit \<Rightarrow> unit sync_act" where
  "sync_emit dry_run a = (if dry_run then hret () else hmodify (\<lambda>s. s\<lparr>ss_audit := ss_audit s @ [a]\<rparr>))"

definition monotonic :: "sync_env \<Rightarrow> rat sync_act" where
  "monotonic E = (\<lambda>s. (Inr (en_mono E (ss_clock s)), s\<lparr>ss_clock := Suc (ss_clock s)\<rparr>))"

text \<open>Reading the log, and storing its events by path: the last one wins.\<close>

definition log_seen :: "log_fault \<Rightarrow> str list option \<Rightarrow> log_read" where
  "log_seen f file_lines = (case f of
     Removed \<Rightarrow> LogMissing
   | Unreadable \<Rightarrow> LogUnreadable
   | Intact \<Rightarrow> (case file_lines of None \<Rightarrow> LogMissing | Some ls \<Rightarrow> LogLines ls))"

definition read_log :: "sync_env \<Rightarrow> (file_event list \<times> str list) sync_act" where
  "read_log E = (\<lambda>s.
     let seen = log_seen (en_fault E (length (ss_reads s))) (ss_log s) in
     (parse_log seen, s\<lparr>ss_reads := ss_reads s @ [seen]\<rparr>))"

definition store_events :: "file_event list \<Rightarrow> unit sync_act" where
  "store_events es = hmodify (\<lambda>s. s\<lparr>ss_events := foldl (\<lambda>m e. AList.update (fe_path e) e m) (ss_events s) es\<rparr>)"

definition write_filter :: "sync_env \<Rightarrow> rclone_config \<Rightarrow> unit sync_act" where
  "write_filter E c = (case generate_filters c of
     None \<Rightarrow> hraise (case rc_extra_excludes c of PList _ \<Rightarrow> PyAttributeError | _ \<Rightarrow> PyTypeError)
   | Some t \<Rightarrow> if en_writes_filter E then hmodify (\<lambda>s. s\<lparr>ss_filter := Some t\<rparr>) else hraise PyOSError)"

section \<open>The retry loop\<close>

text \<open>The time that is left for a run: nothing is left of the budget raises.\<close>

definition run_timeout :: "sync_env \<Rightarrow> rat \<Rightarrow> rat option \<Rightarrow> rat option sync_act" where
  "run_timeout E budget deadline = (case deadline of
     None \<Rightarrow> hret None
   | Some d \<Rightarrow> hbind (monotonic E) (\<lambda>now.
       if d - now \<le> 0 then hraise (SyncRuntimeError ''budget exhausted'') else hret (Some (min (d - now) budget))))"

text \<open>rclone opens its log for appending; a run that hangs or fails has also written to it.\<close>

definition run_rclone :: "sync_env \<Rightarrow> str list \<Rightarrow> rat option \<Rightarrow> (int \<times> str) sync_act" where
  "run_rclone E argv timeout = (\<lambda>s.
     let n = length (ss_runs s);
         t = s\<lparr>ss_runs := ss_runs s @ [\<lparr>rn_argv = argv, rn_timeout = timeout, rn_clock = ss_clock s\<rparr>],
           ss_log := Some (oget (ss_log s) [] @ en_output E n)\<rparr> in
     (case en_proc E n of
        Finished rcode err \<Rightarrow> (Inr (rcode, err), t\<lparr>ss_completed := Some (rcode, err)\<rparr>)
      | TimedOut \<Rightarrow> (Inl (SyncRuntimeError ''timed out''), t)
      | BinaryMissing \<Rightarrow> (Inl RcloneNotInstalledError, t)
      | SubprocFailed name \<Rightarrow> (Inl (SyncRuntimeError name), t)
      | OsFailed \<Rightarrow> (Inl PyOSError, t)))"

definition truncate_log :: "sync_env \<Rightarrow> unit sync_act" where
  "truncate_log E = hbind (hget (\<lambda>s. en_truncates E (length (ss_runs s)))) (\<lambda>ok.
     if ok then hmodify (\<lambda>s. s\<lparr>ss_log := Some []\<rparr>) else hraise (SyncRuntimeError ''could not clear previous rclone log''))"

text \<open>Whether there is time for the pause.\<close>

definition can_wait :: "sync_env \<Rightarrow> rat option \<Rightarrow> rat \<Rightarrow> bool sync_act" where
  "can_wait E deadline backoff = (case deadline of
     None \<Rightarrow> hret True
   | Some d \<Rightarrow> hbind (monotonic E) (\<lambda>now. hret (0 < d - now \<and> backoff < d - now)))"

definition one_attempt :: "sync_env \<Rightarrow> str list \<Rightarrow> rat \<Rightarrow> rat option \<Rightarrow> int sync_act" where
  "one_attempt E argv budget deadline =
     hbind (run_timeout E budget deadline) (\<lambda>timeout.
     hbind (truncate_log E) (\<lambda>_.
     hbind (run_rclone E argv timeout) (\<lambda>cp.
     hbind (read_log E) (\<lambda>(events, errors).
     hbind (hmodify (\<lambda>s. s\<lparr>ss_errors := errors\<rparr>)) (\<lambda>_.
     hbind (store_events events) (\<lambda>_.
     hret (fst cp)))))))"

text \<open>The attempts that are left after this one, and its number.\<close>

fun attempt_loop :: "sync_env \<Rightarrow> bool \<Rightarrow> str list \<Rightarrow> rat \<Rightarrow> rat option \<Rightarrow> rat \<Rightarrow> nat \<Rightarrow> nat \<Rightarrow> unit sync_act" where
  "attempt_loop E dry_run argv budget deadline backoff_sec remaining attempt =
     hbind (one_attempt E argv budget deadline) (\<lambda>rcode.
       if rcode \<noteq> RCLONE_TRANSIENT_EXIT then hret ()
       else (case remaining of
           0 \<Rightarrow> hret ()
         | Suc n \<Rightarrow>
             hbind (sync_emit dry_run (SyncRetry attempt rcode)) (\<lambda>_.
             let backoff = backoff_sec * 2 ^ (attempt - 1) in
             hbind (can_wait E deadline backoff) (\<lambda>ok.
             if ok then hbind (hmodify (\<lambda>s. s\<lparr>ss_slept := ss_slept s @ [backoff]\<rparr>)) (\<lambda>_.
               attempt_loop E dry_run argv budget deadline backoff_sec n (Suc attempt))
             else hret ()))))"

section \<open>After the loop\<close>

record sync_result =
  sr_success :: bool
  sr_code :: int
  sr_events :: "file_event list"
  sr_errors :: "str list"
  sr_aborted_for_safety :: bool
  sr_dry_run :: bool
  sr_corpus_changed :: bool
  sr_check :: "check_result option"

definition event_counts :: "file_event list \<Rightarrow> nat \<times> nat \<times> nat" where
  "event_counts es = (length (filter (\<lambda>e. fe_kind e = Added) es), length (filter (\<lambda>e. fe_kind e = Modified) es),
     length (filter (\<lambda>e. fe_kind e = Deleted) es))"

definition corpus_changed :: "file_event list \<Rightarrow> bool" where
  "corpus_changed es = list_ex (\<lambda>e. \<not> is_rclone_internal (fe_path e)) es"

definition summary_of :: "sync_result \<Rightarrow> sync_summary" where
  "summary_of r = \<lparr>sm_code = Some (sr_code r), sm_counts = event_counts (sr_events r), sm_errors_n = length (sr_errors r),
     sm_aborted_for_safety = sr_aborted_for_safety r, sm_corpus_changed = sr_corpus_changed r, sm_check = sr_check r, sm_error_type = None\<rparr>"

text \<open>\<open>run_post_sync_check\<close>; \<open>None\<close> is no budget. Only an operating system error other than a missing binary raises.\<close>

definition run_post_sync_check :: "sync_env \<Rightarrow> rclone_config \<Rightarrow> str \<Rightarrow> rat option \<Rightarrow> check_result sync_act" where
  "run_post_sync_check E c rclone_bin remaining =
     (if (case remaining of Some r \<Rightarrow> r \<le> 0 | None \<Rightarrow> False)
      then (let r = no_check ''rclone check skipped'' in
        hbind (sync_emit False (SyncCheck ''sync_check_skipped_budget_exhausted'' r)) (\<lambda>_. hret r))
      else hbind (hmodify (\<lambda>s. s\<lparr>ss_runs := ss_runs s @ [\<lparr>rn_argv = build_check_argv c rclone_bin, rn_timeout = remaining, rn_clock = ss_clock s\<rparr>]\<rparr>)) (\<lambda>_.
        case en_check E of
          TimedOut \<Rightarrow> (let r = no_check ''rclone check timed out'' in hbind (sync_emit False (SyncCheck ''sync_check_timeout'' r)) (\<lambda>_. hret r))
        | BinaryMissing \<Rightarrow> (let r = no_check ''rclone check subprocess failed'' in hbind (sync_emit False (SyncCheck ''sync_check_subprocess_failed'' r)) (\<lambda>_. hret r))
        | SubprocFailed _ \<Rightarrow> (let r = no_check ''rclone check subprocess failed'' in hbind (sync_emit False (SyncCheck ''sync_check_subprocess_failed'' r)) (\<lambda>_. hret r))
        | OsFailed \<Rightarrow> hraise PyOSError
        | Finished rcode out \<Rightarrow> (let r = check_output rcode out in
            hbind (sync_emit False (SyncCheck (if ck_ok r then ''sync_check_ok'' else ''sync_check_differences'') r)) (\<lambda>_. hret r))))"

definition sync_emit_files :: "bool \<Rightarrow> file_event list \<Rightarrow> unit sync_act" where
  "sync_emit_files dry_run es = (if dry_run then hret () else hmodify (\<lambda>s. s\<lparr>ss_audit := ss_audit s @ map SyncFile es\<rparr>))"

definition check_phase :: "sync_env \<Rightarrow> rclone_config \<Rightarrow> str \<Rightarrow> rat \<Rightarrow> rat option \<Rightarrow> sync_result \<Rightarrow> sync_result sync_act" where
  "check_phase E c rclone_bin budget deadline r =
     (if sr_success r \<and> \<not> sr_dry_run r \<and> py_truthy (rc_post_sync_check c)
      then hbind (case deadline of None \<Rightarrow> hret None | Some d \<Rightarrow> hbind (monotonic E) (\<lambda>now. hret (Some (min (d - now) budget)))) (\<lambda>remaining.
        hbind (run_post_sync_check E c rclone_bin remaining) (\<lambda>k. hret (r\<lparr>sr_check := Some k\<rparr>)))
      else hret r)"

definition last_row :: "sync_result \<Rightarrow> sync_audit" where
  "last_row r = (if sr_success r then SyncCompleted (summary_of r) else SyncFailed (summary_of r))"

text \<open>Up to the final record.\<close>

definition finish_run :: "sync_env \<Rightarrow> rclone_config \<Rightarrow> bool \<Rightarrow> str \<Rightarrow> rat \<Rightarrow> rat option \<Rightarrow> sync_result sync_act" where
  "finish_run E c dry_run rclone_bin budget deadline = (\<lambda>s.
     (case ss_completed s of
        None \<Rightarrow> hraise (SyncRuntimeError ''rclone never executed'') s
      | Some (rcode, err) \<Rightarrow>
          (let events = hash_changed_files (en_realpath E) (en_sha E) (text_of (rc_local_path c)) (map snd (ss_events s));
               r = \<lparr>sr_success = (rcode = 0), sr_code = rcode, sr_events = events, sr_errors = ss_errors s,
                 sr_aborted_for_safety = (rcode = RCLONE_SAFETY_FUSE_EXIT \<or> detect_safety_abort (ss_errors s) err),
                 sr_dry_run = dry_run, sr_corpus_changed = corpus_changed events, sr_check = None\<rparr> in
           hbind (check_phase E c rclone_bin budget deadline r) (\<lambda>r.
           hbind (sync_emit_files dry_run (sr_events r)) (\<lambda>_. hret r)) s)))"

text \<open>The number of attempts: \<open>range\<close> refuses a number that is not an integer.\<close>

definition retries_of :: "pyval \<Rightarrow> nat option" where
  "retries_of v = (case v of PInt i \<Rightarrow> Some (nat i) | PBool b \<Rightarrow> Some (if b then 1 else 0) | _ \<Rightarrow> None)"

definition attempt_all :: "sync_env \<Rightarrow> rclone_config \<Rightarrow> bool \<Rightarrow> str list \<Rightarrow> str \<Rightarrow> sync_result sync_act" where
  "attempt_all E c dry_run argv rclone_bin =
     (let budget = oget (py_num (rc_sync_timeout_sec c)) 0 in
      hbind (if 0 < budget then hbind (monotonic E) (\<lambda>now. hret (Some (now + budget))) else hret None) (\<lambda>deadline.
      case retries_of (rc_sync_retries c) of
        None \<Rightarrow> hraise PyTypeError
      | Some retries \<Rightarrow>
          hbind (attempt_loop E dry_run argv budget deadline (oget (py_num (rc_retry_backoff_sec c)) 0) retries 1) (\<lambda>_.
          finish_run E c dry_run rclone_bin budget deadline)))"

text \<open>The body of the \<open>try\<close>.\<close>

definition guarded :: "sync_env \<Rightarrow> rclone_config \<Rightarrow> bool \<Rightarrow> str list \<Rightarrow> str \<Rightarrow> sync_result sync_act" where
  "guarded E c dry_run argv rclone_bin =
     hbind (attempt_all E c dry_run argv rclone_bin) (\<lambda>r. hbind (sync_emit dry_run (last_row r)) (\<lambda>_. hret r))"

text \<open>The handler of every exception: one last reading of the log, and the final record. It re-raises; a \<open>SyncError\<close> carries whether
  the corpus changed.\<close>

definition harvest_tail :: "sync_env \<Rightarrow> unit sync_act" where
  "harvest_tail E = hcatch (hbind (read_log E) (\<lambda>(events, _). store_events events)) (\<lambda>_. hret ())"

definition failure_summary :: "sync_exc \<Rightarrow> sync_state \<Rightarrow> sync_summary" where
  "failure_summary e s = (let partial = map snd (ss_events s) in
     \<lparr>sm_code = map_option fst (ss_completed s), sm_counts = event_counts partial, sm_errors_n = length (ss_errors s),
      sm_aborted_for_safety = False, sm_corpus_changed = corpus_changed partial, sm_check = None, sm_error_type = Some e\<rparr>)"

definition on_failure :: "sync_env \<Rightarrow> bool \<Rightarrow> sync_exc \<Rightarrow> (sync_exc \<times> bool option, sync_state, sync_result) action" where
  "on_failure E dry_run e = (\<lambda>s.
     let t = snd (harvest_tail E s); m = failure_summary e t in
     (Inl (e, if is_sync_error e then Some (sm_corpus_changed m) else None), snd (sync_emit dry_run (SyncFailed m) t)))"

text \<open>An exception with the detail \<open>corpus_changed\<close>.\<close>

definition run_sync_locked :: "sync_env \<Rightarrow> rclone_config \<Rightarrow> bool \<Rightarrow> bool \<Rightarrow> str \<Rightarrow> (sync_exc \<times> bool option, sync_state, sync_result) action" where
  "run_sync_locked E c dry_run resync rclone_bin = (\<lambda>s0.
     (case write_filter E c s0 of
        (Inl e, s) \<Rightarrow> (Inl (e, None), s)
      | (Inr _, s1) \<Rightarrow>
          (let s2 = snd (sync_emit dry_run SyncStarted s1) in
           (case guarded E c dry_run (sync_argv (en_fmt E) c dry_run resync rclone_bin) rclone_bin s2 of
              (Inr r, s) \<Rightarrow> (Inr r, s)
            | (Inl e, s) \<Rightarrow> on_failure E dry_run e s))))"

definition REINDEX_EXIT_CODE :: int where "REINDEX_EXIT_CODE = 10"

definition reindex_exit_code_for :: "sync_result \<Rightarrow> rclone_config \<Rightarrow> int" where
  "reindex_exit_code_for r c =
     (if sr_dry_run r then 0
      else if \<not> sr_success r then (if sr_aborted_for_safety r then 1 else 2)
      else if py_truthy (rc_reindex_on_change c) \<and> sr_corpus_changed r then REINDEX_EXIT_CODE
      else 0)"

declare attempt_loop.simps [simp del]

end
