(* ===== verification/Sync_Claims.thy ===== *)
theory Sync_Claims
  imports Sync_Runner
begin

text \<open>What a synchronisation guarantees: its records, its evidence, its bounds, its command line.\<close>

section \<open>Audit records\<close>

definition inner_row :: "sync_audit \<Rightarrow> bool" where
  "inner_row a = (case a of SyncRetry _ _ \<Rightarrow> True | SyncFile _ \<Rightarrow> True | SyncCheck _ _ \<Rightarrow> True | _ \<Rightarrow> False)"

text \<open>Between the first and the last record.\<close>

definition between_rows :: "bool \<Rightarrow> sync_state \<Rightarrow> sync_state \<Rightarrow> bool" where
  "between_rows dry_run s t = (\<exists>rows. ss_audit t = ss_audit s @ rows \<and> list_all inner_row rows \<and> (dry_run \<longrightarrow> rows = []))"

interpretation between_rows: frame "between_rows dry_run" for dry_run
proof
  show "between_rows dry_run s s" for s by (auto simp: between_rows_def)
  show "between_rows dry_run s u" if "between_rows dry_run s t" "between_rows dry_run t u" for s t u
    using that by (auto simp: between_rows_def)
qed

lemma rows_emit: "inner_row a \<Longrightarrow> keeps (between_rows dry_run) (sync_emit dry_run a)"
  by (auto simp: sync_emit_def between_rows_def keeps_def handler_simps)

lemma rows_same: "(\<And>s. ss_audit (f s) = ss_audit s) \<Longrightarrow> keeps (between_rows dry_run) (hmodify f)"
  by (rule between_rows.keeps_modify) (simp add: between_rows_def)

lemma rows_monotonic: "keeps (between_rows dry_run) (monotonic E)"
  by (auto simp: monotonic_def between_rows_def keeps_def)

lemma rows_read_log: "keeps (between_rows dry_run) (read_log E)"
  by (auto simp: read_log_def between_rows_def keeps_def Let_def)

lemma rows_run_rclone: "keeps (between_rows dry_run) (run_rclone E argv timeout)"
  by (auto simp: run_rclone_def between_rows_def keeps_def Let_def split: proc.splits)

lemma rows_attempt: "keeps (between_rows dry_run) (one_attempt E argv budget deadline)"
  unfolding one_attempt_def run_timeout_def truncate_log_def store_events_def
  by (auto intro!: between_rows.keeps_rules rows_monotonic rows_read_log rows_run_rclone rows_same split: option.split)

lemma rows_can_wait: "keeps (between_rows dry_run) (can_wait E deadline backoff)"
  unfolding can_wait_def by (auto intro!: between_rows.keeps_rules rows_monotonic split: option.split)

lemma rows_loop: "keeps (between_rows dry_run) (attempt_loop E dry_run argv budget deadline backoff_sec remaining attempt)"
proof (induction remaining arbitrary: attempt)
  case 0
  show ?case unfolding attempt_loop.simps [of _ _ _ _ _ _ 0]
    by (auto intro!: between_rows.keeps_rules rows_attempt)
next
  case (Suc n)
  show ?case unfolding attempt_loop.simps [of _ _ _ _ _ _ "Suc n"] Let_def
    by (auto intro!: between_rows.keeps_rules rows_attempt rows_emit rows_can_wait rows_same Suc simp: inner_row_def)
qed

lemma rows_check: "keeps (between_rows False) (run_post_sync_check E c rclone_bin remaining)"
  unfolding run_post_sync_check_def Let_def
  by (auto intro!: between_rows.keeps_rules rows_emit rows_same simp: inner_row_def split: proc.split option.split)

lemma rows_check_phase: "keeps (between_rows (sr_dry_run r)) (check_phase E c rclone_bin budget deadline r)"
proof (cases "sr_dry_run r")
  case False
  then show ?thesis unfolding check_phase_def
    by (auto intro!: between_rows.keeps_rules rows_monotonic rows_check split: option.split)
qed (simp add: check_phase_def between_rows.keeps_ret)

lemma rows_files: "keeps (between_rows dry_run) (sync_emit_files dry_run es)"
  by (auto simp: sync_emit_files_def between_rows_def keeps_def handler_simps list_all_iff inner_row_def)

lemma rows_finish: "keeps (between_rows dry_run) (finish_run E c dry_run rclone_bin budget deadline)"
proof (rule keepsI)
  fix s r t assume a: "finish_run E c dry_run rclone_bin budget deadline s = (r, t)"
  show "between_rows dry_run s t"
  proof (cases "ss_completed s")
    case None
    then show ?thesis using a by (simp add: finish_run_def hraise_def between_rows.R_refl)
  next
    case (Some p)
    obtain q where q: "finish_run E c dry_run rclone_bin budget deadline s =
        hbind (check_phase E c rclone_bin budget deadline q) (\<lambda>r. hbind (sync_emit_files dry_run (sr_events r)) (\<lambda>_. hret r)) s"
      and dry: "sr_dry_run q = dry_run"
      using Some by (cases p) (auto simp: finish_run_def Let_def)
    have "keeps (between_rows dry_run) (hbind (check_phase E c rclone_bin budget deadline q) (\<lambda>r. hbind (sync_emit_files dry_run (sr_events r)) (\<lambda>_. hret r)))"
      using rows_check_phase [of q] dry by (auto intro!: between_rows.keeps_rules rows_files)
    then show ?thesis by (rule keepsD) (use a q in simp)
  qed
qed

lemma rows_attempt_all: "keeps (between_rows dry_run) (attempt_all E c dry_run argv rclone_bin)"
  unfolding attempt_all_def Let_def
  by (auto intro!: between_rows.keeps_rules rows_monotonic rows_loop rows_finish split: option.split)

lemma guarded_cases:
  assumes "guarded E c dry_run argv rclone_bin s = (res, t)"
  obtains e where "res = Inl e" "between_rows dry_run s t"
  | r u where "res = Inr r" "between_rows dry_run s u" "t = snd (sync_emit dry_run (last_row r) u)"
proof -
  obtain q u where q: "attempt_all E c dry_run argv rclone_bin s = (q, u)" by force
  then have "between_rows dry_run s u" using keepsD [OF rows_attempt_all] by blast
  then show ?thesis using assms q that by (cases q) (auto simp: guarded_def hbind_def sync_emit_def handler_simps split: if_splits)
qed

text \<open>The records of a synchronisation that begins: the first, and the last with the outcome.\<close>

definition ends_with :: "(sync_exc \<times> bool option) + sync_result \<Rightarrow> sync_audit \<Rightarrow> bool" where
  "ends_with res a = (case res of
     Inr r \<Rightarrow> a = last_row r
   | Inl (e, _) \<Rightarrow> (case a of SyncFailed m \<Rightarrow> sm_error_type m = Some e | _ \<Rightarrow> False))"

lemma rows_harvest: "keeps (between_rows dry_run) (harvest_tail E)"
  unfolding harvest_tail_def store_events_def
  by (auto intro!: between_rows.keeps_rules rows_read_log rows_same split: prod.split)

lemma emit_audit: "ss_audit (snd (sync_emit dry_run a s)) = ss_audit s @ (if dry_run then [] else [a])"
  by (simp add: sync_emit_def handler_simps)

text \<open>
  C21: The records of a synchronisation. A dry run records nothing. A real run whose filter file cannot be written records nothing and does not
  start rclone; every other one, whether it succeeds, fails, times out or raises, records its start, and then exactly one final
  record, which is last and says how it ended: the result that is returned or the type of the exception that is raised.
\<close>

theorem sync_audit_converges:
  assumes "run_sync_locked E c dry_run resync rclone_bin s = (res, t)"
  shows "if dry_run then ss_audit t = ss_audit s
    else ss_audit t = ss_audit s \<and> ss_runs t = ss_runs s \<and> (\<exists>e. res = Inl (e, None)) \<or>
      (\<exists>rows a. ss_audit t = ss_audit s @ [SyncStarted] @ rows @ [a] \<and> list_all inner_row rows \<and> ends_with res a)"
proof -
  obtain w s1 where w: "write_filter E c s = (w, s1)" by force
  then have s1: "ss_audit s1 = ss_audit s" "ss_runs s1 = ss_runs s"
    by (auto simp: write_filter_def handler_simps split: option.splits if_splits)
  show ?thesis
  proof (cases w)
    case (Inl e)
    then show ?thesis using assms w s1 by (auto simp: run_sync_locked_def)
  next
    case (Inr x)
    let ?argv = "sync_argv (en_fmt E) c dry_run resync rclone_bin" and ?s2 = "snd (sync_emit dry_run SyncStarted s1)"
    obtain g u where g: "guarded E c dry_run ?argv rclone_bin ?s2 = (g, u)" by force
    then show ?thesis
    proof (cases rule: guarded_cases)
      case (1 e)
      have res: "(res, t) = on_failure E dry_run e u" using assms w Inr g 1 by (simp add: run_sync_locked_def)
      have "between_rows dry_run ?s2 (snd (harvest_tail E u))"
        using between_rows.R_trans [OF 1(2)] rows_harvest [of dry_run E] by (simp add: keeps_def)
      then show ?thesis
        using res s1(1) by (auto simp: on_failure_def Let_def between_rows_def emit_audit ends_with_def failure_summary_def)
    next
      case (2 r u')
      then have "res = Inr r" "t = u" using assms w Inr g by (simp_all add: run_sync_locked_def)
      then show ?thesis using 2 s1(1) by (auto simp: between_rows_def emit_audit ends_with_def)
    qed
  qed
qed

section \<open>Runs of rclone\<close>

text \<open>The timeout of a run ends within the budget, counted from the last reading of the clock before it.\<close>

definition timeout_ok :: "sync_env \<Rightarrow> rat \<Rightarrow> rat option \<Rightarrow> rclone_run \<Rightarrow> bool" where
  "timeout_ok E budget deadline r = (case deadline of
     None \<Rightarrow> rn_timeout r = None
   | Some d \<Rightarrow> (case rn_timeout r of None \<Rightarrow> False
       | Some v \<Rightarrow> 0 < v \<and> v \<le> budget \<and> en_mono E (rn_clock r - 1) + v \<le> d))"

lemma run_timeout_cases:
  assumes "run_timeout E budget deadline s = (res, t)" "0 < budget \<or> deadline = None"
  shows "ss_runs t = ss_runs s \<and> ss_reads t = ss_reads s \<and> ss_events t = ss_events s \<and>
    (case res of Inl _ \<Rightarrow> True | Inr v \<Rightarrow> timeout_ok E budget deadline \<lparr>rn_argv = argv, rn_timeout = v, rn_clock = ss_clock t\<rparr>)"
  using assms
  by (auto simp: run_timeout_def monotonic_def timeout_ok_def hbind_def handler_simps split: option.splits if_splits)

lemma truncate_log_cases:
  assumes "truncate_log E s = (res, t)"
  obtains e where "res = Inl e" "t = s" | "res = Inr ()" "t = s\<lparr>ss_log := Some []\<rparr>"
  using assms by (auto simp: truncate_log_def hbind_def handler_simps split: if_splits)

text \<open>What the reading of the log of a run finds: the lines that this run wrote and no others, unless the file is gone or cannot be read.\<close>

definition run_log :: "sync_env \<Rightarrow> nat \<Rightarrow> log_read" where
  "run_log E i = log_seen (en_fault E i) (Some (en_output E i))"

text \<open>The log of each run was read; or that of the last run was not, and is what the file holds.\<close>

definition all_read :: "sync_env \<Rightarrow> sync_state \<Rightarrow> bool" where
  "all_read E s = (ss_reads s = map (run_log E) [0..<length (ss_runs s)])"

definition last_unread :: "sync_env \<Rightarrow> sync_state \<Rightarrow> bool" where
  "last_unread E s = (\<exists>m. length (ss_runs s) = Suc m \<and> ss_reads s = map (run_log E) [0..<m] \<and> ss_log s = Some (en_output E m))"

text \<open>One attempt: it raises before the run; or it runs rclone, and then it raises, or it has read the log of this run.\<close>

lemma one_attempt_run:
  assumes "one_attempt E argv budget deadline s = (res, t)" "0 < budget \<or> deadline = None"
  shows "(\<exists>e. res = Inl e \<and> ss_runs t = ss_runs s \<and> ss_reads t = ss_reads s) \<or>
    (\<exists>run. ss_runs t = ss_runs s @ [run] \<and> rn_argv run = argv \<and> timeout_ok E budget deadline run \<and>
      (case res of Inr rcode \<Rightarrow> (\<exists>err. en_proc E (length (ss_runs s)) = Finished rcode err) | Inl _ \<Rightarrow> True) \<and>
      (ss_reads t = ss_reads s @ [log_seen (en_fault E (length (ss_reads s))) (Some (en_output E (length (ss_runs s))))] \<or>
       (\<exists>e. res = Inl e) \<and> ss_reads t = ss_reads s \<and> ss_log t = Some (en_output E (length (ss_runs s)))))"
proof -
  obtain q u where q: "run_timeout E budget deadline s = (q, u)" by force
  note facts = run_timeout_cases [OF q assms(2), of argv]
  show ?thesis
  proof (cases q)
    case (Inl e)
    then show ?thesis using assms(1) q facts by (auto simp: one_attempt_def)
  next
    case (Inr v)
    obtain x u' where x: "truncate_log E u = (x, u')" by force
    then show ?thesis
    proof (cases rule: truncate_log_cases)
      case (1 e)
      then show ?thesis using assms(1) q Inr x facts by (auto simp: one_attempt_def hbind_def)
    next
      case 2
      show ?thesis using assms(1) q Inr x 2 facts
        by (auto simp: one_attempt_def hbind_def run_rclone_def read_log_def store_events_def handler_simps Let_def oget_def
            split: proc.splits sum.splits prod.splits)
    qed
  qed
qed

lemma one_attempt_log:
  assumes "one_attempt E argv budget deadline s = (res, t)" "0 < budget \<or> deadline = None" "all_read E s"
  shows "case res of Inr _ \<Rightarrow> all_read E t | Inl _ \<Rightarrow> all_read E t \<or> last_unread E t"
proof -
  have n: "length (ss_reads s) = length (ss_runs s)" using assms(3) by (simp add: all_read_def)
  from one_attempt_run [OF assms(1,2)] consider
      (before) e where "res = Inl e" "ss_runs t = ss_runs s" "ss_reads t = ss_reads s"
    | (read) run where "ss_runs t = ss_runs s @ [run]" "ss_reads t = ss_reads s @ [run_log E (length (ss_runs s))]"
    | (unread) e run where "res = Inl e" "ss_runs t = ss_runs s @ [run]" "ss_reads t = ss_reads s" "ss_log t = Some (en_output E (length (ss_runs s)))"
    unfolding n run_log_def by blast
  then show ?thesis using assms(3) by cases (auto simp: all_read_def last_unread_def split: sum.split)
qed

lemma can_wait_same: "can_wait E deadline backoff s = (res, t) \<Longrightarrow> ss_runs t = ss_runs s \<and> ss_reads t = ss_reads s \<and> (\<exists>b. res = Inr b)"
  by (auto simp: can_wait_def monotonic_def hbind_def handler_simps split: option.splits)

lemma emit_same: "sync_emit dry_run a s = (res, t) \<Longrightarrow> ss_runs t = ss_runs s \<and> ss_reads t = ss_reads s \<and> res = Inr ()"
  by (auto simp: sync_emit_def handler_simps split: if_splits)

text \<open>The runs that are added to a state.\<close>

definition runs_added :: "sync_env \<Rightarrow> str list \<Rightarrow> rat \<Rightarrow> rat option \<Rightarrow> nat \<Rightarrow> sync_state \<Rightarrow> sync_state \<Rightarrow> bool" where
  "runs_added E argv budget deadline n s t = (\<exists>new. ss_runs t = ss_runs s @ new \<and> length new \<le> n \<and>
     list_all (\<lambda>r. rn_argv r = argv \<and> timeout_ok E budget deadline r) new \<and>
     (\<forall>i. Suc i < length new \<longrightarrow> (\<exists>err. en_proc E (length (ss_runs s) + i) = Finished RCLONE_TRANSIENT_EXIT err)))"

lemma runs_added_none: "ss_runs t = ss_runs s \<Longrightarrow> runs_added E argv budget deadline n s t"
  by (auto simp: runs_added_def)

lemma runs_added_one:
  "ss_runs t = ss_runs s @ [run] \<Longrightarrow> rn_argv run = argv \<Longrightarrow> timeout_ok E budget deadline run \<Longrightarrow> runs_added E argv budget deadline (Suc n) s t"
  by (auto simp: runs_added_def)

lemma runs_added_step:
  assumes "ss_runs t = ss_runs s @ [run]" "rn_argv run = argv" "timeout_ok E budget deadline run"
    "en_proc E (length (ss_runs s)) = Finished RCLONE_TRANSIENT_EXIT err" "runs_added E argv budget deadline n t u"
  shows "runs_added E argv budget deadline (Suc n) s u"
proof -
  obtain new where new: "ss_runs u = ss_runs t @ new" "length new \<le> n" "list_all (\<lambda>r. rn_argv r = argv \<and> timeout_ok E budget deadline r) new"
    "\<And>i. Suc i < length new \<Longrightarrow> \<exists>err. en_proc E (length (ss_runs t) + i) = Finished RCLONE_TRANSIENT_EXIT err"
    using assms(5) unfolding runs_added_def by blast
  have "\<exists>err. en_proc E (length (ss_runs s) + i) = Finished RCLONE_TRANSIENT_EXIT err" if "Suc i < length (run # new)" for i
    using that assms(1,4) new(4) [of "i - 1"] by (cases i) auto
  then show ?thesis unfolding runs_added_def using assms(1-3) new(1-3) by (intro exI [of _ "run # new"]) simp
qed

text \<open>The loop from a state in which every log was read: its runs, and that at most the log of the last one, which raised, is left to be read.\<close>

definition loop_ok :: "sync_env \<Rightarrow> str list \<Rightarrow> rat \<Rightarrow> rat option \<Rightarrow> nat \<Rightarrow> sync_state \<Rightarrow> (sync_exc + unit) \<Rightarrow> sync_state \<Rightarrow> bool" where
  "loop_ok E argv budget deadline n s res t = (runs_added E argv budget deadline n s t \<and>
     (case res of Inr _ \<Rightarrow> all_read E t | Inl _ \<Rightarrow> all_read E t \<or> last_unread E t))"

lemma loop_ok_raises:
  assumes "one_attempt E argv budget deadline s = (Inl e, t)" "0 < budget \<or> deadline = None" "all_read E s"
  shows "loop_ok E argv budget deadline (Suc n) s (Inl e) t"
  using one_attempt_run [OF assms(1,2)] one_attempt_log [OF assms]
  by (auto simp: loop_ok_def intro: runs_added_none runs_added_one)

lemma all_read_cong: "ss_runs t = ss_runs s \<Longrightarrow> ss_reads t = ss_reads s \<Longrightarrow> all_read E t = all_read E s"
  by (simp add: all_read_def)

lemma loop_ok_last:
  assumes "ss_runs t = ss_runs s @ [run]" "rn_argv run = argv" "timeout_ok E budget deadline run" "all_read E t"
  shows "loop_ok E argv budget deadline (Suc n) s (Inr x) t"
  using assms by (simp add: loop_ok_def runs_added_one)

lemma loop_runs:
  assumes "attempt_loop E dry_run argv budget deadline backoff_sec remaining attempt s = (res, t)" "0 < budget \<or> deadline = None" "all_read E s"
  shows "loop_ok E argv budget deadline (Suc remaining) s res t"
  using assms(1,3)
proof (induction remaining arbitrary: attempt s)
  case 0
  from 0(1) [unfolded attempt_loop.simps [of _ _ _ _ _ _ 0]] show ?case
  proof (cases rule: hbind_cases)
    case (raises e)
    then show ?thesis using loop_ok_raises [OF raises(1) assms(2) 0(2)] by simp
  next
    case (returns rcode u)
    have "t = u" "res = Inr ()" using returns(2) by (auto simp: hret_def split: if_splits)
    then show ?thesis using one_attempt_run [OF returns(1) assms(2)] one_attempt_log [OF returns(1) assms(2) 0(2)] by (auto intro: loop_ok_last)
  qed
next
  case (Suc n)
  from Suc.prems(1) [unfolded attempt_loop.simps [of _ _ _ _ _ _ "Suc n"]] show ?case
  proof (cases rule: hbind_cases)
    case (raises e)
    then show ?thesis using loop_ok_raises [OF raises(1) assms(2) Suc.prems(2)] by simp
  next
    case (returns rcode u)
    have u: "all_read E u" using one_attempt_log [OF returns(1) assms(2) Suc.prems(2)] by simp
    obtain run err where run: "ss_runs u = ss_runs s @ [run]" "rn_argv run = argv" "timeout_ok E budget deadline run"
      "en_proc E (length (ss_runs s)) = Finished rcode err"
      using one_attempt_run [OF returns(1) assms(2)] by auto
    show ?thesis
    proof (cases "rcode = RCLONE_TRANSIENT_EXIT")
      case False
      then show ?thesis using returns(2) run u by (auto intro: loop_ok_last simp: hret_def)
    next
      case True
      obtain u1 where u1: "sync_emit dry_run (SyncRetry attempt rcode) u = (Inr (), u1)" "ss_runs u1 = ss_runs u" "ss_reads u1 = ss_reads u"
        using emit_same by (metis prod.exhaust)
      obtain ok u2 where u2: "can_wait E deadline (backoff_sec * 2 ^ (attempt - 1)) u1 = (Inr ok, u2)" "ss_runs u2 = ss_runs u" "ss_reads u2 = ss_reads u"
        using can_wait_same u1(2,3) by (metis prod.exhaust)
      show ?thesis
      proof (cases ok)
        case False
        then have "t = u2" "res = Inr ()" using returns(2) True u1(1) u2(1) by (simp_all add: Let_def hret_def)
        then show ?thesis using run u2(2,3) u all_read_cong [OF u2(2,3)] by (auto intro: loop_ok_last)
      next
        case ok: True
        let ?u3 = "u2\<lparr>ss_slept := ss_slept u2 @ [backoff_sec * 2 ^ (attempt - 1)]\<rparr>"
        have next_run: "attempt_loop E dry_run argv budget deadline backoff_sec n (Suc attempt) ?u3 = (res, t)"
          using returns(2) True u1(1) u2(1) ok by (simp add: Let_def hmodify_def hbind_def)
        have u3: "all_read E ?u3" "ss_runs ?u3 = ss_runs s @ [run]" using u u2(2,3) run(1) by (simp_all add: all_read_def)
        show ?thesis using Suc.IH [OF next_run u3(1)] runs_added_step [OF u3(2) run(2,3)] run(4) True by (simp add: loop_ok_def)
      qed
    qed
  qed
qed

text \<open>The check adds at most one run, which is not a synchronisation.\<close>

definition is_check :: "rclone_run \<Rightarrow> bool" where
  "is_check r = (rn_argv r ! 1 = ''check'')"

lemma check_phase_runs:
  assumes "check_phase E c rclone_bin budget deadline r s = (res, t)" "0 < budget \<or> deadline = None"
  shows "\<exists>new. ss_runs t = ss_runs s @ new \<and> length new \<le> 1 \<and> list_all (\<lambda>r. is_check r \<and> timeout_ok E budget deadline r) new \<and>
    ss_reads t = ss_reads s \<and> ss_events t = ss_events s \<and>
    (case res of Inr q \<Rightarrow> sr_events q = sr_events r \<and> sr_corpus_changed q = sr_corpus_changed r | Inl _ \<Rightarrow> True)"
  using assms
  by (auto simp: check_phase_def run_post_sync_check_def monotonic_def sync_emit_def build_check_argv_def is_check_def timeout_ok_def
      hbind_def handler_simps Let_def split: if_splits option.splits proc.splits)

lemma finish_runs:
  assumes "finish_run E c dry_run rclone_bin budget deadline s = (res, t)" "0 < budget \<or> deadline = None"
  shows "\<exists>new. ss_runs t = ss_runs s @ new \<and> length new \<le> 1 \<and> list_all (\<lambda>r. is_check r \<and> timeout_ok E budget deadline r) new \<and>
    ss_reads t = ss_reads s \<and> ss_events t = ss_events s \<and>
    (case res of Inr q \<Rightarrow> sr_corpus_changed q = corpus_changed (hash_changed_files (en_realpath E) (en_sha E) (text_of (rc_local_path c)) (map snd (ss_events s))) | Inl _ \<Rightarrow> True)"
proof (cases "ss_completed s")
  case None
  then show ?thesis using assms(1) by (auto simp: finish_run_def handler_simps)
next
  case (Some p)
  obtain q where q: "finish_run E c dry_run rclone_bin budget deadline s =
      hbind (check_phase E c rclone_bin budget deadline q) (\<lambda>r. hbind (sync_emit_files dry_run (sr_events r)) (\<lambda>_. hret r)) s"
    and changed: "sr_corpus_changed q = corpus_changed (hash_changed_files (en_realpath E) (en_sha E) (text_of (rc_local_path c)) (map snd (ss_events s)))"
    using Some by (cases p) (auto simp: finish_run_def Let_def)
  from assms(1) [unfolded q] show ?thesis
  proof (cases rule: hbind_cases)
    case (raises e)
    then show ?thesis using check_phase_runs [OF raises(1) assms(2)] by auto
  next
    case (returns r u)
    have "ss_runs t = ss_runs u" "ss_reads t = ss_reads u" "ss_events t = ss_events u" "res = Inr r"
      using returns(2) by (auto simp: sync_emit_files_def hbind_def handler_simps split: if_splits)
    then show ?thesis using check_phase_runs [OF returns(1) assms(2)] changed by auto
  qed
qed

text \<open>All runs of a synchronisation, and the readings of their logs: reading number \<open>i\<close> found the output of run number \<open>i\<close>.\<close>

definition all_runs_ok :: "sync_env \<Rightarrow> str list \<Rightarrow> rat \<Rightarrow> rat option \<Rightarrow> nat \<Rightarrow> sync_state \<Rightarrow> bool" where
  "all_runs_ok E argv budget deadline n t = (\<exists>syncs checks. ss_runs t = syncs @ checks \<and> length syncs \<le> n \<and> length checks \<le> 1 \<and>
     list_all (\<lambda>r. rn_argv r = argv \<and> timeout_ok E budget deadline r) syncs \<and> list_all (\<lambda>r. is_check r \<and> timeout_ok E budget deadline r) checks \<and>
     (\<forall>i. Suc i < length syncs \<longrightarrow> (\<exists>err. en_proc E i = Finished RCLONE_TRANSIENT_EXIT err)) \<and>
     take (length syncs) (ss_reads t) = map (run_log E) [0..<length syncs])"

lemma all_runs:
  assumes "runs_added E argv budget deadline n s u" "all_read E u" "finish_run E c dry_run rclone_bin budget deadline u = (res, t)"
    "0 < budget \<or> deadline = None" "ss_runs s = []"
  shows "all_runs_ok E argv budget deadline n t"
proof -
  obtain checks where "ss_runs t = ss_runs u @ checks" "length checks \<le> 1" "list_all (\<lambda>r. is_check r \<and> timeout_ok E budget deadline r) checks"
    "ss_reads t = ss_reads u" using finish_runs [OF assms(3,4)] by blast
  then show ?thesis unfolding all_runs_ok_def using assms(1,2,5)
    by (intro exI [of _ "ss_runs u"] exI [of _ checks]) (auto simp: runs_added_def all_read_def)
qed

text \<open>A further reading keeps this, and the reading of the last run's log completes it.\<close>

lemma all_runs_read:
  assumes "all_runs_ok E argv b d n s" "ss_runs t = ss_runs s" "ss_reads t = ss_reads s @ more_reads"
  shows "all_runs_ok E argv b d n t"
proof -
  obtain syncs checks where f: "ss_runs s = syncs @ checks" "length syncs \<le> n" "length checks \<le> 1"
     "list_all (\<lambda>r. rn_argv r = argv \<and> timeout_ok E b d r) syncs" "list_all (\<lambda>r. is_check r \<and> timeout_ok E b d r) checks"
     "\<forall>i. Suc i < length syncs \<longrightarrow> (\<exists>err. en_proc E i = Finished RCLONE_TRANSIENT_EXIT err)"
     and reads: "take (length syncs) (ss_reads s) = map (run_log E) [0..<length syncs]"
    using assms(1) unfolding all_runs_ok_def by blast
  from arg_cong [OF reads, of length] have "length syncs \<le> length (ss_reads s)" by simp
  then have "take (length syncs) (ss_reads t) = map (run_log E) [0..<length syncs]" using reads assms(3) by simp
  then show ?thesis unfolding all_runs_ok_def using f assms(2) by (intro exI [of _ syncs] exI [of _ checks]) simp
qed

lemma all_runs_alone:
  assumes "runs_added E argv budget deadline n s u" "ss_runs s = []" "all_read E u \<or> last_unread E u"
    "ss_runs t = ss_runs u" "ss_reads t = ss_reads u @ [log_seen (en_fault E (length (ss_reads u))) (ss_log u)]"
  shows "all_runs_ok E argv budget deadline n t"
  unfolding all_runs_ok_def using assms
  by (intro exI [of _ "ss_runs u"] exI [of _ "[]"]) (auto simp: runs_added_def all_read_def last_unread_def run_log_def)

text \<open>The handler of exceptions reads the log once more.\<close>

lemma on_failure_runs:
  "on_failure E dry_run e s = (res, t) \<Longrightarrow>
   ss_runs t = ss_runs s \<and> ss_reads t = ss_reads s @ [log_seen (en_fault E (length (ss_reads s))) (ss_log s)]"
  by (auto simp: on_failure_def harvest_tail_def read_log_def store_events_def sync_emit_def hcatch_def hbind_def handler_simps Let_def
      split: sum.splits prod.splits if_splits)

text \<open>The body of the \<open>try\<close>, with the budget and the deadline: it raises in the loop, or every log was read.\<close>

lemma guarded_runs:
  assumes "guarded E c dry_run argv rclone_bin s = (res, t)" "retries_of (rc_sync_retries c) = Some n"
    "ss_runs s = []" "ss_reads s = []" "ss_clock s = 0"
  defines "b \<equiv> oget (py_num (rc_sync_timeout_sec c)) 0"
  defines "d \<equiv> if 0 < b then Some (en_mono E 0 + b) else None"
  obtains e s1 where "res = Inl e" "ss_runs s1 = []" "runs_added E argv b d (Suc n) s1 t" "all_read E t \<or> last_unread E t"
  | "all_runs_ok E argv b d (Suc n) t"
proof -
  define s1 where "s1 = (if 0 < b then s\<lparr>ss_clock := 1\<rparr> else s)"
  have s1: "ss_runs s1 = []" "all_read E s1" using assms(3,4) by (simp_all add: s1_def all_read_def)
  obtain q u where q: "attempt_loop E dry_run argv b d (oget (py_num (rc_retry_backoff_sec c)) 0) n 1 s1 = (q, u)" by force
  have bd: "0 < b \<or> d = None" by (simp add: d_def)
  note loop = loop_runs [OF q bd s1(2), unfolded loop_ok_def]
  have all: "attempt_all E c dry_run argv rclone_bin s =
      (case q of Inl e \<Rightarrow> (Inl e, u) | Inr _ \<Rightarrow> finish_run E c dry_run rclone_bin b d u)"
    using q assms(2,5) by (simp add: attempt_all_def b_def [symmetric] s1_def d_def hbind_def monotonic_def handler_simps split: sum.split if_splits)
  show ?thesis
  proof (cases q)
    case (Inl e)
    then have "res = Inl e" "t = u" using assms(1) all by (simp_all add: guarded_def)
    then show ?thesis using that(1) [OF _ s1(1)] loop Inl by simp
  next
    case (Inr x)
    obtain f v where f: "finish_run E c dry_run rclone_bin b d u = (f, v)" by force
    have ok: "all_runs_ok E argv b d (Suc n) v" using all_runs [OF _ _ f bd s1(1)] loop Inr by simp
    have "attempt_all E c dry_run argv rclone_bin s = (f, v)" using all Inr f by simp
    then have "ss_runs t = ss_runs v" "ss_reads t = ss_reads v @ []"
      using assms(1) by (cases f; auto simp: guarded_def hbind_def sync_emit_def handler_simps split: if_splits)+
    then show ?thesis using that(2) all_runs_read [OF ok] by simp
  qed
qed

definition sync_fresh :: "sync_state \<Rightarrow> bool" where
  "sync_fresh s = (ss_runs s = [] \<and> ss_reads s = [] \<and> ss_clock s = 0 \<and> ss_events s = [])"

text \<open>
  C23: The time under the lock and the retries are bounded, and every run is accounted for. There are at most one more synchronisation runs
  than retries and one check, and a run is repeated only after exit code 5. If the budget is positive, every run of rclone, also that of the
  integrity check, gets a positive timeout that ends within the budget after the first reading of the clock; if it is not, no run has a timeout.
  For each synchronisation run, also one that raises, the log is read after that run and before the next: the reading finds exactly the
  lines that this run wrote, not those of an earlier run or of an earlier synchronisation (unless the file was taken away or cannot be read).
\<close>

theorem sync_runs_bounded:
  assumes "run_sync_locked E c dry_run resync rclone_bin s = (res, t)" "sync_fresh s"
    and "retries_of (rc_sync_retries c) = Some n" "py_num (rc_sync_timeout_sec c) = Some b"
  shows "all_runs_ok E (sync_argv (en_fmt E) c dry_run resync rclone_bin) b (if 0 < b then Some (en_mono E 0 + b) else None) (Suc n) t"
proof -
  let ?argv = "sync_argv (en_fmt E) c dry_run resync rclone_bin" and ?d = "if 0 < b then Some (en_mono E 0 + b) else None"
  obtain w s1 where w: "write_filter E c s = (w, s1)" by force
  then have s1: "ss_runs s1 = []" "ss_reads s1 = []" "ss_clock s1 = 0"
    using assms(2) by (auto simp: write_filter_def sync_fresh_def handler_simps split: option.splits if_splits)
  show ?thesis
  proof (cases w)
    case (Inl e)
    then have "t = s1" using assms(1) w by (simp add: run_sync_locked_def)
    then show ?thesis using s1 by (simp add: all_runs_ok_def)
  next
    case (Inr x)
    let ?s2 = "snd (sync_emit dry_run SyncStarted s1)"
    have s2: "ss_runs ?s2 = []" "ss_reads ?s2 = []" "ss_clock ?s2 = 0" using s1 by (simp_all add: sync_emit_def handler_simps)
    obtain g u where g: "guarded E c dry_run ?argv rclone_bin ?s2 = (g, u)" by force
    have b: "oget (py_num (rc_sync_timeout_sec c)) 0 = b" using assms(4) by (simp add: oget_def)
    have res: "(res, t) = (case g of Inr r \<Rightarrow> (Inr r, u) | Inl e \<Rightarrow> on_failure E dry_run e u)"
      using assms(1) w Inr g by (simp add: run_sync_locked_def split: sum.splits)
    from g assms(3) s2 show ?thesis
    proof (cases rule: guarded_runs)
      case (1 e v)
      then have "on_failure E dry_run e u = (res, t)" using res by simp
      note h = on_failure_runs [OF this]
      show ?thesis using all_runs_alone [OF 1(3,2,4) conjunct1 [OF h] conjunct2 [OF h]] by (simp only: b)
    next
      case 2
      have "\<exists>more_reads. ss_runs t = ss_runs u \<and> ss_reads t = ss_reads u @ more_reads"
        using res on_failure_runs [of E dry_run _ u res t] by (cases g) auto
      then show ?thesis using all_runs_read [OF 2 [unfolded b]] by blast
    qed
  qed
qed

section \<open>Evidence\<close>

text \<open>The paths that a log shows.\<close>

definition log_paths :: "log_read \<Rightarrow> str set" where
  "log_paths r = (case parse_log r of Inl _ \<Rightarrow> {} | Inr (es, _) \<Rightarrow> fe_path ` set es)"

definition by_path :: "(str \<times> file_event) list \<Rightarrow> bool" where
  "by_path m = (\<forall>k e. (k, e) \<in> set m \<longrightarrow> fe_path e = k)"

definition harvested :: "sync_state \<Rightarrow> bool" where
  "harvested s = (by_path (ss_events s) \<and> fst ` set (ss_events s) = (\<Union>r \<in> set (ss_reads s). log_paths r))"

definition keeps_evidence :: "sync_state \<Rightarrow> sync_state \<Rightarrow> bool" where
  "keeps_evidence s t = (harvested s \<longrightarrow> harvested t)"

interpretation evidence: frame keeps_evidence
  by unfold_locales (auto simp: keeps_evidence_def)

lemma update_by_path: "by_path m \<Longrightarrow> by_path (AList.update (fe_path e) e m)"
  unfolding by_path_def by (induction m) (auto split: if_splits)

lemma store_by_path:
  "by_path m \<Longrightarrow> by_path (foldl (\<lambda>m e. AList.update (fe_path e) e m) m es) \<and>
     fst ` set (foldl (\<lambda>m e. AList.update (fe_path e) e m) m es) = fst ` set m \<union> fe_path ` set es"
  by (induction es arbitrary: m) (auto simp: update_by_path dom_update)

lemma evidence_store:
  assumes "harvested s" "parse_log seen = Inr (es, errs)"
    "ss_events t = foldl (\<lambda>m e. AList.update (fe_path e) e m) (ss_events s) es" "ss_reads t = ss_reads s @ [seen]"
  shows "harvested t"
  using assms store_by_path [of "ss_events s" es] by (auto simp: harvested_def log_paths_def)

lemma evidence_unread:
  assumes "harvested s" "parse_log seen = Inl e" "ss_events t = ss_events s" "ss_reads t = ss_reads s @ [seen]"
  shows "harvested t"
  using assms by (simp add: harvested_def log_paths_def)

lemma evidence_same: "ss_events t = ss_events s \<Longrightarrow> ss_reads t = ss_reads s \<Longrightarrow> keeps_evidence s t"
  by (simp add: keeps_evidence_def harvested_def)

lemma evidence_modify: "(\<And>s. ss_events (f s) = ss_events s) \<Longrightarrow> (\<And>s. ss_reads (f s) = ss_reads s) \<Longrightarrow> keeps keeps_evidence (hmodify f)"
  by (rule evidence.keeps_modify) (simp add: evidence_same)

lemma evidence_emit: "keeps keeps_evidence (sync_emit dry_run a)"
  unfolding sync_emit_def by (auto intro!: evidence.keeps_ret evidence_modify)

lemma evidence_monotonic: "keeps keeps_evidence (monotonic E')"
  by (auto simp: monotonic_def keeps_def intro!: evidence_same)

lemma evidence_run: "keeps keeps_evidence (run_rclone E' argv timeout)"
  by (auto simp: run_rclone_def keeps_def Let_def intro!: evidence_same split: proc.splits)

lemma evidence_read:
  "keeps keeps_evidence (hbind (read_log E) (\<lambda>(events, errors). hbind (hmodify (\<lambda>s. s\<lparr>ss_errors := errors\<rparr>)) (\<lambda>_. hbind (store_events events) (\<lambda>_. hret x))))"
  unfolding keeps_def keeps_evidence_def
  by (auto simp: hbind_def read_log_def store_events_def handler_simps Let_def intro: evidence_store evidence_unread split: sum.splits prod.splits)

lemma evidence_attempt: "keeps keeps_evidence (one_attempt E argv budget deadline)"
  unfolding one_attempt_def run_timeout_def truncate_log_def
  by (auto intro!: evidence.keeps_bind evidence.keeps_basic evidence_modify evidence_monotonic evidence_run evidence_read split: option.split)

lemma evidence_can_wait: "keeps keeps_evidence (can_wait E deadline backoff)"
  unfolding can_wait_def by (auto intro!: evidence.keeps_rules evidence_monotonic split: option.split)

lemma evidence_loop: "keeps keeps_evidence (attempt_loop E dry_run argv budget deadline backoff_sec remaining attempt)"
proof (induction remaining arbitrary: attempt)
  case 0
  show ?case unfolding attempt_loop.simps [of _ _ _ _ _ _ 0] by (auto intro!: evidence.keeps_rules evidence_attempt)
next
  case (Suc n)
  show ?case unfolding attempt_loop.simps [of _ _ _ _ _ _ "Suc n"] Let_def
    by (auto intro!: evidence.keeps_rules evidence_attempt evidence_emit evidence_can_wait evidence_modify Suc)
qed

lemma corpus_changed_paths: "corpus_changed es = (\<exists>p \<in> fe_path ` set es. \<not> is_rclone_internal p)"
  by (auto simp: corpus_changed_def list_ex_iff)

lemma hash_paths: "fe_path ` set (hash_changed_files rp sha lr es) = fe_path ` set es"
proof -
  have "fe_path (hash_event rp sha lr e) = fe_path e" for e by (simp add: hash_event_def Let_def)
  then show ?thesis by (simp add: hash_changed_files_def image_image)
qed

text \<open>Whether any log that was read shows a file that is not rclone's own.\<close>

definition logs_show_change :: "sync_state \<Rightarrow> bool" where
  "logs_show_change t = (\<exists>r \<in> set (ss_reads t). \<exists>p \<in> log_paths r. \<not> is_rclone_internal p)"

lemma harvested_change:
  assumes "harvested s"
  shows "corpus_changed (map snd (ss_events s)) = logs_show_change s"
    "corpus_changed (hash_changed_files rp sha lr (map snd (ss_events s))) = logs_show_change s"
proof -
  have "fe_path (snd x) = fst x" if "x \<in> set (ss_events s)" for x
    using assms that by (cases x) (simp add: harvested_def by_path_def)
  then have "fe_path ` snd ` set (ss_events s) = fst ` set (ss_events s)" by (simp add: image_image)
  then have "fe_path ` set (map snd (ss_events s)) = (\<Union>r \<in> set (ss_reads s). log_paths r)" using assms unfolding harvested_def by simp
  then show "corpus_changed (map snd (ss_events s)) = logs_show_change s"
    "corpus_changed (hash_changed_files rp sha lr (map snd (ss_events s))) = logs_show_change s"
    unfolding corpus_changed_paths hash_paths logs_show_change_def by auto
qed

lemma evidence_finish:
  assumes "finish_run E c dry_run rclone_bin budget deadline s = (res, t)" "0 < budget \<or> deadline = None" "harvested s"
  shows "harvested t \<and> (case res of Inr q \<Rightarrow> sr_corpus_changed q = logs_show_change t | Inl _ \<Rightarrow> True)"
proof -
  from finish_runs [OF assms(1,2)] have same: "ss_reads t = ss_reads s" "ss_events t = ss_events s" by blast+
  then have "harvested t" "logs_show_change t = logs_show_change s" using assms(3) by (simp_all add: harvested_def logs_show_change_def)
  then show ?thesis using finish_runs [OF assms(1,2)] harvested_change(2) [OF assms(3)] by (auto split: sum.splits)
qed

lemma evidence_attempt_all:
  assumes "attempt_all E c dry_run argv rclone_bin s = (res, t)" "harvested s"
  shows "harvested t \<and> (case res of Inr q \<Rightarrow> sr_corpus_changed q = logs_show_change t | Inl _ \<Rightarrow> True)"
proof -
  define b where "b = oget (py_num (rc_sync_timeout_sec c)) 0"
  obtain d s1 where s1: "(if 0 < b then hbind (monotonic E) (\<lambda>now. hret (Some (now + b))) else hret None) s = (Inr d, s1)"
    "0 < b \<or> d = None" "harvested s1"
    using assms(2) by (cases "0 < b") (auto simp: hbind_def monotonic_def handler_simps harvested_def)
  show ?thesis
  proof (cases "retries_of (rc_sync_retries c)")
    case None
    then show ?thesis using assms(1) s1 by (auto simp: attempt_all_def b_def [symmetric] hraise_def)
  next
    case (Some n)
    from assms(1) have "hbind (attempt_loop E dry_run argv b d (oget (py_num (rc_retry_backoff_sec c)) 0) n 1) (\<lambda>_.
        finish_run E c dry_run rclone_bin b d) s1 = (res, t)" using s1(1) Some by (simp add: attempt_all_def b_def [symmetric])
    then show ?thesis
    proof (cases rule: hbind_cases)
      case (raises e)
      then show ?thesis using keepsD [OF evidence_loop raises(1)] s1(3) by (simp add: keeps_evidence_def)
    next
      case (returns x u)
      then show ?thesis using keepsD [OF evidence_loop returns(1)] s1(3) evidence_finish [OF returns(2) s1(2)] by (simp add: keeps_evidence_def)
    qed
  qed
qed

lemma evidence_tail: "harvested s \<Longrightarrow> harvested (snd (harvest_tail E s))"
  by (auto simp: harvest_tail_def hcatch_def hbind_def read_log_def store_events_def handler_simps Let_def
      intro: evidence_store evidence_unread split: sum.splits prod.splits)

text \<open>
  C22: Evidence of changes is never lost. Whether the corpus changed, as reported in the result or attached to the exception, holds exactly if some
  log that was read shows a file that is not one of rclone's own: a change that an early attempt made is reported even if later
  attempts log nothing, time out or raise.
\<close>

theorem sync_evidence_kept:
  assumes "run_sync_locked E c dry_run resync rclone_bin s = (res, t)" "sync_fresh s"
  shows "case res of Inr r \<Rightarrow> sr_corpus_changed r = logs_show_change t
    | Inl (e, detail) \<Rightarrow> (case detail of None \<Rightarrow> True | Some changed \<Rightarrow> changed = logs_show_change t)"
proof -
  obtain w s1 where w: "write_filter E c s = (w, s1)" by force
  then have s1: "harvested s1"
    using assms(2) by (auto simp: write_filter_def sync_fresh_def harvested_def by_path_def handler_simps split: option.splits if_splits)
  show ?thesis
  proof (cases w)
    case (Inl e)
    then show ?thesis using assms(1) w by (auto simp: run_sync_locked_def)
  next
    case (Inr x)
    let ?s2 = "snd (sync_emit dry_run SyncStarted s1)" and ?argv = "sync_argv (en_fmt E) c dry_run resync rclone_bin"
    have s2: "harvested ?s2" using s1 by (simp add: sync_emit_def handler_simps harvested_def)
    obtain g u where g: "attempt_all E c dry_run ?argv rclone_bin ?s2 = (g, u)" by force
    note ev = evidence_attempt_all [OF g s2]
    show ?thesis
    proof (cases g)
      case (Inl e)
      then have "on_failure E dry_run e u = (res, t)" using assms(1) w Inr g by (simp add: run_sync_locked_def guarded_def)
      moreover have "logs_show_change (snd (sync_emit dry_run a v)) = logs_show_change v" for a v
        by (simp add: logs_show_change_def sync_emit_def handler_simps)
      ultimately show ?thesis using harvested_change(1) [OF evidence_tail, of u E] ev
        by (auto simp: on_failure_def failure_summary_def Let_def)
    next
      case Inr': (Inr r)
      then have "res = Inr r" "t = snd (sync_emit dry_run (last_row r) u)"
        using assms(1) w Inr g by (auto simp: run_sync_locked_def guarded_def hbind_def sync_emit_def handler_simps split: if_splits)
      then show ?thesis using ev Inr' by (simp add: logs_show_change_def sync_emit_def handler_simps)
    qed
  qed
qed

end
