(* ===== verification/Sync_Command.thy ===== *)
theory Sync_Command
  imports Sync_Claims
begin

text \<open>The command line of a loaded configuration, and a run on concrete inputs.\<close>

lemma first_error_None: "first_error es = None \<longleftrightarrow> list_all (\<lambda>e. e = None) es"
  by (induction es rule: first_error.induct) auto

lemma fill_default_paths_fields:
  assumes "fill_default_paths expand state_dir c = Inr d"
  shows "rc_local_path d = rc_local_path c" "rc_remote_name d = rc_remote_name c" "rc_remote_path d = rc_remote_path c"
    "py_strip (text_of (rc_filter_file d)) \<noteq> []"
  using assms by (auto simp: fill_default_paths_def text_of_def split: sum.splits if_splits)

lemma remote_name_head: "remote_name_re s \<Longrightarrow> s \<noteq> []"
  by (auto simp: remote_name_re_def match_dollar_def)

lemma remote_name_parts:
  "remote_name_re s \<Longrightarrow> \<exists>base lf. s = base @ lf \<and> lf \<in> {[], [LF]} \<and> base \<noteq> [] \<and> list_all remote_name_char base"
  unfolding remote_name_re_def match_dollar_def by (metis append_Nil2 append_butlast_last_id insertCI)

lemma name_char_plain: "remote_name_char c \<Longrightarrow> c \<notin> SYNC_METACHARS"
proof -
  have "list_all (\<lambda>x. \<not> remote_name_char x) ('';|&$`<>(){}[]!*?'' @ [CHR 0x22, CHR 0x27, CHR 0x5C, LF, CR, CHR 0x09, CHR '' ''])"
    by code_simp
  then show "remote_name_char c \<Longrightarrow> c \<notin> SYNC_METACHARS" unfolding SYNC_METACHARS_def list_all_iff by auto
qed

lemma colon_plain: "CHR '':'' \<notin> SYNC_METACHARS"
  by (simp add: SYNC_METACHARS_def LF_def CR_def)

text \<open>What the constructor guarantees.\<close>

lemma post_init_facts:
  assumes "sync_post_init H c0 = Inr c"
  shows "(\<exists>p. rc_local_path c = PStr (path_text p) \<and> inside (sh_corpus_root H) p) \<and>
    (\<exists>s. rc_remote_name c = PStr s \<and> \<not> py_startswith s ''-'' \<and> remote_name_re s) \<and>
    (\<exists>s. rc_remote_path c = PStr s \<and> list_all (\<lambda>x. x \<notin> SYNC_METACHARS) s) \<and>
    py_strip (text_of (rc_filter_file c)) \<noteq> []"
proof -
  obtain lp bw where l: "validate_local_path (sh_resolve H) (sh_corpus_root H) (rc_local_path c0) = Inr lp"
    and e: "first_error (early_checks c0) = None"
    and f: "fill_default_paths (sh_expand H) (sh_state_dir H) (c0\<lparr>rc_local_path := lp, rc_bwlimit := bw\<rparr>) = Inr c"
    using assms by (auto simp: sync_post_init_def split: sum.splits option.splits)
  note c = fill_default_paths_fields [OF f]
  have "\<exists>p. lp = PStr (path_text p) \<and> inside (sh_corpus_root H) p"
    using l by (auto simp: validate_local_path_def split: if_splits pyval.splits)
  moreover have "\<exists>s. rc_remote_name c0 = PStr s \<and> \<not> py_startswith s ''-'' \<and> remote_name_re s"
    using e by (auto simp: first_error_None early_checks_def check_remote_name_def split: pyval.splits if_splits)
  moreover have "\<exists>s. rc_remote_path c0 = PStr s \<and> list_all (\<lambda>x. x \<notin> SYNC_METACHARS) s"
    using e by (auto simp: first_error_None early_checks_def check_remote_path_def list_ex_iff list_all_iff split: pyval.splits if_splits)
  ultimately show ?thesis using c by simp
qed

text \<open>
  C20: The command line is confined. A configuration that loads gives rclone the corpus directory or a directory inside it as its local side, the
  generated filter file, and a remote that cannot be read as an option: a non-empty name of letters, digits and \<open>_.-\<close>, a colon, and a path
  with no character that a shell interprets. The only other character that can be in the remote is one line feed at the end of the name.
\<close>

theorem sync_command_confined:
  assumes "load_sync_config H v = Inr (c, enabled)"
  shows "\<exists>p pre post. sync_argv fmt c dry_run resync rclone_bin =
      [rclone_bin, if rc_direction c = PStr ''bisync'' then ''bisync'' else ''copy'', remote c, path_text p] @ pre @
      [''--filter-from'', text_of (rc_filter_file c)] @ post \<and>
    inside (sh_corpus_root H) p \<and> py_strip (text_of (rc_filter_file c)) \<noteq> [] \<and>
    \<not> py_startswith (remote c) ''-'' \<and>
    (\<exists>name lf path. remote c = name @ lf @ '':'' @ path \<and> lf \<in> {[], [LF]} \<and> name \<noteq> [] \<and> list_all remote_name_char name \<and>
      list_all (\<lambda>x. x \<notin> SYNC_METACHARS) (name @ '':'' @ path))"
proof -
  obtain b where "sync_post_init H (config_of b) = Inr c"
    using assms by (auto simp: load_sync_config_def load_block_def Let_def split: option.splits pyval.splits if_splits sum.splits)
  from post_init_facts [OF this] obtain p name path where f: "rc_local_path c = PStr (path_text p)" "inside (sh_corpus_root H) p"
    "rc_remote_name c = PStr name" "\<not> py_startswith name ''-''" "remote_name_re name" "rc_remote_path c = PStr path"
    "list_all (\<lambda>x. x \<notin> SYNC_METACHARS) path" "py_strip (text_of (rc_filter_file c)) \<noteq> []" by blast
  have "\<not> py_startswith (remote c) ''-''"
    using f(3,4) remote_name_head [OF f(5)] by (cases name) (auto simp: remote_def text_of_def py_startswith_def)
  moreover have "\<exists>pre post. sync_argv fmt c dry_run resync rclone_bin =
      [rclone_bin, if rc_direction c = PStr ''bisync'' then ''bisync'' else ''copy'', remote c, path_text p] @ pre @
      [''--filter-from'', text_of (rc_filter_file c)] @ post"
  proof (cases "rc_direction c = PStr ''bisync''")
    case True
    then show ?thesis
      by - (rule exI [of _ "[''--conflict-resolve='' @ text_of (rc_conflict_resolve c), ''--conflict-loser='' @ to_str fmt (rc_conflict_loser c),
          ''--workdir'', text_of (rc_workdir c), ''--max-delete='' @ to_str fmt (rc_max_delete c)]"],
        simp add: sync_argv_def build_bisync_argv_def common_args_def f(1) text_of_def [of "PStr _"])
  next
    case False
    then show ?thesis
      by - (rule exI [of _ "[]"], simp add: sync_argv_def build_pull_argv_def common_args_def f(1) text_of_def [of "PStr _"])
  qed
  moreover have "\<exists>name lf path. remote c = name @ lf @ '':'' @ path \<and> lf \<in> {[], [LF]} \<and> name \<noteq> [] \<and> list_all remote_name_char name \<and>
      list_all (\<lambda>x. x \<notin> SYNC_METACHARS) (name @ '':'' @ path)"
  proof -
    obtain base lf where base: "name = base @ lf" "lf \<in> {[], [LF]}" "base \<noteq> []" "list_all remote_name_char base"
      using remote_name_parts [OF f(5)] by blast
    then have "list_all (\<lambda>x. x \<notin> SYNC_METACHARS) (base @ '':'' @ path)" using name_char_plain colon_plain f(7) by (auto simp: list_all_iff)
    moreover have "remote c = base @ lf @ '':'' @ path" using f(3,6) base(1) by (simp add: remote_def text_of_def)
    ultimately show ?thesis using base(2-4) by blast
  qed
  ultimately show ?thesis using f(2,8) by blast
qed

definition demo_yaml :: pyval where
  "demo_yaml = PDict [(''sync'', PDict (demo_block @ [(''sync_retries'', PInt 1), (''sync_timeout_sec'', PInt 60)]))]"

theorem sync_command_confined_witness:
  "\<exists>c p pre post. sync_argv (\<lambda>_. []) c False False ''/usr/bin/rclone'' =
      [''/usr/bin/rclone'', ''copy'', ''dropbox_cyclaw:CyClaw/corpus'', path_text p] @ pre @ [''--filter-from'', text_of (rc_filter_file c)] @ post \<and>
    inside [''repo'', ''data'', ''corpus''] p"
proof -
  have ok: "case load_sync_config demo_host (Some demo_yaml) of Inl _ \<Rightarrow> False
     | Inr (c, _) \<Rightarrow> rc_direction c = PStr ''pull'' \<and> remote c = ''dropbox_cyclaw:CyClaw/corpus''" by code_simp
  then obtain c en where c: "load_sync_config demo_host (Some demo_yaml) = Inr (c, en)" "rc_direction c = PStr ''pull''" "remote c = ''dropbox_cyclaw:CyClaw/corpus''"
    by (auto split: sum.splits)
  have "sh_corpus_root demo_host = [''repo'', ''data'', ''corpus'']" by (simp add: demo_host_def)
  then show ?thesis using sync_command_confined [OF c(1), of "\<lambda>_. []" False False "''/usr/bin/rclone''"] c(2,3) by auto
qed

text \<open>The remote name may end in a line feed: \<open>$\<close> matches before it.\<close>

lemma remote_name_with_newline: "check_remote_name (PStr (''dropbox'' @ [LF])) = None"
  by code_simp

text \<open>A number as bandwidth limit raises an \<open>AttributeError\<close>, which the loader lets through.\<close>

lemma numeric_bwlimit_escapes:
  "load_sync_config demo_host (Some (PDict [(''sync'', PDict (demo_block @ [(''bwlimit'', PInt 8)]))])) = Inl (SyncAttributeError ''bwlimit'')"
  by code_simp

section \<open>A run\<close>

text \<open>The first attempt copies a file and fails transiently, the second hangs.\<close>

definition demo_env :: sync_env where
  "demo_env = \<lparr>en_fmt = (\<lambda>_. []), en_mono = rat_of_nat, en_proc = (\<lambda>n. if n = 0 then Finished 5 [] else TimedOut), en_check = TimedOut,
     en_output = (\<lambda>n. if n = 0 then ['':a:Copied(new)''] else []), en_fault = (\<lambda>_. Intact), en_truncates = (\<lambda>_. True),
     en_writes_filter = True, en_realpath = (\<lambda>_. []), en_sha = (\<lambda>_. None)\<rparr>"

definition demo_state :: sync_state where
  "demo_state = \<lparr>ss_audit = [], ss_runs = [], ss_clock = 0, ss_log = None, ss_reads = [], ss_slept = [], ss_completed = None, ss_events = [], ss_errors = [], ss_filter = None\<rparr>"

definition demo_config :: rclone_config where
  "demo_config = config_of (demo_block @ [(''sync_retries'', PInt 1), (''sync_timeout_sec'', PInt 60), (''retry_backoff_sec'', PInt 1)])"

definition demo_run :: "((sync_exc \<times> bool option) + sync_result) \<times> sync_state" where
  "demo_run = run_sync_locked demo_env demo_config False False ''/usr/bin/rclone'' demo_state"

text \<open>The run after the filter file is written, whatever its text and the command line are.\<close>

definition demo_rest :: "str \<Rightarrow> str list \<Rightarrow> ((sync_exc \<times> bool option) + sync_result) \<times> sync_state" where
  "demo_rest x argv = (case guarded demo_env demo_config False argv ''/usr/bin/rclone'' (snd (sync_emit False SyncStarted (demo_state\<lparr>ss_filter := Some x\<rparr>))) of
     (Inr r, s) \<Rightarrow> (Inr r, s) | (Inl e, s) \<Rightarrow> on_failure demo_env False e s)"

lemma demo_rest_facts:
  "case demo_rest x argv of (res, s) \<Rightarrow> res = Inl (SyncRuntimeError ''timed out'', Some True) \<and> length (ss_reads s) = 2 \<and> length (ss_runs s) = 2"
  by code_simp

lemma demo_outcome:
  "fst demo_run = Inl (SyncRuntimeError ''timed out'', Some True)" "length (ss_reads (snd demo_run)) = 2" "length (ss_runs (snd demo_run)) = 2"
proof -
  have "generate_filters demo_config \<noteq> None" by code_simp
  then obtain x where "generate_filters demo_config = Some x" by blast
  moreover have "en_writes_filter demo_env" by (simp add: demo_env_def)
  ultimately have "write_filter demo_env demo_config demo_state = (Inr (), demo_state\<lparr>ss_filter := Some x\<rparr>)"
    by (simp add: write_filter_def hmodify_def)
  then have run: "demo_run = demo_rest x (sync_argv (en_fmt demo_env) demo_config False False ''/usr/bin/rclone'')"
    by (simp add: demo_run_def run_sync_locked_def demo_rest_def)
  note facts = demo_rest_facts [of x "sync_argv (en_fmt demo_env) demo_config False False ''/usr/bin/rclone''", folded run]
  show "fst demo_run = Inl (SyncRuntimeError ''timed out'', Some True)" using facts by (simp add: case_prod_beta)
  show "length (ss_reads (snd demo_run)) = 2" using facts by (simp add: case_prod_beta)
  show "length (ss_runs (snd demo_run)) = 2" using facts by (simp add: case_prod_beta)
qed

lemma demo_run_eq: "run_sync_locked demo_env demo_config False False ''/usr/bin/rclone'' demo_state = (fst demo_run, snd demo_run)"
  by (simp add: demo_run_def)

lemma demo_state_fresh: "sync_fresh demo_state"
  by (simp add: sync_fresh_def demo_state_def)

text \<open>If the log of an earlier synchronisation cannot be cleared, rclone is not started, and still the handler reads that log and reports its
  changes as those of this synchronisation.\<close>

lemma stale_log_reported:
  "case guarded (demo_env\<lparr>en_truncates := \<lambda>_. False\<rparr>) demo_config False argv ''/usr/bin/rclone'' (demo_state\<lparr>ss_log := Some ['':a:Copied(new)'']\<rparr>) of
     (Inr r, s) \<Rightarrow> False
   | (Inl e, s) \<Rightarrow> ss_runs s = [] \<and> fst (on_failure demo_env False e s) = Inl (SyncRuntimeError ''could not clear previous rclone log'', Some True)"
  by code_simp

theorem sync_audit_converges_witness:
  "\<exists>rows a. ss_audit (snd demo_run) = [SyncStarted] @ rows @ [a] \<and> list_all inner_row rows \<and> ends_with (fst demo_run) a"
  using sync_audit_converges [OF demo_run_eq] demo_outcome(1) by (auto simp: demo_state_def)

theorem sync_evidence_kept_witness:
  "fst demo_run = Inl (SyncRuntimeError ''timed out'', Some True) \<and> logs_show_change (snd demo_run)"
  using sync_evidence_kept [OF demo_run_eq demo_state_fresh] demo_outcome(1) by simp

theorem sync_runs_bounded_witness:
  "length (ss_runs (snd demo_run)) = 2 \<and>
   all_runs_ok demo_env (sync_argv (en_fmt demo_env) demo_config False False ''/usr/bin/rclone'') 60 (Some 60) 2 (snd demo_run)"
proof -
  have "retries_of (rc_sync_retries demo_config) = Some 1" "py_num (rc_sync_timeout_sec demo_config) = Some 60" by code_simp+
  from sync_runs_bounded [OF demo_run_eq demo_state_fresh this] demo_outcome(3) show ?thesis
    by (simp add: demo_env_def numeral_2_eq_2)
qed

end
