(* ===== verification/Sync_Lock.thy ===== *)
theory Sync_Lock
  imports Sync_Claims
begin

text \<open>
  The single-instance lock of the synchronisation (\<open>sync/runner.py\<close>) and \<open>run_sync\<close>. The state is the lock file as the
  operating system sees it: the open descriptions and the one that holds the exclusive lock, which closing releases; and
  for each process whether its set \<open>_PROCESS_LOCKS\<close> has the path. The guard of that set makes taking and giving back atomic
  within a process.
\<close>

record lock_world =
  lw_owner :: "nat option"
  lw_open :: "nat \<rightharpoonup> nat"
  lw_next :: nat
  lw_busy :: "nat set"

datatype lock_fault = NoFault | OpenFails | LockFails | MetaFails

definition unlock_os_lock :: "nat \<Rightarrow> lock_world \<Rightarrow> lock_world" where
  "unlock_os_lock fd w = w\<lparr>lw_owner := if lw_owner w = Some fd then None else lw_owner w\<rparr>"

definition close_fd :: "nat \<Rightarrow> lock_world \<Rightarrow> lock_world" where
  "close_fd fd w = (unlock_os_lock fd w)\<lparr>lw_open := (lw_open w)(fd := None)\<rparr>"

text \<open>The outcome and the state; the fault is the system call that fails.\<close>

definition acquire_sync_lock :: "lock_fault \<Rightarrow> nat \<Rightarrow> lock_world \<Rightarrow> (sync_exc + nat) \<times> lock_world" where
  "acquire_sync_lock f pid w =
     (if pid \<in> lw_busy w then (Inl (SyncRuntimeError ''busy''), w)
      else if f = OpenFails then (Inl (SyncRuntimeError ''open''), w)
      else let fd = lw_next w; w1 = w\<lparr>lw_open := (lw_open w)(fd \<mapsto> pid), lw_next := Suc fd\<rparr> in
        if f = LockFails then (Inl (SyncRuntimeError ''lock''), close_fd fd w1)
        else if lw_owner w1 \<noteq> None then (Inl (SyncRuntimeError ''busy''), close_fd fd w1)
        else let w2 = w1\<lparr>lw_owner := Some fd\<rparr> in
          if f = MetaFails then (Inl (SyncRuntimeError ''metadata''), close_fd fd (unlock_os_lock fd w2))
          else (Inr fd, w2\<lparr>lw_busy := insert pid (lw_busy w2)\<rparr>))"

text \<open>The flag says whether the explicit unlocking fails; the descriptor is closed all the same.\<close>

definition release_sync_lock :: "bool \<Rightarrow> nat \<Rightarrow> nat \<Rightarrow> lock_world \<Rightarrow> lock_world" where
  "release_sync_lock fails pid fd w =
     (close_fd fd (if fails then w else unlock_os_lock fd w))\<lparr>lw_busy := lw_busy w - {pid}\<rparr>"

text \<open>A process ends: its descriptors are closed and its memory is gone. The child that runs rclone does not have the descriptor of the lock
  and is outside of the model: if the process is killed, its child may outlive it for a while.\<close>

definition end_process :: "nat \<Rightarrow> lock_world \<Rightarrow> lock_world" where
  "end_process pid w = w\<lparr>lw_open := (\<lambda>fd. if lw_open w fd = Some pid then None else lw_open w fd),
     lw_owner := (case lw_owner w of None \<Rightarrow> None | Some fd \<Rightarrow> if lw_open w fd = Some pid then None else Some fd),
     lw_busy := lw_busy w - {pid}\<rparr>"

section \<open>Interleavings\<close>

text \<open>The second component is the list of the runs inside the critical section: process and descriptor.\<close>

inductive lock_step :: "lock_world \<times> (nat \<times> nat) list \<Rightarrow> lock_world \<times> (nat \<times> nat) list \<Rightarrow> bool" where
  Enter: "acquire_sync_lock f pid w = (Inr fd, w') \<Longrightarrow> lock_step (w, runs) (w', (pid, fd) # runs)"
| Refused: "acquire_sync_lock f pid w = (Inl e, w') \<Longrightarrow> lock_step (w, runs) (w', runs)"
| Leave: "(pid, fd) \<in> set runs \<Longrightarrow> lock_step (w, runs) (release_sync_lock fails pid fd w, filter (\<lambda>r. r \<noteq> (pid, fd)) runs)"
| Crash: "lock_step (w, runs) (end_process pid w, filter (\<lambda>r. fst r \<noteq> pid) runs)"

inductive_cases lock_stepE: "lock_step x y"

definition lock_init :: "lock_world \<times> (nat \<times> nat) list" where
  "lock_init = (\<lparr>lw_owner = None, lw_open = Map.empty, lw_next = 0, lw_busy = {}\<rparr>, [])"

definition lock_reachable :: "lock_world \<times> (nat \<times> nat) list \<Rightarrow> bool" where
  "lock_reachable = lock_step\<^sup>*\<^sup>* lock_init"

text \<open>The lock file is held exactly by the run in the critical section.\<close>

fun lock_inv :: "lock_world \<times> (nat \<times> nat) list \<Rightarrow> bool" where
  "lock_inv (w, runs) = (case lw_owner w of
     None \<Rightarrow> runs = [] \<and> lw_busy w = {}
   | Some fd \<Rightarrow> \<exists>pid. runs = [(pid, fd)] \<and> lw_open w fd = Some pid \<and> lw_busy w = {pid} \<and> fd < lw_next w)"

lemma enter_inv:
  assumes "acquire_sync_lock f pid w = (Inr fd, w')" "lock_inv (w, runs)"
  shows "lock_inv (w', (pid, fd) # runs)"
proof -
  have "lw_owner w = None" "fd = lw_next w"
    "w' = w\<lparr>lw_open := (lw_open w)(fd \<mapsto> pid), lw_next := Suc fd, lw_owner := Some fd, lw_busy := insert pid (lw_busy w)\<rparr>"
    using assms(1) by (auto simp: acquire_sync_lock_def Let_def split: if_split_asm)
  then show ?thesis using assms(2) by simp
qed

lemma refused_inv:
  assumes "acquire_sync_lock f pid w = (Inl e, w')" "lock_inv (w, runs)"
  shows "lock_inv (w', runs)"
proof -
  have "lw_owner w \<noteq> Some (lw_next w)" using assms(2) by (auto split: option.splits)
  then have same: "lw_owner w' = lw_owner w" "lw_busy w' = lw_busy w" "lw_next w \<le> lw_next w'"
    "\<And>fd. fd < lw_next w \<Longrightarrow> lw_open w' fd = lw_open w fd"
    using assms(1) by (auto simp: acquire_sync_lock_def close_fd_def unlock_os_lock_def Let_def split: if_split_asm)
  show ?thesis
  proof (cases "lw_owner w")
    case (Some fd)
    then obtain p where "runs = [(p, fd)]" "lw_open w fd = Some p" "lw_busy w = {p}" "fd < lw_next w" using assms(2) by auto
    then show ?thesis using same Some by simp
  qed (use assms(2) same in simp)
qed

lemma leave_inv:
  assumes "(pid, fd) \<in> set runs" "lock_inv (w, runs)"
  shows "lock_inv (release_sync_lock fails pid fd w, filter (\<lambda>r. r \<noteq> (pid, fd)) runs)"
  using assms by (auto simp: release_sync_lock_def close_fd_def unlock_os_lock_def split: option.splits)

lemma crash_inv: "lock_inv (w, runs) \<Longrightarrow> lock_inv (end_process pid w, filter (\<lambda>r. fst r \<noteq> pid) runs)"
  by (auto simp: end_process_def split: option.splits)

lemma lock_step_inv: "lock_step x y \<Longrightarrow> lock_inv x \<Longrightarrow> lock_inv y"
  by (induction rule: lock_step.induct) (blast intro: enter_inv refused_inv leave_inv crash_inv)+

lemma lock_reachable_inv: "lock_reachable x \<Longrightarrow> lock_inv x"
  unfolding lock_reachable_def
  by (induction rule: rtranclp_induct) (auto simp: lock_init_def intro: lock_step_inv)

lemma free_lock_taken:
  assumes "lock_inv (w, [])"
  shows "acquire_sync_lock NoFault pid w =
    (Inr (lw_next w), w\<lparr>lw_open := (lw_open w)(lw_next w \<mapsto> pid), lw_next := Suc (lw_next w), lw_owner := Some (lw_next w), lw_busy := {pid}\<rparr>)"
  using assms by (auto simp: acquire_sync_lock_def Let_def split: option.splits)

text \<open>
  C24: One synchronisation at a time. However processes and threads take the lock, fail to, give it back (also when unlocking fails) or crash, at
  most one run is inside the critical section, and whenever none is, the next attempt to enter succeeds: no crash
  leaves a stale lock behind.
\<close>

theorem sync_single_instance:
  assumes "lock_reachable (w, runs)"
  shows "length runs \<le> 1 \<and> (runs \<noteq> [] \<or> (\<exists>w'. acquire_sync_lock NoFault pid w = (Inr (lw_next w), w')))"
proof -
  have inv: "lock_inv (w, runs)" by (rule lock_reachable_inv [OF assms])
  then have "length runs \<le> 1" by (auto split: option.splits)
  moreover have "runs = [] \<Longrightarrow> \<exists>w'. acquire_sync_lock NoFault pid w = (Inr (lw_next w), w')"
    using free_lock_taken inv by blast
  ultimately show ?thesis by blast
qed

theorem sync_single_instance_witness:
  "\<exists>w. lock_reachable (w, []) \<and> lw_next w = 1 \<and> (\<exists>w'. acquire_sync_lock NoFault 8 w = (Inr 1, w'))"
proof -
  let ?w0 = "fst lock_init"
  obtain w1 where w1: "acquire_sync_lock NoFault 7 ?w0 = (Inr 0, w1)" "lw_next w1 = 1"
    by (simp add: acquire_sync_lock_def lock_init_def Let_def)
  have "lock_step (?w0, []) (w1, [(7, 0)])" by (rule Enter [OF w1(1)])
  moreover have "lock_step (w1, [(7, 0)]) (end_process 7 w1, [])" using Crash [of w1 "[(7, 0)]" 7] by simp
  ultimately have r: "lock_reachable (end_process 7 w1, [])"
    unfolding lock_reachable_def by (metis lock_init_def fst_conv r_into_rtranclp rtranclp.rtrancl_into_rtrancl)
  have "lw_next (end_process 7 w1) = 1" using w1(2) by (simp add: end_process_def)
  then show ?thesis using sync_single_instance [OF r, of 8] r by auto
qed

section \<open>The whole run\<close>

record sync_world =
  sw_sync :: sync_state
  sw_lock :: lock_world

text \<open>The binary's output (\<open>check_rclone_version\<close>), whether it is still found, and whether the log directory can be made.\<close>

definition run_sync :: "str option option \<Rightarrow> str option \<Rightarrow> bool \<Rightarrow> lock_fault \<Rightarrow> bool \<Rightarrow> nat \<Rightarrow> sync_env \<Rightarrow> rclone_config \<Rightarrow> bool \<Rightarrow> bool \<Rightarrow>
    sync_world \<Rightarrow> ((sync_exc \<times> bool option) + sync_result) \<times> sync_world" where
  "run_sync found resolved makes_dir f fails pid E c dry_run resync s =
     (case check_rclone_version found of Inl e \<Rightarrow> (Inl (e, None), s) | Inr _ \<Rightarrow>
     (case resolved of None \<Rightarrow> (Inl (RcloneNotInstalledError, None), s) | Some rclone_bin \<Rightarrow>
      if \<not> makes_dir then (Inl (PyOSError, None), s)
      else (case acquire_sync_lock f pid (sw_lock s) of
          (Inl e, w) \<Rightarrow> (Inl (e, None), s\<lparr>sw_lock := w\<rparr>)
        | (Inr fd, w) \<Rightarrow>
            (case run_sync_locked E c dry_run resync rclone_bin (sw_sync s) of
               (res, t) \<Rightarrow> (res, \<lparr>sw_sync = t, sw_lock = release_sync_lock fails pid fd w\<rparr>)))))"

text \<open>A run gives the lock back however it ends, and does nothing if it cannot have it.\<close>

lemma run_sync_lock:
  assumes "run_sync found resolved makes_dir f fails pid E c dry_run resync s = (res, t)" "lock_inv (sw_lock s, runs)"
  shows "lock_inv (sw_lock t, runs) \<and> (runs \<noteq> [] \<longrightarrow> sw_sync t = sw_sync s)"
proof (cases "acquire_sync_lock f pid (sw_lock s)")
  case (Pair q w)
  show ?thesis
  proof (cases q)
    case (Inl e)
    then show ?thesis using assms Pair refused_inv [of f pid "sw_lock s" e w]
      by (auto simp: run_sync_def split: sum.splits option.splits if_splits)
  next
    case (Inr fd)
    have inv: "lock_inv (w, (pid, fd) # runs)" using enter_inv Pair Inr assms(2) by blast
    then have "runs = []" by (auto split: option.splits)
    moreover have "lock_inv (release_sync_lock fails pid fd w, [])" using leave_inv [OF _ inv, of pid fd fails] calculation by simp
    ultimately show ?thesis using assms Pair Inr by (auto simp: run_sync_def split: sum.splits option.splits if_splits prod.splits)
  qed
qed

end
