(* ===== verification/Spec2Isabelle.thy ===== *)
theory Spec2Isabelle
  imports Telegram_Claims Authn_Claims Graph_Claims Memory_Claims Gateway_Query_Claims Gateway_Index
    Fs_Writer_Claims Fs_Descriptor_Claims Fs_Atomic_Claims Fs_Findings Fs_Largest Sequence_Detect Sync_Command Sync_Lock
begin

text \<open>
  A verification of the core of CyClaw (the repository PsyClaw): a local-first question answering
  gateway. A query enters through the HTTP gateway (\<open>gate.py\<close>, \<open>gate_auth.py\<close>), which refuses cross-site requests,
  authenticates the caller (\<open>utils/authn.py\<close>, \<open>utils/authn_manager.py\<close>), limits its rate (\<open>utils/ratelimit.py\<close>) and
  filters its text (\<open>utils/sanitizer.py\<close>); it is then run
  through the query graph (\<open>graph.py\<close>), which retrieves context (\<open>retrieval/\<close>), answers with the local
  model, or, only after the user's confirmation and an operator hook
  (\<open>utils/external_pre_hook.py\<close>), asks an external provider at an allowlisted host
  (\<open>utils/endpoint_trust.py\<close>), and ends in an audit record unless an exception escapes. Facts and proposals to change them live in the memory store
  (\<open>memory/\<close>), from which retrieval also draws. The Telegram connector (\<open>telegram/\<close>) is a client of
  the gateway: it polls for messages of allow-listed chats, forwards them to \<open>/query\<close>, sends the answers back within
  a rate limit of its own, keeps one-time consents for online answers, and stages attachments. The
  filesystem connector (\<open>agentic/fsconnect/\<close>) reads and writes files below configured roots for agents; the corpus is synchronised with a remote by rclone (\<open>sync/\<close>);
  external calls are entered in a ledger (\<open>utils/spend.py\<close>) that is searched together with the audit log for suspicious sequences.

  \<^bold>\<open>Theories and sources.\<close>

  \<^item> \<open>Prelude\<close>: Python values (\<open>pyval\<close>, strings, dictionaries as association lists), shared lemmas.
  \<^item> \<open>Window_Contract\<close>: the locale \<open>sliding_window\<close>, what a rate limiter promises of the times it
    admits; interpreted in \<open>Ratelimit\<close> and \<open>Telegram_Limiter\<close>.
  \<^item> \<open>Ratelimit\<close>: \<open>utils/ratelimit.py\<close>. State: the in-memory windows and the \<open>rate_limits\<close> table.
    Operations: construction and migration, loading, \<open>allow\<close>, the sweep, \<open>retry_after_sec\<close>. Shown: the limit
    in every window over every run, restart transparency, exactness of the retry time, which rows a
    sweep may delete.
  \<^item> \<open>Telegram_Limiter\<close>: \<open>telegram/ratelimit.py\<close>. A step relation over checks, reservations, consumption and
    closing. Shown: the window limit; an open reservation can always be consumed; grants are maximal.
  \<^item> \<open>Py_Codec\<close>: the codecs the authentication code uses (hexadecimal, decimal, UTF-8, splitting), with round trips.
  \<^item> \<open>Authn\<close>: \<open>utils/authn.py\<close>. Password records, their parser and verifier, user name and password
    policy, roles, lockout delays, tokens. Shown: round trip of records and verification, bounded verification work, lockout shape.
  \<^item> \<open>Authn_Manager\<close>: \<open>utils/authn_manager.py\<close> over the tables of \<open>utils/authn_store.py\<close>. Every operation is one
    transaction; \<open>login\<close> is two steps, since the password check runs between two transactions.
  \<^item> \<open>Step_Contract\<close>: the locales \<open>stable\<close> and \<open>revocable\<close>, facts kept by every step of a run;
    \<open>Authn_Safety\<close> interprets them for sessions, tokens, tables, administrators and the bootstrap account, and
    \<open>Authn_Claims\<close> draws the claims over all interleavings.
  \<^item> \<open>Retrieval\<close>: \<open>retrieval/hybrid_search.py\<close>, \<open>stemmer.py\<close>, \<open>results.py\<close>, \<open>memory/flags.py\<close>,
    \<open>memory/retrieval_adapter.py\<close>. Tokenizer, both legs, reciprocal rank fusion, single-leg
    normalisation, memory fusion, degradation. Shown: fusion is correct, agreement dominates, the keyword leg is a top-k, memory never displaces
    corpus hits, a failed leg never fails the query.
  \<^item> \<open>Endpoint_Trust\<close>: \<open>utils/endpoint_trust.py\<close> with the part of \<open>urllib.parse\<close> it relies on.
  \<^item> \<open>Pre_Hook\<close>: \<open>utils/external_pre_hook.py\<close>. Shown: an armed hook fails closed.
  \<^item> \<open>Graph_Prompts\<close>: the context budget, rendering and prompt assembly of \<open>graph.py\<close>. Shown: cited
    sources are what the model saw, caps and budgets hold.
  \<^item> \<open>Graph\<close>: \<open>GraphState\<close> (a record whose optional fields are the absent keys), the nodes, the routers and
    the compiled graph of \<open>build_graph\<close> as the function \<open>invoke\<close>. A node returns the merged state, or
    \<open>None\<close> for an escaping exception, and its effects in order.
  \<^item> \<open>Graph_Claims\<close>: the locale \<open>graph_invariant\<close> (a property kept by every node along every edge holds along
    every run), interpreted for the gates before external calls, for the audit and for the input rail; and
    the non-interference of the personality.

  \<^item> \<open>Sanitizer\<close>: \<open>utils/sanitizer.py\<close>. Shown: the filter is exact up to normalisation.
  \<^item> \<open>Memory_Policy\<close>, \<open>Memory_Store\<close>: \<open>memory/policy.py\<close>, \<open>memory/store.py\<close>: facts, episodes and proposals with the
    triggers of the full-text table. \<open>Memory_Claims\<close> interprets \<open>stable\<close> and \<open>revocable\<close>: the index refines the active facts
    over every run, a proposal is resolved once, an applied addition passed the policy.
  \<^item> \<open>Http\<close>: requests, handlers (a state and exception monad), the same-origin rule of both gateway modules with the origin
    syntax of browsers, loopback peers.
  \<^item> \<open>Gateway\<close>: the guards of \<open>gate.py\<close> that routes share (flags, API key gate, rate limit, body size). \<open>Gateway_Boot\<close>: the wiring of
    dependencies, the probe (a worklist, shown to end), the bind guard, TLS and \<open>main\<close>. \<open>Gateway_Index\<close>: the index build as a step
    relation of requests and workers. \<open>Error_Redaction\<close>: the redaction of error texts.
  \<^item> \<open>Gateway_Auth\<close>: every route of \<open>gate_auth.py\<close>. \<open>Gateway_Auth_Claims\<close>: they follow an access matrix; a request that no
    other one overlaps changes administrators only for an administrator, and a run shows how a concurrent promotion outruns that check.
  \<^item> \<open>Effect\<close>: the state and exception monad of the stateful components, and the locale \<open>frame\<close>: a
    relation between the states before and after that every primitive keeps is kept by everything composed of them, also by an exception.
  \<^item> \<open>Telegram_Config\<close>, \<open>Telegram_State\<close>, \<open>Telegram_Client\<close>, \<open>Telegram_Media\<close>, \<open>Telegram_Channel\<close>: \<open>config.py\<close>,
    \<open>state.py\<close>, \<open>client.py\<close>, \<open>media.py\<close> and \<open>runner.py\<close> of \<open>telegram/\<close>. The world is one record: files, limiter,
    clock, and the replies of the network and the disk still to come, which are arbitrary; every request, audit record and
    staged file is an event of its trace. \<open>Telegram_Client_Claims\<close> shows that a split text is complete and that a send stays within its
    reservation and returns the rest; \<open>Telegram_Claims\<close> interprets \<open>frame\<close> for the trace and the consents: a consent is spent once, every effect is within the
    configuration, a batch acknowledges a prefix of its updates, a new offset is durable.
  \<^item> \<open>Gateway_Query\<close>: \<open>POST /query\<close>. \<open>Gateway_Query_Claims\<close>: the composition of the gateway with limiter, accounts, filter and graph.
  \<^item> \<open>Py_Path\<close>, \<open>Posix\<close>: the lexical paths of Python and the file system calls of the operating system: inodes,
    directories, symbolic links, \<open>openat\<close>, \<open>renameat\<close> and the rest, as functions of a store.
  \<^item> \<open>Fs_Config\<close>, \<open>Fs_Pathsafe\<close>, \<open>Fs_Trash\<close>, \<open>Fs_Writer\<close>: \<open>config.py\<close>, \<open>pathsafe.py\<close>, \<open>quota.py\<close> and \<open>trash.py\<close>,
    \<open>writer.py\<close> of \<open>agentic/fsconnect/\<close>, on POSIX. A script in the state says what other processes do to the store before
    each system call and which calls fail. Containment, confidentiality of reads and the end of the search hold for every script;
    the gates, the atomicity of a write and the descriptors of a removal are shown for scripts in which calls may fail and no other process acts, and what
    the search for the largest files returns for an empty one. \<open>Fs_Demo\<close> is a small store for the witnesses.
  \<^item> \<open>Effect_Contract\<close>: the locale \<open>contract\<close>, an invariant with a relation between the states before and after;
    \<open>Fs_Confine\<close> interprets it for containment (\<open>Fs_Writer_Claims\<close>: no write leaves its roots, under any interference) and
    \<open>Fs_Audit_Claims\<close> for the gates (no change without them and, but for the ledgers of quotas and the emptying of the trash, none without a recorded
    intent). \<open>Fs_Descriptor_Claims\<close> interprets \<open>frame\<close>: no descriptor leaks, except in one race, which is exhibited. \<open>Fs_Atomic_Claims\<close>: a write is atomic. \<open>Fs_Findings\<close>: runs that contradict the comments.
  \<^item> \<open>Fs_Client\<close>: the read operations, \<open>client.py\<close>. \<open>Fs_Confidential\<close>: two stores that agree below the roots give the same answers and
    records to requests that name no root or the first root literally. \<open>Fs_Largest\<close>: the bounded search for the largest files ends, and finds them if it is not cut off.
  \<^item> \<open>Spend\<close>: \<open>utils/spend.py\<close>, the token ledger: parsing of usage reports, rows, prices, the warning about old prices. Shown: the type of a row,
    what a price is, one warning per process. \<open>Sequence_Detect\<close>: \<open>utils/sequence_detect.py\<close>, the joins of the ledger with the audit log.
    Shown: the rule with the binary search equals a full search, a recorded call after an injection is reported unless a malformed row makes the detection raise, findings copy only listed fields.
  \<^item> \<open>Py_Text\<close>, \<open>Py_Re\<close>: lines, and a backtracking matcher for the patterns of \<open>re\<close> that the synchronisation uses.
  \<^item> \<open>Sync_Config\<close>, \<open>Sync_Filters\<close>, \<open>Sync_Log\<close>, \<open>Sync_Runner\<close>: \<open>config.py\<close>, \<open>filters.py\<close> and \<open>runner.py\<close> of \<open>sync/\<close>. The host (clock, the
    outcomes and outputs of the runs of rclone) is a record of functions; the log file is part of the state, emptied, appended to and read as in the code. \<open>Sync_Filters\<close> shows that the hardened exclusions hold; \<open>Sync_Claims\<close> interprets \<open>frame\<close> for
    the records and for the evidence of changes, bounds the runs, and shows that each run's own output is read; \<open>Sync_Command\<close>: the command line of a loaded configuration, and a run. \<open>Sync_Lock\<close>: the
    lock as a step relation of processes that take it, give it back or crash, and \<open>run_sync\<close>.

  \<^bold>\<open>Parameters.\<close> Code outside the repository is an argument: scrypt, SHA-256 and the random
  source (a record of functions with their documented laws as named hypotheses), the vector store, BM25 and the
  Porter stemmer, the hook process, the generation clients, the guard callables, the IP address parser,
  the JSON codec, the compiler of regular expressions that users pass, the parser and printer of ISO time stamps, rclone (its outputs, and the first-match
  reading of its filter file as a named hypothesis) and the expansion of \<open>~\<close> and environment variables. Time is an argument of the operations
  that read the clock.

  \<^bold>\<open>Bounds.\<close> Loops are structural recursion or have a termination proof, and the graph runs down a rank
  of its nodes, so every definition is total. The search for the largest files has one unit of fuel for each entry it may
  visit and one more (\<open>max_entries + 1\<close>); \<open>fs_largest_terminates\<close> shows that it never runs out. The depths in the code are its own: 40 symbolic links in the
  kernel's path walk, 64 levels in purging and globbing. The retry loop of the synchronisation recurses on the retries that are left. The poll
  loop runs for a number of batches, the parameter \<open>max_iterations\<close> of the code; the loop that writes the offset ends with the failures of the disk. Floats are exact rationals, and strings range over the first 256 code
  points.

  \<^bold>\<open>Not modelled.\<close> HTTP parsing and routing (Starlette, FastAPI), the routes around the personality, operations and
  memory, the personality store (a parameter of the graph), the agentic tools that drive Git, SQL and the network, the harness (a second HTTP server), the publishing connector,
  the schedulers and the command line of the synchronisation, the guardrail implementations and the vendor clients (parameters of the graph), the MCP server and the
  index builder (calls of their libraries), metrics, telemetry switches and installers (files and host configuration); the Windows branches of the
  filesystem connector and of the lock; locks of the gateway and connection handling, whose effect is that an operation is one step.
\<close>

end
